(* ===== verification/Prelude.thy ===== *)
theory Prelude
  imports Main "HOL-Library.Word" "HOL-Library.AList" "HOL-Library.List_Lexorder" "HOL-Library.Char_ord"
begin

text \<open>
  Shared vocabulary of the development: the machine integers and results of the Rust
  source, time, hash maps, and the generic lemmas and theorem collections that the
  component theories rely on.

  \<^item> A Rust \<open>Result\<close> is a sum, \<open>Err\<close> on the left and \<open>Ok\<close> on the right, so that
    every early return is a value.
  \<^item> An \<open>Instant\<close> is the number of nanoseconds since an arbitrary origin of the
    monotonic clock and a \<open>Duration\<close> is a number of nanoseconds;
    \<open>saturating_duration_since\<close> is therefore the truncated subtraction of naturals.
  \<^item> A \<open>HashMap\<close> is an association list with distinct keys whose order stands for
    the unspecified iteration order of the map.
\<close>

unbundle bit_operations_syntax

type_synonym u8 = "8 word"
type_synonym u16 = "16 word"
type_synonym u32 = "32 word"
type_synonym u64 = "64 word"

type_synonym bytes = "u8 list"

named_theorems replay_simps \<open>equations of the replay window\<close>
named_theorems frame_simps \<open>equations and sizes of the wire format\<close>
named_theorems keys_simps \<open>distinctness of the keys of updated hash maps\<close>
named_theorems keeps \<open>fields an operation leaves alone\<close>

subsection \<open>Results\<close>

type_synonym ('e, 'a) result = "'e + 'a"

abbreviation Err :: "'e \<Rightarrow> ('e, 'a) result" where "Err \<equiv> Inl"
abbreviation Ok :: "'a \<Rightarrow> ('e, 'a) result" where "Ok \<equiv> Inr"

definition ok_or :: "'e \<Rightarrow> 'a option \<Rightarrow> ('e, 'a) result" where
  "ok_or e x = (case x of None \<Rightarrow> Err e | Some y \<Rightarrow> Ok y)"

lemma ok_or_simps [simp]: "ok_or e None = Err e" "ok_or e (Some y) = Ok y"
  by (simp_all add: ok_or_def)

lemma ok_or_eq_Ok [simp]: "ok_or e x = Ok y \<longleftrightarrow> x = Some y"
  by (cases x) simp_all

definition map_err :: "('e \<Rightarrow> 'f) \<Rightarrow> ('e, 'a) result \<Rightarrow> ('f, 'a) result" where
  "map_err f r = (case r of Inl e \<Rightarrow> Err (f e) | Inr x \<Rightarrow> Ok x)"

lemma map_err_simps [simp]: "map_err f (Err e) = Err (f e)" "map_err f (Ok x) = Ok x"
  by (simp_all add: map_err_def)

lemma map_err_eq_Ok [simp]: "map_err f r = Ok x \<longleftrightarrow> r = Ok x"
  by (cases r) simp_all

subsection \<open>Time\<close>

type_synonym instant = nat
type_synonym duration = nat

definition secs :: "nat \<Rightarrow> duration" where
  "secs n = n * 1000000000"

definition duration_since :: "instant \<Rightarrow> instant \<Rightarrow> duration" where
  "duration_since later earlier = later - earlier"

lemma secs_mono [simp]: "secs a \<le> secs b \<longleftrightarrow> a \<le> b"
  by (simp add: secs_def)

lemma secs_pos [simp]: "0 < secs a \<longleftrightarrow> 0 < a"
  by (simp add: secs_def)

lemma secs_eq_0 [simp]: "secs a = 0 \<longleftrightarrow> a = 0"
  by (simp add: secs_def)

lemma duration_since_le [simp]: "later \<le> earlier \<Longrightarrow> duration_since later earlier = 0"
  by (simp add: duration_since_def)

lemma duration_since_mono: "t \<le> t' \<Longrightarrow> duration_since t e \<le> duration_since t' e"
  by (simp add: duration_since_def diff_le_mono)

subsection \<open>Integers\<close>

definition checked_add_u64 :: "u64 \<Rightarrow> u64 \<Rightarrow> u64 option" where
  "checked_add_u64 a b = (if unat a + unat b < 2 ^ 64 then Some (a + b) else None)"

definition saturating_add_u64 :: "u64 \<Rightarrow> u64 \<Rightarrow> u64" where
  "saturating_add_u64 a b = (if unat a + unat b < 2 ^ 64 then a + b else - 1)"

lemma unat_lt_2_64: "unat (a :: u64) < 2 ^ 64"
  using unsigned_less [of a] by simp

lemma unat_max_u64: "unat (- 1 :: u64) = 2 ^ 64 - 1"
  by (simp add: unsigned_minus_1_eq_mask mask_eq_exp_minus_1)

lemma checked_add_u64_Some:
  "checked_add_u64 a b = Some c \<longleftrightarrow> unat a + unat b < 2 ^ 64 \<and> c = a + b"
  by (auto simp: checked_add_u64_def)

lemma checked_add_u64_unat: "checked_add_u64 a b = Some c \<Longrightarrow> unat c = unat a + unat b"
  by (auto simp: checked_add_u64_Some unat_word_ariths)

lemma checked_add_u64_1_None: "checked_add_u64 a 1 = None \<longleftrightarrow> a = - 1"
proof -
  have "a = - 1 \<longleftrightarrow> unat a = 2 ^ 64 - 1"
    by (metis unat_max_u64 word_unat_eq_iff)
  moreover have "unat a < 2 ^ 64" by (rule unat_lt_2_64)
  ultimately show ?thesis
    unfolding checked_add_u64_def by auto
qed

lemma saturating_add_u64_mono: "a \<le> saturating_add_u64 a b"
proof (cases "unat a + unat b < 2 ^ 64")
  case True
  then have "unat (a + b) = unat a + unat b" by (simp add: unat_word_ariths)
  with True show ?thesis by (simp add: saturating_add_u64_def word_le_nat_alt)
next
  case False
  then show ?thesis by (simp add: saturating_add_u64_def)
qed

lemma unat_lt_2_16: "unat (a :: u16) < 65536"
  using unsigned_less [of a] by simp

lemma unat_ucast_u16_u64 [simp]: "unat (ucast (x :: u16) :: u64) = unat x"
  using unat_lt_2_16 [of x] by (simp add: unsigned_ucast_eq take_bit_nat_eq_self_iff)

subsection \<open>Hash maps\<close>

type_synonym ('k, 'v) hmap = "('k \<times> 'v) list"

abbreviation hm_get :: "('k, 'v) hmap \<Rightarrow> 'k \<Rightarrow> 'v option" where
  "hm_get m k \<equiv> map_of m k"

abbreviation hm_insert :: "'k \<Rightarrow> 'v \<Rightarrow> ('k, 'v) hmap \<Rightarrow> ('k, 'v) hmap" where
  "hm_insert k v m \<equiv> AList.update k v m"

abbreviation hm_remove :: "'k \<Rightarrow> ('k, 'v) hmap \<Rightarrow> ('k, 'v) hmap" where
  "hm_remove k m \<equiv> AList.delete k m"

definition hm_contains :: "('k, 'v) hmap \<Rightarrow> 'k \<Rightarrow> bool" where
  "hm_contains m k = (map_of m k \<noteq> None)"

definition hm_retain :: "('k \<Rightarrow> 'v \<Rightarrow> bool) \<Rightarrow> ('k, 'v) hmap \<Rightarrow> ('k, 'v) hmap" where
  "hm_retain p m = filter (\<lambda>(k, v). p k v) m"

definition hm_find_key :: "('v \<Rightarrow> bool) \<Rightarrow> ('k, 'v) hmap \<Rightarrow> 'k option" where
  "hm_find_key p m = map_option fst (find (\<lambda>(k, v). p v) m)"

abbreviation hm_wf :: "('k, 'v) hmap \<Rightarrow> bool" where
  "hm_wf m \<equiv> distinct (map fst m)"

declare map_of_eq_Some_iff [simp del] Some_eq_map_of_iff [simp del]

lemma hm_get_insert [simp]:
  "hm_get (hm_insert k v m) k' = (if k' = k then Some v else hm_get m k')"
  by (simp add: update_conv')

lemma hm_get_remove [simp]:
  "hm_get (hm_remove k m) k' = (if k' = k then None else hm_get m k')"
  by (simp add: delete_conv')

lemma hm_wf_insert [keys_simps]: "hm_wf m \<Longrightarrow> hm_wf (hm_insert k v m)"
  by (rule distinct_update)

lemma hm_wf_remove [keys_simps]: "hm_wf m \<Longrightarrow> hm_wf (hm_remove k m)"
  by (rule distinct_delete)

lemma hm_wf_retain [keys_simps]: "hm_wf m \<Longrightarrow> hm_wf (hm_retain p m)"
  by (induction m) (auto simp: hm_retain_def)

lemma hm_get_retain:
  "hm_wf m \<Longrightarrow> hm_get (hm_retain p m) k =
    (case hm_get m k of None \<Rightarrow> None | Some v \<Rightarrow> if p k v then Some v else None)"
proof (induction m)
  case Nil
  then show ?case by (simp add: hm_retain_def)
next
  case (Cons kv m)
  obtain k0 v0 where kv: "kv = (k0, v0)" by (cases kv)
  from Cons.prems kv have fresh: "hm_get m k0 = None" and wf: "hm_wf m"
    by (auto simp: map_of_eq_None_iff)
  from Cons.IH [OF wf] fresh show ?case
    by (auto simp: kv hm_retain_def split: option.splits)
qed

lemma hm_find_key_Some:
  assumes "hm_wf m" and "hm_find_key p m = Some k"
  obtains v where "hm_get m k = Some v" and "p v"
proof -
  from assms(2) obtain v where "find (\<lambda>(k, v). p v) m = Some (k, v)"
    unfolding hm_find_key_def by auto
  then have "(k, v) \<in> set m" and "p v"
    by (auto simp: find_Some_iff in_set_conv_nth)
  with assms(1) that show thesis by (metis map_of_is_SomeI)
qed

lemma hm_find_key_None:
  "hm_find_key p m = None \<longleftrightarrow> (\<forall>(k, v) \<in> set m. \<not> p v)"
  by (auto simp: hm_find_key_def find_None_iff)

lemma hm_find_key_None_get:
  assumes "hm_find_key p m = None" and "hm_get m k = Some v"
  shows "\<not> p v"
  using assms map_of_SomeD [OF assms(2)] by (auto simp: hm_find_key_None)

lemma hm_contains_insert [simp]: "hm_contains (hm_insert k v m) k' \<longleftrightarrow> k' = k \<or> hm_contains m k'"
  by (simp add: hm_contains_def)

lemma hm_contains_remove [simp]: "hm_contains (hm_remove k m) k' \<longleftrightarrow> k' \<noteq> k \<and> hm_contains m k'"
  by (simp add: hm_contains_def)

subsection \<open>State machines\<close>

inductive reachable :: "('s \<Rightarrow> bool) \<Rightarrow> ('s \<Rightarrow> 's \<Rightarrow> bool) \<Rightarrow> 's \<Rightarrow> bool" for init step where
  start: "init s \<Longrightarrow> reachable init step s"
| succ: "reachable init step s \<Longrightarrow> step s s' \<Longrightarrow> reachable init step s'"

text \<open>A component that other components drive by arbitrary sequences of its operations.\<close>

locale state_machine =
  fixes init :: "'s \<Rightarrow> bool" and step :: "'s \<Rightarrow> 's \<Rightarrow> bool" and inv :: "'s \<Rightarrow> bool"
  assumes init_inv: "init s \<Longrightarrow> inv s"
    and step_inv: "inv s \<Longrightarrow> step s s' \<Longrightarrow> inv s'"
begin

lemma reachable_inv: "reachable init step s \<Longrightarrow> inv s"
  by (induction rule: reachable.induct) (blast intro: init_inv step_inv)+

lemma steps_inv: "step\<^sup>*\<^sup>* s s' \<Longrightarrow> inv s \<Longrightarrow> inv s'"
  by (induction rule: rtranclp_induct) (blast intro: step_inv)+

lemma reachable_steps: "step\<^sup>*\<^sup>* s s' \<Longrightarrow> reachable init step s \<Longrightarrow> reachable init step s'"
  by (induction rule: rtranclp_induct) (auto intro: reachable.succ)

end

end
