(* ===== verification/RustStd.thy ===== *)
theory RustStd
  imports Prelude
begin

text \<open>
  The parts of the Rust standard library that the source computes with: big-endian
  encodings of integers, the addresses of \<open>std::net\<close>, and \<open>str::trim\<close> and its relatives
  on UTF-8 strings. A \<open>str\<close> is the list of its UTF-8 bytes (\<open>string\<close>), so
  \<open>length\<close> is Rust's \<open>len\<close>; the lexicographic order of byte lists is Rust's order on
  arrays and strings.
\<close>

subsection \<open>Big-endian integers\<close>

definition be_byte :: "u64 \<Rightarrow> nat \<Rightarrow> u8" where
  "be_byte c i = ucast (drop_bit (8 * i) c)"

definition to_be_bytes_u64 :: "u64 \<Rightarrow> bytes" where
  "to_be_bytes_u64 c = map (be_byte c) (rev [0..<8])"

definition from_be_bytes_u64 :: "bytes \<Rightarrow> u64" where
  "from_be_bytes_u64 bs = foldl (\<lambda>acc b. push_bit 8 acc OR ucast b) 0 bs"

definition to_be_bytes_u16 :: "u16 \<Rightarrow> bytes" where
  "to_be_bytes_u16 c = [ucast (drop_bit 8 c), ucast c]"

definition from_be_bytes_u16 :: "u8 \<Rightarrow> u8 \<Rightarrow> u16" where
  "from_be_bytes_u16 a b = push_bit 8 (ucast a) OR ucast b"

definition to_be_bytes_u32 :: "u32 \<Rightarrow> bytes" where
  "to_be_bytes_u32 c =
    [ucast (drop_bit 24 c), ucast (drop_bit 16 c), ucast (drop_bit 8 c), ucast c]"

definition from_be_bytes_u32 :: "u8 \<Rightarrow> u8 \<Rightarrow> u8 \<Rightarrow> u8 \<Rightarrow> u32" where
  "from_be_bytes_u32 a b c d =
    push_bit 24 (ucast a) OR push_bit 16 (ucast b) OR push_bit 8 (ucast c) OR ucast d"

lemma length_to_be_bytes_u64 [simp, frame_simps]: "length (to_be_bytes_u64 c) = 8"
  by (simp add: to_be_bytes_u64_def)

lemma length_to_be_bytes_u16 [simp, frame_simps]: "length (to_be_bytes_u16 c) = 2"
  by (simp add: to_be_bytes_u16_def)

lemma bit_be_byte: "bit (be_byte c i) n \<longleftrightarrow> n < 8 \<and> bit c (8 * i + n)"
  by (auto simp: be_byte_def bit_ucast_iff bit_drop_bit_eq dest: bit_imp_le_length)

lemma nth_to_be_bytes_u64: "k < 8 \<Longrightarrow> to_be_bytes_u64 c ! k = be_byte c (7 - k)"
  by (simp add: to_be_bytes_u64_def rev_nth)

lemma bit_from_be_bytes_u64:
  "n < 64 \<Longrightarrow> bit (from_be_bytes_u64 bs) n \<longleftrightarrow>
    n div 8 < length bs \<and> bit (bs ! (length bs - 1 - n div 8)) (n mod 8)"
proof (induction bs arbitrary: n rule: rev_induct)
  case Nil
  then show ?case by (simp add: from_be_bytes_u64_def)
next
  case (snoc b bs)
  have step: "bit (from_be_bytes_u64 (bs @ [b])) n \<longleftrightarrow>
      8 \<le> n \<and> bit (from_be_bytes_u64 bs) (n - 8) \<or> bit b n"
    using snoc.prems
    by (auto simp: from_be_bytes_u64_def bit_or_iff bit_push_bit_iff bit_ucast_iff)
  show ?case
  proof (cases "8 \<le> n")
    case True
    then have nb: "\<not> bit b n" by (auto dest: bit_imp_le_length)
    from True obtain m where m: "n = m + 8" by (metis le_iff_add add.commute)
    have d: "(n - 8) div 8 = n div 8 - 1" "(n - 8) mod 8 = n mod 8" "1 \<le> n div 8"
      by (simp_all add: m)
    have len: "length (bs @ [b]) - 1 - n div 8 = length bs - 1 - (n div 8 - 1)"
      using d(3) by simp
    show ?thesis
      using snoc.IH [of "n - 8"] snoc.prems True d(3)
      unfolding step len d(1,2) using nb by (auto simp: nth_append)
  next
    case False
    then show ?thesis unfolding step by (simp add: nth_append)
  qed
qed

lemma u64_of_be_bytes [frame_simps]: "from_be_bytes_u64 (to_be_bytes_u64 c) = c"
proof (rule bit_word_eqI)
  fix n
  assume "n < LENGTH(64)"
  then have n: "n < 64" and d: "n div 8 < 8" by simp_all
  show "bit (from_be_bytes_u64 (to_be_bytes_u64 c)) n = bit c n"
    unfolding bit_from_be_bytes_u64 [OF n]
    using d by (simp add: nth_to_be_bytes_u64 bit_be_byte)
qed

lemma be_bytes_of_u64:
  assumes len: "length bs = 8"
  shows "to_be_bytes_u64 (from_be_bytes_u64 bs) = bs"
proof (rule nth_equalityI)
  fix k
  assume "k < length (to_be_bytes_u64 (from_be_bytes_u64 bs))"
  then have k: "k < 8" by simp
  show "to_be_bytes_u64 (from_be_bytes_u64 bs) ! k = bs ! k"
    unfolding nth_to_be_bytes_u64 [OF k]
  proof (rule bit_word_eqI)
    fix n
    assume "n < LENGTH(8)"
    then have n: "n < 8" by simp
    then have div: "(8 * (7 - k) + n) div 8 = 7 - k" "(8 * (7 - k) + n) mod 8 = n"
      and lt: "8 * (7 - k) + n < 64" by simp_all
    show "bit (be_byte (from_be_bytes_u64 bs) (7 - k)) n = bit (bs ! k) n"
      using n k less_imp_diff_less [of 7 8 k]
      by (simp add: bit_be_byte bit_from_be_bytes_u64 [OF lt] div len)
  qed
qed (simp add: len)

lemma u16_of_be_bytes: "from_be_bytes_u16 (ucast (drop_bit 8 c)) (ucast c) = c"
  by (rule bit_word_eqI)
    (auto simp: from_be_bytes_u16_def bit_or_iff bit_push_bit_iff bit_ucast_iff bit_drop_bit_eq)

subsection \<open>Network addresses\<close>

text \<open>
  An IPv4 address is its 32-bit value, an IPv6 address its 128-bit value. The flow
  label and scope of an IPv6 socket address are kept, since equality compares them.
\<close>

type_synonym ipv4 = u32
type_synonym ipv6 = "128 word"

datatype ip_addr = IpV4 ipv4 | IpV6 ipv6

datatype socket_addr = V4 ipv4 u16 | V6 ipv6 u16 u32 u32

fun sa_ip :: "socket_addr \<Rightarrow> ip_addr" where
  "sa_ip (V4 a p) = IpV4 a"
| "sa_ip (V6 a p f s) = IpV6 a"

fun sa_port :: "socket_addr \<Rightarrow> u16" where
  "sa_port (V4 a p) = p"
| "sa_port (V6 a p f s) = p"

fun is_unspecified :: "ip_addr \<Rightarrow> bool" where
  "is_unspecified (IpV4 a) = (a = 0)"
| "is_unspecified (IpV6 a) = (a = 0)"

fun is_ipv4 :: "socket_addr \<Rightarrow> bool" where
  "is_ipv4 (V4 a p) = True"
| "is_ipv4 (V6 a p f s) = False"

definition ipv4_new :: "u8 \<Rightarrow> u8 \<Rightarrow> u8 \<Rightarrow> u8 \<Rightarrow> ipv4" where
  "ipv4_new a b c d = from_be_bytes_u32 a b c d"

subsection \<open>Strings\<close>

text \<open>The UTF-8 encodings of the characters with the Unicode property White_Space.\<close>

definition utf8 :: "nat list \<Rightarrow> string" where
  "utf8 = map (\<lambda>n. char_of n)"

definition white_space :: "string list" where
  "white_space =
    map (\<lambda>n. utf8 [n]) [9, 10, 11, 12, 13, 32] @
    [utf8 [194, 133], utf8 [194, 160], utf8 [225, 154, 128]] @
    map (\<lambda>n. utf8 [226, 128, n]) [128, 129, 130, 131, 132, 133, 134, 135, 136, 137, 138, 168, 169, 175] @
    [utf8 [226, 129, 159], utf8 [227, 128, 128]]"

definition starts_with :: "string \<Rightarrow> string \<Rightarrow> bool" where
  "starts_with s p \<longleftrightarrow> take (length p) s = p"

definition ends_with :: "string \<Rightarrow> string \<Rightarrow> bool" where
  "ends_with s p \<longleftrightarrow> starts_with (rev s) (rev p)"

function trim_start :: "string \<Rightarrow> string" where
  "trim_start s =
    (case find (\<lambda>p. starts_with s p \<and> p \<noteq> []) white_space of
       None \<Rightarrow> s
     | Some p \<Rightarrow> trim_start (drop (length p) s))"
  by pat_completeness auto
termination
proof (relation "measure length")
  fix s p
  assume "find (\<lambda>p. starts_with s p \<and> p \<noteq> []) white_space = Some p"
  then have "starts_with s p" and "p \<noteq> []" by (auto simp: find_Some_iff)
  then have "0 < length p" and "s \<noteq> []" by (auto simp: starts_with_def)
  then show "(drop (length p) s, s) \<in> measure length" by simp
qed simp

declare trim_start.simps [simp del]

text \<open>UTF-8 is self-synchronising: the last character is found from its last byte.\<close>

function trim_end :: "string \<Rightarrow> string" where
  "trim_end s =
    (case find (\<lambda>p. ends_with s p \<and> p \<noteq> []) white_space of
       None \<Rightarrow> s
     | Some p \<Rightarrow> trim_end (take (length s - length p) s))"
  by pat_completeness auto
termination
proof (relation "measure length")
  fix s p
  assume "find (\<lambda>p. ends_with s p \<and> p \<noteq> []) white_space = Some p"
  then have "ends_with s p" and "p \<noteq> []" by (auto simp: find_Some_iff)
  then have "0 < length p" and "s \<noteq> []" by (auto simp: ends_with_def starts_with_def)
  then show "(take (length s - length p) s, s) \<in> measure length" by simp
qed simp

declare trim_end.simps [simp del]

definition trim :: "string \<Rightarrow> string" where
  "trim s = trim_end (trim_start s)"

definition is_ascii_digit :: "char \<Rightarrow> bool" where
  "is_ascii_digit c \<longleftrightarrow> 48 \<le> (of_char c :: nat) \<and> (of_char c :: nat) \<le> 57"

definition is_ascii_alphanumeric :: "char \<Rightarrow> bool" where
  "is_ascii_alphanumeric c \<longleftrightarrow>
    is_ascii_digit c \<or> (65 \<le> (of_char c :: nat) \<and> (of_char c :: nat) \<le> 90)
      \<or> (97 \<le> (of_char c :: nat) \<and> (of_char c :: nat) \<le> 122)"

text \<open>\<open>str::split\<close> on one character, and \<open>str::rsplit_once\<close>.\<close>

fun split_on :: "char \<Rightarrow> string \<Rightarrow> string list" where
  "split_on c [] = [[]]"
| "split_on c (x # xs) =
    (if x = c then [] # split_on c xs
     else case split_on c xs of [] \<Rightarrow> [[x]] | p # ps \<Rightarrow> (x # p) # ps)"

definition rsplit_once :: "char \<Rightarrow> string \<Rightarrow> (string \<times> string) option" where
  "rsplit_once c s =
    (if c \<notin> set s then None
     else let tl_part = rev (takeWhile (\<lambda>x. x \<noteq> c) (rev s))
          in Some (take (length s - length tl_part - 1) s, tl_part))"

text \<open>A string of letters and digits has nothing to trim.\<close>

lemma white_space_not_alphanumeric:
  "p \<in> set white_space \<Longrightarrow> p \<noteq> [] \<and> \<not> is_ascii_alphanumeric (hd p) \<and> \<not> is_ascii_alphanumeric (last p)"
  by (auto simp: white_space_def utf8_def is_ascii_alphanumeric_def is_ascii_digit_def)

lemma trim_alphanumeric:
  assumes "list_all is_ascii_alphanumeric s"
  shows "trim s = s"
proof -
  have "\<not> starts_with s p" if "p \<in> set white_space" for p
  proof
    assume "starts_with s p"
    then have "p \<noteq> [] \<Longrightarrow> hd p \<in> set s"
      by (metis append_take_drop_id hd_in_set in_set_takeD starts_with_def)
    with white_space_not_alphanumeric [OF that] assms show False by (simp add: list_all_iff)
  qed
  then have 1: "trim_start s = s"
    by (subst trim_start.simps) (auto simp: find_None_iff find_Some_iff split: option.splits)
  have "\<not> ends_with s p" if "p \<in> set white_space" for p
  proof
    assume "ends_with s p"
    then have "p \<noteq> [] \<Longrightarrow> last p \<in> set s"
      unfolding ends_with_def starts_with_def
      by (metis in_set_takeD last_in_set set_rev)
    with white_space_not_alphanumeric [OF that] assms show False by (simp add: list_all_iff)
  qed
  then have "trim_end s = s"
    by (subst trim_end.simps) (auto simp: find_None_iff find_Some_iff split: option.splits)
  with 1 show ?thesis by (simp add: trim_def)
qed

text \<open>\<open>rsplit_once\<close> cuts at the last occurrence.\<close>

lemma rsplit_once_Some:
  assumes "rsplit_once c s = Some (a, b)"
  shows "s = a @ c # b \<and> c \<notin> set b"
proof -
  from assms have c: "c \<in> set s" and b: "b = rev (takeWhile (\<lambda>x. x \<noteq> c) (rev s))"
    and a: "a = take (length s - length b - 1) s"
    by (auto simp: rsplit_once_def Let_def split: if_splits)
  define t where "t = dropWhile (\<lambda>x. x \<noteq> c) (rev s)"
  from c have t: "t \<noteq> []" "hd t = c"
    using hd_dropWhile [of "\<lambda>x. x \<noteq> c" "rev s"]
    by (auto simp: t_def dropWhile_eq_Nil_conv)
  have "rev s = rev b @ t"
    by (simp add: b t_def)
  then have s: "s = rev t @ b" by (metis rev_append rev_rev_ident)
  moreover have "rev t = rev (tl t) @ [c]"
    using t by (metis list.collapse rev.simps(2))
  ultimately have "s = rev (tl t) @ c # b" by simp
  moreover from this a have "a = rev (tl t)" by simp
  moreover have "c \<notin> set b"
    unfolding b by (auto dest: set_takeWhileD)
  ultimately show ?thesis by simp
qed

end
