(* ===== verification/Auth.thy ===== *)
theory Auth
  imports RustStd
begin

text \<open>
  \<^verbatim>\<open>src/src/auth.rs\<close>: the public framing of the v3 wire protocol. Packets, session
  identifiers and messages are byte lists; a \<open>[u8; 8]\<close> is a list of length 8. The
  contract \<open>codec\<close> states what an encoder and a decoder owe each other; it is
  interpreted on the handshake frame, the transport frame and the transport plaintext.
\<close>

definition WIRE_VERSION :: u8 where "WIRE_VERSION = 3"
definition SESSION_ID_SIZE :: nat where "SESSION_ID_SIZE = 8"
definition COUNTER_SIZE :: nat where "COUNTER_SIZE = 8"
definition HANDSHAKE_HEADER_SIZE :: nat where "HANDSHAKE_HEADER_SIZE = 1 + 1 + SESSION_ID_SIZE"
definition TRANSPORT_HEADER_SIZE :: nat where
  "TRANSPORT_HEADER_SIZE = HANDSHAKE_HEADER_SIZE + COUNTER_SIZE"
definition MIN_TRANSPORT_PACKET_SIZE :: nat where
  "MIN_TRANSPORT_PACKET_SIZE = TRANSPORT_HEADER_SIZE + 1 + 16"

definition KEEPALIVE_PROBE_PAYLOAD :: bytes where "KEEPALIVE_PROBE_PAYLOAD = [1]"
definition KEEPALIVE_ACK_PAYLOAD :: bytes where "KEEPALIVE_ACK_PAYLOAD = [2]"

definition HANDSHAKE_PROLOGUE_PREFIX :: bytes where
  "HANDSHAKE_PROLOGUE_PREFIX = map of_char ''HushWire-v3-handshake''"

lemmas auth_consts = WIRE_VERSION_def SESSION_ID_SIZE_def COUNTER_SIZE_def
  HANDSHAKE_HEADER_SIZE_def TRANSPORT_HEADER_SIZE_def MIN_TRANSPORT_PACKET_SIZE_def

datatype packet_kind = Transport | HandshakeInit | HandshakeResponse

fun kind_u8 :: "packet_kind \<Rightarrow> u8" where
  "kind_u8 Transport = 0"
| "kind_u8 HandshakeInit = 1"
| "kind_u8 HandshakeResponse = 2"

definition kind_from_u8 :: "u8 \<Rightarrow> packet_kind option" where
  "kind_from_u8 v =
    (if v = 0 then Some Transport
     else if v = 1 then Some HandshakeInit
     else if v = 2 then Some HandshakeResponse
     else None)"

fun is_handshake :: "packet_kind \<Rightarrow> bool" where
  "is_handshake Transport = False"
| "is_handshake HandshakeInit = True"
| "is_handshake HandshakeResponse = True"

datatype msg_type = Data | Keepalive

fun msg_u8 :: "msg_type \<Rightarrow> u8" where
  "msg_u8 Data = 0"
| "msg_u8 Keepalive = 1"

definition msg_from_u8 :: "u8 \<Rightarrow> msg_type option" where
  "msg_from_u8 v = (if v = 0 then Some Data else if v = 1 then Some Keepalive else None)"

datatype parsed_packet =
    PHandshake packet_kind bytes bytes
  | PTransport bytes u64 bytes

definition encode_handshake :: "packet_kind \<Rightarrow> bytes \<Rightarrow> bytes \<Rightarrow> bytes" where
  "encode_handshake kind handshake_id message =
    [WIRE_VERSION] @ [kind_u8 kind] @ handshake_id @ message"

definition encode_transport :: "bytes \<Rightarrow> u64 \<Rightarrow> bytes \<Rightarrow> bytes" where
  "encode_transport session_id counter ciphertext =
    [WIRE_VERSION] @ [kind_u8 Transport] @ session_id @ to_be_bytes_u64 counter @ ciphertext"

definition slice :: "nat \<Rightarrow> nat \<Rightarrow> 'a list \<Rightarrow> 'a list" where
  "slice a b xs = take (b - a) (drop a xs)"

text \<open>Every slice below is taken after the length test that keeps it in range.\<close>

definition decode_packet :: "bytes \<Rightarrow> parsed_packet option" where
  "decode_packet packet =
    (if length packet < HANDSHAKE_HEADER_SIZE \<or> packet ! 0 \<noteq> WIRE_VERSION then None
     else
       case kind_from_u8 (packet ! 1) of
         None \<Rightarrow> None
       | Some kind \<Rightarrow>
           let i = slice 2 HANDSHAKE_HEADER_SIZE packet in
           if is_handshake kind then
             let message = drop HANDSHAKE_HEADER_SIZE packet in
             if message = [] then None else Some (PHandshake kind i message)
           else if length packet < MIN_TRANSPORT_PACKET_SIZE then None
           else
             Some (PTransport i
               (from_be_bytes_u64 (slice HANDSHAKE_HEADER_SIZE TRANSPORT_HEADER_SIZE packet))
               (drop TRANSPORT_HEADER_SIZE packet)))"

definition encode_transport_plaintext :: "msg_type \<Rightarrow> bytes \<Rightarrow> bytes" where
  "encode_transport_plaintext m payload = msg_u8 m # payload"

definition decode_transport_plaintext :: "bytes \<Rightarrow> (msg_type \<times> bytes) option" where
  "decode_transport_plaintext plaintext =
    (case plaintext of
       [] \<Rightarrow> None
     | first # payload \<Rightarrow> map_option (\<lambda>m. (m, payload)) (msg_from_u8 first))"

definition handshake_prologue :: "bytes \<Rightarrow> bytes" where
  "handshake_prologue handshake_id =
    HANDSHAKE_PROLOGUE_PREFIX @ [WIRE_VERSION] @ handshake_id"

subsection \<open>The contract of a codec\<close>

locale codec =
  fixes enc :: "'a \<Rightarrow> bytes" and dec :: "bytes \<Rightarrow> 'a option" and valid :: "'a \<Rightarrow> bool"
  assumes dec_enc: "valid x \<Longrightarrow> dec (enc x) = Some x"
    and enc_dec: "dec bs = Some x \<Longrightarrow> valid x \<and> enc x = bs"
begin

lemma dec_iff: "dec bs = Some x \<longleftrightarrow> valid x \<and> bs = enc x"
  using dec_enc enc_dec by blast

lemma enc_inj: "valid x \<Longrightarrow> valid y \<Longrightarrow> enc x = enc y \<longleftrightarrow> x = y"
  using dec_enc by (metis option.inject)

lemma dec_None_iff: "dec bs = None \<longleftrightarrow> (\<forall>x. valid x \<longrightarrow> bs \<noteq> enc x)"
  using dec_iff by (metis not_None_eq)

end

fun encode_parsed :: "parsed_packet \<Rightarrow> bytes" where
  "encode_parsed (PHandshake kind i message) = encode_handshake kind i message"
| "encode_parsed (PTransport i counter ciphertext) = encode_transport i counter ciphertext"

text \<open>What the two encoders are called with: 8-byte identifiers, a handshake kind with a
non-empty message, or a ciphertext that holds a message type and an AEAD tag.\<close>

fun valid_parsed :: "parsed_packet \<Rightarrow> bool" where
  "valid_parsed (PHandshake kind i message) \<longleftrightarrow>
    is_handshake kind \<and> length i = SESSION_ID_SIZE \<and> message \<noteq> []"
| "valid_parsed (PTransport i counter ciphertext) \<longleftrightarrow>
    length i = SESSION_ID_SIZE \<and> 17 \<le> length ciphertext"

lemma kind_from_to [simp]: "kind_from_u8 (kind_u8 k) = Some k"
  by (cases k) (simp_all add: kind_from_u8_def)

lemma kind_from_0 [simp]: "kind_from_u8 0 = Some Transport"
  by (simp add: kind_from_u8_def)

lemma kind_from_Some: "kind_from_u8 v = Some k \<longleftrightarrow> v = kind_u8 k"
  by (cases k) (auto simp: kind_from_u8_def)

lemma msg_from_to [simp]: "msg_from_u8 (msg_u8 m) = Some m"
  by (cases m) (simp_all add: msg_from_u8_def)

lemma msg_from_Some: "msg_from_u8 v = Some m \<longleftrightarrow> v = msg_u8 m"
  by (cases m) (auto simp: msg_from_u8_def)

lemma decode_encode_parsed: "valid_parsed p \<Longrightarrow> decode_packet (encode_parsed p) = Some p"
  by (cases p)
    (auto simp: decode_packet_def encode_handshake_def encode_transport_def auth_consts Let_def
      slice_def u64_of_be_bytes kind_from_Some split: option.splits)

lemma header_split:
  assumes "10 \<le> length (packet :: bytes)"
  shows "packet = [packet ! 0, packet ! 1] @ slice 2 10 packet @ drop 10 packet"
proof -
  have "packet = take 2 packet @ take 8 (drop 2 packet) @ drop 8 (drop 2 packet)"
    by (simp only: append_take_drop_id)
  moreover have "take 2 packet = [packet ! 0, packet ! 1]"
    using assms by (cases packet; cases "tl packet") simp_all
  ultimately show ?thesis by (simp add: slice_def)
qed

lemma encode_decode_parsed:
  assumes "decode_packet bs = Some p"
  shows "valid_parsed p \<and> encode_parsed p = bs"
proof -
  from assms have len: "10 \<le> length bs" and v: "bs ! 0 = WIRE_VERSION"
    by (auto simp: decode_packet_def auth_consts not_less split: if_splits)
  from assms obtain k where k: "bs ! 1 = kind_u8 k"
    by (auto simp: decode_packet_def kind_from_Some split: if_splits option.splits)
  note split = header_split [OF len]
  have id: "length (slice 2 10 bs) = 8" using len by (simp add: slice_def)
  show ?thesis
  proof (cases "is_handshake k")
    case True
    with assms k have "p = PHandshake k (slice 2 10 bs) (drop 10 bs)" and "drop 10 bs \<noteq> []"
      by (auto simp: decode_packet_def auth_consts Let_def split: if_splits)
    with True id split v k show ?thesis
      by (simp add: encode_handshake_def SESSION_ID_SIZE_def)
  next
    case False
    then have T: "k = Transport" by (cases k) simp_all
    from assms k False have p: "p = PTransport (slice 2 10 bs) (from_be_bytes_u64 (slice 10 18 bs))
        (drop 18 bs)" and l35: "35 \<le> length bs"
      by (auto simp: decode_packet_def auth_consts Let_def split: if_splits)
    have c: "to_be_bytes_u64 (from_be_bytes_u64 (slice 10 18 bs)) = slice 10 18 bs"
      using l35 by (intro be_bytes_of_u64) (simp add: slice_def)
    have "drop 10 bs = slice 10 18 bs @ drop 18 bs"
      using append_take_drop_id [of 8 "drop 10 bs"] by (simp add: slice_def)
    with p c id split v k l35 T show ?thesis
      by (simp add: encode_transport_def SESSION_ID_SIZE_def)
  qed
qed

interpretation wire: codec encode_parsed decode_packet valid_parsed
  by unfold_locales (simp_all add: decode_encode_parsed encode_decode_parsed)

interpretation plaintext: codec "\<lambda>(m, payload). encode_transport_plaintext m payload"
    decode_transport_plaintext "\<lambda>_. True"
  by unfold_locales
    (auto simp: encode_transport_plaintext_def decode_transport_plaintext_def msg_from_Some
      split: list.splits)

lemma length_encode_handshake [frame_simps]:
  "length (encode_handshake k i m) = 2 + length i + length m"
  by (simp add: encode_handshake_def)

lemma length_encode_transport [frame_simps]:
  "length (encode_transport i c ct) = 10 + length i + length ct"
  by (simp add: encode_transport_def)

lemma length_encode_plaintext [frame_simps]:
  "length (encode_transport_plaintext m p) = Suc (length p)"
  by (simp add: encode_transport_plaintext_def)

lemma decode_encode_handshake:
  "is_handshake k \<Longrightarrow> length i = SESSION_ID_SIZE \<Longrightarrow> m \<noteq> [] \<Longrightarrow>
    decode_packet (encode_handshake k i m) = Some (PHandshake k i m)"
  using wire.dec_enc [of "PHandshake k i m"] by simp

lemma decode_encode_transport:
  "length i = SESSION_ID_SIZE \<Longrightarrow> 17 \<le> length ct \<Longrightarrow>
    decode_packet (encode_transport i c ct) = Some (PTransport i c ct)"
  using wire.dec_enc [of "PTransport i c ct"] by simp

lemma decode_encode_plaintext [simp]:
  "decode_transport_plaintext (encode_transport_plaintext m p) = Some (m, p)"
  using plaintext.dec_enc [of "(m, p)"] by simp

lemma decoded_id_length:
  "decode_packet bs = Some (PHandshake k i m) \<Longrightarrow> length i = SESSION_ID_SIZE"
  "decode_packet bs = Some (PTransport i c ct) \<Longrightarrow> length i = SESSION_ID_SIZE"
  by (auto dest: wire.enc_dec)

text \<open>The prologue binds the identifier: distinct handshakes have distinct prologues.\<close>

lemma handshake_prologue_inj [simp]: "handshake_prologue a = handshake_prologue b \<longleftrightarrow> a = b"
  by (simp add: handshake_prologue_def)

subsection \<open>Properties\<close>

text \<open>C13: The wire format is an exact bijection: a byte string decodes to a packet if and only
if it is the encoding of that packet by \<open>encode_handshake\<close> or \<open>encode_transport\<close> and the packet
is well formed (8-byte identifier, handshake kind with a non-empty message, or a ciphertext of
at least 17 bytes). So no two packets share an encoding and nothing else is accepted.\<close>

theorem decode_packet_exact:
  "decode_packet bs = Some p \<longleftrightarrow> valid_parsed p \<and> bs = encode_parsed p"
  by (rule wire.dec_iff)

text \<open>The semantic message type and payload survive the plaintext encoding, and a plaintext
decodes only if its first byte is a known message type.\<close>

lemma plaintext_round_trip:
  "decode_transport_plaintext bs = Some (m, payload) \<longleftrightarrow>
    bs = encode_transport_plaintext m payload"
  using plaintext.dec_iff [of bs "(m, payload)"] by simp

end
