(* ===== verification/Replay.thy ===== *)
theory Replay
  imports Prelude
begin

text \<open>
  \<^verbatim>\<open>src/src/replay.rs\<close>: the 4096-packet replay window of a Noise transport direction.
  The window is modelled word for word; an abstract guard that remembers the whole set of
  authenticated counters is its specification, and the lemmas show that the bit array
  with its word and bit shifts refines it.
\<close>

definition DEFAULT_WINDOW_SIZE :: nat where "DEFAULT_WINDOW_SIZE = 4096"
definition WORD_BITS :: nat where "WORD_BITS = 64"
definition WINDOW_WORDS :: nat where "WINDOW_WORDS = DEFAULT_WINDOW_SIZE div WORD_BITS"

lemmas window_consts = DEFAULT_WINDOW_SIZE_def WORD_BITS_def WINDOW_WORDS_def

record replay_window =
  highest :: "u64 option"
  bits :: "u64 list"

definition replay_new :: replay_window where
  "replay_new = \<lparr>highest = None, bits = replicate WINDOW_WORDS 0\<rparr>"

definition bit_is_set :: "replay_window \<Rightarrow> nat \<Rightarrow> bool" where
  "bit_is_set w distance =
    (let word = distance div WORD_BITS; b = distance mod WORD_BITS
     in (bits w ! word) AND push_bit b 1 \<noteq> 0)"

definition set_bit_at :: "replay_window \<Rightarrow> nat \<Rightarrow> replay_window" where
  "set_bit_at w distance =
    (let word = distance div WORD_BITS; b = distance mod WORD_BITS
     in w\<lparr>bits := (bits w)[word := (bits w ! word) OR push_bit b 1]\<rparr>)"

text \<open>The loop of \<open>shift_older\<close> over the old words; \<open>break\<close> ends it early.\<close>

fun shift_words :: "nat \<Rightarrow> nat \<Rightarrow> nat \<Rightarrow> u64 list \<Rightarrow> u64 list \<Rightarrow> u64 list" where
  "shift_words word_shift bit_shift source_word [] acc = acc"
| "shift_words word_shift bit_shift source_word (value # old) acc =
    (let destination_word = source_word + word_shift in
     if destination_word \<ge> WINDOW_WORDS then acc
     else
       let acc1 = acc[destination_word := acc ! destination_word OR push_bit bit_shift value];
           acc2 = (if bit_shift \<noteq> 0 \<and> destination_word + 1 < WINDOW_WORDS
                   then acc1[destination_word + 1 :=
                          acc1 ! (destination_word + 1) OR drop_bit (WORD_BITS - bit_shift) value]
                   else acc1)
       in shift_words word_shift bit_shift (Suc source_word) old acc2)"

definition shift_older :: "replay_window \<Rightarrow> u64 \<Rightarrow> replay_window" where
  "shift_older w amount =
    (if amount \<ge> of_nat DEFAULT_WINDOW_SIZE then w\<lparr>bits := replicate WINDOW_WORDS 0\<rparr>
     else
       let n = unat amount; word_shift = n div WORD_BITS; bit_shift = n mod WORD_BITS
       in w\<lparr>bits := shift_words word_shift bit_shift 0 (bits w) (replicate WINDOW_WORDS 0)\<rparr>)"

definition would_accept :: "replay_window \<Rightarrow> u64 \<Rightarrow> bool" where
  "would_accept w counter =
    (case highest w of
       None \<Rightarrow> True
     | Some h \<Rightarrow>
         if counter > h then True
         else
           let distance = h - counter in
           if distance \<ge> of_nat DEFAULT_WINDOW_SIZE then False
           else \<not> bit_is_set w (unat distance))"

definition mark_authenticated :: "replay_window \<Rightarrow> u64 \<Rightarrow> bool \<times> replay_window" where
  "mark_authenticated w counter =
    (if \<not> would_accept w counter then (False, w)
     else
       (True,
        case highest w of
          None \<Rightarrow> w\<lparr>highest := Some counter, bits := (bits w)[0 := 1]\<rparr>
        | Some h \<Rightarrow>
            if counter > h then
              let w1 = shift_older w (counter - h); w2 = w1\<lparr>highest := Some counter\<rparr>
              in w2\<lparr>bits := (bits w2)[0 := (bits w2 ! 0) OR 1]\<rparr>
            else set_bit_at w (unat (h - counter))))"


subsection \<open>The bit array\<close>

definition replay_wf :: "replay_window \<Rightarrow> bool" where
  "replay_wf w \<longleftrightarrow> length (bits w) = WINDOW_WORDS"

lemma replay_wf_new [simp]: "replay_wf replay_new"
  by (simp add: replay_wf_def replay_new_def)

lemma bit_is_set_bit [replay_simps]:
  "bit_is_set w d \<longleftrightarrow> bit (bits w ! (d div WORD_BITS)) (d mod WORD_BITS)"
  by (simp add: bit_is_set_def Let_def bit_iff_and_push_bit_not_eq_0)

lemma length_shift_words [simp]:
  "length (shift_words ws bs src old acc) = length acc"
  by (induction ws bs src old acc rule: shift_words.induct) (simp_all add: Let_def)

lemma shift_words_nth:
  assumes "length acc = WINDOW_WORDS" and "j < WINDOW_WORDS"
  shows "shift_words ws bs src old acc ! j =
    (acc ! j OR (if src + ws \<le> j \<and> j < src + ws + length old
                 then push_bit bs (old ! (j - ws - src)) else 0))
     OR (if bs \<noteq> 0 \<and> src + ws < j \<and> j \<le> src + ws + length old
         then drop_bit (WORD_BITS - bs) (old ! (j - ws - src - 1)) else 0)"
  using assms
proof (induction old arbitrary: src acc)
  case Nil
  then show ?case by auto
next
  case (Cons v old)
  show ?case
  proof (cases "src + ws \<ge> WINDOW_WORDS")
    case True
    with Cons.prems show ?thesis by (simp add: Let_def)
  next
    case False
    let ?d = "src + ws"
    let ?acc1 = "acc[?d := acc ! ?d OR push_bit bs v]"
    let ?acc2 = "if bs \<noteq> 0 \<and> ?d + 1 < WINDOW_WORDS
       then ?acc1[?d + 1 := ?acc1 ! (?d + 1) OR drop_bit (WORD_BITS - bs) v] else ?acc1"
    have step: "shift_words ws bs src (v # old) acc = shift_words ws bs (Suc src) old ?acc2"
      using False by (simp add: Let_def)
    have len: "length ?acc2 = WINDOW_WORDS" using Cons.prems by simp
    have acc2: "?acc2 ! j = (acc ! j OR (if j = ?d then push_bit bs v else 0))
        OR (if bs \<noteq> 0 \<and> j = ?d + 1 then drop_bit (WORD_BITS - bs) v else 0)"
      using Cons.prems False by (auto simp: nth_list_update)
    show ?thesis
      unfolding step Cons.IH [OF len Cons.prems(2)] acc2
      by (auto simp: nth_Cons' or.assoc or.commute or.left_commute Suc_diff_Suc numeral_eq_Suc not_less_eq_eq)
  qed
qed

lemma shifted_bit_above:
  fixes bs i j ws :: nat
  assumes "i < 64" and "bs \<le> i"
  shows "64 * ws + bs \<le> 64 * j + i \<longleftrightarrow> ws \<le> j"
    and "ws \<le> j \<Longrightarrow> (64 * j + i - (64 * ws + bs)) div 64 = j - ws"
    and "ws \<le> j \<Longrightarrow> (64 * j + i - (64 * ws + bs)) mod 64 = i - bs"
proof -
  have *: "64 * j + i - (64 * ws + bs) = (i - bs) + (j - ws) * 64" if "ws \<le> j"
    using that assms by (auto simp: le_iff_add)
  show "(64 * j + i - (64 * ws + bs)) div 64 = j - ws" if "ws \<le> j"
    using assms(1) that by (simp add: *)
  show "(64 * j + i - (64 * ws + bs)) mod 64 = i - bs" if "ws \<le> j"
    unfolding * [OF that] using assms(1) by (metis mod_mult_self1 mod_less less_imp_diff_less)
qed (use assms in arith)

lemma shifted_bit_below:
  fixes bs i j ws :: nat
  assumes "bs < 64" and "i < bs"
  shows "64 * ws + bs \<le> 64 * j + i \<longleftrightarrow> ws < j"
    and "ws < j \<Longrightarrow> (64 * j + i - (64 * ws + bs)) div 64 = j - ws - 1"
    and "ws < j \<Longrightarrow> (64 * j + i - (64 * ws + bs)) mod 64 = 64 - bs + i"
proof -
  have *: "64 * j + i - (64 * ws + bs) = (64 - bs + i) + (j - ws - 1) * 64" if "ws < j"
    using that assms by (auto simp: less_iff_Suc_add)
  have lt: "64 - bs + i < 64" using assms by arith
  show "(64 * j + i - (64 * ws + bs)) div 64 = j - ws - 1" if "ws < j"
    unfolding * [OF that] using lt by (simp only: div_mult_self1)
  show "(64 * j + i - (64 * ws + bs)) mod 64 = 64 - bs + i" if "ws < j"
    unfolding * [OF that] using lt by (metis mod_mult_self1 mod_less)
qed (use assms in arith)

lemma bit_shift_older:
  assumes wf: "replay_wf w" and amount: "unat amount < 4096" and d: "d < 4096"
  shows "bit_is_set (shift_older w amount) d \<longleftrightarrow> unat amount \<le> d \<and> bit_is_set w (d - unat amount)"
proof -
  define n where "n = unat amount"
  define ws bs j i where "ws = n div 64" and "bs = n mod 64" and "j = d div 64" and "i = d mod 64"
  have n: "n = 64 * ws + bs" and dd: "d = 64 * j + i" and lt: "bs < 64" "i < 64"
    by (simp_all add: ws_def bs_def j_def i_def)
  have j: "j < 64" using d by (simp add: j_def)
  have small: "\<not> amount \<ge> of_nat DEFAULT_WINDOW_SIZE"
    using amount by (simp add: window_consts word_le_nat_alt not_le)
  have len: "length (bits w) = 64" using wf by (simp add: replay_wf_def window_consts)
  have "bits (shift_older w amount) ! j =
     shift_words ws bs 0 (bits w) (replicate WINDOW_WORDS 0) ! j"
    using small by (simp add: shift_older_def Let_def n_def ws_def bs_def WORD_BITS_def)
  also have "\<dots> = (if ws \<le> j then push_bit bs (bits w ! (j - ws)) else 0)
     OR (if bs \<noteq> 0 \<and> ws < j then drop_bit (64 - bs) (bits w ! (j - ws - 1)) else 0)"
    using j len by (subst shift_words_nth) (auto simp: window_consts)
  finally have word: "bits (shift_older w amount) ! j = \<dots>" .
  have "bit_is_set (shift_older w amount) d \<longleftrightarrow>
     (if bs \<le> i then ws \<le> j \<and> bit (bits w ! (j - ws)) (i - bs)
      else ws < j \<and> bit (bits w ! (j - ws - 1)) (64 - bs + i))"
    unfolding bit_is_set_bit WORD_BITS_def j_def [symmetric] i_def [symmetric] word
    using lt by (auto simp: bit_or_iff bit_push_bit_iff bit_drop_bit_eq dest: bit_imp_le_length)
  also have "\<dots> \<longleftrightarrow> n \<le> d \<and> bit_is_set w (d - n)"
    unfolding bit_is_set_bit WORD_BITS_def n dd
    using shifted_bit_above [OF lt(2), of bs ws j] shifted_bit_below [OF lt(1), of i ws j]
    by (cases "bs \<le> i") (auto simp: not_le)
  finally show ?thesis unfolding n_def .
qed

lemma bit_shift_older_far:
  assumes "\<not> unat amount < 4096" and "d < 4096"
  shows "\<not> bit_is_set (shift_older w amount) d"
  using assms by (simp add: shift_older_def window_consts word_le_nat_alt bit_is_set_bit not_less)

lemma replay_wf_shift [simp]: "replay_wf w \<Longrightarrow> replay_wf (shift_older w a)"
  by (simp add: replay_wf_def shift_older_def Let_def)

lemma highest_shift [simp]: "highest (shift_older w a) = highest w"
  by (simp add: shift_older_def Let_def)

lemma bit_set_bit_at:
  assumes "replay_wf w" and "d < 4096" and "e < 4096"
  shows "bit_is_set (set_bit_at w d) e \<longleftrightarrow> e = d \<or> bit_is_set w e"
proof -
  have eq: "e = d \<longleftrightarrow> e div 64 = d div 64 \<and> e mod 64 = d mod 64"
    by (metis div_mult_mod_eq)
  have "bit (push_bit (d mod 64) (1 :: u64)) (e mod 64) \<longleftrightarrow> e mod 64 = d mod 64"
    by (auto simp: bit_exp_iff possible_bit_def)
  then show ?thesis
    using assms
    by (auto simp: bit_is_set_bit set_bit_at_def Let_def window_consts replay_wf_def
        nth_list_update bit_or_iff eq)
qed


subsection \<open>The contract of a replay guard\<close>

text \<open>
  The counters a sequence of attempts gets accepted, and the state it leaves, for any
  operation that answers whether it recorded its argument.
\<close>

fun accepted_of :: "('s \<Rightarrow> 'c \<Rightarrow> bool \<times> 's) \<Rightarrow> 's \<Rightarrow> 'c list \<Rightarrow> 'c list" where
  "accepted_of mark s [] = []"
| "accepted_of mark s (c # cs) =
    (case mark s c of (ok, s') \<Rightarrow> (if ok then [c] else []) @ accepted_of mark s' cs)"

fun after_marks :: "('s \<Rightarrow> 'c \<Rightarrow> bool \<times> 's) \<Rightarrow> 's \<Rightarrow> 'c list \<Rightarrow> 's" where
  "after_marks mark s [] = s"
| "after_marks mark s (c # cs) = after_marks mark (snd (mark s c)) cs"

text \<open>
  What a session relies on: \<open>tracks s S\<close> says that the guard's state \<open>s\<close> stands for
  the set \<open>S\<close> of all counters authenticated so far.
\<close>

locale replay_guard =
  fixes check :: "'s \<Rightarrow> 'c \<Rightarrow> bool"
    and mark :: "'s \<Rightarrow> 'c \<Rightarrow> bool \<times> 's"
    and tracks :: "'s \<Rightarrow> 'c set \<Rightarrow> bool"
  assumes mark_result: "tracks s S \<Longrightarrow> fst (mark s c) = check s c"
    and check_fresh: "tracks s S \<Longrightarrow> check s c \<Longrightarrow> c \<notin> S"
    and mark_accepts: "tracks s S \<Longrightarrow> check s c \<Longrightarrow> tracks (snd (mark s c)) (insert c S)"
    and mark_rejects: "tracks s S \<Longrightarrow> \<not> check s c \<Longrightarrow> snd (mark s c) = s"
begin

lemma mark_tracks:
  "tracks s S \<Longrightarrow> tracks (snd (mark s c)) (if check s c then insert c S else S)"
  using mark_accepts mark_rejects by auto

lemma accepted_tracks:
  "tracks s S \<Longrightarrow> tracks (after_marks mark s cs) (S \<union> set (accepted_of mark s cs))"
proof (induction cs arbitrary: s S)
  case Nil
  then show ?case by simp
next
  case (Cons c cs)
  have "tracks (after_marks mark (snd (mark s c)) cs)
      ((if check s c then insert c S else S) \<union> set (accepted_of mark (snd (mark s c)) cs))"
    by (rule Cons.IH [OF mark_tracks [OF Cons.prems]])
  with mark_result [OF Cons.prems, of c] show ?case
    by (auto simp: case_prod_beta split: if_splits)
qed

lemma accepted_fresh: "tracks s S \<Longrightarrow> set (accepted_of mark s cs) \<inter> S = {}"
proof (induction cs arbitrary: s S)
  case Nil
  then show ?case by simp
next
  case (Cons c cs)
  from Cons.IH [OF mark_tracks [OF Cons.prems, of c]]
    mark_result [OF Cons.prems, of c] check_fresh [OF Cons.prems, of c]
  show ?case by (auto simp: case_prod_beta split: if_splits)
qed

lemma accepted_distinct: "tracks s S \<Longrightarrow> distinct (accepted_of mark s cs)"
proof (induction cs arbitrary: s S)
  case Nil
  then show ?case by simp
next
  case (Cons c cs)
  note tr = mark_tracks [OF Cons.prems, of c]
  from Cons.IH [OF tr] accepted_fresh [OF tr, of cs] mark_result [OF Cons.prems, of c]
  show ?case by (auto simp: case_prod_beta split: if_splits)
qed

lemma recorded_rejected:
  assumes "tracks s S" and "c \<in> S"
  shows "mark s c = (False, s)"
  using assms check_fresh mark_result mark_rejects by (metis prod.collapse)

end

subsection \<open>The window refines the set of authenticated counters\<close>

definition replay_tracks :: "replay_window \<Rightarrow> u64 set \<Rightarrow> bool" where
  "replay_tracks w S \<longleftrightarrow> replay_wf w \<and>
    (case highest w of
       None \<Rightarrow> S = {} \<and> bits w = replicate WINDOW_WORDS 0
     | Some h \<Rightarrow> h \<in> S \<and> (\<forall>c \<in> S. c \<le> h) \<and>
         (\<forall>c. c \<le> h \<longrightarrow> unat (h - c) < DEFAULT_WINDOW_SIZE \<longrightarrow>
            (bit_is_set w (unat (h - c)) \<longleftrightarrow> c \<in> S)))"

text \<open>The specification: acceptance in terms of the whole history of counters.\<close>

definition spec_accepts :: "u64 set \<Rightarrow> u64 \<Rightarrow> bool" where
  "spec_accepts S c \<longleftrightarrow>
    S = {} \<or> Max S < c \<or> (unat (Max S) - unat c < DEFAULT_WINDOW_SIZE \<and> c \<notin> S)"

lemma replay_tracks_new: "replay_tracks replay_new {}"
  by (simp add: replay_tracks_def replay_new_def replay_wf_def)

lemma tracks_Max: "replay_tracks w S \<Longrightarrow> highest w = Some h \<Longrightarrow> Max S = h"
  by (auto simp: replay_tracks_def intro: Max_eqI)

lemma would_accept_spec:
  assumes "replay_tracks w S"
  shows "would_accept w c \<longleftrightarrow> spec_accepts S c"
proof (cases "highest w")
  case None
  with assms show ?thesis by (simp add: would_accept_def spec_accepts_def replay_tracks_def)
next
  case (Some h)
  have Max: "Max S = h" by (rule tracks_Max [OF assms Some])
  from assms Some have S: "S \<noteq> {}"
    and bits: "\<And>c. c \<le> h \<Longrightarrow> unat (h - c) < DEFAULT_WINDOW_SIZE \<Longrightarrow>
      bit_is_set w (unat (h - c)) \<longleftrightarrow> c \<in> S"
    by (auto simp: replay_tracks_def)
  show ?thesis
  proof (cases "h < c")
    case True
    with Some Max S show ?thesis by (simp add: would_accept_def spec_accepts_def)
  next
    case False
    then have "c \<le> h" and d: "unat (h - c) = unat h - unat c"
      by (simp_all add: unat_sub)
    with Some Max S False bits [of c] show ?thesis
      by (auto simp: would_accept_def spec_accepts_def Let_def word_le_nat_alt
          DEFAULT_WINDOW_SIZE_def)
  qed
qed

lemma set_bit_0: "set_bit_at w 0 = w\<lparr>bits := (bits w)[0 := bits w ! 0 OR 1]\<rparr>"
  by (simp add: set_bit_at_def)

lemma replay_wf_set_bit [simp]: "replay_wf w \<Longrightarrow> replay_wf (set_bit_at w d)"
  by (simp add: replay_wf_def set_bit_at_def Let_def)

lemma highest_set_bit [simp]: "highest (set_bit_at w d) = highest w"
  by (simp add: set_bit_at_def Let_def)

lemma replay_wf_highest [simp]: "replay_wf (w\<lparr>highest := h\<rparr>) = replay_wf w"
  by (simp add: replay_wf_def)

lemma bit_is_set_highest [simp]: "bit_is_set (w\<lparr>highest := h\<rparr>) d = bit_is_set w d"
  by (simp add: bit_is_set_def)

text \<open>A counter above \<open>highest\<close>: the window slides by the difference.\<close>

lemma slide_tracks:
  assumes tr: "replay_tracks w S" and h: "highest w = Some h" and c: "h < c"
  shows "replay_tracks (set_bit_at ((shift_older w (c - h))\<lparr>highest := Some c\<rparr>) 0) (insert c S)"
proof -
  from tr h have wf: "replay_wf w" and le: "\<And>x. x \<in> S \<Longrightarrow> x \<le> h"
    and bits: "\<And>x. x \<le> h \<Longrightarrow> unat (h - x) < 4096 \<Longrightarrow> bit_is_set w (unat (h - x)) \<longleftrightarrow> x \<in> S"
    by (auto simp: replay_tracks_def DEFAULT_WINDOW_SIZE_def)
  have hc: "unat (c - h) = unat c - unat h" "unat h < unat c"
    using c by (simp_all add: unat_sub less_imp_le flip: word_less_nat_alt)
  have "bit_is_set (set_bit_at ((shift_older w (c - h))\<lparr>highest := Some c\<rparr>) 0) (unat (c - x))
      \<longleftrightarrow> x = c \<or> x \<in> S" if x: "x \<le> c" "unat (c - x) < 4096" for x
  proof -
    have xc: "unat (c - x) = unat c - unat x" "unat x \<le> unat c"
      using x by (simp_all add: unat_sub word_le_nat_alt)
    have zero: "unat (c - x) = 0 \<longleftrightarrow> x = c"
      using xc by (auto simp: word_unat_eq_iff)
    have "bit_is_set (shift_older w (c - h)) (unat (c - x)) \<longleftrightarrow> x \<in> S" if "x \<noteq> c"
    proof (cases "x \<le> h")
      case True
      then have hx: "unat (h - x) = unat h - unat x" "unat x \<le> unat h"
        by (simp_all add: unat_sub word_le_nat_alt)
      have "unat (c - h) < 4096" and "unat (h - x) < 4096"
        and "unat (c - x) - unat (c - h) = unat (h - x)" and "unat (c - h) \<le> unat (c - x)"
        using hc xc hx x(2) by linarith+
      then show ?thesis
        using bit_shift_older [OF wf _ x(2), of "c - h"] bits [OF True] by simp
    next
      case False
      then have "unat h < unat x" by (simp add: word_le_nat_alt not_le)
      then have less: "unat (c - x) < unat (c - h)" using hc xc by linarith
      then have "\<not> bit_is_set (shift_older w (c - h)) (unat (c - x))"
        using bit_shift_older [OF wf _ x(2), of "c - h"] bit_shift_older_far [of "c - h", OF _ x(2)]
        by (cases "unat (c - h) < 4096") simp_all
      with False le show ?thesis by blast
    qed
    then show ?thesis
      using bit_set_bit_at [of "(shift_older w (c - h))\<lparr>highest := Some c\<rparr>" 0 "unat (c - x)"]
        wf x(2) zero by auto
  qed
  then show ?thesis
    using wf c le by (fastforce simp: replay_tracks_def DEFAULT_WINDOW_SIZE_def)
qed

lemma first_tracks:
  assumes "replay_tracks w S" and "highest w = None"
  shows "replay_tracks (w\<lparr>highest := Some c, bits := (bits w)[0 := 1]\<rparr>) (insert c S)"
proof -
  from assms have S: "S = {}" and b: "bits w = replicate 64 0"
    by (simp_all add: replay_tracks_def window_consts)
  define w' where "w' = w\<lparr>highest := Some c, bits := (bits w)[0 := 1]\<rparr>"
  have w': "w' = set_bit_at (w\<lparr>highest := Some c\<rparr>) 0"
    by (simp add: w'_def set_bit_0 b)
  have wf: "replay_wf (w\<lparr>highest := Some c\<rparr>)"
    by (simp add: replay_wf_def b window_consts)
  have clear: "\<not> bit_is_set (w\<lparr>highest := Some c\<rparr>) d" if "d < 4096" for d
    using that by (simp add: bit_is_set_bit b window_consts)
  have "bit_is_set w' (unat (c - x)) \<longleftrightarrow> x = c" if "x \<le> c" "unat (c - x) < 4096" for x
    using bit_set_bit_at [OF wf _ that(2), of 0] clear [OF that(2)] that(1)
    by (auto simp: w' unat_sub word_unat_eq_iff word_le_nat_alt)
  then have "replay_tracks w' (insert c S)"
    using wf by (simp add: replay_tracks_def S w' DEFAULT_WINDOW_SIZE_def)
  then show ?thesis by (simp add: w'_def)
qed

lemma mark_fst: "fst (mark_authenticated w c) = would_accept w c"
  by (simp add: mark_authenticated_def)

lemma mark_rejected: "\<not> would_accept w c \<Longrightarrow> mark_authenticated w c = (False, w)"
  by (simp add: mark_authenticated_def)

lemma mark_tracks_insert:
  assumes tr: "replay_tracks w S" and ok: "would_accept w c"
  shows "replay_tracks (snd (mark_authenticated w c)) (insert c S)"
proof (cases "highest w")
  case None
  with first_tracks [OF tr None] ok show ?thesis by (simp add: mark_authenticated_def)
next
  case (Some h)
  show ?thesis
  proof (cases "h < c")
    case True
    with slide_tracks [OF tr Some True] ok Some show ?thesis
      by (simp add: mark_authenticated_def Let_def set_bit_0)
  next
    case False
    then have c: "c \<le> h" "unat (h - c) = unat h - unat c" by (simp_all add: unat_sub)
    from ok Some False have d: "unat (h - c) < 4096"
      by (auto simp: would_accept_def Let_def word_le_nat_alt DEFAULT_WINDOW_SIZE_def split: if_splits)
    from tr Some have wf: "replay_wf w" by (simp add: replay_tracks_def)
    have same: "unat (h - x) = unat (h - c) \<longleftrightarrow> x = c" if "x \<le> h" for x
      using that c by (auto simp: unat_sub word_le_nat_alt word_unat_eq_iff)
    have "bit_is_set (set_bit_at w (unat (h - c))) (unat (h - x)) \<longleftrightarrow> x = c \<or> x \<in> S"
      if "x \<le> h" "unat (h - x) < 4096" for x
      using bit_set_bit_at [OF wf d that(2)] same [OF that(1)] tr Some that
      by (auto simp: replay_tracks_def DEFAULT_WINDOW_SIZE_def)
    then have "replay_tracks (set_bit_at w (unat (h - c))) (insert c S)"
      using tr Some c by (auto simp: replay_tracks_def DEFAULT_WINDOW_SIZE_def)
    with ok Some False show ?thesis by (simp add: mark_authenticated_def)
  qed
qed

lemma would_accept_fresh: "replay_tracks w S \<Longrightarrow> would_accept w c \<Longrightarrow> c \<notin> S"
  unfolding would_accept_spec spec_accepts_def
  using Max_ge [of S c] finite [of S] by (auto simp: not_le [symmetric])

interpretation window: replay_guard would_accept mark_authenticated replay_tracks
  by unfold_locales
    (simp_all add: mark_fst would_accept_fresh mark_tracks_insert mark_rejected)

subsection \<open>Properties\<close>

text \<open>C1: The word-and-bit implementation of the replay window refines its specification,
the set of all authenticated counters: \<open>would_accept\<close> answers exactly what the
specification answers (first counter, a counter above the maximum, or an unseen counter less
than 4096 behind it), and \<open>mark_authenticated\<close> gives that answer, records exactly the
accepted counters and preserves the representation.\<close>

theorem replay_window_refines:
  assumes "replay_tracks w S"
  shows "would_accept w c = spec_accepts S c
    \<and> fst (mark_authenticated w c) = spec_accepts S c
    \<and> replay_tracks (snd (mark_authenticated w c)) (if spec_accepts S c then insert c S else S)"
  using window.mark_tracks [OF assms, of c] would_accept_spec [OF assms, of c]
  by (simp add: mark_fst)

theorem replay_window_refines_witness:
  "replay_tracks replay_new {} \<and> fst (mark_authenticated replay_new 7) = spec_accepts {} 7"
  using replay_window_refines [OF replay_tracks_new, of 7] replay_tracks_new by blast

text \<open>Over any sequence of authenticated packets, in whatever order and with whatever
repetitions the network delivers them, the replay window of a session accepts no counter
twice.\<close>

lemma replay_never_accepts_twice:
  "distinct (accepted_of mark_authenticated replay_new cs)"
  by (rule window.accepted_distinct [OF replay_tracks_new])

end
