(* ===== verification/Noise.thy ===== *)
theory Noise
  imports Auth Replay
begin

text \<open>
  \<^verbatim>\<open>src/src/noise.rs\<close>: Noise sessions (nonce counters, replay protection, rekey and expiry
  deadlines) and the two handshake roles.

  The \<open>snow\<close> state machines, the operating system's random generator and the monotonic
  clock are not code of the repository: they are the fields of the parameter record
  \<open>runtime\<close>, over arbitrary types of handshake states \<open>'hs\<close>, transport states \<open>'ts\<close> and
  worlds \<open>'w\<close>. The world is threaded through every operation that draws random bytes or
  reads the clock. A key is its 32 bytes, a \<open>snow::Error\<close> its message. A buffer argument is
  represented by its size and the returned bytes are the written prefix of the buffer.
\<close>

type_synonym snow_error = string

record ('hs, 'ts, 'w) runtime =
  fill_bytes :: "nat \<Rightarrow> 'w \<Rightarrow> bytes \<times> 'w"
  instant_now :: "'w \<Rightarrow> instant \<times> 'w"
  build_initiator :: "bytes \<Rightarrow> bytes \<Rightarrow> bytes \<Rightarrow> bytes \<Rightarrow> (snow_error, 'hs) result"
  build_responder :: "bytes \<Rightarrow> bytes \<Rightarrow> bytes \<Rightarrow> (snow_error, 'hs) result"
  hs_write :: "'hs \<Rightarrow> bytes \<Rightarrow> nat \<Rightarrow> 'w \<Rightarrow> (snow_error, bytes \<times> 'hs) result \<times> 'w"
  hs_read :: "'hs \<Rightarrow> bytes \<Rightarrow> nat \<Rightarrow> (snow_error, bytes \<times> 'hs) result"
  hs_remote_static :: "'hs \<Rightarrow> bytes option"
  hs_transport :: "'hs \<Rightarrow> (snow_error, 'ts) result"
  ts_write :: "'ts \<Rightarrow> u64 \<Rightarrow> bytes \<Rightarrow> nat \<Rightarrow> (snow_error, bytes) result"
  ts_read :: "'ts \<Rightarrow> u64 \<Rightarrow> bytes \<Rightarrow> nat \<Rightarrow> (snow_error, bytes) result"

subsection \<open>Computations that use the world\<close>

type_synonym ('w, 'e, 'a) io = "'w \<Rightarrow> ('e, 'a) result \<times> 'w"

definition io_lift :: "('e, 'a) result \<Rightarrow> ('w, 'e, 'a) io" where
  "io_lift r w = (r, w)"

definition io_bind :: "('w, 'e, 'a) io \<Rightarrow> ('a \<Rightarrow> ('w, 'e, 'b) io) \<Rightarrow> ('w, 'e, 'b) io" where
  "io_bind m f w = (case m w of (Inl e, w') \<Rightarrow> (Err e, w') | (Inr x, w') \<Rightarrow> f x w')"

definition io_map_err :: "('e \<Rightarrow> 'f) \<Rightarrow> ('w, 'e, 'a) io \<Rightarrow> ('w, 'f, 'a) io" where
  "io_map_err g m w = (case m w of (r, w') \<Rightarrow> (map_err g r, w'))"

definition io_draw :: "('w \<Rightarrow> 'a \<times> 'w) \<Rightarrow> ('w, 'e, 'a) io" where
  "io_draw g w = (case g w of (x, w') \<Rightarrow> (Ok x, w'))"

lemma io_bind_Ok:
  "io_bind m f w = (Ok y, w'') \<longleftrightarrow> (\<exists>x w'. m w = (Ok x, w') \<and> f x w' = (Ok y, w''))"
  by (auto simp: io_bind_def split: prod.splits sum.splits)

lemma io_lift_Ok: "io_lift r w = (Ok y, w') \<longleftrightarrow> r = Ok y \<and> w' = w"
  by (auto simp: io_lift_def)

lemma io_map_err_Ok: "io_map_err g m w = (Ok y, w') \<longleftrightarrow> m w = (Ok y, w')"
  by (auto simp: io_map_err_def split: prod.splits)

lemma io_draw_Ok: "io_draw g w = (Ok y, w') \<longleftrightarrow> g w = (y, w')"
  by (auto simp: io_draw_def split: prod.splits)

lemmas io_Ok = io_bind_Ok io_lift_Ok io_map_err_Ok io_draw_Ok

subsection \<open>Constants, errors and sessions\<close>

definition REKEY_AFTER_TIME :: duration where "REKEY_AFTER_TIME = secs 120"
definition REJECT_AFTER_TIME :: duration where "REJECT_AFTER_TIME = secs 180"
definition REKEY_AFTER_MESSAGES :: u64 where "REKEY_AFTER_MESSAGES = push_bit 32 1"
definition AEAD_TAG_SIZE :: nat where "AEAD_TAG_SIZE = 16"
definition MAX_NOISE_MESSAGE_SIZE :: nat where "MAX_NOISE_MESSAGE_SIZE = 65535"

datatype noise_error =
    Snow snow_error
  | MissingRemoteStatic
  | RemoteStaticMismatch
  | InvalidSessionId
  | WrongSession
  | MalformedTransport
  | Replay
  | CounterExhausted

record 'ts session =
  session_id :: bytes
  transport :: 'ts
  created_at :: instant
  send_counter :: u64
  received_messages :: u64
  replay :: replay_window

definition session_new :: "('hs, 'ts, 'w) runtime \<Rightarrow> bytes \<Rightarrow> 'ts \<Rightarrow> ('w, noise_error, 'ts session) io" where
  "session_new E sid ts =
    io_bind (io_draw (instant_now E)) (\<lambda>t.
    io_lift (Ok \<lparr>session_id = sid, transport = ts, created_at = t, send_counter = 0,
                received_messages = 0, replay = replay_new\<rparr>))"

text \<open>The counter is advanced before the plaintext is built and encrypted.\<close>

definition encrypt ::
    "('hs, 'ts, 'w) runtime \<Rightarrow> 'ts session \<Rightarrow> msg_type \<Rightarrow> bytes
      \<Rightarrow> (noise_error, bytes) result \<times> 'ts session" where
  "encrypt E s m payload =
    (let counter = send_counter s in
     case checked_add_u64 (send_counter s) 1 of
       None \<Rightarrow> (Err CounterExhausted, s)
     | Some next \<Rightarrow>
         let s1 = s\<lparr>send_counter := next\<rparr>;
             pt = encode_transport_plaintext m payload
         in case ts_write E (transport s1) counter pt (length pt + AEAD_TAG_SIZE) of
              Inl e \<Rightarrow> (Err (Snow e), s1)
            | Inr ct \<Rightarrow> (Ok (encode_transport (session_id s1) counter ct), s1))"

definition decrypt ::
    "('hs, 'ts, 'w) runtime \<Rightarrow> 'ts session \<Rightarrow> bytes \<Rightarrow> u64 \<Rightarrow> bytes
      \<Rightarrow> (noise_error, msg_type \<times> bytes) result \<times> 'ts session" where
  "decrypt E s sid counter ct =
    (if sid \<noteq> session_id s then (Err WrongSession, s)
     else if \<not> would_accept (replay s) counter then (Err Replay, s)
     else if length ct < AEAD_TAG_SIZE + 1 then (Err MalformedTransport, s)
     else
       case ts_read E (transport s) counter ct (length ct - AEAD_TAG_SIZE) of
         Inl e \<Rightarrow> (Err (Snow e), s)
       | Inr pt \<Rightarrow>
           case mark_authenticated (replay s) counter of (marked, window') \<Rightarrow>
             if \<not> marked then (Err Replay, s\<lparr>replay := window'\<rparr>)
             else
               let s1 = s\<lparr>replay := window',
                          received_messages := saturating_add_u64 (received_messages s) 1\<rparr>
               in (ok_or MalformedTransport (decode_transport_plaintext pt), s1))"

definition decrypt_packet ::
    "('hs, 'ts, 'w) runtime \<Rightarrow> 'ts session \<Rightarrow> bytes
      \<Rightarrow> (noise_error, msg_type \<times> bytes) result \<times> 'ts session" where
  "decrypt_packet E s packet =
    (case decode_packet packet of
       None \<Rightarrow> (Err MalformedTransport, s)
     | Some (PHandshake _ _ _) \<Rightarrow> (Err MalformedTransport, s)
     | Some (PTransport sid counter ct) \<Rightarrow> decrypt E s sid counter ct)"

definition should_rekey :: "'ts session \<Rightarrow> instant \<Rightarrow> bool" where
  "should_rekey s now \<longleftrightarrow>
    duration_since now (created_at s) \<ge> REKEY_AFTER_TIME
    \<or> send_counter s \<ge> REKEY_AFTER_MESSAGES
    \<or> received_messages s \<ge> REKEY_AFTER_MESSAGES"

definition is_expired :: "'ts session \<Rightarrow> instant \<Rightarrow> bool" where
  "is_expired s now \<longleftrightarrow>
    duration_since now (created_at s) \<ge> REJECT_AFTER_TIME \<or> send_counter s = - 1"

subsection \<open>Handshakes\<close>

record 'hs initiator_state =
  is_handshake_id :: bytes
  is_state :: 'hs

record 'hs initiator_handshake =
  ih_handshake_id :: bytes
  ih_message :: bytes
  ih_state :: "'hs initiator_state"

record 'ts responder_handshake =
  rh_message :: bytes
  rh_session :: "'ts session"

definition initiator_start_with_id ::
    "('hs, 'ts, 'w) runtime \<Rightarrow> bytes \<Rightarrow> bytes \<Rightarrow> bytes \<Rightarrow> bytes
      \<Rightarrow> ('w, noise_error, 'hs initiator_handshake) io" where
  "initiator_start_with_id E local_static remote_static_pub psk hid =
    io_bind (io_lift (map_err Snow
      (build_initiator E local_static remote_static_pub psk (handshake_prologue hid)))) (\<lambda>state.
    io_bind (io_map_err Snow (hs_write E state [] MAX_NOISE_MESSAGE_SIZE)) (\<lambda>(message, state').
    io_lift (Ok \<lparr>ih_handshake_id = hid, ih_message = message,
      ih_state = \<lparr>is_handshake_id = hid, is_state = state'\<rparr>\<rparr>)))"

definition initiator_start ::
    "('hs, 'ts, 'w) runtime \<Rightarrow> bytes \<Rightarrow> bytes \<Rightarrow> bytes
      \<Rightarrow> ('w, noise_error, 'hs initiator_handshake) io" where
  "initiator_start E local_static remote_static_pub psk =
    io_bind (io_draw (fill_bytes E SESSION_ID_SIZE))
      (initiator_start_with_id E local_static remote_static_pub psk)"

definition initiator_finalize ::
    "('hs, 'ts, 'w) runtime \<Rightarrow> 'hs initiator_state \<Rightarrow> bytes \<Rightarrow> ('w, noise_error, 'ts session) io" where
  "initiator_finalize E initiator message =
    io_bind (io_lift (map_err Snow
      (hs_read E (is_state initiator) message (SESSION_ID_SIZE + AEAD_TAG_SIZE)))) (\<lambda>(payload, state).
    if length payload \<noteq> SESSION_ID_SIZE then io_lift (Err InvalidSessionId)
    else
      io_bind (io_lift (map_err Snow (hs_transport E state))) (\<lambda>ts. session_new E payload ts))"

definition responder_respond ::
    "('hs, 'ts, 'w) runtime \<Rightarrow> bytes \<Rightarrow> bytes \<Rightarrow> bytes \<Rightarrow> bytes \<Rightarrow> bytes
      \<Rightarrow> ('w, noise_error, 'ts responder_handshake) io" where
  "responder_respond E local_static expected_remote_static psk hid message =
    io_bind (io_lift (map_err Snow
      (build_responder E local_static psk (handshake_prologue hid)))) (\<lambda>state.
    io_bind (io_lift (map_err Snow (hs_read E state message MAX_NOISE_MESSAGE_SIZE))) (\<lambda>(payload, state1).
    if payload \<noteq> [] then io_lift (Err MalformedTransport)
    else
      io_bind (io_lift (ok_or MissingRemoteStatic (hs_remote_static E state1))) (\<lambda>remote_static.
      if remote_static \<noteq> expected_remote_static then io_lift (Err RemoteStaticMismatch)
      else
        io_bind (io_draw (fill_bytes E SESSION_ID_SIZE)) (\<lambda>sid.
        io_bind (io_map_err Snow (hs_write E state1 sid MAX_NOISE_MESSAGE_SIZE)) (\<lambda>(response, state2).
        io_bind (io_lift (map_err Snow (hs_transport E state2))) (\<lambda>ts.
        io_bind (session_new E sid ts) (\<lambda>s.
        io_lift (Ok \<lparr>rh_message = response, rh_session = s\<rparr>))))))))"

subsection \<open>Sending\<close>

lemma encrypt_exhausted: "send_counter s = - 1 \<Longrightarrow> encrypt E s m p = (Err CounterExhausted, s)"
  using checked_add_u64_1_None [of "send_counter s"] by (simp add: encrypt_def Let_def)

text \<open>Below exhaustion the counter advances whatever the cipher answers, and the cipher is
called with the old value.\<close>

lemma encrypt_advances:
  assumes "send_counter s \<noteq> - 1"
  shows "encrypt E s m p =
    (case ts_write E (transport s) (send_counter s) (encode_transport_plaintext m p)
            (length (encode_transport_plaintext m p) + AEAD_TAG_SIZE) of
       Inl e \<Rightarrow> Err (Snow e)
     | Inr ct \<Rightarrow> Ok (encode_transport (session_id s) (send_counter s) ct),
     s\<lparr>send_counter := send_counter s + 1\<rparr>)"
    and "unat (send_counter s + 1) = Suc (unat (send_counter s))"
    and "unat (send_counter s) < 2 ^ 64 - 1"
proof -
  from assms obtain c where c: "checked_add_u64 (send_counter s) 1 = Some c"
    using checked_add_u64_1_None [of "send_counter s"] by (cases "checked_add_u64 (send_counter s) 1") auto
  then have sum: "unat (send_counter s) + 1 < 2 ^ 64" and [simp]: "c = send_counter s + 1"
    by (simp_all add: checked_add_u64_Some)
  from c show "unat (send_counter s + 1) = Suc (unat (send_counter s))"
    using checked_add_u64_unat [OF c] by simp
  from sum show "unat (send_counter s) < 2 ^ 64 - 1" by simp
  from c show "encrypt E s m p =
    (case ts_write E (transport s) (send_counter s) (encode_transport_plaintext m p)
            (length (encode_transport_plaintext m p) + AEAD_TAG_SIZE) of
       Inl e \<Rightarrow> Err (Snow e)
     | Inr ct \<Rightarrow> Ok (encode_transport (session_id s) (send_counter s) ct),
     s\<lparr>send_counter := send_counter s + 1\<rparr>)"
    by (simp add: encrypt_def Let_def split: sum.splits)
qed

lemma encrypt_keeps [keeps]:
  "session_id (snd (encrypt E s m p)) = session_id s"
  "transport (snd (encrypt E s m p)) = transport s"
  "created_at (snd (encrypt E s m p)) = created_at s"
  "received_messages (snd (encrypt E s m p)) = received_messages s"
  "replay (snd (encrypt E s m p)) = replay s"
  by (simp_all add: encrypt_def Let_def split: option.splits sum.splits)

lemma encrypt_Ok:
  assumes "encrypt E s m p = (Ok frame, s')"
  shows "\<exists>ct. frame = encode_transport (session_id s) (send_counter s) ct
    \<and> ts_write E (transport s) (send_counter s) (encode_transport_plaintext m p)
        (length (encode_transport_plaintext m p) + AEAD_TAG_SIZE) = Ok ct
    \<and> s' = s\<lparr>send_counter := send_counter s + 1\<rparr> \<and> send_counter s \<noteq> - 1"
proof (cases "send_counter s = - 1")
  case True
  with assms encrypt_exhausted [OF True, of E m p] show ?thesis by simp
next
  case False
  with assms encrypt_advances(1) [OF False, of E m p] show ?thesis by (auto split: sum.splits)
qed

fun encrypts ::
    "('hs, 'ts, 'w) runtime \<Rightarrow> 'ts session \<Rightarrow> (msg_type \<times> bytes) list \<Rightarrow> (noise_error, bytes) result list" where
  "encrypts E s [] = []"
| "encrypts E s ((m, p) # rest) = (case encrypt E s m p of (r, s') \<Rightarrow> r # encrypts E s' rest)"

lemma encrypts_exhausted:
  "send_counter s = - 1 \<Longrightarrow> encrypts E s msgs = replicate (length msgs) (Err CounterExhausted)"
  by (induction E s msgs rule: encrypts.induct) (auto simp: encrypt_exhausted)

text \<open>The answer of the call number \<open>i\<close>: the cipher is called with the nonce that lies \<open>i\<close> above
the counter at the start, until the counter is exhausted.\<close>

definition encrypted_at ::
    "('hs, 'ts, 'w) runtime \<Rightarrow> 'ts session \<Rightarrow> u64 \<Rightarrow> msg_type \<times> bytes \<Rightarrow> (noise_error, bytes) result" where
  "encrypted_at E s nonce mp =
    (let plaintext = encode_transport_plaintext (fst mp) (snd mp) in
     case ts_write E (transport s) nonce plaintext (length plaintext + AEAD_TAG_SIZE) of
       Inl e \<Rightarrow> Err (Snow e)
     | Inr ct \<Rightarrow> Ok (encode_transport (session_id s) nonce ct))"

lemma encrypts_nth:
  assumes "i < length msgs"
  shows "if 2 ^ 64 - 1 \<le> unat (send_counter s) + i then encrypts E s msgs ! i = Err CounterExhausted
    else \<exists>nonce. unat nonce = unat (send_counter s) + i \<and> encrypts E s msgs ! i = encrypted_at E s nonce (msgs ! i)"
  using assms
proof (induction msgs arbitrary: s i)
  case (Cons mp msgs)
  obtain m p where mp: "mp = (m, p)" by (cases mp)
  show ?case
  proof (cases "send_counter s = - 1")
    case True
    from Cons.prems have "encrypts E s (mp # msgs) ! i = Err CounterExhausted"
      by (simp only: encrypts_exhausted [OF True] nth_replicate)
    with True show ?thesis by (simp add: unat_max_u64)
  next
    case False
    note adv = encrypt_advances(1) [OF False, of E m p] encrypt_advances(2,3) [OF False]
    show ?thesis
    proof (cases i)
      case 0
      from adv(1) have "fst (encrypt E s m p) = encrypted_at E s (send_counter s) mp"
        by (simp add: mp encrypted_at_def Let_def)
      with 0 adv(3) show ?thesis by (auto simp: mp split: prod.split intro!: exI [of _ "send_counter s"])
    next
      case (Suc j)
      with Cons.prems have j: "j < length msgs" by simp
      have "encrypted_at E (s\<lparr>send_counter := send_counter s + 1\<rparr>) = encrypted_at E s"
        by (simp add: fun_eq_iff encrypted_at_def Let_def split: sum.split)
      with Cons.IH [OF j, of "s\<lparr>send_counter := send_counter s + 1\<rparr>"] adv Suc
      show ?thesis by (auto simp: mp)
    qed
  qed
qed simp

subsection \<open>Receiving\<close>

lemma decrypt_authentic:
  assumes "sid = session_id s" and "would_accept (replay s) c" and "AEAD_TAG_SIZE + 1 \<le> length ct"
    and "ts_read E (transport s) c ct (length ct - AEAD_TAG_SIZE) = Ok pt"
  shows "decrypt E s sid c ct = (ok_or MalformedTransport (decode_transport_plaintext pt),
    s\<lparr>replay := snd (mark_authenticated (replay s) c),
      received_messages := saturating_add_u64 (received_messages s) 1\<rparr>)"
proof -
  obtain w where "mark_authenticated (replay s) c = (True, w)"
    using assms(2) mark_fst [of "replay s" c] by (cases "mark_authenticated (replay s) c") simp
  with assms show ?thesis by (simp add: decrypt_def Let_def not_less)
qed

lemma decrypt_cases:
  assumes "decrypt E s sid c ct = (r, s')"
  obtains (rejected) e where "r = Err e" and "s' = s"
  | (authentic) pt where "sid = session_id s" and "would_accept (replay s) c"
      and "AEAD_TAG_SIZE + 1 \<le> length ct"
      and "ts_read E (transport s) c ct (length ct - AEAD_TAG_SIZE) = Ok pt"
      and "r = ok_or MalformedTransport (decode_transport_plaintext pt)"
      and "s' = s\<lparr>replay := snd (mark_authenticated (replay s) c),
             received_messages := saturating_add_u64 (received_messages s) 1\<rparr>"
proof (cases "sid = session_id s \<and> would_accept (replay s) c \<and> AEAD_TAG_SIZE + 1 \<le> length ct
    \<and> (\<exists>pt. ts_read E (transport s) c ct (length ct - AEAD_TAG_SIZE) = Ok pt)")
  case True
  then obtain pt where *: "sid = session_id s" "would_accept (replay s) c"
    "AEAD_TAG_SIZE + 1 \<le> length ct" "ts_read E (transport s) c ct (length ct - AEAD_TAG_SIZE) = Ok pt"
    by blast
  from assms decrypt_authentic [OF *] show thesis by (intro authentic [OF *]) simp_all
next
  case False
  with assms have "(\<exists>e. r = Err e) \<and> s' = s"
    by (auto simp: decrypt_def split: if_splits sum.splits)
  then show thesis using rejected by blast
qed

lemma decrypt_keeps [keeps]:
  "session_id (snd (decrypt E s sid c ct)) = session_id s"
  "transport (snd (decrypt E s sid c ct)) = transport s"
  "created_at (snd (decrypt E s sid c ct)) = created_at s"
  "send_counter (snd (decrypt E s sid c ct)) = send_counter s"
proof -
  obtain r s' where "decrypt E s sid c ct = (r, s')" by (cases "decrypt E s sid c ct")
  then have "session_id s' = session_id s \<and> transport s' = transport s
      \<and> created_at s' = created_at s \<and> send_counter s' = send_counter s"
    by (cases rule: decrypt_cases) simp_all
  with \<open>decrypt E s sid c ct = (r, s')\<close>
  show "session_id (snd (decrypt E s sid c ct)) = session_id s"
    and "transport (snd (decrypt E s sid c ct)) = transport s"
    and "created_at (snd (decrypt E s sid c ct)) = created_at s"
    and "send_counter (snd (decrypt E s sid c ct)) = send_counter s" by simp_all
qed

lemma decrypt_tracks:
  assumes "decrypt E s sid c ct = (r, s')" and "replay_tracks (replay s) S"
  shows "if \<exists>x. r = Ok x then c \<notin> S \<and> replay_tracks (replay s') (insert c S)
    else \<exists>S'. S \<subseteq> S' \<and> replay_tracks (replay s') S'"
  using assms(1)
proof (cases rule: decrypt_cases)
  case rejected
  with assms(2) show ?thesis by auto
next
  case (authentic pt)
  then have "replay_tracks (replay s') (insert c S)" and "c \<notin> S"
    using window.mark_accepts [OF assms(2)] window.check_fresh [OF assms(2)] by auto
  then show ?thesis by auto
qed

fun receives ::
    "('hs, 'ts, 'w) runtime \<Rightarrow> 'ts session \<Rightarrow> (bytes \<times> u64 \<times> bytes) list \<Rightarrow> u64 list" where
  "receives E s [] = []"
| "receives E s ((sid, c, ct) # rest) =
    (case decrypt E s sid c ct of (r, s') \<Rightarrow>
       (case r of Inl _ \<Rightarrow> [] | Inr _ \<Rightarrow> [c]) @ receives E s' rest)"

lemma receives_fresh:
  "replay_tracks (replay s) S \<Longrightarrow> distinct (receives E s ps) \<and> set (receives E s ps) \<inter> S = {}"
proof (induction E s ps arbitrary: S rule: receives.induct)
  case (2 E s sid c ct rest)
  obtain r s' where d: "decrypt E s sid c ct = (r, s')" by (cases "decrypt E s sid c ct")
  show ?case
  proof (cases r)
    case (Inl e)
    with decrypt_tracks [OF d "2.prems"] obtain S' where "S \<subseteq> S'" "replay_tracks (replay s') S'"
      by auto
    with "2.IH" [OF d [symmetric]] Inl d show ?thesis by fastforce
  next
    case (Inr x)
    with decrypt_tracks [OF d "2.prems"] have "c \<notin> S" "replay_tracks (replay s') (insert c S)"
      by auto
    with "2.IH" [OF d [symmetric]] Inr d show ?thesis by fastforce
  qed
qed simp

lemma session_new_Ok:
  "session_new E sid ts w = (r, w') \<Longrightarrow>
    \<exists>t. instant_now E w = (t, w') \<and> r = Ok \<lparr>session_id = sid, transport = ts, created_at = t,
      send_counter = 0, received_messages = 0, replay = replay_new\<rparr>"
  by (auto simp: session_new_def io_bind_def io_draw_def io_lift_def split: prod.splits)

subsection \<open>A pair of transport states, and a handshake\<close>

text \<open>Documented behaviour of the cipher: what one side writes under a nonce, the other side
reads back under the same nonce, and the tag adds 16 bytes.\<close>

definition paired :: "('hs, 'ts, 'w) runtime \<Rightarrow> 'ts \<Rightarrow> 'ts \<Rightarrow> bool" where
  "paired E a b \<longleftrightarrow> (\<forall>n pt ct. ts_write E a n pt (length pt + AEAD_TAG_SIZE) = Ok ct \<longrightarrow>
    length ct = length pt + AEAD_TAG_SIZE \<and> ts_read E b n ct (length pt) = Ok pt)"

text \<open>Documented behaviour of the handshake between an initiator with static key pair
\<open>(ka, pa)\<close> and a responder with \<open>(kb, pb)\<close> under one pre-shared key: the responder reads the
first message and learns \<open>pa\<close>, the initiator reads the payload of the second, and both derive
paired transport states.\<close>

definition noise_matches ::
    "('hs, 'ts, 'w) runtime \<Rightarrow> bytes \<Rightarrow> bytes \<Rightarrow> bytes \<Rightarrow> bytes \<Rightarrow> bytes \<Rightarrow> bool" where
  "noise_matches E ka pa kb pb psk \<longleftrightarrow>
    (\<forall>pro i r w m1 i1 w1.
       build_initiator E ka pb psk pro = Ok i \<longrightarrow> build_responder E kb psk pro = Ok r \<longrightarrow>
       hs_write E i [] MAX_NOISE_MESSAGE_SIZE w = (Ok (m1, i1), w1) \<longrightarrow>
       (\<exists>r1. hs_read E r m1 MAX_NOISE_MESSAGE_SIZE = Ok ([], r1) \<and> hs_remote_static E r1 = Some pa \<and>
          (\<forall>sid w2 m2 r2 w3. length sid = SESSION_ID_SIZE \<longrightarrow>
             hs_write E r1 sid MAX_NOISE_MESSAGE_SIZE w2 = (Ok (m2, r2), w3) \<longrightarrow>
             (\<exists>i2. hs_read E i1 m2 (SESSION_ID_SIZE + AEAD_TAG_SIZE) = Ok (sid, i2) \<and>
                (\<forall>ta tb. hs_transport E i2 = Ok ta \<longrightarrow> hs_transport E r2 = Ok tb \<longrightarrow>
                   paired E ta tb \<and> paired E tb ta)))))"

lemma initiator_start_Ok:
  assumes "initiator_start E k rk psk w = (Ok ih, w')"
  shows "\<exists>w1 st. fill_bytes E SESSION_ID_SIZE w = (ih_handshake_id ih, w1)
    \<and> build_initiator E k rk psk (handshake_prologue (ih_handshake_id ih)) = Ok st
    \<and> hs_write E st [] MAX_NOISE_MESSAGE_SIZE w1 = (Ok (ih_message ih, is_state (ih_state ih)), w')
    \<and> is_handshake_id (ih_state ih) = ih_handshake_id ih"
  using assms by (auto simp: initiator_start_def initiator_start_with_id_def io_Ok)

lemma initiator_finalize_Ok:
  assumes "initiator_finalize E ini msg w = (Ok s, w')"
  shows "\<exists>st. hs_read E (is_state ini) msg (SESSION_ID_SIZE + AEAD_TAG_SIZE) = Ok (session_id s, st)
    \<and> hs_transport E st = Ok (transport s) \<and> instant_now E w = (created_at s, w')
    \<and> length (session_id s) = SESSION_ID_SIZE
    \<and> send_counter s = 0 \<and> received_messages s = 0 \<and> replay s = replay_new"
  using assms
  by (auto simp: initiator_finalize_def io_Ok split: if_splits dest!: session_new_Ok)

lemma responder_respond_Ok:
  assumes "responder_respond E k rk psk hid msg w = (Ok rh, w')"
  shows "\<exists>st st1 st2 w1 w2. build_responder E k psk (handshake_prologue hid) = Ok st
    \<and> hs_read E st msg MAX_NOISE_MESSAGE_SIZE = Ok ([], st1)
    \<and> hs_remote_static E st1 = Some rk
    \<and> fill_bytes E SESSION_ID_SIZE w = (session_id (rh_session rh), w1)
    \<and> hs_write E st1 (session_id (rh_session rh)) MAX_NOISE_MESSAGE_SIZE w1 = (Ok (rh_message rh, st2), w2)
    \<and> hs_transport E st2 = Ok (transport (rh_session rh))
    \<and> instant_now E w2 = (created_at (rh_session rh), w')
    \<and> send_counter (rh_session rh) = 0 \<and> received_messages (rh_session rh) = 0
    \<and> replay (rh_session rh) = replay_new"
  using assms
  by (auto simp: responder_respond_def io_Ok split: if_splits dest!: session_new_Ok)

text \<open>A small instance of the runtime, on which the witnesses are evaluated: message one is the
initiator's key followed by the shared secret and prologue, message two the session identifier
followed by the same; a ciphertext is the plaintext followed by the nonce and the last 8 bytes
of the prologue. It has the protocol's structure and no secrecy.\<close>

datatype demo_hs = DInit bytes bytes | DWait bytes | DResp bytes | DRead bytes bytes | DDone bytes

fun demo_hs_write :: "demo_hs \<Rightarrow> bytes \<Rightarrow> nat \<Rightarrow> nat \<Rightarrow> (snow_error, bytes \<times> demo_hs) result \<times> nat" where
  "demo_hs_write (DInit own x) payload n w = (Ok (own @ x, DWait x), w)"
| "demo_hs_write (DRead r x) payload n w = (Ok (payload @ x, DDone x), w)"
| "demo_hs_write st payload n w = (Err ''state'', w)"

fun demo_hs_read :: "demo_hs \<Rightarrow> bytes \<Rightarrow> nat \<Rightarrow> (snow_error, bytes \<times> demo_hs) result" where
  "demo_hs_read (DResp x) msg n =
    (if drop 32 msg = x then Ok ([], DRead (take 32 msg) x) else Err ''decrypt'')"
| "demo_hs_read (DWait x) msg n =
    (if drop 8 msg = x then Ok (take 8 msg, DDone x) else Err ''decrypt'')"
| "demo_hs_read st msg n = Err ''state''"

fun demo_hs_remote :: "demo_hs \<Rightarrow> bytes option" where
  "demo_hs_remote (DRead r x) = Some r"
| "demo_hs_remote st = None"

fun demo_hs_transport :: "demo_hs \<Rightarrow> (snow_error, bytes) result" where
  "demo_hs_transport (DDone x) = Ok (drop (length x - 8) x)"
| "demo_hs_transport st = Err ''state''"

definition demo_runtime :: "(demo_hs, bytes, nat) runtime" where
  "demo_runtime = \<lparr>
    fill_bytes = (\<lambda>n w. (replicate n (of_nat w), Suc w)),
    instant_now = (\<lambda>w. (w, Suc w)),
    build_initiator = (\<lambda>k rk psk pro. Ok (DInit k (psk @ pro))),
    build_responder = (\<lambda>k psk pro. Ok (DResp (psk @ pro))),
    hs_write = demo_hs_write,
    hs_read = demo_hs_read,
    hs_remote_static = demo_hs_remote,
    hs_transport = demo_hs_transport,
    ts_write = (\<lambda>k n pt size. Ok (pt @ to_be_bytes_u64 n @ k)),
    ts_read = (\<lambda>k n ct size.
      if drop (length ct - AEAD_TAG_SIZE) ct = to_be_bytes_u64 n @ k
      then Ok (take (length ct - AEAD_TAG_SIZE) ct) else Err ''decrypt'')\<rparr>"

lemma demo_paired: "length k = 8 \<Longrightarrow> paired demo_runtime k k"
  by (simp add: paired_def demo_runtime_def AEAD_TAG_SIZE_def)

lemma demo_matches:
  assumes "length ka = 32" and "length psk = 32"
  shows "noise_matches demo_runtime ka ka kb kb psk"
proof -
  have "paired demo_runtime (drop (length (psk @ pro) - 8) (psk @ pro))
      (drop (length (psk @ pro) - 8) (psk @ pro))" for pro
    by (rule demo_paired) (use assms in simp)
  with assms show ?thesis
    by (auto simp: noise_matches_def demo_runtime_def SESSION_ID_SIZE_def)
qed

definition demo_started :: "bytes \<Rightarrow> bytes \<Rightarrow> bytes \<Rightarrow> demo_hs initiator_handshake" where
  "demo_started hid ka psk = \<lparr>ih_handshake_id = hid, ih_message = ka @ psk @ handshake_prologue hid,
     ih_state = \<lparr>is_handshake_id = hid, is_state = DWait (psk @ handshake_prologue hid)\<rparr>\<rparr>"

definition demo_fresh :: "bytes \<Rightarrow> bytes \<Rightarrow> nat \<Rightarrow> bytes session" where
  "demo_fresh sid hid t = \<lparr>session_id = sid, transport = hid, created_at = t,
     send_counter = 0, received_messages = 0, replay = replay_new\<rparr>"

lemma demo_start:
  "initiator_start demo_runtime ka kb psk w =
    (Ok (demo_started (replicate SESSION_ID_SIZE (of_nat w)) ka psk), Suc w)"
  by (simp add: initiator_start_def initiator_start_with_id_def io_bind_def io_draw_def io_lift_def
      io_map_err_def demo_runtime_def demo_started_def)

lemma demo_transport_key:
  "length hid = SESSION_ID_SIZE \<Longrightarrow>
    demo_hs_transport (DDone (psk @ handshake_prologue hid)) = Ok hid"
  by (simp add: handshake_prologue_def SESSION_ID_SIZE_def)

lemma demo_respond:
  assumes "length ka = 32" and "length hid = SESSION_ID_SIZE"
  shows "responder_respond demo_runtime kb ka psk hid (ka @ psk @ handshake_prologue hid) w =
    (let sid = replicate SESSION_ID_SIZE (of_nat w) in
     (Ok \<lparr>rh_message = sid @ psk @ handshake_prologue hid, rh_session = demo_fresh sid hid (Suc w)\<rparr>,
      Suc (Suc w)))"
  using assms demo_transport_key [OF assms(2), of psk]
  by (simp add: responder_respond_def io_bind_def io_draw_def io_lift_def io_map_err_def
      demo_runtime_def session_new_def demo_fresh_def Let_def del: demo_hs_transport.simps)

lemma demo_finalize:
  assumes "length sid = SESSION_ID_SIZE" and "length hid = SESSION_ID_SIZE"
  shows "initiator_finalize demo_runtime (ih_state (demo_started hid ka psk))
      (sid @ psk @ handshake_prologue hid) w = (Ok (demo_fresh sid hid w), Suc w)"
  using assms demo_transport_key [OF assms(2), of psk]
  by (simp add: initiator_finalize_def io_bind_def io_draw_def io_lift_def io_map_err_def
      demo_runtime_def session_new_def demo_fresh_def demo_started_def SESSION_ID_SIZE_def
      del: demo_hs_transport.simps)

text \<open>A concrete session of the instance.\<close>

definition demo_session :: "bytes session" where
  "demo_session = \<lparr>session_id = replicate 8 7, transport = replicate 8 9, created_at = 0,
     send_counter = 5, received_messages = 0, replay = replay_new\<rparr>"

subsection \<open>Properties\<close>

text \<open>C10: No nonce is ever reused: whatever messages a session is asked to encrypt and however
many of the calls fail, the call number \<open>i\<close> hands the cipher the nonce that lies exactly \<open>i\<close> above
the counter at the start, with the plaintext of its own message, and puts that nonce and the
cipher's answer into the frame; so distinct calls use distinct nonces. When the counter has reached
its largest value nothing is encrypted any more.\<close>

theorem nonces_never_reused:
  assumes "i < length msgs"
  shows "if 2 ^ 64 - 1 \<le> unat (send_counter s) + i then encrypts E s msgs ! i = Err CounterExhausted
    else \<exists>nonce. unat nonce = unat (send_counter s) + i
      \<and> encrypts E s msgs ! i =
        (let plaintext = encode_transport_plaintext (fst (msgs ! i)) (snd (msgs ! i)) in
         case ts_write E (transport s) nonce plaintext (length plaintext + AEAD_TAG_SIZE) of
           Inl e \<Rightarrow> Err (Snow e)
         | Inr ct \<Rightarrow> Ok (encode_transport (session_id s) nonce ct))"
  using encrypts_nth [OF assms, of s E] by (simp only: encrypted_at_def)

theorem nonces_never_reused_witness:
  "\<exists>nonce. unat nonce = 6 \<and> encrypts demo_runtime demo_session [(Data, [1]), (Keepalive, [2])] ! 1
    = Ok (encode_transport (session_id demo_session) nonce
        (encode_transport_plaintext Keepalive [2] @ to_be_bytes_u64 nonce @ transport demo_session))"
  using nonces_never_reused [of 1 "[(Data, [1]), (Keepalive, [2])]" demo_session demo_runtime]
  by (simp add: demo_session_def demo_runtime_def del: encrypts.simps)

text \<open>A fresh session never accepts one counter twice: over any sequence of received
packets, replayed, reordered, forged or for other sessions, the counters of the packets that
\<open>decrypt\<close> delivers are pairwise distinct.\<close>

lemma session_never_accepts_twice:
  assumes "replay s = replay_new"
  shows "distinct (receives E s packets)"
  using receives_fresh [of s "{}"] replay_tracks_new assms by simp

lemma session_never_accepts_twice_witness:
  "distinct (receives demo_runtime demo_session [(replicate 8 7, 3, []), (replicate 8 7, 3, [])])"
  by (rule session_never_accepts_twice) (simp add: demo_session_def)

text \<open>C19: A packet that the cipher does not authenticate, that belongs to another session, that
the replay window rejects or that is too short to hold a tag and a message type is refused and
leaves the session exactly as it was, so forged traffic cannot move the replay window. The only
refused packet that changes the session is one that the cipher authenticates and whose plaintext is
no message; its counter is used up.\<close>

theorem forged_packet_inert:
  "(sid \<noteq> session_id s \<or> \<not> would_accept (replay s) c \<or> length ct < AEAD_TAG_SIZE + 1
      \<or> (\<exists>e. ts_read E (transport s) c ct (length ct - AEAD_TAG_SIZE) = Err e)
      \<longrightarrow> (\<exists>e. decrypt E s sid c ct = (Err e, s)))
    \<and> (\<forall>e s'. decrypt E s sid c ct = (Err e, s') \<longrightarrow> s' = s
      \<or> e = MalformedTransport
        \<and> (\<exists>pt. ts_read E (transport s) c ct (length ct - AEAD_TAG_SIZE) = Ok pt \<and> decode_transport_plaintext pt = None)
        \<and> s' = s\<lparr>replay := snd (mark_authenticated (replay s) c),
             received_messages := saturating_add_u64 (received_messages s) 1\<rparr>)"
proof (cases "decrypt E s sid c ct")
  case (Pair r s')
  from Pair show ?thesis
  proof (cases rule: decrypt_cases)
    case (rejected e)
    with Pair show ?thesis by simp
  next
    case (authentic pt)
    with Pair show ?thesis by (cases "decode_transport_plaintext pt") auto
  qed
qed

theorem forged_packet_inert_witness:
  "\<exists>e. decrypt demo_runtime demo_session (replicate 8 7) 3 (replicate 20 0) = (Err e, demo_session)"
proof -
  have "last (replicate 16 0) \<noteq> last (to_be_bytes_u64 3 @ replicate 8 (9 :: u8))" by simp
  then have "replicate 16 0 \<noteq> to_be_bytes_u64 3 @ replicate 8 9" by metis
  then have "ts_read demo_runtime (transport demo_session) 3 (replicate 20 0) (20 - AEAD_TAG_SIZE) = Err ''decrypt''"
    by (simp add: demo_runtime_def demo_session_def AEAD_TAG_SIZE_def)
  then show ?thesis using forged_packet_inert [of "replicate 8 7" demo_session 3 "replicate 20 0" demo_runtime] by simp
qed

text \<open>End to end, a frame that one side of a session encrypts is decrypted by the other
side to the same message type and payload, provided their transport states are paired and the
receiver's window has not seen the counter; the receiver's window records the counter.\<close>

lemma frame_round_trip:
  assumes "paired E (transport a) (transport b)" and "session_id a = session_id b"
    and "length (session_id b) = SESSION_ID_SIZE" and "would_accept (replay b) (send_counter a)"
    and "encrypt E a m p = (Ok frame, a')"
  shows "decrypt_packet E b frame =
    (Ok (m, p), b\<lparr>replay := snd (mark_authenticated (replay b) (send_counter a)),
                  received_messages := saturating_add_u64 (received_messages b) 1\<rparr>)"
proof -
  from encrypt_Ok [OF assms(5)] obtain ct
    where frame: "frame = encode_transport (session_id a) (send_counter a) ct"
      and w: "ts_write E (transport a) (send_counter a) (encode_transport_plaintext m p)
        (length (encode_transport_plaintext m p) + AEAD_TAG_SIZE) = Ok ct" by blast
  from assms(1) w have len: "length ct = length (encode_transport_plaintext m p) + AEAD_TAG_SIZE"
    and r: "ts_read E (transport b) (send_counter a) ct (length (encode_transport_plaintext m p))
      = Ok (encode_transport_plaintext m p)"
    by (auto simp: paired_def)
  have "decode_packet frame = Some (PTransport (session_id b) (send_counter a) ct)"
    unfolding frame using assms(2,3) len
    by (simp add: decode_encode_transport frame_simps AEAD_TAG_SIZE_def)
  moreover have "decrypt E b (session_id b) (send_counter a) ct =
    (ok_or MalformedTransport (decode_transport_plaintext (encode_transport_plaintext m p)),
     b\<lparr>replay := snd (mark_authenticated (replay b) (send_counter a)),
       received_messages := saturating_add_u64 (received_messages b) 1\<rparr>)"
    using len r by (intro decrypt_authentic assms(4)) (simp_all add: frame_simps)
  ultimately show ?thesis by (simp add: decrypt_packet_def)
qed

lemma frame_round_trip_witness:
  "fst (decrypt_packet demo_runtime demo_session
     (encode_transport (replicate 8 7) 5 (0 # 1 # to_be_bytes_u64 5 @ replicate 8 9))) = Ok (Data, [1])"
proof -
  have "encrypt demo_runtime demo_session Data [1] =
    (Ok (encode_transport (replicate 8 7) 5 (0 # 1 # to_be_bytes_u64 5 @ replicate 8 9)),
     demo_session\<lparr>send_counter := 6\<rparr>)"
    by (simp add: encrypt_def demo_session_def demo_runtime_def checked_add_u64_def
        encode_transport_plaintext_def)
  from frame_round_trip [OF _ refl _ _ this] show ?thesis
    by (simp add: demo_session_def demo_paired SESSION_ID_SIZE_def would_accept_def replay_new_def)
qed

text \<open>The two roles agree: for matching keys and pre-shared key, when the initiator's first
message reaches the responder, the responder fails only if the Noise library itself fails,
and when the initiator completes with the response, both sides hold sessions with the same
identifier and transport states paired in both directions, both fresh.\<close>

lemma handshake_agreement:
  assumes m: "noise_matches E ka pa kb pb psk"
    and fill: "\<And>w. length (fst (fill_bytes E SESSION_ID_SIZE w)) = SESSION_ID_SIZE"
    and start: "initiator_start E ka pb psk w = (Ok ih, w1)"
    and respond: "responder_respond E kb pa psk (ih_handshake_id ih) (ih_message ih) w2 = (r, w3)"
  shows "(\<forall>e. r = Err e \<longrightarrow> (\<exists>m. e = Snow m))
    \<and> (\<forall>rh s w4 w5. r = Ok rh \<longrightarrow>
         initiator_finalize E (ih_state ih) (rh_message rh) w4 = (Ok s, w5) \<longrightarrow>
         session_id s = session_id (rh_session rh)
         \<and> paired E (transport s) (transport (rh_session rh))
         \<and> paired E (transport (rh_session rh)) (transport s)
         \<and> replay s = replay_new \<and> replay (rh_session rh) = replay_new
         \<and> send_counter s = 0 \<and> send_counter (rh_session rh) = 0)"
proof -
  from initiator_start_Ok [OF start] obtain wa st where
    b: "build_initiator E ka pb psk (handshake_prologue (ih_handshake_id ih)) = Ok st"
    and wr: "hs_write E st [] MAX_NOISE_MESSAGE_SIZE wa = (Ok (ih_message ih, is_state (ih_state ih)), w1)"
    by (elim exE conjE)
  show ?thesis
  proof (cases "build_responder E kb psk (handshake_prologue (ih_handshake_id ih))")
    case (Inl e)
    with respond show ?thesis by (auto simp: responder_respond_def io_bind_def io_lift_def)
  next
    case (Inr q)
    with m b wr obtain r1 where r1: "hs_read E q (ih_message ih) MAX_NOISE_MESSAGE_SIZE = Ok ([], r1)"
      "hs_remote_static E r1 = Some pa"
      and fin: "\<And>sid w2 m2 r2 w3. length sid = SESSION_ID_SIZE \<Longrightarrow>
         hs_write E r1 sid MAX_NOISE_MESSAGE_SIZE w2 = (Ok (m2, r2), w3) \<Longrightarrow>
         \<exists>i2. hs_read E (is_state (ih_state ih)) m2 (SESSION_ID_SIZE + AEAD_TAG_SIZE) = Ok (sid, i2)
           \<and> (\<forall>ta tb. hs_transport E i2 = Ok ta \<longrightarrow> hs_transport E r2 = Ok tb \<longrightarrow>
                paired E ta tb \<and> paired E tb ta)"
      unfolding noise_matches_def by blast
    have "\<exists>m. e = Snow m" if "r = Err e" for e
      using respond Inr r1 that
      by (auto simp: responder_respond_def io_bind_def io_lift_def io_draw_def io_map_err_def
          session_new_def map_err_def split: prod.splits sum.splits)
    moreover have "session_id s = session_id (rh_session rh)
         \<and> paired E (transport s) (transport (rh_session rh))
         \<and> paired E (transport (rh_session rh)) (transport s)
         \<and> replay s = replay_new \<and> replay (rh_session rh) = replay_new
         \<and> send_counter s = 0 \<and> send_counter (rh_session rh) = 0"
      if rh: "r = Ok rh" and s: "initiator_finalize E (ih_state ih) (rh_message rh) w4 = (Ok s, w5)"
      for rh s w4 w5
    proof -
      from responder_respond_Ok [OF respond [unfolded rh]] Inr r1(1) obtain r2 wb wc where
        w: "fill_bytes E SESSION_ID_SIZE w2 = (session_id (rh_session rh), wb)"
        "hs_write E r1 (session_id (rh_session rh)) MAX_NOISE_MESSAGE_SIZE wb = (Ok (rh_message rh, r2), wc)"
        "hs_transport E r2 = Ok (transport (rh_session rh))"
        and new: "send_counter (rh_session rh) = 0" "replay (rh_session rh) = replay_new"
        by auto
      from fill [of w2] w(1) have "length (session_id (rh_session rh)) = SESSION_ID_SIZE" by simp
      from fin [OF this w(2)] initiator_finalize_Ok [OF s] w(3) new
      show ?thesis by auto
    qed
    ultimately show ?thesis by blast
  qed
qed

lemma handshake_agreement_witness:
  "\<exists>ih rh s w1 w3 w5. initiator_start demo_runtime (replicate 32 1) (replicate 32 2) (replicate 32 5) 0 = (Ok ih, w1)
    \<and> responder_respond demo_runtime (replicate 32 2) (replicate 32 1) (replicate 32 5)
        (ih_handshake_id ih) (ih_message ih) w1 = (Ok rh, w3)
    \<and> initiator_finalize demo_runtime (ih_state ih) (rh_message rh) w3 = (Ok s, w5)
    \<and> session_id s = session_id (rh_session rh)"
proof -
  have len: "length (replicate 32 1) = (32 :: nat)" "length (replicate 32 5) = (32 :: nat)"
    by (rule length_replicate)+
  let ?ka = "replicate 32 1" and ?kb = "replicate 32 2" and ?psk = "replicate 32 5"
  let ?id = "replicate SESSION_ID_SIZE (of_nat 0)" and ?sid = "replicate SESSION_ID_SIZE (of_nat (Suc 0))"
  let ?ih = "demo_started ?id ?ka ?psk"
  let ?rh = "\<lparr>rh_message = ?sid @ ?psk @ handshake_prologue ?id,
    rh_session = demo_fresh ?sid ?id (Suc (Suc 0))\<rparr>"
  have id: "length ?id = SESSION_ID_SIZE" by (rule length_replicate)
  have fill: "length (fst (fill_bytes demo_runtime SESSION_ID_SIZE w)) = SESSION_ID_SIZE" for w
    by (simp add: demo_runtime_def)
  note start = demo_start [of ?ka ?kb ?psk 0]
  have respond: "responder_respond demo_runtime ?kb ?ka ?psk (ih_handshake_id ?ih) (ih_message ?ih) (Suc 0)
      = (Ok ?rh, Suc (Suc (Suc 0)))"
    using demo_respond [OF len(1) id, of ?kb ?psk "Suc 0"] by (simp add: demo_started_def Let_def)
  have finish: "initiator_finalize demo_runtime (ih_state ?ih) (rh_message ?rh) (Suc (Suc (Suc 0)))
      = (Ok (demo_fresh ?sid ?id (Suc (Suc (Suc 0)))), Suc (Suc (Suc (Suc 0))))"
    using demo_finalize [OF length_replicate id, of ?ka ?psk "of_nat (Suc 0)"] by simp
  from handshake_agreement [OF demo_matches [OF len] fill start respond] finish
  have "session_id (demo_fresh ?sid ?id (Suc (Suc (Suc 0)))) = session_id (rh_session ?rh)"
    by blast
  with start respond finish show ?thesis by blast
qed

text \<open>The deadlines are ordered: an expired session is always due for rekeying, a session
stays expired and due as time passes, and a fresh session is usable and not due for exactly
the first 120 seconds.\<close>

lemma rekey_precedes_expiry:
  "(is_expired s now \<longrightarrow> should_rekey s now)
    \<and> (now \<le> later \<longrightarrow> is_expired s now \<longrightarrow> is_expired s later)
    \<and> (now \<le> later \<longrightarrow> should_rekey s now \<longrightarrow> should_rekey s later)
    \<and> (send_counter s = 0 \<longrightarrow> received_messages s = 0 \<longrightarrow>
         (should_rekey s now \<longleftrightarrow> created_at s + secs 120 \<le> now))"
proof -
  have "REKEY_AFTER_TIME \<le> REJECT_AFTER_TIME" and "REKEY_AFTER_MESSAGES \<le> - 1" and
    "0 < REKEY_AFTER_MESSAGES" and "0 < REKEY_AFTER_TIME"
    by (simp_all add: REKEY_AFTER_TIME_def REJECT_AFTER_TIME_def REKEY_AFTER_MESSAGES_def)
  moreover have "duration_since now t \<le> duration_since later t" if "now \<le> later" for t
    using that by (rule duration_since_mono)
  moreover have "REKEY_AFTER_TIME \<le> now - created_at s \<longleftrightarrow> created_at s + secs 120 \<le> now"
    using secs_pos [of 120] unfolding REKEY_AFTER_TIME_def by linarith
  ultimately show ?thesis
    by (auto simp: is_expired_def should_rekey_def duration_since_def)
qed

lemma rekey_precedes_expiry_witness:
  "is_expired demo_session (secs 200) \<and> should_rekey demo_session (secs 200)"
  using rekey_precedes_expiry [of demo_session "secs 200" "secs 200"]
  by (simp add: is_expired_def demo_session_def duration_since_def REJECT_AFTER_TIME_def)

end
