(* ===== verification/Sessions.thy ===== *)
theory Sessions
  imports Noise
begin

text \<open>
  The \<open>SessionManager\<close> of \<^verbatim>\<open>src/src/engine.rs\<close>: per peer one active session, one
  receive-only previous session, a responder candidate awaiting confirmation, a pending
  initiator exchange and a cached response. Each method holds the mutex for its whole body,
  so it is one function from the locked state to its result and the new state. Methods that
  read the clock or draw random bytes also thread the world of the runtime. Handshake
  identifiers are compared lexicographically, as Rust compares byte arrays.
\<close>

definition HANDSHAKE_RETRY_INTERVAL :: duration where "HANDSHAKE_RETRY_INTERVAL = secs 5"
definition HANDSHAKE_ATTEMPT_LIFETIME :: duration where "HANDSHAKE_ATTEMPT_LIFETIME = secs 30"
definition HANDSHAKE_CACHE_LIFETIME :: duration where "HANDSHAKE_CACHE_LIFETIME = secs 60"

record 'hs pending_initiator =
  pi_handshake_id :: bytes
  pi_state :: "'hs initiator_state"
  pi_packet :: bytes
  pi_created_at :: instant
  pi_last_sent :: instant

record cached_response =
  cr_handshake_id :: bytes
  cr_request :: bytes
  cr_response :: bytes
  cr_created_at :: instant

record ('hs, 'ts) session_state =
  sessions :: "(string, 'ts session) hmap"
  previous_sessions :: "(string, 'ts session) hmap"
  responder_candidates :: "(string, 'ts session) hmap"
  pending_init :: "(string, 'hs pending_initiator) hmap"
  responder_cache :: "(string, cached_response) hmap"
  inbound_recovery_preference :: "string set"

record decrypted_transport =
  dt_peer_name :: string
  dt_msg_type :: msg_type
  dt_payload :: bytes
  dt_promoted :: bool

definition session_manager_new :: "('hs, 'ts) session_state" where
  "session_manager_new = \<lparr>sessions = [], previous_sessions = [], responder_candidates = [],
     pending_init = [], responder_cache = [], inbound_recovery_preference = {}\<rparr>"

text \<open>\<open>Option::is_some_and\<close>.\<close>

definition opt_test :: "('a \<Rightarrow> bool) \<Rightarrow> 'a option \<Rightarrow> bool" where
  "opt_test p x = (case x of None \<Rightarrow> False | Some y \<Rightarrow> p y)"

definition retain_live :: "instant \<Rightarrow> (string, 'ts session) hmap \<Rightarrow> (string, 'ts session) hmap" where
  "retain_live now m = hm_retain (\<lambda>_ s. \<not> is_expired s now) m"

definition find_session :: "bytes \<Rightarrow> (string, 'ts session) hmap \<Rightarrow> string option" where
  "find_session sid m = hm_find_key (\<lambda>s. session_id s = sid) m"

definition session_id_in_use :: "('hs, 'ts) session_state \<Rightarrow> bytes \<Rightarrow> bool" where
  "session_id_in_use st sid \<longleftrightarrow>
    (\<exists>(_, s) \<in> set (sessions st @ previous_sessions st @ responder_candidates st). session_id s = sid)"

definition install_active_session ::
    "('hs, 'ts) session_state \<Rightarrow> string \<Rightarrow> 'ts session \<Rightarrow> ('hs, 'ts) session_state" where
  "install_active_session st peer s =
    (let st1 = st\<lparr>inbound_recovery_preference := inbound_recovery_preference st - {peer}\<rparr>;
         st2 = st1\<lparr>sessions := hm_insert peer s (sessions st1)\<rparr>
     in case hm_get (sessions st1) peer of
          None \<Rightarrow> st2
        | Some previous \<Rightarrow>
            st2\<lparr>previous_sessions := hm_insert peer previous (previous_sessions st2)\<rparr>)"

definition drop_expired_active :: "('hs, 'ts) session_state \<Rightarrow> string \<Rightarrow> instant \<Rightarrow> ('hs, 'ts) session_state" where
  "drop_expired_active st peer now =
    (if opt_test (\<lambda>s. is_expired s now) (hm_get (sessions st) peer)
     then st\<lparr>sessions := hm_remove peer (sessions st)\<rparr> else st)"

definition encrypt_for_peer ::
    "('hs, 'ts, 'w) runtime \<Rightarrow> ('hs, 'ts) session_state \<Rightarrow> string \<Rightarrow> msg_type \<Rightarrow> bytes \<Rightarrow> instant
      \<Rightarrow> (noise_error, bytes option) result \<times> ('hs, 'ts) session_state" where
  "encrypt_for_peer E st peer m payload now =
    (let st1 = st\<lparr>previous_sessions := retain_live now (previous_sessions st)\<rparr>;
         st2 = drop_expired_active st1 peer now
     in case hm_get (sessions st2) peer of
          None \<Rightarrow> (Ok None, st2)
        | Some s \<Rightarrow>
            case encrypt E s m payload of (r, s') \<Rightarrow>
              (case r of Inl e \<Rightarrow> Err e | Inr frame \<Rightarrow> Ok (Some frame),
               st2\<lparr>sessions := hm_insert peer s' (sessions st2)\<rparr>))"

definition retain_all_live :: "instant \<Rightarrow> ('hs, 'ts) session_state \<Rightarrow> ('hs, 'ts) session_state" where
  "retain_all_live now st =
    st\<lparr>sessions := retain_live now (sessions st),
       previous_sessions := retain_live now (previous_sessions st),
       responder_candidates := retain_live now (responder_candidates st)\<rparr>"

definition transport_of :: "string \<Rightarrow> bool \<Rightarrow> (noise_error, msg_type \<times> bytes) result
    \<Rightarrow> (noise_error, decrypted_transport option) result" where
  "transport_of peer promoted r =
    (case r of
       Inl e \<Rightarrow> Err e
     | Inr (m, payload) \<Rightarrow>
         Ok (Some \<lparr>dt_peer_name = peer, dt_msg_type = m, dt_payload = payload, dt_promoted = promoted\<rparr>))"

text \<open>\<open>the\<close> stands for \<open>get_mut(..).expect(..)\<close> on the key just found in the same map; it is
never applied to \<open>None\<close> (\<open>find_session_present\<close>).\<close>

definition decrypt_transport ::
    "('hs, 'ts, 'w) runtime \<Rightarrow> ('hs, 'ts) session_state \<Rightarrow> bytes \<Rightarrow> u64 \<Rightarrow> bytes \<Rightarrow> instant
      \<Rightarrow> (noise_error, decrypted_transport option) result \<times> ('hs, 'ts) session_state" where
  "decrypt_transport E st0 sid counter ct now =
    (let st = retain_all_live now st0 in
     case find_session sid (sessions st) of
       Some peer \<Rightarrow>
         (case decrypt E (the (hm_get (sessions st) peer)) sid counter ct of (r, s') \<Rightarrow>
            (transport_of peer False r, st\<lparr>sessions := hm_insert peer s' (sessions st)\<rparr>))
     | None \<Rightarrow>
     case find_session sid (previous_sessions st) of
       Some peer \<Rightarrow>
         (case decrypt E (the (hm_get (previous_sessions st) peer)) sid counter ct of (r, s') \<Rightarrow>
            (transport_of peer False r, st\<lparr>previous_sessions := hm_insert peer s' (previous_sessions st)\<rparr>))
     | None \<Rightarrow>
     case find_session sid (responder_candidates st) of
       None \<Rightarrow> (Ok None, st)
     | Some peer \<Rightarrow>
         (case decrypt E (the (hm_get (responder_candidates st) peer)) sid counter ct of (r, s') \<Rightarrow>
            (case r of
               Inl e \<Rightarrow> (Err e, st\<lparr>responder_candidates := hm_insert peer s' (responder_candidates st)\<rparr>)
             | Inr _ \<Rightarrow>
                 let st1 = st\<lparr>responder_candidates := hm_remove peer (responder_candidates st)\<rparr>;
                     st2 = install_active_session st1 peer s'
                 in (transport_of peer True r,
                     st2\<lparr>pending_init := hm_remove peer (pending_init st2),
                         responder_cache := hm_remove peer (responder_cache st2)\<rparr>))))"

definition store_responder_candidate ::
    "('hs, 'ts, 'w) runtime \<Rightarrow> ('hs, 'ts) session_state \<Rightarrow> string \<Rightarrow> 'ts session \<Rightarrow> bytes \<Rightarrow> bytes \<Rightarrow> bytes \<Rightarrow> 'w
      \<Rightarrow> bool \<times> ('hs, 'ts) session_state \<times> 'w" where
  "store_responder_candidate E st peer s hid request response w =
    (if session_id_in_use st (session_id s) then (False, st, w)
     else
       case instant_now E w of (t, w') \<Rightarrow>
         (True,
          st\<lparr>pending_init := hm_remove peer (pending_init st),
             responder_candidates := hm_insert peer s (responder_candidates st),
             responder_cache := hm_insert peer
               \<lparr>cr_handshake_id = hid, cr_request = request, cr_response = response, cr_created_at = t\<rparr>
               (responder_cache st)\<rparr>,
          w'))"

text \<open>\<open>Option::is_some_and\<close> with \<open>elapsed\<close> reads the clock only if there is an entry.\<close>

definition elapsed_at_least ::
    "('hs, 'ts, 'w) runtime \<Rightarrow> instant option \<Rightarrow> duration \<Rightarrow> 'w \<Rightarrow> bool \<times> 'w" where
  "elapsed_at_least E since limit w =
    (case since of
       None \<Rightarrow> (False, w)
     | Some t \<Rightarrow> case instant_now E w of (now, w') \<Rightarrow> (duration_since now t \<ge> limit, w'))"

definition cached_responder_response ::
    "('hs, 'ts, 'w) runtime \<Rightarrow> ('hs, 'ts) session_state \<Rightarrow> string \<Rightarrow> bytes \<Rightarrow> bytes \<Rightarrow> 'w
      \<Rightarrow> bytes option \<times> ('hs, 'ts) session_state \<times> 'w" where
  "cached_responder_response E st peer hid request w =
    (case elapsed_at_least E (map_option cr_created_at (hm_get (responder_cache st) peer))
            HANDSHAKE_CACHE_LIFETIME w of (expired, w') \<Rightarrow>
       if expired then
         (None,
          st\<lparr>responder_cache := hm_remove peer (responder_cache st),
             responder_candidates := hm_remove peer (responder_candidates st)\<rparr>,
          w')
       else
         (case hm_get (responder_cache st) peer of
            None \<Rightarrow> None
          | Some cached \<Rightarrow>
              if cr_handshake_id cached = hid \<and> cr_request cached = request
              then Some (cr_response cached) else None,
          st, w'))"

definition accept_inbound_initiation ::
    "('hs, 'ts, 'w) runtime \<Rightarrow> ('hs, 'ts) session_state \<Rightarrow> string \<Rightarrow> bytes \<Rightarrow> bool \<Rightarrow> 'w
      \<Rightarrow> bool \<times> ('hs, 'ts) session_state \<times> 'w" where
  "accept_inbound_initiation E st0 peer remote_id passive_peer w =
    (case elapsed_at_least E (map_option pi_created_at (hm_get (pending_init st0) peer))
            HANDSHAKE_ATTEMPT_LIFETIME w of (aged, w') \<Rightarrow>
       let st = (if aged then st0\<lparr>pending_init := hm_remove peer (pending_init st0)\<rparr> else st0) in
       if passive_peer \<and> peer \<in> inbound_recovery_preference st then
         (True,
          st\<lparr>inbound_recovery_preference := inbound_recovery_preference st - {peer},
             pending_init := hm_remove peer (pending_init st)\<rparr>,
          w')
       else
         case hm_get (pending_init st) peer of
           None \<Rightarrow> (True, st, w')
         | Some loc \<Rightarrow>
             if pi_handshake_id loc \<le> remote_id then (False, st, w')
             else (True, st\<lparr>pending_init := hm_remove peer (pending_init st)\<rparr>, w'))"

definition start_or_retry_handshake ::
    "('hs, 'ts, 'w) runtime \<Rightarrow> ('hs, 'ts) session_state \<Rightarrow> string \<Rightarrow> bytes \<Rightarrow> bytes \<Rightarrow> bytes \<Rightarrow> instant \<Rightarrow> 'w
      \<Rightarrow> (noise_error, bytes option) result \<times> ('hs, 'ts) session_state \<times> 'w" where
  "start_or_retry_handshake E st0 peer local_static remote_static_pub psk now w =
    (let st1 = (if opt_test (\<lambda>p. duration_since now (pi_created_at p) \<ge> HANDSHAKE_ATTEMPT_LIFETIME)
                     (hm_get (pending_init st0) peer)
                then st0\<lparr>pending_init := hm_remove peer (pending_init st0)\<rparr> else st0) in
     case hm_get (pending_init st1) peer of
       Some p \<Rightarrow>
         if duration_since now (pi_last_sent p) < HANDSHAKE_RETRY_INTERVAL then (Ok None, st1, w)
         else
           (Ok (Some (pi_packet p)),
            st1\<lparr>pending_init := hm_insert peer (p\<lparr>pi_last_sent := now\<rparr>) (pending_init st1)\<rparr>, w)
     | None \<Rightarrow>
         let st2 = (if opt_test (\<lambda>s. is_expired s now) (hm_get (responder_candidates st1) peer)
                    then st1\<lparr>responder_candidates := hm_remove peer (responder_candidates st1),
                             responder_cache := hm_remove peer (responder_cache st1)\<rparr>
                    else st1) in
         if hm_contains (responder_candidates st2) peer then (Ok None, st2, w)
         else
           let st3 = drop_expired_active st2 peer now in
           if opt_test (\<lambda>s. \<not> should_rekey s now) (hm_get (sessions st3) peer) then (Ok None, st3, w)
           else
             case initiator_start E local_static remote_static_pub psk w of
               (Inl e, w') \<Rightarrow> (Err e, st3, w')
             | (Inr handshake, w') \<Rightarrow>
                 let packet = encode_handshake HandshakeInit (ih_handshake_id handshake)
                                (ih_message handshake);
                     p = \<lparr>pi_handshake_id = ih_handshake_id handshake, pi_state = ih_state handshake,
                          pi_packet = packet, pi_created_at = now, pi_last_sent = now\<rparr>
                 in (Ok (Some packet),
                     st3\<lparr>pending_init := hm_insert peer p (pending_init st3)\<rparr>, w'))"

definition finalize_initiator ::
    "('hs, 'ts, 'w) runtime \<Rightarrow> ('hs, 'ts) session_state \<Rightarrow> bytes \<Rightarrow> bytes \<Rightarrow> 'w
      \<Rightarrow> (noise_error, (string \<times> bytes) option) result \<times> ('hs, 'ts) session_state \<times> 'w" where
  "finalize_initiator E st hid response w =
    (case hm_find_key (\<lambda>p. pi_handshake_id p = hid) (pending_init st) of
       None \<Rightarrow> (Ok None, st, w)
     | Some peer \<Rightarrow>
         let pending = the (hm_get (pending_init st) peer);
             st1 = st\<lparr>pending_init := hm_remove peer (pending_init st)\<rparr>
         in case initiator_finalize E (pi_state pending) response w of
              (Inl e, w') \<Rightarrow> (Err e, st1, w')
            | (Inr s, w') \<Rightarrow>
                if session_id_in_use st1 (session_id s) then (Err WrongSession, st1, w')
                else
                  case encrypt E s Keepalive KEEPALIVE_PROBE_PAYLOAD of
                    (Inl e, _) \<Rightarrow> (Err e, st1, w')
                  | (Inr confirmation, s') \<Rightarrow>
                      let st2 = install_active_session st1 peer s'
                      in (Ok (Some (peer, confirmation)),
                          st2\<lparr>responder_candidates := hm_remove peer (responder_candidates st2),
                              responder_cache := hm_remove peer (responder_cache st2)\<rparr>,
                          w'))"

definition has_pending_init :: "('hs, 'ts) session_state \<Rightarrow> string \<Rightarrow> bool" where
  "has_pending_init st peer = hm_contains (pending_init st) peer"

definition has_active_session ::
    "('hs, 'ts, 'w) runtime \<Rightarrow> ('hs, 'ts) session_state \<Rightarrow> string \<Rightarrow> 'w \<Rightarrow> bool \<times> 'w" where
  "has_active_session E st peer w =
    (case instant_now E w of (now, w') \<Rightarrow>
       (opt_test (\<lambda>s. \<not> is_expired s now) (hm_get (sessions st) peer), w'))"

definition invalidate_peer :: "('hs, 'ts) session_state \<Rightarrow> string \<Rightarrow> bool \<times> ('hs, 'ts) session_state" where
  "invalidate_peer st peer =
    (hm_contains (sessions st) peer \<or> hm_contains (previous_sessions st) peer
       \<or> hm_contains (responder_candidates st) peer \<or> hm_contains (pending_init st) peer,
     st\<lparr>sessions := hm_remove peer (sessions st),
        previous_sessions := hm_remove peer (previous_sessions st),
        responder_candidates := hm_remove peer (responder_candidates st),
        pending_init := hm_remove peer (pending_init st),
        responder_cache := hm_remove peer (responder_cache st),
        inbound_recovery_preference := insert peer (inbound_recovery_preference st)\<rparr>)"

definition active_session_id :: "('hs, 'ts) session_state \<Rightarrow> string \<Rightarrow> bytes option" where
  "active_session_id st peer = map_option session_id (hm_get (sessions st) peer)"

subsection \<open>Slots\<close>

text \<open>A slot is a place that holds a session; all reasoning about the three session maps goes
through \<open>session_at\<close>.\<close>

datatype slot = Active string | Previous string | Candidate string

fun slot_peer :: "slot \<Rightarrow> string" where
  "slot_peer (Active p) = p"
| "slot_peer (Previous p) = p"
| "slot_peer (Candidate p) = p"

fun session_at :: "('hs, 'ts) session_state \<Rightarrow> slot \<Rightarrow> 'ts session option" where
  "session_at st (Active p) = hm_get (sessions st) p"
| "session_at st (Previous p) = hm_get (previous_sessions st) p"
| "session_at st (Candidate p) = hm_get (responder_candidates st) p"

definition sm_wf :: "('hs, 'ts) session_state \<Rightarrow> bool" where
  "sm_wf st \<longleftrightarrow> hm_wf (sessions st) \<and> hm_wf (previous_sessions st) \<and> hm_wf (responder_candidates st)
    \<and> hm_wf (pending_init st) \<and> hm_wf (responder_cache st)"

definition ids_unique :: "('hs, 'ts) session_state \<Rightarrow> bool" where
  "ids_unique st \<longleftrightarrow> (\<forall>a b s t. session_at st a = Some s \<longrightarrow> session_at st b = Some t \<longrightarrow>
     session_id s = session_id t \<longrightarrow> a = b)"

definition cached_candidates :: "('hs, 'ts) session_state \<Rightarrow> bool" where
  "cached_candidates st \<longleftrightarrow> (\<forall>p. hm_get (responder_candidates st) p \<noteq> None \<longrightarrow> hm_get (responder_cache st) p \<noteq> None)"

text \<open>A log holds the pairs of session identifier and counter delivered since that
identifier was last installed; the replay window of a session covers its entries.\<close>

type_synonym delivery_log = "(bytes \<times> u64) set"

definition covers :: "delivery_log \<Rightarrow> 'ts session \<Rightarrow> bool" where
  "covers log s \<longleftrightarrow> (\<exists>S. replay_tracks (replay s) S \<and> (\<forall>c. (session_id s, c) \<in> log \<longrightarrow> c \<in> S))"

definition sm_inv :: "('hs, 'ts) session_state \<Rightarrow> delivery_log \<Rightarrow> bool" where
  "sm_inv st log \<longleftrightarrow> sm_wf st \<and> ids_unique st \<and> cached_candidates st
    \<and> (\<forall>a s. session_at st a = Some s \<longrightarrow> covers log s)"

definition forget :: "bytes \<Rightarrow> delivery_log \<Rightarrow> delivery_log" where
  "forget i log = {(j, c). (j, c) \<in> log \<and> j \<noteq> i}"

lemma forget_iff [simp]: "(j, c) \<in> forget i log \<longleftrightarrow> (j, c) \<in> log \<and> j \<noteq> i"
  by (simp add: forget_def)

lemma opt_test_simps [simp]: "opt_test p None = False" "opt_test p (Some x) = p x"
  by (simp_all add: opt_test_def)

lemma opt_test_iff: "opt_test p x \<longleftrightarrow> (\<exists>y. x = Some y \<and> p y)"
  by (cases x) simp_all

lemma retain_live_get [simp]:
  "hm_wf m \<Longrightarrow> hm_get (retain_live now m) k = Some s \<longleftrightarrow> hm_get m k = Some s \<and> \<not> is_expired s now"
  by (auto simp: retain_live_def hm_get_retain split: option.splits)

lemma retain_live_wf [keys_simps]: "hm_wf m \<Longrightarrow> hm_wf (retain_live now m)"
  by (simp add: retain_live_def keys_simps)

lemma find_session_present:
  assumes "hm_wf m" and "find_session sid m = Some p"
  shows "\<exists>s. hm_get m p = Some s \<and> session_id s = sid"
  using hm_find_key_Some [OF assms(1) assms(2) [unfolded find_session_def]] by metis

lemma find_session_None:
  "hm_wf m \<Longrightarrow> find_session sid m = None \<longleftrightarrow> (\<forall>p s. hm_get m p = Some s \<longrightarrow> session_id s \<noteq> sid)"
  unfolding find_session_def hm_find_key_None by (fastforce simp: map_of_eq_Some_iff)

lemma session_id_in_use_iff:
  assumes "sm_wf st"
  shows "session_id_in_use st sid \<longleftrightarrow> (\<exists>a s. session_at st a = Some s \<and> session_id s = sid)"
proof
  assume "session_id_in_use st sid"
  then obtain p s where s: "session_id s = sid"
    and "(p, s) \<in> set (sessions st) \<or> (p, s) \<in> set (previous_sessions st)
      \<or> (p, s) \<in> set (responder_candidates st)"
    by (auto simp: session_id_in_use_def)
  then have "session_at st (Active p) = Some s \<or> session_at st (Previous p) = Some s
      \<or> session_at st (Candidate p) = Some s"
    using assms by (auto simp: sm_wf_def map_of_eq_Some_iff)
  with s show "\<exists>a s. session_at st a = Some s \<and> session_id s = sid" by blast
next
  assume "\<exists>a s. session_at st a = Some s \<and> session_id s = sid"
  then obtain a s where "session_at st a = Some s" "session_id s = sid" by blast
  then show "session_id_in_use st sid"
    by (cases a) (auto simp: session_id_in_use_def dest!: map_of_SomeD)
qed

lemma ids_uniqueD:
  "ids_unique st \<Longrightarrow> session_at st a = Some s \<Longrightarrow> session_at st b = Some t \<Longrightarrow>
    session_id s = session_id t \<Longrightarrow> a = b"
  by (auto simp: ids_unique_def)

text \<open>The effect of the helpers on the slots.\<close>

lemma put_at:
  "session_at (st\<lparr>sessions := hm_insert p s (sessions st)\<rparr>) a =
    (if a = Active p then Some s else session_at st a)"
  "session_at (st\<lparr>previous_sessions := hm_insert p s (previous_sessions st)\<rparr>) a =
    (if a = Previous p then Some s else session_at st a)"
  "session_at (st\<lparr>responder_candidates := hm_insert p s (responder_candidates st)\<rparr>) a =
    (if a = Candidate p then Some s else session_at st a)"
  "session_at (st\<lparr>responder_candidates := hm_remove p (responder_candidates st)\<rparr>) a =
    (if a = Candidate p then None else session_at st a)"
  by (cases a; simp)+

lemma other_fields_at [simp]:
  "session_at (st\<lparr>pending_init := m\<rparr>) a = session_at st a"
  "session_at (st\<lparr>responder_cache := c\<rparr>) a = session_at st a"
  "session_at (st\<lparr>inbound_recovery_preference := r\<rparr>) a = session_at st a"
  by (cases a; simp)+

lemma install_at:
  "session_at (install_active_session st p s) a =
    (if a = Active p then Some s
     else if a = Previous p \<and> session_at st (Active p) \<noteq> None then session_at st (Active p)
     else session_at st a)"
  by (cases a) (auto simp: install_active_session_def Let_def split: option.splits)

lemma install_fields [keeps]:
  "responder_candidates (install_active_session st p s) = responder_candidates st"
  "pending_init (install_active_session st p s) = pending_init st"
  "responder_cache (install_active_session st p s) = responder_cache st"
  by (auto simp: install_active_session_def Let_def split: option.splits)

lemma install_wf [keys_simps]: "sm_wf st \<Longrightarrow> sm_wf (install_active_session st p s)"
  by (auto simp: sm_wf_def install_active_session_def Let_def keys_simps split: option.splits)

lemma drop_expired_at:
  "session_at (drop_expired_active st p now) a =
    (if a = Active p \<and> opt_test (\<lambda>s. is_expired s now) (session_at st a) then None else session_at st a)"
  by (cases a) (auto simp: drop_expired_active_def)

lemma drop_expired_fields [keeps]:
  "previous_sessions (drop_expired_active st p now) = previous_sessions st"
  "responder_candidates (drop_expired_active st p now) = responder_candidates st"
  "pending_init (drop_expired_active st p now) = pending_init st"
  "responder_cache (drop_expired_active st p now) = responder_cache st"
  "inbound_recovery_preference (drop_expired_active st p now) = inbound_recovery_preference st"
  by (simp_all add: drop_expired_active_def)

lemma drop_expired_wf [keys_simps]: "sm_wf st \<Longrightarrow> sm_wf (drop_expired_active st p now)"
  by (simp add: sm_wf_def drop_expired_active_def keys_simps)

lemma retain_all_at [simp]:
  "sm_wf st \<Longrightarrow> session_at (retain_all_live now st) a = Some s \<longleftrightarrow>
    session_at st a = Some s \<and> \<not> is_expired s now"
  by (cases a) (simp_all add: retain_all_live_def sm_wf_def)

lemma retain_all_wf [keys_simps]: "sm_wf st \<Longrightarrow> sm_wf (retain_all_live now st)"
  by (simp add: sm_wf_def retain_all_live_def keys_simps)

lemma retain_all_fields [keeps]:
  "pending_init (retain_all_live now st) = pending_init st"
  "responder_cache (retain_all_live now st) = responder_cache st"
  "inbound_recovery_preference (retain_all_live now st) = inbound_recovery_preference st"
  by (simp_all add: retain_all_live_def)

end
