(* ===== verification/Session_Inv.thy ===== *)
theory Session_Inv
  imports Sessions
begin

text \<open>
  The invariant of the session manager and its preservation by every method, as a step
  relation over arbitrary interleavings of calls.
\<close>

subsection \<open>How the invariant is kept\<close>

text \<open>Three kinds of change: sessions move between slots or disappear, one session is updated in
place, a fresh session is installed.\<close>

lemma sm_inv_moved:
  assumes inv: "sm_inv st log" and wf: "sm_wf st'" and cached: "cached_candidates st'"
    and at: "\<And>a s. session_at st' a = Some s \<Longrightarrow> session_at st (f a) = Some s"
    and inj: "\<And>a b. f a = f b \<Longrightarrow> session_at st' a \<noteq> None \<Longrightarrow> session_at st' b \<noteq> None \<Longrightarrow> a = b"
  shows "sm_inv st' log"
proof -
  have "a = b" if "session_at st' a = Some s" "session_at st' b = Some t" "session_id s = session_id t" for a b s t
    using inv that at inj ids_uniqueD [of st "f a" s "f b" t] by (auto simp: sm_inv_def)
  then have "ids_unique st'" unfolding ids_unique_def by blast
  with assms show ?thesis unfolding sm_inv_def by blast
qed

lemma sm_inv_shrink:
  assumes "sm_inv st log" and "sm_wf st'" and "cached_candidates st'"
    and "\<And>a s. session_at st' a = Some s \<Longrightarrow> session_at st a = Some s"
  shows "sm_inv st' log"
  using assms by (rule sm_inv_moved [where f = "\<lambda>a. a"])

lemma sm_inv_update:
  fixes st st' :: "('hs, 'ts) session_state"
  assumes inv: "sm_inv st log" and wf: "sm_wf st'" and cached: "cached_candidates st'"
    and s: "session_at st a = Some s" and same: "session_id s' = session_id s"
    and at: "\<And>b. session_at st' b = (if b = a then Some s' else session_at st b)"
    and new: "covers log' s'"
    and other: "\<And>t :: 'ts session. session_id t \<noteq> session_id s \<Longrightarrow> covers log t \<Longrightarrow> covers log' t"
  shows "sm_inv st' log'"
proof -
  from inv have uniq: "ids_unique st" and cov: "\<And>a s. session_at st a = Some s \<Longrightarrow> covers log s"
    by (auto simp: sm_inv_def)
  have "ids_unique st'"
    unfolding ids_unique_def at using s same
    by (auto split: if_splits dest: ids_uniqueD [OF uniq])
  moreover have "covers log' t" if "session_at st' b = Some t" for b t
  proof (cases "b = a")
    case True
    with that at new show ?thesis by simp
  next
    case False
    with that at have t: "session_at st b = Some t" by simp
    with False s ids_uniqueD [OF uniq t s] have "session_id t \<noteq> session_id s" by blast
    with t cov other show ?thesis by blast
  qed
  ultimately show ?thesis using wf cached by (simp add: sm_inv_def)
qed

lemma covers_forget: "covers log s \<Longrightarrow> covers (forget i log) s"
  by (auto simp: covers_def)

lemma covers_fresh: "replay n = replay_new \<Longrightarrow> covers (forget (session_id n) log) n"
  by (auto simp: covers_def intro!: exI [of _ "{}"] replay_tracks_new)

lemma sm_inv_install:
  assumes inv: "sm_inv st log" and wf: "sm_wf st'" and cached: "cached_candidates st'"
    and fresh: "\<And>a s. session_at st a = Some s \<Longrightarrow> session_id s \<noteq> session_id n"
    and new: "session_at st' home = Some n" "replay n = replay_new"
    and at: "\<And>a s. a \<noteq> home \<Longrightarrow> session_at st' a = Some s \<Longrightarrow> session_at st (f a) = Some s"
    and inj: "\<And>a b. f a = f b \<Longrightarrow> a \<noteq> home \<Longrightarrow> b \<noteq> home \<Longrightarrow> a = b"
  shows "sm_inv st' (forget (session_id n) log)"
proof -
  from inv have uniq: "ids_unique st" and cov: "\<And>a s. session_at st a = Some s \<Longrightarrow> covers log s"
    by (auto simp: sm_inv_def)
  have id: "session_id s \<noteq> session_id n" if "a \<noteq> home" "session_at st' a = Some s" for a s
    using at [OF that] fresh by blast
  have "a = b" if ab: "session_at st' a = Some s" "session_at st' b = Some t" "session_id s = session_id t" for a b s t
  proof (cases "a = home \<or> b = home")
    case True
    with ab id new show ?thesis by (metis option.inject)
  next
    case False
    with ab at inj ids_uniqueD [OF uniq, of "f a" s "f b" t] show ?thesis by blast
  qed
  then have "ids_unique st'" unfolding ids_unique_def by blast
  moreover have "covers (forget (session_id n) log) s" if "session_at st' a = Some s" for a s
  proof (cases "a = home")
    case True
    with that new covers_fresh [OF new(2), of log] show ?thesis by simp
  next
    case False
    with that at cov show ?thesis by (blast intro: covers_forget)
  qed
  ultimately show ?thesis using wf cached by (simp add: sm_inv_def)
qed

lemma covers_same_replay:
  "replay s' = replay s \<Longrightarrow> session_id s' = session_id s \<Longrightarrow> covers log s' = covers log s"
  by (simp add: covers_def)

text \<open>A step of \<open>decrypt\<close> on one session, with its effect on the log.\<close>

definition log_delivery :: "bytes \<Rightarrow> u64 \<Rightarrow> ('e, 'a) result \<Rightarrow> delivery_log \<Rightarrow> delivery_log" where
  "log_delivery sid c r log = (case r of Inl _ \<Rightarrow> log | Inr _ \<Rightarrow> insert (sid, c) log)"

lemma covers_decrypt:
  assumes cov: "covers log s" and d: "decrypt E s sid c ct = (r, s')"
  shows "covers (log_delivery sid c r log) s'" and "r = Ok x \<Longrightarrow> (sid, c) \<notin> log"
proof -
  from cov obtain S where tr: "replay_tracks (replay s) S" and S: "\<And>c. (session_id s, c) \<in> log \<Longrightarrow> c \<in> S"
    by (auto simp: covers_def)
  have id: "session_id s' = session_id s" using decrypt_keeps(1) [of E s sid c ct] d by simp
  show "covers (log_delivery sid c r log) s'"
  proof (cases r)
    case (Inl e)
    with decrypt_tracks [OF d tr] obtain S' where "S \<subseteq> S'" "replay_tracks (replay s') S'" by auto
    with S id Inl show ?thesis by (auto simp: covers_def log_delivery_def)
  next
    case (Inr y)
    with decrypt_tracks [OF d tr] have "replay_tracks (replay s') (insert c S)" by auto
    with S id Inr show ?thesis by (auto simp: covers_def log_delivery_def)
  qed
  show "(sid, c) \<notin> log" if "r = Ok x"
  proof -
    from d that have "sid = session_id s" by (cases rule: decrypt_cases) simp_all
    with decrypt_tracks [OF d tr] that S show ?thesis by auto
  qed
qed

lemma covers_log_other:
  "session_id t \<noteq> sid \<Longrightarrow> covers log t \<Longrightarrow> covers (log_delivery sid c r log) t"
  by (auto simp: covers_def log_delivery_def split: sum.splits)

lemma retain_all_inv:
  assumes "sm_inv st log"
  shows "sm_inv (retain_all_live now st) log"
proof (rule sm_inv_shrink [OF assms])
  from assms have wf: "sm_wf st" and "cached_candidates st" by (simp_all add: sm_inv_def)
  then show "sm_wf (retain_all_live now st)" and "cached_candidates (retain_all_live now st)"
    by (auto simp: keys_simps cached_candidates_def retain_all_live_def sm_wf_def)
  from wf show "session_at st a = Some s" if "session_at (retain_all_live now st) a = Some s" for a s
    using that by simp
qed

lemma encrypt_for_peer_inv:
  assumes inv: "sm_inv st log" and e: "encrypt_for_peer E st p m payload now = (r, st')"
  shows "sm_inv st' log"
proof -
  define st1 where "st1 = st\<lparr>previous_sessions := retain_live now (previous_sessions st)\<rparr>"
  define st2 where "st2 = drop_expired_active st1 p now"
  have at1: "session_at st a = Some s" if "session_at st1 a = Some s" for a s
    using that inv by (cases a) (auto simp: st1_def sm_inv_def sm_wf_def)
  have "sm_inv st1 log"
    using at1 inv by (intro sm_inv_shrink [OF inv]) (auto simp: st1_def sm_inv_def sm_wf_def keys_simps cached_candidates_def)
  then have inv2: "sm_inv st2 log"
    by (rule sm_inv_shrink)
      (use \<open>sm_inv st1 log\<close> in \<open>auto simp: st2_def drop_expired_at keys_simps sm_inv_def
        cached_candidates_def drop_expired_fields split: if_splits\<close>)
  show ?thesis
  proof (cases "hm_get (sessions st2) p")
    case None
    with e inv2 show ?thesis by (simp add: encrypt_for_peer_def Let_def st1_def st2_def)
  next
    case (Some s)
    obtain q s' where q: "encrypt E s m payload = (q, s')" by (cases "encrypt E s m payload")
    with e Some have st': "st' = st2\<lparr>sessions := hm_insert p s' (sessions st2)\<rparr>"
      by (simp add: encrypt_for_peer_def Let_def st1_def st2_def)
    have same: "session_id s' = session_id s" "replay s' = replay s"
      using encrypt_keeps [of E s m payload] q by simp_all
    from Some inv2 have cov: "covers log s" by (auto simp: sm_inv_def dest: spec [of _ "Active p"])
    show ?thesis
      using inv2 same cov covers_same_replay [of s' s log] Some unfolding st'
      by (intro sm_inv_update [OF inv2, of _ "Active p" s s'])
        (auto simp: sm_inv_def sm_wf_def keys_simps cached_candidates_def put_at)
  qed
qed

lemma decrypt_transport_cases:
  assumes wf: "sm_wf st" and d: "decrypt_transport E st sid c ct now = (r, st')"
  obtains (unknown) "r = Ok None" and "st' = retain_all_live now st"
      and "\<And>a s. session_at (retain_all_live now st) a = Some s \<Longrightarrow> session_id s \<noteq> sid"
  | (active) p s r0 s' where "session_at (retain_all_live now st) (Active p) = Some s"
      and "session_id s = sid" and "decrypt E s sid c ct = (r0, s')" and "r = transport_of p False r0"
      and "st' = (retain_all_live now st)\<lparr>sessions := hm_insert p s' (sessions (retain_all_live now st))\<rparr>"
  | (previous) p s r0 s' where "session_at (retain_all_live now st) (Previous p) = Some s"
      and "session_id s = sid" and "decrypt E s sid c ct = (r0, s')" and "r = transport_of p False r0"
      and "st' = (retain_all_live now st)
            \<lparr>previous_sessions := hm_insert p s' (previous_sessions (retain_all_live now st))\<rparr>"
  | (refused) p s e s' where "session_at (retain_all_live now st) (Candidate p) = Some s"
      and "session_id s = sid" and "decrypt E s sid c ct = (Err e, s')" and "r = Err e"
      and "st' = (retain_all_live now st)
            \<lparr>responder_candidates := hm_insert p s' (responder_candidates (retain_all_live now st))\<rparr>"
  | (promoted) p s x s' st2 where "session_at (retain_all_live now st) (Candidate p) = Some s"
      and "session_id s = sid" and "decrypt E s sid c ct = (Ok x, s')" and "r = transport_of p True (Ok x)"
      and "st2 = install_active_session ((retain_all_live now st)
            \<lparr>responder_candidates := hm_remove p (responder_candidates (retain_all_live now st))\<rparr>) p s'"
      and "st' = st2\<lparr>pending_init := hm_remove p (pending_init st2),
            responder_cache := hm_remove p (responder_cache st2)\<rparr>"
proof -
  define R where "R = retain_all_live now st"
  have wfR: "hm_wf (sessions R)" "hm_wf (previous_sessions R)" "hm_wf (responder_candidates R)"
    using wf retain_all_wf [of st now] by (simp_all add: R_def sm_wf_def)
  note d' = d [unfolded decrypt_transport_def, folded R_def, unfolded Let_def]
  show thesis
  proof (cases "find_session sid (sessions R)")
    case (Some p)
    with find_session_present [OF wfR(1)] obtain s where "hm_get (sessions R) p = Some s" "session_id s = sid"
      by blast
    with d' Some show thesis
      by (cases "decrypt E s sid c ct") (auto intro: active simp flip: R_def)
  next
    case noactive: None
    show thesis
    proof (cases "find_session sid (previous_sessions R)")
      case (Some p)
      with find_session_present [OF wfR(2)] obtain s
        where "hm_get (previous_sessions R) p = Some s" "session_id s = sid" by blast
      with d' noactive Some show thesis
        by (cases "decrypt E s sid c ct") (auto intro: previous simp flip: R_def)
    next
      case noprevious: None
      show thesis
      proof (cases "find_session sid (responder_candidates R)")
        case (Some p)
        with find_session_present [OF wfR(3)] obtain s
          where s: "hm_get (responder_candidates R) p = Some s" "session_id s = sid" by blast
        obtain r0 s' where r0: "decrypt E s sid c ct = (r0, s')" by (cases "decrypt E s sid c ct")
        show thesis
        proof (cases r0)
          case (Inl e)
          with d' noactive noprevious Some s r0 show thesis
            by (intro refused [of p s e s']) (simp_all flip: R_def)
        next
          case (Inr x)
          with d' noactive noprevious Some s r0 show thesis
            by (intro promoted [of p s x s']) (auto simp flip: R_def)
        qed
      next
        case None
        have "session_id s \<noteq> sid" if "session_at R a = Some s" for a s
          using that noactive noprevious None wfR by (cases a) (auto simp: find_session_None)
        with d' noactive noprevious None show thesis
          by (intro unknown) (simp_all flip: R_def)
      qed
    qed
  qed
qed

definition log_transport ::
    "bytes \<Rightarrow> u64 \<Rightarrow> (noise_error, decrypted_transport option) result \<Rightarrow> delivery_log \<Rightarrow> delivery_log" where
  "log_transport sid c r log = (case r of Inr (Some _) \<Rightarrow> insert (sid, c) log | _ \<Rightarrow> log)"

lemma log_transport_of [simp]: "log_transport sid c (transport_of p b r) log = log_delivery sid c r log"
  by (simp add: log_transport_def transport_of_def log_delivery_def split: sum.splits prod.splits)

lemma transport_of_Some: "transport_of p b r = Ok (Some d) \<Longrightarrow> \<exists>x. r = Ok x"
  by (auto simp: transport_of_def split: sum.splits)

text \<open>In-place updates after \<open>decrypt\<close>, for whichever slot holds the session.\<close>

lemma decrypt_slot_inv:
  fixes R st' :: "('hs, 'ts) session_state"
  assumes inv: "sm_inv R log" and s: "session_at R a = Some s" and sid: "session_id s = sid"
    and d: "decrypt E s sid c ct = (r0, s')"
    and at: "\<And>b. session_at st' b = (if b = a then Some s' else session_at R b)"
    and wf: "sm_wf st'" and cached: "cached_candidates st'"
  shows "sm_inv st' (log_delivery sid c r0 log)" and "r0 = Ok x \<Longrightarrow> (sid, c) \<notin> log"
proof -
  from inv s have cov: "covers log s" by (auto simp: sm_inv_def)
  show "r0 = Ok x \<Longrightarrow> (sid, c) \<notin> log" by (rule covers_decrypt(2) [OF cov d])
  have "session_id s' = session_id s" using decrypt_keeps(1) [of E s sid c ct] d by simp
  then show "sm_inv st' (log_delivery sid c r0 log)"
    using inv s sid wf cached at covers_decrypt(1) [OF cov d] covers_log_other
    by (intro sm_inv_update [OF inv wf cached s]) auto
qed

lemma decrypt_transport_inv:
  assumes inv: "sm_inv st log" and d: "decrypt_transport E st sid c ct now = (r, st')"
  shows "sm_inv st' (log_transport sid c r log) \<and> ((\<exists>x. r = Ok (Some x)) \<longrightarrow> (sid, c) \<notin> log)"
proof -
  define R where "R = retain_all_live now st"
  have R: "sm_inv R log" unfolding R_def by (rule retain_all_inv [OF inv])
  then have wfR: "sm_wf R" and cR: "cached_candidates R" by (simp_all add: sm_inv_def)
  from inv have "sm_wf st" by (simp add: sm_inv_def)
  from this d show ?thesis
  proof (cases rule: decrypt_transport_cases)
    case unknown
    with R show ?thesis by (simp add: R_def log_transport_def)
  next
    case (active p s r0 s')
    note slot = decrypt_slot_inv [OF R active(1) [folded R_def] active(2,3), of st']
    have "sm_wf st'" "cached_candidates st'"
      using wfR cR by (simp_all add: active(5) sm_wf_def cached_candidates_def keys_simps flip: R_def)
    with slot active(4,5) show ?thesis
      by (auto simp: put_at simp flip: R_def dest: transport_of_Some)
  next
    case (previous p s r0 s')
    note slot = decrypt_slot_inv [OF R previous(1) [folded R_def] previous(2,3), of st']
    have "sm_wf st'" "cached_candidates st'"
      using wfR cR by (simp_all add: previous(5) sm_wf_def cached_candidates_def keys_simps flip: R_def)
    with slot previous(4,5) show ?thesis
      by (auto simp: put_at simp flip: R_def dest: transport_of_Some)
  next
    case (refused p s e s')
    note slot = decrypt_slot_inv [OF R refused(1) [folded R_def] refused(2,3), of st']
    have "sm_wf st'" "cached_candidates st'"
      using wfR cR refused(1)
      by (auto simp: refused(5) sm_wf_def cached_candidates_def keys_simps simp flip: R_def)
    with slot refused(4,5) show ?thesis
      by (auto simp: put_at log_transport_def log_delivery_def simp flip: R_def)
  next
    case (promoted p s x s' st2)
    define st1 where "st1 = R\<lparr>responder_candidates := hm_insert p s' (responder_candidates R)\<rparr>"
    note slot = decrypt_slot_inv [OF R promoted(1) [folded R_def] promoted(2,3), of st1]
    have wf1: "sm_wf st1" and c1: "cached_candidates st1"
      using wfR cR promoted(1)
      by (auto simp: st1_def sm_wf_def cached_candidates_def keys_simps simp flip: R_def)
    have inv1: "sm_inv st1 (log_delivery sid c (Inr x :: (noise_error, msg_type \<times> bytes) result) log)" and new: "(sid, c) \<notin> log"
      using slot wf1 c1 by (auto simp: st1_def put_at)
    let ?f = "\<lambda>a. if a = Active p then Candidate p
      else if a = Previous p \<and> session_at R (Active p) \<noteq> None then Active p else a"
    have at: "session_at st' a = (if a = Candidate p then None else session_at st1 (?f a))" for a
      by (auto simp: promoted(5,6) install_at put_at st1_def simp del: session_at.simps simp flip: R_def)
    have "sm_wf st'"
      using wfR by (simp add: promoted(5,6) sm_wf_def install_wf [unfolded sm_wf_def] keys_simps flip: R_def)
    moreover have "cached_candidates st'"
      using cR by (simp add: promoted(5,6) cached_candidates_def keeps flip: R_def)
    ultimately have "sm_inv st' (log_delivery sid c (Inr x :: (noise_error, msg_type \<times> bytes) result) log)"
      by (rule sm_inv_moved [OF inv1, where f = ?f]) (auto simp: at split: if_splits)
    with new promoted(4) show ?thesis by simp
  qed
qed

lemma store_candidate_inv:
  assumes inv: "sm_inv st log" and new: "replay s = replay_new"
    and e: "store_responder_candidate E st p s hid request response w = (ok, st', w')"
  shows "sm_inv st' (if ok then forget (session_id s) log else log)"
proof -
  from inv have wf: "sm_wf st" and c: "cached_candidates st" by (simp_all add: sm_inv_def)
  show ?thesis
  proof (cases "session_id_in_use st (session_id s)")
    case True
    with e inv show ?thesis by (simp add: store_responder_candidate_def)
  next
    case False
    obtain t w1 where "instant_now E w = (t, w1)" by (cases "instant_now E w")
    with e False have ok: "ok" and st': "st' = st\<lparr>pending_init := hm_remove p (pending_init st),
        responder_candidates := hm_insert p s (responder_candidates st),
        responder_cache := hm_insert p \<lparr>cr_handshake_id = hid, cr_request = request,
          cr_response = response, cr_created_at = t\<rparr> (responder_cache st)\<rparr>"
      by (auto simp: store_responder_candidate_def)
    have at: "session_at st' a = (if a = Candidate p then Some s else session_at st a)" for a
      by (cases a) (simp_all add: st')
    have "sm_inv st' (forget (session_id s) log)"
    proof (rule sm_inv_install [OF inv _ _ _ _ new, where home = "Candidate p" and f = "\<lambda>a. a"])
      show "sm_wf st'" using wf by (simp add: st' sm_wf_def keys_simps)
      show "cached_candidates st'" using c by (simp add: st' cached_candidates_def)
      show "session_id t \<noteq> session_id s" if "session_at st a = Some t" for a t
        using False that session_id_in_use_iff [OF wf] by blast
    qed (auto simp: at simp del: session_at.simps)
    with ok show ?thesis by simp
  qed
qed

lemma cached_response_inv:
  assumes inv: "sm_inv st log"
    and e: "cached_responder_response E st p hid request w = (r, st', w')"
  shows "sm_inv st' log"
proof (cases "elapsed_at_least E (map_option cr_created_at (hm_get (responder_cache st) p))
    HANDSHAKE_CACHE_LIFETIME w")
  case (Pair expired w1)
  from inv have wf: "sm_wf st" and c: "cached_candidates st" by (simp_all add: sm_inv_def)
  show ?thesis
  proof (cases expired)
    case True
    with e Pair have st': "st' = st\<lparr>responder_cache := hm_remove p (responder_cache st),
        responder_candidates := hm_remove p (responder_candidates st)\<rparr>"
      by (simp add: cached_responder_response_def)
    show ?thesis
    proof (rule sm_inv_shrink [OF inv])
      show "sm_wf st'" using wf by (simp add: st' sm_wf_def keys_simps)
      show "cached_candidates st'" using c by (simp add: st' cached_candidates_def)
      show "session_at st a = Some s" if "session_at st' a = Some s" for a s
        using that by (cases a) (auto simp: st' split: if_splits)
    qed
  next
    case False
    with e Pair inv show ?thesis by (simp add: cached_responder_response_def)
  qed
qed

lemma sm_inv_pending:
  "sm_inv st log \<Longrightarrow> hm_wf m \<Longrightarrow> sm_inv (st\<lparr>pending_init := m\<rparr>) log"
  by (simp add: sm_inv_def sm_wf_def ids_unique_def cached_candidates_def)

lemma sm_inv_preference:
  "sm_inv (st\<lparr>inbound_recovery_preference := r\<rparr>) log = sm_inv st log"
  by (simp add: sm_inv_def sm_wf_def ids_unique_def cached_candidates_def)

lemma sm_inv_wf_pending: "sm_inv st log \<Longrightarrow> hm_wf (hm_remove p (pending_init st))"
  by (simp add: sm_inv_def sm_wf_def keys_simps)

lemma accept_inv:
  assumes inv: "sm_inv st log"
    and e: "accept_inbound_initiation E st p hid passive w = (r, st', w')"
  shows "sm_inv st' log"
proof (cases "elapsed_at_least E (map_option pi_created_at (hm_get (pending_init st) p))
    HANDSHAKE_ATTEMPT_LIFETIME w")
  case (Pair aged w1)
  define st1 where "st1 = (if aged then st\<lparr>pending_init := hm_remove p (pending_init st)\<rparr> else st)"
  have inv1: "sm_inv st1 log" using inv by (simp add: st1_def sm_inv_pending sm_inv_wf_pending)
  have "st' = st1 \<or> st' = st1\<lparr>pending_init := hm_remove p (pending_init st1)\<rparr>
    \<or> st' = (st1\<lparr>pending_init := hm_remove p (pending_init st1)\<rparr>)
        \<lparr>inbound_recovery_preference := inbound_recovery_preference st1 - {p}\<rparr>"
    using e Pair
    by (auto simp: accept_inbound_initiation_def Let_def st1_def split: option.splits if_splits)
  then show ?thesis
    using inv1 sm_inv_pending [OF inv1 sm_inv_wf_pending [OF inv1, of p]]
    by (auto simp only: sm_inv_preference)
qed

lemma drop_candidate_inv:
  assumes inv: "sm_inv st log"
  shows "sm_inv (st\<lparr>responder_candidates := hm_remove p (responder_candidates st),
    responder_cache := hm_remove p (responder_cache st)\<rparr>) log"
proof (rule sm_inv_shrink [OF inv])
  let ?st = "st\<lparr>responder_candidates := hm_remove p (responder_candidates st),
    responder_cache := hm_remove p (responder_cache st)\<rparr>"
  from inv show "sm_wf ?st" and "cached_candidates ?st"
    by (simp_all add: sm_inv_def sm_wf_def cached_candidates_def keys_simps)
  show "session_at st a = Some s" if "session_at ?st a = Some s" for a s
    using that by (cases a) (auto split: if_splits)
qed

lemma drop_expired_inv:
  assumes inv: "sm_inv st log"
  shows "sm_inv (drop_expired_active st p now) log"
  by (rule sm_inv_shrink [OF inv])
    (use inv in \<open>auto simp: sm_inv_def keys_simps cached_candidates_def drop_expired_fields
      drop_expired_at split: if_splits\<close>)

lemma sm_inv_put_pending:
  "sm_inv st log \<Longrightarrow> sm_inv (st\<lparr>pending_init := hm_insert p x (pending_init st)\<rparr>) log"
  by (rule sm_inv_pending) (simp_all add: sm_inv_def sm_wf_def keys_simps)

lemma start_or_retry_inv:
  assumes inv: "sm_inv st log"
    and e: "start_or_retry_handshake E st p k rk psk now w = (r, st', w')"
  shows "sm_inv st' log"
proof -
  define st1 where "st1 = (if opt_test (\<lambda>p. duration_since now (pi_created_at p) \<ge> HANDSHAKE_ATTEMPT_LIFETIME)
      (hm_get (pending_init st) p) then st\<lparr>pending_init := hm_remove p (pending_init st)\<rparr> else st)"
  define st2 where "st2 = (if opt_test (\<lambda>s. is_expired s now) (hm_get (responder_candidates st1) p)
      then st1\<lparr>responder_candidates := hm_remove p (responder_candidates st1),
        responder_cache := hm_remove p (responder_cache st1)\<rparr> else st1)"
  define st3 where "st3 = drop_expired_active st2 p now"
  have inv1: "sm_inv st1 log" using inv by (simp add: st1_def sm_inv_pending sm_inv_wf_pending)
  then have inv2: "sm_inv st2 log" by (simp add: st2_def drop_candidate_inv)
  then have inv3: "sm_inv st3 log" by (simp add: st3_def drop_expired_inv)
  note e' = e [unfolded start_or_retry_handshake_def, folded st1_def, unfolded Let_def,
      folded st2_def, folded st3_def]
  then have "st' \<in> {st1, st2, st3} \<or> (\<exists>x. st' = st1\<lparr>pending_init := hm_insert p x (pending_init st1)\<rparr>)
      \<or> (\<exists>x. st' = st3\<lparr>pending_init := hm_insert p x (pending_init st3)\<rparr>)"
    by (auto split: option.splits if_splits prod.splits sum.splits)
  with inv1 inv2 inv3 show ?thesis by (auto intro: sm_inv_put_pending)
qed

lemma finalize_initiator_cases:
  assumes e: "finalize_initiator E st hid response w = (r, st', w')"
  obtains (unknown) "r = Ok None" and "st' = st"
      and "hm_find_key (\<lambda>p. pi_handshake_id p = hid) (pending_init st) = None"
  | (failed) p err where "hm_find_key (\<lambda>p. pi_handshake_id p = hid) (pending_init st) = Some p"
      and "r = Err err" and "st' = st\<lparr>pending_init := hm_remove p (pending_init st)\<rparr>"
  | (completed) p s frame s' st1 st2 where
      "hm_find_key (\<lambda>p. pi_handshake_id p = hid) (pending_init st) = Some p"
      and "initiator_finalize E (pi_state (the (hm_get (pending_init st) p))) response w = (Ok s, w')"
      and "st1 = st\<lparr>pending_init := hm_remove p (pending_init st)\<rparr>"
      and "\<not> session_id_in_use st1 (session_id s)"
      and "encrypt E s Keepalive KEEPALIVE_PROBE_PAYLOAD = (Ok frame, s')"
      and "st2 = install_active_session st1 p s'" and "r = Ok (Some (p, frame))"
      and "st' = st2\<lparr>responder_candidates := hm_remove p (responder_candidates st2),
             responder_cache := hm_remove p (responder_cache st2)\<rparr>"
proof (cases "hm_find_key (\<lambda>p. pi_handshake_id p = hid) (pending_init st)")
  case None
  with e show thesis by (intro unknown) (simp_all add: finalize_initiator_def)
next
  case (Some p)
  define st1 where "st1 = st\<lparr>pending_init := hm_remove p (pending_init st)\<rparr>"
  note e' = e [unfolded finalize_initiator_def Some option.case Let_def, folded st1_def]
  obtain q w1 where q: "initiator_finalize E (pi_state (the (hm_get (pending_init st) p))) response w = (q, w1)"
    by (cases "initiator_finalize E (pi_state (the (hm_get (pending_init st) p))) response w")
  show thesis
  proof (cases q)
    case (Inl err)
    with e' q have "r = Err err" "st' = st1" by simp_all
    with failed [OF Some] show thesis by (simp add: st1_def)
  next
    case (Inr s)
    show thesis
    proof (cases "session_id_in_use st1 (session_id s)")
      case True
      with e' q Inr have "r = Err WrongSession" "st' = st1" by simp_all
      with failed [OF Some] show thesis by (simp add: st1_def)
    next
      case False
      obtain f s' where f: "encrypt E s Keepalive KEEPALIVE_PROBE_PAYLOAD = (f, s')"
        by (cases "encrypt E s Keepalive KEEPALIVE_PROBE_PAYLOAD")
      show thesis
      proof (cases f)
        case (Inl err)
        with e' q Inr False f have "r = Err err" "st' = st1" by simp_all
        with failed [OF Some] show thesis by (simp add: st1_def)
      next
        case (Inr frame)
        with e' q \<open>q = Ok s\<close> False f show thesis
          by (intro completed [OF Some _ st1_def False _ refl]) auto
      qed
    qed
  qed
qed

lemma finalize_inv:
  assumes inv: "sm_inv st log"
    and e: "finalize_initiator E st hid response w = (r, st', w')"
  shows "sm_inv st' (case r of
      Inr (Some (p, _)) \<Rightarrow> forget (the (active_session_id st' p)) log | _ \<Rightarrow> log)"
  using e
proof (cases rule: finalize_initiator_cases)
  case unknown
  with inv show ?thesis by simp
next
  case (failed p err)
  with sm_inv_pending [OF inv sm_inv_wf_pending [OF inv, of p]] show ?thesis by simp
next
  case (completed p s frame s' st1 st2)
  have inv1: "sm_inv st1 log"
    unfolding completed(3) by (rule sm_inv_pending [OF inv sm_inv_wf_pending [OF inv]])
  then have wf1: "sm_wf st1" and c1: "cached_candidates st1" by (simp_all add: sm_inv_def)
  have s': "session_id s' = session_id s" "replay s' = replay_new"
    using encrypt_keeps [of E s Keepalive KEEPALIVE_PROBE_PAYLOAD] completed(5)
      initiator_finalize_Ok [OF completed(2)] by auto
  let ?f = "\<lambda>a. if a = Previous p \<and> session_at st1 (Active p) \<noteq> None then Active p else a"
  have at: "session_at st' a = (if a = Active p then Some s' else if a = Candidate p then None
      else session_at st1 (?f a))" for a
  proof -
    have "session_at st' a = (if a = Candidate p then None else session_at st2 a)"
      unfolding completed(8) by (cases a) simp_all
    then show ?thesis
      unfolding completed(6) install_at by (auto simp del: session_at.simps)
  qed
  have "sm_inv st' (forget (session_id s') log)"
  proof (rule sm_inv_install [OF inv1 _ _ _ _ s'(2), where home = "Active p" and f = ?f])
    have "sm_wf st2" unfolding completed(6) by (rule install_wf [OF wf1])
    then show "sm_wf st'" unfolding completed(8) by (simp add: sm_wf_def keys_simps)
    show "cached_candidates st'"
      using c1 unfolding completed(6,8) by (simp add: cached_candidates_def keeps)
    show "session_id t \<noteq> session_id s'" if "session_at st1 a = Some t" for a t
      using completed(4) that s'(1) session_id_in_use_iff [OF wf1] by metis
  qed (auto simp: at simp del: session_at.simps split: if_splits)
  moreover have "active_session_id st' p = Some (session_id s')"
    using at [of "Active p"] by (simp add: active_session_id_def)
  ultimately show ?thesis using completed(7) by simp
qed

lemma invalidate_inv:
  assumes inv: "sm_inv st log" and e: "invalidate_peer st p = (r, st')"
  shows "sm_inv st' log"
proof (rule sm_inv_shrink [OF inv])
  from e have st': "st' = snd (invalidate_peer st p)" by simp
  from inv show "sm_wf st'" and "cached_candidates st'"
    by (simp_all add: st' invalidate_peer_def sm_inv_def sm_wf_def cached_candidates_def keys_simps)
  show "session_at st a = Some s" if "session_at st' a = Some s" for a s
    using that by (cases a) (auto simp: st' invalidate_peer_def split: if_splits)
qed

subsection \<open>Every interleaving of calls\<close>

text \<open>One step is one call of a method, with arbitrary arguments; a stored candidate comes from
\<open>responder_respond\<close>. The log records what was delivered under each installed identifier.\<close>

inductive sm_step ::
    "('hs, 'ts, 'w) runtime \<Rightarrow> ('hs, 'ts) session_state \<times> delivery_log
      \<Rightarrow> ('hs, 'ts) session_state \<times> delivery_log \<Rightarrow> bool" for E where
  step_encrypt: "encrypt_for_peer E st p m payload now = (r, st') \<Longrightarrow> sm_step E (st, log) (st', log)"
| step_decrypt: "decrypt_transport E st sid c ct now = (r1, st') \<Longrightarrow>
    sm_step E (st, log) (st', log_transport sid c r1 log)"
| step_store: "responder_respond E k rk psk hid msg w = (Ok rh, w1) \<Longrightarrow>
    store_responder_candidate E st p (rh_session rh) hid request response w2 = (ok, st', w3) \<Longrightarrow>
    sm_step E (st, log) (st', if ok then forget (session_id (rh_session rh)) log else log)"
| step_cached: "cached_responder_response E st p hid request w = (resp, st', w') \<Longrightarrow>
    sm_step E (st, log) (st', log)"
| step_accept: "accept_inbound_initiation E st p hid passive w = (ok, st', w') \<Longrightarrow>
    sm_step E (st, log) (st', log)"
| step_start: "start_or_retry_handshake E st p k rk psk now w = (r, st', w') \<Longrightarrow>
    sm_step E (st, log) (st', log)"
| step_finalize: "finalize_initiator E st hid response w = (r2, st', w') \<Longrightarrow>
    sm_step E (st, log) (st', case r2 of
      Inr (Some (p, _)) \<Rightarrow> forget (the (active_session_id st' p)) log | _ \<Rightarrow> log)"
| step_invalidate: "invalidate_peer st p = (removed, st') \<Longrightarrow> sm_step E (st, log) (st', log)"

lemma sm_step_inv:
  assumes "sm_step E (st, log) (st', log')" and inv: "sm_inv st log"
  shows "sm_inv st' log'"
  using assms(1)
proof (cases rule: sm_step.cases)
  case step_encrypt
  then show ?thesis by (auto dest: encrypt_for_peer_inv [OF inv])
next
  case step_decrypt
  then show ?thesis by (auto dest: decrypt_transport_inv [OF inv])
next
  case (step_store k rk psk hid msg w rh w1)
  from responder_respond_Ok [OF step_store(2)] have "replay (rh_session rh) = replay_new" by blast
  from store_candidate_inv [OF inv this step_store(3)] step_store(1) show ?thesis by simp
next
  case step_cached
  then show ?thesis by (auto dest: cached_response_inv [OF inv])
next
  case step_accept
  then show ?thesis by (auto dest: accept_inv [OF inv])
next
  case step_start
  then show ?thesis by (auto dest: start_or_retry_inv [OF inv])
next
  case step_finalize
  then show ?thesis by (auto dest: finalize_inv [OF inv])
next
  case step_invalidate
  then show ?thesis by (auto dest: invalidate_inv [OF inv])
qed

lemma sm_inv_new: "sm_inv (session_manager_new :: ('hs, 'ts) session_state) {}"
proof -
  let ?new = "session_manager_new :: ('hs, 'ts) session_state"
  have "session_at ?new a = None" for a
    by (cases a) (simp_all add: session_manager_new_def)
  moreover have "sm_wf ?new" and "cached_candidates ?new"
    by (simp_all add: session_manager_new_def sm_wf_def cached_candidates_def)
  ultimately show ?thesis by (simp add: sm_inv_def ids_unique_def)
qed

interpretation manager: state_machine
    "\<lambda>s. s = (session_manager_new, {})" "sm_step E" "\<lambda>(st, log). sm_inv st log" for E
proof
  show "case s of (st, log) \<Rightarrow> sm_inv st log" if "s = (session_manager_new, {})" for s
    using that sm_inv_new by simp
  show "case s' of (st, log) \<Rightarrow> sm_inv st log"
    if "case s of (st, log) \<Rightarrow> sm_inv st log" and "sm_step E s s'" for s s'
    using that sm_step_inv by (auto split: prod.splits)
qed

abbreviation sm_reachable ::
    "('hs, 'ts, 'w) runtime \<Rightarrow> ('hs, 'ts) session_state \<Rightarrow> delivery_log \<Rightarrow> bool" where
  "sm_reachable E st log \<equiv> reachable (\<lambda>s. s = (session_manager_new, {})) (sm_step E) (st, log)"

lemma sm_reachable_inv: "sm_reachable E st log \<Longrightarrow> sm_inv st log"
  using manager.reachable_inv [of E "(st, log)"] by simp

end
