(* ===== verification/Session_Props.thy ===== *)
theory Session_Props
  imports Session_Inv
begin

text \<open>
  What the session manager guarantees: no packet is delivered twice, every delivery and every
  replacement of an active session is authenticated, rekeying loses no packet in flight,
  simultaneous initiations are decided consistently, retransmissions are rate limited and
  repeat the same bytes, and the order in which a hash map is iterated never matters.
\<close>

subsection \<open>Deliveries\<close>

fun is_candidate :: "slot \<Rightarrow> bool" where
  "is_candidate (Candidate p) = True"
| "is_candidate a = False"

lemma decrypt_transport_slot:
  assumes wf: "sm_wf st" and d: "decrypt_transport E st sid c ct now = (r, st')"
  shows "(r = Ok None \<and> (\<forall>a s. session_at st a = Some s \<longrightarrow> \<not> is_expired s now \<longrightarrow> session_id s \<noteq> sid))
    \<or> (\<exists>a s. session_at st a = Some s \<and> \<not> is_expired s now \<and> session_id s = sid
         \<and> r = transport_of (slot_peer a) (is_candidate a) (fst (decrypt E s sid c ct)))"
  using wf d
proof (cases rule: decrypt_transport_cases)
  case unknown
  with wf show ?thesis by auto
next
  case (active p s r0 s')
  with wf show ?thesis
    by (intro disjI2 exI [of _ "Active p"] exI [of _ s]) (simp del: session_at.simps)
next
  case (previous p s r0 s')
  with wf show ?thesis
    by (intro disjI2 exI [of _ "Previous p"] exI [of _ s]) (simp del: session_at.simps)
next
  case (refused p s e s')
  with wf show ?thesis
    by (intro disjI2 exI [of _ "Candidate p"] exI [of _ s])
      (simp add: transport_of_def del: session_at.simps)
next
  case (promoted p s x s' st2)
  with wf show ?thesis
    by (intro disjI2 exI [of _ "Candidate p"] exI [of _ s]) (simp del: session_at.simps)
qed

lemma decrypt_transport_at:
  assumes "sm_wf st" and uniq: "ids_unique st" and s: "session_at st a = Some s"
    and "\<not> is_expired s now" and "session_id s = sid"
  shows "fst (decrypt_transport E st sid c ct now) =
    transport_of (slot_peer a) (is_candidate a) (fst (decrypt E s sid c ct))"
proof (cases "decrypt_transport E st sid c ct now")
  case (Pair r st')
  from decrypt_transport_slot [OF assms(1) Pair] assms(3-5)
  obtain b t where "session_at st b = Some t" "session_id t = sid"
    and r: "r = transport_of (slot_peer b) (is_candidate b) (fst (decrypt E t sid c ct))" by blast
  with ids_uniqueD [OF uniq s, of b t] assms(5) have "b = a" by simp
  with \<open>session_at st b = Some t\<close> s r Pair show ?thesis by simp
qed

lemma decrypt_transport_unknown:
  assumes "sm_wf st" and "\<And>a s. session_at st a = Some s \<Longrightarrow> \<not> is_expired s now \<Longrightarrow> session_id s \<noteq> sid"
  shows "fst (decrypt_transport E st sid c ct now) = Ok None"
proof (cases "decrypt_transport E st sid c ct now")
  case (Pair r st')
  from decrypt_transport_slot [OF assms(1) Pair] assms(2) Pair show ?thesis by auto
qed

lemma decrypt_delivery:
  assumes "sm_wf st" and d: "decrypt_transport E st sid c ct now = (Ok (Some x), st')"
  shows "\<exists>a s pt. session_at st a = Some s \<and> \<not> is_expired s now \<and> session_id s = sid
    \<and> slot_peer a = dt_peer_name x \<and> dt_promoted x = is_candidate a
    \<and> would_accept (replay s) c \<and> ts_read E (transport s) c ct (length ct - AEAD_TAG_SIZE) = Ok pt
    \<and> pt = encode_transport_plaintext (dt_msg_type x) (dt_payload x)"
proof -
  from decrypt_transport_slot [OF assms] obtain a s where
    a: "session_at st a = Some s" "\<not> is_expired s now" "session_id s = sid"
    and x: "Ok (Some x) = transport_of (slot_peer a) (is_candidate a) (fst (decrypt E s sid c ct))"
    by auto
  obtain r s' where ds: "decrypt E s sid c ct = (r, s')" by (cases "decrypt E s sid c ct")
  with x obtain m p where r: "r = Ok (m, p)" "x = \<lparr>dt_peer_name = slot_peer a, dt_msg_type = m,
      dt_payload = p, dt_promoted = is_candidate a\<rparr>"
    by (auto simp: transport_of_def split: sum.splits prod.splits)
  from ds show ?thesis
  proof (cases rule: decrypt_cases)
    case rejected
    with r show ?thesis by simp
  next
    case (authentic pt)
    with r have "decode_transport_plaintext pt = Some (m, p)" by (metis ok_or_eq_Ok)
    then have "pt = encode_transport_plaintext m p"
      using plaintext.dec_iff [of pt "(m, p)"] by simp
    with a authentic(2,4) r show ?thesis by (intro exI [of _ a] exI [of _ s]) simp
  qed
qed

subsection \<open>The active session\<close>

definition authenticated_install ::
    "('hs, 'ts, 'w) runtime \<Rightarrow> ('hs, 'ts) session_state \<Rightarrow> string \<Rightarrow> bytes \<Rightarrow> bool" where
  "authenticated_install E st p i \<longleftrightarrow>
    (\<exists>s c ct pt. hm_get (responder_candidates st) p = Some s \<and> session_id s = i
       \<and> ts_read E (transport s) c ct (length ct - AEAD_TAG_SIZE) = Ok pt)
    \<or> (\<exists>pending response w s w'. hm_get (pending_init st) p = Some pending
         \<and> initiator_finalize E (pi_state pending) response w = (Ok s, w') \<and> session_id s = i)"

lemma active_id_at: "active_session_id st p = map_option session_id (session_at st (Active p))"
  by (simp add: active_session_id_def)

lemma active_id_moved:
  assumes "\<And>s. session_at st' (Active p) = Some s \<Longrightarrow> \<exists>t. session_at st (Active p) = Some t \<and> session_id t = session_id s"
    and "active_session_id st' p = Some i"
  shows "active_session_id st p = Some i"
  using assms by (force simp: active_session_id_def)

lemma active_id_retained:
  assumes "sm_wf st" and "session_at st' (Active p) = session_at (retain_all_live now st) (Active p)"
    and "active_session_id st' p = Some i"
  shows "active_session_id st p = Some i"
proof (rule active_id_moved [OF _ assms(3)])
  fix s assume "session_at st' (Active p) = Some s"
  then show "\<exists>t. session_at st (Active p) = Some t \<and> session_id t = session_id s"
    by (simp add: assms(2) retain_all_at [OF assms(1)] del: session_at.simps)
qed

lemma decrypt_active_id:
  assumes wf: "sm_wf st" and d: "decrypt_transport E st sid c ct now = (r, st')"
    and i: "active_session_id st' q = Some i" and new: "active_session_id st q \<noteq> Some i"
  shows "authenticated_install E st q i"
  using wf d
proof (cases rule: decrypt_transport_cases)
  case unknown
  with wf i have "active_session_id st q = Some i"
    by (intro active_id_moved [of st' q st i]) (auto simp del: session_at.simps)
  with new show ?thesis by simp
next
  case (active p s r0 s')
  have "session_id s' = session_id s" using decrypt_keeps(1) [of E s sid c ct] active(3) by simp
  with active(1,5) wf i have "active_session_id st q = Some i"
    by (intro active_id_moved [of st' q st i])
      (auto simp: put_at simp del: session_at.simps split: if_splits)
  with new show ?thesis by simp
next
  case (previous p s r0 s')
  with wf i have "active_session_id st q = Some i"
    by (intro active_id_moved [of st' q st i])
      (auto simp: put_at simp del: session_at.simps)
  with new show ?thesis by simp
next
  case (refused p s e s')
  with wf i have "active_session_id st q = Some i"
    by (intro active_id_moved [of st' q st i])
      (auto simp: put_at simp del: session_at.simps)
  with new show ?thesis by simp
next
  case (promoted p s x s' st2)
  have at: "session_at st' (Active q) = (if q = p then Some s' else session_at (retain_all_live now st) (Active q))"
    by (simp add: promoted(5,6) install_at put_at del: session_at.simps)
  have "q = p"
  proof (rule ccontr)
    assume "q \<noteq> p"
    with at i have "active_session_id st q = Some i"
      by (intro active_id_retained [OF wf, of st' q now]) simp_all
    with new show False by simp
  qed
  with i at have "session_id s' = i" by (simp add: active_id_at del: session_at.simps)
  moreover have "session_id s' = session_id s" using decrypt_keeps(1) [of E s sid c ct] promoted(3) by simp
  moreover from promoted(1) wf have "session_at st (Candidate p) = Some s"
    by (simp del: session_at.simps)
  then have "hm_get (responder_candidates st) p = Some s" by simp
  moreover from promoted(3) obtain pt where "ts_read E (transport s) c ct (length ct - AEAD_TAG_SIZE) = Ok pt"
    by (cases rule: decrypt_cases) auto
  ultimately show ?thesis unfolding authenticated_install_def \<open>q = p\<close> by metis
qed

lemma drop_expired_active_id:
  "active_session_id (drop_expired_active st p now) q = Some i \<Longrightarrow> active_session_id st q = Some i"
  by (auto simp: active_session_id_def drop_expired_active_def split: if_splits)

lemma encrypt_active_id:
  assumes e: "encrypt_for_peer E st p m payload now = (r, st')"
    and i: "active_session_id st' q = Some i"
  shows "active_session_id st q = Some i"
proof -
  define st2 where "st2 = drop_expired_active (st\<lparr>previous_sessions := retain_live now (previous_sessions st)\<rparr>) p now"
  have "active_session_id st' q = active_session_id st2 q"
    using e encrypt_keeps(1) [of E _ m payload]
    by (auto simp: encrypt_for_peer_def Let_def active_session_id_def simp flip: st2_def
        split: option.splits prod.splits) (metis snd_conv)
  with i drop_expired_active_id [of _ p now q i] have
    "active_session_id (st\<lparr>previous_sessions := retain_live now (previous_sessions st)\<rparr>) q = Some i"
    unfolding st2_def by metis
  then show ?thesis by (simp add: active_session_id_def)
qed

lemma start_sessions:
  assumes "start_or_retry_handshake E st p k rk psk now w = (r, st', w')"
  shows "sessions st' = sessions st \<or> sessions st' = hm_remove p (sessions st)"
  using assms
  by (auto simp: start_or_retry_handshake_def Let_def drop_expired_active_def
      split: option.splits if_splits prod.splits sum.splits)

lemma start_active_id:
  assumes "start_or_retry_handshake E st p k rk psk now w = (r, st', w')"
    and "active_session_id st' q = Some i"
  shows "active_session_id st q = Some i"
  using start_sessions [OF assms(1)] assms(2) by (auto simp: active_session_id_def split: if_splits)

lemma finalize_active_id:
  assumes wf: "sm_wf st" and e: "finalize_initiator E st hid response w = (r, st', w')"
    and i: "active_session_id st' q = Some i" and new: "active_session_id st q \<noteq> Some i"
  shows "authenticated_install E st q i"
  using e
proof (cases rule: finalize_initiator_cases)
  case unknown
  with i new show ?thesis by simp
next
  case (failed p err)
  with i new show ?thesis by (simp add: active_session_id_def)
next
  case (completed p s frame s' st1 st2)
  have at: "session_at st' (Active q) = (if q = p then Some s' else session_at st (Active q))"
    using completed(3,6,8) by (simp add: install_at [where a = "Active q", simplified])
  with i new have "q = p" and "session_id s' = i"
    by (auto simp: active_id_at simp del: session_at.simps split: if_splits)
  moreover have "session_id s' = session_id s"
    using encrypt_keeps(1) [of E s Keepalive KEEPALIVE_PROBE_PAYLOAD] completed(5) by simp
  moreover from wf have "hm_wf (pending_init st)" by (simp add: sm_wf_def)
  then obtain pending where "hm_get (pending_init st) p = Some pending"
    using hm_find_key_Some [OF _ completed(1)] by blast
  ultimately show ?thesis using completed(2) unfolding authenticated_install_def
    by (metis option.sel)
qed

lemma other_active_id:
  "store_responder_candidate E st p s hid request response w = (ok, st', w') \<Longrightarrow> sessions st' = sessions st"
  "cached_responder_response E st p hid request w = (resp, st', w') \<Longrightarrow> sessions st' = sessions st"
  "accept_inbound_initiation E st p hid passive w = (ok, st', w') \<Longrightarrow> sessions st' = sessions st"
  by (auto simp: store_responder_candidate_def cached_responder_response_def
      accept_inbound_initiation_def Let_def split: if_splits prod.splits option.splits)

lemma invalidate_active_id:
  "invalidate_peer st p = (removed, st') \<Longrightarrow>
    active_session_id st' q = (if q = p then None else active_session_id st q)"
  by (auto simp: invalidate_peer_def active_session_id_def)

lemma step_active_id:
  assumes step: "sm_step E (st, log) (st', log')" and wf: "sm_wf st"
    and i: "active_session_id st' q = Some i" and new: "active_session_id st q \<noteq> Some i"
  shows "authenticated_install E st q i"
  using step
proof (cases rule: sm_step.cases)
  case step_encrypt
  with i new encrypt_active_id show ?thesis by blast
next
  case step_decrypt
  with decrypt_active_id [OF wf _ i new] show ?thesis by blast
next
  case step_store
  with i new other_active_id(1) show ?thesis by (metis active_session_id_def)
next
  case step_cached
  with i new other_active_id(2) show ?thesis by (metis active_session_id_def)
next
  case step_accept
  with i new other_active_id(3) show ?thesis by (metis active_session_id_def)
next
  case step_start
  from start_active_id [OF step_start(2) i] new show ?thesis by simp
next
  case step_finalize
  from finalize_active_id [OF wf step_finalize(2) i new] show ?thesis .
next
  case step_invalidate
  from invalidate_active_id [OF step_invalidate(2), of q] i new show ?thesis by (simp split: if_splits)
qed

subsection \<open>Rekeying\<close>

lemma install_keeps_decrypting:
  assumes inv: "sm_inv st log" and old: "hm_get (sessions st) p = Some old"
    and live: "\<not> is_expired old now" and new: "\<not> session_id_in_use st (session_id n)"
  shows "fst (decrypt_transport E (install_active_session st p n) (session_id old) c ct now)
    = fst (decrypt_transport E st (session_id old) c ct now)"
proof -
  from inv have wf: "sm_wf st" and uniq: "ids_unique st" by (simp_all add: sm_inv_def)
  let ?st = "install_active_session st p n"
  have n: "session_id t \<noteq> session_id n" if "session_at st a = Some t" for a t
    using new that session_id_in_use_iff [OF wf] by metis
  have wf': "sm_wf ?st" by (rule install_wf [OF wf])
  have old': "session_at ?st (Previous p) = Some old"
    using old by (simp add: install_at [where a = "Previous p", simplified])
  have only: "a = Previous p" if "session_at ?st a = Some t" "session_id t = session_id old" for a t
  proof (cases "a = Active p")
    case True
    with that n [of "Active p" old] old show ?thesis by (simp add: install_at del: session_at.simps) simp
  next
    case False
    show ?thesis
    proof (rule ccontr)
      assume "a \<noteq> Previous p"
      with False that(1) have "session_at st a = Some t" by (simp add: install_at del: session_at.simps)
      with ids_uniqueD [OF uniq, of a t "Active p" old] that(2) old False show False by simp
    qed
  qed
  obtain r st' where d: "decrypt_transport E ?st (session_id old) c ct now = (r, st')"
    by (cases "decrypt_transport E ?st (session_id old) c ct now")
  from decrypt_transport_slot [OF wf' d] old' live obtain a t where
    a: "session_at ?st a = Some t" "session_id t = session_id old"
    and r: "r = transport_of (slot_peer a) (is_candidate a) (fst (decrypt E t (session_id old) c ct))"
    by blast
  from only [OF a] a(1) old' have "a = Previous p" "t = old" by auto
  moreover have "fst (decrypt_transport E st (session_id old) c ct now) =
      transport_of p False (fst (decrypt E old (session_id old) c ct))"
    using decrypt_transport_at [OF wf uniq, of "Active p" old now "session_id old" E c ct] old live by simp
  ultimately show ?thesis using d r by simp
qed

subsection \<open>Retransmission\<close>

text \<open>The packets that repeated calls of \<open>start_or_retry_handshake\<close> emit, with their times.\<close>

fun retries ::
    "('hs, 'ts, 'w) runtime \<Rightarrow> ('hs, 'ts) session_state \<Rightarrow> string \<Rightarrow> bytes \<Rightarrow> bytes \<Rightarrow> bytes \<Rightarrow> 'w
      \<Rightarrow> instant list \<Rightarrow> (instant \<times> bytes) list" where
  "retries E st p k rk psk w [] = []"
| "retries E st p k rk psk w (t # ts) =
    (case start_or_retry_handshake E st p k rk psk t w of (r, st', w') \<Rightarrow>
       (case r of Inr (Some packet) \<Rightarrow> [(t, packet)] | _ \<Rightarrow> []) @ retries E st' p k rk psk w' ts)"

lemma start_pending:
  assumes "hm_get (pending_init st) p = Some x"
    and "duration_since now (pi_created_at x) < HANDSHAKE_ATTEMPT_LIFETIME"
  shows "start_or_retry_handshake E st p k rk psk now w =
    (if duration_since now (pi_last_sent x) < HANDSHAKE_RETRY_INTERVAL then (Ok None, st, w)
     else (Ok (Some (pi_packet x)),
       st\<lparr>pending_init := hm_insert p (x\<lparr>pi_last_sent := now\<rparr>) (pending_init st)\<rparr>, w))"
  using assms by (simp add: start_or_retry_handshake_def Let_def)

lemma retries_spaced:
  assumes "hm_get (pending_init st) p = Some x"
    and "\<forall>t \<in> set ts. duration_since t (pi_created_at x) < HANDSHAKE_ATTEMPT_LIFETIME"
  shows "(\<forall>(t, packet) \<in> set (retries E st p k rk psk w ts). packet = pi_packet x)
    \<and> sorted_wrt (\<lambda>a b. a + HANDSHAKE_RETRY_INTERVAL \<le> b)
        (pi_last_sent x # map fst (retries E st p k rk psk w ts))"
  using assms
proof (induction ts arbitrary: st x)
  case (Cons t ts)
  have pos: "0 < HANDSHAKE_RETRY_INTERVAL" by (simp add: HANDSHAKE_RETRY_INTERVAL_def)
  from Cons.prems have young: "duration_since t (pi_created_at x) < HANDSHAKE_ATTEMPT_LIFETIME" by simp
  note start = start_pending [OF Cons.prems(1) young, of E k rk psk w]
  show ?case
  proof (cases "duration_since t (pi_last_sent x) < HANDSHAKE_RETRY_INTERVAL")
    case True
    with start Cons.IH [OF Cons.prems(1)] Cons.prems(2) show ?thesis by simp
  next
    case False
    let ?x = "x\<lparr>pi_last_sent := t\<rparr>"
    let ?st = "st\<lparr>pending_init := hm_insert p ?x (pending_init st)\<rparr>"
    have "hm_get (pending_init ?st) p = Some ?x" by simp
    note IH = Cons.IH [OF this]
    from False pos have gap: "pi_last_sent x + HANDSHAKE_RETRY_INTERVAL \<le> t"
      by (simp add: duration_since_def)
    have eq: "retries E st p k rk psk w (t # ts) = (t, pi_packet x) # retries E ?st p k rk psk w ts"
      using False start by simp
    show ?thesis
      unfolding eq using IH Cons.prems(2) gap pos by fastforce
  qed
qed simp

lemma start_no_pending:
  assumes "hm_get (pending_init st) p = None"
  shows "fst (start_or_retry_handshake E st p k rk psk now w) = Ok None \<longleftrightarrow>
    opt_test (\<lambda>s. \<not> is_expired s now) (hm_get (responder_candidates st) p)
    \<or> opt_test (\<lambda>s. \<not> is_expired s now \<and> \<not> should_rekey s now) (hm_get (sessions st) p)"
proof -
  have "fst (start_or_retry_handshake E st p k rk psk now w) = Ok None \<longleftrightarrow>
    hm_get (responder_candidates st) p \<noteq> None \<and> \<not> opt_test (\<lambda>s. is_expired s now) (hm_get (responder_candidates st) p)
    \<or> opt_test (\<lambda>s. \<not> should_rekey s now) (hm_get (sessions (drop_expired_active st p now)) p)"
    using assms
    by (auto simp: start_or_retry_handshake_def Let_def hm_contains_def drop_expired_active_def
        split: prod.splits sum.splits if_splits)
  then show ?thesis
    by (auto simp: opt_test_iff drop_expired_active_def)
qed

subsection \<open>A concrete exchange\<close>

text \<open>The state after peer \<open>a\<close>'s first message was answered: a candidate under the identifier
that the responder drew, which the witnesses drive on.\<close>

definition demo_id :: bytes where "demo_id = replicate SESSION_ID_SIZE 4"
definition demo_sid :: bytes where "demo_sid = replicate SESSION_ID_SIZE (of_nat 1)"
definition demo_ka :: bytes where "demo_ka = replicate 32 1"
definition demo_psk :: bytes where "demo_psk = replicate 32 5"

lemma demo_lengths [simp]:
  "length demo_id = SESSION_ID_SIZE" "length demo_sid = SESSION_ID_SIZE"
  "length demo_ka = 32" "length demo_psk = 32"
  by (simp_all only: demo_id_def demo_sid_def demo_ka_def demo_psk_def length_replicate)

definition demo_candidate_state :: "(demo_hs, bytes) session_state" where
  "demo_candidate_state = session_manager_new
     \<lparr>responder_candidates := [(''a'', demo_fresh demo_sid demo_id 2)],
      responder_cache := [(''a'', \<lparr>cr_handshake_id = demo_id, cr_request = [], cr_response = [],
        cr_created_at = 3\<rparr>)]\<rparr>"

lemma demo_candidate_reachable: "sm_reachable demo_runtime demo_candidate_state {}"
proof -
  let ?rh = "\<lparr>rh_message = demo_sid @ demo_psk @ handshake_prologue demo_id,
    rh_session = demo_fresh demo_sid demo_id 2\<rparr>"
  have "responder_respond demo_runtime [] demo_ka demo_psk demo_id
      (demo_ka @ demo_psk @ handshake_prologue demo_id) 1 = (Ok ?rh, 3)"
    by (simp add: demo_respond demo_sid_def eval_nat_numeral Let_def)
  moreover have "store_responder_candidate demo_runtime session_manager_new ''a'' (rh_session ?rh) demo_id [] [] 3
      = (True, demo_candidate_state, 4)"
    by (simp add: store_responder_candidate_def session_id_in_use_def demo_candidate_state_def
        session_manager_new_def demo_runtime_def)
  ultimately have "sm_step demo_runtime (session_manager_new, {})
      (demo_candidate_state, if True then forget (session_id (rh_session ?rh)) {} else {})"
    by (rule step_store)
  moreover have "forget i {} = {}" for i by (auto simp: forget_def)
  ultimately have "sm_step demo_runtime (session_manager_new, {}) (demo_candidate_state, {})" by simp
  moreover have "reachable (\<lambda>s. s = (session_manager_new, {})) (sm_step demo_runtime) (session_manager_new, {})"
    by (rule reachable.start) (rule refl)
  ultimately show ?thesis by (blast intro: reachable.succ)
qed

definition demo_cipher :: "msg_type \<Rightarrow> bytes \<Rightarrow> bytes" where
  "demo_cipher m p = encode_transport_plaintext m p @ to_be_bytes_u64 0 @ demo_id"

abbreviation demo_probe :: bytes where
  "demo_probe \<equiv> demo_cipher Keepalive KEEPALIVE_PROBE_PAYLOAD"

lemma demo_fresh_simps [simp]:
  "session_id (demo_fresh sid hid t) = sid" "transport (demo_fresh sid hid t) = hid"
  "replay (demo_fresh sid hid t) = replay_new" "created_at (demo_fresh sid hid t) = t"
  "send_counter (demo_fresh sid hid t) = 0" "received_messages (demo_fresh sid hid t) = 0"
  by (simp_all add: demo_fresh_def)

lemma demo_fresh_live: "t \<le> now \<Longrightarrow> now \<le> 100 \<Longrightarrow> \<not> is_expired (demo_fresh sid hid t) now"
  by (simp add: is_expired_def duration_since_def REJECT_AFTER_TIME_def secs_def)

lemma length_demo_cipher: "length (demo_cipher m p) = 17 + length p"
  by (simp add: demo_cipher_def SESSION_ID_SIZE_def frame_simps)

lemma demo_cipher_decrypts:
  "fst (decrypt demo_runtime (demo_fresh demo_sid demo_id t) demo_sid 0 (demo_cipher m p)) = Ok (m, p)"
proof -
  have "ts_read demo_runtime demo_id 0 (demo_cipher m p) (length (demo_cipher m p) - AEAD_TAG_SIZE)
      = Ok (encode_transport_plaintext m p)"
    by (simp add: demo_cipher_def demo_runtime_def AEAD_TAG_SIZE_def SESSION_ID_SIZE_def)
  moreover have "AEAD_TAG_SIZE + 1 \<le> length (demo_cipher m p)"
    by (simp add: length_demo_cipher AEAD_TAG_SIZE_def)
  ultimately show ?thesis
    by (subst decrypt_authentic) (auto simp: would_accept_def replay_new_def)
qed

lemma demo_delivery:
  "fst (decrypt_transport demo_runtime demo_candidate_state demo_sid 0 (demo_cipher m p) 10) =
    Ok (Some \<lparr>dt_peer_name = ''a'', dt_msg_type = m, dt_payload = p, dt_promoted = True\<rparr>)"
proof -
  from sm_reachable_inv [OF demo_candidate_reachable]
  have "sm_wf demo_candidate_state" "ids_unique demo_candidate_state" by (simp_all add: sm_inv_def)
  moreover have "session_at demo_candidate_state (Candidate ''a'') = Some (demo_fresh demo_sid demo_id 2)"
    by (simp add: demo_candidate_state_def)
  ultimately show ?thesis
    using decrypt_transport_at [of demo_candidate_state "Candidate ''a''" "demo_fresh demo_sid demo_id 2"
        10 demo_sid demo_runtime 0 "demo_cipher m p"]
    by (simp add: demo_fresh_live demo_cipher_decrypts transport_of_def del: session_at.simps)
qed

lemmas demo_probe_delivery = demo_delivery [of Keepalive KEEPALIVE_PROBE_PAYLOAD]

lemma demo_promotes:
  "\<exists>st' s'. decrypt_transport demo_runtime demo_candidate_state demo_sid 0 demo_probe 10 =
      (Ok (Some \<lparr>dt_peer_name = ''a'', dt_msg_type = Keepalive, dt_payload = KEEPALIVE_PROBE_PAYLOAD,
         dt_promoted = True\<rparr>), st')
    \<and> hm_get (sessions st') ''a'' = Some s' \<and> session_id s' = demo_sid \<and> \<not> is_expired s' 10
    \<and> (\<forall>a s. session_at st' a = Some s \<longrightarrow> a = Active ''a'')"
proof -
  have wf: "sm_wf demo_candidate_state"
    using sm_reachable_inv [OF demo_candidate_reachable] by (simp add: sm_inv_def)
  obtain r st' where d: "decrypt_transport demo_runtime demo_candidate_state demo_sid 0 demo_probe 10 = (r, st')"
    by (cases "decrypt_transport demo_runtime demo_candidate_state demo_sid 0 demo_probe 10")
  have none: "session_at demo_candidate_state a = (if a = Candidate ''a'' then Some (demo_fresh demo_sid demo_id 2) else None)" for a
    by (cases a) (auto simp: demo_candidate_state_def session_manager_new_def)
  let ?R = "retain_all_live 10 demo_candidate_state"
  have noneR: "session_at ?R a = (if a = Candidate ''a'' then session_at ?R a else None)" for a
  proof (cases "session_at ?R a")
    case (Some s)
    then have "session_at demo_candidate_state a = Some s" by (simp add: wf del: session_at.simps)
    with none [of a] show ?thesis by (simp del: session_at.simps split: if_splits)
  qed (auto simp del: session_at.simps)
  from wf d show ?thesis
  proof (cases rule: decrypt_transport_cases)
    case (promoted p s x s' st2)
    from wf promoted(1) have "session_at demo_candidate_state (Candidate p) = Some s"
      by (simp del: session_at.simps)
    then have p: "p = ''a''" and s: "s = demo_fresh demo_sid demo_id 2"
      by (auto simp: none simp del: session_at.simps split: if_splits)
    have s': "session_id s' = demo_sid" "created_at s' = 2" "send_counter s' = 0"
      using decrypt_keeps [of demo_runtime s demo_sid 0 demo_probe] promoted(3) by (simp_all add: s)
    then have "\<not> is_expired s' 10"
      by (simp add: is_expired_def duration_since_def REJECT_AFTER_TIME_def secs_def)
    moreover have at: "session_at st' a = (if a = Active ''a'' then Some s' else None)" for a
      using noneR [of a] noneR [of "Active ''a''"]
      by (simp add: promoted(5,6) p install_at put_at del: session_at.simps split: if_splits)
    moreover have "hm_get (sessions st') ''a'' = Some s'" using at [of "Active ''a''"] by simp
    ultimately show ?thesis using d s' demo_probe_delivery
      by (auto simp del: session_at.simps split: if_splits)
  qed (use noneR d demo_probe_delivery in \<open>auto simp: transport_of_def simp del: session_at.simps
      split: sum.splits prod.splits\<close>)
qed

subsection \<open>Properties\<close>

text \<open>C5: Whatever sequence of calls the manager has served, no key occurs twice in a map, no two
live sessions share an identifier (over the active, previous and candidate maps together), every
candidate has a cached response, and each replay window covers what was delivered under its
session's identifier.\<close>

theorem manager_invariant:
  assumes "sm_reachable E st log"
  shows "sm_wf st \<and> ids_unique st \<and> cached_candidates st
    \<and> (\<forall>a s. session_at st a = Some s \<longrightarrow> covers log s)"
  using sm_reachable_inv [OF assms] by (simp add: sm_inv_def)

theorem manager_invariant_witness:
  "ids_unique demo_candidate_state \<and> cached_candidates demo_candidate_state"
  using manager_invariant [OF demo_candidate_reachable] by blast

text \<open>C2: In every reachable state, through any interleaving of handshakes, rekeys, promotions,
invalidations and receptions, a packet that is delivered carries a counter that was not delivered
before under that session identifier since the identifier was installed.\<close>

theorem never_delivered_twice:
  assumes "sm_reachable E st log" and "decrypt_transport E st sid c ct now = (Ok (Some x), st')"
  shows "(sid, c) \<notin> log \<and> sm_reachable E st' (insert (sid, c) log)"
proof
  from decrypt_transport_inv [OF sm_reachable_inv [OF assms(1)] assms(2)] show "(sid, c) \<notin> log" by simp
  from step_decrypt [OF assms(2), of log] have "sm_step E (st, log) (st', insert (sid, c) log)"
    by (simp add: log_transport_def)
  with assms(1) show "sm_reachable E st' (insert (sid, c) log)" by (rule reachable.succ)
qed

theorem never_delivered_twice_witness:
  "\<exists>st'. sm_reachable demo_runtime st' {(demo_sid, 0)}"
proof -
  obtain r st' where d: "decrypt_transport demo_runtime demo_candidate_state demo_sid 0 demo_probe 10 = (r, st')"
    by (cases "decrypt_transport demo_runtime demo_candidate_state demo_sid 0 demo_probe 10")
  with demo_probe_delivery obtain x where "r = Ok (Some x)" by simp
  with never_delivered_twice [OF demo_candidate_reachable, of demo_sid 0 demo_probe 10 x st'] d
  show ?thesis by blast
qed

text \<open>A delivery is authenticated: the session it comes from is live, has the packet's
identifier, belongs to the reported peer, its window had not seen the counter, and its cipher
opened the ciphertext to exactly the reported message type and payload. The session is reported
as promoted exactly when it was a candidate.\<close>

lemma delivery_authentic:
  assumes "sm_wf st" and "decrypt_transport E st sid c ct now = (Ok (Some x), st')"
  shows "\<exists>a s pt. session_at st a = Some s \<and> \<not> is_expired s now \<and> session_id s = sid
    \<and> slot_peer a = dt_peer_name x \<and> dt_promoted x = is_candidate a
    \<and> would_accept (replay s) c \<and> ts_read E (transport s) c ct (length ct - AEAD_TAG_SIZE) = Ok pt
    \<and> pt = encode_transport_plaintext (dt_msg_type x) (dt_payload x)"
  by (rule decrypt_delivery [OF assms])

lemma delivery_authentic_witness:
  "\<exists>a s. session_at demo_candidate_state a = Some s \<and> \<not> is_expired s 10 \<and> slot_peer a = ''a''
    \<and> is_candidate a"
proof -
  obtain r st' where d: "decrypt_transport demo_runtime demo_candidate_state demo_sid 0 demo_probe 10 = (r, st')"
    by (cases "decrypt_transport demo_runtime demo_candidate_state demo_sid 0 demo_probe 10")
  from demo_probe_delivery d have "r = Ok (Some \<lparr>dt_peer_name = ''a'', dt_msg_type = Keepalive,
    dt_payload = KEEPALIVE_PROBE_PAYLOAD, dt_promoted = True\<rparr>)" by simp
  moreover have "sm_wf demo_candidate_state"
    using sm_reachable_inv [OF demo_candidate_reachable] by (simp add: sm_inv_def)
  ultimately show ?thesis using delivery_authentic [of demo_candidate_state] d by fastforce
qed

text \<open>C4: An active session is only ever replaced by authentication: if a call gives a peer an
active session with a new identifier, then either the peer had a responder candidate with that
identifier whose cipher authenticated a packet, or the peer's own pending exchange was completed
by a response that the handshake accepted. So a replayed first message never replaces a session.\<close>

theorem active_replaced_only_by_authentication:
  assumes "sm_step E (st, log) (st', log')" and "sm_wf st"
    and "active_session_id st' p = Some i" and "active_session_id st p \<noteq> Some i"
  shows "authenticated_install E st p i"
  by (rule step_active_id [OF assms])

theorem active_replaced_only_by_authentication_witness:
  "authenticated_install demo_runtime demo_candidate_state ''a'' demo_sid"
proof -
  have wf: "sm_wf demo_candidate_state"
    using sm_reachable_inv [OF demo_candidate_reachable] by (simp add: sm_inv_def)
  from demo_promotes obtain r st' s' where
    d: "decrypt_transport demo_runtime demo_candidate_state demo_sid 0 demo_probe 10 = (r, st')"
    and "hm_get (sessions st') ''a'' = Some s'" "session_id s' = demo_sid" by blast
  moreover have "active_session_id demo_candidate_state ''a'' \<noteq> Some demo_sid"
    by (simp add: demo_candidate_state_def session_manager_new_def active_session_id_def)
  ultimately show ?thesis
    using active_replaced_only_by_authentication [OF step_decrypt [OF d, of "{}"] wf]
    by (simp add: active_session_id_def)
qed

text \<open>C21: Rekeying loses nothing in flight: when a new session is installed for a peer, every
packet of the session it replaces is still decrypted with exactly the same outcome, until that
session itself expires.\<close>

theorem rekey_keeps_in_flight_packets:
  assumes "sm_reachable E st log" and "hm_get (sessions st) p = Some old"
    and "\<not> is_expired old now" and "\<not> session_id_in_use st (session_id n)"
  shows "fst (decrypt_transport E (install_active_session st p n) (session_id old) c ct now)
    = fst (decrypt_transport E st (session_id old) c ct now)"
  by (rule install_keeps_decrypting [OF sm_reachable_inv [OF assms(1)] assms(2-4)])

theorem rekey_keeps_in_flight_packets_witness:
  "\<exists>st old. hm_get (sessions st) ''a'' = Some old \<and> session_id old = demo_sid
    \<and> fst (decrypt_transport demo_runtime (install_active_session st ''a'' (demo_fresh [9] [] 10)) demo_sid 1 [] 10)
      = fst (decrypt_transport demo_runtime st demo_sid 1 [] 10)"
proof -
  from demo_promotes obtain r st' s' where
    d: "decrypt_transport demo_runtime demo_candidate_state demo_sid 0 demo_probe 10 = (r, st')"
    and s': "hm_get (sessions st') ''a'' = Some s'" "session_id s' = demo_sid" "\<not> is_expired s' 10"
    and only: "\<And>a s. session_at st' a = Some s \<Longrightarrow> a = Active ''a''" by blast
  let ?log = "log_transport demo_sid 0 r {}"
  have reach: "sm_reachable demo_runtime st' ?log"
    by (rule reachable.succ [OF demo_candidate_reachable step_decrypt [OF d]])
  then have wf: "sm_wf st'" using sm_reachable_inv by (force simp: sm_inv_def)
  have "length demo_sid \<noteq> length [9 :: u8]" by (simp add: SESSION_ID_SIZE_def)
  then have "demo_sid \<noteq> [9]" by metis
  have "\<not> session_id_in_use st' (session_id (demo_fresh [9] [] 10))"
  proof
    assume "session_id_in_use st' (session_id (demo_fresh [9] [] 10))"
    then obtain a s where a: "session_at st' a = Some s" "session_id s = [9]"
      by (auto simp: session_id_in_use_iff [OF wf] simp del: session_at.simps)
    with only [OF a(1)] s' \<open>demo_sid \<noteq> [9]\<close> show False by simp
  qed
  from rekey_keeps_in_flight_packets [OF reach s'(1,3) this, of 1 "[]"] s' show ?thesis by auto
qed

text \<open>C20: Simultaneous initiation, while both exchanges are younger than 30 seconds, is decided
consistently: at least one of the two managers accepts the other's initiation, and the one that
accepts gives up its own exchange while the one that refuses keeps it. Unless one of them is a
passive peer in recovery (no address configured, invalidated since), exactly one accepts, the one
with the larger handshake identifier; a passive peer in recovery accepts whatever the identifiers.\<close>

theorem simultaneous_initiation_one_winner:
  assumes "hm_get (pending_init sa) b = Some pa" and "hm_get (pending_init sb) a = Some pb"
    and "pi_handshake_id pa \<noteq> pi_handshake_id pb"
    and "duration_since (fst (instant_now E wa)) (pi_created_at pa) < HANDSHAKE_ATTEMPT_LIFETIME"
    and "duration_since (fst (instant_now E wb)) (pi_created_at pb) < HANDSHAKE_ATTEMPT_LIFETIME"
    and "accept_inbound_initiation E sa b (pi_handshake_id pb) passive_a wa = (ra, sa', wa')"
    and "accept_inbound_initiation E sb a (pi_handshake_id pa) passive_b wb = (rb, sb', wb')"
  shows "has_pending_init sa' b = (\<not> ra) \<and> has_pending_init sb' a = (\<not> rb) \<and> (ra \<or> rb)
    \<and> (passive_a \<and> b \<in> inbound_recovery_preference sa \<or> passive_b \<and> a \<in> inbound_recovery_preference sb
       \<or> ra = (\<not> rb) \<and> ra = (pi_handshake_id pb < pi_handshake_id pa))
    \<and> (passive_a \<and> b \<in> inbound_recovery_preference sa \<longrightarrow> ra)
    \<and> (passive_b \<and> a \<in> inbound_recovery_preference sb \<longrightarrow> rb)"
proof -
  have decide: "r = (f \<and> p \<in> inbound_recovery_preference st \<or> hid < pi_handshake_id x)
      \<and> has_pending_init st' p = (\<not> r)"
    if x: "hm_get (pending_init st) p = Some x"
      and young: "duration_since (fst (instant_now E w)) (pi_created_at x) < HANDSHAKE_ATTEMPT_LIFETIME"
      and e: "accept_inbound_initiation E st p hid f w = (r, st', w')" for st p x w hid f r st' w'
  proof -
    obtain t w1 where t: "instant_now E w = (t, w1)" by (cases "instant_now E w")
    with young have "\<not> HANDSHAKE_ATTEMPT_LIFETIME \<le> duration_since t (pi_created_at x)" by simp
    with e x t show ?thesis
      by (auto simp: accept_inbound_initiation_def elapsed_at_least_def Let_def has_pending_init_def
          hm_contains_def split: if_splits)
  qed
  from decide [OF assms(1,4,6)] decide [OF assms(2,5,7)] assms(3) show ?thesis
    by (auto simp: neq_iff)
qed

definition demo_pending :: "bytes \<Rightarrow> demo_hs pending_initiator" where
  "demo_pending hid = \<lparr>pi_handshake_id = hid, pi_state = \<lparr>is_handshake_id = hid, is_state = DWait []\<rparr>,
     pi_packet = [9], pi_created_at = 0, pi_last_sent = 0\<rparr>"

definition demo_initiator :: "string \<Rightarrow> bytes \<Rightarrow> (demo_hs, bytes) session_state" where
  "demo_initiator p hid = session_manager_new\<lparr>pending_init := [(p, demo_pending hid)]\<rparr>"

lemma demo_initiator_pending: "hm_get (pending_init (demo_initiator p hid)) p = Some (demo_pending hid)"
  by (simp add: demo_initiator_def)

theorem simultaneous_initiation_one_winner_witness:
  "fst (accept_inbound_initiation demo_runtime (demo_initiator ''b'' [1]) ''b'' [2] False 0)
    \<noteq> fst (accept_inbound_initiation demo_runtime (demo_initiator ''a'' [2]) ''a'' [1] False 0)"
proof -
  obtain ra sa' wa' where a: "accept_inbound_initiation demo_runtime (demo_initiator ''b'' [1]) ''b''
      (pi_handshake_id (demo_pending [2])) False 0 = (ra, sa', wa')" by (rule prod_cases3)
  obtain rb sb' wb' where b: "accept_inbound_initiation demo_runtime (demo_initiator ''a'' [2]) ''a''
      (pi_handshake_id (demo_pending [1])) False 0 = (rb, sb', wb')" by (rule prod_cases3)
  have "duration_since (fst (instant_now demo_runtime 0)) (pi_created_at (demo_pending hid))
      < HANDSHAKE_ATTEMPT_LIFETIME" for hid
    by (simp add: demo_runtime_def demo_pending_def HANDSHAKE_ATTEMPT_LIFETIME_def)
  moreover have "pi_handshake_id (demo_pending [1]) \<noteq> pi_handshake_id (demo_pending [2])"
    by (simp add: demo_pending_def)
  ultimately have "ra = (\<not> rb)"
    using simultaneous_initiation_one_winner [OF demo_initiator_pending demo_initiator_pending _ _ _ a b] by auto
  with a b show ?thesis by (simp add: demo_pending_def)
qed

text \<open>Retransmission is disciplined: while an exchange is pending and younger than 30 seconds,
repeated calls emit only the very bytes of its first message, and consecutive transmissions
(the last one before included) are at least five seconds apart.\<close>

lemma retries_repeat_and_space:
  assumes "hm_get (pending_init st) p = Some x"
    and "\<forall>t \<in> set ts. duration_since t (pi_created_at x) < HANDSHAKE_ATTEMPT_LIFETIME"
  shows "(\<forall>(t, packet) \<in> set (retries E st p k rk psk w ts). packet = pi_packet x)
    \<and> sorted_wrt (\<lambda>a b. a + HANDSHAKE_RETRY_INTERVAL \<le> b)
        (pi_last_sent x # map fst (retries E st p k rk psk w ts))"
  by (rule retries_spaced [OF assms])

lemma retries_repeat_and_space_witness:
  "sorted_wrt (\<lambda>a b. a + HANDSHAKE_RETRY_INTERVAL \<le> b)
     (pi_last_sent (demo_pending [1])
       # map fst (retries demo_runtime (demo_initiator ''a'' [1]) ''a'' [] [] [] 0 [secs 3, secs 6, secs 12]))"
proof -
  have "\<forall>t \<in> set [secs 3, secs 6, secs 12].
      duration_since t (pi_created_at (demo_pending [1])) < HANDSHAKE_ATTEMPT_LIFETIME"
    by (simp add: demo_pending_def duration_since_def HANDSHAKE_ATTEMPT_LIFETIME_def secs_def)
  from retries_repeat_and_space [OF demo_initiator_pending this] show ?thesis by (rule conjunct2)
qed

text \<open>With no exchange pending, a new one is withheld exactly when the peer's initiation is
already being answered (a live responder candidate) or the active session is live and not yet
due for rekeying.\<close>

lemma initiation_decision:
  assumes "hm_get (pending_init st) p = None"
  shows "fst (start_or_retry_handshake E st p k rk psk now w) = Ok None \<longleftrightarrow>
    opt_test (\<lambda>s. \<not> is_expired s now) (hm_get (responder_candidates st) p)
    \<or> opt_test (\<lambda>s. \<not> is_expired s now \<and> \<not> should_rekey s now) (hm_get (sessions st) p)"
  by (rule start_no_pending [OF assms])

lemma initiation_decision_witness:
  "fst (start_or_retry_handshake demo_runtime demo_candidate_state ''a'' [] [] [] 10 0) = Ok None"
  by (subst initiation_decision) (simp_all add: demo_candidate_state_def session_manager_new_def demo_fresh_live)

text \<open>Invalidating a peer erases exactly that peer: every session, pending exchange and cached
response of the peer is gone and those of all other peers are untouched, the answer says whether
there was anything but a cached response, and nothing can be encrypted for the peer any more.\<close>

lemma invalidate_erases_peer:
  "let (removed, st') = invalidate_peer st p in
     (\<forall>a. session_at st' a = (if slot_peer a = p then None else session_at st a))
     \<and> (\<forall>q. hm_get (pending_init st') q = (if q = p then None else hm_get (pending_init st) q))
     \<and> (\<forall>q. hm_get (responder_cache st') q = (if q = p then None else hm_get (responder_cache st) q))
     \<and> removed = ((\<exists>a. slot_peer a = p \<and> session_at st a \<noteq> None) \<or> has_pending_init st p)
     \<and> fst (encrypt_for_peer E st' p m payload now) = Ok None"
proof -
  obtain removed st' where i: "invalidate_peer st p = (removed, st')" by (cases "invalidate_peer st p")
  have slots: "(\<exists>a. slot_peer a = p \<and> session_at st a \<noteq> None) \<longleftrightarrow>
      session_at st (Active p) \<noteq> None \<or> session_at st (Previous p) \<noteq> None \<or> session_at st (Candidate p) \<noteq> None"
    by (metis slot.exhaust slot_peer.simps)
  have "session_at st' a = (if slot_peer a = p then None else session_at st a)" for a
    using i by (cases a) (auto simp: invalidate_peer_def)
  moreover have "removed = ((\<exists>a. slot_peer a = p \<and> session_at st a \<noteq> None) \<or> has_pending_init st p)"
    using i unfolding slots by (auto simp: invalidate_peer_def hm_contains_def has_pending_init_def)
  moreover have "fst (encrypt_for_peer E st' p m payload now) = Ok None"
    using i by (auto simp: invalidate_peer_def encrypt_for_peer_def drop_expired_active_def Let_def)
  moreover have "hm_get (pending_init st') q = (if q = p then None else hm_get (pending_init st) q)"
    "hm_get (responder_cache st') q = (if q = p then None else hm_get (responder_cache st) q)" for q
    using i by (auto simp: invalidate_peer_def)
  ultimately show ?thesis unfolding i by simp
qed

text \<open>Data is only ever encrypted under the peer's live active session: a frame carries that
session's identifier and its next unused counter, which the stored session has left behind, and
\<open>None\<close> is answered exactly when the peer has no live active session.\<close>

lemma encrypt_uses_active_session:
  "let (r, st') = encrypt_for_peer E st p m payload now in
     (r = Ok None \<longleftrightarrow> \<not> opt_test (\<lambda>s. \<not> is_expired s now) (hm_get (sessions st) p))
     \<and> (\<forall>frame. r = Ok (Some frame) \<longrightarrow>
          (\<exists>s s' ct. hm_get (sessions st) p = Some s \<and> \<not> is_expired s now
             \<and> frame = encode_transport (session_id s) (send_counter s) ct
             \<and> hm_get (sessions st') p = Some s' \<and> session_id s' = session_id s
             \<and> unat (send_counter s') = Suc (unat (send_counter s))))"
proof (cases "opt_test (\<lambda>s. \<not> is_expired s now) (hm_get (sessions st) p)")
  case False
  then show ?thesis
    by (auto simp: encrypt_for_peer_def drop_expired_active_def Let_def opt_test_def split: option.splits)
next
  case True
  then obtain s where s: "hm_get (sessions st) p = Some s" and live: "\<not> is_expired s now"
    by (auto simp: opt_test_iff)
  obtain r s' where e: "encrypt E s m payload = (r, s')" by (cases "encrypt E s m payload")
  have st': "encrypt_for_peer E st p m payload now =
      (case r of Inl e \<Rightarrow> Err e | Inr frame \<Rightarrow> Ok (Some frame),
       st\<lparr>previous_sessions := retain_live now (previous_sessions st),
          sessions := hm_insert p s' (sessions st)\<rparr>)"
    using s live e by (simp add: encrypt_for_peer_def drop_expired_active_def Let_def)
  show ?thesis
  proof (cases r)
    case (Inl err)
    with st' True show ?thesis by simp
  next
    case (Inr frame)
    from encrypt_Ok [OF e [unfolded Inr]] encrypt_advances(2) [of s]
    show ?thesis using s live True unfolding st' Inr by auto
  qed
qed

lemma encrypt_uses_active_session_witness:
  "\<exists>st. hm_get (sessions st) ''a'' \<noteq> None
    \<and> fst (encrypt_for_peer demo_runtime st ''a'' Data [] 10) \<noteq> Ok None"
proof -
  from demo_promotes obtain r st' s' where
    "decrypt_transport demo_runtime demo_candidate_state demo_sid 0 demo_probe 10 = (r, st')"
    and s': "hm_get (sessions st') ''a'' = Some s'" "\<not> is_expired s' 10" by blast
  obtain r2 st2 where "encrypt_for_peer demo_runtime st' ''a'' Data [] 10 = (r2, st2)"
    by (cases "encrypt_for_peer demo_runtime st' ''a'' Data [] 10")
  with encrypt_uses_active_session [of demo_runtime st' "''a''" Data "[]" 10] s' show ?thesis by auto
qed

text \<open>The iteration order of the hash maps does not matter: two states that satisfy the
invariant and hold the same entries, in whatever order, decrypt every packet to the same result.\<close>

lemma iteration_order_irrelevant:
  assumes "sm_inv st log" and "sm_inv st' log'" and "\<And>a. session_at st a = session_at st' a"
  shows "fst (decrypt_transport E st sid c ct now) = fst (decrypt_transport E st' sid c ct now)"
proof -
  from assms(1,2) have wf: "sm_wf st" "sm_wf st'" and uniq: "ids_unique st" "ids_unique st'"
    by (simp_all add: sm_inv_def)
  show ?thesis
  proof (cases "\<exists>a s. session_at st a = Some s \<and> \<not> is_expired s now \<and> session_id s = sid")
    case True
    then obtain a s where a: "session_at st a = Some s" "\<not> is_expired s now" "session_id s = sid" by blast
    with assms(3) have a': "session_at st' a = Some s" by metis
    from decrypt_transport_at [OF wf(1) uniq(1) a, of E c ct] decrypt_transport_at [OF wf(2) uniq(2) a' a(2,3), of E c ct]
    show ?thesis by simp
  next
    case False
    with assms(3) have "session_id s \<noteq> sid" if "session_at st' a = Some s" "\<not> is_expired s now" for a s
      using that by metis
    with False decrypt_transport_unknown [OF wf(1), of now sid E c ct] decrypt_transport_unknown [OF wf(2), of now sid E c ct]
    show ?thesis by metis
  qed
qed

lemma iteration_order_irrelevant_witness:
  "fst (decrypt_transport demo_runtime demo_candidate_state demo_sid 0 demo_probe 10)
    = fst (decrypt_transport demo_runtime (demo_candidate_state\<lparr>pending_init := []\<rparr>) demo_sid 0 demo_probe 10)"
proof -
  have inv: "sm_inv demo_candidate_state {}" by (rule sm_reachable_inv [OF demo_candidate_reachable])
  have inv': "sm_inv (demo_candidate_state\<lparr>pending_init := []\<rparr>) {}" by (rule sm_inv_pending [OF inv]) simp
  show ?thesis by (rule iteration_order_irrelevant [OF inv inv']) simp
qed

text \<open>C37: a response that names a pending exchange but is not accepted by the handshake (a forged
or corrupted one) is refused with an error, and no session changes; the pending exchange is
nevertheless given up, so a later genuine response finds none.\<close>

theorem refused_response_cancels_exchange:
  assumes "sm_wf st" and "hm_find_key (\<lambda>p. pi_handshake_id p = hid) (pending_init st) = Some p"
    and "initiator_finalize E (pi_state (the (hm_get (pending_init st) p))) response w = (Err e, w')"
  shows "\<exists>st'. finalize_initiator E st hid response w = (Err e, st', w')
    \<and> \<not> has_pending_init st' p \<and> (\<forall>a. session_at st' a = session_at st a)"
  using assms
  by (auto simp: finalize_initiator_def Let_def has_pending_init_def)

theorem refused_response_cancels_exchange_witness:
  "\<exists>st'. finalize_initiator demo_runtime (demo_initiator ''a'' [1]) [1] [0] 0 = (Err InvalidSessionId, st', 0)
    \<and> \<not> has_pending_init st' ''a''"
proof -
  have a: "sm_wf (demo_initiator ''a'' [1])"
    by (simp add: demo_initiator_def session_manager_new_def sm_wf_def)
  have b: "hm_find_key (\<lambda>p. pi_handshake_id p = [1]) (pending_init (demo_initiator ''a'' [1])) = Some ''a''"
    by (simp add: demo_initiator_def demo_pending_def hm_find_key_def)
  have c: "initiator_finalize demo_runtime
      (pi_state (the (hm_get (pending_init (demo_initiator ''a'' [1])) ''a''))) [0] 0 = (Err InvalidSessionId, 0)"
    by (simp add: demo_initiator_pending)
      (simp add: demo_pending_def initiator_finalize_def io_bind_def io_lift_def demo_runtime_def SESSION_ID_SIZE_def)
  from refused_response_cancels_exchange [OF a b c] show ?thesis by auto
qed

end
