(* ===== verification/Packet.thy ===== *)
theory Packet
  imports RustStd
begin

text \<open>
  \<^verbatim>\<open>src/src/packet.rs\<close>: the IPv4 header view that routing and the inbound path use.
\<close>

datatype packet_error =
    TooShort nat
  | NotIpv4 u8
  | HeaderTooLong nat nat

definition ipv4_parse :: "bytes \<Rightarrow> (packet_error, bytes) result" where
  "ipv4_parse bs =
    (if length bs < 20 then Err (TooShort (length bs))
     else
       let version = drop_bit 4 (bs ! 0) in
       if version \<noteq> 4 then Err (NotIpv4 version)
       else
         let header_len = unat ((bs ! 0) AND 15) * 4 in
         if header_len > length bs then Err (HeaderTooLong header_len (length bs))
         else Ok bs)"

definition ipv4_source :: "bytes \<Rightarrow> ipv4" where
  "ipv4_source bs = ipv4_new (bs ! 12) (bs ! 13) (bs ! 14) (bs ! 15)"

definition ipv4_destination :: "bytes \<Rightarrow> ipv4" where
  "ipv4_destination bs = ipv4_new (bs ! 16) (bs ! 17) (bs ! 18) (bs ! 19)"

definition ipv4_protocol :: "bytes \<Rightarrow> u8" where
  "ipv4_protocol bs = bs ! 9"

text \<open>A parsed packet is its input, and every accessor reads inside it.\<close>

lemma ipv4_parse_Ok:
  "ipv4_parse bs = Ok p \<longleftrightarrow>
    p = bs \<and> 20 \<le> length bs \<and> drop_bit 4 (bs ! 0) = 4 \<and> unat (bs ! 0 AND 15) * 4 \<le> length bs"
  by (auto simp: ipv4_parse_def Let_def)

lemma ipv4_parse_length: "ipv4_parse bs = Ok p \<Longrightarrow> 20 \<le> length p"
  by (auto simp: ipv4_parse_Ok)

end
