(* ===== verification/PeerState.thy ===== *)
theory PeerState
  imports RustStd
begin

text \<open>
  \<^verbatim>\<open>src/src/state.rs\<close>: the per-peer traffic statistics and the roaming endpoint learned
  from authenticated packets. Operations that read the clock take the reading as an
  argument. Byte counters wrap at 64 bits, as in a release build.
\<close>

record peer_stats =
  last_seen :: "instant option"
  tx_bytes :: u64
  rx_bytes :: u64
  current_endpoint :: "socket_addr option"

definition default_stats :: peer_stats where
  "default_stats = \<lparr>last_seen = None, tx_bytes = 0, rx_bytes = 0, current_endpoint = None\<rparr>"

type_synonym peer_state = "(string, peer_stats) hmap"

text \<open>\<open>HashMap::entry(k).or_default()\<close>.\<close>

definition stats_entry :: "peer_state \<Rightarrow> string \<Rightarrow> peer_stats" where
  "stats_entry st peer = (case hm_get st peer of None \<Rightarrow> default_stats | Some e \<Rightarrow> e)"

definition update_endpoint :: "peer_stats \<Rightarrow> socket_addr \<Rightarrow> peer_stats" where
  "update_endpoint stats source = stats\<lparr>current_endpoint := Some source\<rparr>"

definition record_tx :: "peer_state \<Rightarrow> string \<Rightarrow> nat \<Rightarrow> peer_state" where
  "record_tx st peer n =
    (let entry = stats_entry st peer
     in hm_insert peer (entry\<lparr>tx_bytes := tx_bytes entry + of_nat n\<rparr>) st)"

definition record_rx ::
    "peer_state \<Rightarrow> string \<Rightarrow> socket_addr \<Rightarrow> nat \<Rightarrow> instant \<Rightarrow> peer_state" where
  "record_rx st peer source n t =
    (let entry = stats_entry st peer;
         e1 = entry\<lparr>rx_bytes := rx_bytes entry + of_nat n\<rparr>;
         e2 = e1\<lparr>last_seen := Some t\<rparr>
     in hm_insert peer (update_endpoint e2 source) st)"

definition record_keepalive ::
    "peer_state \<Rightarrow> string \<Rightarrow> socket_addr \<Rightarrow> instant \<Rightarrow> peer_state" where
  "record_keepalive st peer source t =
    (let entry = stats_entry st peer
     in hm_insert peer (update_endpoint (entry\<lparr>last_seen := Some t\<rparr>) source) st)"

definition clear_endpoint :: "peer_state \<Rightarrow> string \<Rightarrow> peer_state" where
  "clear_endpoint st peer =
    (case hm_get st peer of
       None \<Rightarrow> st
     | Some stats \<Rightarrow> hm_insert peer (stats\<lparr>current_endpoint := None\<rparr>) st)"

text \<open>The endpoint a peer is reached at, as learned from its packets.\<close>

definition learned_endpoint :: "peer_state \<Rightarrow> string \<Rightarrow> socket_addr option" where
  "learned_endpoint st peer = Option.bind (hm_get st peer) current_endpoint"

lemmas peer_state_defs = record_tx_def record_rx_def record_keepalive_def clear_endpoint_def
  update_endpoint_def stats_entry_def Let_def

lemma learned_record_tx [simp]:
  "learned_endpoint (record_tx st p n) q = learned_endpoint st q"
  by (auto simp: learned_endpoint_def peer_state_defs default_stats_def split: option.splits)

lemma learned_record_rx [simp]:
  "learned_endpoint (record_rx st p src n t) q = (if q = p then Some src else learned_endpoint st q)"
  by (auto simp: learned_endpoint_def peer_state_defs)

lemma learned_record_keepalive [simp]:
  "learned_endpoint (record_keepalive st p src t) q =
    (if q = p then Some src else learned_endpoint st q)"
  by (auto simp: learned_endpoint_def peer_state_defs)

lemma learned_clear [simp]:
  "learned_endpoint (clear_endpoint st p) q = (if q = p then None else learned_endpoint st q)"
  by (auto simp: learned_endpoint_def peer_state_defs split: option.splits)

lemma record_keys [keys_simps]:
  "hm_wf st \<Longrightarrow> hm_wf (record_tx st p n)"
  "hm_wf st \<Longrightarrow> hm_wf (record_rx st p src n t)"
  "hm_wf st \<Longrightarrow> hm_wf (record_keepalive st p src t)"
  "hm_wf st \<Longrightarrow> hm_wf (clear_endpoint st p)"
  by (auto simp: peer_state_defs keys_simps split: option.splits)

end
