(* ===== verification/RustNet.thy ===== *)
theory RustNet
  imports RustStd
begin

text \<open>
  Parsing and printing of socket addresses as \<open>std::net\<close> does it, which
  \<^verbatim>\<open>src/src/config.rs\<close> uses through \<open>str::parse::<SocketAddr>\<close>,
  \<open>str::parse::<u16>\<close> and \<open>Ipv4Addr::to_string\<close>. A parser takes the
  remaining input and returns its value with what is left, or \<open>None\<close> when it fails
  (and then consumes nothing).
\<close>

definition to_digit :: "int \<Rightarrow> char \<Rightarrow> int option" where
  "to_digit radix c =
    (let n = of_char c :: int;
         d = (if 48 \<le> n \<and> n \<le> 57 then Some (n - 48)
              else if 97 \<le> n \<and> n \<le> 122 then Some (n - 87)
              else if 65 \<le> n \<and> n \<le> 90 then Some (n - 55)
              else None)
     in case d of None \<Rightarrow> None | Some v \<Rightarrow> if v < radix then Some v else None)"

fun read_digits :: "int \<Rightarrow> string \<Rightarrow> int list \<times> string" where
  "read_digits radix [] = ([], [])"
| "read_digits radix (c # cs) =
    (case to_digit radix c of
       None \<Rightarrow> ([], c # cs)
     | Some d \<Rightarrow> (let (ds, rest) = read_digits radix cs in (d # ds, rest)))"

definition digits_value :: "int \<Rightarrow> int list \<Rightarrow> int" where
  "digits_value radix ds = foldl (\<lambda>acc d. acc * radix + d) 0 ds"

definition read_number ::
    "int \<Rightarrow> nat option \<Rightarrow> bool \<Rightarrow> int \<Rightarrow> string \<Rightarrow> (int \<times> string) option" where
  "read_number radix max_digits allow_zero_prefix bound s =
    (let (ds, rest) = read_digits radix s; v = digits_value radix ds in
     if ds = [] then None
     else if (case max_digits of None \<Rightarrow> False | Some m \<Rightarrow> m < length ds) then None
     else if \<not> allow_zero_prefix \<and> hd ds = 0 \<and> 1 < length ds then None
     else if bound \<le> v then None
     else Some (v, rest))"

definition read_given_char :: "char \<Rightarrow> string \<Rightarrow> string option" where
  "read_given_char c s = (case s of [] \<Rightarrow> None | x # xs \<Rightarrow> if x = c then Some xs else None)"

definition read_separator ::
    "char \<Rightarrow> nat \<Rightarrow> (string \<Rightarrow> ('a \<times> string) option) \<Rightarrow> string \<Rightarrow> ('a \<times> string) option" where
  "read_separator c i p s =
    (if 0 < i then Option.bind (read_given_char c s) p else p s)"

fun read_octets :: "nat \<Rightarrow> nat \<Rightarrow> string \<Rightarrow> (int list \<times> string) option" where
  "read_octets 0 i s = Some ([], s)"
| "read_octets (Suc n) i s =
    (case read_separator (CHR ''.'') i (read_number 10 (Some 3) False 256) s of
       None \<Rightarrow> None
     | Some (v, rest) \<Rightarrow> map_option (\<lambda>(vs, r). (v # vs, r)) (read_octets n (Suc i) rest))"

definition read_ipv4_addr :: "string \<Rightarrow> (ipv4 \<times> string) option" where
  "read_ipv4_addr s =
    map_option (\<lambda>(vs, r). (word_of_int (digits_value 256 vs), r)) (read_octets 4 0 s)"

text \<open>The groups read, whether they end in an embedded IPv4 address, and the rest.\<close>

fun read_groups :: "nat \<Rightarrow> nat \<Rightarrow> string \<Rightarrow> int list \<times> bool \<times> string" where
  "read_groups 0 i s = ([], False, s)"
| "read_groups (Suc n) i s =
    (case (if 0 < n then read_separator (CHR '':'') i read_ipv4_addr s else None) of
       Some (a, rest) \<Rightarrow> ([uint a div 65536, uint a mod 65536], True, rest)
     | None \<Rightarrow>
         (case read_separator (CHR '':'') i (read_number 16 (Some 4) True 65536) s of
            None \<Rightarrow> ([], False, s)
          | Some (g, rest) \<Rightarrow>
              (let (gs, v4, r) = read_groups n (Suc i) rest in (g # gs, v4, r))))"

definition ipv6_of_groups :: "int list \<Rightarrow> ipv6" where
  "ipv6_of_groups gs = word_of_int (digits_value 65536 gs)"

definition read_ipv6_addr :: "string \<Rightarrow> (ipv6 \<times> string) option" where
  "read_ipv6_addr s =
    (let (head, head_ipv4, r) = read_groups 8 0 s in
     if length head = 8 then Some (ipv6_of_groups head, r)
     else if head_ipv4 then None
     else
       case Option.bind (read_given_char (CHR '':'') r) (read_given_char (CHR '':'')) of
         None \<Rightarrow> None
       | Some r2 \<Rightarrow>
           let (tail, _, r3) = read_groups (8 - (length head + 1)) 0 r2
           in Some (ipv6_of_groups
                (head @ replicate (8 - length head - length tail) 0 @ tail), r3))"

definition read_port :: "string \<Rightarrow> (int \<times> string) option" where
  "read_port s = Option.bind (read_given_char (CHR '':'') s) (read_number 10 None True 65536)"

definition read_scope_id :: "string \<Rightarrow> (int \<times> string) option" where
  "read_scope_id s =
    Option.bind (read_given_char (CHR ''%'') s) (read_number 10 None True 4294967296)"

definition read_socket_addr_v4 :: "string \<Rightarrow> (socket_addr \<times> string) option" where
  "read_socket_addr_v4 s =
    (case read_ipv4_addr s of
       None \<Rightarrow> None
     | Some (ip, r) \<Rightarrow> map_option (\<lambda>(p, r'). (V4 ip (word_of_int p), r')) (read_port r))"

definition read_socket_addr_v6 :: "string \<Rightarrow> (socket_addr \<times> string) option" where
  "read_socket_addr_v6 s =
    (case Option.bind (read_given_char (CHR ''['') s) read_ipv6_addr of
       None \<Rightarrow> None
     | Some (ip, r) \<Rightarrow>
         let (scope, r2) = (case read_scope_id r of None \<Rightarrow> (0, r) | Some x \<Rightarrow> x) in
         (case Option.bind (read_given_char (CHR '']'') r2) read_port of
            None \<Rightarrow> None
          | Some (p, r3) \<Rightarrow> Some (V6 ip (word_of_int p) 0 (word_of_int scope), r3)))"

definition parse_socket_addr :: "string \<Rightarrow> socket_addr option" where
  "parse_socket_addr s =
    (case (case read_socket_addr_v4 s of Some x \<Rightarrow> Some x | None \<Rightarrow> read_socket_addr_v6 s) of
       Some (a, []) \<Rightarrow> Some a
     | _ \<Rightarrow> None)"

text \<open>\<open>u16::from_str\<close>: an optional plus sign, then at least one decimal digit.\<close>

definition parse_u16 :: "string \<Rightarrow> u16 option" where
  "parse_u16 s =
    (let t = (case s of [] \<Rightarrow> [] | c # cs \<Rightarrow> if c = CHR ''+'' then cs else s) in
     case read_number 10 None True 65536 t of
       Some (v, []) \<Rightarrow> Some (word_of_int v)
     | _ \<Rightarrow> None)"

subsection \<open>Printing\<close>

definition digit_char :: "nat \<Rightarrow> char" where
  "digit_char d = char_of (if d < 10 then 48 + d else 87 + d)"

fun show_nat_aux :: "nat \<Rightarrow> nat \<Rightarrow> nat \<Rightarrow> string" where
  "show_nat_aux radix 0 n = []"
| "show_nat_aux radix (Suc fuel) n =
    (if n < radix then [digit_char n]
     else show_nat_aux radix fuel (n div radix) @ [digit_char (n mod radix)])"

text \<open>A number has at most as many digits as its value plus one, so this fuel is enough.\<close>

definition show_nat :: "nat \<Rightarrow> string" where
  "show_nat n = show_nat_aux 10 (Suc n) n"

definition ipv4_octets :: "ipv4 \<Rightarrow> nat list" where
  "ipv4_octets a = map (\<lambda>b. unat b) (to_be_bytes_u32 a)"

fun join :: "string \<Rightarrow> string list \<Rightarrow> string" where
  "join sep [] = []"
| "join sep [x] = x"
| "join sep (x # y # ys) = x @ sep @ join sep (y # ys)"

definition show_ipv4 :: "ipv4 \<Rightarrow> string" where
  "show_ipv4 a = join ''.'' (map show_nat (ipv4_octets a))"

definition show_hex :: "nat \<Rightarrow> string" where
  "show_hex n = show_nat_aux 16 (Suc n) n"

definition ipv6_segments :: "ipv6 \<Rightarrow> nat list" where
  "ipv6_segments a =
    map (\<lambda>i. unat (ucast (drop_bit (16 * (7 - i)) a) :: u16)) [0..<8]"

text \<open>The first longest run of zero segments, as its start and length.\<close>

fun longest_zeros :: "nat \<Rightarrow> nat list \<Rightarrow> nat \<times> nat \<Rightarrow> nat \<times> nat \<Rightarrow> nat \<times> nat" where
  "longest_zeros i [] cur best = best"
| "longest_zeros i (x # xs) cur best =
    (if x = 0 then
       let cur' = (if snd cur = 0 then i else fst cur, Suc (snd cur))
       in longest_zeros (Suc i) xs cur' (if snd best < snd cur' then cur' else best)
     else longest_zeros (Suc i) xs (0, 0) best)"

definition show_ipv6 :: "ipv6 \<Rightarrow> string" where
  "show_ipv6 a =
    (let segs = ipv6_segments a; hex = (\<lambda>xs. join '':'' (map show_hex xs)) in
     if take 6 segs = [0, 0, 0, 0, 0, 65535] then ''::ffff:'' @ show_ipv4 (ucast a)
     else
       let (start, len) = longest_zeros 0 segs (0, 0) (0, 0) in
       if 1 < len then hex (take start segs) @ ''::'' @ hex (drop (start + len) segs)
       else hex segs)"

fun show_socket_addr :: "socket_addr \<Rightarrow> string" where
  "show_socket_addr (V4 a p) = show_ipv4 a @ '':'' @ show_nat (unat p)"
| "show_socket_addr (V6 a p flow scope) =
    ''['' @ show_ipv6 a @ (if scope = 0 then [] else ''%'' @ show_nat (unat scope)) @ '']:'' @ show_nat (unat p)"

lemma show_nat_aux_enough:
  "n < fuel \<Longrightarrow> n < fuel' \<Longrightarrow> show_nat_aux 10 fuel n = show_nat_aux 10 fuel' n"
proof (induction fuel arbitrary: n fuel')
  case 0
  then show ?case by simp
next
  case (Suc fuel)
  then obtain f' where f': "fuel' = Suc f'" by (cases fuel') auto
  show ?case
  proof (cases "n < 10")
    case True
    then show ?thesis by (simp add: f')
  next
    case False
    then have "n div 10 < fuel" and "n div 10 < f'"
      using Suc.prems f' by auto
    then show ?thesis using False Suc.IH [of "n div 10" f'] by (simp add: f')
  qed
qed

end
