(* ===== verification/Config.thy ===== *)
theory Config
  imports RustNet
begin

text \<open>
  \<^verbatim>\<open>src/src/config.rs\<close>: the configuration, its validation and the peer endpoints.

  Three things the code calls are not in the repository and are fields of the record
  \<open>libs\<close>: the network type of the \<open>ipnet\<close> crate (an arbitrary type \<open>'net\<close> with the
  methods used), base64 decoding, and the resolver behind \<open>to_socket_addrs\<close>. TOML
  deserialisation by \<open>serde\<close> is not modelled: a configuration is the deserialised value; loading one
  from a file is in theory \<open>Cli\<close>.
\<close>

type_synonym io_error = string

record 'net libs =
  net_prefix_len :: "'net \<Rightarrow> u8"
  net_contains :: "'net \<Rightarrow> ipv4 \<Rightarrow> bool"
  net_network :: "'net \<Rightarrow> ipv4"
  net_addr :: "'net \<Rightarrow> ipv4"
  base64_decode :: "string \<Rightarrow> bytes option"
  to_socket_addrs :: "string \<Rightarrow> u16 \<Rightarrow> (io_error, socket_addr list) result"

datatype transport_config = Udp | Tcp

record peer_endpoint =
  pe_host :: string
  pe_port :: u16
  pe_literal :: "socket_addr option"

record gateway_config =
  gw_lan_interface :: string
  gw_tcp_mss :: "u16 option"

record 'net interface_config =
  if_name :: string
  if_address :: 'net
  if_listen :: socket_addr
  if_transport :: transport_config
  if_mtu :: u16
  if_private_key :: string

record 'net peer_config =
  pc_name :: string
  pc_endpoint :: peer_endpoint
  pc_allowed_ips :: "'net list"
  pc_excluded_ips :: "'net list"
  pc_psk :: string
  pc_public_key :: string
  pc_persistent_keepalive :: u16
  pc_udp_rebind_after :: u16
  pc_session_timeout :: "u16 option"

record 'net config =
  cfg_interface :: "'net interface_config"
  cfg_gateway :: "gateway_config option"
  cfg_peer :: "'net peer_config list"

subsection \<open>Peer endpoints\<close>

datatype endpoint_parse_error = InvalidFormat | InvalidPort | InvalidDnsName

definition valid_dns_name :: "string \<Rightarrow> bool" where
  "valid_dns_name value0 =
    (let value = (if ends_with value0 ''.'' then take (length value0 - 1) value0 else value0) in
     value \<noteq> [] \<and> length value \<le> 253 \<and>
     list_all (\<lambda>label.
         label \<noteq> [] \<and> length label \<le> 63 \<and>
         \<not> starts_with label ''-'' \<and> \<not> ends_with label ''-'' \<and>
         list_all (\<lambda>b. is_ascii_alphanumeric b \<or> b = CHR ''-'') label)
       (split_on (CHR ''.'') value))"

definition show_endpoint :: "peer_endpoint \<Rightarrow> string" where
  "show_endpoint e =
    (case pe_literal e of
       Some literal \<Rightarrow> show_socket_addr literal
     | None \<Rightarrow> pe_host e @ '':'' @ show_nat (unat (pe_port e)))"

definition endpoint_of_addr :: "socket_addr \<Rightarrow> peer_endpoint" where
  "endpoint_of_addr a =
    \<lparr>pe_host = (case sa_ip a of IpV4 i \<Rightarrow> show_ipv4 i | IpV6 i \<Rightarrow> show_ipv6 i),
     pe_port = sa_port a, pe_literal = Some a\<rparr>"

definition endpoint_from_str :: "string \<Rightarrow> (endpoint_parse_error, peer_endpoint) result" where
  "endpoint_from_str value =
    (case parse_socket_addr value of
       Some literal \<Rightarrow> Ok (endpoint_of_addr literal)
     | None \<Rightarrow>
         (case rsplit_once (CHR '':'') value of
            None \<Rightarrow> Err InvalidFormat
          | Some (host, raw_port) \<Rightarrow>
              if host = [] \<or> CHR '':'' \<in> set host \<or> trim host \<noteq> host then Err InvalidFormat
              else
                (case parse_u16 raw_port of
                   None \<Rightarrow> Err InvalidPort
                 | Some port \<Rightarrow>
                     if \<not> valid_dns_name host then Err InvalidDnsName
                     else Ok \<lparr>pe_host = host, pe_port = port, pe_literal = None\<rparr>)))"

text \<open>What serde makes of the string of a configuration; \<open>custom\<close> wraps the message of an error.\<close>

fun show_endpoint_parse_error :: "endpoint_parse_error \<Rightarrow> string" where
  "show_endpoint_parse_error InvalidFormat = ''endpoint must be an IP address or DNS name followed by :port''"
| "show_endpoint_parse_error InvalidPort = ''endpoint has an invalid port''"
| "show_endpoint_parse_error InvalidDnsName = ''endpoint has an invalid DNS name''"

definition endpoint_deserialize ::
    "(string \<Rightarrow> 'e) \<Rightarrow> ('e, string) result \<Rightarrow> ('e, peer_endpoint) result" where
  "endpoint_deserialize custom deserialized =
    (case deserialized of
       Inl e \<Rightarrow> Err e
     | Inr value \<Rightarrow> map_err (\<lambda>e. custom (show_endpoint_parse_error e)) (endpoint_from_str value))"

definition is_dns_name :: "peer_endpoint \<Rightarrow> bool" where
  "is_dns_name e \<longleftrightarrow> pe_literal e = None"

definition endpoint_resolve ::
    "'net libs \<Rightarrow> peer_endpoint \<Rightarrow> (io_error, socket_addr) result" where
  "endpoint_resolve L e =
    (case pe_literal e of
       Some literal \<Rightarrow> Ok literal
     | None \<Rightarrow>
         (case to_socket_addrs L (pe_host e) (pe_port e) of
            Inl err \<Rightarrow> Err err
          | Inr addresses \<Rightarrow>
              ok_or (''DNS returned no addresses for '' @ pe_host e)
                (case find is_ipv4 addresses of
                   Some a \<Rightarrow> Some a
                 | None \<Rightarrow> (case addresses of [] \<Rightarrow> None | a # _ \<Rightarrow> Some a))))"

subsection \<open>Keys and timeouts\<close>

definition decode_key :: "'net libs \<Rightarrow> string \<Rightarrow> bytes option" where
  "decode_key L key =
    (case base64_decode L key of
       None \<Rightarrow> None
     | Some bs \<Rightarrow> if length bs \<noteq> 32 then None else Some bs)"

definition decode_psk :: "'net libs \<Rightarrow> string \<Rightarrow> bytes option" where
  "decode_psk L psk = decode_key L psk"

definition default_mtu :: u16 where
  "default_mtu = 1280"

definition effective_session_timeout :: "'net peer_config \<Rightarrow> transport_config \<Rightarrow> u64" where
  "effective_session_timeout p transport =
    (case pc_session_timeout p of
       Some timeout \<Rightarrow> ucast timeout
     | None \<Rightarrow>
         if transport = Tcp \<and> pc_persistent_keepalive p > 0
         then max (ucast (pc_persistent_keepalive p) * 3) 15
         else 0)"

subsection \<open>Validation\<close>

datatype 'net config_error =
    EmptyInterfaceName
  | EmptyPeerName
  | DuplicatePeerName string
  | DuplicatePeerPsk string string
  | DuplicatePeerPublicKey string string
  | PeerWithoutAllowedIps string
  | DuplicateExcludedIp string 'net
  | ExcludedIpNotCovered string 'net
  | ExcludedDefaultRoute string
  | MtuTooSmall u16
  | EmptyGatewayLanInterface
  | InvalidGatewayInterfaceName string
  | IdenticalGatewayInterfaces string
  | GatewayMssOutOfRange u16 u16 u16 u16
  | InvalidPsk string
  | InvalidPublicKey string
  | InvalidPrivateKey
  | UdpRebindRequiresUdp string
  | UdpRebindRequiresKeepalive string
  | UdpRebindTooSoon string u16 u16
  | SessionTimeoutRequiresKeepalive string
  | SessionTimeoutTooSoon string u16 u16

definition is_valid_linux_interface_name :: "string \<Rightarrow> bool" where
  "is_valid_linux_interface_name name \<longleftrightarrow>
    name \<noteq> [] \<and> length name \<le> 15 \<and>
    list_all (\<lambda>b. is_ascii_alphanumeric b \<or> b \<in> {CHR ''_'', CHR ''-'', CHR ''.''}) name"

text \<open>Sequencing of checks: the first failing check is the result.\<close>

definition check_then ::
    "('e, 'a) result \<Rightarrow> ('a \<Rightarrow> ('e, 'b) result) \<Rightarrow> ('e, 'b) result" where
  "check_then r k = (case r of Inl e \<Rightarrow> Err e | Inr x \<Rightarrow> k x)"

definition ensure :: "bool \<Rightarrow> 'e \<Rightarrow> ('e, unit) result" where
  "ensure b e = (if b then Ok () else Err e)"

lemma check_then_Ok [simp]: "check_then r k = Ok y \<longleftrightarrow> (\<exists>x. r = Ok x \<and> k x = Ok y)"
  by (cases r) (simp_all add: check_then_def)

lemma ensure_Ok [simp]: "ensure b e = Ok u \<longleftrightarrow> b"
  by (simp add: ensure_def)

definition validate_gateway :: "string \<Rightarrow> u16 \<Rightarrow> gateway_config \<Rightarrow> ('net config_error, unit) result" where
  "validate_gateway if_nm mtu gateway =
    (let lan = trim (gw_lan_interface gateway) in
     check_then (ensure (lan \<noteq> []) EmptyGatewayLanInterface) (\<lambda>_.
     check_then (ensure (is_valid_linux_interface_name if_nm)
                   (InvalidGatewayInterfaceName if_nm)) (\<lambda>_.
     check_then (ensure (is_valid_linux_interface_name lan)
                   (InvalidGatewayInterfaceName lan)) (\<lambda>_.
     check_then (ensure (lan \<noteq> if_nm) (IdenticalGatewayInterfaces lan)) (\<lambda>_.
     (case gw_tcp_mss gateway of
        None \<Rightarrow> Ok ()
      | Some mss \<Rightarrow>
          let maximum = mtu - 40; minimum = 536
          in ensure (minimum \<le> mss \<and> mss \<le> maximum)
               (GatewayMssOutOfRange mss minimum maximum mtu)))))))"

fun validate_exclusions ::
    "'net libs \<Rightarrow> 'net peer_config \<Rightarrow> 'net set \<Rightarrow> 'net list \<Rightarrow> ('net config_error, unit) result" where
  "validate_exclusions L p seen [] = Ok ()"
| "validate_exclusions L p seen (prefix # rest) =
    check_then (ensure (net_prefix_len L prefix \<noteq> 0) (ExcludedDefaultRoute (pc_name p))) (\<lambda>_.
    check_then (ensure (prefix \<notin> seen) (DuplicateExcludedIp (pc_name p) prefix)) (\<lambda>_.
    check_then (ensure
        (list_ex (\<lambda>allowed. net_prefix_len L allowed \<le> net_prefix_len L prefix
             \<and> net_contains L allowed (net_network L prefix)) (pc_allowed_ips p))
        (ExcludedIpNotCovered (pc_name p) prefix)) (\<lambda>_.
    validate_exclusions L p (insert prefix seen) rest)))"

definition validate_timers ::
    "transport_config \<Rightarrow> 'net peer_config \<Rightarrow> ('net config_error, unit) result" where
  "validate_timers transport p =
    check_then
      (if pc_udp_rebind_after p > 0 then
         check_then (ensure (transport = Udp) (UdpRebindRequiresUdp (pc_name p))) (\<lambda>_.
         check_then (ensure (pc_persistent_keepalive p \<noteq> 0)
                       (UdpRebindRequiresKeepalive (pc_name p))) (\<lambda>_.
         ensure (pc_udp_rebind_after p > pc_persistent_keepalive p)
           (UdpRebindTooSoon (pc_name p) (pc_udp_rebind_after p) (pc_persistent_keepalive p))))
       else Ok ()) (\<lambda>_.
    (case pc_session_timeout p of
       None \<Rightarrow> Ok ()
     | Some timeout \<Rightarrow>
         if timeout > 0 then
           check_then (ensure (pc_persistent_keepalive p \<noteq> 0)
                         (SessionTimeoutRequiresKeepalive (pc_name p))) (\<lambda>_.
           ensure (timeout > pc_persistent_keepalive p)
             (SessionTimeoutTooSoon (pc_name p) timeout (pc_persistent_keepalive p)))
         else Ok ()))"

text \<open>The loop over the peers, with its sets of names and maps of credentials.\<close>

fun validate_peers ::
    "'net libs \<Rightarrow> transport_config \<Rightarrow> string set \<Rightarrow> (bytes \<rightharpoonup> string) \<Rightarrow> (bytes \<rightharpoonup> string)
      \<Rightarrow> 'net peer_config list \<Rightarrow> ('net config_error, unit) result" where
  "validate_peers L transport names psks public_keys [] = Ok ()"
| "validate_peers L transport names psks public_keys (p # rest) =
    check_then (ensure (trim (pc_name p) \<noteq> []) EmptyPeerName) (\<lambda>_.
    check_then (ensure (pc_name p \<notin> names) (DuplicatePeerName (pc_name p))) (\<lambda>_.
    check_then (ensure (pc_allowed_ips p \<noteq> []) (PeerWithoutAllowedIps (pc_name p))) (\<lambda>_.
    check_then (validate_exclusions L p {} (pc_excluded_ips p)) (\<lambda>_.
    check_then (ok_or (InvalidPsk (pc_name p)) (decode_psk L (pc_psk p))) (\<lambda>psk.
    check_then (case psks psk of None \<Rightarrow> Ok () | Some first \<Rightarrow> Err (DuplicatePeerPsk first (pc_name p))) (\<lambda>_.
    check_then (ok_or (InvalidPublicKey (pc_name p)) (decode_key L (pc_public_key p))) (\<lambda>pk.
    check_then (case public_keys pk of None \<Rightarrow> Ok ()
                | Some first \<Rightarrow> Err (DuplicatePeerPublicKey first (pc_name p))) (\<lambda>_.
    check_then (validate_timers transport p) (\<lambda>_.
    validate_peers L transport (insert (pc_name p) names) (psks(psk \<mapsto> pc_name p))
      (public_keys(pk \<mapsto> pc_name p)) rest)))))))))"

definition validate :: "'net libs \<Rightarrow> 'net config \<Rightarrow> ('net config_error, unit) result" where
  "validate L cfg =
    (let i = cfg_interface cfg in
     check_then (ensure (trim (if_name i) \<noteq> []) EmptyInterfaceName) (\<lambda>_.
     check_then (ensure (if_mtu i \<ge> 576) (MtuTooSmall (if_mtu i))) (\<lambda>_.
     check_then (case cfg_gateway cfg of None \<Rightarrow> Ok ()
                 | Some gateway \<Rightarrow> validate_gateway (if_name i) (if_mtu i) gateway) (\<lambda>_.
     check_then (ensure (decode_key L (if_private_key i) \<noteq> None) InvalidPrivateKey) (\<lambda>_.
     validate_peers L (if_transport i) {} Map.empty Map.empty (cfg_peer cfg))))))"

subsection \<open>What validation establishes\<close>

definition exclusions_ok :: "'net libs \<Rightarrow> 'net peer_config \<Rightarrow> bool" where
  "exclusions_ok L p \<longleftrightarrow> distinct (pc_excluded_ips p) \<and>
    (\<forall>x \<in> set (pc_excluded_ips p). net_prefix_len L x \<noteq> 0 \<and>
      (\<exists>a \<in> set (pc_allowed_ips p).
        net_prefix_len L a \<le> net_prefix_len L x \<and> net_contains L a (net_network L x)))"

definition timers_ok :: "transport_config \<Rightarrow> 'net peer_config \<Rightarrow> bool" where
  "timers_ok transport p \<longleftrightarrow>
    (pc_udp_rebind_after p = 0 \<or>
       transport = Udp \<and> 0 < pc_persistent_keepalive p
       \<and> pc_persistent_keepalive p < pc_udp_rebind_after p) \<and>
    (case pc_session_timeout p of
       None \<Rightarrow> True
     | Some t \<Rightarrow> t = 0 \<or> 0 < pc_persistent_keepalive p \<and> pc_persistent_keepalive p < t)"

definition peer_ok :: "'net libs \<Rightarrow> transport_config \<Rightarrow> 'net peer_config \<Rightarrow> bool" where
  "peer_ok L transport p \<longleftrightarrow>
    trim (pc_name p) \<noteq> [] \<and> pc_allowed_ips p \<noteq> [] \<and> exclusions_ok L p \<and>
    decode_psk L (pc_psk p) \<noteq> None \<and> decode_key L (pc_public_key p) \<noteq> None \<and>
    timers_ok transport p"

definition gateway_ok :: "string \<Rightarrow> u16 \<Rightarrow> gateway_config \<Rightarrow> bool" where
  "gateway_ok if_nm mtu g \<longleftrightarrow>
    (let lan = trim (gw_lan_interface g) in
     lan \<noteq> [] \<and> is_valid_linux_interface_name if_nm \<and> is_valid_linux_interface_name lan
     \<and> lan \<noteq> if_nm
     \<and> (case gw_tcp_mss g of None \<Rightarrow> True | Some m \<Rightarrow> 536 \<le> m \<and> m \<le> mtu - 40))"

definition config_ok :: "'net libs \<Rightarrow> 'net config \<Rightarrow> bool" where
  "config_ok L cfg \<longleftrightarrow>
    (let i = cfg_interface cfg; ps = cfg_peer cfg in
     trim (if_name i) \<noteq> [] \<and> 576 \<le> if_mtu i
     \<and> (case cfg_gateway cfg of None \<Rightarrow> True | Some g \<Rightarrow> gateway_ok (if_name i) (if_mtu i) g)
     \<and> decode_key L (if_private_key i) \<noteq> None
     \<and> (\<forall>p \<in> set ps. peer_ok L (if_transport i) p)
     \<and> distinct (map pc_name ps)
     \<and> distinct (map (\<lambda>p. decode_psk L (pc_psk p)) ps)
     \<and> distinct (map (\<lambda>p. decode_key L (pc_public_key p)) ps))"

lemma validate_exclusions_Ok:
  "validate_exclusions L p seen xs = Ok () \<longleftrightarrow>
    distinct xs \<and> set xs \<inter> seen = {} \<and>
    (\<forall>x \<in> set xs. net_prefix_len L x \<noteq> 0 \<and>
      (\<exists>a \<in> set (pc_allowed_ips p).
        net_prefix_len L a \<le> net_prefix_len L x \<and> net_contains L a (net_network L x)))"
  by (induction xs arbitrary: seen) (auto simp: list_ex_iff)

lemma word_gt_0_iff: "0 < (w :: 'a::len word) \<longleftrightarrow> w \<noteq> 0"
  by (rule word_neq_0_conv [symmetric])

lemma validate_timers_Ok: "validate_timers transport p = Ok () \<longleftrightarrow> timers_ok transport p"
  by (cases "pc_session_timeout p") (auto simp: validate_timers_def timers_ok_def word_gt_0_iff)

lemma validate_gateway_Ok: "validate_gateway n mtu g = Ok () \<longleftrightarrow> gateway_ok n mtu g"
  by (auto simp: validate_gateway_def gateway_ok_def Let_def split: option.splits)

lemma validate_peers_Ok:
  "validate_peers L transport names psks pks ps = Ok () \<longleftrightarrow>
    (\<forall>p \<in> set ps. peer_ok L transport p \<and> pc_name p \<notin> names
       \<and> (\<forall>k. decode_psk L (pc_psk p) = Some k \<longrightarrow> psks k = None)
       \<and> (\<forall>k. decode_key L (pc_public_key p) = Some k \<longrightarrow> pks k = None))
    \<and> distinct (map pc_name ps)
    \<and> distinct (map (\<lambda>p. decode_psk L (pc_psk p)) ps)
    \<and> distinct (map (\<lambda>p. decode_key L (pc_public_key p)) ps)"
proof (induction ps arbitrary: names psks pks)
  case Nil
  then show ?case by simp
next
  case (Cons p ps)
  have ex: "validate_exclusions L p {} (pc_excluded_ips p) = Ok () \<longleftrightarrow> exclusions_ok L p"
    by (simp add: validate_exclusions_Ok exclusions_ok_def)
  show ?case
  proof (cases "\<exists>k k'. decode_psk L (pc_psk p) = Some k \<and> decode_key L (pc_public_key p) = Some k'")
    case True
    then obtain k k' where keys: "decode_psk L (pc_psk p) = Some k"
      "decode_key L (pc_public_key p) = Some k'" by blast
    show ?thesis
      by (cases "psks k"; cases "pks k'")
        (auto simp: Cons.IH ex validate_timers_Ok peer_ok_def keys image_iff)
  next
    case False
    then show ?thesis
      by (cases "decode_psk L (pc_psk p)"; cases "decode_key L (pc_public_key p)")
        (auto simp: peer_ok_def)
  qed
qed

lemma validate_Ok_iff: "validate L cfg = Ok () \<longleftrightarrow> config_ok L cfg"
  by (auto simp: validate_def config_ok_def validate_peers_Ok validate_gateway_Ok Let_def
      split: option.splits)

subsection \<open>A sample configuration\<close>

text \<open>
  A concrete instance of the crates and a two-peer configuration, at which the witnesses
  evaluate: a network is an address and a prefix length, a key is its own text, and the
  resolver knows one name.
\<close>

type_synonym demo_net = "ipv4 \<times> u8"

definition demo_contains :: "demo_net \<Rightarrow> ipv4 \<Rightarrow> bool" where
  "demo_contains n a =
    (drop_bit (32 - unat (snd n)) (fst n) = drop_bit (32 - unat (snd n)) a)"

definition demo_libs :: "demo_net libs" where
  "demo_libs = \<lparr>net_prefix_len = snd, net_contains = demo_contains, net_network = fst,
     net_addr = fst, base64_decode = (\<lambda>s. Some (map of_char s)),
     to_socket_addrs = (\<lambda>h p. Ok [V4 3221225995 p])\<rparr>"

definition demo_key :: "char \<Rightarrow> string" where
  "demo_key c = replicate 32 c"

definition demo_peer_a :: "demo_net peer_config" where
  "demo_peer_a = \<lparr>pc_name = ''a'', pc_endpoint = endpoint_of_addr (V4 3221225994 27777),
     pc_allowed_ips = [(0, 0)], pc_excluded_ips = [(167772160, 8)],
     pc_psk = demo_key (CHR ''p''), pc_public_key = demo_key (CHR ''k''),
     pc_persistent_keepalive = 25, pc_udp_rebind_after = 90, pc_session_timeout = None\<rparr>"

definition demo_peer_b :: "demo_net peer_config" where
  "demo_peer_b = \<lparr>pc_name = ''b'', pc_endpoint = endpoint_of_addr (V4 0 0),
     pc_allowed_ips = [(167772161, 32)], pc_excluded_ips = [],
     pc_psk = demo_key (CHR ''q''), pc_public_key = demo_key (CHR ''l''),
     pc_persistent_keepalive = 5, pc_udp_rebind_after = 0, pc_session_timeout = Some 20\<rparr>"

definition demo_config :: "demo_net config" where
  "demo_config = \<lparr>cfg_interface = \<lparr>if_name = ''tun0'', if_address = (167772162, 24),
      if_listen = V4 0 27777, if_transport = Udp, if_mtu = 1280, if_private_key = demo_key (CHR ''s'')\<rparr>,
     cfg_gateway = Some \<lparr>gw_lan_interface = ''eth0'', gw_tcp_mss = Some 1160\<rparr>,
     cfg_peer = [demo_peer_a, demo_peer_b]\<rparr>"

lemmas demo_defs = demo_libs_def demo_contains_def demo_key_def demo_peer_a_def demo_peer_b_def
  demo_config_def

lemma trim_plain [simp]:
  "trim ''tun0'' = ''tun0''" "trim ''eth0'' = ''eth0''" "trim ''a'' = ''a''" "trim ''b'' = ''b''"
  by (simp_all add: trim_alphanumeric is_ascii_alphanumeric_def is_ascii_digit_def)

lemma demo_validates: "validate demo_libs demo_config = Ok ()"
  unfolding validate_Ok_iff
  by (simp add: demo_defs config_ok_def peer_ok_def exclusions_ok_def timers_ok_def gateway_ok_def
      decode_psk_def decode_key_def is_valid_linux_interface_name_def is_ascii_alphanumeric_def
      is_ascii_digit_def Let_def)

subsection \<open>Properties\<close>

text \<open>C12: Validation accepts a configuration exactly when every documented rule holds: a
non-blank interface name, an MTU of at least 576, a sound gateway block, a 32-byte private key,
and for the peers non-blank unique names, at least one allowed prefix, covered and distinct
exclusions, valid and pairwise distinct PSKs and public keys, and timers longer than the
keepalive interval.\<close>

theorem validate_accepts_exactly: "validate L cfg = Ok () \<longleftrightarrow> config_ok L cfg"
  by (rule validate_Ok_iff)

text \<open>In a validated configuration the effective session timeout of every peer, explicit or
the TCP default of three keepalive intervals, is either disabled or strictly longer than an
enabled keepalive interval, so recovery never fires before a probe could have been answered.\<close>

lemma effective_timeout_exceeds_keepalive:
  assumes "validate L cfg = Ok ()" and "p \<in> set (cfg_peer cfg)"
  shows "effective_session_timeout p transport = 0
    \<or> 0 < pc_persistent_keepalive p
      \<and> unat (pc_persistent_keepalive p) < unat (effective_session_timeout p transport)"
proof (cases "pc_session_timeout p")
  case None
  let ?k = "pc_persistent_keepalive p"
  have k: "unat ?k < 65536" using unsigned_less [of ?k] by simp
  then have "unat (ucast ?k * 3 :: u64) = unat ?k * 3"
    by (simp add: unat_word_ariths)
  with None show ?thesis
    by (auto simp: effective_session_timeout_def max_def word_le_nat_alt word_less_nat_alt)
next
  case (Some t)
  from assms have "timers_ok (if_transport (cfg_interface cfg)) p"
    by (auto simp: validate_Ok_iff config_ok_def peer_ok_def Let_def)
  with Some show ?thesis
    by (auto simp: timers_ok_def effective_session_timeout_def word_less_nat_alt)
qed

lemma effective_timeout_exceeds_keepalive_witness:
  "unat (pc_persistent_keepalive demo_peer_b) < unat (effective_session_timeout demo_peer_b Udp)"
  using effective_timeout_exceeds_keepalive [OF demo_validates, of demo_peer_b Udp]
  by (simp add: demo_config_def) (simp add: demo_peer_b_def effective_session_timeout_def)

end
