(* ===== verification/Router.thy ===== *)
theory Router
  imports Config
begin

text \<open>
  \<^verbatim>\<open>src/src/router.rs\<close>: the routing table built from a validated configuration, the
  longest-prefix lookup with per-peer exclusions, and the peers whose transport endpoint
  the tunnel itself would capture. An x25519 public key is its 32 bytes. The two calls of
  \<open>expect\<close> are the error \<open>RouterPanic\<close>.
\<close>

record 'net peer =
  peer_name :: string
  peer_endpoint_addr :: socket_addr
  configured_endpoint :: peer_endpoint
  excluded_ips :: "'net list"
  peer_psk :: bytes
  peer_public_key :: bytes
  persistent_keepalive :: u16
  udp_rebind_after :: u16
  session_timeout :: u64

record 'net route =
  route_prefix :: 'net
  route_peer :: "'net peer"

record 'net router =
  routes :: "'net route list"
  excluded_routes :: "'net route list"

datatype 'net router_error =
    DuplicatePrefix 'net string string
  | EndpointResolution string peer_endpoint io_error
  | RouterPanic string

definition peer_from_config ::
    "'net libs \<Rightarrow> 'net peer_config \<Rightarrow> transport_config \<Rightarrow> ('net router_error, 'net peer) result" where
  "peer_from_config L cfg transport =
    check_then (ok_or (RouterPanic ''public_key validated by Config::load'')
                  (decode_key L (pc_public_key cfg))) (\<lambda>pk.
    check_then (map_err (EndpointResolution (pc_name cfg) (pc_endpoint cfg))
                  (endpoint_resolve L (pc_endpoint cfg))) (\<lambda>endpoint.
    check_then (ok_or (RouterPanic ''psk validated by Config::load'')
                  (decode_psk L (pc_psk cfg))) (\<lambda>psk.
    Ok \<lparr>peer_name = pc_name cfg, peer_endpoint_addr = endpoint,
        configured_endpoint = pc_endpoint cfg, excluded_ips = pc_excluded_ips cfg,
        peer_psk = psk, peer_public_key = pk,
        persistent_keepalive = pc_persistent_keepalive cfg,
        udp_rebind_after = pc_udp_rebind_after cfg,
        session_timeout = effective_session_timeout cfg transport\<rparr>)))"

fun add_allowed ::
    "'net peer \<Rightarrow> 'net list \<Rightarrow> 'net route list \<Rightarrow> ('net router_error, 'net route list) result" where
  "add_allowed peer [] rs = Ok rs"
| "add_allowed peer (prefix # rest) rs =
    (case find (\<lambda>r. route_prefix r = prefix) rs of
       Some existing \<Rightarrow> Err (DuplicatePrefix prefix (peer_name (route_peer existing)) (peer_name peer))
     | None \<Rightarrow> add_allowed peer rest (rs @ [\<lparr>route_prefix = prefix, route_peer = peer\<rparr>]))"

fun build_routes ::
    "'net libs \<Rightarrow> transport_config \<Rightarrow> 'net peer_config list \<Rightarrow> 'net route list \<Rightarrow> 'net route list
      \<Rightarrow> ('net router_error, 'net route list \<times> 'net route list) result" where
  "build_routes L transport [] rs ex = Ok (rs, ex)"
| "build_routes L transport (p # ps) rs ex =
    check_then (peer_from_config L p transport) (\<lambda>peer.
    check_then (add_allowed peer (pc_allowed_ips p) rs) (\<lambda>rs'.
    build_routes L transport ps rs'
      (ex @ map (\<lambda>x. \<lparr>route_prefix = x, route_peer = peer\<rparr>) (pc_excluded_ips p))))"

text \<open>\<open>sort_by_key\<close> with \<open>Reverse\<close> is the stable sort by descending length.\<close>

definition reverse_len :: "'net libs \<Rightarrow> 'net route \<Rightarrow> int" where
  "reverse_len L r = - uint (net_prefix_len L (route_prefix r))"

definition router_new :: "'net libs \<Rightarrow> 'net config \<Rightarrow> ('net router_error, 'net router) result" where
  "router_new L cfg =
    check_then (build_routes L (if_transport (cfg_interface cfg)) (cfg_peer cfg) [] [])
      (\<lambda>(rs, ex). Ok \<lparr>routes = sort_key (reverse_len L) rs,
                      excluded_routes = sort_key (reverse_len L) ex\<rparr>)"

definition most_specific_exclusion :: "'net libs \<Rightarrow> 'net peer \<Rightarrow> ipv4 \<Rightarrow> u8 option" where
  "most_specific_exclusion L p dest =
    (case filter (\<lambda>x. net_contains L x dest) (excluded_ips p) of
       [] \<Rightarrow> None
     | x # xs \<Rightarrow> Some (fold (\<lambda>y m. max m (net_prefix_len L y)) xs (net_prefix_len L x)))"

definition route_matches :: "'net libs \<Rightarrow> ipv4 \<Rightarrow> 'net route \<Rightarrow> bool" where
  "route_matches L dest r =
    (if \<not> net_contains L (route_prefix r) dest then False
     else
       case most_specific_exclusion L (route_peer r) dest of
         None \<Rightarrow> True
       | Some len \<Rightarrow> net_prefix_len L (route_prefix r) > len)"

definition lookup :: "'net libs \<Rightarrow> 'net router \<Rightarrow> ipv4 \<Rightarrow> 'net route option" where
  "lookup L R dest = find (route_matches L dest) (routes R)"

fun endpoint_exceptions ::
    "'net libs \<Rightarrow> 'net router \<Rightarrow> ip_addr set \<Rightarrow> 'net route list \<Rightarrow> 'net peer list" where
  "endpoint_exceptions L R seen [] = []"
| "endpoint_exceptions L R seen (r # rs) =
    (let p = route_peer r; ip = sa_ip (peer_endpoint_addr p) in
     case ip of
       IpV6 _ \<Rightarrow> endpoint_exceptions L R seen rs
     | IpV4 endpoint_ip \<Rightarrow>
         if sa_port (peer_endpoint_addr p) = 0 \<or> is_unspecified ip
         then endpoint_exceptions L R seen rs
         else if lookup L R endpoint_ip \<noteq> None \<and> ip \<notin> seen
         then p # endpoint_exceptions L R (insert ip seen) rs
         else endpoint_exceptions L R seen rs)"

definition endpoint_exception_peers :: "'net libs \<Rightarrow> 'net router \<Rightarrow> 'net peer list" where
  "endpoint_exception_peers L R = endpoint_exceptions L R {} (routes R)"

subsection \<open>Lookup\<close>

text \<open>A route is eligible if it covers the destination and every exclusion of its peer that
covers the destination is strictly shorter.\<close>

definition eligible :: "'net libs \<Rightarrow> ipv4 \<Rightarrow> 'net route \<Rightarrow> bool" where
  "eligible L dest r \<longleftrightarrow> net_contains L (route_prefix r) dest \<and>
    (\<forall>x \<in> set (excluded_ips (route_peer r)).
       net_contains L x dest \<longrightarrow> net_prefix_len L x < net_prefix_len L (route_prefix r))"

lemma fold_max_less:
  "fold (\<lambda>y m. max m (f y)) xs (a :: 'b::linorder) < b \<longleftrightarrow> a < b \<and> (\<forall>y \<in> set xs. f y < b)"
  by (induction xs arbitrary: a) auto

lemma route_matches_eligible: "route_matches L dest r \<longleftrightarrow> eligible L dest r"
proof (cases "filter (\<lambda>x. net_contains L x dest) (excluded_ips (route_peer r))")
  case Nil
  then show ?thesis
    by (auto simp: route_matches_def eligible_def most_specific_exclusion_def filter_empty_conv)
next
  case (Cons x xs)
  then have "set (x # xs) = {y \<in> set (excluded_ips (route_peer r)). net_contains L y dest}"
    by (metis set_filter)
  with Cons show ?thesis
    by (auto simp: route_matches_def eligible_def most_specific_exclusion_def fold_max_less)
qed

lemma find_sorted_key:
  assumes "sorted (map f xs)" and "find P xs = Some x"
  shows "x \<in> set xs \<and> P x \<and> (\<forall>y \<in> set xs. P y \<longrightarrow> f x \<le> f y)"
  using assms
proof (induction xs)
  case (Cons a xs)
  then show ?case by (cases "P a") (auto simp: sorted_wrt_map)
qed simp

lemma router_new_sorted:
  "router_new L cfg = Ok R \<Longrightarrow> sorted (map (reverse_len L) (routes R))"
  by (auto simp: router_new_def)

lemma reverse_len_le:
  "reverse_len L r \<le> reverse_len L r' \<longleftrightarrow>
    net_prefix_len L (route_prefix r') \<le> net_prefix_len L (route_prefix r)"
  by (simp add: reverse_len_def word_le_def)

subsection \<open>Construction\<close>

lemma add_allowed_Ok:
  assumes "add_allowed peer xs rs = Ok rs'"
  shows "rs' = rs @ map (\<lambda>x. \<lparr>route_prefix = x, route_peer = peer\<rparr>) xs"
    and "distinct (map route_prefix rs) \<Longrightarrow> distinct (map route_prefix rs')"
  using assms
  by (induction peer xs rs rule: add_allowed.induct)
    (auto split: option.splits simp: find_None_iff image_iff)

text \<open>The error of the loop over the prefixes is a genuine duplicate.\<close>

lemma add_allowed_Err:
  assumes "add_allowed peer xs rs = Err e"
  shows "\<exists>x a. e = DuplicatePrefix x a (peer_name peer) \<and> x \<in> set xs
    \<and> \<not> distinct (map route_prefix rs @ xs)"
  using assms
proof (induction peer xs rs rule: add_allowed.induct)
  case (2 peer prefix rest rs)
  show ?case
  proof (cases "find (\<lambda>r. route_prefix r = prefix) rs")
    case None
    from "2.IH" [OF None] "2.prems" None show ?thesis by auto
  next
    case (Some r)
    then have "r \<in> set rs" and "route_prefix r = prefix" by (auto simp: find_Some_iff)
    then have "prefix \<in> route_prefix ` set rs" by blast
    with Some "2.prems" show ?thesis by auto
  qed
qed simp

lemma build_routes_Ok:
  assumes "build_routes L transport ps rs ex = Ok (rs', ex')"
  shows "(distinct (map route_prefix rs) \<longrightarrow> distinct (map route_prefix rs'))
    \<and> set rs' = set rs \<union> {r. \<exists>p \<in> set ps. peer_from_config L p transport = Ok (route_peer r)
         \<and> route_prefix r \<in> set (pc_allowed_ips p)}
    \<and> set ex' = set ex \<union> {r. \<exists>p \<in> set ps. peer_from_config L p transport = Ok (route_peer r)
         \<and> route_prefix r \<in> set (pc_excluded_ips p)}"
  using assms
proof (induction ps arbitrary: rs ex)
  case Nil
  then show ?case by simp
next
  case (Cons p ps)
  from Cons.prems obtain peer rs1 where peer: "peer_from_config L p transport = Ok peer"
    and rs1: "add_allowed peer (pc_allowed_ips p) rs = Ok rs1"
    and rest: "build_routes L transport ps rs1
      (ex @ map (\<lambda>x. \<lparr>route_prefix = x, route_peer = peer\<rparr>) (pc_excluded_ips p)) = Ok (rs', ex')"
    by auto
  have set_map: "set (map (\<lambda>x. \<lparr>route_prefix = x, route_peer = peer\<rparr>) xs)
      = {r. peer_from_config L p transport = Ok (route_peer r) \<and> route_prefix r \<in> set xs}" for xs
  proof (rule set_eqI)
    fix r
    show "r \<in> set (map (\<lambda>x. \<lparr>route_prefix = x, route_peer = peer\<rparr>) xs) \<longleftrightarrow>
      r \<in> {r. peer_from_config L p transport = Ok (route_peer r) \<and> route_prefix r \<in> set xs}"
      by (cases r) (auto simp: peer)
  qed
  show ?case
    using Cons.IH [OF rest] add_allowed_Ok [OF rs1]
    by (simp only: set_append set_map) auto
qed

lemma router_new_routes:
  assumes "router_new L cfg = Ok R"
  shows "distinct (map route_prefix (routes R))"
    and "r \<in> set (routes R) \<longleftrightarrow>
      (\<exists>p \<in> set (cfg_peer cfg). peer_from_config L p (if_transport (cfg_interface cfg)) = Ok (route_peer r)
         \<and> route_prefix r \<in> set (pc_allowed_ips p))"
    and "r \<in> set (excluded_routes R) \<longleftrightarrow>
      (\<exists>p \<in> set (cfg_peer cfg). peer_from_config L p (if_transport (cfg_interface cfg)) = Ok (route_peer r)
         \<and> route_prefix r \<in> set (pc_excluded_ips p))"
proof -
  from assms obtain rs ex where b: "build_routes L (if_transport (cfg_interface cfg)) (cfg_peer cfg) [] [] = Ok (rs, ex)"
    and R: "routes R = sort_key (reverse_len L) rs" "excluded_routes R = sort_key (reverse_len L) ex"
    by (auto simp: router_new_def)
  note facts = build_routes_Ok [OF b]
  from facts have "distinct (map route_prefix rs)" by simp
  then show "distinct (map route_prefix (routes R))"
    unfolding R by (simp add: distinct_map)
  from facts show "r \<in> set (routes R) \<longleftrightarrow>
      (\<exists>p \<in> set (cfg_peer cfg). peer_from_config L p (if_transport (cfg_interface cfg)) = Ok (route_peer r)
         \<and> route_prefix r \<in> set (pc_allowed_ips p))"
    and "r \<in> set (excluded_routes R) \<longleftrightarrow>
      (\<exists>p \<in> set (cfg_peer cfg). peer_from_config L p (if_transport (cfg_interface cfg)) = Ok (route_peer r)
         \<and> route_prefix r \<in> set (pc_excluded_ips p))"
    unfolding R by auto
qed

lemma peer_from_config_Ok:
  assumes "peer_from_config L p transport = Ok q"
  shows "peer_name q = pc_name p" "excluded_ips q = pc_excluded_ips p"
    "decode_psk L (pc_psk p) = Some (peer_psk q)"
    "decode_key L (pc_public_key p) = Some (peer_public_key q)"
    "endpoint_resolve L (pc_endpoint p) = Ok (peer_endpoint_addr q)"
    "session_timeout q = effective_session_timeout p transport"
  using assms by (auto simp: peer_from_config_def)

lemma build_routes_peers:
  assumes "build_routes L transport ps rs ex = Ok r" and "p \<in> set ps"
  shows "\<exists>q. peer_from_config L p transport = Ok q"
  using assms by (induction ps arbitrary: rs ex) auto

text \<open>A validated configuration never reaches an \<open>expect\<close>.\<close>

lemma peer_from_config_no_panic:
  assumes "peer_ok L transport p"
  shows "peer_from_config L p transport \<noteq> Err (RouterPanic s)"
  using assms
  by (auto simp: peer_from_config_def peer_ok_def check_then_def map_err_def split: sum.splits)

lemma build_routes_no_panic:
  assumes "\<forall>p \<in> set ps. peer_ok L transport p"
  shows "build_routes L transport ps rs ex \<noteq> Err (RouterPanic s)"
  using assms
proof (induction ps arbitrary: rs ex)
  case (Cons p ps)
  show ?case
  proof (cases "peer_from_config L p transport")
    case (Inl e)
    with peer_from_config_no_panic [of L transport p s] Cons.prems show ?thesis
      by (simp add: check_then_def)
  next
    case (Inr peer)
    show ?thesis
    proof (cases "add_allowed peer (pc_allowed_ips p) rs")
      case (Inl e)
      with add_allowed_Err [OF Inl] Inr show ?thesis by (auto simp: check_then_def)
    next
      case (Inr rs')
      with \<open>peer_from_config L p transport = Ok peer\<close> Cons show ?thesis
        by (simp add: check_then_def)
    qed
  qed
qed simp

subsection \<open>Endpoint exceptions\<close>

definition captured :: "'net libs \<Rightarrow> 'net router \<Rightarrow> 'net peer \<Rightarrow> bool" where
  "captured L R p \<longleftrightarrow> sa_port (peer_endpoint_addr p) \<noteq> 0 \<and>
    (\<exists>a. sa_ip (peer_endpoint_addr p) = IpV4 a \<and> a \<noteq> 0 \<and> lookup L R a \<noteq> None)"

lemma endpoint_exceptions_spec:
  "distinct (map (\<lambda>p. sa_ip (peer_endpoint_addr p)) (endpoint_exceptions L R seen rs))
    \<and> (\<forall>p \<in> set (endpoint_exceptions L R seen rs).
         captured L R p \<and> p \<in> route_peer ` set rs \<and> sa_ip (peer_endpoint_addr p) \<notin> seen)
    \<and> (\<forall>r \<in> set rs. captured L R (route_peer r) \<longrightarrow>
         sa_ip (peer_endpoint_addr (route_peer r)) \<in> seen
           \<union> (\<lambda>p. sa_ip (peer_endpoint_addr p)) ` set (endpoint_exceptions L R seen rs))"
proof (induction rs arbitrary: seen)
  case Nil
  then show ?case by simp
next
  case (Cons r rs)
  let ?ip = "sa_ip (peer_endpoint_addr (route_peer r))"
  show ?case
  proof (cases "captured L R (route_peer r) \<and> ?ip \<notin> seen")
    case True
    then have "endpoint_exceptions L R seen (r # rs) =
        route_peer r # endpoint_exceptions L R (insert ?ip seen) rs"
      by (auto simp: captured_def)
    with True Cons.IH [of "insert ?ip seen"] show ?thesis by auto
  next
    case False
    then have "endpoint_exceptions L R seen (r # rs) = endpoint_exceptions L R seen rs"
      by (auto simp: captured_def Let_def split: ip_addr.splits)
    with False Cons.IH [of seen] show ?thesis by auto
  qed
qed

subsection \<open>Properties\<close>

text \<open>C11: Lookup in a constructed router is longest-prefix matching with exclusions: it finds
nothing exactly when no route is eligible (covers the destination and is strictly longer than
every exclusion of its peer that covers it), and otherwise returns an eligible route of maximal
prefix length.\<close>

theorem lookup_longest_prefix:
  assumes "router_new L cfg = Ok R"
  shows "(lookup L R dest = None \<longleftrightarrow> (\<forall>r \<in> set (routes R). \<not> eligible L dest r))
    \<and> (\<forall>r. lookup L R dest = Some r \<longrightarrow> r \<in> set (routes R) \<and> eligible L dest r
         \<and> (\<forall>r' \<in> set (routes R). eligible L dest r' \<longrightarrow>
              net_prefix_len L (route_prefix r') \<le> net_prefix_len L (route_prefix r)))"
  using find_sorted_key [OF router_new_sorted [OF assms], of "route_matches L dest"]
  by (auto simp: lookup_def find_None_iff route_matches_eligible reverse_len_le)

definition demo_router :: "demo_net router" where
  "demo_router = (case router_new demo_libs demo_config of Inr R \<Rightarrow> R | Inl e \<Rightarrow> \<lparr>routes = [], excluded_routes = []\<rparr>)"

lemma demo_router_new: "router_new demo_libs demo_config = Ok demo_router"
  and demo_router_names: "map (\<lambda>r. peer_name (route_peer r)) (routes demo_router) = [''b'', ''a'']"
  by (simp_all add: demo_router_def router_new_def demo_defs peer_from_config_def decode_key_def
      decode_psk_def endpoint_resolve_def endpoint_of_addr_def check_then_def reverse_len_def)

theorem lookup_longest_prefix_witness:
  "lookup demo_libs demo_router 0 = None \<longleftrightarrow>
    (\<forall>r \<in> set (routes demo_router). \<not> eligible demo_libs 0 r)"
  using lookup_longest_prefix [OF demo_router_new, of 0] by blast

text \<open>The routes of a constructed router are exactly the pairs of a configured peer and one of
its allowed prefixes, no prefix occurs twice, and the recorded exclusions are exactly the
configured ones.\<close>

lemma router_new_exact:
  assumes "router_new L cfg = Ok R"
  shows "distinct (map route_prefix (routes R))
    \<and> (\<lambda>r. (route_prefix r, peer_name (route_peer r))) ` set (routes R)
        = {(x, pc_name p) |x p. p \<in> set (cfg_peer cfg) \<and> x \<in> set (pc_allowed_ips p)}
    \<and> (\<lambda>r. (route_prefix r, peer_name (route_peer r))) ` set (excluded_routes R)
        = {(x, pc_name p) |x p. p \<in> set (cfg_peer cfg) \<and> x \<in> set (pc_excluded_ips p)}"
proof -
  let ?t = "if_transport (cfg_interface cfg)"
  from assms have peers: "\<exists>q. peer_from_config L p ?t = Ok q" if "p \<in> set (cfg_peer cfg)" for p
    using build_routes_peers [OF _ that] by (auto simp: router_new_def)
  have image: "(\<lambda>r. (route_prefix r, peer_name (route_peer r))) ` S
      = {(x, pc_name p) |x p. p \<in> set (cfg_peer cfg) \<and> x \<in> set (f p)}"
    if S: "\<And>r. r \<in> S \<longleftrightarrow> (\<exists>p \<in> set (cfg_peer cfg).
        peer_from_config L p ?t = Ok (route_peer r) \<and> route_prefix r \<in> set (f p))" for S :: "'a route set" and f
  proof (intro set_eqI iffI)
    fix y assume "y \<in> (\<lambda>r. (route_prefix r, peer_name (route_peer r))) ` S"
    with S show "y \<in> {(x, pc_name p) |x p. p \<in> set (cfg_peer cfg) \<and> x \<in> set (f p)}"
      by (fastforce simp: peer_from_config_Ok(1))
  next
    fix y assume "y \<in> {(x, pc_name p) |x p. p \<in> set (cfg_peer cfg) \<and> x \<in> set (f p)}"
    then obtain x p where y: "y = (x, pc_name p)" "p \<in> set (cfg_peer cfg)" "x \<in> set (f p)" by blast
    with peers obtain q where q: "peer_from_config L p ?t = Ok q" by blast
    with y S have "\<lparr>route_prefix = x, route_peer = q\<rparr> \<in> S" by auto
    with y peer_from_config_Ok(1) [OF q]
    show "y \<in> (\<lambda>r. (route_prefix r, peer_name (route_peer r))) ` S" by force
  qed
  show ?thesis
    using router_new_routes(1) [OF assms]
      image [of "set (routes R)", OF router_new_routes(2) [OF assms]]
      image [of "set (excluded_routes R)", OF router_new_routes(3) [OF assms]]
    by simp
qed

lemma router_new_exact_witness:
  "distinct (map route_prefix (routes demo_router))"
  using router_new_exact [OF demo_router_new] by blast

text \<open>For a validated configuration, building the router never panics: the keys that
\<open>expect\<close> takes as decoded by validation do decode, so the only failures are a duplicate prefix
or an endpoint that does not resolve.\<close>

lemma validated_router_never_panics:
  assumes "validate L cfg = Ok ()"
  shows "router_new L cfg \<noteq> Err (RouterPanic s)"
proof -
  from assms have "\<forall>p \<in> set (cfg_peer cfg). peer_ok L (if_transport (cfg_interface cfg)) p"
    by (auto simp: validate_Ok_iff config_ok_def Let_def)
  from build_routes_no_panic [OF this] show ?thesis
    by (auto simp: router_new_def check_then_def split: sum.splits)
qed

lemma validated_router_never_panics_witness:
  "router_new demo_libs demo_config \<noteq> Err (RouterPanic ''psk validated by Config::load'')"
  by (rule validated_router_never_panics [OF demo_validates])

text \<open>The endpoint exceptions are one representative per captured endpoint address: their
addresses are pairwise distinct, each belongs to a routed peer with a usable IPv4 endpoint that
the routing table would itself send into the tunnel, and every such peer's address is
represented.\<close>

lemma endpoint_exceptions_exact:
  "distinct (map (\<lambda>p. sa_ip (peer_endpoint_addr p)) (endpoint_exception_peers L R))
    \<and> set (endpoint_exception_peers L R) \<subseteq> {p \<in> route_peer ` set (routes R). captured L R p}
    \<and> (\<lambda>p. sa_ip (peer_endpoint_addr p)) ` set (endpoint_exception_peers L R)
        = (\<lambda>p. sa_ip (peer_endpoint_addr p)) ` {p \<in> route_peer ` set (routes R). captured L R p}"
  using endpoint_exceptions_spec [of L R "{}" "routes R"]
  unfolding endpoint_exception_peers_def by fastforce

end
