(* ===== verification/Engine.thy ===== *)
theory Engine
  imports Session_Props Packet PeerState Router
begin

text \<open>
  The \<open>Engine\<close> of \<^verbatim>\<open>src/src/engine.rs\<close>: it routes outbound IP packets into sessions,
  answers handshakes, decrypts inbound frames, learns roaming endpoints and tells the adapter
  what to send or deliver. Every operation takes the engine and the world and returns its
  result with the engine and world after it, also when it fails: the effects that precede an
  early return stay.
\<close>

datatype engine_action =
    SendTransport string socket_addr bytes
  | WriteIpPacket string socket_addr bytes

datatype handshake_role = Initiator | Responder

datatype engine_event = HandshakeCompleted string socket_addr handshake_role

record engine_output =
  out_actions :: "engine_action list"
  out_events :: "engine_event list"

definition no_output :: engine_output where
  "no_output = \<lparr>out_actions = [], out_events = []\<rparr>"

datatype 'net engine_error =
    EngineInvalidPrivateKey
  | EngineRouter "'net router_error"
  | EnginePacket packet_error
  | EngineNoise noise_error
  | UnknownPeer string
  | InvalidPeerEndpoint socket_addr

record ('net, 'hs, 'ts) engine =
  en_router :: "'net router"
  local_static :: bytes
  en_sessions :: "('hs, 'ts) session_state"
  en_peers :: peer_state
  resolved_endpoints :: "(string, socket_addr) hmap"

definition engine_with_router ::
    "'net libs \<Rightarrow> 'net config \<Rightarrow> 'net router \<Rightarrow> ('net engine_error, ('net, 'hs, 'ts) engine) result" where
  "engine_with_router L cfg R =
    check_then (ok_or EngineInvalidPrivateKey (decode_key L (if_private_key (cfg_interface cfg))))
      (\<lambda>k. Ok \<lparr>en_router = R, local_static = k, en_sessions = session_manager_new,
               en_peers = [], resolved_endpoints = []\<rparr>)"

definition engine_new ::
    "'net libs \<Rightarrow> 'net config \<Rightarrow> ('net engine_error, ('net, 'hs, 'ts) engine) result" where
  "engine_new L cfg =
    check_then (map_err EngineRouter (router_new L cfg)) (engine_with_router L cfg)"

definition usable_peer_endpoint :: "socket_addr \<Rightarrow> bool" where
  "usable_peer_endpoint endpoint \<longleftrightarrow> \<not> is_unspecified (sa_ip endpoint) \<and> sa_port endpoint \<noteq> 0"

definition engine_peer :: "('net, 'hs, 'ts) engine \<Rightarrow> string \<Rightarrow> 'net peer option" where
  "engine_peer en name =
    map_option route_peer (find (\<lambda>r. peer_name (route_peer r) = name) (routes (en_router en)))"

definition configured_endpoint_of :: "('net, 'hs, 'ts) engine \<Rightarrow> 'net peer \<Rightarrow> socket_addr" where
  "configured_endpoint_of en p =
    (case hm_get (resolved_endpoints en) (peer_name p) of
       None \<Rightarrow> peer_endpoint_addr p | Some endpoint \<Rightarrow> endpoint)"

definition opt_filter :: "('a \<Rightarrow> bool) \<Rightarrow> 'a option \<Rightarrow> 'a option" where
  "opt_filter f x = (case x of None \<Rightarrow> None | Some y \<Rightarrow> if f y then Some y else None)"

definition resolve_endpoint :: "('net, 'hs, 'ts) engine \<Rightarrow> 'net peer \<Rightarrow> socket_addr option" where
  "resolve_endpoint en p =
    (let learned = opt_filter usable_peer_endpoint
           (Option.bind (hm_get (en_peers en) (peer_name p)) current_endpoint);
         chosen = (case learned of None \<Rightarrow> Some (configured_endpoint_of en p) | Some e \<Rightarrow> Some e)
     in opt_filter usable_peer_endpoint chosen)"

definition initiate_peer ::
    "('hs, 'ts, 'w) runtime \<Rightarrow> ('net, 'hs, 'ts) engine \<Rightarrow> 'net peer \<Rightarrow> instant \<Rightarrow> 'w
      \<Rightarrow> (noise_error, engine_action option) result \<times> ('net, 'hs, 'ts) engine \<times> 'w" where
  "initiate_peer E en p now w =
    (case resolve_endpoint en p of
       None \<Rightarrow> (Ok None, en, w)
     | Some endpoint \<Rightarrow>
         case start_or_retry_handshake E (en_sessions en) (peer_name p) (local_static en)
                (peer_public_key p) (peer_psk p) now w of (r, st', w') \<Rightarrow>
           (case r of
              Inl e \<Rightarrow> Err e
            | Inr frame \<Rightarrow> Ok (map_option (SendTransport (peer_name p) endpoint) frame),
            en\<lparr>en_sessions := st'\<rparr>, w'))"

text \<open>\<open>if let Some(action) = self.initiate_peer(peer, now)? { output.actions.push(action) }\<close>
followed by the given rest.\<close>

definition push_initiation ::
    "('hs, 'ts, 'w) runtime \<Rightarrow> ('net, 'hs, 'ts) engine \<Rightarrow> 'net peer \<Rightarrow> instant
      \<Rightarrow> (('net, 'hs, 'ts) engine \<Rightarrow> engine_action list \<Rightarrow> engine_action list) \<Rightarrow> 'w
      \<Rightarrow> ('net engine_error, engine_output) result \<times> ('net, 'hs, 'ts) engine \<times> 'w" where
  "push_initiation E en p now rest w =
    (case initiate_peer E en p now w of
       (Inl e, en', w') \<Rightarrow> (Err (EngineNoise e), en', w')
     | (Inr action, en', w') \<Rightarrow>
         let actions = (case action of None \<Rightarrow> [] | Some a \<Rightarrow> [a])
         in (Ok (no_output\<lparr>out_actions := rest en' actions\<rparr>), en', w'))"

text \<open>The \<open>match\<close> on \<open>encrypt_for_peer\<close>, in the same words in \<open>process_outbound_ip\<close> and
\<open>create_keepalive\<close>.\<close>

definition encrypt_or_initiate ::
    "('hs, 'ts, 'w) runtime \<Rightarrow> ('net, 'hs, 'ts) engine \<Rightarrow> 'net peer \<Rightarrow> string \<Rightarrow> msg_type \<Rightarrow> bytes \<Rightarrow> instant \<Rightarrow> 'w
      \<Rightarrow> ('net engine_error, engine_output) result \<times> ('net, 'hs, 'ts) engine \<times> 'w" where
  "encrypt_or_initiate E en p name m payload now w =
    (case encrypt_for_peer E (en_sessions en) name m payload now of (r, st1) \<Rightarrow>
       let en1 = en\<lparr>en_sessions := st1\<rparr> in
       case r of
         Inr (Some frame) \<Rightarrow>
           push_initiation E en1 p now
             (\<lambda>en2 actions. case resolve_endpoint en2 p of
                None \<Rightarrow> actions
              | Some endpoint \<Rightarrow> actions @ [SendTransport name endpoint frame]) w
       | Inr None \<Rightarrow> push_initiation E en1 p now (\<lambda>_ actions. actions) w
       | Inl _ \<Rightarrow>
           let en2 = en1\<lparr>en_sessions := snd (invalidate_peer (en_sessions en1) name)\<rparr>
           in push_initiation E en2 p now (\<lambda>_ actions. actions) w)"

definition process_outbound_ip ::
    "'net libs \<Rightarrow> ('hs, 'ts, 'w) runtime \<Rightarrow> ('net, 'hs, 'ts) engine \<Rightarrow> bytes \<Rightarrow> instant \<Rightarrow> 'w
      \<Rightarrow> ('net engine_error, engine_output) result \<times> ('net, 'hs, 'ts) engine \<times> 'w" where
  "process_outbound_ip L E en packet now w =
    (case ipv4_parse packet of
       Inl e \<Rightarrow> (Err (EnginePacket e), en, w)
     | Inr ipv4 \<Rightarrow>
         case lookup L (en_router en) (ipv4_destination ipv4) of
           None \<Rightarrow> (Ok no_output, en, w)
         | Some route \<Rightarrow>
             let p = route_peer route
             in encrypt_or_initiate E en p (peer_name p) Data packet now w)"

fun decode_handshake_init ::
    "('hs, 'ts, 'w) runtime \<Rightarrow> bytes \<Rightarrow> bytes \<Rightarrow> bytes \<Rightarrow> string set \<Rightarrow> 'net route list \<Rightarrow> 'w
      \<Rightarrow> (string \<times> 'ts responder_handshake) option \<times> 'w" where
  "decode_handshake_init E k hid message checked [] w = (None, w)"
| "decode_handshake_init E k hid message checked (r # rs) w =
    (let p = route_peer r in
     if peer_name p \<in> checked then decode_handshake_init E k hid message checked rs w
     else
       case responder_respond E k (peer_public_key p) (peer_psk p) hid message w of
         (Inr handshake, w') \<Rightarrow> (Some (peer_name p, handshake), w')
       | (Inl _, w') \<Rightarrow>
           decode_handshake_init E k hid message (insert (peer_name p) checked) rs w')"

definition inbound_init ::
    "('hs, 'ts, 'w) runtime \<Rightarrow> ('net, 'hs, 'ts) engine \<Rightarrow> bytes \<Rightarrow> bytes \<Rightarrow> socket_addr \<Rightarrow> 'w
      \<Rightarrow> ('net engine_error, engine_output) result \<times> ('net, 'hs, 'ts) engine \<times> 'w" where
  "inbound_init E en hid message source w =
    (case decode_handshake_init E (local_static en) hid message {} (routes (en_router en)) w of
       (None, w1) \<Rightarrow> (Ok no_output, en, w1)
     | (Some (name, handshake), w1) \<Rightarrow>
         case accept_inbound_initiation E (en_sessions en) name hid
                (opt_test (\<lambda>p. \<not> usable_peer_endpoint (peer_endpoint_addr p)) (engine_peer en name)) w1 of
           (accepted, st1, w2) \<Rightarrow>
         let en1 = en\<lparr>en_sessions := st1\<rparr> in
         if \<not> accepted then (Ok no_output, en1, w2)
         else
           case cached_responder_response E (en_sessions en1) name hid message w2 of
             (cached, st2, w3) \<Rightarrow>
           let en2 = en1\<lparr>en_sessions := st2\<rparr> in
           case cached of
             Some response \<Rightarrow>
               (Ok (no_output\<lparr>out_actions := [SendTransport name source response]\<rparr>), en2, w3)
           | None \<Rightarrow>
               let response = encode_handshake HandshakeResponse hid (rh_message handshake) in
               case store_responder_candidate E (en_sessions en2) name (rh_session handshake)
                      hid message response w3 of (stored, st3, w4) \<Rightarrow>
                 (Ok (no_output\<lparr>out_actions :=
                    if stored then [SendTransport name source response] else []\<rparr>),
                  en2\<lparr>en_sessions := st3\<rparr>, w4))"

definition inbound_response ::
    "('hs, 'ts, 'w) runtime \<Rightarrow> ('net, 'hs, 'ts) engine \<Rightarrow> bytes \<Rightarrow> bytes \<Rightarrow> socket_addr \<Rightarrow> 'w
      \<Rightarrow> ('net engine_error, engine_output) result \<times> ('net, 'hs, 'ts) engine \<times> 'w" where
  "inbound_response E en hid message source w =
    (case finalize_initiator E (en_sessions en) hid message w of (r, st1, w1) \<Rightarrow>
       let en1 = en\<lparr>en_sessions := st1\<rparr> in
       case r of
         Inl e \<Rightarrow> (Err (EngineNoise e), en1, w1)
       | Inr None \<Rightarrow> (Ok no_output, en1, w1)
       | Inr (Some (name, confirmation)) \<Rightarrow>
           case instant_now E w1 of (t, w2) \<Rightarrow>
             (Ok \<lparr>out_actions = [SendTransport name source confirmation],
                  out_events = [HandshakeCompleted name source Initiator]\<rparr>,
              en1\<lparr>en_peers := record_keepalive (en_peers en1) name source t\<rparr>, w2))"

definition inbound_transport ::
    "('hs, 'ts, 'w) runtime \<Rightarrow> ('net, 'hs, 'ts) engine \<Rightarrow> bytes \<Rightarrow> u64 \<Rightarrow> bytes \<Rightarrow> socket_addr \<Rightarrow> instant \<Rightarrow> 'w
      \<Rightarrow> ('net engine_error, engine_output) result \<times> ('net, 'hs, 'ts) engine \<times> 'w" where
  "inbound_transport E en sid counter ct source now w =
    (case decrypt_transport E (en_sessions en) sid counter ct now of (r, st1) \<Rightarrow>
       let en1 = en\<lparr>en_sessions := st1\<rparr> in
       case r of
         Inl e \<Rightarrow> (Err (EngineNoise e), en1, w)
       | Inr None \<Rightarrow> (Ok no_output, en1, w)
       | Inr (Some d) \<Rightarrow>
           let name = dt_peer_name d;
               events = (if dt_promoted d then [HandshakeCompleted name source Responder] else [])
           in
           case instant_now E w of (t, w1) \<Rightarrow>
           (case dt_msg_type d of
              Keepalive \<Rightarrow>
                let en2 = en1\<lparr>en_peers := record_keepalive (en_peers en1) name source t\<rparr> in
                if dt_payload d = KEEPALIVE_PROBE_PAYLOAD then
                  case encrypt_for_peer E (en_sessions en2) name Keepalive KEEPALIVE_ACK_PAYLOAD now of
                    (Inl e, st2) \<Rightarrow> (Err (EngineNoise e), en2\<lparr>en_sessions := st2\<rparr>, w1)
                  | (Inr ack, st2) \<Rightarrow>
                      (Ok \<lparr>out_actions = (case ack of None \<Rightarrow> [] | Some a \<Rightarrow> [SendTransport name source a]),
                           out_events = events\<rparr>, en2\<lparr>en_sessions := st2\<rparr>, w1)
                else (Ok \<lparr>out_actions = [], out_events = events\<rparr>, en2, w1)
            | Data \<Rightarrow>
                let en2 = en1\<lparr>en_peers := record_rx (en_peers en1) name source (length (dt_payload d)) t\<rparr> in
                case ipv4_parse (dt_payload d) of
                  Inl e \<Rightarrow> (Err (EnginePacket e), en2, w1)
                | Inr _ \<Rightarrow>
                    (Ok \<lparr>out_actions = [WriteIpPacket name source (dt_payload d)], out_events = events\<rparr>,
                     en2, w1)))"

definition process_inbound_transport ::
    "('hs, 'ts, 'w) runtime \<Rightarrow> ('net, 'hs, 'ts) engine \<Rightarrow> bytes \<Rightarrow> socket_addr \<Rightarrow> instant \<Rightarrow> 'w
      \<Rightarrow> ('net engine_error, engine_output) result \<times> ('net, 'hs, 'ts) engine \<times> 'w" where
  "process_inbound_transport E en frame source now w =
    (case decode_packet frame of
       None \<Rightarrow> (Ok no_output, en, w)
     | Some (PHandshake HandshakeInit hid message) \<Rightarrow> inbound_init E en hid message source w
     | Some (PHandshake HandshakeResponse hid message) \<Rightarrow> inbound_response E en hid message source w
     | Some (PHandshake Transport _ _) \<Rightarrow> (Ok no_output, en, w)
     | Some (PTransport sid counter ct) \<Rightarrow> inbound_transport E en sid counter ct source now w)"

definition record_transport_sent :: "('net, 'hs, 'ts) engine \<Rightarrow> string \<Rightarrow> nat \<Rightarrow> ('net, 'hs, 'ts) engine" where
  "record_transport_sent en name n = en\<lparr>en_peers := record_tx (en_peers en) name n\<rparr>"

definition engine_invalidate_peer ::
    "('net, 'hs, 'ts) engine \<Rightarrow> string \<Rightarrow> bool \<times> ('net, 'hs, 'ts) engine" where
  "engine_invalidate_peer en name =
    (case invalidate_peer (en_sessions en) name of (removed, st') \<Rightarrow>
       (removed, en\<lparr>en_sessions := st'\<rparr>))"

definition update_resolved_endpoint ::
    "('net, 'hs, 'ts) engine \<Rightarrow> string \<Rightarrow> socket_addr
      \<Rightarrow> ('net engine_error, bool) result \<times> ('net, 'hs, 'ts) engine" where
  "update_resolved_endpoint en name endpoint =
    (if \<not> usable_peer_endpoint endpoint then (Err (InvalidPeerEndpoint endpoint), en)
     else
       case engine_peer en name of
         None \<Rightarrow> (Err (UnknownPeer name), en)
       | Some p \<Rightarrow>
           let previous = configured_endpoint_of en p in
           if previous = endpoint then (Ok False, en)
           else
             let en1 = en\<lparr>resolved_endpoints := hm_insert name endpoint (resolved_endpoints en)\<rparr>;
                 en2 = en1\<lparr>en_peers := clear_endpoint (en_peers en1) name\<rparr>;
                 en3 = en2\<lparr>en_sessions := snd (invalidate_peer (en_sessions en2) name)\<rparr>
             in (Ok True, en3))"

definition initiate_handshake ::
    "('hs, 'ts, 'w) runtime \<Rightarrow> ('net, 'hs, 'ts) engine \<Rightarrow> string \<Rightarrow> instant \<Rightarrow> 'w
      \<Rightarrow> ('net engine_error, engine_output) result \<times> ('net, 'hs, 'ts) engine \<times> 'w" where
  "initiate_handshake E en name now w =
    (case engine_peer en name of
       None \<Rightarrow> (Err (UnknownPeer name), en, w)
     | Some p \<Rightarrow> push_initiation E en p now (\<lambda>_ actions. actions) w)"

definition create_keepalive ::
    "('hs, 'ts, 'w) runtime \<Rightarrow> ('net, 'hs, 'ts) engine \<Rightarrow> string \<Rightarrow> bytes \<Rightarrow> instant \<Rightarrow> 'w
      \<Rightarrow> ('net engine_error, engine_output) result \<times> ('net, 'hs, 'ts) engine \<times> 'w" where
  "create_keepalive E en name payload now w =
    (case engine_peer en name of
       None \<Rightarrow> (Err (UnknownPeer name), en, w)
     | Some p \<Rightarrow> encrypt_or_initiate E en p name Keepalive payload now w)"

text \<open>What an adapter reads.\<close>

definition engine_peer_stats :: "('net, 'hs, 'ts) engine \<Rightarrow> peer_state" where
  "engine_peer_stats en = en_peers en"

definition engine_active_session_id :: "('net, 'hs, 'ts) engine \<Rightarrow> string \<Rightarrow> bytes option" where
  "engine_active_session_id en name = active_session_id (en_sessions en) name"

definition has_pending_handshake :: "('net, 'hs, 'ts) engine \<Rightarrow> string \<Rightarrow> bool" where
  "has_pending_handshake en name = has_pending_init (en_sessions en) name"

definition engine_has_active_session ::
    "('hs, 'ts, 'w) runtime \<Rightarrow> ('net, 'hs, 'ts) engine \<Rightarrow> string \<Rightarrow> 'w \<Rightarrow> bool \<times> 'w" where
  "engine_has_active_session E en name w = has_active_session E (en_sessions en) name w"

end
