(* ===== verification/Engine_Props.thy ===== *)
theory Engine_Props
  imports Engine
begin

text \<open>
  The engine is a client of the session manager: every engine operation is a sequence of
  manager calls, so the manager's invariant and guarantees hold in every state the engine can
  reach. On top of that: what may be sent where, what may be delivered, and what may change the
  endpoint of a peer.
\<close>

subsection \<open>Engine operations are sequences of manager calls\<close>

definition sm_path :: "('hs, 'ts, 'w) runtime \<Rightarrow> ('hs, 'ts) session_state \<Rightarrow> ('hs, 'ts) session_state \<Rightarrow> bool" where
  "sm_path E st st' \<longleftrightarrow> (\<forall>log. \<exists>log'. (sm_step E)\<^sup>*\<^sup>* (st, log) (st', log'))"

lemma sm_path_refl [simp]: "sm_path E st st"
  by (auto simp: sm_path_def)

lemma sm_path_trans: "sm_path E st st1 \<Longrightarrow> sm_path E st1 st2 \<Longrightarrow> sm_path E st st2"
  unfolding sm_path_def by (meson rtranclp_trans)

lemma sm_path_step: "(\<And>log. \<exists>log'. sm_step E (st, log) (st', log')) \<Longrightarrow> sm_path E st st'"
  unfolding sm_path_def by (meson r_into_rtranclp)

lemma sm_paths:
  "encrypt_for_peer E st p m payload now = (r, st') \<Longrightarrow> sm_path E st st'"
  "decrypt_transport E st sid c ct now = (r1, st') \<Longrightarrow> sm_path E st st'"
  "cached_responder_response E st p hid request w = (resp, st', w') \<Longrightarrow> sm_path E st st'"
  "accept_inbound_initiation E st p hid passive w = (ok, st', w') \<Longrightarrow> sm_path E st st'"
  "start_or_retry_handshake E st p k rk psk now w = (r, st', w') \<Longrightarrow> sm_path E st st'"
  "finalize_initiator E st hid response w = (r2, st', w') \<Longrightarrow> sm_path E st st'"
  "invalidate_peer st p = (removed, st') \<Longrightarrow> sm_path E st st'"
  by (rule sm_path_step; blast intro: sm_step.intros)+

lemma sm_path_store:
  assumes "responder_respond E k rk psk hid msg w = (Ok rh, w1)"
    and "store_responder_candidate E st p (rh_session rh) hid request response w2 = (ok, st', w3)"
  shows "sm_path E st st'"
  by (rule sm_path_step) (use step_store [OF assms] in blast)

lemma sm_path_invalidate: "sm_path E st (snd (invalidate_peer st p))"
  by (cases "invalidate_peer st p") (auto intro: sm_paths)

lemma initiate_path:
  "initiate_peer E en p now w = (r, en', w') \<Longrightarrow> sm_path E (en_sessions en) (en_sessions en')"
  by (auto simp: initiate_peer_def split: option.splits prod.splits dest: sm_paths(5))

lemma push_path:
  "push_initiation E en p now rest w = (r, en', w') \<Longrightarrow> sm_path E (en_sessions en) (en_sessions en')"
  by (auto simp: push_initiation_def Let_def split: prod.splits sum.splits dest: initiate_path)

lemma encrypt_or_initiate_path:
  assumes "encrypt_or_initiate E en p name m payload now w = (r, en', w')"
  shows "sm_path E (en_sessions en) (en_sessions en')"
proof -
  obtain q st1 where q: "encrypt_for_peer E (en_sessions en) name m payload now = (q, st1)"
    by (cases "encrypt_for_peer E (en_sessions en) name m payload now")
  obtain st2 rest where p: "push_initiation E (en\<lparr>en_sessions := st2\<rparr>) p now rest w = (r, en', w')"
    and st2: "sm_path E st1 st2"
    using assms q sm_path_invalidate [of E st1 name]
    by (auto simp: encrypt_or_initiate_def Let_def split: sum.splits option.splits)
  from sm_paths(1) [OF q] st2 push_path [OF p] show ?thesis
    by (auto intro: sm_path_trans)
qed

lemma decode_handshake_init_Some:
  assumes "decode_handshake_init E k hid message checked rs w = (Some (name, rh), w')"
  shows "\<exists>r \<in> set rs. peer_name (route_peer r) = name \<and>
    (\<exists>w1. responder_respond E k (peer_public_key (route_peer r)) (peer_psk (route_peer r)) hid message w1 = (Ok rh, w'))"
  using assms
  by (induction E k hid message checked rs w rule: decode_handshake_init.induct)
    (auto simp: Let_def split: if_splits prod.splits sum.splits)

lemma inbound_init_path:
  assumes "inbound_init E en hid message source w = (r, en', w')"
  shows "sm_path E (en_sessions en) (en_sessions en')"
proof (cases "decode_handshake_init E (local_static en) hid message {} (routes (en_router en)) w")
  case (Pair d w1)
  show ?thesis
  proof (cases d)
    case None
    with Pair assms show ?thesis by (simp add: inbound_init_def)
  next
    case (Some nh)
    obtain name h where nh: "nh = (name, h)" by (cases nh)
    from decode_handshake_init_Some [OF Pair [unfolded Some nh]] obtain rk psk w0 where
      h: "responder_respond E (local_static en) rk psk hid message w0 = (Ok h, w1)" by blast
    obtain acc st1 w2 where a: "accept_inbound_initiation E (en_sessions en) name hid
        (opt_test (\<lambda>p. \<not> usable_peer_endpoint (peer_endpoint_addr p)) (engine_peer en name)) w1 = (acc, st1, w2)"
      by (rule prod_cases3)
    obtain c st2 w3 where c: "cached_responder_response E st1 name hid message w2 = (c, st2, w3)"
      by (rule prod_cases3)
    obtain b st3 w4 where s: "store_responder_candidate E st2 name (rh_session h) hid message
        (encode_handshake HandshakeResponse hid (rh_message h)) w3 = (b, st3, w4)"
      by (rule prod_cases3)
    have "en_sessions en' \<in> {st1, st2, st3}"
      using assms Pair Some nh a c s
      by (auto simp: inbound_init_def Let_def split: if_splits option.splits)
    with sm_paths(4) [OF a] sm_paths(3) [OF c] sm_path_store [OF h s] show ?thesis
      by (auto intro: sm_path_trans)
  qed
qed

lemma inbound_response_path:
  assumes "inbound_response E en hid message source w = (r, en', w')"
  shows "sm_path E (en_sessions en) (en_sessions en')"
proof -
  obtain q st1 w1 where q: "finalize_initiator E (en_sessions en) hid message w = (q, st1, w1)"
    by (rule prod_cases3)
  with assms have "en_sessions en' = st1"
    by (auto simp: inbound_response_def Let_def split: sum.splits option.splits prod.splits)
  with sm_paths(6) [OF q] show ?thesis by simp
qed

lemma inbound_transport_path:
  assumes "inbound_transport E en sid c ct source now w = (r, en', w')"
  shows "sm_path E (en_sessions en) (en_sessions en')"
proof -
  obtain q st1 where q: "decrypt_transport E (en_sessions en) sid c ct now = (q, st1)"
    by (cases "decrypt_transport E (en_sessions en) sid c ct now")
  have "en_sessions en' = st1
      \<or> (\<exists>name a. encrypt_for_peer E st1 name Keepalive KEEPALIVE_ACK_PAYLOAD now = (a, en_sessions en'))"
    using assms q
    by (auto simp: inbound_transport_def Let_def
        split: sum.splits option.splits prod.splits msg_type.splits if_splits)
  with sm_paths(2) [OF q] show ?thesis by (auto intro: sm_path_trans sm_paths(1))
qed

lemma inbound_path:
  assumes "process_inbound_transport E en frame source now w = (r, en', w')"
  shows "sm_path E (en_sessions en) (en_sessions en')"
  using assms
  by (auto simp: process_inbound_transport_def split: option.splits parsed_packet.splits packet_kind.splits
      dest: inbound_init_path inbound_response_path inbound_transport_path)

lemma outbound_path:
  assumes "process_outbound_ip L E en packet now w = (r, en', w')"
  shows "sm_path E (en_sessions en) (en_sessions en')"
  using assms
  by (auto simp: process_outbound_ip_def Let_def split: sum.splits option.splits dest: encrypt_or_initiate_path)

subsection \<open>What an operation leaves alone\<close>

definition same_setup :: "('net, 'hs, 'ts) engine \<Rightarrow> ('net, 'hs, 'ts) engine \<Rightarrow> bool" where
  "same_setup en en' \<longleftrightarrow> en_router en' = en_router en \<and> local_static en' = local_static en"

lemma same_setup_refl [simp]: "same_setup en en"
  by (simp add: same_setup_def)

lemma initiate_keeps:
  "initiate_peer E en p now w = (r, en', w') \<Longrightarrow>
    same_setup en en' \<and> en_peers en' = en_peers en \<and> resolved_endpoints en' = resolved_endpoints en"
  by (auto simp: initiate_peer_def same_setup_def split: option.splits prod.splits)

lemma push_keeps:
  "push_initiation E en p now rest w = (r, en', w') \<Longrightarrow>
    same_setup en en' \<and> en_peers en' = en_peers en \<and> resolved_endpoints en' = resolved_endpoints en"
  by (auto simp: push_initiation_def Let_def split: prod.splits sum.splits dest: initiate_keeps)

lemma encrypt_or_initiate_keeps:
  "encrypt_or_initiate E en p name m payload now w = (r, en', w') \<Longrightarrow>
    same_setup en en' \<and> en_peers en' = en_peers en \<and> resolved_endpoints en' = resolved_endpoints en"
  by (auto simp: encrypt_or_initiate_def Let_def same_setup_def split: prod.splits sum.splits option.splits
      dest!: push_keeps)

lemma inbound_init_keeps:
  "inbound_init E en hid message source w = (r, en', w') \<Longrightarrow>
    same_setup en en' \<and> en_peers en' = en_peers en \<and> resolved_endpoints en' = resolved_endpoints en"
  by (auto simp: inbound_init_def Let_def same_setup_def split: prod.splits if_splits option.splits)

lemma inbound_response_keeps:
  "inbound_response E en hid message source w = (r, en', w') \<Longrightarrow>
    same_setup en en' \<and> resolved_endpoints en' = resolved_endpoints en"
  by (auto simp: inbound_response_def Let_def same_setup_def split: prod.splits sum.splits option.splits)

lemma inbound_transport_keeps:
  "inbound_transport E en sid c ct source now w = (r, en', w') \<Longrightarrow>
    same_setup en en' \<and> resolved_endpoints en' = resolved_endpoints en"
  by (auto simp: inbound_transport_def Let_def same_setup_def
      split: prod.splits sum.splits option.splits msg_type.splits if_splits)

lemma inbound_keeps:
  "process_inbound_transport E en frame source now w = (r, en', w') \<Longrightarrow>
    same_setup en en' \<and> resolved_endpoints en' = resolved_endpoints en"
  by (auto simp: process_inbound_transport_def split: option.splits parsed_packet.splits packet_kind.splits
      dest: inbound_init_keeps inbound_response_keeps inbound_transport_keeps)

lemma outbound_keeps:
  "process_outbound_ip L E en packet now w = (r, en', w') \<Longrightarrow>
    same_setup en en' \<and> en_peers en' = en_peers en \<and> resolved_endpoints en' = resolved_endpoints en"
  by (auto simp: process_outbound_ip_def Let_def split: sum.splits option.splits dest: encrypt_or_initiate_keeps)

subsection \<open>The engine as a state machine\<close>

inductive engine_step ::
    "'net libs \<Rightarrow> ('hs, 'ts, 'w) runtime \<Rightarrow> ('net, 'hs, 'ts) engine \<Rightarrow> ('net, 'hs, 'ts) engine \<Rightarrow> bool"
  for L E where
  do_outbound: "process_outbound_ip L E en packet now w = (r, en', w') \<Longrightarrow> engine_step L E en en'"
| do_inbound: "process_inbound_transport E en frame source now w = (r, en', w') \<Longrightarrow> engine_step L E en en'"
| do_sent: "engine_step L E en (record_transport_sent en name n)"
| do_invalidate: "engine_invalidate_peer en name = (removed, en') \<Longrightarrow> engine_step L E en en'"
| do_update: "update_resolved_endpoint en name endpoint = (r1, en') \<Longrightarrow> engine_step L E en en'"
| do_initiate: "initiate_handshake E en name now w = (r, en', w') \<Longrightarrow> engine_step L E en en'"
| do_keepalive: "create_keepalive E en name payload now w = (r, en', w') \<Longrightarrow> engine_step L E en en'"

lemma update_keeps:
  assumes "update_resolved_endpoint en name endpoint = (r, en')"
  shows "same_setup en en'" and "sm_path E (en_sessions en) (en_sessions en')"
  using assms sm_path_invalidate [of E "en_sessions en" name]
  by (auto simp: update_resolved_endpoint_def Let_def same_setup_def split: if_splits option.splits)

lemma engine_step_path:
  assumes "engine_step L E en en'"
  shows "same_setup en en' \<and> sm_path E (en_sessions en) (en_sessions en')"
  using assms
proof (cases rule: engine_step.cases)
  case do_outbound
  then show ?thesis by (auto dest: outbound_keeps outbound_path)
next
  case do_inbound
  then show ?thesis by (auto dest: inbound_keeps inbound_path)
next
  case do_sent
  then show ?thesis by (simp add: record_transport_sent_def same_setup_def)
next
  case (do_invalidate name removed)
  then show ?thesis
    by (auto simp: engine_invalidate_peer_def same_setup_def split: prod.splits dest: sm_paths(7))
next
  case (do_update name endpoint r1)
  from update_keeps [OF this] show ?thesis by blast
next
  case do_initiate
  then show ?thesis
    by (auto simp: initiate_handshake_def split: option.splits dest: push_keeps push_path)
next
  case do_keepalive
  then show ?thesis
    by (auto simp: create_keepalive_def split: option.splits
        dest: encrypt_or_initiate_keeps encrypt_or_initiate_path)
qed

definition engine_inv ::
    "('hs, 'ts, 'w) runtime \<Rightarrow> 'net router \<Rightarrow> bytes \<Rightarrow> ('net, 'hs, 'ts) engine \<Rightarrow> bool" where
  "engine_inv E R k en \<longleftrightarrow> en_router en = R \<and> local_static en = k
    \<and> (\<exists>log. sm_reachable E (en_sessions en) log)"

definition engine_start :: "'net router \<Rightarrow> bytes \<Rightarrow> ('net, 'hs, 'ts) engine" where
  "engine_start R k = \<lparr>en_router = R, local_static = k, en_sessions = session_manager_new,
     en_peers = [], resolved_endpoints = []\<rparr>"

interpretation packet_engine: state_machine "\<lambda>en. en = engine_start R k" "engine_step L E" "engine_inv E R k"
  for L E R k
proof
  fix en en' :: "('a, 'b, 'c) engine"
  show "engine_inv E R k en" if "en = engine_start R k"
    using that by (auto simp: engine_inv_def engine_start_def intro!: exI [of _ "{}"] reachable.start)
  show "engine_inv E R k en'" if inv: "engine_inv E R k en" and step: "engine_step L E en en'"
  proof -
    from inv obtain log where reach: "sm_reachable E (en_sessions en) log" by (auto simp: engine_inv_def)
    from engine_step_path [OF step] obtain log' where same: "same_setup en en'"
      and "(sm_step E)\<^sup>*\<^sup>* (en_sessions en, log) (en_sessions en', log')"
      by (auto simp: sm_path_def)
    from manager.reachable_steps [OF this(2) reach] same inv show ?thesis
      by (auto simp: engine_inv_def same_setup_def)
  qed
qed

abbreviation engine_reachable ::
    "'net libs \<Rightarrow> ('hs, 'ts, 'w) runtime \<Rightarrow> 'net router \<Rightarrow> bytes \<Rightarrow> ('net, 'hs, 'ts) engine \<Rightarrow> bool" where
  "engine_reachable L E R k \<equiv> reachable (\<lambda>en. en = engine_start R k) (engine_step L E)"

lemma engine_reachable_wf:
  "engine_reachable L E R k en \<Longrightarrow> \<exists>log. sm_inv (en_sessions en) log"
  using packet_engine.reachable_inv [of R k L E en] sm_reachable_inv by (auto simp: engine_inv_def)

subsection \<open>Endpoints\<close>

lemma opt_filter_Some: "opt_filter f x = Some y \<longleftrightarrow> x = Some y \<and> f y"
  by (auto simp: opt_filter_def split: option.splits)

lemma resolve_usable: "resolve_endpoint en p = Some ep \<Longrightarrow> usable_peer_endpoint ep"
  by (simp add: resolve_endpoint_def Let_def opt_filter_Some)

lemma resolve_same:
  "en_peers en' = en_peers en \<Longrightarrow> resolved_endpoints en' = resolved_endpoints en \<Longrightarrow>
    resolve_endpoint en' p = resolve_endpoint en p"
  unfolding resolve_endpoint_def configured_endpoint_of_def by (simp only:)

lemma resolve_cases:
  "resolve_endpoint en p =
    (case opt_filter usable_peer_endpoint (learned_endpoint (en_peers en) (peer_name p)) of
       Some ep \<Rightarrow> Some ep
     | None \<Rightarrow> if usable_peer_endpoint (configured_endpoint_of en p)
               then Some (configured_endpoint_of en p) else None)"
  by (auto simp: resolve_endpoint_def learned_endpoint_def opt_filter_def Let_def split: option.splits)

subsection \<open>Outbound\<close>

text \<open>The frame that carries a message to a peer: its live active session encrypts it under its next
counter. There is none without such a session or when the cipher refuses.\<close>

definition message_frames ::
    "('hs, 'ts, 'w) runtime \<Rightarrow> ('hs, 'ts) session_state \<Rightarrow> string \<Rightarrow> msg_type \<Rightarrow> bytes \<Rightarrow> instant \<Rightarrow> bytes list" where
  "message_frames E st name m payload now =
    (case hm_get (sessions st) name of
       None \<Rightarrow> []
     | Some s \<Rightarrow>
         if is_expired s now then []
         else
           let plaintext = encode_transport_plaintext m payload in
           case ts_write E (transport s) (send_counter s) plaintext (length plaintext + AEAD_TAG_SIZE) of
             Inl e \<Rightarrow> []
           | Inr ct \<Rightarrow> [encode_transport (session_id s) (send_counter s) ct])"

text \<open>A handshake initiation for a peer: the stored one of the pending exchange, or a new one.\<close>

definition hello_frame ::
    "('hs, 'ts, 'w) runtime \<Rightarrow> ('net, 'hs, 'ts) engine \<Rightarrow> 'net peer \<Rightarrow> 'w \<Rightarrow> bytes \<Rightarrow> bool" where
  "hello_frame E en p w frame \<longleftrightarrow>
    (\<exists>x. hm_get (pending_init (en_sessions en)) (peer_name p) = Some x \<and> frame = pi_packet x)
    \<or> (\<exists>ih w'. initiator_start E (local_static en) (peer_public_key p) (peer_psk p) w = (Ok ih, w')
        \<and> frame = encode_handshake HandshakeInit (ih_handshake_id ih) (ih_message ih))"

lemma encrypt_for_peer_frames:
  assumes "encrypt_for_peer E st name m payload now = (q, st1)"
  shows "message_frames E st name m payload now = (case q of Inr (Some frame) \<Rightarrow> [frame] | _ \<Rightarrow> [])"
    and "pending_init st1 = pending_init st"
proof -
  show "pending_init st1 = pending_init st"
    using assms by (auto simp: encrypt_for_peer_def drop_expired_active_def Let_def split: option.splits prod.splits if_splits)
  show "message_frames E st name m payload now = (case q of Inr (Some frame) \<Rightarrow> [frame] | _ \<Rightarrow> [])"
  proof (cases "\<exists>s. hm_get (sessions st) name = Some s \<and> \<not> is_expired s now")
    case False
    with assms show ?thesis
      by (auto simp: message_frames_def encrypt_for_peer_def drop_expired_active_def Let_def opt_test_def
          split: option.splits)
  next
    case True
    then obtain s where s: "hm_get (sessions st) name = Some s" "\<not> is_expired s now" by blast
    then have "send_counter s \<noteq> - 1" by (simp add: is_expired_def)
    from encrypt_advances(1) [OF this, of E m payload] s assms show ?thesis
      by (auto simp: message_frames_def encrypt_for_peer_def drop_expired_active_def opt_test_def Let_def split: sum.splits)
  qed
qed

lemma start_or_retry_frames:
  assumes "start_or_retry_handshake E st name k rk psk now w = (r, st', w')"
  shows "case r of
      Inl n \<Rightarrow> initiator_start E k rk psk w = (Err n, w')
    | Inr None \<Rightarrow> True
    | Inr (Some frame) \<Rightarrow>
        (\<exists>x. hm_get (pending_init st) name = Some x \<and> frame = pi_packet x)
        \<or> (\<exists>ih. initiator_start E k rk psk w = (Ok ih, w')
            \<and> frame = encode_handshake HandshakeInit (ih_handshake_id ih) (ih_message ih))"
  using assms
  by (auto simp: start_or_retry_handshake_def Let_def split: if_splits option.splits sum.splits prod.splits)

lemma initiate_frames:
  assumes "initiate_peer E en p now w = (r, en', w')"
  shows "case resolve_endpoint en p of
      None \<Rightarrow> r = Ok None
    | Some ep \<Rightarrow>
        (case r of
           Inl n \<Rightarrow> initiator_start E (local_static en) (peer_public_key p) (peer_psk p) w = (Err n, w')
         | Inr action \<Rightarrow> (\<exists>hello. length hello \<le> 1 \<and> (\<forall>f \<in> set hello. hello_frame E en p w f)
             \<and> (case action of None \<Rightarrow> [] | Some a \<Rightarrow> [a]) = map (SendTransport (peer_name p) ep) hello))"
proof (cases "resolve_endpoint en p")
  case None
  with assms show ?thesis by (simp add: initiate_peer_def)
next
  case (Some ep)
  obtain q st' w1 where q: "start_or_retry_handshake E (en_sessions en) (peer_name p) (local_static en)
      (peer_public_key p) (peer_psk p) now w = (q, st', w1)" by (rule prod_cases3)
  note frames = start_or_retry_frames [OF q]
  show ?thesis
  proof (cases q)
    case (Inl n)
    with frames assms q Some show ?thesis by (auto simp: initiate_peer_def)
  next
    case (Inr f)
    then have r: "r = Ok (map_option (SendTransport (peer_name p) ep) f)" "w' = w1"
      using assms q Some by (simp_all add: initiate_peer_def)
    from frames Inr have "\<forall>x \<in> set_option f. hello_frame E en p w x"
      by (auto simp: hello_frame_def split: option.splits)
    then have "length (case f of None \<Rightarrow> [] | Some x \<Rightarrow> [x]) \<le> 1
        \<and> (\<forall>x \<in> set (case f of None \<Rightarrow> [] | Some x \<Rightarrow> [x]). hello_frame E en p w x)
        \<and> (case map_option (SendTransport (peer_name p) ep) f of None \<Rightarrow> [] | Some a \<Rightarrow> [a])
          = map (SendTransport (peer_name p) ep) (case f of None \<Rightarrow> [] | Some x \<Rightarrow> [x])"
      by (cases f) simp_all
    then show ?thesis unfolding Some r(1) option.case sum.case by blast
  qed
qed

text \<open>What is sent to a peer at once: at most one handshake initiation, then the message.\<close>

definition sends_message ::
    "('hs, 'ts, 'w) runtime \<Rightarrow> ('net, 'hs, 'ts) engine \<Rightarrow> 'net peer \<Rightarrow> bytes list \<Rightarrow> 'w
      \<Rightarrow> ('net engine_error, engine_output) result \<Rightarrow> bool" where
  "sends_message E en p frames w r \<longleftrightarrow>
    (case resolve_endpoint en p of
       None \<Rightarrow> r = Ok no_output
     | Some ep \<Rightarrow>
         (case r of
            Inl e \<Rightarrow> (\<exists>n w'. e = EngineNoise n
              \<and> initiator_start E (local_static en) (peer_public_key p) (peer_psk p) w = (Err n, w'))
          | Inr out \<Rightarrow> out_events out = []
              \<and> (\<exists>hello. length hello \<le> 1 \<and> (\<forall>f \<in> set hello. hello_frame E en p w f)
                  \<and> out_actions out = map (SendTransport (peer_name p) ep) (hello @ frames))))"

lemma push_sends:
  assumes "push_initiation E en p now rest w = (r, en', w')"
    and rest: "\<And>en2 actions. resolve_endpoint en2 p = resolve_endpoint en p \<Longrightarrow> rest en2 actions = actions @
      (case resolve_endpoint en p of None \<Rightarrow> [] | Some ep \<Rightarrow> map (SendTransport (peer_name p) ep) frames)"
  shows "sends_message E en p frames w r"
proof -
  obtain q en1 w1 where q: "initiate_peer E en p now w = (q, en1, w1)" by (rule prod_cases3)
  from initiate_keeps [OF q] have same: "resolve_endpoint en1 p = resolve_endpoint en p" by (intro resolve_same) simp_all
  note hello = initiate_frames [OF q]
  show ?thesis
  proof (cases "resolve_endpoint en p")
    case None
    with hello assms(1) q rest [OF same] show ?thesis
      by (auto simp: push_initiation_def sends_message_def no_output_def)
  next
    case (Some ep)
    show ?thesis
    proof (cases q)
      case (Inl n)
      with hello assms(1) q Some show ?thesis by (auto simp: push_initiation_def sends_message_def)
    next
      case (Inr action)
      with hello Some obtain greeting where g: "length greeting \<le> 1" "\<forall>f \<in> set greeting. hello_frame E en p w f"
        "(case action of None \<Rightarrow> [] | Some a \<Rightarrow> [a]) = map (SendTransport (peer_name p) ep) greeting" by auto
      have "r = Ok (no_output\<lparr>out_actions := map (SendTransport (peer_name p) ep) (greeting @ frames)\<rparr>)"
        using assms(1) q Inr rest [OF same] Some g(3) by (simp add: push_initiation_def Let_def)
      then show ?thesis
        unfolding sends_message_def Some option.case using g(1,2) by (auto simp: no_output_def)
    qed
  qed
qed

lemma sends_message_earlier:
  assumes sends: "sends_message E (en\<lparr>en_sessions := st\<rparr>) p frames w r"
    and pending: "\<And>x. hm_get (pending_init st) (peer_name p) = Some x
      \<Longrightarrow> hm_get (pending_init (en_sessions en)) (peer_name p) = Some x"
  shows "sends_message E en p frames w r"
proof -
  have same: "resolve_endpoint (en\<lparr>en_sessions := st\<rparr>) p = resolve_endpoint en p" by (rule resolve_same) simp_all
  have hello: "hello_frame E en p w f" if "hello_frame E (en\<lparr>en_sessions := st\<rparr>) p w f" for f
    using that pending unfolding hello_frame_def by fastforce
  show ?thesis
  proof (cases r)
    case (Inl e)
    with sends show ?thesis unfolding sends_message_def same by (auto split: option.splits)
  next
    case (Inr out)
    with sends show ?thesis
      unfolding sends_message_def same by (auto split: option.splits dest!: hello)
  qed
qed

lemma encrypt_or_initiate_sends:
  assumes "encrypt_or_initiate E en p (peer_name p) m payload now w = (r, en', w')"
  shows "sends_message E en p (message_frames E (en_sessions en) (peer_name p) m payload now) w r"
proof -
  obtain q st1 where q: "encrypt_for_peer E (en_sessions en) (peer_name p) m payload now = (q, st1)"
    by (cases "encrypt_for_peer E (en_sessions en) (peer_name p) m payload now")
  let ?en = "\<lambda>st. en\<lparr>en_sessions := st\<rparr>"
  note frames = encrypt_for_peer_frames [OF q]
  show ?thesis
  proof (cases q)
    case (Inl e)
    with assms q have push: "push_initiation E (?en (snd (invalidate_peer st1 (peer_name p)))) p now (\<lambda>_ actions. actions) w = (r, en', w')"
      by (simp add: encrypt_or_initiate_def Let_def)
    have sends: "sends_message E (?en (snd (invalidate_peer st1 (peer_name p)))) p [] w r"
      by (rule push_sends [OF push]) (simp split: option.split)
    have "message_frames E (en_sessions en) (peer_name p) m payload now = []" using frames(1) Inl by simp
    with sends_message_earlier [OF sends] show ?thesis by (simp add: invalidate_peer_def)
  next
    case (Inr f)
    show ?thesis
    proof (cases f)
      case None
      with assms q Inr have push: "push_initiation E (?en st1) p now (\<lambda>_ actions. actions) w = (r, en', w')"
        by (simp add: encrypt_or_initiate_def Let_def)
      have "sends_message E (?en st1) p [] w r" by (rule push_sends [OF push]) (simp split: option.split)
      from sends_message_earlier [OF this] frames Inr None show ?thesis by simp
    next
      case (Some frame)
      with assms q Inr have push: "push_initiation E (?en st1) p now (\<lambda>en2 actions. case resolve_endpoint en2 p of
          None \<Rightarrow> actions | Some endpoint \<Rightarrow> actions @ [SendTransport (peer_name p) endpoint frame]) w = (r, en', w')"
        by (simp add: encrypt_or_initiate_def Let_def)
      have "sends_message E (?en st1) p [frame] w r" by (rule push_sends [OF push]) (simp split: option.split)
      from sends_message_earlier [OF this] frames Inr Some show ?thesis by simp
    qed
  qed
qed

subsection \<open>Inbound\<close>

definition action_endpoint :: "engine_action \<Rightarrow> socket_addr" where
  "action_endpoint a = (case a of SendTransport _ ep _ \<Rightarrow> ep | WriteIpPacket _ ep _ \<Rightarrow> ep)"

lemma inbound_source:
  assumes "process_inbound_transport E en frame source now w = (Ok out, en', w')"
  shows "length (out_actions out) \<le> 1 \<and> (\<forall>a \<in> set (out_actions out). action_endpoint a = source)"
  using assms
  by (auto simp: process_inbound_transport_def inbound_init_def inbound_response_def inbound_transport_def
      no_output_def Let_def action_endpoint_def
      split: option.splits parsed_packet.splits packet_kind.splits sum.splits prod.splits if_splits msg_type.splits)

lemma inbound_write:
  assumes "process_inbound_transport E en frame source now w = (Ok out, en', w')"
    and "WriteIpPacket name src packet \<in> set (out_actions out)"
  shows "\<exists>sid c ct d st1. decode_packet frame = Some (PTransport sid c ct)
    \<and> decrypt_transport E (en_sessions en) sid c ct now = (Ok (Some d), st1)
    \<and> dt_peer_name d = name \<and> dt_msg_type d = Data \<and> dt_payload d = packet
    \<and> ipv4_parse packet = Ok packet \<and> src = source \<and> out_actions out = [WriteIpPacket name source packet]
    \<and> learned_endpoint (en_peers en') name = Some source"
proof -
  obtain sid c ct where frame: "decode_packet frame = Some (PTransport sid c ct)"
    and tr: "inbound_transport E en sid c ct source now w = (Ok out, en', w')"
    using assms
    by (auto simp: process_inbound_transport_def inbound_init_def inbound_response_def no_output_def Let_def
        split: option.splits parsed_packet.splits packet_kind.splits sum.splits prod.splits if_splits)
  obtain q st1 where q: "decrypt_transport E (en_sessions en) sid c ct now = (q, st1)"
    by (cases "decrypt_transport E (en_sessions en) sid c ct now")
  have parse: "v = x" if "ipv4_parse x = Ok v" for v x
    using that by (auto simp: ipv4_parse_def Let_def split: if_splits)
  from tr q assms(2) show ?thesis
    unfolding frame
    by (auto simp: inbound_transport_def no_output_def Let_def dest: parse
        split: sum.splits option.splits prod.splits if_splits msg_type.splits)
qed

definition authenticated_from ::
    "('hs, 'ts, 'w) runtime \<Rightarrow> ('net, 'hs, 'ts) engine \<Rightarrow> bytes \<Rightarrow> instant \<Rightarrow> 'w \<Rightarrow> string \<Rightarrow> bool" where
  "authenticated_from E en frame now w name \<longleftrightarrow>
    (\<exists>sid c ct d. decode_packet frame = Some (PTransport sid c ct)
       \<and> fst (decrypt_transport E (en_sessions en) sid c ct now) = Ok (Some d) \<and> dt_peer_name d = name)
    \<or> (\<exists>hid message confirmation. decode_packet frame = Some (PHandshake HandshakeResponse hid message)
       \<and> fst (finalize_initiator E (en_sessions en) hid message w) = Ok (Some (name, confirmation)))"

lemma inbound_learns:
  assumes "process_inbound_transport E en frame source now w = (r, en', w')"
    and "learned_endpoint (en_peers en') q \<noteq> learned_endpoint (en_peers en) q"
  shows "learned_endpoint (en_peers en') q = Some source \<and> authenticated_from E en frame now w q"
proof (cases "decode_packet frame")
  case None
  with assms show ?thesis by (simp add: process_inbound_transport_def)
next
  case (Some p)
  show ?thesis
  proof (cases p)
    case (PHandshake kind hid message)
    show ?thesis
    proof (cases kind)
      case Transport
      with assms Some PHandshake show ?thesis by (simp add: process_inbound_transport_def)
    next
      case HandshakeInit
      with assms Some PHandshake show ?thesis
        by (auto simp: process_inbound_transport_def dest: inbound_init_keeps)
    next
      case HandshakeResponse
      with assms Some PHandshake show ?thesis
        by (auto simp: process_inbound_transport_def inbound_response_def authenticated_from_def Let_def
            split: prod.splits sum.splits option.splits if_splits)
    qed
  next
    case (PTransport sid c ct)
    with assms Some show ?thesis
      by (auto simp: process_inbound_transport_def inbound_transport_def authenticated_from_def Let_def
          split: prod.splits sum.splits option.splits msg_type.splits if_splits)
  qed
qed

subsection \<open>A concrete engine\<close>

definition demo_engine :: "(demo_net, demo_hs, bytes) engine" where
  "demo_engine = (engine_start demo_router [])\<lparr>en_sessions := demo_candidate_state\<rparr>"

definition demo_packet :: bytes where
  "demo_packet = 0x45 # replicate 19 0"

lemma demo_packet_parses: "ipv4_parse demo_packet = Ok demo_packet"
  by (simp add: demo_packet_def ipv4_parse_def Let_def)

definition demo_frame :: bytes where
  "demo_frame = encode_transport demo_sid 0 (demo_cipher Data demo_packet)"

lemma demo_frame_decodes: "decode_packet demo_frame = Some (PTransport demo_sid 0 (demo_cipher Data demo_packet))"
  unfolding demo_frame_def by (rule decode_encode_transport) (simp_all add: length_demo_cipher)

lemma demo_inbound:
  "\<exists>out en' w'. process_inbound_transport demo_runtime demo_engine demo_frame (V4 1 2) 10 0 = (Ok out, en', w')
    \<and> out_actions out = [WriteIpPacket ''a'' (V4 1 2) demo_packet]
    \<and> learned_endpoint (en_peers en') ''a'' = Some (V4 1 2)"
proof -
  obtain q st1 where q: "decrypt_transport demo_runtime demo_candidate_state demo_sid 0
      (demo_cipher Data demo_packet) 10 = (q, st1)"
    by (cases "decrypt_transport demo_runtime demo_candidate_state demo_sid 0 (demo_cipher Data demo_packet) 10")
  with demo_delivery [of Data demo_packet] have "q = Ok (Some \<lparr>dt_peer_name = ''a'', dt_msg_type = Data,
      dt_payload = demo_packet, dt_promoted = True\<rparr>)" by simp
  with q show ?thesis
    by (simp add: process_inbound_transport_def demo_frame_decodes inbound_transport_def demo_engine_def
        Let_def demo_packet_parses split: prod.splits)
qed

subsection \<open>Properties\<close>

text \<open>The engine refines the session manager: whatever sequence of outbound packets, inbound
frames, timers, endpoint updates and invalidations an engine processes, its router and key are
those it was built with and its session state is one that the manager reaches by its own methods,
so every guarantee of the manager holds in it; in particular session identifiers are unique.\<close>

lemma engine_refines_manager:
  assumes "engine_reachable L E R k en"
  shows "en_router en = R \<and> local_static en = k
    \<and> (\<exists>log. sm_reachable E (en_sessions en) log) \<and> ids_unique (en_sessions en)"
  using packet_engine.reachable_inv [OF assms] engine_reachable_wf [OF assms]
  by (auto simp: engine_inv_def sm_inv_def)

lemma engine_refines_manager_witness:
  "ids_unique (en_sessions (snd (engine_invalidate_peer
      (engine_start demo_router [] :: (demo_net, demo_hs, bytes) engine) ''a'')))"
proof -
  let ?en = "engine_start demo_router [] :: (demo_net, demo_hs, bytes) engine"
  obtain removed en' where i: "engine_invalidate_peer ?en ''a'' = (removed, en')"
    by (cases "engine_invalidate_peer ?en ''a''")
  have "engine_reachable demo_libs demo_runtime demo_router [] ?en" by (rule reachable.start) simp
  from reachable.succ [OF this do_invalidate [OF i]]
  have "engine_reachable demo_libs demo_runtime demo_router [] en'" .
  from engine_refines_manager [OF this] i show ?thesis by simp
qed

text \<open>C23: The fate of an outbound packet: one that is not IPv4 is refused and one that matches no
route is dropped, both without any effect. A routed one is sent to the routed peer at its current,
usable endpoint, encrypted by the peer's live active session under its next counter, as the last
frame, and nothing else is sent but at most one handshake initiation before it; without a live
session, or when the cipher refuses, only the initiation is sent; without an endpoint nothing is.
The only error is that a new handshake cannot be started.\<close>

theorem outbound_decision:
  "case process_outbound_ip L E en packet now w of (r, en', w') \<Rightarrow>
    case ipv4_parse packet of
      Inl e \<Rightarrow> r = Err (EnginePacket e) \<and> en' = en \<and> w' = w
    | Inr v \<Rightarrow>
        case lookup L (en_router en) (ipv4_destination v) of
          None \<Rightarrow> r = Ok no_output \<and> en' = en \<and> w' = w
        | Some route \<Rightarrow>
            let p = route_peer route;
                data = message_frames E (en_sessions en) (peer_name p) Data packet now in
            case resolve_endpoint en p of
              None \<Rightarrow> r = Ok no_output
            | Some ep \<Rightarrow> usable_peer_endpoint ep
                \<and> (case r of
                     Inl e \<Rightarrow> (\<exists>n w1. e = EngineNoise n
                       \<and> initiator_start E (local_static en) (peer_public_key p) (peer_psk p) w = (Err n, w1))
                   | Inr out \<Rightarrow> out_events out = []
                       \<and> (\<exists>hello. length hello \<le> 1 \<and> (\<forall>f \<in> set hello. hello_frame E en p w f)
                           \<and> out_actions out = map (SendTransport (peer_name p) ep) (hello @ data)))"
proof (cases "process_outbound_ip L E en packet now w")
  case (fields r en' w')
  show ?thesis
  proof (cases "ipv4_parse packet")
    case (Inl e)
    with fields show ?thesis by (simp add: process_outbound_ip_def)
  next
    case (Inr v)
    show ?thesis
    proof (cases "lookup L (en_router en) (ipv4_destination v)")
      case None
      with fields Inr show ?thesis by (simp add: process_outbound_ip_def)
    next
      case (Some route)
      with fields Inr have "encrypt_or_initiate E en (route_peer route) (peer_name (route_peer route))
          Data packet now w = (r, en', w')"
        by (simp add: process_outbound_ip_def Let_def)
      from encrypt_or_initiate_sends [OF this] resolve_usable [of en "route_peer route"] fields Inr Some
      show ?thesis by (simp add: sends_message_def Let_def split: option.splits)
    qed
  qed
qed

text \<open>C3: A packet is written to the tunnel interface only if it was authenticated: the frame
carried a ciphertext that a live session of the reported peer opened, under an unseen counter, to
a data message with exactly this packet, the packet is a well-formed IPv4 packet, and it is the
only action.\<close>

theorem delivered_packet_authentic:
  assumes "sm_wf (en_sessions en)"
    and "process_inbound_transport E en frame source now w = (Ok out, en', w')"
    and "WriteIpPacket name src packet \<in> set (out_actions out)"
  shows "out_actions out = [WriteIpPacket name source packet] \<and> ipv4_parse packet = Ok packet
    \<and> (\<exists>sid c ct a s. decode_packet frame = Some (PTransport sid c ct)
         \<and> session_at (en_sessions en) a = Some s \<and> \<not> is_expired s now \<and> session_id s = sid
         \<and> slot_peer a = name \<and> would_accept (replay s) c
         \<and> ts_read E (transport s) c ct (length ct - AEAD_TAG_SIZE)
             = Ok (encode_transport_plaintext Data packet))"
proof -
  from inbound_write [OF assms(2,3)] obtain sid c ct d st1 where
    d: "decode_packet frame = Some (PTransport sid c ct)"
      "decrypt_transport E (en_sessions en) sid c ct now = (Ok (Some d), st1)"
      "dt_peer_name d = name" "dt_msg_type d = Data" "dt_payload d = packet"
    and out: "out_actions out = [WriteIpPacket name source packet]" "ipv4_parse packet = Ok packet"
    by blast
  from decrypt_delivery [OF assms(1) d(2)] d(3-5) obtain a s where
    "session_at (en_sessions en) a = Some s" "\<not> is_expired s now" "session_id s = sid"
    "slot_peer a = name" "would_accept (replay s) c"
    "ts_read E (transport s) c ct (length ct - AEAD_TAG_SIZE) = Ok (encode_transport_plaintext Data packet)"
    by metis
  with out d(1) show ?thesis by blast
qed

theorem delivered_packet_authentic_witness:
  "\<exists>a s. session_at (en_sessions demo_engine) a = Some s \<and> slot_peer a = ''a''
    \<and> ts_read demo_runtime (transport s) 0 (demo_cipher Data demo_packet)
        (length (demo_cipher Data demo_packet) - AEAD_TAG_SIZE) = Ok (encode_transport_plaintext Data demo_packet)"
proof -
  have "sm_wf (en_sessions demo_engine)"
    using sm_reachable_inv [OF demo_candidate_reachable] by (simp add: sm_inv_def demo_engine_def)
  moreover from demo_inbound obtain out en' w' where
    "process_inbound_transport demo_runtime demo_engine demo_frame (V4 1 2) 10 0 = (Ok out, en', w')"
    and "out_actions out = [WriteIpPacket ''a'' (V4 1 2) demo_packet]" by blast
  ultimately have "\<exists>sid c ct a s. decode_packet demo_frame = Some (PTransport sid c ct)
         \<and> session_at (en_sessions demo_engine) a = Some s \<and> \<not> is_expired s 10 \<and> session_id s = sid
         \<and> slot_peer a = ''a'' \<and> would_accept (replay s) c
         \<and> ts_read demo_runtime (transport s) c ct (length ct - AEAD_TAG_SIZE)
             = Ok (encode_transport_plaintext Data demo_packet)"
    using delivered_packet_authentic [of demo_engine demo_runtime demo_frame "V4 1 2" 10 0 out en' w'
        "''a''" "V4 1 2" demo_packet] by simp
  then show ?thesis by (auto simp: demo_frame_decodes)
qed

text \<open>C22: The endpoint a peer is reached at changes only by authentication: processing a frame
changes the learned endpoint of a peer only to the frame's source, and only if a session of that
peer authenticated the frame or the frame completed that peer's own pending handshake.\<close>

theorem endpoint_learned_only_by_authentication:
  assumes "process_inbound_transport E en frame source now w = (r, en', w')"
    and "learned_endpoint (en_peers en') q \<noteq> learned_endpoint (en_peers en) q"
  shows "learned_endpoint (en_peers en') q = Some source \<and> authenticated_from E en frame now w q"
  by (rule inbound_learns [OF assms])

theorem endpoint_learned_only_by_authentication_witness:
  "authenticated_from demo_runtime demo_engine demo_frame 10 0 ''a''"
proof -
  from demo_inbound obtain out en' w' where
    p: "process_inbound_transport demo_runtime demo_engine demo_frame (V4 1 2) 10 0 = (Ok out, en', w')"
    and "learned_endpoint (en_peers en') ''a'' = Some (V4 1 2)" by blast
  then have "learned_endpoint (en_peers en') ''a'' \<noteq> learned_endpoint (en_peers demo_engine) ''a''"
    by (simp add: demo_engine_def engine_start_def learned_endpoint_def)
  from endpoint_learned_only_by_authentication [OF p this] show ?thesis by blast
qed

text \<open>An inbound frame causes at most one action, and that action answers the frame's own source
address or delivers a packet from it: the engine cannot be made to send to a third party.\<close>

lemma inbound_answers_only_source:
  "case fst (process_inbound_transport E en frame source now w) of
     Inl e \<Rightarrow> (\<exists>n. e = EngineNoise n) \<or> (\<exists>p. e = EnginePacket p)
   | Inr out \<Rightarrow> length (out_actions out) \<le> 1 \<and> list_all (\<lambda>a. action_endpoint a = source) (out_actions out)"
proof (cases "process_inbound_transport E en frame source now w")
  case (fields r en' w')
  have "(\<exists>n. e = EngineNoise n) \<or> (\<exists>p. e = EnginePacket p)" if "r = Err e" for e
    using fields that
    by (auto simp: process_inbound_transport_def inbound_init_def inbound_response_def
        inbound_transport_def Let_def
        split: option.splits parsed_packet.splits packet_kind.splits sum.splits prod.splits
          if_splits msg_type.splits)
  with inbound_source [of E en frame source now w] fields show ?thesis
    by (cases r) (auto simp: list_all_iff)
qed

text \<open>A DNS update is atomic: it is refused without effect for an unusable endpoint or an
unknown peer, has no effect if the endpoint is the configured one already, and otherwise makes the
endpoint the one the peer is reached at, forgets the learned one together with every session of
exactly that peer, and a repetition of the same update is a no-op.\<close>

lemma endpoint_update_atomic:
  "case update_resolved_endpoint en name endpoint of (r, en') \<Rightarrow>
    case r of
      Inl e \<Rightarrow> en' = en \<and> (e = InvalidPeerEndpoint endpoint \<and> \<not> usable_peer_endpoint endpoint
                 \<or> e = UnknownPeer name \<and> engine_peer en name = None)
    | Inr changed \<Rightarrow>
        (\<exists>p. engine_peer en name = Some p
          \<and> changed = (configured_endpoint_of en p \<noteq> endpoint)
          \<and> (if changed then
               resolve_endpoint en' p = Some endpoint
               \<and> learned_endpoint (en_peers en') name = None
               \<and> (\<forall>a. session_at (en_sessions en') a =
                    (if slot_peer a = name then None else session_at (en_sessions en) a))
               \<and> update_resolved_endpoint en' name endpoint = (Ok False, en')
             else en' = en))"
proof (cases "update_resolved_endpoint en name endpoint")
  case (Pair r en')
  show ?thesis
  proof (cases "usable_peer_endpoint endpoint \<and> engine_peer en name \<noteq> None")
    case False
    with Pair show ?thesis
      by (auto simp: update_resolved_endpoint_def split: if_splits option.splits)
  next
    case True
    then obtain p where p: "engine_peer en name = Some p" and use: "usable_peer_endpoint endpoint" by blast
    then have name: "peer_name p = name"
      by (auto simp: engine_peer_def find_Some_iff)
    show ?thesis
    proof (cases "configured_endpoint_of en p = endpoint")
      case True
      with Pair p use show ?thesis by (auto simp: update_resolved_endpoint_def)
    next
      case False
      with Pair p use have r: "r = Ok True" and en': "en' = en
          \<lparr>resolved_endpoints := hm_insert name endpoint (resolved_endpoints en),
           en_peers := clear_endpoint (en_peers en) name,
           en_sessions := snd (invalidate_peer (en_sessions en) name)\<rparr>"
        by (auto simp: update_resolved_endpoint_def Let_def)
      have conf: "configured_endpoint_of en' p = endpoint"
        by (simp add: en' configured_endpoint_of_def name)
      have none: "learned_endpoint (en_peers en') name = None" by (simp add: en')
      have "resolve_endpoint en' p = Some endpoint"
        using none conf use by (simp add: resolve_cases name opt_filter_def)
      moreover have "session_at (en_sessions en') a =
          (if slot_peer a = name then None else session_at (en_sessions en) a)" for a
        by (cases a) (auto simp: en' invalidate_peer_def)
      moreover have "engine_peer en' name = Some p" using p by (simp add: engine_peer_def en')
      then have "update_resolved_endpoint en' name endpoint = (Ok False, en')"
        using conf use by (simp add: update_resolved_endpoint_def)
      ultimately show ?thesis using Pair r p False none by auto
    qed
  qed
qed

text \<open>A handshake initiation is attributed to a peer only by its key: the responder names a
peer only if the message, read under that peer's pre-shared key, reveals exactly that peer's
configured public key, and the candidate session it offers is fresh.\<close>

lemma initiation_attributed_by_key:
  assumes "decode_handshake_init E k hid message {} rs w = (Some (name, rh), w')"
  shows "\<exists>r \<in> set rs. \<exists>st st1. peer_name (route_peer r) = name
    \<and> build_responder E k (peer_psk (route_peer r)) (handshake_prologue hid) = Ok st
    \<and> hs_read E st message MAX_NOISE_MESSAGE_SIZE = Ok ([], st1)
    \<and> hs_remote_static E st1 = Some (peer_public_key (route_peer r))
    \<and> send_counter (rh_session rh) = 0 \<and> replay (rh_session rh) = replay_new"
proof -
  from decode_handshake_init_Some [OF assms] obtain r w1 where r: "r \<in> set rs" "peer_name (route_peer r) = name"
    and "responder_respond E k (peer_public_key (route_peer r)) (peer_psk (route_peer r)) hid message w1 = (Ok rh, w')"
    by blast
  from r responder_respond_Ok [OF this(3)] show ?thesis by blast
qed

lemma initiation_attributed_by_key_witness:
  "let r = \<lparr>route_prefix = (0, 0), route_peer = \<lparr>peer_name = ''a'', peer_endpoint_addr = V4 0 0,
        configured_endpoint = endpoint_of_addr (V4 0 0), excluded_ips = [], peer_psk = demo_psk,
        peer_public_key = demo_ka, persistent_keepalive = 0, udp_rebind_after = 0, session_timeout = 0\<rparr>\<rparr>
   in \<exists>st1. hs_read demo_runtime (DResp (demo_psk @ handshake_prologue demo_id))
        (demo_ka @ demo_psk @ handshake_prologue demo_id) MAX_NOISE_MESSAGE_SIZE = Ok ([], st1)
      \<and> hs_remote_static demo_runtime st1 = Some (peer_public_key (route_peer (r :: demo_net route)))"
proof -
  define r where "r = (\<lparr>route_prefix = (0, 0), route_peer = \<lparr>peer_name = ''a'', peer_endpoint_addr = V4 0 0,
        configured_endpoint = endpoint_of_addr (V4 0 0), excluded_ips = [], peer_psk = demo_psk,
        peer_public_key = demo_ka, persistent_keepalive = 0, udp_rebind_after = 0, session_timeout = 0\<rparr>\<rparr> :: demo_net route)"
  have "\<exists>rh w'. decode_handshake_init demo_runtime [] demo_id (demo_ka @ demo_psk @ handshake_prologue demo_id) {} [r] 1
      = (Some (''a'', rh), w')"
    by (simp add: r_def demo_respond Let_def)
  then obtain rh w' where "decode_handshake_init demo_runtime [] demo_id
      (demo_ka @ demo_psk @ handshake_prologue demo_id) {} [r] 1 = (Some (''a'', rh), w')" by blast
  from initiation_attributed_by_key [OF this] show ?thesis
    by (auto simp: r_def demo_runtime_def Let_def)
qed

end
