(* ===== verification/Connection.thy ===== *)
theory Connection
  imports Engine_Props
begin

text \<open>
  Two engines against each other: from the first outbound packet over the four handshake frames to
  packets that travel in both directions. The Noise library is assumed to work: it completes a
  handshake between matching keys and encrypts what fits a Noise message. The network is not
  assumed to do anything beyond what a statement says it delivers.
\<close>

subsection \<open>Two sessions of one handshake\<close>

definition one_way :: "('hs, 'ts, 'w) runtime \<Rightarrow> 'ts session \<Rightarrow> 'ts session \<Rightarrow> bool" where
  "one_way E s t \<longleftrightarrow> paired E (transport s) (transport t)
    \<and> (\<exists>S. replay_tracks (replay t) S \<and> (\<forall>c \<in> S. c < send_counter s))"

text \<open>Documented behaviour of the cipher: below the reserved nonce it encrypts what fits a Noise message.\<close>

definition cipher_works :: "('hs, 'ts, 'w) runtime \<Rightarrow> 'ts \<Rightarrow> bool" where
  "cipher_works E ts \<longleftrightarrow> (\<forall>n pt. n \<noteq> - 1 \<longrightarrow> length pt + AEAD_TAG_SIZE \<le> MAX_NOISE_MESSAGE_SIZE \<longrightarrow>
    (\<exists>ct. ts_write E ts n pt (length pt + AEAD_TAG_SIZE) = Ok ct))"

definition linked :: "('hs, 'ts, 'w) runtime \<Rightarrow> 'ts session \<Rightarrow> 'ts session \<Rightarrow> bool" where
  "linked E s t \<longleftrightarrow> session_id s = session_id t \<and> length (session_id s) = SESSION_ID_SIZE
    \<and> cipher_works E (transport s) \<and> cipher_works E (transport t) \<and> one_way E s t \<and> one_way E t s"

lemma linked_sym: "linked E s t = linked E t s"
  by (auto simp: linked_def)

text \<open>A frame of a linked session is decrypted, and the sessions stay linked.\<close>

lemma linked_carries:
  assumes l: "linked E s t" and below: "send_counter s < REKEY_AFTER_MESSAGES"
    and fits: "length payload + 17 \<le> MAX_NOISE_MESSAGE_SIZE"
  obtains ct s' t' where "encrypt E s m payload = (Ok (encode_transport (session_id s) (send_counter s) ct), s')"
    and "decrypt E t (session_id s) (send_counter s) ct = (Ok (m, payload), t')"
    and "decode_packet (encode_transport (session_id s) (send_counter s) ct)
      = Some (PTransport (session_id s) (send_counter s) ct)"
    and "s' = s\<lparr>send_counter := send_counter s + 1\<rparr>"
    and "t' = t\<lparr>replay := snd (mark_authenticated (replay t) (send_counter s)),
      received_messages := saturating_add_u64 (received_messages t) 1\<rparr>"
    and "linked E s' t'"
proof -
  let ?pt = "encode_transport_plaintext m payload"
  have c: "send_counter s \<noteq> - 1" using below by (auto simp: REKEY_AFTER_MESSAGES_def)
  have len: "length ?pt = length payload + 1" by (simp add: frame_simps)
  have fits': "length ?pt + AEAD_TAG_SIZE \<le> MAX_NOISE_MESSAGE_SIZE" using fits len by (simp add: AEAD_TAG_SIZE_def)
  have "cipher_works E (transport s)" using l by (simp add: linked_def)
  from this [unfolded cipher_works_def, rule_format, OF c fits'] obtain ct where
    ct: "ts_write E (transport s) (send_counter s) ?pt (length ?pt + AEAD_TAG_SIZE) = Ok ct" ..
  have "paired E (transport s) (transport t)" using l by (simp add: linked_def one_way_def)
  from this [unfolded paired_def, rule_format, OF ct]
  have ct': "length ct = length ?pt + AEAD_TAG_SIZE"
    "ts_read E (transport t) (send_counter s) ct (length ?pt) = Ok ?pt" by simp_all
  from l obtain S where S: "replay_tracks (replay t) S" "\<forall>c \<in> S. c < send_counter s"
    by (auto simp: linked_def one_way_def)
  have "S = {} \<or> Max S \<in> S" using Max_in [of S] finite [of S] by blast
  with S have acc: "would_accept (replay t) (send_counter s)"
    unfolding would_accept_spec [OF S(1)] spec_accepts_def by blast
  have tr: "replay_tracks (snd (mark_authenticated (replay t) (send_counter s))) (insert (send_counter s) S)"
    by (rule window.mark_accepts [OF S(1) acc])
  have up: "send_counter s < send_counter s + 1"
    using encrypt_advances(2) [OF c] by (simp add: word_less_nat_alt)
  show thesis
  proof (rule that)
    show "encrypt E s m payload = (Ok (encode_transport (session_id s) (send_counter s) ct),
        s\<lparr>send_counter := send_counter s + 1\<rparr>)"
      using encrypt_advances(1) [OF c, of E m payload] ct by simp
    show "decrypt E t (session_id s) (send_counter s) ct = (Ok (m, payload),
        t\<lparr>replay := snd (mark_authenticated (replay t) (send_counter s)),
          received_messages := saturating_add_u64 (received_messages t) 1\<rparr>)"
      using l ct' acc len by (subst decrypt_authentic [where pt = ?pt]) (simp_all add: linked_def)
    show "decode_packet (encode_transport (session_id s) (send_counter s) ct)
        = Some (PTransport (session_id s) (send_counter s) ct)"
      using l ct' len by (intro decode_encode_transport) (auto simp: linked_def AEAD_TAG_SIZE_def)
    show "linked E (s\<lparr>send_counter := send_counter s + 1\<rparr>)
        (t\<lparr>replay := snd (mark_authenticated (replay t) (send_counter s)),
          received_messages := saturating_add_u64 (received_messages t) 1\<rparr>)"
      using l S(2) tr up by (auto simp: linked_def one_way_def intro: order.strict_trans)
  qed simp_all
qed

subsection \<open>Two session managers\<close>

text \<open>One side of a connection: the active session with a peer, with nothing else under way, begun at
\<open>since\<close> or later and with room for \<open>n\<close> more messages in each direction before a rekey is due.\<close>

definition holds_session :: "instant \<Rightarrow> nat \<Rightarrow> ('hs, 'ts) session_state \<Rightarrow> string \<Rightarrow> 'ts session \<Rightarrow> bool" where
  "holds_session since n st p s \<longleftrightarrow> hm_get (sessions st) p = Some s \<and> hm_get (pending_init st) p = None
    \<and> hm_get (responder_candidates st) p = None \<and> since \<le> created_at s
    \<and> unat (send_counter s) + n < 2 ^ 32 \<and> unat (received_messages s) + n < 2 ^ 32"

lemma below_rekey: "c < REKEY_AFTER_MESSAGES \<longleftrightarrow> unat c < 2 ^ 32"
  by (simp add: REKEY_AFTER_MESSAGES_def word_less_nat_alt)

lemma holds_session_fresh:
  assumes "holds_session since n st p s" and "now < since + secs 120"
  shows "\<not> should_rekey s now" and "\<not> is_expired s now"
proof -
  have "\<not> REKEY_AFTER_TIME \<le> duration_since now (created_at s)"
    using assms secs_pos [of 120] unfolding holds_session_def duration_since_def REKEY_AFTER_TIME_def by linarith
  moreover from assms(1) have "send_counter s < REKEY_AFTER_MESSAGES" "received_messages s < REKEY_AFTER_MESSAGES"
    by (simp_all add: holds_session_def below_rekey)
  ultimately show "\<not> should_rekey s now" by (simp add: should_rekey_def not_le)
  then show "\<not> is_expired s now" using rekey_precedes_expiry [of s now now] by blast
qed

lemma encrypt_for_peer_active:
  assumes "hm_get (sessions st) p = Some s" and "\<not> is_expired s now" and "encrypt E s m payload = (Ok frame, s')"
  obtains st' where "encrypt_for_peer E st p m payload now = (Ok (Some frame), st')"
    and "hm_get (sessions st') p = Some s'" and "pending_init st' = pending_init st"
    and "responder_candidates st' = responder_candidates st"
  using assms by (simp add: encrypt_for_peer_def drop_expired_active_def Let_def)

lemma start_not_due:
  assumes "hm_get (sessions st) p = Some s" and "\<not> should_rekey s now" and "\<not> is_expired s now"
    and "hm_get (pending_init st) p = None" and "hm_get (responder_candidates st) p = None"
  shows "start_or_retry_handshake E st p k rk psk now w = (Ok None, st, w)"
  using assms by (simp add: start_or_retry_handshake_def drop_expired_active_def hm_contains_def Let_def)

lemma decrypt_transport_active:
  assumes inv: "sm_inv st log" and t: "hm_get (sessions st) p = Some t" "\<not> is_expired t now" "session_id t = sid"
    and d: "decrypt E t sid c ct = (r, t')"
  obtains st' where "decrypt_transport E st sid c ct now = (transport_of p False r, st')"
    and "hm_get (sessions st') p = Some t'" and "pending_init st' = pending_init st"
    and "responder_candidates st' = retain_live now (responder_candidates st)"
proof -
  from inv have wf: "sm_wf st" and uniq: "ids_unique st" by (simp_all add: sm_inv_def)
  obtain q st' where q: "decrypt_transport E st sid c ct now = (q, st')"
    by (cases "decrypt_transport E st sid c ct now")
  have at: "session_at st (Active p) = Some t" using t(1) by simp
  have only: "a = Active p" if "session_at (retain_all_live now st) a = Some u" "session_id u = sid" for a u
    using that t(3) ids_uniqueD [OF uniq _ at, of a u] by (simp add: retain_all_at [OF wf] del: session_at.simps)
  from wf q show thesis
  proof (cases rule: decrypt_transport_cases)
    case unknown
    have "session_at (retain_all_live now st) (Active p) = Some t"
      using at t(2) by (simp add: retain_all_at [OF wf] del: session_at.simps)
    with unknown(3) t(3) show thesis by blast
  next
    case (active p' u r0 u')
    from only [OF active(1,2)] have p': "p' = p" by simp
    with active(1) t(1) have "u = t" by (simp add: retain_all_at [OF wf, of now "Active p", simplified])
    with active d p' have "r0 = r" "u' = t'" by simp_all
    with active p' q show thesis
      by (intro that [of st']) (simp_all add: retain_all_live_def)
  next
    case (previous p' u)
    from only [OF previous(1,2)] show thesis by simp
  next
    case (refused p' u)
    from only [OF refused(1,2)] show thesis by simp
  next
    case (promoted p' u)
    from only [OF promoted(1,2)] show thesis by simp
  qed
qed

subsection \<open>Two engines\<close>

definition connected ::
    "('hs, 'ts, 'w) runtime \<Rightarrow> string \<Rightarrow> string \<Rightarrow> instant \<Rightarrow> nat
      \<Rightarrow> ('net, 'hs, 'ts) engine \<Rightarrow> ('net, 'hs, 'ts) engine \<Rightarrow> bool" where
  "connected E na nb since n A B \<longleftrightarrow>
    (\<exists>log. sm_inv (en_sessions A) log) \<and> (\<exists>log. sm_inv (en_sessions B) log)
    \<and> (\<exists>s t. holds_session since n (en_sessions A) nb s \<and> holds_session since n (en_sessions B) na t \<and> linked E s t)"

lemma connected_sym: "connected E na nb since n A B = connected E nb na since n B A"
  unfolding connected_def by (metis linked_sym)

text \<open>The engine routes the packet to the peer and knows an endpoint of it.\<close>

definition routes_to :: "'net libs \<Rightarrow> ('net, 'hs, 'ts) engine \<Rightarrow> string \<Rightarrow> bytes \<Rightarrow> bool" where
  "routes_to L en name packet \<longleftrightarrow> (\<exists>v r. ipv4_parse packet = Ok v
    \<and> lookup L (en_router en) (ipv4_destination v) = Some r
    \<and> peer_name (route_peer r) = name \<and> resolve_endpoint en (route_peer r) \<noteq> None)"

lemma sm_path_inv: "sm_path E st st' \<Longrightarrow> sm_inv st log \<Longrightarrow> \<exists>log'. sm_inv st' log'"
  using manager.steps_inv [of E "(st, log)"] unfolding sm_path_def by blast

lemma holds_session_send:
  assumes "holds_session since (Suc n) st p s" and "hm_get (sessions st') p = Some (s\<lparr>send_counter := send_counter s + 1\<rparr>)"
    and "pending_init st' = pending_init st" and "responder_candidates st' = responder_candidates st"
  shows "holds_session since n st' p (s\<lparr>send_counter := send_counter s + 1\<rparr>)"
proof -
  from assms(1) have "send_counter s \<noteq> - 1" by (auto simp: holds_session_def unat_max_u64)
  from encrypt_advances(2) [OF this] assms show ?thesis by (simp add: holds_session_def)
qed

lemma unat_saturating_Suc: "unat (saturating_add_u64 c 1) \<le> Suc (unat c)"
  by (auto simp: saturating_add_u64_def unat_word_ariths unat_max_u64)

lemma holds_session_receive:
  assumes "holds_session since (Suc n) st p t" and "hm_get (sessions st') p = Some (t\<lparr>replay := r, received_messages := saturating_add_u64 (received_messages t) 1\<rparr>)"
    and "pending_init st' = pending_init st" and "responder_candidates st' = retain_live now (responder_candidates st)"
    and "sm_wf st"
  shows "holds_session since n st' p (t\<lparr>replay := r, received_messages := saturating_add_u64 (received_messages t) 1\<rparr>)"
proof -
  have "hm_get (responder_candidates st') p = None"
    using assms(1,4,5) retain_live_get [of "responder_candidates st" now p]
    by (cases "hm_get (retain_live now (responder_candidates st)) p") (auto simp: holds_session_def sm_wf_def)
  with assms unat_saturating_Suc [of "received_messages t"] show ?thesis
    by (simp add: holds_session_def)
qed

lemma sender_step:
  assumes s: "holds_session since (Suc n) (en_sessions A) nb s" and time: "now < since + secs 120"
    and e: "encrypt E s Data packet = (Ok frame, s\<lparr>send_counter := send_counter s + 1\<rparr>)"
    and route: "routes_to L A nb packet"
  obtains ep A' where "process_outbound_ip L E A packet now w =
      (Ok \<lparr>out_actions = [SendTransport nb ep frame], out_events = []\<rparr>, A', w)"
    and "holds_session since n (en_sessions A') nb (s\<lparr>send_counter := send_counter s + 1\<rparr>)"
proof -
  let ?s' = "s\<lparr>send_counter := send_counter s + 1\<rparr>"
  from route obtain v r ep where v: "ipv4_parse packet = Ok v"
    and r: "lookup L (en_router A) (ipv4_destination v) = Some r" "peer_name (route_peer r) = nb"
    and ep: "resolve_endpoint A (route_peer r) = Some ep" unfolding routes_to_def by blast
  from s have active: "hm_get (sessions (en_sessions A)) nb = Some s" by (simp add: holds_session_def)
  obtain st' where st': "encrypt_for_peer E (en_sessions A) nb Data packet now = (Ok (Some frame), st')"
    and same: "hm_get (sessions st') nb = Some ?s'" "pending_init st' = pending_init (en_sessions A)"
      "responder_candidates st' = responder_candidates (en_sessions A)"
    by (rule encrypt_for_peer_active [OF active holds_session_fresh(2) [OF s time] e])
  have held: "holds_session since n st' nb ?s'" by (rule holds_session_send [OF s same])
  have start: "start_or_retry_handshake E st' nb k rk psk now w = (Ok None, st', w)" for k rk psk
    using held by (intro start_not_due [OF same(1) holds_session_fresh [OF held time]]) (simp_all add: holds_session_def)
  have ep': "resolve_endpoint (A\<lparr>en_sessions := st'\<rparr>) (route_peer r) = Some ep"
    using ep resolve_same [of "A\<lparr>en_sessions := st'\<rparr>" A] by simp
  have "process_outbound_ip L E A packet now w =
      (Ok \<lparr>out_actions = [SendTransport nb ep frame], out_events = []\<rparr>, A\<lparr>en_sessions := st'\<rparr>, w)"
    by (simp add: process_outbound_ip_def v r encrypt_or_initiate_def st' push_initiation_def
        initiate_peer_def ep' start no_output_def)
  with held that show thesis by simp
qed

lemma receiver_step:
  assumes inv: "sm_inv (en_sessions B) log" and t: "holds_session since (Suc n) (en_sessions B) na t"
    and time: "now < since + secs 120" and sid: "session_id t = sid"
    and d: "decrypt E t sid c ct = (Ok (Data, packet), t\<lparr>replay := q, received_messages := saturating_add_u64 (received_messages t) 1\<rparr>)"
    and f: "decode_packet frame = Some (PTransport sid c ct)" and v: "ipv4_parse packet = Ok v"
  obtains B' w' where "process_inbound_transport E B frame source now w =
      (Ok \<lparr>out_actions = [WriteIpPacket na source packet], out_events = []\<rparr>, B', w')"
    and "holds_session since n (en_sessions B') na (t\<lparr>replay := q, received_messages := saturating_add_u64 (received_messages t) 1\<rparr>)"
    and "\<And>p. learned_endpoint (en_peers B') p = (if p = na then Some source else learned_endpoint (en_peers B) p)"
    and "w' = snd (instant_now E w)"
proof -
  let ?t' = "t\<lparr>replay := q, received_messages := saturating_add_u64 (received_messages t) 1\<rparr>"
  from t have active: "hm_get (sessions (en_sessions B)) na = Some t" by (simp add: holds_session_def)
  obtain st' where st': "decrypt_transport E (en_sessions B) sid c ct now = (transport_of na False (Ok (Data, packet)), st')"
    and same: "hm_get (sessions st') na = Some ?t'" "pending_init st' = pending_init (en_sessions B)"
      "responder_candidates st' = retain_live now (responder_candidates (en_sessions B))"
    by (rule decrypt_transport_active [OF inv active holds_session_fresh(2) [OF t time] sid d])
  have held: "holds_session since n st' na ?t'"
    by (rule holds_session_receive [OF t same]) (use inv in \<open>simp add: sm_inv_def\<close>)
  obtain t0 w1 where now: "instant_now E w = (t0, w1)" by (cases "instant_now E w")
  then have "process_inbound_transport E B frame source now w =
      (Ok \<lparr>out_actions = [WriteIpPacket na source packet], out_events = []\<rparr>,
       B\<lparr>en_sessions := st', en_peers := record_rx (en_peers B) na source (length packet) t0\<rparr>, w1)"
    by (simp add: process_inbound_transport_def f inbound_transport_def st' transport_of_def v)
  with held that now show thesis by simp
qed

lemma routes_to_keeps:
  assumes "routes_to L en name packet" and "same_setup en en'" and "resolved_endpoints en' = resolved_endpoints en"
    and "\<And>p. learned_endpoint (en_peers en') p = learned_endpoint (en_peers en) p
      \<or> (\<exists>source. learned_endpoint (en_peers en') p = Some source \<and> usable_peer_endpoint source)"
  shows "routes_to L en' name packet"
proof -
  have "resolve_endpoint en' p \<noteq> None" if "resolve_endpoint en p \<noteq> None" for p
  proof -
    have "configured_endpoint_of en' p = configured_endpoint_of en p"
      using assms(3) by (simp add: configured_endpoint_of_def)
    with that assms(4) [of "peer_name p"] show ?thesis
      by (auto simp: resolve_cases opt_filter_def split: option.splits if_splits)
  qed
  with assms(1,2) show ?thesis unfolding routes_to_def same_setup_def by metis
qed

lemma connected_step:
  assumes c: "connected E na nb since (Suc n) A B" and route: "routes_to L A nb packet"
    and fits: "length packet + 17 \<le> MAX_NOISE_MESSAGE_SIZE"
    and time: "sent < since + secs 120"
  obtains ep frame A' where
    "process_outbound_ip L E A packet sent w = (Ok \<lparr>out_actions = [SendTransport nb ep frame], out_events = []\<rparr>, A', w)"
    and "\<And>name p. routes_to L A name p \<Longrightarrow> routes_to L A' name p"
    and "\<And>source arrived v. arrived < since + secs 120 \<Longrightarrow> \<exists>B'. process_inbound_transport E B frame source arrived v =
        (Ok \<lparr>out_actions = [WriteIpPacket na source packet], out_events = []\<rparr>, B', snd (instant_now E v))
      \<and> connected E na nb since n A' B'
      \<and> (usable_peer_endpoint source \<longrightarrow> (\<forall>name p. routes_to L B name p \<longrightarrow> routes_to L B' name p))"
proof -
  from c obtain log log2 s t where invs: "sm_inv (en_sessions A) log" "sm_inv (en_sessions B) log2"
    and s: "holds_session since (Suc n) (en_sessions A) nb s"
    and t: "holds_session since (Suc n) (en_sessions B) na t" and l: "linked E s t"
    unfolding connected_def by blast
  have "send_counter s < REKEY_AFTER_MESSAGES" using s by (simp add: holds_session_def below_rekey)
  from linked_carries [OF l this fits, of Data] obtain ct s' t' where
    e: "encrypt E s Data packet = (Ok (encode_transport (session_id s) (send_counter s) ct), s')"
    and d: "decrypt E t (session_id s) (send_counter s) ct = (Ok (Data, packet), t')"
    and f: "decode_packet (encode_transport (session_id s) (send_counter s) ct)
      = Some (PTransport (session_id s) (send_counter s) ct)"
    and s': "s' = s\<lparr>send_counter := send_counter s + 1\<rparr>"
    and t': "t' = t\<lparr>replay := snd (mark_authenticated (replay t) (send_counter s)),
      received_messages := saturating_add_u64 (received_messages t) 1\<rparr>"
    and l': "linked E s' t'" .
  obtain ep A' where out: "process_outbound_ip L E A packet sent w = (Ok \<lparr>out_actions =
      [SendTransport nb ep (encode_transport (session_id s) (send_counter s) ct)], out_events = []\<rparr>, A', w)"
    and A': "holds_session since n (en_sessions A') nb s'"
    by (rule sender_step [OF s time e [unfolded s'] route, folded s'])
  from route obtain ip where ip: "ipv4_parse packet = Ok ip" unfolding routes_to_def by blast
  have sid: "session_id t = session_id s" using l by (simp add: linked_def)
  have arrives: "\<exists>B'. process_inbound_transport E B (encode_transport (session_id s) (send_counter s) ct) source arrived v =
        (Ok \<lparr>out_actions = [WriteIpPacket na source packet], out_events = []\<rparr>, B', snd (instant_now E v))
      \<and> connected E na nb since n A' B'
      \<and> (usable_peer_endpoint source \<longrightarrow> (\<forall>name p. routes_to L B name p \<longrightarrow> routes_to L B' name p))"
    if early: "arrived < since + secs 120" for source arrived v
  proof -
    obtain B' v' where inb: "process_inbound_transport E B (encode_transport (session_id s) (send_counter s) ct) source arrived v
        = (Ok \<lparr>out_actions = [WriteIpPacket na source packet], out_events = []\<rparr>, B', v')"
      and B': "holds_session since n (en_sessions B') na t'"
      and learned: "\<And>p. learned_endpoint (en_peers B') p = (if p = na then Some source else learned_endpoint (en_peers B) p)"
      and v': "v' = snd (instant_now E v)"
      by (rule receiver_step [OF invs(2) t early sid d [unfolded t'] f ip, folded t']) blast
    have "connected E na nb since n A' B'"
      unfolding connected_def using A' B' l' sm_path_inv [OF outbound_path [OF out] invs(1)]
        sm_path_inv [OF inbound_path [OF inb] invs(2)] by blast
    moreover have "routes_to L B' name p" if "usable_peer_endpoint source" "routes_to L B name p" for name p
      using that learned inbound_keeps [OF inb] by (intro routes_to_keeps [OF that(2)]) auto
    ultimately show ?thesis using inb v' by blast
  qed
  have "routes_to L A' name p" if "routes_to L A name p" for name p
    using that outbound_keeps [OF out] by (intro routes_to_keeps [OF that]) simp_all
  from that [OF out this arrives] show thesis by blast
qed

subsection \<open>A conversation\<close>

text \<open>The packets of both directions in the order in which they are sent; each frame reaches the other
engine, from some source address, before the next one is sent. The value is what the receiving
engine is told to do for each packet.\<close>

record packet_trip =
  trip_from_a :: bool
  trip_packet :: bytes
  trip_sent :: instant
  trip_source :: socket_addr
  trip_arrival :: instant

fun conversation ::
    "'net libs \<Rightarrow> ('hs, 'ts, 'w) runtime \<Rightarrow> ('net, 'hs, 'ts) engine \<Rightarrow> ('net, 'hs, 'ts) engine \<Rightarrow> 'w
      \<Rightarrow> packet_trip list \<Rightarrow> engine_action list list" where
  "conversation L E A B w [] = []"
| "conversation L E A B w (m # ms) =
    (let (S, R) = (if trip_from_a m then (A, B) else (B, A)) in
     case process_outbound_ip L E S (trip_packet m) (trip_sent m) w of
       (Inr out, S', w1) \<Rightarrow>
         (case out_actions out of
            [SendTransport _ _ frame] \<Rightarrow>
              (case process_inbound_transport E R frame (trip_source m) (trip_arrival m) w1 of
                 (Inr out2, R', w2) \<Rightarrow>
                   out_actions out2 # (let (A', B') = (if trip_from_a m then (S', R') else (R', S'))
                                       in conversation L E A' B' w2 ms)
               | (Inl _, _, _) \<Rightarrow> [])
          | _ \<Rightarrow> [])
     | (Inl _, _, _) \<Rightarrow> [])"

subsection \<open>A handshake that completes\<close>

text \<open>The worlds of a span of time that begins at \<open>T\<close>: in each the clock shows \<open>T\<close> or later, and the
calls of the library lead from one to another.\<close>

definition clock_from :: "('hs, 'ts, 'w) runtime \<Rightarrow> instant \<Rightarrow> 'w set \<Rightarrow> bool" where
  "clock_from E T W \<longleftrightarrow> (\<forall>w \<in> W. T \<le> fst (instant_now E w) \<and> snd (instant_now E w) \<in> W
    \<and> (\<forall>n. snd (fill_bytes E n w) \<in> W) \<and> (\<forall>st payload n. snd (hs_write E st payload n w) \<in> W))"

text \<open>Documented behaviour of the library between matching keys, beyond \<open>noise_matches\<close>: no call fails,
no message is empty, the ciphers work, and a responder that reads the first message under some
other pre-shared key learns no other static key.\<close>

definition second_message ::
    "('hs, 'ts, 'w) runtime \<Rightarrow> 'hs \<Rightarrow> 'hs \<Rightarrow> bytes \<Rightarrow> 'w \<Rightarrow> bool" where
  "second_message E r1 i1 sid w \<longleftrightarrow>
    (\<exists>m2 r2 w' tb. hs_write E r1 sid MAX_NOISE_MESSAGE_SIZE w = (Ok (m2, r2), w') \<and> m2 \<noteq> []
       \<and> hs_transport E r2 = Ok tb \<and> cipher_works E tb
       \<and> (\<forall>i2. hs_read E i1 m2 (SESSION_ID_SIZE + AEAD_TAG_SIZE) = Ok (sid, i2) \<longrightarrow>
            (\<exists>ta. hs_transport E i2 = Ok ta \<and> cipher_works E ta)))"

definition first_message ::
    "('hs, 'ts, 'w) runtime \<Rightarrow> 'w set \<Rightarrow> bytes \<Rightarrow> bytes \<Rightarrow> bytes \<Rightarrow> 'hs \<Rightarrow> 'hs \<Rightarrow> 'w \<Rightarrow> bool" where
  "first_message E W kb pa pro i r w \<longleftrightarrow>
    (\<exists>m1 i1 w'. hs_write E i [] MAX_NOISE_MESSAGE_SIZE w = (Ok (m1, i1), w') \<and> m1 \<noteq> []
       \<and> (\<forall>psk' q payload r'. build_responder E kb psk' pro = Ok q \<longrightarrow>
            hs_read E q m1 MAX_NOISE_MESSAGE_SIZE = Ok (payload, r') \<longrightarrow> hs_remote_static E r' \<in> {None, Some pa})
       \<and> (\<forall>r1 sid. \<forall>w2 \<in> W. hs_read E r m1 MAX_NOISE_MESSAGE_SIZE = Ok ([], r1) \<longrightarrow>
            length sid = SESSION_ID_SIZE \<longrightarrow> second_message E r1 i1 sid w2))"

definition noise_completes ::
    "('hs, 'ts, 'w) runtime \<Rightarrow> 'w set \<Rightarrow> bytes \<Rightarrow> bytes \<Rightarrow> bytes \<Rightarrow> bytes \<Rightarrow> bytes \<Rightarrow> bool" where
  "noise_completes E W ka pa kb pb psk \<longleftrightarrow> noise_matches E ka pa kb pb psk \<and>
    (\<forall>pro. \<exists>i r. build_initiator E ka pb psk pro = Ok i \<and> build_responder E kb psk pro = Ok r
       \<and> (\<forall>w \<in> W. first_message E W kb pa pro i r w))"

text \<open>Random identifiers have eight bytes and are not in use.\<close>

definition draws_fresh :: "('hs, 'ts, 'w) runtime \<Rightarrow> 'w set \<Rightarrow> ('hs, 'ts) session_state \<Rightarrow> bool" where
  "draws_fresh E W st \<longleftrightarrow> (\<forall>w \<in> W. \<forall>i. i = fst (fill_bytes E SESSION_ID_SIZE w) \<longrightarrow>
    length i = SESSION_ID_SIZE \<and> \<not> session_id_in_use st i
    \<and> (\<forall>p pending. hm_get (pending_init st) p = Some pending \<longrightarrow> pi_handshake_id pending \<noteq> i))"

definition new_session :: "instant \<Rightarrow> 'ts session \<Rightarrow> bool" where
  "new_session T s \<longleftrightarrow> send_counter s = 0 \<and> received_messages s = 0 \<and> replay s = replay_new \<and> T \<le> created_at s"

lemma respond_other:
  assumes "\<And>q payload r'. build_responder E k psk (handshake_prologue hid) = Ok q \<Longrightarrow>
      hs_read E q msg MAX_NOISE_MESSAGE_SIZE = Ok (payload, r') \<Longrightarrow> hs_remote_static E r' \<in> {None, Some pa}"
    and "rk \<noteq> pa"
  shows "\<exists>e. responder_respond E k rk psk hid msg w = (Err e, w)"
proof (cases "build_responder E k psk (handshake_prologue hid)")
  case (Inl e)
  then show ?thesis by (simp add: responder_respond_def io_bind_def io_lift_def)
next
  case b: (Inr q)
  show ?thesis
  proof (cases "hs_read E q msg MAX_NOISE_MESSAGE_SIZE")
    case (Inl e)
    with b show ?thesis by (simp add: responder_respond_def io_bind_def io_lift_def)
  next
    case (Inr x)
    obtain payload r' where x: "x = (payload, r')" by (cases x)
    from assms(1) [OF b Inr [unfolded x]] assms(2) b Inr x show ?thesis
      by (auto simp: responder_respond_def io_bind_def io_lift_def)
  qed
qed

lemma responder_answers:
  assumes clock: "clock_from E T W"
    and fill: "\<And>w. w \<in> W \<Longrightarrow> length (fst (fill_bytes E SESSION_ID_SIZE w)) = SESSION_ID_SIZE" and w2: "w2 \<in> W"
    and build: "build_responder E kb psk (handshake_prologue hid) = Ok r"
    and r1: "hs_read E r m1 MAX_NOISE_MESSAGE_SIZE = Ok ([], r1)" "hs_remote_static E r1 = Some pa"
    and reply: "\<And>sid w. w \<in> W \<Longrightarrow> length sid = SESSION_ID_SIZE \<Longrightarrow> second_message E r1 i1 sid w"
    and fin: "\<And>sid w m2 r2 w'. length sid = SESSION_ID_SIZE \<Longrightarrow>
       hs_write E r1 sid MAX_NOISE_MESSAGE_SIZE w = (Ok (m2, r2), w') \<Longrightarrow>
       \<exists>i2. hs_read E i1 m2 (SESSION_ID_SIZE + AEAD_TAG_SIZE) = Ok (sid, i2)
         \<and> (\<forall>ta tb. hs_transport E i2 = Ok ta \<longrightarrow> hs_transport E r2 = Ok tb \<longrightarrow> paired E ta tb \<and> paired E tb ta)"
  shows "\<exists>rh w3. responder_respond E kb pa psk hid m1 w2 = (Ok rh, w3)
      \<and> w3 \<in> W \<and> rh_message rh \<noteq> [] \<and> session_id (rh_session rh) = fst (fill_bytes E SESSION_ID_SIZE w2)
      \<and> new_session T (rh_session rh)
      \<and> (\<forall>w4 \<in> W. \<exists>s w5. initiator_finalize E \<lparr>is_handshake_id = hid, is_state = i1\<rparr> (rh_message rh) w4 = (Ok s, w5)
           \<and> new_session T s \<and> linked E s (rh_session rh))"
proof -
  obtain sid wb where sid: "fill_bytes E SESSION_ID_SIZE w2 = (sid, wb)" by (cases "fill_bytes E SESSION_ID_SIZE w2")
  with clock w2 have wb: "wb \<in> W" unfolding clock_from_def by (metis snd_conv)
  from sid fill [OF w2] have len: "length sid = SESSION_ID_SIZE" by simp
  from reply [OF wb len] obtain m2 r2 wc tb where m2: "hs_write E r1 sid MAX_NOISE_MESSAGE_SIZE wb = (Ok (m2, r2), wc)"
    "m2 \<noteq> []" and tb: "hs_transport E r2 = Ok tb" "cipher_works E tb"
    and ta: "\<And>i2. hs_read E i1 m2 (SESSION_ID_SIZE + AEAD_TAG_SIZE) = Ok (sid, i2) \<Longrightarrow>
      \<exists>ta. hs_transport E i2 = Ok ta \<and> cipher_works E ta" unfolding second_message_def by blast
  obtain tm wd where now: "instant_now E wc = (tm, wd)" by (cases "instant_now E wc")
  from clock wb m2(1) have wc: "wc \<in> W" unfolding clock_from_def by (metis snd_conv)
  from clock wc now have wd: "wd \<in> W" "T \<le> tm" unfolding clock_from_def by (metis snd_conv fst_conv)+
  define rs where "rs = \<lparr>session_id = sid, transport = tb, created_at = tm, send_counter = 0,
    received_messages = 0, replay = replay_new\<rparr>"
  have respond: "responder_respond E kb pa psk hid m1 w2 = (Ok \<lparr>rh_message = m2, rh_session = rs\<rparr>, wd)"
    by (simp add: responder_respond_def io_bind_def io_draw_def io_lift_def io_map_err_def session_new_def
        build r1 sid m2 tb now rs_def)
  from fin [OF len m2(1)] obtain i2 where i2: "hs_read E i1 m2 (SESSION_ID_SIZE + AEAD_TAG_SIZE) = Ok (sid, i2)"
    and pairs: "\<And>ta. hs_transport E i2 = Ok ta \<Longrightarrow> paired E ta tb \<and> paired E tb ta" using tb(1) by blast
  from ta [OF i2] obtain ta where ta: "hs_transport E i2 = Ok ta" "cipher_works E ta" by blast
  have "\<exists>s w5. initiator_finalize E \<lparr>is_handshake_id = hid, is_state = i1\<rparr> m2 w4 = (Ok s, w5) \<and> new_session T s \<and> linked E s rs"
    if w4: "w4 \<in> W" for w4
  proof -
    obtain tm' w5 where now': "instant_now E w4 = (tm', w5)" by (cases "instant_now E w4")
    with clock w4 have "T \<le> tm'" unfolding clock_from_def by (metis fst_conv)
    with pairs [OF ta(1)] ta(2) tb(2) len replay_tracks_new show ?thesis
      by (simp add: initiator_finalize_def io_bind_def io_draw_def io_lift_def session_new_def i2 ta(1)
          now' new_session_def linked_def one_way_def rs_def)
  qed
  with respond wd m2(2) sid show ?thesis by (simp add: new_session_def rs_def)
qed

lemma handshake_completes:
  assumes law: "noise_completes E W ka pa kb pb psk" and clock: "clock_from E T W"
    and fill: "\<And>w. w \<in> W \<Longrightarrow> length (fst (fill_bytes E SESSION_ID_SIZE w)) = SESSION_ID_SIZE" and w: "w \<in> W"
  obtains ih w1 where "initiator_start E ka pb psk w = (Ok ih, w1)"
    and "ih_handshake_id ih = fst (fill_bytes E SESSION_ID_SIZE w)" and "ih_message ih \<noteq> []"
    and "\<And>rk psk' w. rk \<noteq> pa \<Longrightarrow> \<exists>e. responder_respond E kb rk psk' (ih_handshake_id ih) (ih_message ih) w = (Err e, w)"
    and "\<And>w2. w2 \<in> W \<Longrightarrow> \<exists>rh w3. responder_respond E kb pa psk (ih_handshake_id ih) (ih_message ih) w2 = (Ok rh, w3)
      \<and> w3 \<in> W \<and> rh_message rh \<noteq> [] \<and> session_id (rh_session rh) = fst (fill_bytes E SESSION_ID_SIZE w2)
      \<and> new_session T (rh_session rh)
      \<and> (\<forall>w4 \<in> W. \<exists>s w5. initiator_finalize E (ih_state ih) (rh_message rh) w4 = (Ok s, w5)
           \<and> new_session T s \<and> linked E s (rh_session rh))"
proof -
  obtain hid wa where hid: "fill_bytes E SESSION_ID_SIZE w = (hid, wa)" by (cases "fill_bytes E SESSION_ID_SIZE w")
  let ?pro = "handshake_prologue hid"
  from hid clock w have wa: "wa \<in> W" unfolding clock_from_def by (metis snd_conv)
  from law have "\<exists>i r. build_initiator E ka pb psk ?pro = Ok i \<and> build_responder E kb psk ?pro = Ok r \<and>
      (\<forall>w \<in> W. first_message E W kb pa ?pro i r w)"
    unfolding noise_completes_def by blast
  then obtain i r where build: "build_initiator E ka pb psk ?pro = Ok i" "build_responder E kb psk ?pro = Ok r"
    and "first_message E W kb pa ?pro i r wa" using wa by blast
  from this(3) obtain m1 i1 w1 where
    m1: "hs_write E i [] MAX_NOISE_MESSAGE_SIZE wa = (Ok (m1, i1), w1)" "m1 \<noteq> []"
    and other: "\<And>psk' q payload r'. build_responder E kb psk' ?pro = Ok q \<Longrightarrow>
           hs_read E q m1 MAX_NOISE_MESSAGE_SIZE = Ok (payload, r') \<Longrightarrow> hs_remote_static E r' \<in> {None, Some pa}"
    and reply: "\<And>r1 sid w2. w2 \<in> W \<Longrightarrow> hs_read E r m1 MAX_NOISE_MESSAGE_SIZE = Ok ([], r1) \<Longrightarrow>
        length sid = SESSION_ID_SIZE \<Longrightarrow> second_message E r1 i1 sid w2"
    unfolding first_message_def by blast
  from law have match: "noise_matches E ka pa kb pb psk" by (simp add: noise_completes_def)
  define ih where "ih = \<lparr>ih_handshake_id = hid, ih_message = m1,
    ih_state = \<lparr>is_handshake_id = hid, is_state = i1\<rparr>\<rparr>"
  have start: "initiator_start E ka pb psk w = (Ok ih, w1)"
    by (simp add: initiator_start_def initiator_start_with_id_def io_bind_def io_draw_def io_lift_def
        io_map_err_def hid build m1 ih_def)
  obtain r1 where r1: "hs_read E r m1 MAX_NOISE_MESSAGE_SIZE = Ok ([], r1)" "hs_remote_static E r1 = Some pa"
    and fin: "\<And>sid w2 m2 r2 w3. length sid = SESSION_ID_SIZE \<Longrightarrow>
       hs_write E r1 sid MAX_NOISE_MESSAGE_SIZE w2 = (Ok (m2, r2), w3) \<Longrightarrow>
       \<exists>i2. hs_read E i1 m2 (SESSION_ID_SIZE + AEAD_TAG_SIZE) = Ok (sid, i2)
         \<and> (\<forall>ta tb. hs_transport E i2 = Ok ta \<longrightarrow> hs_transport E r2 = Ok tb \<longrightarrow> paired E ta tb \<and> paired E tb ta)"
    using match build m1(1) unfolding noise_matches_def by blast
  have state: "ih_state ih = \<lparr>is_handshake_id = hid, is_state = i1\<rparr>" by (simp add: ih_def)
  have answer: "\<exists>rh w3. responder_respond E kb pa psk hid m1 w2 = (Ok rh, w3)
      \<and> w3 \<in> W \<and> rh_message rh \<noteq> [] \<and> session_id (rh_session rh) = fst (fill_bytes E SESSION_ID_SIZE w2)
      \<and> new_session T (rh_session rh)
      \<and> (\<forall>w4 \<in> W. \<exists>s w5. initiator_finalize E (ih_state ih) (rh_message rh) w4 = (Ok s, w5)
           \<and> new_session T s \<and> linked E s (rh_session rh))" if w2: "w2 \<in> W" for w2
    unfolding state using reply [OF _ r1(1)] fin by (intro responder_answers [OF clock fill w2 build(2) r1])
  have others: "\<exists>e. responder_respond E kb rk psk' hid m1 w = (Err e, w)" if "rk \<noteq> pa" for rk psk' w
    using other that by (intro respond_other [where pa = pa]) blast+
  show thesis
    using answer others by (intro that [OF start]) (simp_all add: ih_def hid m1(2))
qed

subsection \<open>The four frames\<close>

definition idle :: "('hs, 'ts) session_state \<Rightarrow> string \<Rightarrow> bool" where
  "idle st p \<longleftrightarrow> (\<forall>a. slot_peer a = p \<longrightarrow> session_at st a = None)
    \<and> hm_get (pending_init st) p = None \<and> hm_get (responder_cache st) p = None"

lemma idleD:
  assumes "idle st p"
  shows "hm_get (sessions st) p = None" "hm_get (previous_sessions st) p = None"
    "hm_get (responder_candidates st) p = None" "hm_get (pending_init st) p = None" "hm_get (responder_cache st) p = None"
proof -
  from assms have "session_at st a = None" if "slot_peer a = p" for a using that unfolding idle_def by blast
  from this [of "Active p"] this [of "Previous p"] this [of "Candidate p"]
  show "hm_get (sessions st) p = None" "hm_get (previous_sessions st) p = None"
    "hm_get (responder_candidates st) p = None" by simp_all
  from assms show "hm_get (pending_init st) p = None" "hm_get (responder_cache st) p = None" by (simp_all add: idle_def)
qed

text \<open>The peer behind a static key, among the peers of a router.\<close>

definition knows :: "'net router \<Rightarrow> string \<Rightarrow> bytes \<Rightarrow> bytes \<Rightarrow> bool" where
  "knows R name pub psk \<longleftrightarrow> (\<exists>r \<in> set (routes R). peer_name (route_peer r) = name)
    \<and> (\<forall>r \<in> set (routes R). (peer_name (route_peer r) = name \<longleftrightarrow> peer_public_key (route_peer r) = pub)
         \<and> (peer_name (route_peer r) = name \<longrightarrow> peer_psk (route_peer r) = psk))"

lemma decode_finds:
  assumes "\<exists>r \<in> set rs. peer_name (route_peer r) = name"
    and "\<forall>r \<in> set rs. (peer_name (route_peer r) = name \<longleftrightarrow> peer_public_key (route_peer r) = pub)
      \<and> (peer_name (route_peer r) = name \<longrightarrow> peer_psk (route_peer r) = psk)"
    and "name \<notin> checked"
    and others: "\<And>rk psk' w. rk \<noteq> pub \<Longrightarrow> \<exists>e. responder_respond E k rk psk' hid msg w = (Err e, w)"
    and ok: "responder_respond E k pub psk hid msg w = (Ok rh, w')"
  shows "decode_handshake_init E k hid msg checked rs w = (Some (name, rh), w')"
  using assms(1-3)
proof (induction rs arbitrary: checked)
  case (Cons r rs)
  let ?p = "route_peer r"
  show ?case
  proof (cases "peer_name ?p = name")
    case True
    with Cons.prems ok show ?thesis by (simp add: Let_def)
  next
    case False
    with Cons.prems have key: "peer_public_key ?p \<noteq> pub" by simp
    have rest: "decode_handshake_init E k hid msg c rs w = (Some (name, rh), w')" if "name \<notin> c" for c
      using Cons.prems False that by (intro Cons.IH) auto
    from others [OF key, of "peer_psk ?p" w] rest [of checked] rest [of "insert (peer_name ?p) checked"] Cons.prems(3) False
    show ?thesis by (auto simp: Let_def)
  qed
qed simp

text \<open>First frame: an outbound packet for an idle peer starts a handshake.\<close>

definition begun :: "('hs, 'ts) session_state \<Rightarrow> string \<Rightarrow> 'hs initiator_handshake \<Rightarrow> ('hs, 'ts) session_state \<Rightarrow> bool" where
  "begun st0 p ih st \<longleftrightarrow> (\<forall>a s. session_at st a = Some s \<longrightarrow> session_at st0 a = Some s)
    \<and> (\<exists>pending. pi_handshake_id pending = ih_handshake_id ih \<and> pi_state pending = ih_state ih
         \<and> (\<forall>q. hm_get (pending_init st) q = (if q = p then Some pending else hm_get (pending_init st0) q)))"

lemma first_frame:
  assumes wf: "sm_wf (en_sessions A)" and idle: "idle (en_sessions A) nb"
    and p: "ipv4_parse packet = Ok v" "lookup L (en_router A) (ipv4_destination v) = Some r"
      "peer_name (route_peer r) = nb" "resolve_endpoint A (route_peer r) = Some ep"
    and start: "initiator_start E (local_static A) (peer_public_key (route_peer r)) (peer_psk (route_peer r)) w = (Ok ih, w1)"
  obtains A' where "process_outbound_ip L E A packet now w = (Ok \<lparr>out_actions =
      [SendTransport nb ep (encode_handshake HandshakeInit (ih_handshake_id ih) (ih_message ih))], out_events = []\<rparr>, A', w1)"
    and "begun (en_sessions A) nb ih (en_sessions A')"
proof -
  let ?st = "en_sessions A" and ?packet = "encode_handshake HandshakeInit (ih_handshake_id ih) (ih_message ih)"
  let ?st1 = "?st\<lparr>previous_sessions := retain_live now (previous_sessions ?st)\<rparr>"
  let ?pending = "\<lparr>pi_handshake_id = ih_handshake_id ih, pi_state = ih_state ih, pi_packet = ?packet,
    pi_created_at = now, pi_last_sent = now\<rparr>"
  let ?st2 = "?st1\<lparr>pending_init := hm_insert nb ?pending (pending_init ?st)\<rparr>"
  note none = idleD [OF idle]
  have e: "encrypt_for_peer E ?st nb Data packet now = (Ok None, ?st1)"
    by (simp add: encrypt_for_peer_def drop_expired_active_def Let_def none)
  have s: "start_or_retry_handshake E ?st1 nb (local_static A) (peer_public_key (route_peer r)) (peer_psk (route_peer r)) now w
      = (Ok (Some ?packet), ?st2, w1)"
    by (simp add: start_or_retry_handshake_def drop_expired_active_def hm_contains_def Let_def none start)
  have ep': "resolve_endpoint (A\<lparr>en_sessions := ?st1\<rparr>) (route_peer r) = Some ep"
    using p(4) resolve_same [of "A\<lparr>en_sessions := ?st1\<rparr>" A] by simp
  have "process_outbound_ip L E A packet now w =
      (Ok \<lparr>out_actions = [SendTransport nb ep ?packet], out_events = []\<rparr>, A\<lparr>en_sessions := ?st2\<rparr>, w1)"
    by (simp add: process_outbound_ip_def p encrypt_or_initiate_def e push_initiation_def
        initiate_peer_def ep' s no_output_def)
  moreover have "session_at ?st2 a = Some s \<Longrightarrow> session_at ?st a = Some s" for a s
    using wf by (cases a) (simp_all add: sm_wf_def)
  then have "begun ?st nb ih ?st2" unfolding begun_def by (auto intro!: exI [of _ ?pending])
  ultimately show thesis using that by simp
qed

text \<open>Second frame: the responder answers and keeps the session as a candidate.\<close>

definition answered :: "('hs, 'ts) session_state \<Rightarrow> string \<Rightarrow> 'ts session \<Rightarrow> ('hs, 'ts) session_state \<Rightarrow> bool" where
  "answered st0 p s st \<longleftrightarrow>
    (\<forall>a. session_at st a = (if a = Candidate p then Some s else session_at st0 a)) \<and> hm_get (pending_init st) p = None"

lemma accept_idle:
  assumes "hm_get (pending_init st) p = None"
  obtains st' where "accept_inbound_initiation E st p hid passive w = (True, st', w)"
    and "sessions st' = sessions st" "previous_sessions st' = previous_sessions st"
      "responder_candidates st' = responder_candidates st" "responder_cache st' = responder_cache st"
      "hm_get (pending_init st') p = None"
proof (cases "passive \<and> p \<in> inbound_recovery_preference st")
  case True
  with assms that show thesis by (simp add: accept_inbound_initiation_def elapsed_at_least_def Let_def)
next
  case False
  with assms that [of st] show thesis by (auto simp: accept_inbound_initiation_def elapsed_at_least_def Let_def)
qed

lemma second_frame:
  assumes idle: "idle (en_sessions B) na" and knows: "knows (en_router B) na pa psk"
    and others: "\<And>rk psk' w. rk \<noteq> pa \<Longrightarrow> \<exists>e. responder_respond E (local_static B) rk psk' hid msg w = (Err e, w)"
    and respond: "responder_respond E (local_static B) pa psk hid msg w = (Ok rh, w1)"
    and fresh: "\<not> session_id_in_use (en_sessions B) (session_id (rh_session rh))"
    and wire: "length hid = SESSION_ID_SIZE" "msg \<noteq> []"
  obtains B' w2 where "process_inbound_transport E B (encode_handshake HandshakeInit hid msg) source now w =
      (Ok \<lparr>out_actions = [SendTransport na source (encode_handshake HandshakeResponse hid (rh_message rh))],
           out_events = []\<rparr>, B', w2)"
    and "answered (en_sessions B) na (rh_session rh) (en_sessions B')"
proof -
  note none = idleD [OF idle]
  have found: "decode_handshake_init E (local_static B) hid msg {} (routes (en_router B)) w = (Some (na, rh), w1)"
    using knows by (intro decode_finds [OF _ _ _ others respond]) (auto simp: knows_def)
  have frame: "decode_packet (encode_handshake HandshakeInit hid msg) = Some (PHandshake HandshakeInit hid msg)"
    using wire by (intro decode_encode_handshake) simp_all
  obtain st1 where accepted: "accept_inbound_initiation E (en_sessions B) na hid
      (opt_test (\<lambda>p. \<not> usable_peer_endpoint (peer_endpoint_addr p)) (engine_peer B na)) w1 = (True, st1, w1)"
    and same: "sessions st1 = sessions (en_sessions B)" "previous_sessions st1 = previous_sessions (en_sessions B)"
      "responder_candidates st1 = responder_candidates (en_sessions B)" "responder_cache st1 = responder_cache (en_sessions B)"
      "hm_get (pending_init st1) na = None" by (rule accept_idle [OF none(4)])
  have cached: "cached_responder_response E st1 na hid msg w1 = (None, st1, w1)"
    by (simp add: cached_responder_response_def elapsed_at_least_def same none)
  obtain tm w2 where now: "instant_now E w1 = (tm, w2)" by (cases "instant_now E w1")
  have unused: "\<not> session_id_in_use st1 (session_id (rh_session rh))"
    using fresh by (simp add: session_id_in_use_def same)
  define st2 where "st2 = st1\<lparr>pending_init := hm_remove na (pending_init st1),
    responder_candidates := hm_insert na (rh_session rh) (responder_candidates st1),
    responder_cache := hm_insert na \<lparr>cr_handshake_id = hid, cr_request = msg,
      cr_response = encode_handshake HandshakeResponse hid (rh_message rh), cr_created_at = tm\<rparr> (responder_cache st1)\<rparr>"
  have stored: "store_responder_candidate E st1 na (rh_session rh) hid msg
      (encode_handshake HandshakeResponse hid (rh_message rh)) w1 = (True, st2, w2)"
    by (simp add: store_responder_candidate_def unused now st2_def)
  have "process_inbound_transport E B (encode_handshake HandshakeInit hid msg) source now w =
      (Ok \<lparr>out_actions = [SendTransport na source (encode_handshake HandshakeResponse hid (rh_message rh))],
           out_events = []\<rparr>, B\<lparr>en_sessions := st2\<rparr>, w2)"
    by (simp add: process_inbound_transport_def frame inbound_init_def found accepted cached stored Let_def no_output_def)
  moreover have "session_at st2 a = (if a = Candidate na then Some (rh_session rh) else session_at (en_sessions B) a)" for a
    by (cases a) (simp_all add: st2_def same)
  ultimately show thesis using that by (simp add: answered_def st2_def)
qed

text \<open>Third frame: the initiator installs its session and confirms.\<close>

lemma third_frame:
  assumes wf: "sm_wf st0" "sm_wf (en_sessions A)" and begun: "begun st0 nb ih (en_sessions A)"
    and only: "\<And>q pending. hm_get (pending_init st0) q = Some pending \<Longrightarrow> pi_handshake_id pending \<noteq> ih_handshake_id ih"
    and finish: "initiator_finalize E (ih_state ih) msg w = (Ok s, w1)"
    and fresh: "\<not> session_id_in_use st0 (session_id s)"
    and confirm: "encrypt E s Keepalive KEEPALIVE_PROBE_PAYLOAD = (Ok frame, s')"
    and wire: "length (ih_handshake_id ih) = SESSION_ID_SIZE" "msg \<noteq> []"
  obtains A' w2 where "process_inbound_transport E A (encode_handshake HandshakeResponse (ih_handshake_id ih) msg) source now w =
      (Ok \<lparr>out_actions = [SendTransport nb source frame], out_events = [HandshakeCompleted nb source Initiator]\<rparr>, A', w2)"
    and "hm_get (sessions (en_sessions A')) nb = Some s'" and "hm_get (pending_init (en_sessions A')) nb = None"
    and "hm_get (responder_candidates (en_sessions A')) nb = None"
proof -
  let ?st = "en_sessions A"
  from begun obtain pending where pending: "pi_handshake_id pending = ih_handshake_id ih" "pi_state pending = ih_state ih"
    "\<And>q. hm_get (pending_init ?st) q = (if q = nb then Some pending else hm_get (pending_init st0) q)"
    unfolding begun_def by blast
  have wfp: "hm_wf (pending_init ?st)" using wf(2) by (simp add: sm_wf_def)
  have key: "hm_find_key (\<lambda>p. pi_handshake_id p = ih_handshake_id ih) (pending_init ?st) = Some nb"
  proof (cases "hm_find_key (\<lambda>p. pi_handshake_id p = ih_handshake_id ih) (pending_init ?st)")
    case None
    from hm_find_key_None_get [OF None, of nb pending] pending show ?thesis by simp
  next
    case (Some q)
    from hm_find_key_Some [OF wfp Some] obtain v where "hm_get (pending_init ?st) q = Some v"
      "pi_handshake_id v = ih_handshake_id ih" by blast
    with pending(3) [of q] only [of q v] have "q = nb" by (simp split: if_splits)
    with Some show ?thesis by simp
  qed
  have unused: "\<not> session_id_in_use (?st\<lparr>pending_init := hm_remove nb (pending_init ?st)\<rparr>) (session_id s)"
  proof -
    have "\<not> session_id_in_use ?st (session_id s)"
      using fresh begun unfolding begun_def session_id_in_use_iff [OF wf(1)] session_id_in_use_iff [OF wf(2)] by blast
    then show ?thesis by (simp add: session_id_in_use_def)
  qed
  define st1 where "st1 = install_active_session (?st\<lparr>pending_init := hm_remove nb (pending_init ?st)\<rparr>) nb s'"
  define st2 where "st2 = st1\<lparr>responder_candidates := hm_remove nb (responder_candidates st1),
    responder_cache := hm_remove nb (responder_cache st1)\<rparr>"
  have fin: "finalize_initiator E ?st (ih_handshake_id ih) msg w = (Ok (Some (nb, frame)), st2, w1)"
    by (simp add: finalize_initiator_def key pending finish unused confirm Let_def st1_def st2_def)
  have frame: "decode_packet (encode_handshake HandshakeResponse (ih_handshake_id ih) msg)
      = Some (PHandshake HandshakeResponse (ih_handshake_id ih) msg)"
    using wire by (intro decode_encode_handshake) simp_all
  obtain tm w2 where "instant_now E w1 = (tm, w2)" by (cases "instant_now E w1")
  then have "process_inbound_transport E A (encode_handshake HandshakeResponse (ih_handshake_id ih) msg) source now w =
      (Ok \<lparr>out_actions = [SendTransport nb source frame], out_events = [HandshakeCompleted nb source Initiator]\<rparr>,
       A\<lparr>en_sessions := st2, en_peers := record_keepalive (en_peers A) nb source tm\<rparr>, w2)"
    by (simp add: process_inbound_transport_def frame inbound_response_def fin Let_def)
  moreover have "hm_get (sessions st2) nb = Some s'"
    using install_at [of "?st\<lparr>pending_init := hm_remove nb (pending_init ?st)\<rparr>" nb s' "Active nb"]
    by (simp add: st2_def st1_def)
  moreover have "hm_get (pending_init st2) nb = None" "hm_get (responder_candidates st2) nb = None"
    by (simp_all add: st2_def st1_def keeps)
  ultimately show thesis using that by simp
qed

text \<open>Fourth frame: the confirmation promotes the candidate, and the responder acknowledges.\<close>

lemma decrypt_transport_promotes:
  assumes wf: "sm_wf st" and uniq: "ids_unique st" and t: "session_at st (Candidate p) = Some t" "\<not> is_expired t now"
    and d: "decrypt E t (session_id t) c ct = (Ok x, t')"
  obtains st' where "decrypt_transport E st (session_id t) c ct now = (transport_of p True (Ok x), st')"
    and "hm_get (sessions st') p = Some t'" and "hm_get (pending_init st') p = None"
    and "hm_get (responder_candidates st') p = None"
proof -
  obtain q st' where q: "decrypt_transport E st (session_id t) c ct now = (q, st')"
    by (cases "decrypt_transport E st (session_id t) c ct now")
  have only: "a = Candidate p" if "session_at (retain_all_live now st) a = Some u" "session_id u = session_id t" for a u
    using that ids_uniqueD [OF uniq _ t(1), of a u] by (simp add: retain_all_at [OF wf] del: session_at.simps)
  from wf q show thesis
  proof (cases rule: decrypt_transport_cases)
    case unknown
    from unknown(3) [of "Candidate p" t] t show thesis by (simp add: retain_all_at [OF wf] del: session_at.simps)
  next
    case (active p' u)
    from only [OF active(1,2)] show thesis by simp
  next
    case (previous p' u)
    from only [OF previous(1,2)] show thesis by simp
  next
    case (refused p' u e u')
    from only [OF refused(1,2)] have "p' = p" by simp
    with refused(1) t(1) have "u = t" by (simp add: retain_all_at [OF wf] del: session_at.simps)
    with refused(3) d show thesis by simp
  next
    case (promoted p' u y u' st2)
    from only [OF promoted(1,2)] have p': "p' = p" by simp
    with promoted(1) t(1) have u: "u = t" by (simp add: retain_all_at [OF wf] del: session_at.simps)
    with promoted(3) d have "y = x" "u' = t'" by simp_all
    moreover have "hm_get (sessions st2) p = Some t'"
      using install_at [of "(retain_all_live now st)\<lparr>responder_candidates :=
          hm_remove p (responder_candidates (retain_all_live now st))\<rparr>" p t' "Active p"] promoted(5) p' \<open>u' = t'\<close> by simp
    moreover have "responder_candidates st2 = hm_remove p (responder_candidates (retain_all_live now st))"
      using promoted(5) p' by (simp add: keeps)
    ultimately show thesis
      using q promoted(4,6) p' by (intro that [of st']) simp_all
  qed
qed

lemma fourth_frame:
  assumes inv: "sm_wf (en_sessions B)" "ids_unique (en_sessions B)"
    and answered: "answered st0 na t (en_sessions B)" and live: "\<not> is_expired t now" "\<not> is_expired t' now"
    and d: "decrypt E t (session_id t) c ct = (Ok (Keepalive, KEEPALIVE_PROBE_PAYLOAD), t')"
    and f: "decode_packet frame = Some (PTransport (session_id t) c ct)"
    and ack: "encrypt E t' Keepalive KEEPALIVE_ACK_PAYLOAD = (Ok answer, t2)"
  obtains B' w' where "process_inbound_transport E B frame source now w =
      (Ok \<lparr>out_actions = [SendTransport na source answer], out_events = [HandshakeCompleted na source Responder]\<rparr>, B', w')"
    and "hm_get (sessions (en_sessions B')) na = Some t2" and "hm_get (pending_init (en_sessions B')) na = None"
    and "hm_get (responder_candidates (en_sessions B')) na = None"
proof -
  from answered have at: "session_at (en_sessions B) (Candidate na) = Some t" unfolding answered_def by metis
  obtain st1 where st1: "decrypt_transport E (en_sessions B) (session_id t) c ct now =
      (transport_of na True (Ok (Keepalive, KEEPALIVE_PROBE_PAYLOAD)), st1)"
    and now1: "hm_get (sessions st1) na = Some t'" "hm_get (pending_init st1) na = None" "hm_get (responder_candidates st1) na = None"
    by (rule decrypt_transport_promotes [OF inv at live(1) d])
  obtain st2 where st2: "encrypt_for_peer E st1 na Keepalive KEEPALIVE_ACK_PAYLOAD now = (Ok (Some answer), st2)"
    and now2: "hm_get (sessions st2) na = Some t2" "pending_init st2 = pending_init st1"
      "responder_candidates st2 = responder_candidates st1"
    by (rule encrypt_for_peer_active [OF now1(1) live(2) ack])
  obtain tm w1 where "instant_now E w = (tm, w1)" by (cases "instant_now E w")
  then have "process_inbound_transport E B frame source now w =
      (Ok \<lparr>out_actions = [SendTransport na source answer], out_events = [HandshakeCompleted na source Responder]\<rparr>,
       B\<lparr>en_sessions := st2, en_peers := record_keepalive (en_peers B) na source tm\<rparr>, w1)"
    by (simp add: process_inbound_transport_def f inbound_transport_def st1 transport_of_def st2)
  with now1 now2 that show thesis by simp
qed

lemma fifth_frame:
  assumes inv: "sm_inv (en_sessions A) log" and s: "hm_get (sessions (en_sessions A)) nb = Some s" "\<not> is_expired s now"
      "hm_get (pending_init (en_sessions A)) nb = None" "hm_get (responder_candidates (en_sessions A)) nb = None"
    and d: "decrypt E s (session_id s) c ct = (Ok (Keepalive, KEEPALIVE_ACK_PAYLOAD), s')"
    and f: "decode_packet frame = Some (PTransport (session_id s) c ct)"
  obtains A' where "process_inbound_transport E A frame source now w =
      (Ok \<lparr>out_actions = [], out_events = []\<rparr>, A', snd (instant_now E w))"
    and "hm_get (sessions (en_sessions A')) nb = Some s'" and "hm_get (pending_init (en_sessions A')) nb = None"
    and "hm_get (responder_candidates (en_sessions A')) nb = None"
proof -
  obtain st1 where st1: "decrypt_transport E (en_sessions A) (session_id s) c ct now =
      (transport_of nb False (Ok (Keepalive, KEEPALIVE_ACK_PAYLOAD)), st1)"
    and same: "hm_get (sessions st1) nb = Some s'" "pending_init st1 = pending_init (en_sessions A)"
      "responder_candidates st1 = retain_live now (responder_candidates (en_sessions A))"
    by (rule decrypt_transport_active [OF inv s(1,2) refl d])
  have none: "hm_get (responder_candidates st1) nb = None"
    using inv s(4) same(3) retain_live_get [of "responder_candidates (en_sessions A)" now nb]
    by (cases "hm_get (retain_live now (responder_candidates (en_sessions A))) nb") (auto simp: sm_inv_def sm_wf_def)
  obtain tm w1 where now: "instant_now E w = (tm, w1)" by (cases "instant_now E w")
  have "KEEPALIVE_ACK_PAYLOAD \<noteq> KEEPALIVE_PROBE_PAYLOAD" by (simp add: KEEPALIVE_ACK_PAYLOAD_def KEEPALIVE_PROBE_PAYLOAD_def)
  then have "process_inbound_transport E A frame source now w = (Ok \<lparr>out_actions = [], out_events = []\<rparr>,
       A\<lparr>en_sessions := st1, en_peers := record_keepalive (en_peers A) nb source tm\<rparr>, snd (instant_now E w))"
    by (simp add: process_inbound_transport_def f inbound_transport_def st1 transport_of_def now)
  with same none s(3) that show thesis by simp
qed

lemma linked_skip:
  assumes "linked E s t" and "send_counter s \<noteq> - 1"
  shows "linked E (s\<lparr>send_counter := send_counter s + 1\<rparr>) t"
proof -
  have "send_counter s < send_counter s + 1" using encrypt_advances(2) [OF assms(2)] by (simp add: word_less_nat_alt)
  with assms(1) show ?thesis unfolding linked_def one_way_def by (auto intro: order.strict_trans)
qed

lemma new_session_live: "new_session T s \<Longrightarrow> now < T + secs 120 \<Longrightarrow> \<not> is_expired s now"
  by (auto simp: new_session_def is_expired_def duration_since_def REJECT_AFTER_TIME_def secs_def)

lemma payload_sizes:
  "length KEEPALIVE_PROBE_PAYLOAD + 17 \<le> MAX_NOISE_MESSAGE_SIZE" "length KEEPALIVE_ACK_PAYLOAD + 17 \<le> MAX_NOISE_MESSAGE_SIZE"
  by (simp_all add: KEEPALIVE_PROBE_PAYLOAD_def KEEPALIVE_ACK_PAYLOAD_def MAX_NOISE_MESSAGE_SIZE_def)

text \<open>The four frames on the level of sessions: the initiator's session, its confirmation, the candidate
before and after it, and the acknowledgement.\<close>

lemma handshake_frames:
  fixes E :: "('hs, 'ts, 'w) runtime"
  assumes l: "linked E s t" and new: "new_session T s" "new_session T t" and n: "n + 1 < 2 ^ 32"
  obtains ct s' t' f4 t2 cta s2 where
    "encrypt E s Keepalive KEEPALIVE_PROBE_PAYLOAD = (Ok (encode_transport (session_id t) 0 ct), s')"
    and "decode_packet (encode_transport (session_id t) 0 ct) = Some (PTransport (session_id t) 0 ct)"
    and "decrypt E t (session_id t) 0 ct = (Ok (Keepalive, KEEPALIVE_PROBE_PAYLOAD), t')"
    and "encrypt E t' Keepalive KEEPALIVE_ACK_PAYLOAD = (Ok f4, t2)"
    and "decode_packet f4 = Some (PTransport (session_id t) 0 cta)"
    and "decrypt E s' (session_id t) 0 cta = (Ok (Keepalive, KEEPALIVE_ACK_PAYLOAD), s2)" and "linked E s2 t2"
    and "session_id s' = session_id t" and "created_at s' = created_at s"
    and "linked E s' t2" and "created_at t' = created_at t" and "send_counter t' = 0"
    and "\<And>(st :: ('hs, 'ts) session_state) p. hm_get (sessions st) p = Some s' \<Longrightarrow> hm_get (pending_init st) p = None \<Longrightarrow>
      hm_get (responder_candidates st) p = None \<Longrightarrow> holds_session T n st p s'"
    and "\<And>(st :: ('hs, 'ts) session_state) p. hm_get (sessions st) p = Some t2 \<Longrightarrow> hm_get (pending_init st) p = None \<Longrightarrow>
      hm_get (responder_candidates st) p = None \<Longrightarrow> holds_session T n st p t2"
    and "\<And>(st :: ('hs, 'ts) session_state) p. hm_get (sessions st) p = Some s2 \<Longrightarrow> hm_get (pending_init st) p = None \<Longrightarrow>
      hm_get (responder_candidates st) p = None \<Longrightarrow> holds_session T n st p s2"
proof -
  have c: "send_counter s = 0" "send_counter t = 0" using new by (simp_all add: new_session_def)
  have low: "(0 :: u64) < REKEY_AFTER_MESSAGES" by (simp add: below_rekey)
  have sid: "session_id s = session_id t" using l by (simp add: linked_def)
  from linked_carries [OF l low [folded c(1)] payload_sizes(1), of Keepalive] obtain ct s' t' where
    e: "encrypt E s Keepalive KEEPALIVE_PROBE_PAYLOAD = (Ok (encode_transport (session_id t) 0 ct), s')"
    and d: "decrypt E t (session_id t) 0 ct = (Ok (Keepalive, KEEPALIVE_PROBE_PAYLOAD), t')"
    and f: "decode_packet (encode_transport (session_id t) 0 ct) = Some (PTransport (session_id t) 0 ct)"
    and s': "s' = s\<lparr>send_counter := send_counter s + 1\<rparr>"
    and t': "t' = t\<lparr>replay := snd (mark_authenticated (replay t) 0), received_messages := saturating_add_u64 (received_messages t) 1\<rparr>"
    and l': "linked E s' t'" unfolding sid c(1) .
  have c': "send_counter t' = 0" using c(2) t' by simp
  have sid': "session_id t' = session_id t" "session_id s' = session_id t" using sid by (simp_all add: t' s')
  from linked_carries [OF l' [unfolded linked_sym [of E s']] low [folded c'] payload_sizes(2), of Keepalive] obtain cta t2 s2 where
    a: "encrypt E t' Keepalive KEEPALIVE_ACK_PAYLOAD = (Ok (encode_transport (session_id t) 0 cta), t2)"
    and da: "decrypt E s' (session_id t) 0 cta = (Ok (Keepalive, KEEPALIVE_ACK_PAYLOAD), s2)"
    and fa: "decode_packet (encode_transport (session_id t) 0 cta) = Some (PTransport (session_id t) 0 cta)"
    and t2: "t2 = t'\<lparr>send_counter := send_counter t' + 1\<rparr>"
    and s2: "s2 = s'\<lparr>replay := snd (mark_authenticated (replay s') 0), received_messages := saturating_add_u64 (received_messages s') 1\<rparr>"
    and la: "linked E t2 s2" unfolding sid' c' .
  have "linked E t2 s'" unfolding t2 using l' c' by (intro linked_skip) (simp_all add: linked_sym [of E s'])
  then have l2: "linked E s' t2" by (simp add: linked_sym [of E s'])
  have "holds_session T n st p s'" if "hm_get (sessions st) p = Some s'" "hm_get (pending_init st) p = None"
      "hm_get (responder_candidates st) p = None" for st :: "('hs, 'ts) session_state" and p
    using that new(1) n by (simp add: holds_session_def new_session_def s')
  moreover have "unat (received_messages t') \<le> 1"
    using new(2) unat_saturating_Suc [of "received_messages t"] by (simp add: t' new_session_def)
  then have "holds_session T n st p t2" if "hm_get (sessions st) p = Some t2" "hm_get (pending_init st) p = None"
      "hm_get (responder_candidates st) p = None" for st :: "('hs, 'ts) session_state" and p
    using that new(2) n by (simp add: holds_session_def new_session_def t2 t')
  moreover have "unat (received_messages s2) \<le> 1"
    using new(1) unat_saturating_Suc [of "received_messages s"] by (simp add: s2 s' new_session_def)
  then have "holds_session T n st p s2" if "hm_get (sessions st) p = Some s2" "hm_get (pending_init st) p = None"
      "hm_get (responder_candidates st) p = None" for st :: "('hs, 'ts) session_state" and p
    using that new(1) n by (simp add: holds_session_def new_session_def s2 s')
  ultimately show thesis
    using la by (intro that [OF e f d a fa da _ sid'(2) _ l2 _ c']) (simp_all add: t' s' linked_sym [of E t2])
qed

definition ready_pair ::
    "'net libs \<Rightarrow> ('hs, 'ts, 'w) runtime \<Rightarrow> 'w set \<Rightarrow> string \<Rightarrow> string \<Rightarrow> bytes \<Rightarrow> bytes \<Rightarrow> bytes
      \<Rightarrow> ('net, 'hs, 'ts) engine \<Rightarrow> ('net, 'hs, 'ts) engine \<Rightarrow> bool" where
  "ready_pair L E W na nb pa pb psk A B \<longleftrightarrow>
    (\<exists>log. sm_inv (en_sessions A) log) \<and> (\<exists>log. sm_inv (en_sessions B) log)
    \<and> idle (en_sessions A) nb \<and> idle (en_sessions B) na
    \<and> knows (en_router A) nb pb psk \<and> knows (en_router B) na pa psk
    \<and> noise_completes E W (local_static A) pa (local_static B) pb psk
    \<and> draws_fresh E W (en_sessions A) \<and> draws_fresh E W (en_sessions B)"

lemma lookup_mem: "lookup L R dest = Some r \<Longrightarrow> r \<in> set (routes R)"
  by (auto simp: lookup_def find_Some_iff)

text \<open>The first two frames: an attempt of the initiator and a candidate of the responder, from which
the initiator can make a session that is linked to the candidate.\<close>

lemma handshake_opens:
  fixes E :: "('hs, 'ts, 'w) runtime"
  assumes ready: "ready_pair L E W na nb pa pb psk A B" and clock: "clock_from E T W"
    and route: "routes_to L A nb packet" and W: "w1 \<in> W" "w2 \<in> W"
  obtains ep A1 B1 v1 v2 and ih :: "'hs initiator_handshake" and rh :: "'ts responder_handshake" where
    "process_outbound_ip L E A packet now w1 = (Ok \<lparr>out_actions =
      [SendTransport nb ep (encode_handshake HandshakeInit (ih_handshake_id ih) (ih_message ih))], out_events = []\<rparr>, A1, v1)"
    and "process_inbound_transport E B (encode_handshake HandshakeInit (ih_handshake_id ih) (ih_message ih)) srca t1 w2 =
      (Ok \<lparr>out_actions = [SendTransport na srca (encode_handshake HandshakeResponse (ih_handshake_id ih) (rh_message rh))],
           out_events = []\<rparr>, B1, v2)"
    and "begun (en_sessions A) nb ih (en_sessions A1)" and "answered (en_sessions B) na (rh_session rh) (en_sessions B1)"
    and "length (ih_handshake_id ih) = SESSION_ID_SIZE" and "rh_message rh \<noteq> []" and "new_session T (rh_session rh)"
    and "\<not> session_id_in_use (en_sessions A) (session_id (rh_session rh))"
    and "\<And>q pending. hm_get (pending_init (en_sessions A)) q = Some pending \<Longrightarrow> pi_handshake_id pending \<noteq> ih_handshake_id ih"
    and "\<And>w3. w3 \<in> W \<Longrightarrow> \<exists>s u3. initiator_finalize E (ih_state ih) (rh_message rh) w3 = (Ok s, u3)
      \<and> new_session T s \<and> linked E s (rh_session rh)"
proof -
  from ready obtain loga where inv: "sm_inv (en_sessions A) loga"
    and idle: "idle (en_sessions A) nb" "idle (en_sessions B) na"
    and knows: "knows (en_router A) nb pb psk" "knows (en_router B) na pa psk"
    and noise: "noise_completes E W (local_static A) pa (local_static B) pb psk"
    and fresh: "draws_fresh E W (en_sessions A)" "draws_fresh E W (en_sessions B)"
    unfolding ready_pair_def by blast
  have fill: "length (fst (fill_bytes E SESSION_ID_SIZE w)) = SESSION_ID_SIZE" if "w \<in> W" for w
    using fresh(1) that by (simp add: draws_fresh_def)
  from handshake_completes [OF noise clock fill W(1)] obtain ih v1 where
    start: "initiator_start E (local_static A) pb psk w1 = (Ok ih, v1)"
    and hid: "ih_handshake_id ih = fst (fill_bytes E SESSION_ID_SIZE w1)" and msg: "ih_message ih \<noteq> []"
    and others: "\<And>rk psk' w. rk \<noteq> pa \<Longrightarrow>
      \<exists>e. responder_respond E (local_static B) rk psk' (ih_handshake_id ih) (ih_message ih) w = (Err e, w)"
    and answer: "\<And>w2. w2 \<in> W \<Longrightarrow> \<exists>rh w3. responder_respond E (local_static B) pa psk (ih_handshake_id ih) (ih_message ih) w2 = (Ok rh, w3)
      \<and> w3 \<in> W \<and> rh_message rh \<noteq> [] \<and> session_id (rh_session rh) = fst (fill_bytes E SESSION_ID_SIZE w2)
      \<and> new_session T (rh_session rh)
      \<and> (\<forall>w4 \<in> W. \<exists>s w5. initiator_finalize E (ih_state ih) (rh_message rh) w4 = (Ok s, w5)
           \<and> new_session T s \<and> linked E s (rh_session rh))" by blast
  from answer [OF W(2)] obtain rh u2 where
    respond: "responder_respond E (local_static B) pa psk (ih_handshake_id ih) (ih_message ih) w2 = (Ok rh, u2)"
    and rh: "rh_message rh \<noteq> []" "session_id (rh_session rh) = fst (fill_bytes E SESSION_ID_SIZE w2)" "new_session T (rh_session rh)"
    and finish: "\<And>w3. w3 \<in> W \<Longrightarrow> \<exists>s u3. initiator_finalize E (ih_state ih) (rh_message rh) w3 = (Ok s, u3)
      \<and> new_session T s \<and> linked E s (rh_session rh)" by blast
  have len: "length (ih_handshake_id ih) = SESSION_ID_SIZE" using hid fill [OF W(1)] by simp
  from route obtain v r ep where v: "ipv4_parse packet = Ok v" "lookup L (en_router A) (ipv4_destination v) = Some r"
    "peer_name (route_peer r) = nb" "resolve_endpoint A (route_peer r) = Some ep" unfolding routes_to_def by blast
  from knows(1) lookup_mem [OF v(2)] v(3) have keys: "peer_public_key (route_peer r) = pb" "peer_psk (route_peer r) = psk"
    unfolding knows_def by blast+
  have wf: "sm_wf (en_sessions A)" using inv by (simp add: sm_inv_def)
  obtain A1 where out: "process_outbound_ip L E A packet now w1 = (Ok \<lparr>out_actions =
      [SendTransport nb ep (encode_handshake HandshakeInit (ih_handshake_id ih) (ih_message ih))], out_events = []\<rparr>, A1, v1)"
    and begun: "begun (en_sessions A) nb ih (en_sessions A1)"
    by (rule first_frame [OF wf idle(1) v start [folded keys]])
  have unusedb: "\<not> session_id_in_use (en_sessions B) (session_id (rh_session rh))"
    using fresh(2) W(2) rh(2) by (simp add: draws_fresh_def)
  obtain B1 v2 where inb: "process_inbound_transport E B (encode_handshake HandshakeInit (ih_handshake_id ih) (ih_message ih)) srca t1 w2 =
      (Ok \<lparr>out_actions = [SendTransport na srca (encode_handshake HandshakeResponse (ih_handshake_id ih) (rh_message rh))],
           out_events = []\<rparr>, B1, v2)"
    and answered: "answered (en_sessions B) na (rh_session rh) (en_sessions B1)"
    by (rule second_frame [OF idle(2) knows(2) others respond unusedb len msg])
  have unuseda: "\<not> session_id_in_use (en_sessions A) (session_id (rh_session rh))"
    using fresh(1) W(2) rh(2) by (simp add: draws_fresh_def)
  have only: "pi_handshake_id pending \<noteq> ih_handshake_id ih"
    if "hm_get (pending_init (en_sessions A)) q = Some pending" for q pending
    using fresh(1) W(1) hid that unfolding draws_fresh_def by metis
  show thesis
  proof (rule that)
    fix w3
    assume "w3 \<in> W"
    then show "\<exists>s u3. initiator_finalize E (ih_state ih) (rh_message rh) w3 = (Ok s, u3)
      \<and> new_session T s \<and> linked E s (rh_session rh)" by (rule finish)
  qed (fact out inb begun answered len rh unuseda | erule only)+
qed

lemma handshake_run:
  fixes E :: "('hs, 'ts, 'w) runtime"
  assumes ready: "ready_pair L E W na nb pa pb psk A B" and clock: "clock_from E T W"
    and route: "routes_to L A nb packet" and worlds: "{w1, w2, w3, w4} \<subseteq> W" and time: "t3 < T + secs 120"
    and n: "n + 1 < 2 ^ 32"
  obtains ep f1 f2 f3 f4 A1 B1 A2 B2 v1 v2 v3 v4 where
    "process_outbound_ip L E A packet now w1 = (Ok \<lparr>out_actions = [SendTransport nb ep f1], out_events = []\<rparr>, A1, v1)"
    and "process_inbound_transport E B f1 srca t1 w2 = (Ok \<lparr>out_actions = [SendTransport na srca f2], out_events = []\<rparr>, B1, v2)"
    and "process_inbound_transport E A1 f2 srcb t2 w3 =
      (Ok \<lparr>out_actions = [SendTransport nb srcb f3], out_events = [HandshakeCompleted nb srcb Initiator]\<rparr>, A2, v3)"
    and "process_inbound_transport E B1 f3 srca t3 w4 =
      (Ok \<lparr>out_actions = [SendTransport na srca f4], out_events = [HandshakeCompleted na srca Responder]\<rparr>, B2, v4)"
    and "connected E na nb T n A2 B2"
    and "\<And>source t4 w5. t4 < T + secs 120 \<Longrightarrow> \<exists>A3. process_inbound_transport E A2 f4 source t4 w5 =
      (Ok \<lparr>out_actions = [], out_events = []\<rparr>, A3, snd (instant_now E w5)) \<and> connected E na nb T n A3 B2"
proof -
  from worlds have W: "w1 \<in> W" "w2 \<in> W" "w3 \<in> W" by simp_all
  obtain ep A1 B1 v1 v2 and ih :: "'hs initiator_handshake" and rh :: "'ts responder_handshake" where
    out: "process_outbound_ip L E A packet now w1 = (Ok \<lparr>out_actions =
      [SendTransport nb ep (encode_handshake HandshakeInit (ih_handshake_id ih) (ih_message ih))], out_events = []\<rparr>, A1, v1)"
    and inb: "process_inbound_transport E B (encode_handshake HandshakeInit (ih_handshake_id ih) (ih_message ih)) srca t1 w2 =
      (Ok \<lparr>out_actions = [SendTransport na srca (encode_handshake HandshakeResponse (ih_handshake_id ih) (rh_message rh))],
           out_events = []\<rparr>, B1, v2)"
    and begun: "begun (en_sessions A) nb ih (en_sessions A1)" and answered: "answered (en_sessions B) na (rh_session rh) (en_sessions B1)"
    and len: "length (ih_handshake_id ih) = SESSION_ID_SIZE" and rh: "rh_message rh \<noteq> []" "new_session T (rh_session rh)"
    and unused: "\<not> session_id_in_use (en_sessions A) (session_id (rh_session rh))"
    and only: "\<And>q pending. hm_get (pending_init (en_sessions A)) q = Some pending \<Longrightarrow> pi_handshake_id pending \<noteq> ih_handshake_id ih"
    and finish: "\<And>w3. w3 \<in> W \<Longrightarrow> \<exists>s u3. initiator_finalize E (ih_state ih) (rh_message rh) w3 = (Ok s, u3)
      \<and> new_session T s \<and> linked E s (rh_session rh)"
    by (rule handshake_opens [OF ready clock route W(1,2)]) blast
  from finish [OF W(3)] obtain s u3 where fin: "initiator_finalize E (ih_state ih) (rh_message rh) w3 = (Ok s, u3)"
    and new: "new_session T s" and l: "linked E s (rh_session rh)" by blast
  from ready obtain loga logb where inv: "sm_inv (en_sessions A) loga" "sm_inv (en_sessions B) logb"
    unfolding ready_pair_def by blast
  obtain loga1 logb1 where inv1: "sm_inv (en_sessions A1) loga1" "sm_inv (en_sessions B1) logb1"
    using sm_path_inv [OF outbound_path [OF out] inv(1)] sm_path_inv [OF inbound_path [OF inb] inv(2)] by blast
  then have wf: "sm_wf (en_sessions A)" "sm_wf (en_sessions A1)" "sm_wf (en_sessions B1)" "ids_unique (en_sessions B1)"
    using inv by (simp_all add: sm_inv_def)
  from handshake_frames [OF l new rh(2) n] obtain ct s' t' f4 t2' cta s2 where
    confirm: "encrypt E s Keepalive KEEPALIVE_PROBE_PAYLOAD = (Ok (encode_transport (session_id (rh_session rh)) 0 ct), s')"
    and f: "decode_packet (encode_transport (session_id (rh_session rh)) 0 ct) = Some (PTransport (session_id (rh_session rh)) 0 ct)"
    and d: "decrypt E (rh_session rh) (session_id (rh_session rh)) 0 ct = (Ok (Keepalive, KEEPALIVE_PROBE_PAYLOAD), t')"
    and ack: "encrypt E t' Keepalive KEEPALIVE_ACK_PAYLOAD = (Ok f4, t2')"
    and fa: "decode_packet f4 = Some (PTransport (session_id (rh_session rh)) 0 cta)"
    and da: "decrypt E s' (session_id (rh_session rh)) 0 cta = (Ok (Keepalive, KEEPALIVE_ACK_PAYLOAD), s2)"
    and l3: "linked E s2 t2'" and s': "session_id s' = session_id (rh_session rh)" "created_at s' = created_at s"
    and l2: "linked E s' t2'" and t': "created_at t' = created_at (rh_session rh)" "send_counter t' = 0"
    and hold: "\<And>(st :: ('hs, 'ts) session_state) p. hm_get (sessions st) p = Some s' \<Longrightarrow> hm_get (pending_init st) p = None \<Longrightarrow>
      hm_get (responder_candidates st) p = None \<Longrightarrow> holds_session T n st p s'"
      "\<And>(st :: ('hs, 'ts) session_state) p. hm_get (sessions st) p = Some t2' \<Longrightarrow> hm_get (pending_init st) p = None \<Longrightarrow>
      hm_get (responder_candidates st) p = None \<Longrightarrow> holds_session T n st p t2'"
      "\<And>(st :: ('hs, 'ts) session_state) p. hm_get (sessions st) p = Some s2 \<Longrightarrow> hm_get (pending_init st) p = None \<Longrightarrow>
      hm_get (responder_candidates st) p = None \<Longrightarrow> holds_session T n st p s2" by blast
  have unuseds: "\<not> session_id_in_use (en_sessions A) (session_id s)" using l unused by (simp add: linked_def)
  obtain A2 v3 where third: "process_inbound_transport E A1 (encode_handshake HandshakeResponse (ih_handshake_id ih) (rh_message rh)) srcb t2 w3 =
      (Ok \<lparr>out_actions = [SendTransport nb srcb (encode_transport (session_id (rh_session rh)) 0 ct)],
        out_events = [HandshakeCompleted nb srcb Initiator]\<rparr>, A2, v3)"
    and A2: "hm_get (sessions (en_sessions A2)) nb = Some s'" "hm_get (pending_init (en_sessions A2)) nb = None"
      "hm_get (responder_candidates (en_sessions A2)) nb = None"
    by (rule third_frame [OF wf(1,2) begun only fin unuseds confirm len rh(1)])
  have live: "\<not> is_expired (rh_session rh) t3" "\<not> is_expired t' t3"
    using new_session_live [OF rh(2) time] t' rh(2) by (simp_all add: is_expired_def new_session_def)
  obtain B2 v4 where fourth: "process_inbound_transport E B1 (encode_transport (session_id (rh_session rh)) 0 ct) srca t3 w4 =
      (Ok \<lparr>out_actions = [SendTransport na srca f4], out_events = [HandshakeCompleted na srca Responder]\<rparr>, B2, v4)"
    and B2: "hm_get (sessions (en_sessions B2)) na = Some t2'" "hm_get (pending_init (en_sessions B2)) na = None"
      "hm_get (responder_candidates (en_sessions B2)) na = None"
    by (rule fourth_frame [OF wf(3,4) answered live d f ack])
  obtain loga2 logb2 where inv2: "sm_inv (en_sessions A2) loga2" "sm_inv (en_sessions B2) logb2"
    using sm_path_inv [OF inbound_path [OF third] inv1(1)] sm_path_inv [OF inbound_path [OF fourth] inv1(2)] by blast
  have joined: "connected E na nb T n A2 B2"
    unfolding connected_def using hold(1) [OF A2] hold(2) [OF B2] l2 inv2 by blast
  have "\<exists>A3. process_inbound_transport E A2 f4 source t4 w5 = (Ok \<lparr>out_actions = [], out_events = []\<rparr>, A3, snd (instant_now E w5))
      \<and> connected E na nb T n A3 B2" if early: "t4 < T + secs 120" for source t4 w5
  proof -
    have live': "\<not> is_expired s' t4" using holds_session_fresh(2) [OF hold(1) [OF A2] early] .
    obtain A3 where fifth: "process_inbound_transport E A2 f4 source t4 w5 = (Ok \<lparr>out_actions = [], out_events = []\<rparr>, A3, snd (instant_now E w5))"
      and A3: "hm_get (sessions (en_sessions A3)) nb = Some s2" "hm_get (pending_init (en_sessions A3)) nb = None"
        "hm_get (responder_candidates (en_sessions A3)) nb = None"
      by (rule fifth_frame [OF inv2(1) A2(1) live' A2(2,3) da [folded s'(1)] fa [folded s'(1)]])
    have "connected E na nb T n A3 B2"
      unfolding connected_def using hold(3) [OF A3] hold(2) [OF B2] l3 inv2(2) sm_path_inv [OF inbound_path [OF fifth] inv2(1)] by blast
    with fifth show ?thesis by blast
  qed
  with that [OF out inb third fourth joined] show thesis by blast
qed

subsection \<open>Two concrete engines\<close>

definition demo_kb :: bytes where "demo_kb = replicate 32 2"

definition demo_remote :: "string \<Rightarrow> bytes \<Rightarrow> demo_net peer" where
  "demo_remote name key = \<lparr>peer_name = name, peer_endpoint_addr = V4 1 2, configured_endpoint = endpoint_of_addr (V4 1 2),
     excluded_ips = [], peer_psk = demo_psk, peer_public_key = key, persistent_keepalive = 0, udp_rebind_after = 0,
     session_timeout = 0\<rparr>"

definition demo_side :: "bytes \<Rightarrow> string \<Rightarrow> bytes \<Rightarrow> (demo_net, demo_hs, bytes) engine" where
  "demo_side own name key = engine_start \<lparr>routes = [\<lparr>route_prefix = (0, 0), route_peer = demo_remote name key\<rparr>],
     excluded_routes = []\<rparr> own"

lemma demo_cipher_works: "cipher_works demo_runtime k"
  by (simp add: cipher_works_def demo_runtime_def)

lemma demo_completes: "noise_completes demo_runtime W demo_ka demo_ka demo_kb demo_kb demo_psk"
proof -
  have "first_message demo_runtime W demo_kb demo_ka pro (DInit demo_ka (demo_psk @ pro)) (DResp (demo_psk @ pro)) w" for pro w
    using demo_cipher_works
    by (auto simp: first_message_def second_message_def demo_runtime_def SESSION_ID_SIZE_def demo_ka_def split: if_splits)
  moreover have "noise_matches demo_runtime demo_ka demo_ka demo_kb demo_kb demo_psk" by (rule demo_matches) simp_all
  ultimately show ?thesis by (simp add: noise_completes_def demo_runtime_def)
qed

lemma idle_new: "idle (session_manager_new :: ('hs, 'ts) session_state) p"
proof -
  have "session_at (session_manager_new :: ('hs, 'ts) session_state) a = None" for a
    by (cases a) (simp_all add: session_manager_new_def)
  then show ?thesis by (simp add: idle_def session_manager_new_def del: session_at.simps)
qed

lemma demo_ready:
  "ready_pair demo_libs demo_runtime W ''a'' ''b'' demo_ka demo_kb demo_psk (demo_side demo_ka ''b'' demo_kb) (demo_side demo_kb ''a'' demo_ka)"
proof -
  have "draws_fresh demo_runtime W session_manager_new"
    by (simp add: draws_fresh_def session_manager_new_def session_id_in_use_def demo_runtime_def)
  then show ?thesis
    using demo_completes sm_inv_new idle_new
    by (auto simp: ready_pair_def knows_def demo_side_def demo_remote_def engine_start_def)
qed

lemma demo_side_routes: "routes_to demo_libs (demo_side own name key) name demo_packet"
  by (simp add: routes_to_def demo_packet_parses demo_side_def demo_remote_def engine_start_def lookup_def
      route_matches_def resolve_endpoint_def configured_endpoint_of_def usable_peer_endpoint_def demo_libs_def opt_filter_def
      most_specific_exclusion_def demo_contains_def)

text \<open>The same engines with sessions that pair.\<close>

definition demo_linked :: "bytes \<Rightarrow> string \<Rightarrow> bytes \<Rightarrow> (demo_net, demo_hs, bytes) engine" where
  "demo_linked own name key = (demo_side own name key)
     \<lparr>en_sessions := session_manager_new\<lparr>sessions := [(name, demo_fresh demo_sid demo_id 0)]\<rparr>\<rparr>"

lemma demo_linked_inv: "sm_inv (en_sessions (demo_linked own name key)) {}"
proof -
  let ?st = "en_sessions (demo_linked own name key)"
  have at: "session_at ?st a = (if a = Active name then Some (demo_fresh demo_sid demo_id 0) else None)" for a
    by (cases a) (simp_all add: demo_linked_def session_manager_new_def)
  have "covers {} (demo_fresh demo_sid demo_id 0)" using replay_tracks_new by (auto simp: covers_def)
  then show ?thesis
    by (simp add: sm_inv_def ids_unique_def at sm_wf_def cached_candidates_def del: session_at.simps)
      (simp add: demo_linked_def session_manager_new_def)
qed

lemma demo_connected: "n < 2 ^ 32 \<Longrightarrow>
  connected demo_runtime ''a'' ''b'' 0 n (demo_linked demo_ka ''b'' demo_kb) (demo_linked demo_kb ''a'' demo_ka)"
proof -
  assume n: "n < 2 ^ 32"
  have "paired demo_runtime demo_id demo_id" by (rule demo_paired) (simp add: demo_id_def SESSION_ID_SIZE_def)
  then have "linked demo_runtime (demo_fresh demo_sid demo_id 0) (demo_fresh demo_sid demo_id 0)"
    using demo_cipher_works replay_tracks_new by (auto simp: linked_def one_way_def)
  with n show ?thesis
    using demo_linked_inv
    by (auto simp: connected_def holds_session_def demo_linked_def session_manager_new_def)
qed

lemma length_demo_packet: "length demo_packet = 20"
  by (simp add: demo_packet_def)

lemma demo_linked_routes: "routes_to demo_libs (demo_linked own name key) name demo_packet"
  using demo_side_routes [of own name key]
  by (rule routes_to_keeps) (simp_all add: demo_linked_def same_setup_def)

subsection \<open>Properties\<close>

text \<open>The handshake completes: when two engines that know each other's keys have nothing under way
with each other, an outbound packet for the peer and the delivery of the three frames that the
engines answer with, each at its own time and from any source address, take both through
\<open>HandshakeCompleted\<close> to sessions under one identifier whose ciphers pair in both directions, with
room for \<open>n\<close> messages each way, even when the final acknowledgement is lost. Other peers, sessions
and exchanges of the engines are arbitrary.\<close>

lemma handshake_connects:
  assumes "ready_pair L E W na nb pa pb psk A B" and "clock_from E T W" and "routes_to L A nb packet"
    and "{w1, w2, w3, w4} \<subseteq> W" and "t3 < T + secs 120" and "n + 1 < 2 ^ 32"
  shows "\<exists>ep f1 f2 f3 f4 A1 B1 A2 B2 v1 v2 v3 v4.
    process_outbound_ip L E A packet now w1 = (Ok \<lparr>out_actions = [SendTransport nb ep f1], out_events = []\<rparr>, A1, v1)
    \<and> process_inbound_transport E B f1 srca t1 w2 = (Ok \<lparr>out_actions = [SendTransport na srca f2], out_events = []\<rparr>, B1, v2)
    \<and> process_inbound_transport E A1 f2 srcb t2 w3 =
        (Ok \<lparr>out_actions = [SendTransport nb srcb f3], out_events = [HandshakeCompleted nb srcb Initiator]\<rparr>, A2, v3)
    \<and> process_inbound_transport E B1 f3 srca t3 w4 =
        (Ok \<lparr>out_actions = [SendTransport na srca f4], out_events = [HandshakeCompleted na srca Responder]\<rparr>, B2, v4)
    \<and> connected E na nb T n A2 B2"
  by (rule handshake_run [OF assms, of now srca t1 srcb t2]) blast

lemma handshake_connects_witness:
  "\<exists>A B. connected demo_runtime ''a'' ''b'' 5 100 (A :: (demo_net, demo_hs, bytes) engine) (B :: (demo_net, demo_hs, bytes) engine)"
proof -
  have "clock_from demo_runtime 5 {5..}"
  proof -
    have "snd (demo_hs_write st p n w) = w" for st p n w by (cases st) simp_all
    then show ?thesis by (simp add: clock_from_def demo_runtime_def)
  qed
  from handshake_connects [OF demo_ready this demo_side_routes, of 5 6 8 10 20 100 20 "V4 1 2" 20 "V4 3 4" 20]
  show ?thesis by (auto simp: secs_def)
qed

text \<open>A connection carries every packet of both directions: whatever IP packets two connected
engines are given, in any order and number within the deadline and the message limit, each frame
reaches the other engine as one instruction to write exactly that packet, in the name of the peer
that sent it. A packet may have any length up to what a Noise message holds.\<close>

lemma connected_delivers:
  assumes "connected E na nb since (length ms) A B"
    and "\<And>m. m \<in> set ms \<Longrightarrow> length (trip_packet m) + 17 \<le> MAX_NOISE_MESSAGE_SIZE
      \<and> trip_sent m < since + secs 120 \<and> trip_arrival m < since + secs 120 \<and> usable_peer_endpoint (trip_source m)
      \<and> (if trip_from_a m then routes_to L A nb (trip_packet m) else routes_to L B na (trip_packet m))"
  shows "conversation L E A B w ms =
    map (\<lambda>m. [WriteIpPacket (if trip_from_a m then na else nb) (trip_source m) (trip_packet m)]) ms"
  using assms
proof (induction ms arbitrary: A B w)
  case (Cons m ms)
  note m = Cons.prems(2) [of m, simplified]
  show ?case
  proof (cases "trip_from_a m")
    case True
    with m Cons.prems(1) have pre: "connected E na nb since (Suc (length ms)) A B" "routes_to L A nb (trip_packet m)"
      "length (trip_packet m) + 17 \<le> MAX_NOISE_MESSAGE_SIZE" "trip_sent m < since + secs 120" by simp_all
    from connected_step [OF pre, where w = w] m obtain ep frame A' B' where
      step: "process_outbound_ip L E A (trip_packet m) (trip_sent m) w
        = (Ok \<lparr>out_actions = [SendTransport nb ep frame], out_events = []\<rparr>, A', w)"
      "process_inbound_transport E B frame (trip_source m) (trip_arrival m) w =
        (Ok \<lparr>out_actions = [WriteIpPacket na (trip_source m) (trip_packet m)], out_events = []\<rparr>, B', snd (instant_now E w))"
      and c: "connected E na nb since (length ms) A' B'"
      and keeps: "\<And>name p. routes_to L A name p \<Longrightarrow> routes_to L A' name p"
        "\<And>name p. routes_to L B name p \<Longrightarrow> routes_to L B' name p" by metis
    have "conversation L E A' B' (snd (instant_now E w)) ms =
        map (\<lambda>m. [WriteIpPacket (if trip_from_a m then na else nb) (trip_source m) (trip_packet m)]) ms"
      using Cons.prems(2) keeps by (intro Cons.IH [OF c]) (simp split: if_splits)
    with step True show ?thesis by simp
  next
    case False
    with m Cons.prems(1) have pre: "connected E nb na since (Suc (length ms)) B A" "routes_to L B na (trip_packet m)"
      "length (trip_packet m) + 17 \<le> MAX_NOISE_MESSAGE_SIZE" "trip_sent m < since + secs 120"
      by (simp_all add: connected_sym [of E na nb])
    from connected_step [OF pre, where w = w] m obtain ep frame A' B' where
      step: "process_outbound_ip L E B (trip_packet m) (trip_sent m) w
        = (Ok \<lparr>out_actions = [SendTransport na ep frame], out_events = []\<rparr>, B', w)"
      "process_inbound_transport E A frame (trip_source m) (trip_arrival m) w =
        (Ok \<lparr>out_actions = [WriteIpPacket nb (trip_source m) (trip_packet m)], out_events = []\<rparr>, A', snd (instant_now E w))"
      and c: "connected E nb na since (length ms) B' A'"
      and keeps: "\<And>name p. routes_to L B name p \<Longrightarrow> routes_to L B' name p"
        "\<And>name p. routes_to L A name p \<Longrightarrow> routes_to L A' name p" by metis
    have "conversation L E A' B' (snd (instant_now E w)) ms =
        map (\<lambda>m. [WriteIpPacket (if trip_from_a m then na else nb) (trip_source m) (trip_packet m)]) ms"
      using Cons.prems(2) keeps c by (intro Cons.IH) (simp_all add: connected_sym [of E na nb] split: if_splits)
    with step False show ?thesis by simp
  qed
qed simp

lemma connected_delivers_witness:
  "conversation demo_libs demo_runtime (demo_linked demo_ka ''b'' demo_kb) (demo_linked demo_kb ''a'' demo_ka) 0
     [\<lparr>trip_from_a = True, trip_packet = demo_packet, trip_sent = 3, trip_source = V4 1 2, trip_arrival = 4\<rparr>,
      \<lparr>trip_from_a = False, trip_packet = demo_packet, trip_sent = 5, trip_source = V4 3 4, trip_arrival = 6\<rparr>]
   = [[WriteIpPacket ''a'' (V4 1 2) demo_packet], [WriteIpPacket ''b'' (V4 3 4) demo_packet]]"
  (is "conversation _ _ _ _ _ ?ms = _")
proof -
  have "connected demo_runtime ''a'' ''b'' 0 (length ?ms) (demo_linked demo_ka ''b'' demo_kb) (demo_linked demo_kb ''a'' demo_ka)"
    by (rule demo_connected) simp
  then have "conversation demo_libs demo_runtime (demo_linked demo_ka ''b'' demo_kb) (demo_linked demo_kb ''a'' demo_ka) 0 ?ms
    = map (\<lambda>m. [WriteIpPacket (if trip_from_a m then ''a'' else ''b'') (trip_source m) (trip_packet m)]) ?ms"
    by (rule connected_delivers)
      (use demo_linked_routes in \<open>auto simp: length_demo_packet MAX_NOISE_MESSAGE_SIZE_def secs_def usable_peer_endpoint_def\<close>)
  then show ?thesis by simp
qed

text \<open>An engine with a young session sends the packet at once.\<close>

theorem outbound_decision_witness:
  "\<exists>out en' w' hello.
    process_outbound_ip demo_libs demo_runtime (demo_linked demo_ka ''b'' demo_kb) demo_packet 10 0 = (Ok out, en', w')
    \<and> out_actions out = map (SendTransport ''b'' (V4 1 2)) (hello @ [encode_transport demo_sid 0
        (encode_transport_plaintext Data demo_packet @ to_be_bytes_u64 0 @ demo_id)])"
proof -
  let ?en = "demo_linked demo_ka ''b'' demo_kb" and ?r = "\<lparr>route_prefix = (0, 0), route_peer = demo_remote ''b'' demo_kb\<rparr>"
  obtain r en' w' where p: "process_outbound_ip demo_libs demo_runtime ?en demo_packet 10 0 = (r, en', w')" by (rule prod_cases3)
  have route: "ipv4_parse demo_packet = Ok demo_packet" "lookup demo_libs (en_router ?en) (ipv4_destination demo_packet) = Some ?r"
    by (simp_all add: demo_packet_parses demo_linked_def demo_side_def demo_remote_def engine_start_def lookup_def
      route_matches_def demo_libs_def most_specific_exclusion_def demo_contains_def)
  have endpoint: "resolve_endpoint ?en (route_peer ?r) = Some (V4 1 2)"
    by (simp add: resolve_endpoint_def configured_endpoint_of_def demo_linked_def demo_side_def demo_remote_def engine_start_def
      usable_peer_endpoint_def opt_filter_def)
  have "message_frames demo_runtime (en_sessions ?en) ''b'' Data demo_packet 10
      = [encode_transport demo_sid 0 (encode_transport_plaintext Data demo_packet @ to_be_bytes_u64 0 @ demo_id)]"
    by (simp add: message_frames_def demo_linked_def session_manager_new_def demo_fresh_live) (simp add: demo_fresh_def demo_runtime_def)
  with outbound_decision [where L = demo_libs and E = demo_runtime and en = ?en and packet = demo_packet and now = 10 and w = 0] p route endpoint demo_start
  show ?thesis by (auto simp: demo_remote_def Let_def split: sum.splits)
qed

end
