(* ===== verification/Engine_World.thy ===== *)
theory Engine_World
  imports Engine_Props
begin

text \<open>
  What the engine does to the world: nothing but calls of the random generator, of the clock and of
  the handshake library's writer, the fields of \<open>runtime\<close> that take a world. So a property of the
  world that these calls keep is kept by every operation of the engine.
\<close>

inductive runtime_step :: "('hs, 'ts, 'w) runtime \<Rightarrow> 'w \<Rightarrow> 'w \<Rightarrow> bool" for E where
  fills: "fill_bytes E n w = (bs, w') \<Longrightarrow> runtime_step E w w'"
| reads_clock: "instant_now E w = (t, w') \<Longrightarrow> runtime_step E w w'"
| writes_handshake: "hs_write E hs payload n w = (r, w') \<Longrightarrow> runtime_step E w w'"

abbreviation runtime_path :: "('hs, 'ts, 'w) runtime \<Rightarrow> 'w \<Rightarrow> 'w \<Rightarrow> bool" where
  "runtime_path E \<equiv> (runtime_step E)\<^sup>*\<^sup>*"

lemma runtime_path_step: "runtime_step E w w' \<Longrightarrow> runtime_path E w w'"
  by (rule r_into_rtranclp)

lemmas runtime_calls = runtime_path_step [OF fills] runtime_path_step [OF reads_clock]
  runtime_path_step [OF writes_handshake]

definition stays_on :: "('hs, 'ts, 'w) runtime \<Rightarrow> ('w, 'e, 'a) io \<Rightarrow> bool" where
  "stays_on E m \<longleftrightarrow> (\<forall>w r w'. m w = (r, w') \<longrightarrow> runtime_path E w w')"

lemma stays_onD: "stays_on E m \<Longrightarrow> m w = (r, w') \<Longrightarrow> runtime_path E w w'"
  by (simp add: stays_on_def)

lemma stays_on_lift: "stays_on E (io_lift r)"
  by (simp add: stays_on_def io_lift_def)

lemma stays_on_bind:
  assumes "stays_on E m" and "\<And>x. stays_on E (f x)"
  shows "stays_on E (io_bind m f)"
  unfolding stays_on_def
proof (intro allI impI)
  fix w r w'
  assume run: "io_bind m f w = (r, w')"
  obtain q w1 where q: "m w = (q, w1)" by (cases "m w")
  with assms(1) have "runtime_path E w w1" by (rule stays_onD)
  moreover have "runtime_path E w1 w'"
    using run q assms(2) by (cases q) (auto simp: io_bind_def dest: stays_onD)
  ultimately show "runtime_path E w w'" by (rule rtranclp_trans)
qed

lemma stays_on_map_err: "stays_on E m \<Longrightarrow> stays_on E (io_map_err g m)"
  by (auto simp: stays_on_def io_map_err_def split: prod.splits)

lemma stays_on_draws:
  "stays_on E (io_draw (fill_bytes E n))" "stays_on E (io_draw (instant_now E))" "stays_on E (hs_write E hs payload n)"
  by (auto simp: stays_on_def io_draw_def intro: runtime_calls split: prod.splits)

lemmas stays_on_intros = stays_on_lift stays_on_bind stays_on_map_err stays_on_draws

lemma stays_on_noise:
  "stays_on E (session_new E sid ts)" "stays_on E (initiator_start E k rk psk)"
  "stays_on E (initiator_finalize E i response)" "stays_on E (responder_respond E k rk psk hid request)"
  unfolding session_new_def initiator_start_def initiator_start_with_id_def initiator_finalize_def responder_respond_def
  by (auto intro!: stays_on_intros split: option.split)

subsection \<open>The session manager\<close>

lemma elapsed_path: "elapsed_at_least E since limit w = (r, w') \<Longrightarrow> runtime_path E w w'"
  by (auto simp: elapsed_at_least_def intro: runtime_calls split: option.splits prod.splits)

lemma manager_paths:
  "cached_responder_response E st peer hid request w = (resp, st', w') \<Longrightarrow> runtime_path E w w'"
  "accept_inbound_initiation E st peer hid passive w = (ok, st', w') \<Longrightarrow> runtime_path E w w'"
  "store_responder_candidate E st peer s hid request response w = (stored, st', w') \<Longrightarrow> runtime_path E w w'"
  "start_or_retry_handshake E st peer k rk psk now w = (r1, st', w') \<Longrightarrow> runtime_path E w w'"
  "finalize_initiator E st hid response w = (r2, st', w') \<Longrightarrow> runtime_path E w w'"
proof -
  show "runtime_path E w w'" if "cached_responder_response E st peer hid request w = (resp, st', w')"
    using that by (auto simp: cached_responder_response_def dest: elapsed_path split: prod.splits if_splits option.splits)
  show "runtime_path E w w'" if "accept_inbound_initiation E st peer hid passive w = (ok, st', w')"
    using that
    by (auto simp: accept_inbound_initiation_def Let_def dest: elapsed_path split: prod.splits if_splits option.splits)
  show "runtime_path E w w'" if "store_responder_candidate E st peer s hid request response w = (stored, st', w')"
    using that by (auto simp: store_responder_candidate_def intro: runtime_calls split: prod.splits if_splits)
  show "runtime_path E w w'" if "start_or_retry_handshake E st peer k rk psk now w = (r1, st', w')"
    using that by (auto simp: start_or_retry_handshake_def Let_def dest: stays_onD [OF stays_on_noise(2)]
        split: prod.splits if_splits option.splits sum.splits)
  show "runtime_path E w w'" if "finalize_initiator E st hid response w = (r2, st', w')"
    using that by (auto simp: finalize_initiator_def Let_def dest: stays_onD [OF stays_on_noise(3)]
        split: prod.splits if_splits option.splits sum.splits)
qed

subsection \<open>The engine\<close>

lemma push_world: "push_initiation E en p now rest w = (r, en', w') \<Longrightarrow> runtime_path E w w'"
  by (auto simp: push_initiation_def initiate_peer_def Let_def dest: manager_paths(4)
      split: prod.splits option.splits sum.splits)

lemma outbound_world: "process_outbound_ip L E en packet now w = (r, en', w') \<Longrightarrow> runtime_path E w w'"
  by (auto simp: process_outbound_ip_def encrypt_or_initiate_def Let_def dest: push_world
      split: prod.splits option.splits sum.splits)

lemma decode_init_world:
  "decode_handshake_init E k hid message checked rs w = (r, w') \<Longrightarrow> runtime_path E w w'"
  by (induction rs arbitrary: checked w)
    (auto simp: Let_def split: if_splits prod.splits sum.splits
      dest: stays_onD [OF stays_on_noise(4)] intro: rtranclp_trans)

lemma inbound_init_world:
  assumes "inbound_init E en hid message source w = (r, en', w')"
  shows "runtime_path E w w'"
  using assms
  by (auto simp: inbound_init_def Let_def split: prod.splits option.splits if_splits
      dest!: decode_init_world manager_paths(1-3) intro: rtranclp_trans)

lemma inbound_world:
  assumes "process_inbound_transport E en frame source now w = (r, en', w')"
  shows "runtime_path E w w'"
proof -
  have response: "runtime_path E w w'" if "inbound_response E en hid message source w = (r, en', w')" for hid message
    using that by (auto simp: inbound_response_def Let_def split: prod.splits option.splits sum.splits
        dest!: manager_paths(5) reads_clock intro: rtranclp.rtrancl_into_rtrancl)
  have transport: "runtime_path E w w'" if "inbound_transport E en sid c ct source now w = (r, en', w')" for sid c ct
    using that by (auto simp: inbound_transport_def Let_def intro: runtime_calls
        split: prod.splits option.splits sum.splits msg_type.splits if_splits)
  from assms response transport show ?thesis
    by (auto simp: process_inbound_transport_def dest: inbound_init_world
        split: option.splits parsed_packet.splits packet_kind.splits)
qed

end
