(* ===== verification/Scheduler.thy ===== *)
theory Scheduler
  imports Engine_Props
begin

text \<open>
  \<^verbatim>\<open>src/src/scheduler.rs\<close>: the maintenance tick shared by the platform adapters. It retries
  pending handshakes, recovers silent peers (rebinding the UDP socket or discarding the session)
  and sends keepalives. The adapter's \<open>rebind_udp\<close> closure is a parameter that may use the
  world. Each \<open>for\<close> loop over the peers is a recursion over the peer list.
\<close>

datatype scheduled_operation = HandshakeRetry | SessionRecovery | ScheduledKeepalive

record scheduled_output =
  so_operation :: scheduled_operation
  so_output :: engine_output

record recovery_event =
  re_peer_name :: string
  re_silence :: duration
  re_rebind_udp :: bool
  re_rebind_succeeded :: bool
  re_had_stale_state :: bool

record 'net scheduler_error =
  se_peer_name :: string
  se_operation :: scheduled_operation
  se_error :: "'net engine_error"

record 'net sched_tick =
  tk_outputs :: "scheduled_output list"
  tk_events :: "recovery_event list"
  tk_errors :: "'net scheduler_error list"

record recovery_policy =
  rp_timeout :: duration
  rp_rebind_udp :: bool

record scheduled_peer =
  sp_name :: string
  sp_persistent_keepalive :: duration
  sp_recovery :: "recovery_policy option"

record scheduler =
  sch_peers :: "scheduled_peer list"
  last_sent :: "(string, instant) hmap"
  last_udp_rebind_attempt :: "instant option"
  last_session_recovery_attempt :: "(string, instant) hmap"

definition recovery_policy_for :: "transport_config \<Rightarrow> u16 \<Rightarrow> u64 \<Rightarrow> recovery_policy option" where
  "recovery_policy_for tc rebind_after timeout =
    (if tc = Udp \<and> rebind_after > 0
     then Some \<lparr>rp_timeout = secs (unat rebind_after), rp_rebind_udp = True\<rparr>
     else if timeout > 0 then Some \<lparr>rp_timeout = secs (unat timeout), rp_rebind_udp = False\<rparr>
     else None)"

definition scheduler_new :: "'net config \<Rightarrow> scheduler" where
  "scheduler_new cfg =
    \<lparr>sch_peers = map (\<lambda>p. \<lparr>sp_name = pc_name p,
         sp_persistent_keepalive = secs (unat (pc_persistent_keepalive p)),
         sp_recovery = recovery_policy_for (if_transport (cfg_interface cfg)) (pc_udp_rebind_after p)
           (effective_session_timeout p (if_transport (cfg_interface cfg)))\<rparr>) (cfg_peer cfg),
     last_sent = [], last_udp_rebind_attempt = None, last_session_recovery_attempt = []\<rparr>"

definition recovery_due :: "instant \<Rightarrow> instant \<Rightarrow> instant option \<Rightarrow> duration \<Rightarrow> bool" where
  "recovery_due now seen attempt timeout =
    (let baseline = (case attempt of None \<Rightarrow> seen | Some a \<Rightarrow> max a seen)
     in duration_since now baseline \<ge> timeout)"

definition keepalive_should_send :: "instant \<Rightarrow> instant option \<Rightarrow> duration \<Rightarrow> bool \<Rightarrow> bool \<Rightarrow> bool" where
  "keepalive_should_send now sent interval recovery_enabled rebound =
    (if rebound then True
     else if interval = 0 then False
     else (case sent of None \<Rightarrow> recovery_enabled | Some t \<Rightarrow> duration_since now t \<ge> interval))"

definition push_engine_output ::
    "'net sched_tick \<Rightarrow> string \<Rightarrow> scheduled_operation \<Rightarrow> ('net engine_error, engine_output) result
      \<Rightarrow> 'net sched_tick" where
  "push_engine_output tick name operation r =
    (case r of
       Inr output \<Rightarrow> tick\<lparr>tk_outputs := tk_outputs tick @ [\<lparr>so_operation = operation, so_output = output\<rparr>]\<rparr>
     | Inl error \<Rightarrow> tick\<lparr>tk_errors := tk_errors tick @
         [\<lparr>se_peer_name = name, se_operation = operation, se_error = error\<rparr>]\<rparr>)"

fun retry_pending ::
    "('hs, 'ts, 'w) runtime \<Rightarrow> instant \<Rightarrow> scheduled_peer list
      \<Rightarrow> 'net sched_tick \<times> ('net, 'hs, 'ts) engine \<times> 'w \<Rightarrow> 'net sched_tick \<times> ('net, 'hs, 'ts) engine \<times> 'w" where
  "retry_pending E now [] (tick, en, w) = (tick, en, w)"
| "retry_pending E now (p # ps) (tick, en, w) =
    (if \<not> has_pending_init (en_sessions en) (sp_name p) then retry_pending E now ps (tick, en, w)
     else
       case initiate_handshake E en (sp_name p) now w of (r, en', w') \<Rightarrow>
         retry_pending E now ps (push_engine_output tick (sp_name p) HandshakeRetry r, en', w'))"

text \<open>The recovery of one peer: the body of the second loop after its last \<open>continue\<close>.\<close>

definition recover_peer ::
    "('hs, 'ts, 'w) runtime \<Rightarrow> instant \<Rightarrow> (string \<Rightarrow> duration \<Rightarrow> 'w \<Rightarrow> bool \<times> 'w)
      \<Rightarrow> scheduled_peer \<Rightarrow> recovery_policy \<Rightarrow> instant \<Rightarrow> scheduler
      \<Rightarrow> 'net sched_tick \<times> ('net, 'hs, 'ts) engine \<times> 'w
      \<Rightarrow> bool \<times> scheduler \<times> 'net sched_tick \<times> ('net, 'hs, 'ts) engine \<times> 'w" where
  "recover_peer E now rebind p policy seen sch = (\<lambda>(tick, en, w).
    (let silence = duration_since now seen in
     case (if rp_rebind_udp policy then
             (case rebind (sp_name p) silence w of (ok, w1) \<Rightarrow>
                (ok, ok, sch\<lparr>last_udp_rebind_attempt := Some now\<rparr>, w1))
           else
             (False, False,
              sch\<lparr>last_session_recovery_attempt :=
                hm_insert (sp_name p) now (last_session_recovery_attempt sch)\<rparr>, w)) of
       (rebound, succeeded, sch1, w1) \<Rightarrow>
     case engine_invalidate_peer en (sp_name p) of (had_stale_state, en1) \<Rightarrow>
     case initiate_handshake E en1 (sp_name p) now w1 of (r, en2, w2) \<Rightarrow>
       let tick1 = push_engine_output tick (sp_name p) SessionRecovery r;
           event = \<lparr>re_peer_name = sp_name p, re_silence = silence, re_rebind_udp = rp_rebind_udp policy,
                    re_rebind_succeeded = succeeded, re_had_stale_state = had_stale_state\<rparr>
       in (rebound, sch1, tick1\<lparr>tk_events := tk_events tick1 @ [event]\<rparr>, en2, w2)))"

fun recover_first ::
    "('hs, 'ts, 'w) runtime \<Rightarrow> instant \<Rightarrow> (string \<Rightarrow> duration \<Rightarrow> 'w \<Rightarrow> bool \<times> 'w) \<Rightarrow> peer_state
      \<Rightarrow> scheduled_peer list \<Rightarrow> scheduler \<Rightarrow> 'net sched_tick \<times> ('net, 'hs, 'ts) engine \<times> 'w
      \<Rightarrow> bool \<times> scheduler \<times> 'net sched_tick \<times> ('net, 'hs, 'ts) engine \<times> 'w" where
  "recover_first E now rebind snapshot [] sch (tick, en, w) = (False, sch, tick, en, w)"
| "recover_first E now rebind snapshot (p # ps) sch (tick, en, w) =
    (case sp_recovery p of
       None \<Rightarrow> recover_first E now rebind snapshot ps sch (tick, en, w)
     | Some policy \<Rightarrow>
         if \<not> hm_contains (last_sent sch) (sp_name p) then recover_first E now rebind snapshot ps sch (tick, en, w)
         else
           case has_active_session E (en_sessions en) (sp_name p) w of (active, w1) \<Rightarrow>
           if \<not> active then recover_first E now rebind snapshot ps sch (tick, en, w1)
           else
             case Option.bind (hm_get snapshot (sp_name p)) last_seen of
               None \<Rightarrow> recover_first E now rebind snapshot ps sch (tick, en, w1)
             | Some seen \<Rightarrow>
                 let last_attempt = (if rp_rebind_udp policy then last_udp_rebind_attempt sch
                                     else hm_get (last_session_recovery_attempt sch) (sp_name p)) in
                 if \<not> recovery_due now seen last_attempt (rp_timeout policy)
                 then recover_first E now rebind snapshot ps sch (tick, en, w1)
                 else recover_peer E now rebind p policy seen sch (tick, en, w1))"

fun send_keepalives ::
    "('hs, 'ts, 'w) runtime \<Rightarrow> instant \<Rightarrow> bool \<Rightarrow> scheduled_peer list \<Rightarrow> scheduler
      \<Rightarrow> 'net sched_tick \<times> ('net, 'hs, 'ts) engine \<times> 'w
      \<Rightarrow> scheduler \<times> 'net sched_tick \<times> ('net, 'hs, 'ts) engine \<times> 'w" where
  "send_keepalives E now rebound [] sch (tick, en, w) = (sch, tick, en, w)"
| "send_keepalives E now rebound (p # ps) sch (tick, en, w) =
    (let name = sp_name p; recovery_enabled = (sp_recovery p \<noteq> None) in
     if \<not> keepalive_should_send now (hm_get (last_sent sch) name) (sp_persistent_keepalive p)
            recovery_enabled rebound then
       send_keepalives E now rebound ps
         (if sp_persistent_keepalive p \<noteq> 0 \<and> \<not> hm_contains (last_sent sch) name
          then sch\<lparr>last_sent := hm_insert name now (last_sent sch)\<rparr> else sch) (tick, en, w)
     else
       case has_active_session E (en_sessions en) name w of (had_active, w1) \<Rightarrow>
       let payload = (if recovery_enabled then KEEPALIVE_PROBE_PAYLOAD else []) in
       case create_keepalive E en name payload now w1 of (r, en2, w2) \<Rightarrow>
         send_keepalives E now rebound ps
           (if had_active \<or> \<not> recovery_enabled
            then sch\<lparr>last_sent := hm_insert name now (last_sent sch)\<rparr> else sch)
           (push_engine_output tick name ScheduledKeepalive r, en2, w2))"

definition scheduler_tick ::
    "('hs, 'ts, 'w) runtime \<Rightarrow> (string \<Rightarrow> duration \<Rightarrow> 'w \<Rightarrow> bool \<times> 'w) \<Rightarrow> scheduler
      \<Rightarrow> ('net, 'hs, 'ts) engine \<Rightarrow> instant \<Rightarrow> 'w
      \<Rightarrow> 'net sched_tick \<times> scheduler \<times> ('net, 'hs, 'ts) engine \<times> 'w" where
  "scheduler_tick E rebind sch en now w =
    (case retry_pending E now (sch_peers sch)
            (\<lparr>tk_outputs = [], tk_events = [], tk_errors = []\<rparr>, en, w) of (tick1, en1, w1) \<Rightarrow>
     case recover_first E now rebind (en_peers en1) (sch_peers sch) sch (tick1, en1, w1) of
       (rebound, sch2, tick2, en2, w2) \<Rightarrow>
     case send_keepalives E now rebound (sch_peers sch) sch2 (tick2, en2, w2) of
       (sch3, tick3, en3, w3) \<Rightarrow> (tick3, sch3, en3, w3))"

subsection \<open>What each loop changes\<close>

lemma push_output_keeps [simp]:
  "tk_events (push_engine_output tick name operation r) = tk_events tick"
  by (simp add: push_engine_output_def split: sum.splits)

lemma retry_pending_facts:
  assumes "retry_pending E now ps (tick, en, w) = (tick', en', w')"
  shows "tk_events tick' = tk_events tick \<and> (engine_step L E)\<^sup>*\<^sup>* en en'"
  using assms
proof (induction ps arbitrary: tick en w)
  case (Cons p ps)
  show ?case
  proof (cases "has_pending_init (en_sessions en) (sp_name p)")
    case False
    with Cons.IH [of tick en w] Cons.prems show ?thesis by simp
  next
    case True
    obtain r en1 w1 where i: "initiate_handshake E en (sp_name p) now w = (r, en1, w1)" by (rule prod_cases3)
    from True Cons.prems i
    have "retry_pending E now ps (push_engine_output tick (sp_name p) HandshakeRetry r, en1, w1) = (tick', en', w')"
      by simp
    from Cons.IH [OF this] do_initiate [OF i, of L] show ?thesis
      by (auto intro: converse_rtranclp_into_rtranclp)
  qed
qed simp

text \<open>The condition under which a peer is recovered, and what it does to the scheduler.\<close>

definition recovers ::
    "instant \<Rightarrow> peer_state \<Rightarrow> scheduler \<Rightarrow> scheduled_peer \<Rightarrow> recovery_policy \<Rightarrow> recovery_event \<Rightarrow> bool" where
  "recovers now snapshot sch p policy e \<longleftrightarrow> sp_recovery p = Some policy
    \<and> re_peer_name e = sp_name p \<and> re_rebind_udp e = rp_rebind_udp policy
    \<and> hm_get (last_sent sch) (sp_name p) \<noteq> None
    \<and> (\<exists>seen. Option.bind (hm_get snapshot (sp_name p)) last_seen = Some seen
         \<and> re_silence e = duration_since now seen
         \<and> recovery_due now seen
             (if rp_rebind_udp policy then last_udp_rebind_attempt sch
              else hm_get (last_session_recovery_attempt sch) (sp_name p)) (rp_timeout policy))"

definition after_recovery :: "instant \<Rightarrow> scheduled_peer \<Rightarrow> recovery_policy \<Rightarrow> scheduler \<Rightarrow> scheduler" where
  "after_recovery now p policy sch =
    (if rp_rebind_udp policy then sch\<lparr>last_udp_rebind_attempt := Some now\<rparr>
     else sch\<lparr>last_session_recovery_attempt := hm_insert (sp_name p) now (last_session_recovery_attempt sch)\<rparr>)"

lemma after_recovery_peers [simp]: "sch_peers (after_recovery now p policy sch) = sch_peers sch"
  by (simp add: after_recovery_def)

lemma recover_peer_facts:
  assumes "recover_peer E now rebind p policy seen sch (tick, en, w) = (rebound, sch', tick', en', w')"
  shows "\<exists>e. tk_events tick' = tk_events tick @ [e] \<and> re_peer_name e = sp_name p
      \<and> re_rebind_udp e = rp_rebind_udp policy \<and> re_silence e = duration_since now seen
      \<and> re_rebind_succeeded e = rebound"
    and "sch' = after_recovery now p policy sch" and "(engine_step L E)\<^sup>*\<^sup>* en en'"
proof -
  obtain stale en1 where i: "engine_invalidate_peer en (sp_name p) = (stale, en1)"
    by (cases "engine_invalidate_peer en (sp_name p)")
  obtain w1 r where h: "initiate_handshake E en1 (sp_name p) now w1 = (r, en', w')"
    and tick': "\<exists>e. tk_events tick' = tk_events tick @ [e] \<and> re_peer_name e = sp_name p \<and> re_rebind_udp e = rp_rebind_udp policy
       \<and> re_silence e = duration_since now seen \<and> re_rebind_succeeded e = rebound"
    and sch': "sch' = after_recovery now p policy sch"
    using assms i
    by (auto simp: recover_peer_def Let_def after_recovery_def split: prod.splits if_splits)
  from tick' show "\<exists>e. tk_events tick' = tk_events tick @ [e] \<and> re_peer_name e = sp_name p
      \<and> re_rebind_udp e = rp_rebind_udp policy \<and> re_silence e = duration_since now seen
      \<and> re_rebind_succeeded e = rebound" .
  from sch' show "sch' = after_recovery now p policy sch" .
  from do_invalidate [OF i, of L E] do_initiate [OF h, of L] show "(engine_step L E)\<^sup>*\<^sup>* en en'"
    by (meson converse_rtranclp_into_rtranclp rtranclp.rtrancl_refl)
qed

lemma recover_first_step:
  obtains (skip) w1 where "recover_first E now rebind snapshot (p # ps) sch (tick, en, w)
      = recover_first E now rebind snapshot ps sch (tick, en, w1)"
  | (recover) policy seen w1 where "recover_first E now rebind snapshot (p # ps) sch (tick, en, w)
      = recover_peer E now rebind p policy seen sch (tick, en, w1)"
    and "sp_recovery p = Some policy" and "hm_get (last_sent sch) (sp_name p) \<noteq> None"
    and "Option.bind (hm_get snapshot (sp_name p)) last_seen = Some seen"
    and "recovery_due now seen (if rp_rebind_udp policy then last_udp_rebind_attempt sch
          else hm_get (last_session_recovery_attempt sch) (sp_name p)) (rp_timeout policy)"
proof (cases "sp_recovery p")
  case None
  then show thesis by (intro skip) simp
next
  case (Some policy)
  obtain act w1 where a: "has_active_session E (en_sessions en) (sp_name p) w = (act, w1)"
    by (cases "has_active_session E (en_sessions en) (sp_name p) w")
  show thesis
  proof (cases "hm_get (last_sent sch) (sp_name p) = None \<or> \<not> act
      \<or> Option.bind (hm_get snapshot (sp_name p)) last_seen = None")
    case True
    then show thesis
    proof (cases "hm_get (last_sent sch) (sp_name p) = None")
      case True
      with Some show thesis by (intro skip [of w]) (simp add: hm_contains_def)
    next
      case False
      with True Some a show thesis by (intro skip [of w1]) (auto simp: hm_contains_def)
    qed
  next
    case False
    then obtain seen where seen: "Option.bind (hm_get snapshot (sp_name p)) last_seen = Some seen" by blast
    show thesis
    proof (cases "recovery_due now seen (if rp_rebind_udp policy then last_udp_rebind_attempt sch
          else hm_get (last_session_recovery_attempt sch) (sp_name p)) (rp_timeout policy)")
      case True
      with False Some a seen show thesis
        by (intro recover [of policy seen w1]) (simp_all add: hm_contains_def Let_def)
    next
      case due: False
      with False Some a seen show thesis
        by (intro skip [of w1]) (simp add: hm_contains_def Let_def)
    qed
  qed
qed

lemma recover_first_facts:
  assumes "recover_first E now rebind snapshot ps sch (tick, en, w) = (rebound, sch', tick', en', w')"
  shows "(engine_step L E)\<^sup>*\<^sup>* en en'
    \<and> (tk_events tick' = tk_events tick \<and> sch' = sch \<and> \<not> rebound
       \<or> (\<exists>p \<in> set ps. \<exists>policy e. recovers now snapshot sch p policy e
            \<and> tk_events tick' = tk_events tick @ [e] \<and> sch' = after_recovery now p policy sch
            \<and> re_rebind_succeeded e = rebound))"
  using assms
proof (induction ps arbitrary: w)
  case Nil
  then show ?case by simp
next
  case (Cons p ps)
  show ?case
  proof (cases rule: recover_first_step [of E now rebind snapshot p ps sch tick en w])
    case (skip w1)
    with Cons.prems have "recover_first E now rebind snapshot ps sch (tick, en, w1)
        = (rebound, sch', tick', en', w')" by simp
    from Cons.IH [OF this] show ?thesis by (metis list.set_intros(2))
  next
    case (recover policy seen w1)
    with Cons.prems have r: "recover_peer E now rebind p policy seen sch (tick, en, w1)
        = (rebound, sch', tick', en', w')" by simp
    from recover_peer_facts(1) [OF r] obtain e where e: "tk_events tick' = tk_events tick @ [e]"
      "re_peer_name e = sp_name p" "re_rebind_udp e = rp_rebind_udp policy"
      "re_silence e = duration_since now seen" "re_rebind_succeeded e = rebound" by blast
    with recover(2-5) have "recovers now snapshot sch p policy e" by (simp add: recovers_def)
    with e recover_peer_facts(2,3) [OF r] show ?thesis by (metis list.set_intros(1))
  qed
qed

lemma send_keepalives_facts:
  assumes "send_keepalives E now rebound ps sch (tick, en, w) = (sch', tick', en', w')"
  shows "(engine_step L E)\<^sup>*\<^sup>* en en' \<and> tk_events tick' = tk_events tick
    \<and> (\<exists>m. sch' = sch\<lparr>last_sent := m\<rparr>)"
  using assms
proof (induction ps arbitrary: sch tick en w)
  case (Cons p ps)
  show ?case
  proof (cases "keepalive_should_send now (hm_get (last_sent sch) (sp_name p)) (sp_persistent_keepalive p)
      (sp_recovery p \<noteq> None) rebound")
    case False
    with Cons.prems obtain m where
      "send_keepalives E now rebound ps (sch\<lparr>last_sent := m\<rparr>) (tick, en, w) = (sch', tick', en', w')"
      by (cases "sp_persistent_keepalive p \<noteq> 0 \<and> \<not> hm_contains (last_sent sch) (sp_name p)")
        (auto simp: Let_def intro: that [of "last_sent sch"])
    from Cons.IH [OF this] show ?thesis by simp
  next
    case True
    obtain act w1 where a: "has_active_session E (en_sessions en) (sp_name p) w = (act, w1)"
      by (cases "has_active_session E (en_sessions en) (sp_name p) w")
    obtain r en1 w2 where k: "create_keepalive E en (sp_name p)
        (if sp_recovery p \<noteq> None then KEEPALIVE_PROBE_PAYLOAD else []) now w1 = (r, en1, w2)"
      by (rule prod_cases3)
    from True Cons.prems a k obtain m where
      "send_keepalives E now rebound ps (sch\<lparr>last_sent := m\<rparr>)
        (push_engine_output tick (sp_name p) ScheduledKeepalive r, en1, w2) = (sch', tick', en', w')"
      by (cases "act \<or> sp_recovery p = None") (auto simp: Let_def intro: that [of "last_sent sch"])
    from Cons.IH [OF this] do_keepalive [OF k, of L] show ?thesis
      by (auto intro: converse_rtranclp_into_rtranclp)
  qed
qed (auto intro: exI [of _ "last_sent sch'"])

subsection \<open>A whole tick\<close>

lemma scheduler_tick_facts:
  assumes "scheduler_tick E rebind sch en now w = (tick, sch', en', w')"
  shows "(engine_step L E)\<^sup>*\<^sup>* en en'
    \<and> sch_peers sch' = sch_peers sch
    \<and> (tk_events tick = [] \<and> last_udp_rebind_attempt sch' = last_udp_rebind_attempt sch
         \<and> last_session_recovery_attempt sch' = last_session_recovery_attempt sch
       \<or> (\<exists>p \<in> set (sch_peers sch). \<exists>policy e snapshot. recovers now snapshot sch p policy e \<and> tk_events tick = [e]
            \<and> last_udp_rebind_attempt sch' = last_udp_rebind_attempt (after_recovery now p policy sch)
            \<and> last_session_recovery_attempt sch'
                = last_session_recovery_attempt (after_recovery now p policy sch)))"
proof -
  obtain tick1 en1 w1 where a: "retry_pending E now (sch_peers sch)
      (\<lparr>tk_outputs = [], tk_events = [], tk_errors = []\<rparr>, en, w) = (tick1, en1, w1)" by (rule prod_cases3)
  obtain rebound sch2 tick2 en2 w2 where b: "recover_first E now rebind (en_peers en1) (sch_peers sch) sch
      (tick1, en1, w1) = (rebound, sch2, tick2, en2, w2)" by (rule prod_cases5)
  have c: "send_keepalives E now rebound (sch_peers sch) sch2 (tick2, en2, w2) = (sch', tick, en', w')"
    using assms a b by (simp add: scheduler_tick_def split: prod.splits)
  from retry_pending_facts [OF a, of L] have r: "tk_events tick1 = []" "(engine_step L E)\<^sup>*\<^sup>* en en1" by simp_all
  from send_keepalives_facts [OF c, of L] obtain m where k: "tk_events tick = tk_events tick2"
    "sch' = sch2\<lparr>last_sent := m\<rparr>" "(engine_step L E)\<^sup>*\<^sup>* en2 en'" by auto
  note f = recover_first_facts [OF b, of L]
  then have "(engine_step L E)\<^sup>*\<^sup>* en1 en2" by blast
  with r(2) k(3) have "(engine_step L E)\<^sup>*\<^sup>* en en'" by (meson rtranclp_trans)
  moreover from f have "(tk_events tick = [] \<and> sch2 = sch)
      \<or> (\<exists>p \<in> set (sch_peers sch). \<exists>policy e. recovers now (en_peers en1) sch p policy e \<and> tk_events tick = [e]
           \<and> sch2 = after_recovery now p policy sch)"
    using r(1) k(1) by auto
  ultimately show ?thesis
    using k(2) by (elim disjE bexE exE conjE) (force simp: after_recovery_peers)+
qed

text \<open>The recoveries of a sequence of ticks of one scheduler, each on whatever engine state the
traffic in between has left, with the time of the tick.\<close>

fun recoveries ::
    "('hs, 'ts, 'w) runtime \<Rightarrow> (string \<Rightarrow> duration \<Rightarrow> 'w \<Rightarrow> bool \<times> 'w) \<Rightarrow> scheduler
      \<Rightarrow> (('net, 'hs, 'ts) engine \<times> instant \<times> 'w) list \<Rightarrow> (instant \<times> recovery_event) list" where
  "recoveries E rebind sch [] = []"
| "recoveries E rebind sch ((en, now, w) # rest) =
    (case scheduler_tick E rebind sch en now w of (tick, sch', _, _) \<Rightarrow>
       map (\<lambda>e. (now, e)) (tk_events tick) @ recoveries E rebind sch' rest)"

text \<open>The time after which the next recovery of the same kind may happen.\<close>

definition spaced :: "scheduled_peer list \<Rightarrow> instant \<Rightarrow> instant \<times> recovery_event \<Rightarrow> bool" where
  "spaced ps t x \<longleftrightarrow> (\<exists>p \<in> set ps. \<exists>policy. sp_name p = re_peer_name (snd x) \<and> sp_recovery p = Some policy
     \<and> rp_rebind_udp policy = re_rebind_udp (snd x) \<and> t + rp_timeout policy \<le> fst x)"

definition last_attempt :: "scheduler \<Rightarrow> recovery_event \<Rightarrow> instant option" where
  "last_attempt sch e = (if re_rebind_udp e then last_udp_rebind_attempt sch
     else hm_get (last_session_recovery_attempt sch) (re_peer_name e))"

definition policies_positive :: "scheduler \<Rightarrow> bool" where
  "policies_positive sch \<longleftrightarrow>
    (\<forall>p \<in> set (sch_peers sch). \<forall>policy. sp_recovery p = Some policy \<longrightarrow> 0 < rp_timeout policy)"

lemma recovery_due_iff:
  "0 < timeout \<Longrightarrow> recovery_due now seen attempt timeout \<longleftrightarrow>
    seen + timeout \<le> now \<and> (\<forall>a. attempt = Some a \<longrightarrow> a + timeout \<le> now)"
  by (auto simp: recovery_due_def duration_since_def split: option.splits)

lemma scheduler_new_positive: "policies_positive (scheduler_new cfg)"
  by (auto simp: policies_positive_def scheduler_new_def recovery_policy_for_def unat_gt_0 word_neq_0_conv
      split: if_splits)

lemma recovers_spaced:
  assumes "recovers now snapshot sch p policy e" and "p \<in> set (sch_peers sch)" and "policies_positive sch"
    and "last_attempt sch e = Some a"
  shows "spaced (sch_peers sch) a (now, e)"
proof -
  from assms(1,2,3) have pos: "0 < rp_timeout policy" by (auto simp: policies_positive_def recovers_def)
  from assms(1) obtain seen where "recovery_due now seen (last_attempt sch e) (rp_timeout policy)"
    by (auto simp: recovers_def last_attempt_def)
  with recovery_due_iff [OF pos] assms(4) have "a + rp_timeout policy \<le> now" by simp
  with assms(1,2) show ?thesis by (auto simp: spaced_def recovers_def)
qed

lemma last_attempt_after:
  assumes "recovers now snapshot sch p policy e0" and "p \<in> set (sch_peers sch)" and "policies_positive sch"
    and "last_udp_rebind_attempt sch' = last_udp_rebind_attempt (after_recovery now p policy sch)"
    and "last_session_recovery_attempt sch' = last_session_recovery_attempt (after_recovery now p policy sch)"
    and "last_attempt sch e = Some a"
  shows "\<exists>b. last_attempt sch' e = Some b \<and> a \<le> b"
proof (cases "last_attempt sch' e = last_attempt sch e")
  case False
  with assms(4,5) have kind: "re_rebind_udp e = rp_rebind_udp policy" "re_rebind_udp e \<or> re_peer_name e = sp_name p"
    and now: "last_attempt sch' e = Some now"
    by (auto simp: last_attempt_def after_recovery_def split: if_splits)
  with assms(1) have "last_attempt sch e0 = last_attempt sch e"
    by (auto simp: last_attempt_def recovers_def)
  with recovers_spaced [OF assms(1-3), of a] assms(6) have "a \<le> now" by (auto simp: spaced_def)
  with now show ?thesis by blast
qed (use assms(6) in auto)

lemma recoveries_after_attempt:
  assumes "policies_positive sch"
  shows "\<forall>x \<in> set (recoveries E rebind sch envs). \<forall>a. last_attempt sch (snd x) = Some a \<longrightarrow>
    spaced (sch_peers sch) a x"
  using assms
proof (induction envs arbitrary: sch)
  case (Cons env envs)
  obtain en now w where env: "env = (en, now, w)" by (rule prod_cases3)
  obtain tick sch' en' w' where tick: "scheduler_tick E rebind sch en now w = (tick, sch', en', w')"
    by (rule prod_cases4)
  note facts = scheduler_tick_facts [OF tick]
  note kinds = facts [THEN conjunct2, THEN conjunct2]
  from facts have peers: "sch_peers sch' = sch_peers sch" by blast
  with Cons.prems have pos': "policies_positive sch'" by (simp add: policies_positive_def)
  have keep: "\<exists>b. last_attempt sch' e = Some b \<and> a \<le> b" if "last_attempt sch e = Some a" for e a
    using kinds
  proof (elim conjE disjE)
    assume "last_udp_rebind_attempt sch' = last_udp_rebind_attempt sch"
      "last_session_recovery_attempt sch' = last_session_recovery_attempt sch"
    with that show ?thesis by (auto simp: last_attempt_def split: if_splits)
  next
    assume "\<exists>p \<in> set (sch_peers sch). \<exists>policy e snapshot. recovers now snapshot sch p policy e \<and> tk_events tick = [e]
            \<and> last_udp_rebind_attempt sch' = last_udp_rebind_attempt (after_recovery now p policy sch)
            \<and> last_session_recovery_attempt sch'
                = last_session_recovery_attempt (after_recovery now p policy sch)"
    with last_attempt_after Cons.prems that show ?thesis by blast
  qed
  have later: "spaced (sch_peers sch) a x"
    if x: "x \<in> set (recoveries E rebind sch' envs)" "last_attempt sch (snd x) = Some a" for x a
  proof -
    from keep [OF x(2)] obtain b where "last_attempt sch' (snd x) = Some b" "a \<le> b" by blast
    with Cons.IH [OF pos'] x(1) peers show ?thesis by (fastforce simp: spaced_def)
  qed
  have first: "spaced (sch_peers sch) a (now, e)"
    if "e \<in> set (tk_events tick)" "last_attempt sch e = Some a" for e a
    using kinds that recovers_spaced [OF _ _ Cons.prems] by auto
  show ?case using first later by (auto simp: env tick)
qed simp

lemma recoveries_sorted:
  assumes "policies_positive sch"
  shows "sorted_wrt (\<lambda>(t, e) (t', e'). re_rebind_udp e = re_rebind_udp e' \<longrightarrow>
      re_rebind_udp e \<or> re_peer_name e = re_peer_name e' \<longrightarrow> spaced (sch_peers sch) t (t', e'))
    (recoveries E rebind sch envs)"
  using assms
proof (induction envs arbitrary: sch)
  case (Cons env envs)
  obtain en now w where env: "env = (en, now, w)" by (rule prod_cases3)
  obtain tick sch' en' w' where tick: "scheduler_tick E rebind sch en now w = (tick, sch', en', w')"
    by (rule prod_cases4)
  note facts = scheduler_tick_facts [OF tick]
  note kinds = facts [THEN conjunct2, THEN conjunct2]
  from facts have peers: "sch_peers sch' = sch_peers sch" by blast
  with Cons.prems have pos': "policies_positive sch'" by (simp add: policies_positive_def)
  note IH = Cons.IH [OF pos', unfolded peers]
  from kinds show ?case
  proof (elim conjE disjE)
    assume "tk_events tick = []"
    with IH show ?thesis by (simp add: env tick)
  next
    assume "\<exists>p \<in> set (sch_peers sch). \<exists>policy e snapshot. recovers now snapshot sch p policy e \<and> tk_events tick = [e]
            \<and> last_udp_rebind_attempt sch' = last_udp_rebind_attempt (after_recovery now p policy sch)
            \<and> last_session_recovery_attempt sch'
                = last_session_recovery_attempt (after_recovery now p policy sch)"
    then obtain p policy e snapshot where e: "recovers now snapshot sch p policy e" "tk_events tick = [e]"
      and sch': "last_udp_rebind_attempt sch' = last_udp_rebind_attempt (after_recovery now p policy sch)"
        "last_session_recovery_attempt sch' = last_session_recovery_attempt (after_recovery now p policy sch)"
      by blast
    have "spaced (sch_peers sch) now (t', e')"
      if "(t', e') \<in> set (recoveries E rebind sch' envs)" "re_rebind_udp e = re_rebind_udp e'"
        "re_rebind_udp e \<or> re_peer_name e = re_peer_name e'" for t' e'
    proof -
      from e(1) sch' that(2,3) have "last_attempt sch' e' = Some now"
        by (auto simp: last_attempt_def recovers_def after_recovery_def)
      with recoveries_after_attempt [OF pos', of E rebind envs] that(1) peers show ?thesis by fastforce
    qed
    with IH e(2) show ?thesis by (auto simp: env tick)
  qed
qed simp

definition keepalives_in :: "'net sched_tick \<Rightarrow> nat" where
  "keepalives_in tick = length (filter (\<lambda>x. so_operation x = ScheduledKeepalive) (tk_outputs tick))
     + length (filter (\<lambda>x. se_operation x = ScheduledKeepalive) (tk_errors tick))"

lemma keepalives_push:
  "keepalives_in (push_engine_output tick name operation r) =
    keepalives_in tick + (if operation = ScheduledKeepalive then 1 else 0)"
  by (simp add: keepalives_in_def push_engine_output_def split: sum.splits)

lemma send_keepalives_all:
  assumes "send_keepalives E now True ps sch (tick, en, w) = (sch', tick', en', w')"
  shows "keepalives_in tick' = keepalives_in tick + length ps"
  using assms
proof (induction ps arbitrary: sch tick en w)
  case (Cons p ps)
  obtain act w1 where a: "has_active_session E (en_sessions en) (sp_name p) w = (act, w1)"
    by (cases "has_active_session E (en_sessions en) (sp_name p) w")
  obtain r en1 w2 where k: "create_keepalive E en (sp_name p)
      (if sp_recovery p \<noteq> None then KEEPALIVE_PROBE_PAYLOAD else []) now w1 = (r, en1, w2)"
    by (rule prod_cases3)
  from Cons.prems a k obtain sch1 where
    "send_keepalives E now True ps sch1 (push_engine_output tick (sp_name p) ScheduledKeepalive r, en1, w2)
      = (sch', tick', en', w')"
    by (auto simp: Let_def keepalive_should_send_def)
  from Cons.IH [OF this] show ?case by (simp add: keepalives_push)
qed simp

lemma retry_keepalives:
  assumes "retry_pending E now ps (tick, en, w) = (tick', en', w')"
  shows "keepalives_in tick' = keepalives_in tick"
  using assms
  by (induction ps arbitrary: tick en w) (auto simp: keepalives_push split: if_splits prod.splits)

lemma recover_peer_keepalives:
  "recover_peer E now rebind p policy seen sch (tick, en, w) = (rebound, sch', tick', en', w') \<Longrightarrow>
    keepalives_in tick' = keepalives_in tick"
  using keepalives_push [of tick "sp_name p" SessionRecovery]
  by (auto simp: recover_peer_def Let_def keepalives_in_def split: prod.splits if_splits)

lemma recover_first_keepalives:
  assumes "recover_first E now rebind snapshot ps sch (tick, en, w) = (rebound, sch', tick', en', w')"
  shows "keepalives_in tick' = keepalives_in tick"
  using assms
proof (induction ps arbitrary: w)
  case (Cons p ps)
  show ?case
  proof (cases rule: recover_first_step [of E now rebind snapshot p ps sch tick en w])
    case (skip w1)
    with Cons show ?thesis by metis
  next
    case (recover policy seen w1)
    with Cons.prems recover_peer_keepalives show ?thesis by metis
  qed
qed simp

lemma send_keepalives_most:
  assumes "send_keepalives E now rebound ps sch (tick, en, w) = (sch', tick', en', w')"
  shows "keepalives_in tick' \<le> keepalives_in tick + length ps"
  using assms
proof (induction ps arbitrary: sch tick en w)
  case (Cons p ps)
  obtain act w1 where a: "has_active_session E (en_sessions en) (sp_name p) w = (act, w1)"
    by (cases "has_active_session E (en_sessions en) (sp_name p) w")
  obtain r en1 w2 where k: "create_keepalive E en (sp_name p)
      (if sp_recovery p \<noteq> None then KEEPALIVE_PROBE_PAYLOAD else []) now w1 = (r, en1, w2)"
    by (rule prod_cases3)
  from Cons.prems a k obtain sch1 tick1 en0 w0 where
    rest: "send_keepalives E now rebound ps sch1 (tick1, en0, w0) = (sch', tick', en', w')"
    and "tick1 = tick \<or> tick1 = push_engine_output tick (sp_name p) ScheduledKeepalive r"
    by (cases "keepalive_should_send now (hm_get (last_sent sch) (sp_name p)) (sp_persistent_keepalive p)
        (sp_recovery p \<noteq> None) rebound") (auto simp: Let_def)
  with Cons.IH [OF rest] show ?case by (auto simp: keepalives_push)
qed simp

lemma scheduler_tick_keepalives:
  assumes "scheduler_tick E rebind sch en now w = (tick, sch', en', w')"
  shows "keepalives_in tick \<le> length (sch_peers sch)
    \<and> (list_ex re_rebind_succeeded (tk_events tick) \<longrightarrow> keepalives_in tick = length (sch_peers sch))"
proof -
  obtain tick1 en1 w1 where a: "retry_pending E now (sch_peers sch)
      (\<lparr>tk_outputs = [], tk_events = [], tk_errors = []\<rparr>, en, w) = (tick1, en1, w1)" by (rule prod_cases3)
  obtain rebound sch2 tick2 en2 w2 where b: "recover_first E now rebind (en_peers en1) (sch_peers sch) sch
      (tick1, en1, w1) = (rebound, sch2, tick2, en2, w2)" by (rule prod_cases5)
  have c: "send_keepalives E now rebound (sch_peers sch) sch2 (tick2, en2, w2) = (sch', tick, en', w')"
    using assms a b by (simp add: scheduler_tick_def split: prod.splits)
  have zero: "keepalives_in tick2 = 0"
    using retry_keepalives [OF a] recover_first_keepalives [OF b] by (simp add: keepalives_in_def)
  have "tk_events tick2 = [] \<or> (\<exists>e. tk_events tick2 = [e] \<and> re_rebind_succeeded e = rebound)"
    using recover_first_facts [OF b] retry_pending_facts [OF a] by auto
  moreover have "tk_events tick = tk_events tick2" using send_keepalives_facts [OF c] by simp
  ultimately have "keepalives_in tick = length (sch_peers sch)" if "list_ex re_rebind_succeeded (tk_events tick)"
    using that c zero send_keepalives_all [of E now "sch_peers sch" sch2 tick2 en2 w2 sch' tick en' w'] by auto
  with send_keepalives_most [OF c] zero show ?thesis by simp
qed

lemma recovers_silence: "recovers now snapshot sch p policy e \<Longrightarrow> rp_timeout policy \<le> re_silence e"
  by (auto simp: recovers_def recovery_due_def duration_since_def Let_def split: option.splits)

definition rate_limited :: "scheduled_peer list \<Rightarrow> instant \<times> recovery_event \<Rightarrow> instant \<times> recovery_event \<Rightarrow> bool" where
  "rate_limited ps = (\<lambda>(t, e) (t', e'). re_rebind_udp e = re_rebind_udp e' \<longrightarrow>
      re_rebind_udp e \<or> re_peer_name e = re_peer_name e' \<longrightarrow> spaced ps t (t', e'))"

subsection \<open>Properties\<close>

text \<open>C24: Recovery is rate limited over any run of the scheduler, whatever the traffic between its
ticks did to the engine: two UDP rebinds, of whatever peers, and two session recoveries of the same
peer are at least the later peer's configured timeout apart.\<close>

theorem recoveries_rate_limited:
  "sorted_wrt (rate_limited (sch_peers (scheduler_new cfg))) (recoveries E rebind (scheduler_new cfg) envs)"
  using recoveries_sorted [OF scheduler_new_positive, of cfg E rebind envs] unfolding rate_limited_def .

text \<open>A tick recovers at most one peer, and only one that the configuration allows to recover and
that has been silent for at least its timeout.\<close>

lemma one_recovery_for_a_silent_peer:
  "case scheduler_tick E rebind sch en now w of (tick, _) \<Rightarrow>
    tk_events tick = [] \<or>
    (\<exists>p \<in> set (sch_peers sch). \<exists>policy e. tk_events tick = [e] \<and> re_peer_name e = sp_name p
       \<and> sp_recovery p = Some policy \<and> re_rebind_udp e = rp_rebind_udp policy
       \<and> rp_timeout policy \<le> re_silence e)"
proof -
  obtain tick sch' en' w' where tick: "scheduler_tick E rebind sch en now w = (tick, sch', en', w')"
    by (rule prod_cases4)
  note kinds = scheduler_tick_facts [OF tick, THEN conjunct2, THEN conjunct2]
  then consider "tk_events tick = []" | p policy e snapshot where "p \<in> set (sch_peers sch)"
    "recovers now snapshot sch p policy e" "tk_events tick = [e]" by blast
  then show ?thesis
  proof cases
    case 2
    with recovers_silence [OF 2(2)] show ?thesis by (auto simp: tick recovers_def)
  qed (simp add: tick)
qed

text \<open>After a successful UDP rebind every peer is sent an authenticated packet in the same tick,
so that all remote sides learn the new source port; otherwise at most one per peer is attempted.\<close>

lemma rebind_reaches_every_peer:
  "case scheduler_tick E rebind sch en now w of (tick, _) \<Rightarrow>
    if list_ex re_rebind_succeeded (tk_events tick) then keepalives_in tick = length (sch_peers sch)
    else keepalives_in tick \<le> length (sch_peers sch)"
proof -
  obtain tick sch' en' w' where tick: "scheduler_tick E rebind sch en now w = (tick, sch', en', w')"
    by (rule prod_cases4)
  from scheduler_tick_keepalives [OF tick] show ?thesis by (simp add: tick)
qed

text \<open>A tick acts on the engine only through its public operations: from a reachable engine it
leads to a reachable engine, so all engine and session guarantees survive maintenance.\<close>

lemma tick_keeps_engine_reachable:
  assumes "engine_reachable L E R k en" and "scheduler_tick E rebind sch en now w = (tick, sch', en', w')"
  shows "engine_reachable L E R k en'"
proof -
  from scheduler_tick_facts [OF assms(2), of L] have "(engine_step L E)\<^sup>*\<^sup>* en en'" by blast
  from packet_engine.reachable_steps [OF this assms(1)] show ?thesis .
qed

lemma tick_keeps_engine_reachable_witness:
  "case scheduler_tick demo_runtime (\<lambda>_ _ w. (True, w)) (scheduler_new demo_config)
      (engine_start demo_router []) 1000 0 of (_, _, en', _) \<Rightarrow>
    engine_reachable demo_libs demo_runtime demo_router [] en'"
proof -
  obtain tick sch' en' w' where tick: "scheduler_tick demo_runtime (\<lambda>_ _ w. (True, w)) (scheduler_new demo_config)
      (engine_start demo_router []) 1000 0 = (tick, sch', en', w')"
    by (rule prod_cases4)
  have "engine_reachable demo_libs demo_runtime demo_router [] (engine_start demo_router [])"
    by (rule reachable.start) simp
  from tick_keeps_engine_reachable [OF this tick] show ?thesis unfolding tick by simp
qed

end
