(* ===== verification/Os.thy ===== *)
theory Os
  imports RustNet
begin

text \<open>
  What \<^verbatim>\<open>src/src/gateway.rs\<close> and \<^verbatim>\<open>src/src/routing.rs\<close> use of the
  standard library and of the operating system: text processing, \<open>anyhow\<close> errors, and the
  calls of the system as the fields of a record \<open>os\<close> over an arbitrary type \<open>'w\<close> of system
  states. A call that can change the system returns the new state; a query does not. Other
  processes are not modelled.
\<close>

subsection \<open>Text\<close>

definition strip_cr :: "string \<Rightarrow> string" where
  "strip_cr l = (if ends_with l [CHR 0x0D] then butlast l else l)"

text \<open>\<open>str::lines\<close>: a carriage return is dropped only in front of a line feed.\<close>

definition str_lines :: "string \<Rightarrow> string list" where
  "str_lines s =
    (let ps = split_on (CHR 0x0A) s in
     map strip_cr (butlast ps) @ (if last ps = [] then [] else [last ps]))"

fun split_by :: "(char \<Rightarrow> bool) \<Rightarrow> string \<Rightarrow> string list" where
  "split_by p [] = [[]]"
| "split_by p (c # cs) =
    (if p c then [] # split_by p cs
     else case split_by p cs of [] \<Rightarrow> [[c]] | t # ts \<Rightarrow> (c # t) # ts)"

definition is_ascii_whitespace :: "char \<Rightarrow> bool" where
  "is_ascii_whitespace c \<longleftrightarrow> (of_char c :: nat) \<in> {9, 10, 12, 13, 32}"

definition split_ascii_whitespace :: "string \<Rightarrow> string list" where
  "split_ascii_whitespace s = filter (\<lambda>t. t \<noteq> []) (split_by is_ascii_whitespace s)"

text \<open>\<open>str::split_whitespace\<close>, with the token read so far.\<close>

function split_whitespace_from :: "string \<Rightarrow> string \<Rightarrow> string list" where
  "split_whitespace_from tok s =
    (case find (\<lambda>p. starts_with s p \<and> p \<noteq> []) white_space of
       Some p \<Rightarrow> (if tok = [] then [] else [tok]) @ split_whitespace_from [] (drop (length p) s)
     | None \<Rightarrow>
         (case s of
            [] \<Rightarrow> (if tok = [] then [] else [tok])
          | c # cs \<Rightarrow> split_whitespace_from (tok @ [c]) cs))"
  by pat_completeness auto
termination
proof (relation "measure (length \<circ> snd)")
  fix tok s p
  assume "find (\<lambda>p. starts_with s p \<and> p \<noteq> []) white_space = Some p"
  then have "starts_with s p" and "p \<noteq> []" by (auto simp: find_Some_iff)
  then have "0 < length p" and "s \<noteq> []" by (auto simp: starts_with_def)
  then show "(([], drop (length p) s), (tok, s)) \<in> measure (length \<circ> snd)" by simp
qed simp_all

declare split_whitespace_from.simps [simp del]

definition split_whitespace :: "string \<Rightarrow> string list" where
  "split_whitespace s = split_whitespace_from [] s"

definition trim_matches :: "char set \<Rightarrow> string \<Rightarrow> string" where
  "trim_matches cs s = rev (dropWhile (\<lambda>c. c \<in> cs) (rev (dropWhile (\<lambda>c. c \<in> cs) s)))"

fun any_window2 :: "('a \<Rightarrow> 'a \<Rightarrow> bool) \<Rightarrow> 'a list \<Rightarrow> bool" where
  "any_window2 p (x # y # zs) = (p x y \<or> any_window2 p (y # zs))"
| "any_window2 p _ = False"

definition parse_u64 :: "string \<Rightarrow> u64 option" where
  "parse_u64 s =
    (let t = (case s of [] \<Rightarrow> [] | c # cs \<Rightarrow> if c = CHR ''+'' then cs else s) in
     case read_number 10 None True (2 ^ 64) t of
       Some (v, []) \<Rightarrow> Some (word_of_int v)
     | _ \<Rightarrow> None)"

text \<open>\<open>Path::join\<close> of a directory and a relative name.\<close>

definition path_join :: "string \<Rightarrow> string \<Rightarrow> string" where
  "path_join dir name = (if ends_with dir ''/'' \<or> dir = [] then dir @ name else dir @ ''/'' @ name)"

subsection \<open>Errors and effects\<close>

text \<open>An \<open>anyhow::Error\<close> is its chain of messages, the outermost context first.\<close>

type_synonym failure = "string list"

type_synonym ('w, 'a) io = "'w \<Rightarrow> (failure, 'a) result \<times> 'w"

definition io_ok :: "'a \<Rightarrow> ('w, 'a) io" where
  "io_ok x w = (Ok x, w)"

definition io_bail :: "string \<Rightarrow> ('w, 'a) io" where
  "io_bail msg w = (Err [msg], w)"

text \<open>The \<open>?\<close> operator, \<open>with_context\<close>, and a query whose result is a \<open>Result\<close>.\<close>

definition io_then :: "('w, 'a) io \<Rightarrow> ('a \<Rightarrow> ('w, 'b) io) \<Rightarrow> ('w, 'b) io" where
  "io_then m k w = (case m w of (Inl e, w1) \<Rightarrow> (Err e, w1) | (Inr x, w1) \<Rightarrow> k x w1)"

definition io_context :: "string \<Rightarrow> ('w, 'a) io \<Rightarrow> ('w, 'a) io" where
  "io_context msg m w = (case m w of (r, w1) \<Rightarrow> (map_err (\<lambda>e. msg # e) r, w1))"

definition io_call :: "('w \<Rightarrow> (string, 'a) result \<times> 'w) \<Rightarrow> ('w, 'a) io" where
  "io_call f w = (case f w of (r, w1) \<Rightarrow> (map_err (\<lambda>e. [e]) r, w1))"

definition io_query :: "('w \<Rightarrow> (string, 'a) result) \<Rightarrow> ('w, 'a) io" where
  "io_query f w = (map_err (\<lambda>e. [e]) (f w), w)"

definition io_ensure :: "bool \<Rightarrow> string \<Rightarrow> ('w, unit) io" where
  "io_ensure b msg = (if b then io_ok () else io_bail msg)"

text \<open>\<open>let _ = m\<close>: the effect without the result.\<close>

definition io_ignore :: "('w, 'a) io \<Rightarrow> 'w \<Rightarrow> 'w" where
  "io_ignore m w = snd (m w)"

text \<open>A manager that keeps its own state \<open>'m\<close> beside the system.\<close>

definition on_system :: "('w, 'a) io \<Rightarrow> ('w \<times> 'm, 'a) io" where
  "on_system m s = (case m (fst s) of (r, w) \<Rightarrow> (r, (w, snd s)))"

lemma io_simps [simp]:
  "io_ok x w = (Ok x, w)" "io_bail msg w = (Err [msg], w)"
  "io_ensure b msg w = (if b then Ok () else Err [msg], w)"
  by (simp_all add: io_ok_def io_bail_def io_ensure_def)

lemma io_then_Ok: "m w = (Ok x, w1) \<Longrightarrow> io_then m k w = k x w1"
  by (simp add: io_then_def)

lemma io_then_Err: "m w = (Err e, w1) \<Longrightarrow> io_then m k w = (Err e, w1)"
  by (simp add: io_then_def)

lemma io_then_eq_Ok:
  "io_then m k w = (Ok y, w') \<longleftrightarrow> (\<exists>x w1. m w = (Ok x, w1) \<and> k x w1 = (Ok y, w'))"
  by (cases "m w"; cases "fst (m w)") (auto simp: io_then_def)

lemma io_context_eq_Ok [simp]: "io_context msg m w = (Ok y, w') \<longleftrightarrow> m w = (Ok y, w')"
  by (cases "m w"; cases "fst (m w)") (auto simp: io_context_def)

subsection \<open>Operations that leave an observation alone\<close>

definition leaves :: "('w \<Rightarrow> 'b) \<Rightarrow> ('w, 'a) io \<Rightarrow> bool" where
  "leaves obs m \<longleftrightarrow> (\<forall>w. obs (snd (m w)) = obs w)"

lemma leavesD: "leaves obs m \<Longrightarrow> m w = (r, w') \<Longrightarrow> obs w' = obs w"
  by (metis leaves_def snd_conv)

lemma leaves_ok [intro]: "leaves obs (io_ok x)" "leaves obs (io_bail e)" "leaves obs (Pair y)"
  by (simp_all add: leaves_def)

lemma leaves_then [intro]: "leaves obs m \<Longrightarrow> (\<And>x. leaves obs (k x)) \<Longrightarrow> leaves obs (io_then m k)"
  by (auto simp: leaves_def io_then_def split: prod.splits sum.splits) (metis snd_conv)+

lemma leaves_if [intro]: "leaves obs m \<Longrightarrow> leaves obs n \<Longrightarrow> leaves obs (if b then m else n)"
  by simp

lemma io_call_leaves: "(\<And>w. view (snd (f w)) = view w) \<Longrightarrow> leaves view (io_call f)"
  by (auto simp: leaves_def io_call_def split: prod.splits) (metis snd_conv)

lemma io_context_leaves: "leaves view m \<Longrightarrow> leaves view (io_context msg m)"
  by (auto simp: leaves_def io_context_def split: prod.splits) (metis snd_conv)

lemmas io_leaves = leaves_then leaves_ok io_context_leaves io_call_leaves

subsection \<open>The system\<close>

record process_output =
  po_code :: "int option"
  po_stdout :: string
  po_stderr :: string

definition po_success :: "process_output \<Rightarrow> bool" where
  "po_success out \<longleftrightarrow> po_code out = Some 0"

datatype create_failure = AlreadyExists | CreateFailed string

record 'w os =
  os_is_linux :: bool
  os_euid :: nat
  os_env :: "string \<Rightarrow> string option"
  os_command :: "string \<Rightarrow> string list \<Rightarrow> 'w \<Rightarrow> (string, process_output) result \<times> 'w"
  os_exists :: "string \<Rightarrow> 'w \<Rightarrow> bool"
  os_read :: "string \<Rightarrow> 'w \<Rightarrow> (string, string) result"
  os_read_link :: "string \<Rightarrow> 'w \<Rightarrow> (string, string) result"
  os_read_dir :: "string \<Rightarrow> 'w \<Rightarrow> (string, (string, string) result list) result"
  os_create_dir_all :: "string \<Rightarrow> 'w \<Rightarrow> (string, unit) result \<times> 'w"
  os_set_permissions :: "string \<Rightarrow> nat \<Rightarrow> 'w \<Rightarrow> (string, unit) result \<times> 'w"
  os_create_new :: "string \<Rightarrow> 'w \<Rightarrow> (create_failure, unit) result \<times> 'w"
  os_write_all :: "string \<Rightarrow> string \<Rightarrow> 'w \<Rightarrow> (string, unit) result \<times> 'w"
  os_write :: "string \<Rightarrow> string \<Rightarrow> 'w \<Rightarrow> (string, unit) result \<times> 'w"
  os_remove_file :: "string \<Rightarrow> 'w \<Rightarrow> (string, unit) result \<times> 'w"
  os_open :: "string \<Rightarrow> 'w \<Rightarrow> (string, unit) result \<times> 'w"
  os_lock_exclusive :: "string \<Rightarrow> 'w \<Rightarrow> (string, unit) result \<times> 'w"
  os_unlock :: "string \<Rightarrow> 'w \<Rightarrow> 'w"

subsection \<open>Trimming\<close>

lemma starts_hd: "starts_with (c # cs) p \<Longrightarrow> p \<noteq> [] \<Longrightarrow> hd p = c"
  by (induction p) (simp_all add: starts_with_def)

lemma ends_with_append: "ends_with s p \<Longrightarrow> \<exists>x. s = x @ p"
proof -
  assume "ends_with s p"
  then have "rev s = rev p @ drop (length p) (rev s)"
    using append_take_drop_id [of "length p" "rev s"] by (simp add: ends_with_def starts_with_def)
  then have "s = rev (rev p @ drop (length p) (rev s))" by (metis rev_rev_ident)
  then have "s = rev (drop (length p) (rev s)) @ p" by (simp only: rev_append rev_rev_ident)
  then show ?thesis by blast
qed

text \<open>A string that starts and ends with a letter or digit has nothing to trim.\<close>

lemma trim_start_word:
  assumes "is_ascii_alphanumeric (hd s)" and "s \<noteq> []"
  shows "trim_start s = s"
proof -
  have "\<not> (starts_with s p \<and> p \<noteq> [])" if "p \<in> set white_space" for p
    using starts_hd [of "hd s" "tl s" p] white_space_not_alphanumeric [OF that] assms by auto
  then have "find (\<lambda>p. starts_with s p \<and> p \<noteq> []) white_space = None" unfolding find_None_iff by blast
  then show ?thesis by (subst trim_start.simps) simp
qed

lemma trim_end_word:
  assumes "is_ascii_alphanumeric (last s)" and "s \<noteq> []"
  shows "trim_end s = s"
proof -
  have "\<not> (ends_with s p \<and> p \<noteq> [])" if "p \<in> set white_space" for p
  proof
    assume "ends_with s p \<and> p \<noteq> []"
    then obtain x where "s = x @ p" "p \<noteq> []" using ends_with_append by blast
    with white_space_not_alphanumeric [OF that] assms show False by simp
  qed
  then have "find (\<lambda>p. ends_with s p \<and> p \<noteq> []) white_space = None" unfolding find_None_iff by blast
  then show ?thesis by (subst trim_end.simps) simp
qed

subsection \<open>Tokens of a line\<close>

lemma split_by_word: "list_all (\<lambda>c. \<not> p c) s \<Longrightarrow> split_by p s = [s]"
  by (induction s) auto

lemma split_by_nonempty: "split_by p s \<noteq> []"
  by (cases s) (auto split: list.splits)

lemma split_by_append:
  assumes "list_all (\<lambda>c. \<not> p c) s" and "p c"
  shows "split_by p (s @ c # t) = s # split_by p t"
  using assms by (induction s) auto

text \<open>A line of words separated by single spaces is split into those words.\<close>

lemma split_ascii_join:
  assumes "\<forall>t \<in> set ts. t \<noteq> [] \<and> list_all (\<lambda>c. \<not> is_ascii_whitespace c) t"
  shows "split_ascii_whitespace (join '' '' ts) = ts"
  using assms
proof (induction ts rule: induct_list012)
  case 1
  then show ?case by (simp add: split_ascii_whitespace_def)
next
  case (2 t)
  then show ?case by (simp add: split_ascii_whitespace_def split_by_word)
next
  case (3 t u us)
  have "is_ascii_whitespace (CHR '' '')" by (simp add: is_ascii_whitespace_def)
  with 3 show ?case by (simp add: split_ascii_whitespace_def split_by_append)
qed

end
