(* ===== verification/Routing.thy ===== *)
theory Routing
  imports Router Os
begin

text \<open>
  \<^verbatim>\<open>src/src/routing.rs\<close>: the routes of the operating system that carry the tunnel, the direct
  routes for excluded prefixes and for the transport endpoints, and their removal. The target
  (Linux or macOS), a compile-time choice of the code, is \<open>os_is_linux\<close>. The texts of an address
  prefix and of an exit status are functions of the libraries and are parameters. Log lines and
  the delay between two attempts are left out.
\<close>

datatype route_kind = TunRoute | EndpointException | ExcludedPrefix

record installed_route =
  ir_kind :: route_kind
  ir_spec :: string
  ir_tun_name :: string

record route_manager =
  rm_tun_name :: string
  rm_installed :: "installed_route list"

definition route_manager_new :: "string \<Rightarrow> route_manager" where
  "route_manager_new tun = \<lparr>rm_tun_name = tun, rm_installed = []\<rparr>"

record 'net texts =
  show_net :: "'net \<Rightarrow> string"
  show_status :: "process_output \<Rightarrow> string"

fun show_ip :: "ip_addr \<Rightarrow> string" where
  "show_ip (IpV4 a) = show_ipv4 a"
| "show_ip (IpV6 a) = show_ipv6 a"

subsection \<open>Commands\<close>

definition run_checked :: "'w os \<Rightarrow> string \<Rightarrow> string list \<Rightarrow> string \<Rightarrow> string \<Rightarrow> ('w, unit) io" where
  "run_checked sys program args doing failed =
    io_then (io_context doing (io_call (os_command sys program args))) (\<lambda>out.
      io_ensure (po_success out) failed)"

definition add_route_to_dev_linux :: "'w os \<Rightarrow> string \<Rightarrow> string \<Rightarrow> ('w, unit) io" where
  "add_route_to_dev_linux sys prefix dev =
     run_checked sys ''ip'' [''route'', ''add'', prefix, ''dev'', dev] ''running ip route add'' ''ip route add failed''"

definition add_route_to_dev_macos :: "'w os \<Rightarrow> string \<Rightarrow> string \<Rightarrow> ('w, unit) io" where
  "add_route_to_dev_macos sys prefix dev =
     run_checked sys ''route'' [''add'', ''-net'', prefix, ''-interface'', dev] ''running route add''
            ''route add failed''"

definition add_route_to_dev :: "'w os \<Rightarrow> string \<Rightarrow> string \<Rightarrow> ('w, unit) io" where
  "add_route_to_dev sys prefix dev =
    (if os_is_linux sys then add_route_to_dev_linux sys prefix dev
     else add_route_to_dev_macos sys prefix dev)"

declare add_route_to_dev_linux_def [simp] add_route_to_dev_macos_def [simp]

definition add_host_route_via_linux :: "'w os \<Rightarrow> string \<Rightarrow> string \<Rightarrow> string \<Rightarrow> ('w, unit) io" where
  "add_host_route_via_linux sys host gateway dev =
     run_checked sys ''ip'' [''route'', ''add'', host, ''via'', gateway, ''dev'', dev]
            ''running ip route add host via'' ''ip route add host via failed''"

definition add_host_route_via_macos :: "'w os \<Rightarrow> string \<Rightarrow> string \<Rightarrow> string \<Rightarrow> ('w, unit) io" where
  "add_host_route_via_macos sys host gateway dev =
     run_checked sys ''route'' [''add'', ''-host'', host, gateway] ''running route add host''
            ''route add host failed''"

definition add_host_route_via :: "'w os \<Rightarrow> string \<Rightarrow> string \<Rightarrow> string \<Rightarrow> ('w, unit) io" where
  "add_host_route_via sys host gateway dev =
    (if os_is_linux sys then add_host_route_via_linux sys host gateway dev
     else add_host_route_via_macos sys host gateway dev)"

declare add_host_route_via_linux_def [simp] add_host_route_via_macos_def [simp]

definition add_host_route_dev_linux :: "'w os \<Rightarrow> string \<Rightarrow> string \<Rightarrow> ('w, unit) io" where
  "add_host_route_dev_linux sys host dev =
     run_checked sys ''ip'' [''route'', ''add'', host, ''dev'', dev]
            ''running ip route add host dev'' ''ip route add host dev failed''"

definition add_host_route_dev_macos :: "'w os \<Rightarrow> string \<Rightarrow> string \<Rightarrow> ('w, unit) io" where
  "add_host_route_dev_macos sys host dev =
     run_checked sys ''route'' [''add'', ''-host'', host, ''-interface'', dev]
            ''running route add host via interface'' ''route add host via interface failed''"

definition add_host_route_dev :: "'w os \<Rightarrow> string \<Rightarrow> string \<Rightarrow> ('w, unit) io" where
  "add_host_route_dev sys host dev =
    (if os_is_linux sys then add_host_route_dev_linux sys host dev
     else add_host_route_dev_macos sys host dev)"

declare add_host_route_dev_linux_def [simp] add_host_route_dev_macos_def [simp]

definition add_prefix_route_via_linux :: "'w os \<Rightarrow> string \<Rightarrow> string \<Rightarrow> string \<Rightarrow> ('w, unit) io" where
  "add_prefix_route_via_linux sys prefix gateway dev =
     run_checked sys ''ip'' [''route'', ''add'', prefix, ''via'', gateway, ''dev'', dev]
            ''running ip route add excluded prefix via'' ''ip route add excluded prefix via failed''"

definition add_prefix_route_via_macos :: "'w os \<Rightarrow> string \<Rightarrow> string \<Rightarrow> string \<Rightarrow> ('w, unit) io" where
  "add_prefix_route_via_macos sys prefix gateway dev =
     run_checked sys ''route'' [''add'', ''-net'', prefix, gateway]
            ''running route add excluded prefix'' ''route add excluded prefix failed''"

definition add_prefix_route_via :: "'w os \<Rightarrow> string \<Rightarrow> string \<Rightarrow> string \<Rightarrow> ('w, unit) io" where
  "add_prefix_route_via sys prefix gateway dev =
    (if os_is_linux sys then add_prefix_route_via_linux sys prefix gateway dev
     else add_prefix_route_via_macos sys prefix gateway dev)"

declare add_prefix_route_via_linux_def [simp] add_prefix_route_via_macos_def [simp]

definition add_prefix_route_dev_linux :: "'w os \<Rightarrow> string \<Rightarrow> string \<Rightarrow> ('w, unit) io" where
  "add_prefix_route_dev_linux sys prefix dev =
     run_checked sys ''ip'' [''route'', ''add'', prefix, ''dev'', dev]
            ''running ip route add excluded prefix dev'' ''ip route add excluded prefix dev failed''"

definition add_prefix_route_dev_macos :: "'w os \<Rightarrow> string \<Rightarrow> string \<Rightarrow> ('w, unit) io" where
  "add_prefix_route_dev_macos sys prefix dev =
     run_checked sys ''route'' [''add'', ''-net'', prefix, ''-interface'', dev]
            ''running route add excluded prefix via interface'' ''route add excluded prefix via interface failed''"

definition add_prefix_route_dev :: "'w os \<Rightarrow> string \<Rightarrow> string \<Rightarrow> ('w, unit) io" where
  "add_prefix_route_dev sys prefix dev =
    (if os_is_linux sys then add_prefix_route_dev_linux sys prefix dev
     else add_prefix_route_dev_macos sys prefix dev)"

declare add_prefix_route_dev_linux_def [simp] add_prefix_route_dev_macos_def [simp]

subsection \<open>Reading the routing table\<close>

fun line_uses_dev :: "string list \<Rightarrow> string \<Rightarrow> bool" where
  "line_uses_dev [] expected = False"
| "line_uses_dev (token # tokens) expected =
    (if token = ''dev'' then (case tokens of [] \<Rightarrow> False | t # _ \<Rightarrow> t = expected)
     else line_uses_dev tokens expected)"

definition route_line_uses_dev :: "string \<Rightarrow> string \<Rightarrow> bool" where
  "route_line_uses_dev line expected = line_uses_dev (split_whitespace line) expected"

definition route_listing_contains :: "string \<Rightarrow> string option \<Rightarrow> bool" where
  "route_listing_contains listing dev =
    list_ex (\<lambda>line. case dev of None \<Rightarrow> trim line \<noteq> [] | Some expected \<Rightarrow> route_line_uses_dev line expected)
      (str_lines listing)"

definition linux_route_exists :: "'w os \<Rightarrow> string \<Rightarrow> string option \<Rightarrow> ('w, bool) io" where
  "linux_route_exists sys prefix dev =
    io_then (io_context ''running ip route show after delete''
        (io_call (os_command sys ''ip'' [''route'', ''show'', prefix]))) (\<lambda>out.
      if \<not> po_success out then io_bail ''ip route show failed after delete''
      else io_ok (route_listing_contains (po_stdout out) dev))"

text \<open>The last gateway and the last device of the line; a keyword in last place has no value.\<close>

fun scan_route :: "string list \<Rightarrow> string option \<Rightarrow> string option \<Rightarrow> string option \<times> string option" where
  "scan_route (part # next # rest) gateway dev =
    scan_route (next # rest) (if part = ''via'' then Some next else gateway)
      (if part = ''dev'' then Some next else dev)"
| "scan_route _ gateway dev = (gateway, dev)"

text \<open>macOS: a later line overrides an earlier one, also by a missing value.\<close>

fun scan_lines :: "string list \<Rightarrow> string option \<Rightarrow> string option \<Rightarrow> string option \<times> string option" where
  "scan_lines [] gateway interface = (gateway, interface)"
| "scan_lines (line # lines) gateway interface =
    (let l = trim line;
         second = (case split_whitespace l of _ # t # _ \<Rightarrow> Some t | _ \<Rightarrow> None) in
     scan_lines lines (if starts_with l ''gateway:'' then second else gateway)
       (if starts_with l ''interface:'' then second else interface))"

definition get_route_info_linux :: "'w os \<Rightarrow> string \<Rightarrow> ('w, string option \<times> string) io" where
  "get_route_info_linux sys dst =
     io_then (io_context ''running ip route get''
           (io_call (os_command sys ''ip'' [''route'', ''get'', dst]))) (\<lambda>out.
         case str_lines (po_stdout out) of
           [] \<Rightarrow> io_bail ''empty ip route get output''
         | line # _ \<Rightarrow>
             (case scan_route (split_whitespace line) None None of
                (gateway, None) \<Rightarrow> io_bail ''could not find 'dev' in ip route get output''
              | (gateway, Some dev) \<Rightarrow> io_ok (gateway, dev)))"

definition get_route_info_macos :: "'w os \<Rightarrow> string \<Rightarrow> ('w, string option \<times> string) io" where
  "get_route_info_macos sys dst =
     io_then (io_context ''running route -n get''
           (io_call (os_command sys ''route'' [''-n'', ''get'', dst]))) (\<lambda>out.
         case scan_lines (str_lines (po_stdout out)) None None of
           (gateway, None) \<Rightarrow> io_bail ''could not find interface in route output''
         | (gateway, Some interface) \<Rightarrow> io_ok (gateway, interface))"

definition get_route_info :: "'w os \<Rightarrow> string \<Rightarrow> ('w, string option \<times> string) io" where
  "get_route_info sys dst =
    (if os_is_linux sys then get_route_info_linux sys dst
     else get_route_info_macos sys dst)"

declare get_route_info_linux_def [simp] get_route_info_macos_def [simp]

subsection \<open>Deleting\<close>

definition DELETE_ATTEMPTS :: nat where "DELETE_ATTEMPTS = 3"

definition delete_failure ::
    "(process_output \<Rightarrow> string) \<Rightarrow> process_output option \<Rightarrow> failure option \<Rightarrow> failure" where
  "delete_failure status failed check =
    (case failed of
       None \<Rightarrow> [''route deletion attempted at least once'']
     | Some out \<Rightarrow>
         let detail = (if trim (po_stderr out) = [] then ''no stderr'' else trim (po_stderr out)) in
         case check of
           Some error \<Rightarrow> [''ip route del failed ('' @ status out @ '', '' @ detail
             @ ''); final route check failed: '' @ (case error of [] \<Rightarrow> [] | m # _ \<Rightarrow> m)]
         | None \<Rightarrow> [''ip route del failed ('' @ status out @ '', '' @ detail @ '')''])"

fun delete_attempts ::
    "'w os \<Rightarrow> (process_output \<Rightarrow> string) \<Rightarrow> string list \<Rightarrow> string \<Rightarrow> string option \<Rightarrow> nat
      \<Rightarrow> process_output option \<Rightarrow> failure option \<Rightarrow> ('w, unit) io" where
  "delete_attempts sys status args prefix dev 0 failed check w = (Err (delete_failure status failed check), w)"
| "delete_attempts sys status args prefix dev (Suc n) failed check w =
    (case io_context ''running ip route del'' (io_call (os_command sys ''ip'' args)) w of
       (Inl e, w1) \<Rightarrow> (Err e, w1)
     | (Inr out, w1) \<Rightarrow>
         if po_success out then (Ok (), w1)
         else
           case linux_route_exists sys prefix dev w1 of
             (Inr False, w2) \<Rightarrow> (Ok (), w2)
           | (Inr True, w2) \<Rightarrow> delete_attempts sys status args prefix dev n (Some out) None w2
           | (Inl error, w2) \<Rightarrow> delete_attempts sys status args prefix dev n (Some out) (Some error) w2)"

definition delete_linux_route ::
    "'w os \<Rightarrow> (process_output \<Rightarrow> string) \<Rightarrow> string list \<Rightarrow> string \<Rightarrow> string option \<Rightarrow> ('w, unit) io" where
  "delete_linux_route sys status args prefix dev =
    delete_attempts sys status args prefix dev DELETE_ATTEMPTS None None"

definition del_tun_route_linux :: "'w os \<Rightarrow> (process_output \<Rightarrow> string) \<Rightarrow> string \<Rightarrow> string \<Rightarrow> ('w, unit) io" where
  "del_tun_route_linux sys status prefix dev =
     delete_linux_route sys status [''route'', ''del'', prefix, ''dev'', dev] prefix (Some dev)"

definition del_tun_route_macos :: "'w os \<Rightarrow> (process_output \<Rightarrow> string) \<Rightarrow> string \<Rightarrow> string \<Rightarrow> ('w, unit) io" where
  "del_tun_route_macos sys status prefix dev =
     run_checked sys ''route'' [''delete'', ''-net'', prefix, ''-interface'', dev]
            ''running route delete'' ''route delete failed''"

definition del_tun_route :: "'w os \<Rightarrow> (process_output \<Rightarrow> string) \<Rightarrow> string \<Rightarrow> string \<Rightarrow> ('w, unit) io" where
  "del_tun_route sys status prefix dev =
    (if os_is_linux sys then del_tun_route_linux sys status prefix dev
     else del_tun_route_macos sys status prefix dev)"

declare del_tun_route_linux_def [simp] del_tun_route_macos_def [simp]

definition del_prefix_exception_linux :: "'w os \<Rightarrow> (process_output \<Rightarrow> string) \<Rightarrow> string \<Rightarrow> string \<Rightarrow> ('w, unit) io" where
  "del_prefix_exception_linux sys status prefix dev =
     delete_linux_route sys status [''route'', ''del'', prefix, ''dev'', dev] prefix (Some dev)"

definition del_prefix_exception_macos :: "'w os \<Rightarrow> (process_output \<Rightarrow> string) \<Rightarrow> string \<Rightarrow> string \<Rightarrow> ('w, unit) io" where
  "del_prefix_exception_macos sys status prefix dev =
     run_checked sys ''route'' [''delete'', ''-net'', prefix]
            ''running route delete excluded prefix'' ''route delete excluded prefix failed''"

definition del_prefix_exception :: "'w os \<Rightarrow> (process_output \<Rightarrow> string) \<Rightarrow> string \<Rightarrow> string \<Rightarrow> ('w, unit) io" where
  "del_prefix_exception sys status prefix dev =
    (if os_is_linux sys then del_prefix_exception_linux sys status prefix dev
     else del_prefix_exception_macos sys status prefix dev)"

declare del_prefix_exception_linux_def [simp] del_prefix_exception_macos_def [simp]

definition del_host_route_linux :: "'w os \<Rightarrow> (process_output \<Rightarrow> string) \<Rightarrow> string \<Rightarrow> ('w, unit) io" where
  "del_host_route_linux sys status host =
     delete_linux_route sys status [''route'', ''del'', host] host None"

definition del_host_route_macos :: "'w os \<Rightarrow> (process_output \<Rightarrow> string) \<Rightarrow> string \<Rightarrow> ('w, unit) io" where
  "del_host_route_macos sys status host =
     run_checked sys ''route'' [''delete'', ''-host'', host]
            ''running route delete host'' ''route delete host failed''"

definition del_host_route :: "'w os \<Rightarrow> (process_output \<Rightarrow> string) \<Rightarrow> string \<Rightarrow> ('w, unit) io" where
  "del_host_route sys status host =
    (if os_is_linux sys then del_host_route_linux sys status host
     else del_host_route_macos sys status host)"

declare del_host_route_linux_def [simp] del_host_route_macos_def [simp]

definition delete_installed :: "'w os \<Rightarrow> (process_output \<Rightarrow> string) \<Rightarrow> installed_route \<Rightarrow> ('w, unit) io" where
  "delete_installed sys status entry =
    (case ir_kind entry of
       TunRoute \<Rightarrow> del_tun_route sys status (ir_spec entry) (ir_tun_name entry)
     | EndpointException \<Rightarrow> del_host_route sys status (ir_spec entry)
     | ExcludedPrefix \<Rightarrow> del_prefix_exception sys status (ir_spec entry) (ir_tun_name entry))"

text \<open>In reverse order; a route that cannot be deleted does not keep the others.\<close>

definition cleanup_routes :: "'w os \<Rightarrow> (process_output \<Rightarrow> string) \<Rightarrow> installed_route list \<Rightarrow> 'w \<Rightarrow> 'w" where
  "cleanup_routes sys status installed w =
    fold (\<lambda>entry w. io_ignore (delete_installed sys status entry) w) (rev installed) w"

subsection \<open>The route manager\<close>

text \<open>Its operations act on the system together with the manager.\<close>

type_synonym 'w managed = "'w \<times> route_manager"

definition push_installed :: "route_kind \<Rightarrow> string \<Rightarrow> string \<Rightarrow> ('w managed, unit) io" where
  "push_installed kind spec dev s =
    (Ok (), (fst s, (snd s)\<lparr>rm_installed := rm_installed (snd s)
       @ [\<lparr>ir_kind = kind, ir_spec = spec, ir_tun_name = dev\<rparr>]\<rparr>))"

definition add_tun_route :: "'w os \<Rightarrow> string \<Rightarrow> ('w managed, unit) io" where
  "add_tun_route sys prefix s =
    (let tun = rm_tun_name (snd s) in
     io_then (io_context (''add route '' @ prefix @ '' dev '' @ tun) (on_system (add_route_to_dev sys prefix tun)))
       (\<lambda>_. push_installed TunRoute prefix tun) s)"

definition add_endpoint_exception :: "'w os \<Rightarrow> ip_addr \<Rightarrow> ('w managed, unit) io" where
  "add_endpoint_exception sys ip s =
    (let host = show_ip ip in
     io_then (io_context (''determine physical route before excluding endpoint '' @ host)
         (on_system (get_route_info sys host))) (\<lambda>(gateway, dev).
     io_then
       (case gateway of
          Some gw \<Rightarrow> io_context (''add endpoint exception for '' @ host @ '' via '' @ gw)
            (on_system (add_host_route_via sys host gw dev))
        | None \<Rightarrow> io_context (''add endpoint exception for '' @ host @ '' on '' @ dev)
            (on_system (add_host_route_dev sys host dev))) (\<lambda>_.
     push_installed EndpointException host (rm_tun_name (snd s)))) s)"

definition prefix_probe :: "'net libs \<Rightarrow> 'net \<Rightarrow> ipv4" where
  "prefix_probe L prefix =
    (let network = net_network L prefix in
     if net_prefix_len L prefix = 32 then network
     else if network = -1 then -1 else network + 1)"

definition add_prefix_exception :: "'net libs \<Rightarrow> 'net texts \<Rightarrow> 'w os \<Rightarrow> 'net \<Rightarrow> ('w managed, unit) io" where
  "add_prefix_exception L T sys prefix =
    (let spec = show_net T prefix in
     io_then (io_context (''determine physical route before excluding '' @ spec)
         (on_system (get_route_info sys (show_ipv4 (prefix_probe L prefix))))) (\<lambda>(gateway, dev).
     io_then
       (case gateway of
          Some gw \<Rightarrow> io_context (''add direct-route exclusion '' @ spec @ '' via '' @ gw)
            (on_system (add_prefix_route_via sys spec gw dev))
        | None \<Rightarrow> io_context (''add direct-route exclusion '' @ spec @ '' on '' @ dev)
            (on_system (add_prefix_route_dev sys spec dev))) (\<lambda>_.
     push_installed ExcludedPrefix spec dev)))"

fun add_exclusions ::
    "'net libs \<Rightarrow> 'net texts \<Rightarrow> 'w os \<Rightarrow> 'net route list \<Rightarrow> 'net set \<Rightarrow> ('w managed, unit) io" where
  "add_exclusions L T sys [] seen = io_ok ()"
| "add_exclusions L T sys (r # rs) seen =
    (if route_prefix r \<in> seen then add_exclusions L T sys rs seen
     else io_then (add_prefix_exception L T sys (route_prefix r)) (\<lambda>_.
       add_exclusions L T sys rs (insert (route_prefix r) seen)))"

fun add_endpoint_exceptions :: "'w os \<Rightarrow> 'net peer list \<Rightarrow> ('w managed, unit) io" where
  "add_endpoint_exceptions sys [] = io_ok ()"
| "add_endpoint_exceptions sys (p # ps) =
    io_then (add_endpoint_exception sys (sa_ip (peer_endpoint_addr p))) (\<lambda>_. add_endpoint_exceptions sys ps)"

text \<open>A full tunnel is two halves, so that the default route stays.\<close>

definition add_tunnel_prefix :: "'net libs \<Rightarrow> 'net texts \<Rightarrow> 'w os \<Rightarrow> 'net \<Rightarrow> ('w managed, unit) io" where
  "add_tunnel_prefix L T sys prefix =
    (if net_prefix_len L prefix = 0
     then io_then (add_tun_route sys ''0.0.0.0/1'') (\<lambda>_. add_tun_route sys ''128.0.0.0/1'')
     else if net_prefix_len L prefix = 32 then add_tun_route sys (show_ipv4 (net_addr L prefix) @ ''/32'')
     else add_tun_route sys (show_net T prefix))"

fun add_tunnel_routes :: "'net libs \<Rightarrow> 'net texts \<Rightarrow> 'w os \<Rightarrow> 'net route list \<Rightarrow> ('w managed, unit) io" where
  "add_tunnel_routes L T sys [] = io_ok ()"
| "add_tunnel_routes L T sys (r # rs) =
    io_then (add_tunnel_prefix L T sys (route_prefix r)) (\<lambda>_. add_tunnel_routes L T sys rs)"

definition setup_inner :: "'net libs \<Rightarrow> 'net texts \<Rightarrow> 'w os \<Rightarrow> 'net router \<Rightarrow> ('w managed, unit) io" where
  "setup_inner L T sys R =
    io_then (add_exclusions L T sys (excluded_routes R) {}) (\<lambda>_.
    io_then (add_endpoint_exceptions sys (endpoint_exception_peers L R)) (\<lambda>_.
    add_tunnel_routes L T sys (routes R)))"

definition route_setup :: "'net libs \<Rightarrow> 'net texts \<Rightarrow> 'w os \<Rightarrow> 'net router \<Rightarrow> ('w managed, unit) io" where
  "route_setup L T sys R s =
    (case setup_inner L T sys R s of
       (Inl e, (w, rm)) \<Rightarrow>
         (Err e, (cleanup_routes sys (show_status T) (rm_installed rm) w, rm\<lparr>rm_installed := []\<rparr>))
     | (Inr _, s1) \<Rightarrow> (Ok (), s1))"

definition route_cleanup :: "'w os \<Rightarrow> (process_output \<Rightarrow> string) \<Rightarrow> 'w managed \<Rightarrow> 'w" where
  "route_cleanup sys status s = cleanup_routes sys status (rm_installed (snd s)) (fst s)"

end
