(* ===== verification/Firewall.thy ===== *)
theory Firewall
  imports Config Os "HOL-Library.Multiset"
begin

text \<open>
  \<^verbatim>\<open>src/src/firewall.rs\<close>: forwarding and address translation for an exit node, through \<open>iptables\<close>
  and \<open>sysctl\<close>, and its undoing. Then the laws of these programs over the rules of the kernel's
  chains and the forwarding switch, and what set-up and clean-up do against them.
\<close>

record firewall_rule =
  fr_table :: "string option"
  fr_chain :: string
  fr_spec :: "string list"

record firewall_manager =
  fm_tun_name :: string
  fm_subnet :: string
  fm_original_ip_forward :: "string option"
  fm_rules :: "firewall_rule list"

definition firewall_new :: "string \<Rightarrow> string \<Rightarrow> firewall_manager" where
  "firewall_new tun subnet =
    \<lparr>fm_tun_name = tun, fm_subnet = subnet, fm_original_ip_forward = None, fm_rules = []\<rparr>"

definition iptables_args :: "string option \<Rightarrow> string \<Rightarrow> string \<Rightarrow> string list \<Rightarrow> string list" where
  "iptables_args table chain action spec =
    (case table of None \<Rightarrow> [] | Some t \<Rightarrow> [''-t'', t]) @ [action, chain] @ spec"

definition fw_run_iptables ::
    "'w os \<Rightarrow> string option \<Rightarrow> string \<Rightarrow> string \<Rightarrow> string list \<Rightarrow> ('w, process_output) io" where
  "fw_run_iptables sys table chain action spec =
    io_context (''running iptables '' @ action @ '' '' @ chain)
      (io_call (os_command sys ''iptables'' (iptables_args table chain action spec)))"

definition del_iptables_rule :: "'w os \<Rightarrow> firewall_rule \<Rightarrow> ('w, unit) io" where
  "del_iptables_rule sys rule =
    io_then (fw_run_iptables sys (fr_table rule) (fr_chain rule) ''-D'' (fr_spec rule)) (\<lambda>out.
      io_ensure (po_success out) ''iptables -D failed'')"

text \<open>Linux reads a file, macOS asks \<open>sysctl\<close>.\<close>

definition fw_read_ip_forward_linux :: "'w os \<Rightarrow> ('w, string) io" where
  "fw_read_ip_forward_linux sys =
     io_then (io_context ''reading /proc/sys/net/ipv4/ip_forward''
           (io_query (os_read sys ''/proc/sys/net/ipv4/ip_forward''))) (\<lambda>v. io_ok (trim v))"

definition fw_read_ip_forward_macos :: "'w os \<Rightarrow> ('w, string) io" where
  "fw_read_ip_forward_macos sys =
     io_then (io_context ''running sysctl'' (io_call (os_command sys ''sysctl'' [''-n'', ''net.inet.ip.forwarding''])))
         (\<lambda>out. if \<not> po_success out then io_bail ''sysctl failed'' else io_ok (trim (po_stdout out)))"

definition fw_read_ip_forward :: "'w os \<Rightarrow> ('w, string) io" where
  "fw_read_ip_forward sys =
    (if os_is_linux sys then fw_read_ip_forward_linux sys
     else fw_read_ip_forward_macos sys)"

declare fw_read_ip_forward_linux_def [simp] fw_read_ip_forward_macos_def [simp]

definition fw_write_ip_forward_linux :: "'w os \<Rightarrow> string \<Rightarrow> ('w, unit) io" where
  "fw_write_ip_forward_linux sys val =
    io_then (io_context ''running sysctl'' (io_call (os_command sys ''sysctl'' [''-w'', ''net.ipv4.ip_forward='' @ val])))
      (\<lambda>out. io_ensure (po_success out) ''sysctl failed'')"

definition fw_write_ip_forward_macos :: "'w os \<Rightarrow> string \<Rightarrow> ('w, unit) io" where
  "fw_write_ip_forward_macos sys val =
    io_then (io_context ''running sysctl'' (io_call (os_command sys ''sysctl'' [''-w'', ''net.inet.ip.forwarding='' @ val])))
      (\<lambda>out. io_ensure (po_success out) ''sysctl failed'')"

definition fw_write_ip_forward :: "'w os \<Rightarrow> string \<Rightarrow> ('w, unit) io" where
  "fw_write_ip_forward sys val =
    (if os_is_linux sys then fw_write_ip_forward_linux sys val else fw_write_ip_forward_macos sys val)"

declare fw_write_ip_forward_linux_def [simp] fw_write_ip_forward_macos_def [simp]

type_synonym 'w walled = "'w \<times> firewall_manager"

definition enable_ip_forward :: "'w os \<Rightarrow> ('w walled, unit) io" where
  "enable_ip_forward sys s =
    (case fw_read_ip_forward sys (fst s) of (r, w) \<Rightarrow>
       let original = (case r of Inl _ \<Rightarrow> None | Inr v \<Rightarrow> Some v);
           s1 = (w, (snd s)\<lparr>fm_original_ip_forward := original\<rparr>) in
       if original \<noteq> Some ''1'' then on_system (fw_write_ip_forward sys ''1'') s1 else (Ok (), s1))"

definition push_rule :: "firewall_rule \<Rightarrow> ('w walled, unit) io" where
  "push_rule rule s = (Ok (), (fst s, (snd s)\<lparr>fm_rules := fm_rules (snd s) @ [rule]\<rparr>))"

definition add_iptables_rule :: "'w os \<Rightarrow> string option \<Rightarrow> string \<Rightarrow> string list \<Rightarrow> ('w walled, unit) io" where
  "add_iptables_rule sys table chain spec =
    io_then (on_system (fw_run_iptables sys table chain ''-A'' spec)) (\<lambda>out.
      if \<not> po_success out then io_bail ''iptables -A failed''
      else push_rule \<lparr>fr_table = table, fr_chain = chain, fr_spec = spec\<rparr>)"

definition firewall_setup :: "'w os \<Rightarrow> ('w walled, unit) io" where
  "firewall_setup sys s =
    (let tun = fm_tun_name (snd s); subnet = fm_subnet (snd s) in
     io_then (enable_ip_forward sys) (\<lambda>_.
     io_then (add_iptables_rule sys (Some ''nat'') ''POSTROUTING''
       [''-s'', subnet, ''!'', ''-o'', tun, ''-j'', ''MASQUERADE'']) (\<lambda>_.
     io_then (add_iptables_rule sys None ''FORWARD'' [''-i'', tun, ''-j'', ''ACCEPT'']) (\<lambda>_.
     add_iptables_rule sys None ''FORWARD'' [''-o'', tun, ''-j'', ''ACCEPT'']))) s)"

text \<open>In the order of insertion; a rule that cannot be deleted does not keep the others.\<close>

definition firewall_cleanup :: "'w os \<Rightarrow> firewall_manager \<Rightarrow> 'w \<Rightarrow> 'w" where
  "firewall_cleanup sys fm w =
    (let w1 = fold (\<lambda>rule w. io_ignore (del_iptables_rule sys rule) w) (fm_rules fm) w in
     case fm_original_ip_forward fm of
       None \<Rightarrow> w1
     | Some original \<Rightarrow> io_ignore (fw_write_ip_forward sys original) w1)"

definition subnet_cidr :: "'net libs \<Rightarrow> 'net \<Rightarrow> string" where
  "subnet_cidr L a = show_ipv4 (net_network L a) @ ''/'' @ show_nat (unat (net_prefix_len L a))"

subsection \<open>The kernel\<close>

text \<open>\<open>rules w loc\<close> are the specifications in a chain, in order; \<open>forwarding w\<close> is the value of the
switch.\<close>

type_synonym 'w rule_lists = "'w \<Rightarrow> string option \<times> string \<Rightarrow> string list list"

text \<open>\<open>-A\<close> appends a rule or fails without an effect.\<close>

definition appends_rules :: "'w os \<Rightarrow> 'w rule_lists \<Rightarrow> ('w \<Rightarrow> string) \<Rightarrow> bool" where
  "appends_rules sys rules forwarding \<longleftrightarrow>
    (\<forall>w t c spec. case os_command sys ''iptables'' (iptables_args t c ''-A'' spec) w of (r, w') \<Rightarrow>
      forwarding w' = forwarding w \<and>
      rules w' = (if \<exists>out. r = Ok out \<and> po_success out
        then (rules w)((t, c) := rules w (t, c) @ [spec]) else rules w))"

text \<open>\<open>-D\<close> with a specification deletes the first rule that matches it.\<close>

definition deletes_rules :: "'w os \<Rightarrow> 'w rule_lists \<Rightarrow> ('w \<Rightarrow> string) \<Rightarrow> bool" where
  "deletes_rules sys rules forwarding \<longleftrightarrow>
    (\<forall>w t c spec. spec \<in> set (rules w (t, c)) \<longrightarrow>
      (case os_command sys ''iptables'' (iptables_args t c ''-D'' spec) w of (r, w') \<Rightarrow>
        forwarding w' = forwarding w \<and> rules w' = (rules w)((t, c) := remove1 spec (rules w (t, c)))))"

text \<open>The switch is 0 or 1 and can be read; setting it succeeds and touches no rule.\<close>

definition switches_forwarding :: "'w os \<Rightarrow> 'w rule_lists \<Rightarrow> ('w \<Rightarrow> string) \<Rightarrow> bool" where
  "switches_forwarding sys rules forwarding \<longleftrightarrow>
    (\<forall>w. forwarding w \<in> {''0'', ''1''} \<and> fw_read_ip_forward sys w = (Ok (forwarding w), w))
    \<and> (\<forall>w. \<forall>v \<in> {''0'', ''1''}. \<exists>w'. fw_write_ip_forward sys v w = (Ok (), w')
        \<and> rules w' = rules w \<and> forwarding w' = v)"

text \<open>The chains hold the rules of before and those the manager has recorded.\<close>

definition recorded :: "firewall_rule list \<Rightarrow> string option \<times> string \<Rightarrow> string list multiset" where
  "recorded rs loc = mset (map fr_spec (filter (\<lambda>r. (fr_table r, fr_chain r) = loc) rs))"

definition holds_rules ::
    "'w rule_lists \<Rightarrow> (string option \<times> string \<Rightarrow> string list multiset) \<Rightarrow> firewall_rule list \<Rightarrow> 'w \<Rightarrow> bool" where
  "holds_rules rules before rs w \<longleftrightarrow> (\<forall>loc. mset (rules w loc) = before loc + recorded rs loc)"

lemma recorded_simps [simp]:
  "recorded [] loc = {#}"
  "recorded (r # rs) loc = (if (fr_table r, fr_chain r) = loc then {#fr_spec r#} else {#}) + recorded rs loc"
  "recorded (rs @ rs') loc = recorded rs loc + recorded rs' loc"
  by (simp_all add: recorded_def)

lemma add_rule_law:
  assumes "appends_rules sys rules forwarding" and "holds_rules rules before (fm_rules (snd s)) (fst s)"
    and "add_iptables_rule sys t c spec s = (r, s')"
  shows "holds_rules rules before (fm_rules (snd s')) (fst s') \<and> forwarding (fst s') = forwarding (fst s)
    \<and> fm_original_ip_forward (snd s') = fm_original_ip_forward (snd s)"
proof -
  obtain q w' where c: "os_command sys ''iptables'' (iptables_args t c ''-A'' spec) (fst s) = (q, w')"
    by (cases "os_command sys ''iptables'' (iptables_args t c ''-A'' spec) (fst s)")
  from assms(1) have "case os_command sys ''iptables'' (iptables_args t c ''-A'' spec) (fst s) of (r, w') \<Rightarrow>
      forwarding w' = forwarding (fst s) \<and>
      rules w' = (if \<exists>out. r = Ok out \<and> po_success out
        then (rules (fst s))((t, c) := rules (fst s) (t, c) @ [spec]) else rules (fst s))"
    unfolding appends_rules_def by (elim allE)
  then have law: "forwarding w' = forwarding (fst s)"
      "rules w' = (if \<exists>out. q = Ok out \<and> po_success out
        then (rules (fst s))((t, c) := rules (fst s) (t, c) @ [spec]) else rules (fst s))"
    unfolding c prod.case by blast+
  have run: "on_system (fw_run_iptables sys t c ''-A'' spec) s
      = (map_err (\<lambda>e. [''running iptables '' @ ''-A'' @ '' '' @ c, e]) q, (w', snd s))"
    by (cases q) (simp_all add: on_system_def fw_run_iptables_def io_context_def io_call_def c)
  show ?thesis
  proof (cases "\<exists>out. q = Ok out \<and> po_success out")
    case True
    with run assms(3) have "s' = (w', (snd s)\<lparr>fm_rules := fm_rules (snd s) @
        [\<lparr>fr_table = t, fr_chain = c, fr_spec = spec\<rparr>]\<rparr>)"
      by (auto simp: add_iptables_rule_def io_then_def push_rule_def)
    with law True assms(2) show ?thesis by (simp add: holds_rules_def)
  next
    case False
    with run assms(3) have "s' = (w', snd s)"
      by (cases q) (auto simp: add_iptables_rule_def io_then_def)
    with law False assms(2) show ?thesis by (simp add: holds_rules_def)
  qed
qed

text \<open>What holds of the manager during a set-up that began at \<open>w\<close>.\<close>

definition walled_from :: "'w rule_lists \<Rightarrow> ('w \<Rightarrow> string) \<Rightarrow> 'w \<Rightarrow> 'w walled \<Rightarrow> bool" where
  "walled_from rules forwarding w s \<longleftrightarrow>
    holds_rules rules (\<lambda>loc. mset (rules w loc)) (fm_rules (snd s)) (fst s)
    \<and> fm_original_ip_forward (snd s) = Some (forwarding w) \<and> forwarding (fst s) = ''1''"

lemma enable_law:
  assumes "switches_forwarding sys rules forwarding" and "fm_rules fm = []"
  shows "\<exists>s. enable_ip_forward sys (w, fm) = (Ok (), s) \<and> walled_from rules forwarding w s \<and> fm_rules (snd s) = []"
proof -
  from assms(1) obtain w1 where read: "fw_read_ip_forward sys w = (Ok (forwarding w), w)"
    and "fw_write_ip_forward sys ''1'' w = (Ok (), w1)" "rules w1 = rules w" "forwarding w1 = ''1''"
    unfolding switches_forwarding_def by (metis insertCI)
  with assms(2) show ?thesis
    by (cases "forwarding w = ''1''")
      (simp_all add: enable_ip_forward_def walled_from_def holds_rules_def on_system_def)
qed

lemma add_rule_walled:
  assumes "appends_rules sys rules forwarding" and "walled_from rules forwarding w s"
    and "add_iptables_rule sys t c spec s = (r, s')"
  shows "walled_from rules forwarding w s'"
  using add_rule_law [OF assms(1) _ assms(3), of "\<lambda>loc. mset (rules w loc)"] assms(2)
  by (simp add: walled_from_def)

lemma add_rule_recorded:
  assumes "add_iptables_rule sys t c spec s = (Ok (), s')"
  shows "fm_rules (snd s') = fm_rules (snd s) @ [\<lparr>fr_table = t, fr_chain = c, fr_spec = spec\<rparr>]"
proof -
  obtain q w' where "on_system (fw_run_iptables sys t c ''-A'' spec) s = (q, (w', snd s))"
    by (cases "fw_run_iptables sys t c ''-A'' spec (fst s)") (simp add: on_system_def)
  with assms show ?thesis
    by (cases q) (auto simp: add_iptables_rule_def io_then_def push_rule_def split: if_splits)
qed

lemma holds_rules_present:
  assumes "holds_rules rules before rs w" and "r \<in> set rs"
  shows "fr_spec r \<in> set (rules w (fr_table r, fr_chain r))"
proof -
  from assms(2) have "fr_spec r \<in># recorded rs (fr_table r, fr_chain r)"
    by (auto simp: recorded_def)
  moreover from assms(1) have "mset (rules w (fr_table r, fr_chain r))
      = before (fr_table r, fr_chain r) + recorded rs (fr_table r, fr_chain r)"
    by (simp add: holds_rules_def)
  ultimately have "fr_spec r \<in># mset (rules w (fr_table r, fr_chain r))" by simp
  then show ?thesis by simp
qed

lemma delete_rule_law:
  assumes "deletes_rules sys rules forwarding" and "holds_rules rules before (r # rs) w"
  shows "holds_rules rules before rs (io_ignore (del_iptables_rule sys r) w)
    \<and> forwarding (io_ignore (del_iptables_rule sys r) w) = forwarding w"
proof -
  let ?args = "iptables_args (fr_table r) (fr_chain r) ''-D'' (fr_spec r)" and ?loc = "(fr_table r, fr_chain r)"
  obtain q w' where c: "os_command sys ''iptables'' ?args w = (q, w')"
    by (cases "os_command sys ''iptables'' ?args w")
  have present: "fr_spec r \<in> set (rules w ?loc)" by (rule holds_rules_present [OF assms(2)]) simp
  from assms(1) have "fr_spec r \<in> set (rules w ?loc) \<longrightarrow>
      (case os_command sys ''iptables'' ?args w of (r', w') \<Rightarrow>
        forwarding w' = forwarding w \<and> rules w' = (rules w)(?loc := remove1 (fr_spec r) (rules w ?loc)))"
    unfolding deletes_rules_def by (elim allE)
  with present have law: "forwarding w' = forwarding w"
      "rules w' = (rules w)(?loc := remove1 (fr_spec r) (rules w ?loc))"
    unfolding c prod.case by blast+
  have "io_ignore (del_iptables_rule sys r) w = w'"
    by (cases q) (simp_all add: io_ignore_def del_iptables_rule_def fw_run_iptables_def io_then_def
        io_context_def io_call_def c)
  moreover have "holds_rules rules before rs w'"
    using assms(2) present law(2) by (auto simp: holds_rules_def)
  ultimately show ?thesis using law(1) by simp
qed

lemma cleanup_rules_law:
  assumes "deletes_rules sys rules forwarding" and "holds_rules rules before rs w"
  shows "holds_rules rules before [] (fold (\<lambda>rule w. io_ignore (del_iptables_rule sys rule) w) rs w)
    \<and> forwarding (fold (\<lambda>rule w. io_ignore (del_iptables_rule sys rule) w) rs w) = forwarding w"
  using assms(2)
proof (induction rs arbitrary: w)
  case (Cons r rs)
  from delete_rule_law [OF assms(1) Cons.prems] Cons.IH [of "io_ignore (del_iptables_rule sys r) w"]
  show ?case by simp
qed simp

lemma firewall_cleanup_law:
  assumes "deletes_rules sys rules forwarding" and "switches_forwarding sys rules forwarding"
    and "walled_from rules forwarding w (w', fm)"
  shows "(\<forall>loc. mset (rules (firewall_cleanup sys fm w') loc) = mset (rules w loc))
    \<and> forwarding (firewall_cleanup sys fm w') = forwarding w"
proof -
  let ?w1 = "fold (\<lambda>rule w. io_ignore (del_iptables_rule sys rule) w) (fm_rules fm) w'"
  from assms(3) have "holds_rules rules (\<lambda>loc. mset (rules w loc)) [] ?w1"
    and original: "fm_original_ip_forward fm = Some (forwarding w)"
    using cleanup_rules_law [OF assms(1)] by (auto simp: walled_from_def)
  moreover from assms(2) obtain w2 where "fw_write_ip_forward sys (forwarding w) ?w1 = (Ok (), w2)"
    "rules w2 = rules ?w1" "forwarding w2 = forwarding w"
    unfolding switches_forwarding_def by blast
  ultimately show ?thesis
    by (simp add: firewall_cleanup_def Let_def io_ignore_def holds_rules_def)
qed

definition exit_rules :: "string \<Rightarrow> string \<Rightarrow> firewall_rule list" where
  "exit_rules tun subnet =
    [\<lparr>fr_table = Some ''nat'', fr_chain = ''POSTROUTING'',
      fr_spec = [''-s'', subnet, ''!'', ''-o'', tun, ''-j'', ''MASQUERADE'']\<rparr>,
     \<lparr>fr_table = None, fr_chain = ''FORWARD'', fr_spec = [''-i'', tun, ''-j'', ''ACCEPT'']\<rparr>,
     \<lparr>fr_table = None, fr_chain = ''FORWARD'', fr_spec = [''-o'', tun, ''-j'', ''ACCEPT'']\<rparr>]"

lemma firewall_setup_law:
  assumes "appends_rules sys rules forwarding" and "switches_forwarding sys rules forwarding"
    and "firewall_setup sys (w, firewall_new tun subnet) = (r, s)"
  shows "walled_from rules forwarding w s \<and> (r = Ok () \<longrightarrow> fm_rules (snd s) = exit_rules tun subnet)"
proof -
  let ?add1 = "add_iptables_rule sys (Some ''nat'') ''POSTROUTING''
       [''-s'', subnet, ''!'', ''-o'', tun, ''-j'', ''MASQUERADE'']"
  let ?add2 = "add_iptables_rule sys None ''FORWARD'' [''-i'', tun, ''-j'', ''ACCEPT'']"
  let ?add3 = "add_iptables_rule sys None ''FORWARD'' [''-o'', tun, ''-j'', ''ACCEPT'']"
  have "fm_rules (firewall_new tun subnet) = []" by (simp add: firewall_new_def)
  from enable_law [OF assms(2) this, of w] obtain s0 where
    s0: "enable_ip_forward sys (w, firewall_new tun subnet) = (Ok (), s0)"
      "walled_from rules forwarding w s0" "fm_rules (snd s0) = []" by blast
  obtain r1 s1 where a1: "?add1 s0 = (r1, s1)" by (cases "?add1 s0")
  obtain r2 s2 where a2: "?add2 s1 = (r2, s2)" by (cases "?add2 s1")
  obtain r3 s3 where a3: "?add3 s2 = (r3, s3)" by (cases "?add3 s2")
  note w1 = add_rule_walled [OF assms(1) s0(2) a1]
  note w2 = add_rule_walled [OF assms(1) w1 a2]
  note w3 = add_rule_walled [OF assms(1) w2 a3]
  have run: "(r, s) = io_then ?add1 (\<lambda>_. io_then ?add2 (\<lambda>_. ?add3)) s0"
    using assms(3) s0(1) by (simp add: firewall_setup_def firewall_new_def io_then_def)
  show ?thesis
  proof (cases r1)
    case (Inl e)
    with run a1 w1 show ?thesis by (simp add: io_then_def)
  next
    case (Inr u1)
    show ?thesis
    proof (cases r2)
      case (Inl e)
      with run a1 a2 \<open>r1 = Ok u1\<close> w2 show ?thesis by (simp add: io_then_def)
    next
      case (Inr u2)
      with run a1 a2 a3 \<open>r1 = Ok u1\<close> have "r = r3" "s = s3" by (simp_all add: io_then_def)
      with w3 a3 add_rule_recorded [of sys _ _ _ s0 s1] add_rule_recorded [of sys _ _ _ s1 s2]
        add_rule_recorded [of sys _ _ _ s2 s3] a1 a2 s0(3) \<open>r1 = Ok u1\<close> Inr
      show ?thesis by (simp add: exit_rules_def)
    qed
  qed
qed

subsection \<open>A concrete kernel\<close>

type_synonym demo_wall = "(string option \<times> string \<Rightarrow> string list list) \<times> bool"

definition demo_switch :: "demo_wall \<Rightarrow> string" where
  "demo_switch w = (if snd w then ''1'' else ''0'')"

definition demo_done :: "(string, process_output) result" where
  "demo_done = Ok \<lparr>po_code = Some 0, po_stdout = [], po_stderr = []\<rparr>"

definition demo_iptables :: "string list \<Rightarrow> demo_wall \<Rightarrow> (string, process_output) result \<times> demo_wall" where
  "demo_iptables args w =
    (let (table, rest) = (if hd args = ''-t'' then (Some (args ! 1), drop 2 args) else (None, args));
         loc = (table, rest ! 1); spec = drop 2 rest in
     (demo_done, ((fst w)(loc := if hd rest = ''-A'' then fst w loc @ [spec] else remove1 spec (fst w loc)), snd w)))"

definition demo_wall_os :: "demo_wall os" where
  "demo_wall_os = \<lparr>os_is_linux = True, os_euid = 0, os_env = (\<lambda>_. None),
     os_command = (\<lambda>program args w.
       if program = ''iptables'' then demo_iptables args w
       else (demo_done, (fst w, args ! 1 = ''net.ipv4.ip_forward=1''))),
     os_exists = (\<lambda>_ _. True), os_read = (\<lambda>_ w. Ok (demo_switch w)), os_read_link = (\<lambda>_ _. Err []),
     os_read_dir = (\<lambda>_ _. Err []), os_create_dir_all = (\<lambda>_ w. (Ok (), w)),
     os_set_permissions = (\<lambda>_ _ w. (Ok (), w)), os_create_new = (\<lambda>_ w. (Ok (), w)),
     os_write_all = (\<lambda>_ _ w. (Ok (), w)), os_write = (\<lambda>_ _ w. (Ok (), w)),
     os_remove_file = (\<lambda>_ w. (Ok (), w)), os_open = (\<lambda>_ w. (Ok (), w)),
     os_lock_exclusive = (\<lambda>_ w. (Ok (), w)), os_unlock = (\<lambda>_ w. w)\<rparr>"

lemma demo_done_success [simp]: "\<exists>out. demo_done = Ok out \<and> po_success out"
  by (simp add: demo_done_def po_success_def)

lemma demo_iptables_args:
  assumes "action = ''-A'' \<or> action = ''-D''"
  shows "demo_iptables (iptables_args t c action spec) w =
    (demo_done, ((fst w)((t, c) := if action = ''-A'' then fst w (t, c) @ [spec] else remove1 spec (fst w (t, c))), snd w))"
  using assms by (cases t) (auto simp: demo_iptables_def iptables_args_def Let_def)

lemma demo_wall_appends: "appends_rules demo_wall_os fst demo_switch"
  by (simp add: appends_rules_def demo_wall_os_def demo_iptables_args demo_switch_def)

lemma demo_wall_deletes: "deletes_rules demo_wall_os fst demo_switch"
  by (simp add: deletes_rules_def demo_wall_os_def demo_iptables_args demo_switch_def)

lemma trim_digit [simp]: "trim ''0'' = ''0''" "trim ''1'' = ''1''"
  by (simp_all add: trim_alphanumeric is_ascii_alphanumeric_def is_ascii_digit_def)

lemma demo_wall_switches: "switches_forwarding demo_wall_os fst demo_switch"
  by (auto simp: switches_forwarding_def demo_wall_os_def demo_switch_def fw_read_ip_forward_def
      fw_write_ip_forward_def io_then_def io_context_def io_query_def io_call_def demo_done_def po_success_def)

subsection \<open>Properties\<close>

text \<open>Setting up an exit node and cleaning up after it, also after a set-up that failed half-way,
leaves every chain of the firewall with the rules it had and the forwarding switch at its old
value; after a successful set-up forwarding is on and the three rules are in place.\<close>

lemma firewall_reversible:
  assumes "appends_rules sys rules forwarding" and "deletes_rules sys rules forwarding"
    and "switches_forwarding sys rules forwarding"
  shows "case firewall_setup sys (w, firewall_new tun subnet) of (r, (w', fm)) \<Rightarrow>
    (\<forall>loc. mset (rules (firewall_cleanup sys fm w') loc) = mset (rules w loc))
    \<and> forwarding (firewall_cleanup sys fm w') = forwarding w
    \<and> (r = Ok () \<longrightarrow> forwarding w' = ''1''
         \<and> (\<forall>e \<in> set (exit_rules tun subnet). fr_spec e \<in> set (rules w' (fr_table e, fr_chain e))))"
proof -
  obtain r w' fm where run: "firewall_setup sys (w, firewall_new tun subnet) = (r, (w', fm))"
    by (rule prod_cases3)
  note law = firewall_setup_law [OF assms(1,3) run]
  have "fr_spec e \<in> set (rules w' (fr_table e, fr_chain e))"
    if "r = Ok ()" "e \<in> set (exit_rules tun subnet)" for e
  proof -
    from law that(1) have "holds_rules rules (\<lambda>loc. mset (rules w loc)) (fm_rules fm) w'"
      and "fm_rules fm = exit_rules tun subnet" by (auto simp: walled_from_def)
    with that(2) show ?thesis by (intro holds_rules_present) simp_all
  qed
  with law firewall_cleanup_law [OF assms(2,3), of w w' fm] show ?thesis
    by (simp add: run walled_from_def)
qed

lemma firewall_reversible_witness:
  "case firewall_setup demo_wall_os ((\<lambda>_. [], False), firewall_new ''tun0'' ''10.0.0.0/24'') of (r, (w', fm)) \<Rightarrow>
    snd (firewall_cleanup demo_wall_os fm w') = False \<and> (r = Ok () \<longrightarrow> snd w')"
proof -
  obtain r w' fm where run:
    "firewall_setup demo_wall_os ((\<lambda>_. [], False), firewall_new ''tun0'' ''10.0.0.0/24'') = (r, (w', fm))"
    by (rule prod_cases3)
  from firewall_reversible [OF demo_wall_appends demo_wall_deletes demo_wall_switches, of "(\<lambda>_. [], False)" "''tun0''" "''10.0.0.0/24''"]
  show ?thesis by (simp add: run demo_switch_def split: if_splits)
qed

end
