(* ===== verification/Tunnel.thy ===== *)
theory Tunnel
  imports Scheduler Routing Firewall
begin

text \<open>
  \<^verbatim>\<open>src/src/tunnel.rs\<close>: the daemon around the packet engine. One round of each of its loops (TUN
  to transport, transport to TUN, maintenance), the preparation of routes and firewall, and the
  clean-up. The TUN device and the transport are the fields of a record; a call of \<open>expect\<close> or a
  copy that would panic is an error. The start-up, the creation of the device and the signals are in
  theory \<open>Daemon\<close>; the statistics thread and log lines are left out.
\<close>

definition MAX_PACKET_SIZE :: nat where "MAX_PACKET_SIZE = 65535"
definition PACKET_INFO_SIZE :: nat where "PACKET_INFO_SIZE = 4"

text \<open>\<open>tn_rebind\<close> gives \<open>True\<close> for a new socket and \<open>False\<close> if the transport has no rebind.\<close>

record 'w tunnel_io =
  tn_send_to :: "bytes \<Rightarrow> socket_addr \<Rightarrow> 'w \<Rightarrow> (string, nat) result \<times> 'w"
  tn_write_all :: "bytes \<Rightarrow> 'w \<Rightarrow> (string, unit) result \<times> 'w"
  tn_rebind :: "'w \<Rightarrow> (string, bool) result \<times> 'w"

subsection \<open>Packet information\<close>

definition strip_packet_information :: "bytes \<Rightarrow> bool \<Rightarrow> bytes option" where
  "strip_packet_information frame packet_information =
    (if packet_information
     then (if length frame < PACKET_INFO_SIZE then None else Some (drop PACKET_INFO_SIZE frame))
     else Some frame)"

definition AF_INET :: u32 where "AF_INET = 2"

text \<open>\<open>None\<close> if the frame does not fit into the output buffer.\<close>

definition add_packet_information :: "bytes \<Rightarrow> bool \<Rightarrow> nat \<Rightarrow> bytes option" where
  "add_packet_information frame packet_information capacity =
    (if \<not> packet_information then Some frame
     else if capacity < PACKET_INFO_SIZE + length frame then None
     else Some (to_be_bytes_u32 AF_INET @ frame))"

subsection \<open>Sending\<close>

definition send_engine_frame ::
    "'w tunnel_io \<Rightarrow> ('net, 'hs, 'ts) engine \<Rightarrow> string \<Rightarrow> socket_addr \<Rightarrow> bytes \<Rightarrow> 'w
      \<Rightarrow> bool \<times> ('net, 'hs, 'ts) engine \<times> 'w" where
  "send_engine_frame io en name endpoint frame w =
    (case tn_send_to io frame endpoint w of
       (Inr _, w1) \<Rightarrow> (True, record_transport_sent en name (length frame), w1)
     | (Inl _, w1) \<Rightarrow> (False, en, w1))"

text \<open>Where no packet for the TUN device is expected, one is only logged.\<close>

fun send_actions ::
    "'w tunnel_io \<Rightarrow> ('net, 'hs, 'ts) engine \<Rightarrow> engine_action list \<Rightarrow> 'w \<Rightarrow> ('net, 'hs, 'ts) engine \<times> 'w" where
  "send_actions io en [] w = (en, w)"
| "send_actions io en (SendTransport name endpoint frame # as) w =
    (case send_engine_frame io en name endpoint frame w of (_, en1, w1) \<Rightarrow> send_actions io en1 as w1)"
| "send_actions io en (WriteIpPacket name source packet # as) w = send_actions io en as w"

definition send_engine_transport_output ::
    "'w tunnel_io \<Rightarrow> ('net, 'hs, 'ts) engine \<Rightarrow> engine_output \<Rightarrow> 'w \<Rightarrow> ('net, 'hs, 'ts) engine \<times> 'w" where
  "send_engine_transport_output io en out w = send_actions io en (out_actions out) w"

fun send_scheduled ::
    "'w tunnel_io \<Rightarrow> ('net, 'hs, 'ts) engine \<Rightarrow> scheduled_output list \<Rightarrow> 'w \<Rightarrow> ('net, 'hs, 'ts) engine \<times> 'w" where
  "send_scheduled io en [] w = (en, w)"
| "send_scheduled io en (s # ss) w =
    (case send_engine_transport_output io en (so_output s) w of (en1, w1) \<Rightarrow> send_scheduled io en1 ss w1)"

subsection \<open>The loops\<close>

text \<open>TUN to transport: what the read from the device gave.\<close>

definition tun_to_transport ::
    "'net libs \<Rightarrow> ('hs, 'ts, 'w) runtime \<Rightarrow> 'w tunnel_io \<Rightarrow> bool \<Rightarrow> (string, bytes) result
      \<Rightarrow> ('net, 'hs, 'ts) engine \<Rightarrow> 'w \<Rightarrow> ('net, 'hs, 'ts) engine \<times> 'w" where
  "tun_to_transport L E io packet_information read_result en w =
    (case read_result of
       Inl _ \<Rightarrow> (en, w)
     | Inr packet \<Rightarrow>
         case strip_packet_information packet packet_information of
           None \<Rightarrow> (en, w)
         | Some frame \<Rightarrow>
             case ipv4_parse frame of
               Inl _ \<Rightarrow> (en, w)
             | Inr _ \<Rightarrow>
                 case instant_now E w of (now, w1) \<Rightarrow>
                 case process_outbound_ip L E en frame now w1 of
                   (Inl _, en1, w2) \<Rightarrow> (en1, w2)
                 | (Inr out, en1, w2) \<Rightarrow> send_actions io en1 (out_actions out) w2)"

fun inbound_actions ::
    "'w tunnel_io \<Rightarrow> bool \<Rightarrow> ('net, 'hs, 'ts) engine \<Rightarrow> engine_action list \<Rightarrow> 'w
      \<Rightarrow> (string, unit) result \<times> ('net, 'hs, 'ts) engine \<times> 'w" where
  "inbound_actions io pi en [] w = (Ok (), en, w)"
| "inbound_actions io pi en (SendTransport name endpoint frame # as) w =
    (case send_engine_frame io en name endpoint frame w of (_, en1, w1) \<Rightarrow> inbound_actions io pi en1 as w1)"
| "inbound_actions io pi en (WriteIpPacket name source packet # as) w =
    (case ipv4_parse packet of
       Inl _ \<Rightarrow> (Err ''packet engine emitted an invalid IPv4 packet'', en, w)
     | Inr _ \<Rightarrow>
         case add_packet_information packet pi (MAX_PACKET_SIZE + PACKET_INFO_SIZE) of
           None \<Rightarrow> (Err ''range end index out of range'', en, w)
         | Some output \<Rightarrow> case tn_write_all io output w of (_, w1) \<Rightarrow> inbound_actions io pi en as w1)"

text \<open>Transport to TUN: what the receive call gave.\<close>

definition transport_to_tun ::
    "('hs, 'ts, 'w) runtime \<Rightarrow> 'w tunnel_io \<Rightarrow> bool \<Rightarrow> (string, bytes \<times> socket_addr) result
      \<Rightarrow> ('net, 'hs, 'ts) engine \<Rightarrow> 'w \<Rightarrow> (string, unit) result \<times> ('net, 'hs, 'ts) engine \<times> 'w" where
  "transport_to_tun E io packet_information received en w =
    (case received of
       Inl _ \<Rightarrow> (Ok (), en, w)
     | Inr (frame, source) \<Rightarrow>
         case decode_packet frame of
           None \<Rightarrow> (Ok (), en, w)
         | Some _ \<Rightarrow>
             case instant_now E w of (now, w1) \<Rightarrow>
             case process_inbound_transport E en frame source now w1 of
               (Inl _, en1, w2) \<Rightarrow> (Ok (), en1, w2)
             | (Inr out, en1, w2) \<Rightarrow> inbound_actions io packet_information en1 (out_actions out) w2)"

definition rebind_transport :: "'w tunnel_io \<Rightarrow> string \<Rightarrow> duration \<Rightarrow> 'w \<Rightarrow> bool \<times> 'w" where
  "rebind_transport io peer silence w =
    (case tn_rebind io w of (r, w1) \<Rightarrow> (case r of Inr rebound \<Rightarrow> rebound | Inl _ \<Rightarrow> False, w1))"

definition maintenance ::
    "('hs, 'ts, 'w) runtime \<Rightarrow> 'w tunnel_io \<Rightarrow> scheduler \<Rightarrow> ('net, 'hs, 'ts) engine \<Rightarrow> 'w
      \<Rightarrow> scheduler \<times> ('net, 'hs, 'ts) engine \<times> 'w" where
  "maintenance E io sch en w =
    (case instant_now E w of (now, w1) \<Rightarrow>
     case scheduler_tick E (rebind_transport io) sch en now w1 of (tick, sch1, en1, w2) \<Rightarrow>
     case send_scheduled io en1 (tk_outputs tick) w2 of (en2, w3) \<Rightarrow> (sch1, en2, w3))"

subsection \<open>Preparation and clean-up\<close>

text \<open>The part of \<open>run\<close> between the creation of the device and the registration of the signal
handlers: an error of the firewall is returned at once.\<close>

definition tunnel_prepare ::
    "'net libs \<Rightarrow> 'net texts \<Rightarrow> 'w os \<Rightarrow> 'net config \<Rightarrow> 'net router \<Rightarrow> bool
      \<Rightarrow> ('w, installed_route list \<times> firewall_manager option) io" where
  "tunnel_prepare L T sys cfg R exit_node w =
    (let name = if_name (cfg_interface cfg) in
     case route_setup L T sys R (w, route_manager_new name) of
       (Inl e, (w1, _)) \<Rightarrow> (Err e, w1)
     | (Inr _, (w1, rm)) \<Rightarrow>
         if exit_node then
           (case firewall_setup sys (w1, firewall_new name (subnet_cidr L (if_address (cfg_interface cfg)))) of
              (Inl e, (w2, _)) \<Rightarrow> (Err e, w2)
            | (Inr _, (w2, fm)) \<Rightarrow> (Ok (rm_installed rm, Some fm), w2))
         else (Ok (rm_installed rm, None), w1))"

definition cleanup_run ::
    "'w os \<Rightarrow> (process_output \<Rightarrow> string) \<Rightarrow> installed_route list \<times> firewall_manager option \<Rightarrow> 'w \<Rightarrow> 'w" where
  "cleanup_run sys status c w =
    (let w1 = cleanup_routes sys status (fst c) w in
     case snd c of None \<Rightarrow> w1 | Some fm \<Rightarrow> firewall_cleanup sys fm w1)"

end
