(* ===== verification/Routing_Props.thy ===== *)
theory Routing_Props
  imports Routing
begin

text \<open>
  Properties of the route manager: what a setup installs and in which order, that a failed setup
  and a cleanup give back the routing table, and that a deletion reports success only for a route
  that is gone. The table is \<open>tab w\<close>, from destinations to devices; \<open>dest\<close> reads the text of a
  prefix or an address as a destination. The laws state what the Linux program \<open>ip\<close> documents.
\<close>

subsection \<open>The plan of a setup\<close>

fun first_occurrences :: "'a list \<Rightarrow> 'a set \<Rightarrow> 'a list" where
  "first_occurrences [] seen = []"
| "first_occurrences (x # xs) seen =
    (if x \<in> seen then first_occurrences xs seen else x # first_occurrences xs (insert x seen))"

definition tunnel_specs :: "'net libs \<Rightarrow> 'net texts \<Rightarrow> 'net \<Rightarrow> string list" where
  "tunnel_specs L T prefix =
    (if net_prefix_len L prefix = 0 then [''0.0.0.0/1'', ''128.0.0.0/1'']
     else if net_prefix_len L prefix = 32 then [show_ipv4 (net_addr L prefix) @ ''/32'']
     else [show_net T prefix])"

definition direct_plan :: "'net libs \<Rightarrow> 'net texts \<Rightarrow> 'net router \<Rightarrow> (route_kind \<times> string) list" where
  "direct_plan L T R =
    map (\<lambda>x. (ExcludedPrefix, show_net T x)) (first_occurrences (map route_prefix (excluded_routes R)) {})
    @ map (\<lambda>p. (EndpointException, show_ip (sa_ip (peer_endpoint_addr p)))) (endpoint_exception_peers L R)"

definition tunnel_plan :: "'net libs \<Rightarrow> 'net texts \<Rightarrow> 'net router \<Rightarrow> (route_kind \<times> string) list" where
  "tunnel_plan L T R =
    concat (map (\<lambda>r. map (Pair TunRoute) (tunnel_specs L T (route_prefix r))) (routes R))"

lemma first_occurrences_set: "set (first_occurrences xs seen) = set xs - seen"
  by (induction xs seen rule: first_occurrences.induct) auto

abbreviation entry_key :: "installed_route \<Rightarrow> route_kind \<times> string" where
  "entry_key e \<equiv> (ir_kind e, ir_spec e)"

text \<open>An operation that appends entries from a plan: all of them if it succeeds, an initial part
of them if it fails.\<close>

definition grown ::
    "(route_kind \<times> string) list \<Rightarrow> 'w managed \<Rightarrow> (failure, unit) result \<times> 'w managed \<Rightarrow> bool" where
  "grown plan s q \<longleftrightarrow> rm_tun_name (snd (snd q)) = rm_tun_name (snd s) \<and>
    (\<exists>n. map entry_key (rm_installed (snd (snd q))) = map entry_key (rm_installed (snd s)) @ take n plan
       \<and> (case fst q of Inl e \<Rightarrow> n < length plan | Inr _ \<Rightarrow> n = length plan))"

definition installs :: "('w managed, unit) io \<Rightarrow> (route_kind \<times> string) list \<Rightarrow> bool" where
  "installs m plan \<longleftrightarrow> (\<forall>s. grown plan s (m s))"

lemma installsI: "(\<And>s. grown plan s (m s)) \<Longrightarrow> installs m plan"
  by (simp add: installs_def)

lemma installsD: "installs m plan \<Longrightarrow> grown plan s (m s)"
  unfolding installs_def by blast

lemma installs_nothing: "installs (Pair (Ok ())) []"
  by (simp add: installs_def grown_def)

lemma grown_failed: "plan \<noteq> [] \<Longrightarrow> grown plan s (Err e, (w, snd s))"
  by (auto simp: grown_def intro!: exI [of _ 0])

lemma grown_world: "grown plan (w, snd s) q \<Longrightarrow> grown plan s q"
  by (simp add: grown_def)

lemma grown_append:
  assumes "grown a s (Ok (), s1)" and "grown b s1 q"
  shows "grown (a @ b) s q"
proof -
  from assms(2) obtain j where "rm_tun_name (snd (snd q)) = rm_tun_name (snd s1)"
    and keys: "map entry_key (rm_installed (snd (snd q))) = map entry_key (rm_installed (snd s1)) @ take j b"
    and j: "case fst q of Inl e \<Rightarrow> j < length b | Inr _ \<Rightarrow> j = length b"
    unfolding grown_def by blast
  with assms(1) have "rm_tun_name (snd (snd q)) = rm_tun_name (snd s)"
    and "map entry_key (rm_installed (snd (snd q))) =
      map entry_key (rm_installed (snd s)) @ take (length a + j) (a @ b)"
    by (simp_all add: grown_def)
  with j show ?thesis
    unfolding grown_def by (intro conjI exI [of _ "length a + j"]) (auto split: sum.splits)
qed

lemma grown_partly:
  assumes "grown a s (Err e, s1)"
  shows "grown (a @ b) s (Err e, s1)"
proof -
  from assms obtain n where "rm_tun_name (snd s1) = rm_tun_name (snd s)" "n < length a"
    and "map entry_key (rm_installed (snd s1)) = map entry_key (rm_installed (snd s)) @ take n a"
    unfolding grown_def by auto
  then show ?thesis unfolding grown_def by (intro conjI exI [of _ n]) simp_all
qed

lemma installs_then:
  assumes "installs m a" and "\<And>x. installs (k x) b"
  shows "installs (io_then m k) (a @ b)"
proof (rule installsI)
  fix s
  obtain r s1 where m: "m s = (r, s1)" by (cases "m s")
  with installsD [OF assms(1), of s] have g: "grown a s (r, s1)" by simp
  show "grown (a @ b) s (io_then m k s)"
  proof (cases r)
    case (Inl e)
    with m g grown_partly show ?thesis by (simp add: io_then_def)
  next
    case (Inr x)
    then have "r = Ok ()" by simp
    with m g grown_append [OF _ installsD [OF assms(2)]] show ?thesis by (simp add: io_then_def)
  qed
qed

text \<open>Operations on the system alone record nothing.\<close>

lemma installs_after_system:
  assumes "\<And>x. installs (k x) plan" and "plan \<noteq> []"
  shows "installs (io_then (io_context msg (on_system m)) k) plan"
proof (rule installsI)
  fix s :: "'b managed"
  obtain r w1 where m: "m (fst s) = (r, w1)" by (cases "m (fst s)")
  show "grown plan s (io_then (io_context msg (on_system m)) k s)"
  proof (cases r)
    case (Inl e)
    with m grown_failed [OF assms(2)] show ?thesis
      by (simp add: io_then_def io_context_def on_system_def)
  next
    case (Inr x)
    with m have "io_then (io_context msg (on_system m)) k s = k x (w1, snd s)"
      by (simp add: io_then_def io_context_def on_system_def)
    with grown_world [OF installsD [OF assms(1)]] show ?thesis by simp
  qed
qed

lemma installs_push: "installs (push_installed kind spec dev) [(kind, spec)]"
  by (simp add: installs_def grown_def push_installed_def)

lemma installs_tun: "installs (add_tun_route sys prefix) [(TunRoute, prefix)]"
proof (rule installsI)
  fix s :: "'a managed"
  let ?tun = "rm_tun_name (snd s)"
  have "add_tun_route sys prefix s = io_then
      (io_context (''add route '' @ prefix @ '' dev '' @ ?tun) (on_system (add_route_to_dev sys prefix ?tun)))
      (\<lambda>_. push_installed TunRoute prefix ?tun) s"
    by (simp add: add_tun_route_def Let_def)
  also have "grown [(TunRoute, prefix)] s \<dots>"
    by (intro installsD installs_after_system installs_push) simp
  finally show "grown [(TunRoute, prefix)] s (add_tun_route sys prefix s)" .
qed

lemma installs_endpoint: "installs (add_endpoint_exception sys ip) [(EndpointException, show_ip ip)]"
proof (rule installsI)
  fix s :: "'a managed"
  show "grown [(EndpointException, show_ip ip)] s (add_endpoint_exception sys ip s)"
    unfolding add_endpoint_exception_def Let_def
    by (rule installsD, rule installs_after_system)
      (auto split: prod.splits option.splits intro!: installs_after_system installs_push)
qed

lemma installs_prefix: "installs (add_prefix_exception L T sys x) [(ExcludedPrefix, show_net T x)]"
  unfolding add_prefix_exception_def Let_def
  by (rule installs_after_system)
    (auto split: prod.splits option.splits intro!: installs_after_system installs_push)

lemma installs_exclusions:
  "installs (add_exclusions L T sys rs seen)
    (map (\<lambda>x. (ExcludedPrefix, show_net T x)) (first_occurrences (map route_prefix rs) seen))"
proof (induction L T sys rs seen rule: add_exclusions.induct)
  case (2 L T sys r rs seen)
  show ?case
  proof (cases "route_prefix r \<in> seen")
    case False
    from installs_then [OF installs_prefix [of L T sys "route_prefix r"] 2(2) [OF False]] False
    show ?thesis by simp
  qed (use 2(1) in simp)
qed (simp add: installs_nothing)

lemma installs_endpoints:
  "installs (add_endpoint_exceptions sys ps)
    (map (\<lambda>p. (EndpointException, show_ip (sa_ip (peer_endpoint_addr p)))) ps)"
proof (induction ps)
  case (Cons p ps)
  from installs_then [OF installs_endpoint [of sys "sa_ip (peer_endpoint_addr p)"] Cons] show ?case by simp
qed (simp add: installs_nothing)

lemma installs_tunnel_prefix:
  "installs (add_tunnel_prefix L T sys x) (map (Pair TunRoute) (tunnel_specs L T x))"
  using installs_then [OF installs_tun [of sys "''0.0.0.0/1''"] installs_tun [of sys "''128.0.0.0/1''"]]
    installs_tun [of sys]
  by (simp add: add_tunnel_prefix_def tunnel_specs_def)

lemma installs_tunnel:
  "installs (add_tunnel_routes L T sys rs)
    (concat (map (\<lambda>r. map (Pair TunRoute) (tunnel_specs L T (route_prefix r))) rs))"
proof (induction rs)
  case (Cons r rs)
  from installs_then [OF installs_tunnel_prefix [of L T sys "route_prefix r"] Cons] show ?case by simp
qed (simp add: installs_nothing)

lemma installs_setup: "installs (setup_inner L T sys R) (direct_plan L T R @ tunnel_plan L T R)"
  unfolding setup_inner_def direct_plan_def tunnel_plan_def append_assoc
  by (intro installs_then installs_exclusions installs_endpoints installs_tunnel)

subsection \<open>The routing table\<close>

type_synonym ('w, 'd) table = "'w \<Rightarrow> 'd \<Rightarrow> string option"

text \<open>Adding a route either fails and changes nothing, or the destination had no route before.\<close>

definition route_added ::
    "(string \<Rightarrow> 'd) \<Rightarrow> ('w, 'd) table \<Rightarrow> string \<Rightarrow> string \<Rightarrow> 'w \<Rightarrow> (string, process_output) result \<Rightarrow> 'w \<Rightarrow> bool" where
  "route_added dest tab p d w r w' \<longleftrightarrow>
    (if \<exists>out. r = Ok out \<and> po_success out
     then tab w (dest p) = None \<and> tab w' = (tab w)(dest p \<mapsto> d) else tab w' = tab w)"

definition ip_adds :: "'w os \<Rightarrow> (string \<Rightarrow> 'd) \<Rightarrow> ('w, 'd) table \<Rightarrow> bool" where
  "ip_adds sys dest tab \<longleftrightarrow> os_is_linux sys
    \<and> (\<forall>w p d. case os_command sys ''ip'' [''route'', ''add'', p, ''dev'', d] w of (r, w') \<Rightarrow>
        route_added dest tab p d w r w')
    \<and> (\<forall>w p g d. case os_command sys ''ip'' [''route'', ''add'', p, ''via'', g, ''dev'', d] w of (r, w') \<Rightarrow>
        route_added dest tab p d w r w')
    \<and> (\<forall>w p. tab (snd (os_command sys ''ip'' [''route'', ''get'', p] w)) = tab w)"

text \<open>Deleting a route that is there succeeds and removes it.\<close>

definition ip_deletes :: "'w os \<Rightarrow> (string \<Rightarrow> 'd) \<Rightarrow> ('w, 'd) table \<Rightarrow> bool" where
  "ip_deletes sys dest tab \<longleftrightarrow>
    (\<forall>w p d. tab w (dest p) = Some d \<longrightarrow>
      (\<forall>args \<in> {[''route'', ''del'', p, ''dev'', d], [''route'', ''del'', p]}.
        \<exists>out w'. os_command sys ''ip'' args w = (Ok out, w') \<and> po_success out
          \<and> tab w' = (tab w)(dest p := None)))"

text \<open>The entries, latest first, that were added to the table \<open>m0\<close> and led to the table \<open>m\<close>.\<close>

fun added_to :: "(string \<Rightarrow> 'd) \<Rightarrow> ('d \<Rightarrow> string option) \<Rightarrow> installed_route list \<Rightarrow> ('d \<Rightarrow> string option) \<Rightarrow> bool" where
  "added_to dest m0 [] m = (m = m0)"
| "added_to dest m0 (e # es) m =
    (\<exists>m' d. added_to dest m0 es m' \<and> m' (dest (ir_spec e)) = None \<and> m = m'(dest (ir_spec e) \<mapsto> d)
       \<and> (ir_kind e \<noteq> EndpointException \<longrightarrow> d = ir_tun_name e))"

definition tracked :: "(string \<Rightarrow> 'd) \<Rightarrow> ('w, 'd) table \<Rightarrow> ('d \<Rightarrow> string option) \<Rightarrow> 'w managed \<Rightarrow> bool" where
  "tracked dest tab m0 s \<longleftrightarrow> added_to dest m0 (rev (rm_installed (snd s))) (tab (fst s))"

definition preserves :: "('w managed, 'a) io \<Rightarrow> ('w managed \<Rightarrow> bool) \<Rightarrow> bool" where
  "preserves m P \<longleftrightarrow> (\<forall>s. P s \<longrightarrow> P (snd (m s)))"

lemma preservesD: "preserves m P \<Longrightarrow> P s \<Longrightarrow> P (snd (m s))"
  unfolding preserves_def by blast

lemma preserves_then:
  assumes "preserves m P" and "\<And>x. preserves (k x) P"
  shows "preserves (io_then m k) P"
  unfolding preserves_def
proof (intro allI impI)
  fix s assume "P s"
  obtain r s1 where m: "m s = (r, s1)" by (cases "m s")
  with preservesD [OF assms(1) \<open>P s\<close>] have "P s1" by simp
  with m preservesD [OF assms(2)] show "P (snd (io_then m k s))"
    by (cases r) (simp_all add: io_then_def)
qed

lemma preserves_nothing: "preserves (Pair x) P" "preserves (io_ok y) P"
  by (simp_all add: preserves_def)

text \<open>A command that adds one route, and a query.\<close>

definition adds_one :: "(string \<Rightarrow> 'd) \<Rightarrow> ('w, 'd) table \<Rightarrow> ('w, unit) io \<Rightarrow> string \<Rightarrow> string \<Rightarrow> bool" where
  "adds_one dest tab m p d \<longleftrightarrow> (\<forall>w. case m w of
      (Inl e, w') \<Rightarrow> tab w' = tab w
    | (Inr _, w') \<Rightarrow> tab w (dest p) = None \<and> tab w' = (tab w)(dest p \<mapsto> d))"

lemma run_checked_adds:
  assumes "\<And>w. case os_command sys ''ip'' args w of (r, w') \<Rightarrow> route_added dest tab p d w r w'"
  shows "adds_one dest tab (run_checked sys ''ip'' args doing failed) p d"
  unfolding adds_one_def
proof
  fix w
  obtain r w' where c: "os_command sys ''ip'' args w = (r, w')" by (cases "os_command sys ''ip'' args w")
  with assms [of w] have "route_added dest tab p d w r w'" by simp
  with c show "case run_checked sys ''ip'' args doing failed w of
      (Inl e, w') \<Rightarrow> tab w' = tab w
    | (Inr _, w') \<Rightarrow> tab w (dest p) = None \<and> tab w' = (tab w)(dest p \<mapsto> d)"
    by (cases r) (simp_all add: run_checked_def io_then_def io_context_def io_call_def route_added_def)
qed

lemma commands_add:
  assumes "ip_adds sys dest tab"
  shows "adds_one dest tab (add_route_to_dev sys p d) p d"
    and "adds_one dest tab (add_host_route_via sys p g d) p d"
    and "adds_one dest tab (add_host_route_dev sys p d) p d"
    and "adds_one dest tab (add_prefix_route_via sys p g d) p d"
    and "adds_one dest tab (add_prefix_route_dev sys p d) p d"
  using assms unfolding ip_adds_def
  by (simp_all add: add_route_to_dev_def add_host_route_via_def add_host_route_dev_def
      add_prefix_route_via_def add_prefix_route_dev_def run_checked_adds)

lemma get_route_info_keeps:
  assumes "ip_adds sys dest tab"
  shows "tab (snd (get_route_info sys dst w)) = tab w"
proof -
  obtain r w' where c: "os_command sys ''ip'' [''route'', ''get'', dst] w = (r, w')"
    by (cases "os_command sys ''ip'' [''route'', ''get'', dst] w")
  from assms have "os_is_linux sys" and "tab (snd (os_command sys ''ip'' [''route'', ''get'', dst] w)) = tab w"
    unfolding ip_adds_def by blast+
  with c show ?thesis
    by (cases r) (auto simp: get_route_info_def io_then_def io_context_def io_call_def
        split: list.splits prod.splits option.splits)
qed

lemma preserves_query:
  assumes "\<And>w. tab (snd (m w)) = tab w"
  shows "preserves (io_context msg (on_system m)) (tracked dest tab m0)"
  unfolding preserves_def
proof (intro allI impI)
  fix s assume "tracked dest tab m0 s"
  obtain r w1 where m: "m (fst s) = (r, w1)" by (cases "m (fst s)")
  with assms [of "fst s"] have "tab w1 = tab (fst s)" by simp
  with m \<open>tracked dest tab m0 s\<close> show "tracked dest tab m0 (snd (io_context msg (on_system m) s))"
    by (simp add: tracked_def io_context_def on_system_def)
qed

lemma preserves_push:
  assumes "adds_one dest tab m p d" and "kind \<noteq> EndpointException \<longrightarrow> dev = d"
  shows "preserves (io_then (io_context msg (on_system m)) (\<lambda>_. push_installed kind p dev)) (tracked dest tab m0)"
  unfolding preserves_def
proof (intro allI impI)
  fix s assume P: "tracked dest tab m0 s"
  obtain r w1 where m: "m (fst s) = (r, w1)" by (cases "m (fst s)")
  from assms(1) have law: "case m (fst s) of
      (Inl e, w') \<Rightarrow> tab w' = tab (fst s)
    | (Inr _, w') \<Rightarrow> tab (fst s) (dest p) = None \<and> tab w' = (tab (fst s))(dest p \<mapsto> d)"
    unfolding adds_one_def by (rule spec)
  show "tracked dest tab m0 (snd (io_then (io_context msg (on_system m)) (\<lambda>_. push_installed kind p dev) s))"
  proof (cases r)
    case (Inl e)
    with m law P show ?thesis
      by (simp add: tracked_def io_then_def io_context_def on_system_def)
  next
    case (Inr x)
    with m law P assms(2) show ?thesis
      by (auto simp: tracked_def io_then_def io_context_def on_system_def push_installed_def)
  qed
qed

lemma preserves_tun:
  assumes "ip_adds sys dest tab"
  shows "preserves (add_tun_route sys p) (tracked dest tab m0)"
  unfolding preserves_def
proof (intro allI impI)
  fix s :: "'a managed" assume P: "tracked dest tab m0 s"
  show "tracked dest tab m0 (snd (add_tun_route sys p s))"
    unfolding add_tun_route_def Let_def
    by (rule preservesD [OF preserves_push [OF commands_add(1) [OF assms]] P]) simp
qed

lemma preserves_endpoint:
  assumes "ip_adds sys dest tab"
  shows "preserves (add_endpoint_exception sys ip) (tracked dest tab m0)"
  unfolding preserves_def
proof (intro allI impI)
  fix s :: "'a managed" assume P: "tracked dest tab m0 s"
  show "tracked dest tab m0 (snd (add_endpoint_exception sys ip s))"
    unfolding add_endpoint_exception_def Let_def
    using get_route_info_keeps [OF assms]
    by (intro preservesD [where P = "tracked dest tab m0" and s = s, OF _ P] preserves_then preserves_query)
      (auto split: prod.splits option.splits intro!: preserves_push commands_add(2,3) [OF assms])
qed

lemma preserves_prefix:
  assumes "ip_adds sys dest tab"
  shows "preserves (add_prefix_exception L T sys x) (tracked dest tab m0)"
  unfolding add_prefix_exception_def Let_def
  using get_route_info_keeps [OF assms]
  by (intro preserves_then preserves_query)
    (auto split: prod.splits option.splits intro!: preserves_push commands_add(4,5) [OF assms])

lemma preserves_setup:
  assumes "ip_adds sys dest tab"
  shows "preserves (setup_inner L T sys (R :: 'net router)) (tracked dest tab m0)"
proof -
  note one = preserves_then preserves_nothing preserves_tun [OF assms] preserves_endpoint [OF assms]
    preserves_prefix [OF assms]
  have "preserves (add_exclusions L T sys rs seen) (tracked dest tab m0)" for rs seen
    by (induction rs arbitrary: seen) (auto intro: one)
  moreover have "preserves (add_endpoint_exceptions sys ps) (tracked dest tab m0)" for ps :: "'net peer list"
    by (induction ps) (auto intro: one)
  moreover have "preserves (add_tunnel_prefix L T sys x) (tracked dest tab m0)" for x
    by (simp add: add_tunnel_prefix_def one)
  then have "preserves (add_tunnel_routes L T sys rs) (tracked dest tab m0)" for rs
    by (induction rs) (auto intro: one)
  ultimately show ?thesis unfolding setup_inner_def by (intro preserves_then)
qed

subsection \<open>Undoing\<close>

lemma delete_installed_law:
  assumes "ip_adds sys dest tab" and "ip_deletes sys dest tab"
    and "tab w (dest (ir_spec e)) = Some d" and "ir_kind e \<noteq> EndpointException \<longrightarrow> d = ir_tun_name e"
  shows "tab (io_ignore (delete_installed sys status e) w) = (tab w)(dest (ir_spec e) := None)"
proof -
  have linux: "os_is_linux sys" using assms(1) by (simp add: ip_adds_def)
  have once: "delete_linux_route sys status args p dev w = (Ok (), w')"
    if "os_command sys ''ip'' args w = (Ok out, w')" "po_success out" for args p dev out w'
    using that
    by (simp add: delete_linux_route_def DELETE_ATTEMPTS_def numeral_3_eq_3 io_context_def io_call_def)
  have del: "\<exists>w'. delete_linux_route sys status args (ir_spec e) dev w = (Ok (), w')
      \<and> tab w' = (tab w)(dest (ir_spec e) := None)"
    if "args \<in> {[''route'', ''del'', ir_spec e, ''dev'', d], [''route'', ''del'', ir_spec e]}" for args dev
    using assms(2,3) that once unfolding ip_deletes_def by blast
  show ?thesis
  proof (cases "ir_kind e = EndpointException")
    case True
    then have "delete_installed sys status e = delete_linux_route sys status [''route'', ''del'', ir_spec e] (ir_spec e) None"
      using linux by (simp add: delete_installed_def del_host_route_def)
    with del [OF insertI2 [OF singletonI], of None] show ?thesis by (metis io_ignore_def snd_conv)
  next
    case False
    then have "delete_installed sys status e = delete_linux_route sys status
        [''route'', ''del'', ir_spec e, ''dev'', d] (ir_spec e) (Some d)"
      using linux assms(4)
      by (cases "ir_kind e") (simp_all add: delete_installed_def del_tun_route_def del_prefix_exception_def)
    with del [OF insertI1, of "Some d"] show ?thesis by (metis io_ignore_def snd_conv)
  qed
qed

lemma cleanup_law:
  assumes "ip_adds sys dest tab" and "ip_deletes sys dest tab" and "added_to dest m0 (rev es) (tab w)"
  shows "tab (cleanup_routes sys status es w) = m0"
proof -
  have "tab (fold (\<lambda>entry w. io_ignore (delete_installed sys status entry) w) fs w) = m0"
    if "added_to dest m0 fs (tab w)" for fs w
    using that
  proof (induction fs arbitrary: w)
    case (Cons e fs)
    then obtain m' d where m': "added_to dest m0 fs m'" "m' (dest (ir_spec e)) = None"
      "tab w = m'(dest (ir_spec e) \<mapsto> d)" "ir_kind e \<noteq> EndpointException \<longrightarrow> d = ir_tun_name e"
      by auto
    then have "tab w (dest (ir_spec e)) = Some d" by simp
    from delete_installed_law [OF assms(1,2) this m'(4)] m'
    have "tab (io_ignore (delete_installed sys status e) w) = m'"
      by (simp only: fun_upd_upd) (rule fun_upd_idem)
    with m'(1) Cons.IH show ?case by simp
  qed simp
  from this [OF assms(3)] show ?thesis by (simp add: cleanup_routes_def)
qed

subsection \<open>Deleting until the route is gone\<close>

text \<open>A deletion succeeds and removes the named route, or fails and changes nothing; a listing that
succeeds is one line for the route that is there.\<close>

definition printable_word :: "string \<Rightarrow> bool" where
  "printable_word t \<longleftrightarrow> t \<noteq> [] \<and> list_all (\<lambda>c. (33 :: nat) \<le> of_char c \<and> (of_char c :: nat) \<le> 126) t"

definition lists_route :: "string \<Rightarrow> string option \<Rightarrow> bool" where
  "lists_route listing d \<longleftrightarrow>
    (case d of
       None \<Rightarrow> str_lines listing = []
     | Some dev \<Rightarrow> \<exists>before after. str_lines listing = [join '' '' (before @ [''dev'', dev] @ after)]
         \<and> (\<forall>t \<in> set (before @ dev # after). printable_word t) \<and> ''dev'' \<notin> set before)"

definition ip_shows :: "'w os \<Rightarrow> (string \<Rightarrow> 'd) \<Rightarrow> ('w, 'd) table \<Rightarrow> bool" where
  "ip_shows sys dest tab \<longleftrightarrow>
    (\<forall>w p. case os_command sys ''ip'' [''route'', ''show'', p] w of (r, w') \<Rightarrow>
      tab w' = tab w \<and> (\<forall>out. r = Ok out \<and> po_success out \<longrightarrow> lists_route (po_stdout out) (tab w (dest p))))"

definition deletes_or_fails ::
    "'w os \<Rightarrow> (string \<Rightarrow> 'd) \<Rightarrow> ('w, 'd) table \<Rightarrow> string list \<Rightarrow> string \<Rightarrow> bool" where
  "deletes_or_fails sys dest tab args p \<longleftrightarrow>
    (\<forall>w. case os_command sys ''ip'' args w of (r, w') \<Rightarrow>
      if \<exists>out. r = Ok out \<and> po_success out then tab w' = (tab w)(dest p := None) else tab w' = tab w)"

lemma white_space_first:
  "s \<in> set white_space \<Longrightarrow> s \<noteq> [] \<and> ((of_char (hd s) :: nat) < 33 \<or> 126 < (of_char (hd s) :: nat))"
  by (auto simp: white_space_def utf8_def)

lemma no_space_here:
  assumes "33 \<le> (of_char c :: nat)" and "(of_char c :: nat) \<le> 126"
  shows "find (\<lambda>p. starts_with (c # cs) p \<and> p \<noteq> []) white_space = None"
proof -
  have "\<not> (starts_with (c # cs) p \<and> p \<noteq> [])" if "p \<in> set white_space" for p
    using white_space_first [OF that] assms by (cases p) (auto simp: starts_with_def)
  then show ?thesis by (simp add: find_None_iff)
qed

lemma no_space_end: "find (\<lambda>p. starts_with [] p \<and> p \<noteq> []) white_space = None"
  by (auto simp: find_None_iff starts_with_def)

lemma find_only:
  assumes "y \<in> set xs" and "P y" and "\<And>z. z \<in> set xs \<Longrightarrow> P z \<Longrightarrow> z = y"
  shows "find P xs = Some y"
proof (cases "find P xs")
  case None
  with assms(1,2) show ?thesis by (auto simp: find_None_iff)
next
  case (Some z)
  then have "z \<in> set xs" "P z" by (auto simp: find_Some_iff)
  with assms(3) Some show ?thesis by simp
qed

lemma char_of_space: "char_of (32 :: nat) = CHR '' ''"
  using char_of_char [of "CHR '' ''"] by simp

lemma space_here: "find (\<lambda>p. starts_with (CHR '' '' # cs) p \<and> p \<noteq> []) white_space = Some '' ''"
proof -
  have only: "p = '' ''" if "p \<in> set white_space" "(of_char (hd p) :: nat) = 32" for p
    using that by (auto simp: white_space_def utf8_def char_of_space)
  show ?thesis
  proof (rule find_only)
    show "'' '' \<in> set white_space" by (simp add: white_space_def utf8_def char_of_space)
    show "starts_with (CHR '' '' # cs) '' '' \<and> '' '' \<noteq> []" by (simp add: starts_with_def)
    fix p assume p: "p \<in> set white_space" "starts_with (CHR '' '' # cs) p \<and> p \<noteq> []"
    then have "hd p = CHR '' ''" using starts_hd [of "CHR '' ''" cs p] by blast
    with p(1) show "p = '' ''" by (intro only) simp_all
  qed
qed

lemma split_word:
  assumes "list_all (\<lambda>c. 33 \<le> (of_char c :: nat) \<and> (of_char c :: nat) \<le> 126) t"
  shows "split_whitespace_from tok (t @ rest) = split_whitespace_from (tok @ t) rest"
  using assms
proof (induction t arbitrary: tok)
  case (Cons c t)
  from Cons.prems no_space_here [of c "t @ rest"]
  have "split_whitespace_from tok ((c # t) @ rest) = split_whitespace_from (tok @ [c]) (t @ rest)"
    by (subst split_whitespace_from.simps) simp
  with Cons show ?case by simp
qed simp

lemma split_end: "split_whitespace_from tok [] = (if tok = [] then [] else [tok])"
  by (subst split_whitespace_from.simps) (simp add: no_space_end)

lemma split_space: "split_whitespace_from tok (CHR '' '' # cs) = (if tok = [] then [] else [tok]) @ split_whitespace_from [] cs"
  by (subst split_whitespace_from.simps) (simp add: space_here)

text \<open>Words joined by spaces are split into the words.\<close>

lemma split_join:
  assumes "\<forall>t \<in> set ts. printable_word t"
  shows "split_whitespace (join '' '' ts) = ts"
  unfolding split_whitespace_def using assms
proof (induction ts rule: induct_list012)
  case 1
  then show ?case by (simp add: split_end)
next
  case (2 t)
  with split_word [of t "[]" "[]"] show ?case by (simp add: printable_word_def split_end)
next
  case (3 t u us)
  with split_word [of t "[]" "CHR '' '' # join '' '' (u # us)"] show ?case
    by (simp add: printable_word_def split_space)
qed

lemma line_uses_dev_words:
  "''dev'' \<notin> set before \<Longrightarrow> line_uses_dev (before @ [''dev'', d] @ after) e \<longleftrightarrow> d = e"
  by (induction before) auto

lemma trim_end_nonempty:
  assumes "s \<noteq> []" and "33 \<le> (of_char (hd s) :: nat)" and "(of_char (hd s) :: nat) \<le> 126"
  shows "trim_end s \<noteq> []"
  using assms
proof (induction s rule: trim_end.induct)
  case (1 s)
  show ?case
  proof (cases "find (\<lambda>p. ends_with s p \<and> p \<noteq> []) white_space")
    case None
    then have "trim_end s = s" by (subst trim_end.simps) simp
    with 1 show ?thesis by simp
  next
    case (Some p)
    let ?t = "take (length s - length p) s"
    from Some have p: "p \<in> set white_space" "ends_with s p" "p \<noteq> []" by (auto simp: find_Some_iff)
    have "length p < length s"
    proof (rule ccontr)
      assume "\<not> length p < length s"
      with p(2) have "s = p" by (simp add: ends_with_def starts_with_def)
      with white_space_first [OF p(1)] 1(3,4) show False by auto
    qed
    then have "?t \<noteq> []" "hd ?t = hd s" by (auto simp: hd_take)
    with 1(1) [OF Some] 1(3,4) have "trim_end ?t \<noteq> []" by simp
    moreover from Some have "trim_end s = trim_end ?t" by (subst trim_end.simps) simp
    ultimately show ?thesis by simp
  qed
qed

lemma trim_nonempty:
  assumes "33 \<le> (of_char c :: nat)" and "(of_char c :: nat) \<le> 126"
  shows "trim (c # s) \<noteq> []"
proof -
  have "trim_start (c # s) = c # s"
    by (subst trim_start.simps) (simp add: no_space_here [OF assms])
  with trim_end_nonempty [of "c # s"] assms show ?thesis by (simp add: trim_def)
qed

lemma route_listing_law:
  assumes "lists_route listing d"
  shows "route_listing_contains listing (Some dev) \<longleftrightarrow> d = Some dev"
    and "route_listing_contains listing None \<longleftrightarrow> d \<noteq> None"
proof -
  have both: "(route_listing_contains listing (Some dev) \<longleftrightarrow> d = Some dev)
      \<and> (route_listing_contains listing None \<longleftrightarrow> d \<noteq> None)"
  proof (cases d)
    case None
    with assms show ?thesis by (simp add: lists_route_def route_listing_contains_def)
  next
    case (Some x)
    with assms obtain before after where line: "str_lines listing = [join '' '' (before @ [''dev'', x] @ after)]"
      and words: "\<forall>t \<in> set (before @ x # after). printable_word t" and "''dev'' \<notin> set before"
      by (auto simp: lists_route_def)
    moreover have "printable_word ''dev''" by (simp add: printable_word_def)
    ultimately have "split_whitespace (join '' '' (before @ [''dev'', x] @ after)) = before @ [''dev'', x] @ after"
      by (intro split_join) auto
    with line_uses_dev_words [OF \<open>''dev'' \<notin> set before\<close>]
    have "route_listing_contains listing (Some dev) \<longleftrightarrow> x = dev"
      by (simp add: route_listing_contains_def line route_line_uses_dev_def del: append.simps)
    moreover obtain c cs where "join '' '' (before @ [''dev'', x] @ after) = c # cs"
      and "33 \<le> (of_char c :: nat) \<and> (of_char c :: nat) \<le> 126"
    proof -
      obtain t ts where t: "before @ [''dev'', x] @ after = t # ts" "printable_word t"
        using words \<open>printable_word ''dev''\<close> by (cases before) auto
      then obtain c cs where "t = c # cs" "33 \<le> (of_char c :: nat) \<and> (of_char c :: nat) \<le> 126"
        by (cases t) (auto simp: printable_word_def)
      with t that show thesis by (cases ts) auto
    qed
    then have "route_listing_contains listing None"
      using trim_nonempty [of c cs] by (simp add: route_listing_contains_def line)
    ultimately show ?thesis by (simp add: Some)
  qed
  then show "route_listing_contains listing (Some dev) \<longleftrightarrow> d = Some dev"
    and "route_listing_contains listing None \<longleftrightarrow> d \<noteq> None" by blast+
qed

text \<open>The route that a deletion is about is gone.\<close>

definition route_gone :: "('d \<Rightarrow> string option) \<Rightarrow> 'd \<Rightarrow> string option \<Rightarrow> bool" where
  "route_gone m k dev \<longleftrightarrow> (case dev of None \<Rightarrow> m k = None | Some d \<Rightarrow> m k \<noteq> Some d)"

lemma linux_route_exists_law:
  assumes "ip_shows sys dest tab" and "linux_route_exists sys p dev w = (r, w')"
  shows "tab w' = tab w" and "r = Ok False \<Longrightarrow> route_gone (tab w') (dest p) dev"
proof -
  obtain q w1 where c: "os_command sys ''ip'' [''route'', ''show'', p] w = (q, w1)"
    by (cases "os_command sys ''ip'' [''route'', ''show'', p] w")
  from assms(1) have "case os_command sys ''ip'' [''route'', ''show'', p] w of (r, w') \<Rightarrow>
      tab w' = tab w \<and> (\<forall>out. r = Ok out \<and> po_success out \<longrightarrow> lists_route (po_stdout out) (tab w (dest p)))"
    unfolding ip_shows_def by (elim allE)
  then have keep: "tab w1 = tab w"
    and listing: "\<And>out. q = Ok out \<Longrightarrow> po_success out \<Longrightarrow> lists_route (po_stdout out) (tab w (dest p))"
    unfolding c prod.case by blast+
  have w': "w' = w1"
    using assms(2) c
    by (cases q) (auto simp: linux_route_exists_def io_then_def io_context_def io_call_def split: if_splits)
  with keep show "tab w' = tab w" by simp
  assume "r = Ok False"
  with assms(2) c obtain out where "q = Ok out" "po_success out" "\<not> route_listing_contains (po_stdout out) dev"
    by (cases q) (auto simp: linux_route_exists_def io_then_def io_context_def io_call_def split: if_splits)
  with listing route_listing_law show "route_gone (tab w') (dest p) dev"
    by (cases dev) (auto simp: route_gone_def w' keep)
qed

lemma delete_attempts_law:
  assumes "ip_shows sys dest tab" and "deletes_or_fails sys dest tab args p"
    and "delete_attempts sys status args p dev n failed check w = (r, w')"
  shows "case r of Inl e \<Rightarrow> tab w' = tab w
    | Inr _ \<Rightarrow> route_gone (tab w') (dest p) dev \<and> (tab w' = tab w \<or> tab w' = (tab w)(dest p := None))"
  using assms(3)
proof (induction n arbitrary: failed check w)
  case (Suc n)
  obtain q w1 where c: "os_command sys ''ip'' args w = (q, w1)" by (cases "os_command sys ''ip'' args w")
  from assms(2) have "case os_command sys ''ip'' args w of (r, w') \<Rightarrow>
      if \<exists>out. r = Ok out \<and> po_success out then tab w' = (tab w)(dest p := None) else tab w' = tab w"
    unfolding deletes_or_fails_def by (rule spec)
  then have law: "if \<exists>out. q = Ok out \<and> po_success out then tab w1 = (tab w)(dest p := None)
      else tab w1 = tab w"
    unfolding c prod.case .
  show ?case
  proof (cases q)
    case (Inl e)
    with Suc.prems c law show ?thesis by (auto simp: io_context_def io_call_def)
  next
    case (Inr out)
    show ?thesis
    proof (cases "po_success out")
      case True
      with Suc.prems c law Inr have "r = Ok ()" "tab w' = (tab w)(dest p := None)"
        by (auto simp: io_context_def io_call_def)
      then show ?thesis by (simp add: route_gone_def split: option.splits)
    next
      case False
      obtain b w2 where b: "linux_route_exists sys p dev w1 = (b, w2)" by (cases "linux_route_exists sys p dev w1")
      note gone = linux_route_exists_law [OF assms(1) b]
      from False law Inr have "tab w1 = tab w" by simp
      with gone(1) have same: "tab w2 = tab w" by simp
      from Suc.prems have "(case b of
          Inr False \<Rightarrow> (Ok (), w2)
        | Inr True \<Rightarrow> delete_attempts sys status args p dev n (Some out) None w2
        | Inl error \<Rightarrow> delete_attempts sys status args p dev n (Some out) (Some error) w2) = (r, w')"
        by (simp add: io_context_def io_call_def c Inr False b split: sum.splits bool.splits)
      then have run: "b = Ok False \<and> r = Ok () \<and> w' = w2
          \<or> (\<exists>check'. delete_attempts sys status args p dev n (Some out) check' w2 = (r, w'))"
        by (cases b) (auto split: bool.splits)
      show ?thesis
      proof (cases "b = Ok False \<and> r = Ok () \<and> w' = w2")
        case True
        with gone same show ?thesis by simp
      next
        case False
        with run obtain check' where "delete_attempts sys status args p dev n (Some out) check' w2 = (r, w')"
          by blast
        from Suc.IH [OF this] show ?thesis unfolding same .
      qed
    qed
  qed
qed auto

subsection \<open>A concrete routing table\<close>

type_synonym demo_routes = "string \<Rightarrow> string option"

definition demo_reply :: "int \<Rightarrow> string \<Rightarrow> (string, process_output) result" where
  "demo_reply code out = Ok \<lparr>po_code = Some code, po_stdout = out, po_stderr = []\<rparr>"

definition demo_ip :: "string list \<Rightarrow> demo_routes \<Rightarrow> (string, process_output) result \<times> demo_routes" where
  "demo_ip args w =
    (let p = args ! 2; d = last args in
     if args ! 1 = ''add'' then
       (if w p = None then (demo_reply 0 [], w(p \<mapsto> d)) else (demo_reply 2 [], w))
     else if args ! 1 = ''del'' then
       (if w p \<noteq> None \<and> (length args = 3 \<or> w p = Some d) then (demo_reply 0 [], w(p := None))
        else (demo_reply 2 [], w))
     else if args ! 1 = ''show'' then
       (case w p of
          None \<Rightarrow> (demo_reply 0 [], w)
        | Some dev \<Rightarrow> if printable_word dev then (demo_reply 0 (''default dev '' @ dev), w)
            else (demo_reply 1 [], w))
     else (demo_reply 0 ''192.0.2.1 via 198.51.100.1 dev eth0'', w))"

definition demo_route_os :: "demo_routes os" where
  "demo_route_os = \<lparr>os_is_linux = True, os_euid = 0, os_env = (\<lambda>_. None), os_command = (\<lambda>_. demo_ip),
     os_exists = (\<lambda>_ _. True), os_read = (\<lambda>_ _. Err []), os_read_link = (\<lambda>_ _. Err []),
     os_read_dir = (\<lambda>_ _. Err []), os_create_dir_all = (\<lambda>_ w. (Ok (), w)),
     os_set_permissions = (\<lambda>_ _ w. (Ok (), w)), os_create_new = (\<lambda>_ w. (Ok (), w)),
     os_write_all = (\<lambda>_ _ w. (Ok (), w)), os_write = (\<lambda>_ _ w. (Ok (), w)),
     os_remove_file = (\<lambda>_ w. (Ok (), w)), os_open = (\<lambda>_ w. (Ok (), w)),
     os_lock_exclusive = (\<lambda>_ w. (Ok (), w)), os_unlock = (\<lambda>_ w. w)\<rparr>"

definition demo_texts :: "demo_net texts" where
  "demo_texts = \<lparr>show_net = (\<lambda>n. show_ipv4 (fst n) @ ''/'' @ show_nat (unat (snd n))), show_status = (\<lambda>_. ''exit status'')\<rparr>"

lemma demo_replies [simp]:
  "demo_reply c s = Ok out \<longleftrightarrow> out = \<lparr>po_code = Some c, po_stdout = s, po_stderr = []\<rparr>"
  "po_success \<lparr>po_code = Some c, po_stdout = s, po_stderr = []\<rparr> \<longleftrightarrow> c = 0"
  by (auto simp: demo_reply_def po_success_def)

lemma demo_adds: "ip_adds demo_route_os (\<lambda>p. p) (\<lambda>w. w)"
  by (simp add: ip_adds_def demo_route_os_def demo_ip_def route_added_def numeral_2_eq_2)

lemma demo_deletes: "ip_deletes demo_route_os (\<lambda>p. p) (\<lambda>w. w)"
  by (simp add: ip_deletes_def demo_route_os_def demo_ip_def numeral_2_eq_2 numeral_3_eq_3)

lemma demo_deletes_or_fails:
  "deletes_or_fails demo_route_os (\<lambda>p. p) (\<lambda>w. w) [''route'', ''del'', p, ''dev'', d] p"
  by (simp add: deletes_or_fails_def demo_route_os_def demo_ip_def numeral_2_eq_2 numeral_3_eq_3)

lemma str_lines_single:
  assumes "s \<noteq> []" and "CHR 0x0A \<notin> set s"
  shows "str_lines s = [s]"
proof -
  from assms(2) have "split_on (CHR 0x0A) s = [s]" by (induction s) (auto split: list.splits)
  with assms(1) show ?thesis by (simp add: str_lines_def)
qed

lemma demo_shows: "ip_shows demo_route_os (\<lambda>p. p) (\<lambda>w. w)"
proof -
  have listed: "lists_route (''default dev '' @ d) (Some d)" if "printable_word d" for d
  proof -
    from that have "CHR 0x0A \<notin> set (''default dev '' @ d)"
      by (auto simp: printable_word_def list_all_iff)
    then have "str_lines (''default dev '' @ d) = [join '' '' ([''default''] @ [''dev'', d] @ [])]"
      by (subst str_lines_single) simp_all
    moreover have "\<forall>t \<in> set ([''default''] @ d # []). printable_word t" "''dev'' \<notin> set [''default'']"
      using that by (simp_all add: printable_word_def)
    ultimately show ?thesis unfolding lists_route_def option.case by blast
  qed
  have none: "lists_route [] None" by (simp add: lists_route_def str_lines_def)
  show ?thesis
    unfolding ip_shows_def
  proof (intro allI)
    fix w :: demo_routes and p
    show "case os_command demo_route_os ''ip'' [''route'', ''show'', p] w of (r, w') \<Rightarrow>
        w' = w \<and> (\<forall>out. r = Ok out \<and> po_success out \<longrightarrow> lists_route (po_stdout out) (w p))"
      using listed none
      by (cases "w p") (simp_all add: demo_route_os_def demo_ip_def numeral_2_eq_2)
  qed
qed

subsection \<open>Properties\<close>

text \<open>C16: a setup installs its routes in a fixed order, up to the first that fails: first the direct
routes of the distinct excluded prefixes, then a host route for every transport endpoint that the
tunnel would capture, and only then the tunnel's own prefixes (a default route as its two halves).
So no tunnel route is ever there while one of the exceptions is missing, and the tunnel cannot
swallow its own transport.\<close>

theorem setup_follows_plan:
  "case setup_inner L T sys R (w, route_manager_new tun) of (r, (w', rm)) \<Rightarrow>
    (\<exists>n. map entry_key (rm_installed rm) = take n (direct_plan L T R @ tunnel_plan L T R)
       \<and> (r = Ok () \<longleftrightarrow> n = length (direct_plan L T R @ tunnel_plan L T R)))
    \<and> ((\<exists>e \<in> set (rm_installed rm). ir_kind e = TunRoute) \<longrightarrow>
         set (direct_plan L T R) \<subseteq> entry_key ` set (rm_installed rm))"
proof -
  obtain r w' rm where run: "setup_inner L T sys R (w, route_manager_new tun) = (r, (w', rm))"
    by (rule prod_cases3)
  let ?plan = "direct_plan L T R @ tunnel_plan L T R"
  from installsD [OF installs_setup [of L T sys R], of "(w, route_manager_new tun)"]
  have "grown ?plan (w, route_manager_new tun) (r, (w', rm))" unfolding run .
  then obtain n where n: "map entry_key (rm_installed rm) = take n ?plan"
    and len: "case r of Inl e \<Rightarrow> n < length ?plan | Inr _ \<Rightarrow> n = length ?plan"
    by (auto simp: grown_def route_manager_new_def)
  from len have "r = Ok () \<longleftrightarrow> n = length ?plan" by (cases r) auto
  moreover have "set (direct_plan L T R) \<subseteq> entry_key ` set (rm_installed rm)"
    if "e \<in> set (rm_installed rm)" "ir_kind e = TunRoute" for e
  proof (cases "length (direct_plan L T R) \<le> n")
    case True
    then have "map entry_key (rm_installed rm)
        = direct_plan L T R @ take (n - length (direct_plan L T R)) (tunnel_plan L T R)"
      by (simp add: n)
    from arg_cong [OF this, of set] show ?thesis by (simp only: set_map set_append) blast
  next
    case False
    then have "map entry_key (rm_installed rm) = take n (direct_plan L T R)" by (simp add: n)
    then have "entry_key ` set (rm_installed rm) \<subseteq> set (direct_plan L T R)"
      using set_take_subset [of n "direct_plan L T R"] by (metis set_map)
    with that have "(TunRoute, ir_spec e) \<in> set (direct_plan L T R)" by force
    then show ?thesis by (auto simp: direct_plan_def)
  qed
  ultimately show ?thesis using n by (auto simp: run)
qed

theorem setup_follows_plan_witness:
  "case setup_inner demo_libs demo_texts demo_route_os demo_router (\<lambda>_. None, route_manager_new ''tun0'') of
    (r, (w', rm)) \<Rightarrow> (\<exists>e \<in> set (rm_installed rm). ir_kind e = TunRoute) \<longrightarrow>
      set (direct_plan demo_libs demo_texts demo_router) \<subseteq> entry_key ` set (rm_installed rm)"
  using setup_follows_plan [where L = demo_libs and T = demo_texts and sys = demo_route_os and R = demo_router
      and w = "\<lambda>_. None" and tun = "''tun0''"]
  by (auto split: prod.splits)

text \<open>C27: against a routing table that the program \<open>ip\<close> maintains as documented, a setup is all or
nothing and reversible: if it fails, the table is exactly the one from before it, and if it
succeeds, every planned route is recorded and the cleanup leads back to that table, whatever
routes it had.\<close>

theorem setup_reversible:
  assumes "ip_adds sys dest tab" and "ip_deletes sys dest tab"
  shows "case route_setup L T sys R (w, route_manager_new tun) of
      (Inl e, (w', rm)) \<Rightarrow> tab w' = tab w \<and> rm_installed rm = []
    | (Inr _, s) \<Rightarrow> map entry_key (rm_installed (snd s)) = direct_plan L T R @ tunnel_plan L T R
        \<and> tab (route_cleanup sys (show_status T) s) = tab w"
proof -
  obtain r w' rm where run: "setup_inner L T sys R (w, route_manager_new tun) = (r, (w', rm))"
    by (rule prod_cases3)
  have "tracked dest tab (tab w) (w, route_manager_new tun)"
    by (simp add: tracked_def route_manager_new_def)
  from preservesD [OF preserves_setup [OF assms(1)] this, of L T R]
  have "added_to dest (tab w) (rev (rm_installed rm)) (tab w')" by (simp add: run tracked_def)
  note undone = cleanup_law [OF assms this]
  show ?thesis
  proof (cases r)
    case (Inl e)
    with run undone show ?thesis by (simp add: route_setup_def)
  next
    case (Inr x)
    from installsD [OF installs_setup [of L T sys R], of "(w, route_manager_new tun)"]
    have "grown (direct_plan L T R @ tunnel_plan L T R) (w, route_manager_new tun) (r, (w', rm))" unfolding run .
    with Inr run undone show ?thesis by (auto simp: grown_def route_setup_def route_cleanup_def route_manager_new_def)
  qed
qed

theorem setup_reversible_witness:
  "case route_setup demo_libs demo_texts demo_route_os demo_router (\<lambda>_. None, route_manager_new ''tun0'') of
      (Inl e, (w', rm)) \<Rightarrow> w' = (\<lambda>_. None)
    | (Inr _, s) \<Rightarrow> route_cleanup demo_route_os (show_status demo_texts) s = (\<lambda>_. None)"
  using setup_reversible [OF demo_adds demo_deletes, where L = demo_libs and T = demo_texts
      and R = demo_router and w = "\<lambda>_. None" and tun = "''tun0''"]
  by (auto split: prod.splits sum.splits)

text \<open>A deletion that reports success has left no route for that prefix and device (or, without
a device, no route for that host), also when the program \<open>ip\<close> itself failed; it removes nothing
else; and one that reports a failure has changed nothing.\<close>

lemma deletion_verified:
  assumes "ip_shows sys dest tab" and "deletes_or_fails sys dest tab args p"
    and "delete_linux_route sys status args p dev w = (r, w')"
  shows "case r of Inl e \<Rightarrow> tab w' = tab w
    | Inr _ \<Rightarrow> route_gone (tab w') (dest p) dev \<and> (tab w' = tab w \<or> tab w' = (tab w)(dest p := None))"
  by (rule delete_attempts_law [OF assms(1,2) assms(3) [unfolded delete_linux_route_def]])

lemma deletion_verified_witness:
  "case delete_linux_route demo_route_os (\<lambda>_. []) [''route'', ''del'', ''10.0.0.0/8'', ''dev'', ''tun0'']
      ''10.0.0.0/8'' (Some ''tun0'') [''10.0.0.0/8'' \<mapsto> ''tun0''] of
    (Inl e, w') \<Rightarrow> w' = [''10.0.0.0/8'' \<mapsto> ''tun0''] | (Inr _, w') \<Rightarrow> w' ''10.0.0.0/8'' \<noteq> Some ''tun0''"
proof -
  obtain r w' where d: "delete_linux_route demo_route_os (\<lambda>_. []) [''route'', ''del'', ''10.0.0.0/8'', ''dev'', ''tun0'']
      ''10.0.0.0/8'' (Some ''tun0'') [''10.0.0.0/8'' \<mapsto> ''tun0''] = (r, w')"
    by (rule prod.exhaust)
  from deletion_verified [OF demo_shows demo_deletes_or_fails d] show ?thesis
    unfolding d by (cases r) (simp_all add: route_gone_def)
qed

end
