(* ===== verification/Tunnel_Props.thy ===== *)
theory Tunnel_Props
  imports Tunnel Routing_Props
begin

text \<open>
  Properties of the daemon: packet information on a TUN device, that no round of its loops can
  panic, that every interleaving of the loops keeps the engine reachable, and what preparation and
  clean-up leave of the routing table and the firewall.
\<close>

subsection \<open>The loops work by engine operations\<close>

lemma send_engine_frame_step:
  "send_engine_frame io en name endpoint frame w = (b, en', w') \<Longrightarrow> (engine_step L E)\<^sup>*\<^sup>* en en'"
  using do_sent [of L E en name "length frame"]
  by (auto simp: send_engine_frame_def split: prod.splits sum.splits)

lemma send_actions_steps: "send_actions io en as w = (en', w') \<Longrightarrow> (engine_step L E)\<^sup>*\<^sup>* en en'"
proof (induction io en as w rule: send_actions.induct)
  case (2 io en name endpoint frame as w)
  obtain b en1 w1 where s: "send_engine_frame io en name endpoint frame w = (b, en1, w1)"
    by (rule prod_cases3)
  with 2 have "(engine_step L E)\<^sup>*\<^sup>* en1 en'" by simp
  with send_engine_frame_step [OF s] show ?case by (rule rtranclp_trans)
qed auto

lemma send_scheduled_steps: "send_scheduled io en ss w = (en', w') \<Longrightarrow> (engine_step L E)\<^sup>*\<^sup>* en en'"
proof (induction ss arbitrary: en w)
  case (Cons s ss)
  obtain en1 w1 where s: "send_engine_transport_output io en (so_output s) w = (en1, w1)"
    by (cases "send_engine_transport_output io en (so_output s) w")
  with Cons have "(engine_step L E)\<^sup>*\<^sup>* en1 en'" by simp
  with send_actions_steps [OF s [unfolded send_engine_transport_output_def]] show ?case by (rule rtranclp_trans)
qed simp

lemma inbound_actions_steps:
  "inbound_actions io pi en as w = (r, en', w') \<Longrightarrow> (engine_step L E)\<^sup>*\<^sup>* en en'"
proof (induction io pi en as w rule: inbound_actions.induct)
  case (2 io pi en name endpoint frame as w)
  obtain b en1 w1 where s: "send_engine_frame io en name endpoint frame w = (b, en1, w1)"
    by (rule prod_cases3)
  with 2 have "(engine_step L E)\<^sup>*\<^sup>* en1 en'" by simp
  with send_engine_frame_step [OF s] show ?case by (rule rtranclp_trans)
next
  case (3 io pi en name source packet as w)
  then show ?case by (auto split: sum.splits option.splits prod.splits)
qed auto

lemma tun_to_transport_steps:
  assumes "tun_to_transport L E io pi r en w = (en', w')"
  shows "(engine_step L E)\<^sup>*\<^sup>* en en'"
proof (cases "\<exists>packet frame v. r = Ok packet \<and> strip_packet_information packet pi = Some frame \<and> ipv4_parse frame = Ok v")
  case True
  then obtain packet frame v where r: "r = Ok packet" "strip_packet_information packet pi = Some frame"
    "ipv4_parse frame = Ok v" by blast
  obtain now w1 where now: "instant_now E w = (now, w1)" by (cases "instant_now E w")
  obtain q en1 w2 where out: "process_outbound_ip L E en frame now w1 = (q, en1, w2)" by (rule prod_cases3)
  note first = do_outbound [OF out]
  show ?thesis
  proof (cases q)
    case (Inl e)
    with assms r now out first show ?thesis by (simp add: tun_to_transport_def r_into_rtranclp)
  next
    case (Inr x)
    with assms r now out have "send_actions io en1 (out_actions x) w2 = (en', w')"
      by (simp add: tun_to_transport_def)
    from converse_rtranclp_into_rtranclp [OF first send_actions_steps [OF this]] show ?thesis .
  qed
next
  case False
  with assms show ?thesis by (auto simp: tun_to_transport_def split: sum.splits option.splits)
qed

lemma transport_to_tun_steps:
  assumes "transport_to_tun E io pi received en w = (r, en', w')"
  shows "(engine_step L E)\<^sup>*\<^sup>* en en'"
proof (cases "\<exists>frame source. received = Ok (frame, source) \<and> decode_packet frame \<noteq> None")
  case True
  then obtain frame source p where rcv: "received = Ok (frame, source)" "decode_packet frame = Some p" by blast
  obtain now w1 where now: "instant_now E w = (now, w1)" by (cases "instant_now E w")
  obtain q en1 w2 where out: "process_inbound_transport E en frame source now w1 = (q, en1, w2)" by (rule prod_cases3)
  note first = do_inbound [OF out, of L]
  show ?thesis
  proof (cases q)
    case (Inl e)
    with assms rcv now out first show ?thesis by (simp add: transport_to_tun_def r_into_rtranclp)
  next
    case (Inr x)
    with assms rcv now out have "inbound_actions io pi en1 (out_actions x) w2 = (r, en', w')"
      by (simp add: transport_to_tun_def)
    from converse_rtranclp_into_rtranclp [OF first inbound_actions_steps [OF this]] show ?thesis .
  qed
next
  case False
  with assms show ?thesis by (auto simp: transport_to_tun_def split: sum.splits option.splits)
qed

lemma maintenance_steps:
  assumes "maintenance E io sch en w = (sch', en', w')"
  shows "(engine_step L E)\<^sup>*\<^sup>* en en'"
proof -
  obtain now w1 where now: "instant_now E w = (now, w1)" by (cases "instant_now E w")
  obtain tick sch1 en1 w2 where tick: "scheduler_tick E (rebind_transport io) sch en now w1 = (tick, sch1, en1, w2)"
    by (rule prod_cases4)
  obtain en2 w3 where s: "send_scheduled io en1 (tk_outputs tick) w2 = (en2, w3)"
    by (cases "send_scheduled io en1 (tk_outputs tick) w2")
  from scheduler_tick_facts [OF tick, of L] have "(engine_step L E)\<^sup>*\<^sup>* en en1" by blast
  from rtranclp_trans [OF this send_scheduled_steps [OF s]] assms now tick s show ?thesis
    by (simp add: maintenance_def)
qed

text \<open>The daemon's engine under its three loops in any order.\<close>

inductive daemon_step ::
    "'net libs \<Rightarrow> ('hs, 'ts, 'w) runtime \<Rightarrow> 'w tunnel_io \<Rightarrow> bool
      \<Rightarrow> ('net, 'hs, 'ts) engine \<Rightarrow> ('net, 'hs, 'ts) engine \<Rightarrow> bool"
  for L E io pi where
  outbound: "tun_to_transport L E io pi r en w = (en', w') \<Longrightarrow> daemon_step L E io pi en en'"
| inbound: "transport_to_tun E io pi received en w = (r, en', w') \<Longrightarrow> daemon_step L E io pi en en'"
| timer: "maintenance E io sch en w = (sch', en', w') \<Longrightarrow> daemon_step L E io pi en en'"

inductive_cases daemon_stepE [elim!]: "daemon_step L E io pi en en'"

lemma daemon_step_steps: "daemon_step L E io pi en en' \<Longrightarrow> (engine_step L E)\<^sup>*\<^sup>* en en'"
  by (auto intro: tun_to_transport_steps transport_to_tun_steps maintenance_steps)

interpretation daemon: state_machine "\<lambda>en. en = engine_start R k" "daemon_step L E io pi"
    "engine_reachable L E R k" for L E io pi R k
proof
  show "engine_reachable L E R k en" if "en = engine_start R k" for en :: "('a, 'b, 'c) engine"
    using that by (rule reachable.start)
  show "engine_reachable L E R k en'" if "engine_reachable L E R k en" "daemon_step L E io pi en en'"
    for en en' :: "('a, 'b, 'c) engine"
    by (rule packet_engine.reachable_steps [OF daemon_step_steps [OF that(2)] that(1)])
qed

subsection \<open>No panic\<close>

lemma inbound_actions_fine:
  assumes "\<forall>name source packet. WriteIpPacket name source packet \<in> set as \<longrightarrow>
    ipv4_parse packet = Ok packet \<and> length packet \<le> MAX_PACKET_SIZE"
  shows "fst (inbound_actions io pi en as w) = Ok ()"
  using assms
proof (induction io pi en as w rule: inbound_actions.induct)
  case (2 io pi en name endpoint frame as w)
  then show ?case by (auto split: prod.splits)
next
  case (3 io pi en name source packet as w)
  from 3(2) have parse: "ipv4_parse packet = Ok packet" and "length packet \<le> MAX_PACKET_SIZE" by simp_all
  then obtain framed where
    out: "add_packet_information packet pi (MAX_PACKET_SIZE + PACKET_INFO_SIZE) = Some framed"
    by (cases pi) (simp_all add: add_packet_information_def)
  obtain q w1 where "tn_write_all io framed w = (q, w1)" by (cases "tn_write_all io framed w")
  with 3(1) [OF parse out] 3(2) parse out show ?case by simp
qed simp

text \<open>Documented behaviour of the Noise library: a plaintext fits the buffer it is read into.\<close>

definition reads_fit :: "('hs, 'ts, 'w) runtime \<Rightarrow> bool" where
  "reads_fit E \<longleftrightarrow> (\<forall>t c ct pt. ts_read E t c ct (length ct - AEAD_TAG_SIZE) = Ok pt \<longrightarrow>
    length pt \<le> length ct - AEAD_TAG_SIZE)"

lemma delivered_fits:
  assumes "reads_fit E" and "sm_wf (en_sessions en)"
    and "process_inbound_transport E en frame source now w = (Ok out, en', w')"
    and "WriteIpPacket name src packet \<in> set (out_actions out)"
  shows "ipv4_parse packet = Ok packet \<and> length packet \<le> length frame"
proof -
  from inbound_write [OF assms(3,4)] obtain sid c ct d st1 where
    d: "decode_packet frame = Some (PTransport sid c ct)"
      "decrypt_transport E (en_sessions en) sid c ct now = (Ok (Some d), st1)" "dt_payload d = packet"
    and parse: "ipv4_parse packet = Ok packet" by blast
  from decrypt_delivery [OF assms(2) d(2)] obtain a s where
    "session_at (en_sessions en) a = Some s"
    "ts_read E (transport s) c ct (length ct - AEAD_TAG_SIZE)
      = Ok (encode_transport_plaintext (dt_msg_type d) (dt_payload d))" by metis
  with assms(1) have "length (encode_transport_plaintext (dt_msg_type d) (dt_payload d)) \<le> length ct - AEAD_TAG_SIZE"
    unfolding reads_fit_def by blast
  then have "length (encode_transport_plaintext (dt_msg_type d) packet) \<le> length ct" by (simp add: d(3))
  then have "length packet \<le> length ct" by (simp add: frame_simps)
  moreover have "length ct \<le> length frame"
    using d(1) wire.dec_iff [of frame "PTransport sid c ct"] by (simp add: frame_simps)
  ultimately show ?thesis using parse by simp
qed

lemma transport_to_tun_fine:
  assumes "reads_fit E" and "sm_wf (en_sessions en)" and "length frame \<le> MAX_PACKET_SIZE"
  shows "fst (transport_to_tun E io pi (Ok (frame, source)) en w) = Ok ()"
proof -
  obtain now w1 where now: "instant_now E w = (now, w1)" by (cases "instant_now E w")
  obtain q en1 w2 where out: "process_inbound_transport E en frame source now w1 = (q, en1, w2)" by (rule prod_cases3)
  show ?thesis
  proof (cases q)
    case (Inr x)
    have "fst (inbound_actions io pi en1 (out_actions x) w2) = Ok ()"
      using delivered_fits [OF assms(1,2) out [unfolded Inr]] assms(3)
      by (intro inbound_actions_fine) (meson order_trans)
    with Inr now out show ?thesis by (simp add: transport_to_tun_def split: option.splits)
  qed (use now out in \<open>simp add: transport_to_tun_def split: option.splits\<close>)
qed

subsection \<open>Routes and firewall together\<close>

text \<open>The routing commands leave the firewall alone, and the firewall's commands the routes.\<close>

definition ip_keeps :: "'w os \<Rightarrow> ('w \<Rightarrow> 'v) \<Rightarrow> bool" where
  "ip_keeps sys view \<longleftrightarrow> (\<forall>args w. view (snd (os_command sys ''ip'' args w)) = view w)"

definition firewall_keeps :: "'w os \<Rightarrow> ('w \<Rightarrow> 'v) \<Rightarrow> bool" where
  "firewall_keeps sys view \<longleftrightarrow>
    (\<forall>args w. view (snd (os_command sys ''iptables'' args w)) = view w
      \<and> view (snd (os_command sys ''sysctl'' args w)) = view w)"

lemma io_call_keeps: "view (snd (f w)) = view w \<Longrightarrow> view (snd (io_context msg (io_call f) w)) = view w"
  by (cases "f w") (simp add: io_context_def io_call_def)

lemma io_then_keeps:
  assumes "view (snd (m w)) = view w" and "\<And>x w1. view (snd (k x w1)) = view w1"
  shows "view (snd (io_then m k w)) = view w"
proof -
  obtain r w1 where m: "m w = (r, w1)" by (cases "m w")
  with assms(1) have "view w1 = view w" by simp
  with m assms(2) show ?thesis by (cases r) (simp_all add: io_then_def)
qed

lemma run_checked_keeps: "ip_keeps sys view \<Longrightarrow> view (snd (run_checked sys ''ip'' args a b w)) = view w"
  unfolding run_checked_def ip_keeps_def by (intro io_then_keeps io_call_keeps) simp_all

lemma get_route_info_view:
  assumes "os_is_linux sys" and "ip_keeps sys view"
  shows "view (snd (get_route_info sys dst w)) = view w"
proof -
  obtain r w1 where c: "os_command sys ''ip'' [''route'', ''get'', dst] w = (r, w1)"
    by (cases "os_command sys ''ip'' [''route'', ''get'', dst] w")
  with assms(2) have "view w1 = view w" unfolding ip_keeps_def by (metis snd_conv)
  with c assms(1) show ?thesis
    by (cases r) (auto simp: get_route_info_def io_then_def io_context_def io_call_def
        split: list.splits prod.splits option.splits)
qed

lemma preserves_view:
  assumes "\<And>w. view (snd (m w)) = view w"
  shows "preserves (io_context msg (on_system m)) (\<lambda>s. view (fst s) = v)"
  unfolding preserves_def
proof (intro allI impI)
  fix s :: "'a \<times> route_manager" assume v: "view (fst s) = v"
  obtain r w1 where m: "m (fst s) = (r, w1)" by (cases "m (fst s)")
  with assms [of "fst s"] v show "view (fst (snd (io_context msg (on_system m) s))) = v"
    by (simp add: io_context_def on_system_def)
qed

lemma preserves_push_view: "preserves (push_installed kind p d) (\<lambda>s. view (fst s) = v)"
  by (simp add: preserves_def push_installed_def)

lemma setup_view:
  assumes linux: "os_is_linux sys" and keeps: "ip_keeps sys view"
  shows "preserves (setup_inner L T sys (R :: 'net router)) (\<lambda>s. view (fst s) = v)"
proof -
  note commands = linux run_checked_keeps [OF keeps] add_route_to_dev_def add_host_route_via_def
    add_host_route_dev_def add_prefix_route_via_def add_prefix_route_dev_def get_route_info_view [OF assms]
  note one = preserves_then preserves_nothing preserves_view preserves_push_view
  have tun: "preserves (add_tun_route sys p) (\<lambda>s. view (fst s) = v)" for p
    unfolding preserves_def
  proof (intro allI impI)
    fix s :: "'a managed" assume P: "view (fst s) = v"
    show "view (fst (snd (add_tun_route sys p s))) = v"
      unfolding add_tun_route_def Let_def
      by (rule preservesD [where P = "\<lambda>s. view (fst s) = v", OF _ P]) (intro one, simp add: commands)
  qed
  have endpoint: "preserves (add_endpoint_exception sys ip) (\<lambda>s. view (fst s) = v)" for ip
    unfolding preserves_def
  proof (intro allI impI)
    fix s :: "'a managed" assume P: "view (fst s) = v"
    show "view (fst (snd (add_endpoint_exception sys ip s))) = v"
      unfolding add_endpoint_exception_def Let_def
      by (rule preservesD [where P = "\<lambda>s. view (fst s) = v", OF _ P])
        (intro one, auto simp: commands split: prod.splits option.splits intro!: one)
  qed
  have prefix: "preserves (add_prefix_exception L T sys x) (\<lambda>s. view (fst s) = v)" for x
    unfolding add_prefix_exception_def Let_def
    by (intro one) (auto simp: commands split: prod.splits option.splits intro!: one)
  note parts = preserves_then preserves_nothing tun endpoint prefix
  have "preserves (add_exclusions L T sys rs seen) (\<lambda>s. view (fst s) = v)" for rs seen
    by (induction rs arbitrary: seen) (auto intro: parts)
  moreover have "preserves (add_endpoint_exceptions sys ps) (\<lambda>s. view (fst s) = v)" for ps :: "'net peer list"
    by (induction ps) (auto intro: parts)
  moreover have "preserves (add_tunnel_prefix L T sys x) (\<lambda>s. view (fst s) = v)" for x
    by (simp add: add_tunnel_prefix_def parts)
  then have "preserves (add_tunnel_routes L T sys rs) (\<lambda>s. view (fst s) = v)" for rs
    by (induction rs) (auto intro: parts)
  ultimately show ?thesis unfolding setup_inner_def by (intro preserves_then)
qed

lemma delete_attempts_view:
  assumes keeps: "ip_keeps sys view"
  shows "view (snd (delete_attempts sys status args p dev n failed check w)) = view w"
proof (induction n arbitrary: failed check w)
  case (Suc n)
  obtain q w1 where c: "os_command sys ''ip'' args w = (q, w1)" by (cases "os_command sys ''ip'' args w")
  with keeps have v1: "view w1 = view w" unfolding ip_keeps_def by (metis snd_conv)
  obtain b w2 where b: "linux_route_exists sys p dev w1 = (b, w2)" by (cases "linux_route_exists sys p dev w1")
  have "view (snd (linux_route_exists sys p dev w1)) = view w1"
    using keeps unfolding linux_route_exists_def ip_keeps_def
    by (intro io_then_keeps io_call_keeps) simp_all
  with b v1 have "view w2 = view w" by simp
  with Suc v1 c b show ?case
    by (cases q) (auto simp: io_context_def io_call_def split: sum.splits bool.splits)
qed simp

lemma cleanup_view:
  assumes linux: "os_is_linux sys" and keeps: "ip_keeps sys view"
  shows "view (cleanup_routes sys status es w) = view w"
proof -
  have "view (io_ignore (delete_installed sys status e) u) = view u" for e u
    by (cases "ir_kind e") (simp_all add: io_ignore_def delete_installed_def del_tun_route_def del_host_route_def
        del_prefix_exception_def delete_linux_route_def linux delete_attempts_view [OF keeps])
  then have "view (fold (\<lambda>e w. io_ignore (delete_installed sys status e) w) fs u) = view u" for fs u
    by (induction fs arbitrary: u) simp_all
  then show ?thesis by (simp add: cleanup_routes_def)
qed

lemma write_forward_view: "firewall_keeps sys view \<Longrightarrow> view (snd (fw_write_ip_forward sys v w)) = view w"
  unfolding fw_write_ip_forward_def fw_write_ip_forward_linux_def fw_write_ip_forward_macos_def firewall_keeps_def
  by (cases "os_is_linux sys") (simp_all add: io_then_keeps io_call_keeps)

lemma read_forward_view: "os_is_linux sys \<Longrightarrow> snd (fw_read_ip_forward sys w) = w"
  by (cases "os_read sys ''/proc/sys/net/ipv4/ip_forward'' w")
    (simp_all add: fw_read_ip_forward_def io_then_def io_context_def io_query_def)

lemma enable_view:
  assumes "os_is_linux sys" and "firewall_keeps sys view"
  shows "view (fst (snd (enable_ip_forward sys s))) = view (fst s)"
proof -
  obtain r w where r: "fw_read_ip_forward sys (fst s) = (r, w)" by (cases "fw_read_ip_forward sys (fst s)")
  with read_forward_view [OF assms(1), of "fst s"] have "w = fst s" by simp
  moreover have "view (fst (snd (on_system (fw_write_ip_forward sys v) (fst s, fm)))) = view (fst s)"
    for v and fm :: firewall_manager
    using write_forward_view [OF assms(2), of v "fst s"]
    by (cases "fw_write_ip_forward sys v (fst s)") (simp add: on_system_def)
  ultimately show ?thesis using r by (simp add: enable_ip_forward_def Let_def)
qed

lemma add_rule_view:
  assumes "firewall_keeps sys view"
  shows "view (fst (snd (add_iptables_rule sys t c spec s))) = view (fst s)"
proof -
  obtain q w' where r: "fw_run_iptables sys t c ''-A'' spec (fst s) = (q, w')"
    by (cases "fw_run_iptables sys t c ''-A'' spec (fst s)")
  have "view (snd (fw_run_iptables sys t c ''-A'' spec (fst s))) = view (fst s)"
    using assms unfolding fw_run_iptables_def firewall_keeps_def by (intro io_call_keeps) simp
  with r show ?thesis
    by (cases q) (simp_all add: add_iptables_rule_def io_then_def on_system_def push_rule_def)
qed

lemma firewall_setup_view:
  assumes "os_is_linux sys" and "firewall_keeps sys view"
  shows "view (fst (snd (firewall_setup sys s))) = view (fst s)"
  unfolding firewall_setup_def Let_def
  by (rule io_then_keeps [where view = "\<lambda>s. view (fst s)"] enable_view [OF assms] add_rule_view [OF assms(2)])+

lemma firewall_cleanup_view:
  assumes "firewall_keeps sys view"
  shows "view (firewall_cleanup sys fm w) = view w"
proof -
  have "view (snd (del_iptables_rule sys r u)) = view u" for r u
    using assms unfolding del_iptables_rule_def fw_run_iptables_def firewall_keeps_def
    by (intro io_then_keeps io_call_keeps) simp_all
  then have "view (fold (\<lambda>rule w. io_ignore (del_iptables_rule sys rule) w) rs u) = view u" for rs u
    by (induction rs arbitrary: u) (simp_all add: io_ignore_def)
  with write_forward_view [OF assms] show ?thesis
    by (simp add: firewall_cleanup_def Let_def io_ignore_def split: option.splits)
qed

lemma route_setup_view:
  assumes "os_is_linux sys" and "ip_keeps sys view"
  shows "view (fst (snd (route_setup L T sys R s))) = view (fst s)"
proof -
  obtain r w' rm where run: "setup_inner L T sys R s = (r, (w', rm))" by (rule prod_cases3)
  from preservesD [OF setup_view [OF assms, where v = "view (fst s)"], of s L T R] run
  have "view w' = view (fst s)" by simp
  with run cleanup_view [OF assms] show ?thesis by (cases r) (simp_all add: route_setup_def)
qed

lemma added_present: "added_to dest m0 es m \<Longrightarrow> e \<in> set es \<Longrightarrow> m (dest (ir_spec e)) \<noteq> None"
proof (induction es arbitrary: m)
  case (Cons x es)
  then obtain m' d where "added_to dest m0 es m'" "m = m'(dest (ir_spec x) \<mapsto> d)" by auto
  with Cons show ?case by (cases "e = x") auto
qed simp

text \<open>What a successful route set-up left.\<close>

lemma route_setup_Ok:
  assumes "ip_adds sys dest tab" and "route_setup L T sys R (w, route_manager_new tun) = (Ok (), (w1, rm))"
  shows "added_to dest (tab w) (rev (rm_installed rm)) (tab w1)
    \<and> map entry_key (rm_installed rm) = direct_plan L T R @ tunnel_plan L T R"
proof -
  obtain r w' rm' where run: "setup_inner L T sys R (w, route_manager_new tun) = (r, (w', rm'))"
    by (rule prod_cases3)
  with assms(2) have r: "r = Ok ()" "w' = w1" "rm' = rm" by (cases r; simp add: route_setup_def)+
  have "tracked dest tab (tab w) (w, route_manager_new tun)"
    by (simp add: tracked_def route_manager_new_def)
  from preservesD [OF preserves_setup [OF assms(1)] this, of L T R]
  have "added_to dest (tab w) (rev (rm_installed rm)) (tab w1)" by (simp add: run r tracked_def)
  moreover from installsD [OF installs_setup [of L T sys R], of "(w, route_manager_new tun)"]
  have "grown (direct_plan L T R @ tunnel_plan L T R) (w, route_manager_new tun) (Ok (), (w1, rm))"
    unfolding run r .
  ultimately show ?thesis by (auto simp: grown_def route_manager_new_def)
qed

lemma routes_undone:
  assumes "ip_adds sys dest tab" and "ip_deletes sys dest tab"
    and "route_setup L T sys R (w, route_manager_new tun) = (Ok (), (w1, rm))" and "tab w2 = tab w1"
  shows "tab (cleanup_routes sys status (rm_installed rm) w2) = tab w"
  using route_setup_Ok [OF assms(1,3)] by (intro cleanup_law [OF assms(1,2)]) (simp add: assms(4))

subsection \<open>A concrete system\<close>

type_synonym demo_system = "demo_routes \<times> demo_wall"

text \<open>With \<open>works\<close> false, \<open>iptables\<close> fails.\<close>

definition demo_system_command ::
    "bool \<Rightarrow> string \<Rightarrow> string list \<Rightarrow> demo_system \<Rightarrow> (string, process_output) result \<times> demo_system" where
  "demo_system_command works program args w =
    (if program = ''ip'' then (case demo_ip args (fst w) of (r, a) \<Rightarrow> (r, (a, snd w)))
     else if program = ''iptables'' \<and> \<not> works then (demo_reply 1 [], w)
     else (case os_command demo_wall_os program args (snd w) of (r, b) \<Rightarrow> (r, (fst w, b))))"

definition demo_system_os :: "bool \<Rightarrow> demo_system os" where
  "demo_system_os works = \<lparr>os_is_linux = True, os_euid = 0, os_env = (\<lambda>_. None),
     os_command = demo_system_command works,
     os_exists = (\<lambda>_ _. True), os_read = (\<lambda>_ w. Ok (demo_switch (snd w))), os_read_link = (\<lambda>_ _. Err []),
     os_read_dir = (\<lambda>_ _. Err []), os_create_dir_all = (\<lambda>_ w. (Ok (), w)),
     os_set_permissions = (\<lambda>_ _ w. (Ok (), w)), os_create_new = (\<lambda>_ w. (Ok (), w)),
     os_write_all = (\<lambda>_ _ w. (Ok (), w)), os_write = (\<lambda>_ _ w. (Ok (), w)),
     os_remove_file = (\<lambda>_ w. (Ok (), w)), os_open = (\<lambda>_ w. (Ok (), w)),
     os_lock_exclusive = (\<lambda>_ w. (Ok (), w)), os_unlock = (\<lambda>_ w. w)\<rparr>"

lemma demo_system_simps [simp]:
  "os_is_linux (demo_system_os works)"
  "os_command (demo_system_os works) = demo_system_command works"
  "os_read (demo_system_os works) path w = Ok (demo_switch (snd w))"
  by (simp_all add: demo_system_os_def)

lemma demo_system_ip: "demo_system_command works ''ip'' args w = (case demo_ip args (fst w) of (r, a) \<Rightarrow> (r, (a, snd w)))"
  by (simp add: demo_system_command_def)

lemma demo_system_wall:
  assumes "program \<noteq> ''ip''"
  shows "demo_system_command True program args w
    = (case os_command demo_wall_os program args (snd w) of (r, b) \<Rightarrow> (r, (fst w, b)))"
  using assms by (simp add: demo_system_command_def)

lemma demo_system_adds: "ip_adds (demo_system_os works) (\<lambda>p. p) fst"
  by (simp add: ip_adds_def demo_system_ip demo_ip_def route_added_def numeral_2_eq_2)

lemma demo_system_deletes: "ip_deletes (demo_system_os works) (\<lambda>p. p) fst"
  by (simp add: ip_deletes_def demo_system_ip demo_ip_def numeral_2_eq_2 numeral_3_eq_3)

lemma demo_system_wall_laws:
  "appends_rules (demo_system_os True) (\<lambda>w. fst (snd w)) (\<lambda>w. demo_switch (snd w))"
  "deletes_rules (demo_system_os True) (\<lambda>w. fst (snd w)) (\<lambda>w. demo_switch (snd w))"
  by (simp_all add: appends_rules_def deletes_rules_def demo_system_wall demo_wall_os_def demo_iptables_args
      demo_switch_def)

lemma demo_system_switches:
  "switches_forwarding (demo_system_os True) (\<lambda>w. fst (snd w)) (\<lambda>w. demo_switch (snd w))"
  by (auto simp: switches_forwarding_def demo_system_wall demo_wall_os_def demo_switch_def fw_read_ip_forward_def
      fw_write_ip_forward_def io_then_def io_context_def io_query_def io_call_def demo_done_def po_success_def)

lemma demo_system_separate:
  "ip_keeps (demo_system_os works) (\<lambda>w. fst (snd w))" "ip_keeps (demo_system_os works) (\<lambda>w. demo_switch (snd w))"
  "firewall_keeps (demo_system_os works) fst"
  by (simp_all add: ip_keeps_def firewall_keeps_def demo_system_command_def split: prod.splits)

text \<open>One tunnel route, and a peer whose endpoint needs no exception.\<close>

definition demo_spec :: string where
  "demo_spec = show_ipv4 167772161 @ ''/32''"

definition demo_small_router :: "demo_net router" where
  "demo_small_router = \<lparr>routes = [\<lparr>route_prefix = (167772161, 32),
     route_peer = \<lparr>peer_name = ''b'', peer_endpoint_addr = V4 0 0, configured_endpoint = endpoint_of_addr (V4 0 0),
       excluded_ips = [], peer_psk = map of_char (demo_key (CHR ''q'')), peer_public_key = map of_char (demo_key (CHR ''l'')),
       persistent_keepalive = 5, udp_rebind_after = 0, session_timeout = 20\<rparr>\<rparr>], excluded_routes = []\<rparr>"

definition demo_small_config :: "demo_net config" where
  "demo_small_config = demo_config\<lparr>cfg_peer := [demo_peer_b]\<rparr>"

lemma demo_small_router_new: "router_new demo_libs demo_small_config = Ok demo_small_router"
  by (simp add: demo_small_router_def demo_small_config_def router_new_def demo_defs peer_from_config_def
      decode_key_def decode_psk_def endpoint_resolve_def endpoint_of_addr_def check_then_def reverse_len_def
      effective_session_timeout_def)

lemma demo_small_plan:
  "endpoint_exception_peers demo_libs demo_small_router = []"
  "direct_plan demo_libs demo_texts demo_small_router @ tunnel_plan demo_libs demo_texts demo_small_router
    = [(TunRoute, demo_spec)]"
proof -
  show "endpoint_exception_peers demo_libs demo_small_router = []"
    by (simp add: endpoint_exception_peers_def demo_small_router_def)
  then show "direct_plan demo_libs demo_texts demo_small_router @ tunnel_plan demo_libs demo_texts demo_small_router
    = [(TunRoute, demo_spec)]"
    by (simp add: direct_plan_def tunnel_plan_def) (simp add: demo_small_router_def tunnel_specs_def demo_libs_def demo_spec_def)
qed

lemma demo_routed:
  "route_setup demo_libs demo_texts (demo_system_os works) demo_small_router ((\<lambda>_. None, wall), route_manager_new ''tun0'')
    = (Ok (), (([demo_spec \<mapsto> ''tun0''], wall), \<lparr>rm_tun_name = ''tun0'',
        rm_installed = [\<lparr>ir_kind = TunRoute, ir_spec = demo_spec, ir_tun_name = ''tun0''\<rparr>]\<rparr>))"
proof -
  have add: "add_route_to_dev (demo_system_os works) p d (\<lambda>_. None, wall) = (Ok (), ([p \<mapsto> d], wall))" for p d
    by (simp add: add_route_to_dev_def run_checked_def io_then_def io_context_def io_call_def demo_system_ip
        demo_ip_def demo_reply_def po_success_def numeral_2_eq_2)
  have "add_tun_route (demo_system_os works) demo_spec ((\<lambda>_. None, wall), route_manager_new ''tun0'')
      = (Ok (), (([demo_spec \<mapsto> ''tun0''], wall), \<lparr>rm_tun_name = ''tun0'',
          rm_installed = [\<lparr>ir_kind = TunRoute, ir_spec = demo_spec, ir_tun_name = ''tun0''\<rparr>]\<rparr>))"
    by (simp add: add_tun_route_def route_manager_new_def Let_def io_then_def io_context_def on_system_def add
        push_installed_def)
  moreover have "add_tunnel_prefix demo_libs demo_texts (demo_system_os works) (167772161, 32)
      = add_tun_route (demo_system_os works) demo_spec"
    by (simp add: add_tunnel_prefix_def demo_libs_def demo_spec_def)
  moreover obtain r where "routes demo_small_router = [r]" "route_prefix r = (167772161, 32)"
    by (simp add: demo_small_router_def)
  moreover have "excluded_routes demo_small_router = []" by (simp add: demo_small_router_def)
  ultimately show ?thesis
    by (simp add: route_setup_def setup_inner_def demo_small_plan(1) io_then_def del: append.simps)
qed

lemma demo_prepared:
  "\<exists>c w1. tunnel_prepare demo_libs demo_texts (demo_system_os True) demo_config demo_small_router True
    (\<lambda>_. None, (\<lambda>_. [], False)) = (Ok c, w1)"
proof -
  have "if_name (cfg_interface demo_config) = ''tun0''" by (simp add: demo_config_def)
  with demo_routed [of True "(\<lambda>_. [], False)"] show ?thesis
    by (auto simp: tunnel_prepare_def Let_def firewall_setup_def firewall_new_def enable_ip_forward_def
        fw_read_ip_forward_def fw_write_ip_forward_def io_then_def io_context_def io_query_def io_call_def
        demo_switch_def on_system_def demo_system_wall demo_wall_os_def demo_done_def po_success_def
        add_iptables_rule_def fw_run_iptables_def demo_iptables_args push_rule_def)
qed

lemma demo_unprepared:
  "\<exists>e w1. tunnel_prepare demo_libs demo_texts (demo_system_os False) demo_config demo_small_router True
    (\<lambda>_. None, (\<lambda>_. [], True)) = (Err e, w1)"
proof -
  have "if_name (cfg_interface demo_config) = ''tun0''" by (simp add: demo_config_def)
  with demo_routed [of False "(\<lambda>_. [], True)"] show ?thesis
    by (auto simp: tunnel_prepare_def Let_def firewall_setup_def firewall_new_def enable_ip_forward_def
        fw_read_ip_forward_def io_then_def io_context_def io_query_def io_call_def
        demo_switch_def on_system_def demo_system_command_def demo_reply_def po_success_def
        add_iptables_rule_def fw_run_iptables_def)
qed

subsection \<open>Properties\<close>

text \<open>What the daemon writes to a TUN device with packet information is the packet behind the
header that it strips from packets it reads, and no packet that fits the receive buffer overruns
the output buffer; a frame too short for the header is dropped.\<close>

lemma packet_information_round_trip:
  assumes "length frame \<le> MAX_PACKET_SIZE"
  shows "\<exists>framed. add_packet_information frame pi (MAX_PACKET_SIZE + PACKET_INFO_SIZE) = Some framed
    \<and> strip_packet_information framed pi = Some frame
    \<and> length framed \<le> MAX_PACKET_SIZE + PACKET_INFO_SIZE"
  using assms
  by (cases pi) (auto simp: add_packet_information_def strip_packet_information_def PACKET_INFO_SIZE_def
      to_be_bytes_u32_def)

lemma packet_information_round_trip_witness:
  "\<exists>framed. add_packet_information [69, 0] True (MAX_PACKET_SIZE + PACKET_INFO_SIZE) = Some framed
    \<and> strip_packet_information framed True = Some [69, 0]"
  using packet_information_round_trip [of "[69, 0]" True] by (auto simp: MAX_PACKET_SIZE_def)

text \<open>C8: the daemon composes the engine with its device and its transport: however its three loops
take turns, the engine is one that its own operations reach, so that every guarantee of the engine
and of the session manager holds in the running daemon; and no frame that the transport can receive
makes it panic, neither by a packet that is not IPv4 nor by one that overruns the output buffer.\<close>

theorem daemon_refines_engine:
  assumes "(daemon_step L E io pi)\<^sup>*\<^sup>* (engine_start R k) en" and "reads_fit E"
  shows "engine_reachable L E R k en \<and> ids_unique (en_sessions en)
    \<and> (\<forall>frame source w. length frame \<le> MAX_PACKET_SIZE \<longrightarrow>
         fst (transport_to_tun E io pi (Ok (frame, source)) en w) = Ok ())"
proof -
  have start: "engine_reachable L E R k (engine_start R k)" by (rule reachable.start) simp
  have en: "engine_reachable L E R k en"
    by (rule daemon.steps_inv [OF assms(1) start])
  from engine_reachable_wf [OF en] have "sm_wf (en_sessions en)" and "ids_unique (en_sessions en)"
    by (auto simp: sm_inv_def)
  with en transport_to_tun_fine [OF assms(2)] show ?thesis by blast
qed

definition demo_io :: "nat tunnel_io" where
  "demo_io = \<lparr>tn_send_to = (\<lambda>frame to w. (Ok (length frame), w + 1)), tn_write_all = (\<lambda>_ w. (Ok (), w)),
     tn_rebind = (\<lambda>w. (Ok True, w))\<rparr>"

theorem daemon_refines_engine_witness:
  "fst (transport_to_tun demo_runtime demo_io True (Ok (demo_frame, V4 1 2))
      (engine_start demo_router [] :: (demo_net, demo_hs, bytes) engine) 0) = Ok ()"
proof -
  have fits: "reads_fit demo_runtime" by (auto simp: reads_fit_def demo_runtime_def split: if_splits)
  have "length demo_frame \<le> MAX_PACKET_SIZE"
    by (simp add: demo_frame_def frame_simps length_demo_cipher MAX_PACKET_SIZE_def demo_packet_def
        SESSION_ID_SIZE_def TRANSPORT_HEADER_SIZE_def)
  with daemon_refines_engine [OF rtranclp.rtrancl_refl fits, where L = demo_libs and io = demo_io and pi = True
      and R = demo_router and k = "[]"]
  show ?thesis by blast
qed

text \<open>Preparing the daemon and cleaning up after it, with or without the exit node, leaves the
system as it was: the routing table, the rules of every firewall chain and the forwarding switch,
against programs that behave as documented.\<close>

lemma prepared_restores:
  assumes "ip_adds sys dest tab" and "ip_deletes sys dest tab" and "appends_rules sys rules forwarding"
    and "deletes_rules sys rules forwarding" and "switches_forwarding sys rules forwarding"
    and "ip_keeps sys rules" and "ip_keeps sys forwarding" and "firewall_keeps sys tab"
    and prep: "tunnel_prepare L T sys cfg R exit_node w = (Ok c, w1)"
    and later: "tab w2 = tab w1" "rules w2 = rules w1" "forwarding w2 = forwarding w1"
  shows "tab (cleanup_run sys (show_status T) c w2) = tab w
    \<and> (\<forall>loc. mset (rules (cleanup_run sys (show_status T) c w2) loc) = mset (rules w loc))
    \<and> forwarding (cleanup_run sys (show_status T) c w2) = forwarding w"
proof -
  have linux: "os_is_linux sys" using assms(1) by (simp add: ip_adds_def)
  let ?name = "if_name (cfg_interface cfg)"
  let ?fw = "firewall_new ?name (subnet_cidr L (if_address (cfg_interface cfg)))"
  obtain r u rm where routed: "route_setup L T sys R (w, route_manager_new ?name) = (r, (u, rm))"
    by (rule prod_cases3)
  with prep have "r = Ok ()" by (cases r) (simp_all add: tunnel_prepare_def Let_def)
  note routed = routed [unfolded this]
  have kept: "rules u = rules w" "forwarding u = forwarding w"
    using route_setup_view [OF linux assms(6), of L T R "(w, route_manager_new ?name)"]
      route_setup_view [OF linux assms(7), of L T R "(w, route_manager_new ?name)"]
    by (simp_all add: routed)
  note undone = routes_undone [OF assms(1,2) routed, of w2]
  note cleaned = cleanup_view [OF linux assms(6)] cleanup_view [OF linux assms(7)]
  show ?thesis
  proof (cases exit_node)
    case False
    with prep routed have "c = (rm_installed rm, None)" "w1 = u" by (simp_all add: tunnel_prepare_def Let_def)
    with undone kept cleaned later show ?thesis by (simp add: cleanup_run_def Let_def)
  next
    case True
    obtain q v fm where fw: "firewall_setup sys (u, ?fw) = (q, (v, fm))" by (rule prod_cases3)
    with prep routed True have c: "c = (rm_installed rm, Some fm)" "w1 = v"
      by (cases q; simp add: tunnel_prepare_def Let_def)+
    let ?x = "cleanup_routes sys (show_status T) (rm_installed rm) w2"
    from firewall_setup_view [OF linux assms(8), of "(u, ?fw)"] fw undone later(1) c(2) have "tab ?x = tab w" by simp
    then have "tab (firewall_cleanup sys fm ?x) = tab w" using firewall_cleanup_view [OF assms(8)] by simp
    moreover from firewall_setup_law [OF assms(3,5) fw] have "walled_from rules forwarding u (v, fm)" by simp
    then have "walled_from rules forwarding u (?x, fm)"
      using cleaned later(2,3) c(2) by (simp add: walled_from_def holds_rules_def)
    from firewall_cleanup_law [OF assms(4,5) this] kept
    have "(\<forall>loc. mset (rules (firewall_cleanup sys fm ?x) loc) = mset (rules w loc))
      \<and> forwarding (firewall_cleanup sys fm ?x) = forwarding w" by simp
    ultimately show ?thesis by (simp add: c cleanup_run_def Let_def)
  qed
qed

text \<open>C40: when the routes have been installed and then the firewall of the exit node fails, the daemon
ends with that error and leaves every route it installed behind: neither the routes nor the part of
the firewall that was set up are undone on this path.\<close>

theorem firewall_failure_leaves_routes:
  assumes "ip_adds sys dest tab" and "firewall_keeps sys tab"
    and routed: "route_setup L T sys R (w, route_manager_new (if_name (cfg_interface cfg))) = (Ok (), (w1, rm))"
    and fails: "tunnel_prepare L T sys cfg R True w = (Err e, w2)"
  shows "\<forall>(kind, spec) \<in> set (direct_plan L T R @ tunnel_plan L T R). tab w2 (dest spec) \<noteq> None"
proof -
  have linux: "os_is_linux sys" using assms(1) by (simp add: ip_adds_def)
  let ?fw = "firewall_new (if_name (cfg_interface cfg)) (subnet_cidr L (if_address (cfg_interface cfg)))"
  obtain q v fm where fw: "firewall_setup sys (w1, ?fw) = (q, (v, fm))" by (rule prod_cases3)
  with fails routed have "w2 = v" by (cases q; simp add: tunnel_prepare_def Let_def)
  with firewall_setup_view [OF linux assms(2), of "(w1, ?fw)"] fw have "tab w2 = tab w1" by simp
  moreover note left = route_setup_Ok [OF assms(1) routed]
  have "tab w1 (dest spec) \<noteq> None" if plan: "(kind, spec) \<in> set (direct_plan L T R @ tunnel_plan L T R)" for kind spec
  proof -
    from plan left have "(kind, spec) \<in> entry_key ` set (rm_installed rm)" by (metis set_map)
    then obtain e where "e \<in> set (rm_installed rm)" "ir_spec e = spec" by auto
    with left added_present [of dest "tab w" "rev (rm_installed rm)" "tab w1" e] show ?thesis by auto
  qed
  ultimately show ?thesis by auto
qed

theorem firewall_failure_leaves_routes_witness:
  "\<exists>e w2. tunnel_prepare demo_libs demo_texts (demo_system_os False) demo_config demo_small_router True
      (\<lambda>_. None, (\<lambda>_. [], True)) = (Err e, w2) \<and> fst w2 demo_spec \<noteq> None"
proof -
  have name: "if_name (cfg_interface demo_config) = ''tun0''" by (simp add: demo_config_def)
  obtain e w2 where p: "tunnel_prepare demo_libs demo_texts (demo_system_os False) demo_config demo_small_router True
      (\<lambda>_. None, (\<lambda>_. [], True)) = (Err e, w2)" using demo_unprepared by blast
  from firewall_failure_leaves_routes [OF demo_system_adds demo_system_separate(3) demo_routed [folded name] p]
  have "fst w2 demo_spec \<noteq> None" by (simp add: demo_small_plan)
  with p show ?thesis by blast
qed

end
