(* ===== verification/End_To_End.thy ===== *)
theory End_To_End
  imports Connection Engine_World Tunnel_Props
begin

text \<open>
  Two daemons of \<^verbatim>\<open>src/src/tunnel.rs\<close> with a network between them. A packet that the TUN device of
  one host gives goes through its loop, its engine and its transport; the frames this sends are
  received by the loop of the other host, which writes to its own device. The hosts are the values of
  \<open>bool\<close>; the world holds both. What is assumed of a host is that its calls do what they are for.
\<close>

subsection \<open>Hosts\<close>

text \<open>Views of the world: the latest time that can have been read, the frames sent and the packets
written to a device, each with the host that did it.\<close>

record 'w views =
  vw_time :: "'w \<Rightarrow> instant"
  vw_wire :: "'w \<Rightarrow> (bool \<times> bytes \<times> socket_addr) list"
  vw_device :: "'w \<Rightarrow> (bool \<times> bytes) list"

definition runtime_keeps :: "('hs, 'ts, 'w) runtime \<Rightarrow> 'w views \<Rightarrow> bool" where
  "runtime_keeps E V \<longleftrightarrow>
    (\<forall>w w'. runtime_step E w w' \<longrightarrow> vw_time V w \<le> vw_time V w' \<and> vw_wire V w' = vw_wire V w \<and> vw_device V w' = vw_device V w)
    \<and> (\<forall>w. fst (instant_now E w) \<le> vw_time V (snd (instant_now E w)))"

definition host_works :: "'w tunnel_io \<Rightarrow> 'w views \<Rightarrow> bool \<Rightarrow> bool" where
  "host_works io V h \<longleftrightarrow>
    (\<forall>frame endpoint w. \<exists>n w'. tn_send_to io frame endpoint w = (Ok n, w')
      \<and> vw_wire V w' = vw_wire V w @ [(h, frame, endpoint)] \<and> vw_device V w' = vw_device V w
      \<and> vw_time V w \<le> vw_time V w')
    \<and> (\<forall>packet w. \<exists>w'. tn_write_all io packet w = (Ok (), w')
      \<and> vw_device V w' = vw_device V w @ [(h, packet)] \<and> vw_wire V w' = vw_wire V w
      \<and> vw_time V w \<le> vw_time V w')"

lemma tunnel_sends:
  assumes "host_works io V h"
  obtains n w' where "tn_send_to io frame endpoint w = (Ok n, w')" and "vw_wire V w' = vw_wire V w @ [(h, frame, endpoint)]"
    and "vw_device V w' = vw_device V w" and "vw_time V w \<le> vw_time V w'"
  using assms unfolding host_works_def by blast

lemma tunnel_writes:
  assumes "host_works io V h"
  obtains w' where "tn_write_all io packet w = (Ok (), w')" and "vw_device V w' = vw_device V w @ [(h, packet)]"
    and "vw_wire V w' = vw_wire V w" and "vw_time V w \<le> vw_time V w'"
  using assms unfolding host_works_def by blast

lemma runtime_path_views:
  assumes "runtime_keeps E V"
  shows "runtime_path E w w' \<Longrightarrow> vw_time V w \<le> vw_time V w' \<and> vw_wire V w' = vw_wire V w \<and> vw_device V w' = vw_device V w"
proof (induction rule: rtranclp_induct)
  case (step w1 w2)
  with assms have "vw_time V w1 \<le> vw_time V w2 \<and> vw_wire V w2 = vw_wire V w1 \<and> vw_device V w2 = vw_device V w1"
    unfolding runtime_keeps_def by blast
  with step.IH show ?case by simp
qed simp

lemma tunnel_reads_clock:
  assumes "runtime_keeps E V"
  obtains t w' where "instant_now E w = (t, w')" and "t \<le> vw_time V w'" and "vw_time V w \<le> vw_time V w'"
    and "vw_wire V w' = vw_wire V w" and "vw_device V w' = vw_device V w"
proof -
  obtain t w' where now: "instant_now E w = (t, w')" by (cases "instant_now E w")
  with assms have "t \<le> vw_time V w'" unfolding runtime_keeps_def by (metis fst_conv snd_conv)
  with that [OF now] runtime_path_views [OF assms runtime_calls(2) [OF now]] show thesis by blast
qed

text \<open>Time does not go back in any round of a loop.\<close>

lemma send_actions_time: "host_works io V h \<Longrightarrow> send_actions io en as w = (en', w') \<Longrightarrow> vw_time V w \<le> vw_time V w'"
proof (induction io en as w rule: send_actions.induct)
  case (2 io en name endpoint frame as w)
  from tunnel_sends [OF 2(2)] obtain n w1 where "tn_send_to io frame endpoint w = (Ok n, w1)" "vw_time V w \<le> vw_time V w1" by metis
  with 2 show ?case by (force simp: send_engine_frame_def)
qed simp_all

lemma inbound_actions_time:
  "host_works io V h \<Longrightarrow> inbound_actions io pi en as w = (r, en', w') \<Longrightarrow> vw_time V w \<le> vw_time V w'"
proof (induction io pi en as w rule: inbound_actions.induct)
  case (2 io pi en name endpoint frame as w)
  from tunnel_sends [OF 2(2)] obtain n w1 where "tn_send_to io frame endpoint w = (Ok n, w1)" "vw_time V w \<le> vw_time V w1" by metis
  with 2 show ?case by (force simp: send_engine_frame_def)
next
  case (3 io pi en name source packet as w)
  show ?case
  proof (cases "\<exists>v out. ipv4_parse packet = Ok v \<and> add_packet_information packet pi (MAX_PACKET_SIZE + PACKET_INFO_SIZE) = Some out")
    case True
    then obtain v out where out: "ipv4_parse packet = Ok v"
      "add_packet_information packet pi (MAX_PACKET_SIZE + PACKET_INFO_SIZE) = Some out" by blast
    from tunnel_writes [OF 3(2)] obtain w1 where "tn_write_all io out w = (Ok (), w1)" "vw_time V w \<le> vw_time V w1" by metis
    with 3 out show ?thesis by force
  next
    case False
    with 3(3) show ?thesis by (auto split: sum.splits option.splits)
  qed
qed simp

lemma outbound_round_time:
  assumes "runtime_keeps E V" and "host_works io V h" and "instant_now E w = (t, w1)"
    and "strip_packet_information raw pi = Some frame" and "ipv4_parse frame = Ok ip"
    and "tun_to_transport L E io pi (Ok raw) en w = (en', w')"
  shows "vw_time V w1 \<le> vw_time V w'"
proof -
  obtain r en1 w2 where p: "process_outbound_ip L E en frame t w1 = (r, en1, w2)" by (rule prod_cases3)
  from runtime_path_views [OF assms(1) outbound_world [OF p]] have "vw_time V w1 \<le> vw_time V w2" by simp
  with assms(3-6) p show ?thesis
    by (cases r) (auto simp: tun_to_transport_def dest: send_actions_time [OF assms(2)])
qed

lemma inbound_round_time:
  assumes "runtime_keeps E V" and "host_works io V h" and "instant_now E w = (t, w1)"
    and "transport_to_tun E io pi (Ok (frame, source)) en w = (r, en', w')" and "decode_packet frame \<noteq> None"
  shows "vw_time V w1 \<le> vw_time V w'"
proof -
  obtain q en1 w2 where p: "process_inbound_transport E en frame source t w1 = (q, en1, w2)" by (rule prod_cases3)
  from runtime_path_views [OF assms(1) inbound_world [OF p]] have "vw_time V w1 \<le> vw_time V w2" by simp
  with assms(3-5) p show ?thesis
    by (cases q) (auto simp: transport_to_tun_def dest: inbound_actions_time [OF assms(2)] split: option.splits)
qed

subsection \<open>A packet across\<close>

text \<open>What the device reads: on hosts with packet information a header comes first.\<close>

record trip_tun =
  tt_from :: bool
  tt_header :: bytes
  tt_packet :: bytes
  tt_source :: socket_addr

definition device_frame :: "(bool \<Rightarrow> bool) \<Rightarrow> trip_tun \<Rightarrow> bytes" where
  "device_frame pi m = (if pi (tt_from m) then tt_header m @ tt_packet m else tt_packet m)"

fun deliver_frames ::
    "('hs, 'ts, 'w) runtime \<Rightarrow> 'w tunnel_io \<Rightarrow> bool \<Rightarrow> socket_addr \<Rightarrow> bytes list \<Rightarrow> ('net, 'hs, 'ts) engine \<Rightarrow> 'w
      \<Rightarrow> (string, unit) result \<times> ('net, 'hs, 'ts) engine \<times> 'w" where
  "deliver_frames E io pi source [] en w = (Ok (), en, w)"
| "deliver_frames E io pi source (frame # frames) en w =
    (case transport_to_tun E io pi (Ok (frame, source)) en w of
       (Inl e, r) \<Rightarrow> (Err e, r)
     | (Inr _, en1, w1) \<Rightarrow> deliver_frames E io pi source frames en1 w1)"

text \<open>One round of the loop that reads the device of one host, then one round of the receiving loop of
the other for each frame the first one sent.\<close>

definition tunnel_trip ::
    "'net libs \<Rightarrow> ('hs, 'ts, 'w) runtime \<Rightarrow> (bool \<Rightarrow> 'w tunnel_io) \<Rightarrow> (bool \<Rightarrow> bool) \<Rightarrow> 'w views \<Rightarrow> trip_tun
      \<Rightarrow> (bool \<Rightarrow> ('net, 'hs, 'ts) engine) \<Rightarrow> 'w
      \<Rightarrow> (string, unit) result \<times> (bool \<Rightarrow> ('net, 'hs, 'ts) engine) \<times> 'w" where
  "tunnel_trip L E io pi V m hosts w =
    (let h = tt_from m in
     case tun_to_transport L E (io h) (pi h) (Ok (device_frame pi m)) (hosts h) w of (en, w1) \<Rightarrow>
     case deliver_frames E (io (\<not> h)) (pi (\<not> h)) (tt_source m)
         (map (\<lambda>(_, frame, _). frame) (drop (length (vw_wire V w)) (vw_wire V w1))) (hosts (\<not> h)) w1 of
       (r, other, w2) \<Rightarrow> (r, hosts(h := en, \<not> h := other), w2))"

fun tunnel_run ::
    "'net libs \<Rightarrow> ('hs, 'ts, 'w) runtime \<Rightarrow> (bool \<Rightarrow> 'w tunnel_io) \<Rightarrow> (bool \<Rightarrow> bool) \<Rightarrow> 'w views \<Rightarrow> trip_tun list
      \<Rightarrow> (bool \<Rightarrow> ('net, 'hs, 'ts) engine) \<Rightarrow> 'w
      \<Rightarrow> (string, unit) result \<times> (bool \<Rightarrow> ('net, 'hs, 'ts) engine) \<times> 'w" where
  "tunnel_run L E io pi V [] hosts w = (Ok (), hosts, w)"
| "tunnel_run L E io pi V (m # ms) hosts w =
    (case tunnel_trip L E io pi V m hosts w of
       (Inl e, r) \<Rightarrow> (Err e, r)
     | (Inr _, hosts1, w1) \<Rightarrow> tunnel_run L E io pi V ms hosts1 w1)"

text \<open>What the other device is given for a packet.\<close>

definition device_write :: "(bool \<Rightarrow> bool) \<Rightarrow> trip_tun \<Rightarrow> bool \<times> bytes" where
  "device_write pi m = (\<not> tt_from m,
    (if pi (\<not> tt_from m) then to_be_bytes_u32 AF_INET @ tt_packet m else tt_packet m))"

lemma tun_to_transport_time:
  assumes "runtime_keeps E V" and "host_works io V h" and "tun_to_transport L E io pi raw en w = (en', w')"
  shows "vw_time V w \<le> vw_time V w'"
proof (cases "\<exists>frame packet ip. raw = Ok frame \<and> strip_packet_information frame pi = Some packet \<and> ipv4_parse packet = Ok ip")
  case True
  obtain t w1 where now: "instant_now E w = (t, w1)" "vw_time V w \<le> vw_time V w1"
    using tunnel_reads_clock [OF assms(1)] by metis
  with True outbound_round_time [OF assms(1,2) now(1)] assms(3) show ?thesis by fastforce
next
  case False
  with assms(3) show ?thesis by (cases raw) (auto simp: tun_to_transport_def split: option.splits sum.splits)
qed

lemma transport_to_tun_time:
  assumes "runtime_keeps E V" and "host_works io V h" and "transport_to_tun E io pi (Ok (frame, source)) en w = (r, en', w')"
  shows "vw_time V w \<le> vw_time V w'"
proof (cases "decode_packet frame")
  case None
  with assms(3) show ?thesis by (simp add: transport_to_tun_def)
next
  case (Some q)
  obtain t w1 where now: "instant_now E w = (t, w1)" "vw_time V w \<le> vw_time V w1"
    using tunnel_reads_clock [OF assms(1)] by metis
  with Some inbound_round_time [OF assms(1,2) now(1) assms(3)] show ?thesis by simp
qed

lemma deliver_frames_time:
  assumes "runtime_keeps E V" and "host_works io V h"
  shows "deliver_frames E io pi source frames en w = (r, en', w') \<Longrightarrow> vw_time V w \<le> vw_time V w'"
proof (induction frames arbitrary: en w)
  case (Cons frame frames)
  obtain q en1 w1 where q: "transport_to_tun E io pi (Ok (frame, source)) en w = (q, en1, w1)" by (rule prod_cases3)
  with transport_to_tun_time [OF assms q] Cons show ?case by (cases q) (auto intro: order_trans)
qed simp

subsection \<open>The handshake frame by frame\<close>

text \<open>What the engines do next, whatever the times and worlds of the later frames: the acknowledgement
and what comes before it, back to the answer to the initiation.\<close>

definition confirms ::
    "('hs, 'ts, 'w) runtime \<Rightarrow> instant \<Rightarrow> 'w set \<Rightarrow> string \<Rightarrow> string \<Rightarrow> nat \<Rightarrow> socket_addr
      \<Rightarrow> ('net, 'hs, 'ts) engine \<Rightarrow> ('net, 'hs, 'ts) engine \<Rightarrow> bytes \<Rightarrow> bool" where
  "confirms E T W na nb n srca A B f3 \<longleftrightarrow> (\<forall>t w. w \<in> W \<longrightarrow> t < T + secs 120 \<longrightarrow> (\<exists>f4 B2 v.
    process_inbound_transport E B f3 srca t w =
      (Ok \<lparr>out_actions = [SendTransport na srca f4], out_events = [HandshakeCompleted na srca Responder]\<rparr>, B2, v)
    \<and> (\<forall>source t4 w5. t4 < T + secs 120 \<longrightarrow> (\<exists>A3. process_inbound_transport E A f4 source t4 w5 =
        (Ok \<lparr>out_actions = [], out_events = []\<rparr>, A3, snd (instant_now E w5)) \<and> connected E na nb T n A3 B2))))"

definition completes ::
    "('hs, 'ts, 'w) runtime \<Rightarrow> instant \<Rightarrow> 'w set \<Rightarrow> string \<Rightarrow> string \<Rightarrow> nat \<Rightarrow> socket_addr
      \<Rightarrow> ('net, 'hs, 'ts) engine \<Rightarrow> ('net, 'hs, 'ts) engine \<Rightarrow> bytes \<Rightarrow> bool" where
  "completes E T W na nb n srca A B f2 \<longleftrightarrow> (\<forall>srcb t w. w \<in> W \<longrightarrow> (\<exists>f3 A2 v.
    process_inbound_transport E A f2 srcb t w =
      (Ok \<lparr>out_actions = [SendTransport nb srcb f3], out_events = [HandshakeCompleted nb srcb Initiator]\<rparr>, A2, v)
    \<and> confirms E T W na nb n srca A2 B f3))"

definition answers ::
    "('hs, 'ts, 'w) runtime \<Rightarrow> instant \<Rightarrow> 'w set \<Rightarrow> string \<Rightarrow> string \<Rightarrow> nat
      \<Rightarrow> ('net, 'hs, 'ts) engine \<Rightarrow> ('net, 'hs, 'ts) engine \<Rightarrow> bytes \<Rightarrow> bool" where
  "answers E T W na nb n A B f1 \<longleftrightarrow> (\<forall>srca t w. w \<in> W \<longrightarrow> (\<exists>f2 B1 v.
    process_inbound_transport E B f1 srca t w = (Ok \<lparr>out_actions = [SendTransport na srca f2], out_events = []\<rparr>, B1, v)
    \<and> completes E T W na nb n srca A B1 f2))"

lemma handshake_stages:
  fixes E :: "('hs, 'ts, 'w) runtime"
  assumes ready: "ready_pair L E W na nb pa pb psk A B" and clock: "clock_from E T W"
    and route: "routes_to L A nb packet" and w1: "w1 \<in> W" and n: "n + 1 < 2 ^ 32"
  obtains ep f1 A1 v1 where
    "process_outbound_ip L E A packet now w1 = (Ok \<lparr>out_actions = [SendTransport nb ep f1], out_events = []\<rparr>, A1, v1)"
    and "answers E T W na nb n A1 B f1"
proof -
  have T: "T < T + secs 120" by (simp add: secs_def)
  note run = handshake_run [OF ready clock route _ _ n]
  have w: "{w1, w1, w1, w1} \<subseteq> W" using w1 by simp
  obtain ep f1 A1 v1 where
    out: "process_outbound_ip L E A packet now w1 = (Ok \<lparr>out_actions = [SendTransport nb ep f1], out_events = []\<rparr>, A1, v1)"
    by (rule run [OF w T]) blast
  have "answers E T W na nb n A1 B f1"
    unfolding answers_def
  proof (intro allI impI)
    fix srca t1 w2
    assume w2: "w2 \<in> W"
    then have w: "{w1, w2, w1, w1} \<subseteq> W" using w1 by simp
    obtain f2 B1 v2 where
      inb: "process_inbound_transport E B f1 srca t1 w2 = (Ok \<lparr>out_actions = [SendTransport na srca f2], out_events = []\<rparr>, B1, v2)"
      by (rule run [OF w T, of now srca t1]) (use out in auto)
    have "completes E T W na nb n srca A1 B1 f2"
      unfolding completes_def
    proof (intro allI impI)
      fix srcb t2 w3
      assume w3: "w3 \<in> W"
      then have w: "{w1, w2, w3, w1} \<subseteq> W" using w1 w2 by simp
      obtain f3 A2 v3 where third: "process_inbound_transport E A1 f2 srcb t2 w3 =
          (Ok \<lparr>out_actions = [SendTransport nb srcb f3], out_events = [HandshakeCompleted nb srcb Initiator]\<rparr>, A2, v3)"
        by (rule run [OF w T, of now srca t1 srcb t2]) (use out inb in auto)
      have "confirms E T W na nb n srca A2 B1 f3"
        unfolding confirms_def
      proof (intro allI impI)
        fix t3 w4
        assume w4: "w4 \<in> W" and t3: "t3 < T + secs 120"
        have w: "{w1, w2, w3, w4} \<subseteq> W" using w1 w2 w3 w4 by simp
        show "\<exists>f4 B2 v. process_inbound_transport E B1 f3 srca t3 w4 =
            (Ok \<lparr>out_actions = [SendTransport na srca f4], out_events = [HandshakeCompleted na srca Responder]\<rparr>, B2, v)
          \<and> (\<forall>source t4 w5. t4 < T + secs 120 \<longrightarrow> (\<exists>A3. process_inbound_transport E A2 f4 source t4 w5 =
              (Ok \<lparr>out_actions = [], out_events = []\<rparr>, A3, snd (instant_now E w5)) \<and> connected E na nb T n A3 B2))"
          by (rule run [OF w t3, of now srca t1 srcb t2]) (use out inb third in auto)
      qed
      with third show "\<exists>f3 A2 v. process_inbound_transport E A1 f2 srcb t2 w3 =
          (Ok \<lparr>out_actions = [SendTransport nb srcb f3], out_events = [HandshakeCompleted nb srcb Initiator]\<rparr>, A2, v)
        \<and> confirms E T W na nb n srca A2 B1 f3" by blast
    qed
    with inb show "\<exists>f2 B1 v. process_inbound_transport E B f1 srca t1 w2 =
        (Ok \<lparr>out_actions = [SendTransport na srca f2], out_events = []\<rparr>, B1, v)
      \<and> completes E T W na nb n srca A1 B1 f2" by blast
  qed
  with out that show thesis by blast
qed

text \<open>The statistics do not matter for it.\<close>

lemma engine_peer_any [simp]: "engine_peer (en\<lparr>en_peers := P\<rparr>) name = engine_peer en name"
  by (simp add: engine_peer_def)

lemma peers_after_sessions: "en\<lparr>en_sessions := st, en_peers := P\<rparr> = en\<lparr>en_peers := P, en_sessions := st\<rparr>"
  by simp

lemma inbound_init_any_peers:
  "inbound_init E en hid message source w = (r, en', w') \<Longrightarrow>
    inbound_init E (en\<lparr>en_peers := P\<rparr>) hid message source w = (r, en'\<lparr>en_peers := P\<rparr>, w')"
  by (auto simp: inbound_init_def Let_def split: prod.splits option.splits if_splits)

lemma inbound_response_any_peers:
  "inbound_response E en hid message source w = (r, en', w') \<Longrightarrow>
    \<exists>P'. inbound_response E (en\<lparr>en_peers := P\<rparr>) hid message source w = (r, en'\<lparr>en_peers := P'\<rparr>, w')"
  by (auto simp: inbound_response_def Let_def peers_after_sessions split: prod.splits option.splits sum.splits)

lemma inbound_transport_any_peers:
  assumes "inbound_transport E en sid c ct source now w = (r, en', w')"
  shows "\<exists>P'. inbound_transport E (en\<lparr>en_peers := P\<rparr>) sid c ct source now w = (r, en'\<lparr>en_peers := P'\<rparr>, w')"
proof -
  obtain q st1 where d: "decrypt_transport E (en_sessions en) sid c ct now = (q, st1)"
    by (cases "decrypt_transport E (en_sessions en) sid c ct now")
  obtain t w1 where now: "instant_now E w = (t, w1)" by (cases "instant_now E w")
  consider e where "q = Err e" | "q = Ok None" | x where "q = Ok (Some x)" by (cases q) auto
  then show ?thesis
  proof cases
    case (3 x)
    obtain a st2 where a: "encrypt_for_peer E st1 (dt_peer_name x) Keepalive KEEPALIVE_ACK_PAYLOAD now = (a, st2)"
      by (cases "encrypt_for_peer E st1 (dt_peer_name x) Keepalive KEEPALIVE_ACK_PAYLOAD now")
    show ?thesis
      using assms 3 d now a
      by (cases "dt_msg_type x"; cases a; cases "ipv4_parse (dt_payload x)"; cases "dt_payload x = KEEPALIVE_PROBE_PAYLOAD")
        (auto simp: inbound_transport_def Let_def peers_after_sessions)
  qed (use assms d in \<open>auto simp: inbound_transport_def Let_def peers_after_sessions\<close>)
qed

lemma inbound_any_peers:
  assumes "process_inbound_transport E en frame source now w = (r, en', w')"
  obtains P' where "process_inbound_transport E (en\<lparr>en_peers := P\<rparr>) frame source now w = (r, en'\<lparr>en_peers := P'\<rparr>, w')"
proof -
  have "\<exists>P'. process_inbound_transport E (en\<lparr>en_peers := P\<rparr>) frame source now w = (r, en'\<lparr>en_peers := P'\<rparr>, w')"
  proof (cases "decode_packet frame")
    case (Some q)
    show ?thesis
    proof (cases q)
      case (PHandshake kind hid message)
      with Some assms inbound_init_any_peers [of E en hid message source w r en' w' P]
        inbound_response_any_peers [of E en hid message source w r en' w' P]
      show ?thesis by (cases kind) (auto simp: process_inbound_transport_def)
    next
      case (PTransport sid c ct)
      with Some assms inbound_transport_any_peers [of E en sid c ct source now w r en' w' P]
      show ?thesis by (simp add: process_inbound_transport_def)
    qed
  qed (use assms in \<open>auto simp: process_inbound_transport_def\<close>)
  with that show thesis by blast
qed

lemma connected_any_peers: "connected E na nb since n (A\<lparr>en_peers := P\<rparr>) (B\<lparr>en_peers := Q\<rparr>) = connected E na nb since n A B"
  by (simp add: connected_def)

lemma confirms_any_peers:
  assumes "confirms E T W na nb n srca A B f3"
  shows "confirms E T W na nb n srca (A\<lparr>en_peers := P\<rparr>) (B\<lparr>en_peers := Q\<rparr>) f3"
  unfolding confirms_def
proof (intro allI impI)
  fix t w
  assume "w \<in> W" and "t < T + secs 120"
  with assms obtain f4 B2 v where b: "process_inbound_transport E B f3 srca t w =
      (Ok \<lparr>out_actions = [SendTransport na srca f4], out_events = [HandshakeCompleted na srca Responder]\<rparr>, B2, v)"
    and a: "\<And>source t4 w5. t4 < T + secs 120 \<Longrightarrow> \<exists>A3. process_inbound_transport E A f4 source t4 w5 =
        (Ok \<lparr>out_actions = [], out_events = []\<rparr>, A3, snd (instant_now E w5)) \<and> connected E na nb T n A3 B2"
    unfolding confirms_def by blast
  obtain Q' where b': "process_inbound_transport E (B\<lparr>en_peers := Q\<rparr>) f3 srca t w =
      (Ok \<lparr>out_actions = [SendTransport na srca f4], out_events = [HandshakeCompleted na srca Responder]\<rparr>, B2\<lparr>en_peers := Q'\<rparr>, v)"
    by (rule inbound_any_peers [OF b])
  have "\<exists>A3. process_inbound_transport E (A\<lparr>en_peers := P\<rparr>) f4 source t4 w5 =
        (Ok \<lparr>out_actions = [], out_events = []\<rparr>, A3, snd (instant_now E w5)) \<and> connected E na nb T n A3 (B2\<lparr>en_peers := Q'\<rparr>)"
    if "t4 < T + secs 120" for source t4 w5
    using a [OF that] inbound_any_peers [of E A f4 source t4 w5 _ _ _ P] connected_any_peers by metis
  with b' show "\<exists>f4 B2 v. process_inbound_transport E (B\<lparr>en_peers := Q\<rparr>) f3 srca t w =
      (Ok \<lparr>out_actions = [SendTransport na srca f4], out_events = [HandshakeCompleted na srca Responder]\<rparr>, B2, v)
    \<and> (\<forall>source t4 w5. t4 < T + secs 120 \<longrightarrow> (\<exists>A3. process_inbound_transport E (A\<lparr>en_peers := P\<rparr>) f4 source t4 w5 =
        (Ok \<lparr>out_actions = [], out_events = []\<rparr>, A3, snd (instant_now E w5)) \<and> connected E na nb T n A3 B2))" by blast
qed

lemma completes_any_peers:
  assumes "completes E T W na nb n srca A B f2"
  shows "completes E T W na nb n srca (A\<lparr>en_peers := P\<rparr>) (B\<lparr>en_peers := Q\<rparr>) f2"
  unfolding completes_def
proof (intro allI impI)
  fix srcb t w
  assume "w \<in> W"
  with assms obtain f3 A2 v where a: "process_inbound_transport E A f2 srcb t w =
      (Ok \<lparr>out_actions = [SendTransport nb srcb f3], out_events = [HandshakeCompleted nb srcb Initiator]\<rparr>, A2, v)"
    and c: "confirms E T W na nb n srca A2 B f3" unfolding completes_def by blast
  obtain P' where "process_inbound_transport E (A\<lparr>en_peers := P\<rparr>) f2 srcb t w =
      (Ok \<lparr>out_actions = [SendTransport nb srcb f3], out_events = [HandshakeCompleted nb srcb Initiator]\<rparr>, A2\<lparr>en_peers := P'\<rparr>, v)"
    by (rule inbound_any_peers [OF a])
  with confirms_any_peers [OF c] show "\<exists>f3 A2 v. process_inbound_transport E (A\<lparr>en_peers := P\<rparr>) f2 srcb t w =
      (Ok \<lparr>out_actions = [SendTransport nb srcb f3], out_events = [HandshakeCompleted nb srcb Initiator]\<rparr>, A2, v)
    \<and> confirms E T W na nb n srca A2 (B\<lparr>en_peers := Q\<rparr>) f3" by blast
qed

lemma answers_any_peers:
  assumes "answers E T W na nb n A B f1"
  shows "answers E T W na nb n (A\<lparr>en_peers := P\<rparr>) B f1"
  unfolding answers_def
proof (intro allI impI)
  fix srca t w
  assume "w \<in> W"
  with assms obtain f2 B1 v where "process_inbound_transport E B f1 srca t w =
      (Ok \<lparr>out_actions = [SendTransport na srca f2], out_events = []\<rparr>, B1, v)"
    and c: "completes E T W na nb n srca A B1 f2" unfolding answers_def by blast
  moreover from completes_any_peers [OF c, of P "en_peers B1"] have "completes E T W na nb n srca (A\<lparr>en_peers := P\<rparr>) B1 f2" by simp
  ultimately show "\<exists>f2 B1 v. process_inbound_transport E B f1 srca t w =
      (Ok \<lparr>out_actions = [SendTransport na srca f2], out_events = []\<rparr>, B1, v)
    \<and> completes E T W na nb n srca (A\<lparr>en_peers := P\<rparr>) B1 f2" by blast
qed

subsection \<open>Coming up\<close>

text \<open>The frames that came onto the wire between two worlds are delivered to the other host, and what
this sends is delivered back, until nothing is under way; the number bounds the deliveries. \<open>source h\<close>
is the address under which host \<open>h\<close> sees the other.\<close>

definition new_frames :: "'w views \<Rightarrow> 'w \<Rightarrow> 'w \<Rightarrow> bytes list" where
  "new_frames V w w' = map (\<lambda>(_, frame, _). frame) (drop (length (vw_wire V w)) (vw_wire V w'))"

fun tunnel_exchange ::
    "('hs, 'ts, 'w) runtime \<Rightarrow> (bool \<Rightarrow> 'w tunnel_io) \<Rightarrow> (bool \<Rightarrow> bool) \<Rightarrow> 'w views \<Rightarrow> (bool \<Rightarrow> socket_addr)
      \<Rightarrow> nat \<Rightarrow> bool \<Rightarrow> bytes list \<Rightarrow> (bool \<Rightarrow> ('net, 'hs, 'ts) engine) \<Rightarrow> 'w
      \<Rightarrow> bool \<times> (bool \<Rightarrow> ('net, 'hs, 'ts) engine) \<times> 'w" where
  "tunnel_exchange E io pi V source 0 h frames hosts w = (frames = [], hosts, w)"
| "tunnel_exchange E io pi V source (Suc k) h frames hosts w =
    (if frames = [] then (True, hosts, w)
     else
       case deliver_frames E (io h) (pi h) (source h) frames (hosts h) w of
         (Inl _, en, w1) \<Rightarrow> (False, hosts(h := en), w1)
       | (Inr _, en, w1) \<Rightarrow>
           tunnel_exchange E io pi V source k (\<not> h) (new_frames V w w1) (hosts(h := en)) w1)"

definition tunnel_open ::
    "'net libs \<Rightarrow> ('hs, 'ts, 'w) runtime \<Rightarrow> (bool \<Rightarrow> 'w tunnel_io) \<Rightarrow> (bool \<Rightarrow> bool) \<Rightarrow> 'w views \<Rightarrow> (bool \<Rightarrow> socket_addr)
      \<Rightarrow> bytes \<Rightarrow> (bool \<Rightarrow> ('net, 'hs, 'ts) engine) \<Rightarrow> 'w
      \<Rightarrow> bool \<times> (bool \<Rightarrow> ('net, 'hs, 'ts) engine) \<times> 'w" where
  "tunnel_open L E io pi V source raw hosts w =
    (case tun_to_transport L E (io True) (pi True) (Ok raw) (hosts True) w of (en, w1) \<Rightarrow>
       tunnel_exchange E io pi V source 4 False (new_frames V w w1) (hosts(True := en)) w1)"

lemma new_frames_simps:
  "vw_wire V w' = vw_wire V w @ fs \<Longrightarrow> new_frames V w w' = map (\<lambda>(_, frame, _). frame) fs"
  "vw_wire V w' = vw_wire V w \<Longrightarrow> new_frames V w w' = []"
  by (simp_all add: new_frames_def)

lemma tunnel_exchange_time:
  assumes "runtime_keeps E V" and "\<And>h. host_works (io h) V h"
  shows "vw_time V w \<le> vw_time V (snd (snd (tunnel_exchange E io pi V source k h frames hosts w)))"
proof (induction k arbitrary: h frames hosts w)
  case (Suc k)
  obtain r en w1 where d: "deliver_frames E (io h) (pi h) (source h) frames (hosts h) w = (r, en, w1)" by (rule prod_cases3)
  from deliver_frames_time [OF assms d] have "vw_time V w \<le> vw_time V w1" .
  with d Suc.IH [of w1] show ?case by (cases r) (auto intro: order_trans)
qed simp

text \<open>The clock reading with which a frame is received is before the end of the exchange.\<close>

lemma tunnel_exchange_reads:
  assumes keeps: "runtime_keeps E V" "\<And>h. host_works (io h) V h" and now: "instant_now E w = (t, w1)"
    and "decode_packet frame \<noteq> None"
    and late: "vw_time V (snd (snd (tunnel_exchange E io pi V source (Suc k) h [frame] hosts w))) < D"
  shows "t < D"
proof -
  obtain r en w2 where d: "transport_to_tun E (io h) (pi h) (Ok (frame, source h)) (hosts h) w = (r, en, w2)" by (rule prod_cases3)
  have "t \<le> vw_time V w1" using keeps(1) now unfolding runtime_keeps_def by (metis fst_conv snd_conv)
  also have "\<dots> \<le> vw_time V w2" by (rule inbound_round_time [OF keeps now d assms(4)])
  also have "\<dots> \<le> vw_time V (snd (snd (tunnel_exchange E io pi V source (Suc k) h [frame] hosts w)))"
    using d tunnel_exchange_time [of E V io w2, OF keeps] by (cases r) simp_all
  finally show ?thesis using late by simp
qed

lemma clock_step:
  assumes "clock_from E T W" and "runtime_step E w w'" and "w \<in> W"
  shows "w' \<in> W"
  using assms(2) assms(1,3) unfolding clock_from_def by cases (metis snd_conv)+

lemma clock_path: "runtime_path E w w' \<Longrightarrow> clock_from E T W \<Longrightarrow> w \<in> W \<Longrightarrow> w' \<in> W"
  by (induction rule: rtranclp_induct) (auto intro: clock_step)

lemma connected_record_sent: "connected E na nb since n (record_transport_sent A name k) B = connected E na nb since n A B"
  by (simp add: connected_def record_transport_sent_def)

lemma routes_to_record_sent: "routes_to L A p packet \<Longrightarrow> routes_to L (record_transport_sent A name k) p packet"
  by (erule routes_to_keeps) (simp_all add: record_transport_sent_def same_setup_def)

text \<open>One frame out, and one frame in answer to another.\<close>

definition sends_stay :: "(bool \<Rightarrow> 'w tunnel_io) \<Rightarrow> 'w set \<Rightarrow> bool" where
  "sends_stay io W \<longleftrightarrow> (\<forall>h frame endpoint. \<forall>w \<in> W. snd (tn_send_to (io h) frame endpoint w) \<in> W)"

lemma initiation_round:
  assumes io: "\<And>h. host_works (io h) V h" and stay: "sends_stay io W" and keeps: "runtime_keeps E V" and clock: "clock_from E T W"
    and now: "instant_now E w = (t, w1)" "w \<in> W" and strip: "strip_packet_information raw pi = Some packet" "ipv4_parse packet = Ok ip"
    and out: "process_outbound_ip L E A packet t w1 = (Ok \<lparr>out_actions = [SendTransport name ep frame], out_events = ev\<rparr>, A1, v)"
  obtains u P where "tun_to_transport L E (io h) pi (Ok raw) A w = (A1\<lparr>en_peers := P\<rparr>, u)" and "u \<in> W"
    and "vw_wire V u = vw_wire V w @ [(h, frame, ep)]" and "vw_device V u = vw_device V w"
    and "\<And>p q. routes_to L A p q \<Longrightarrow> routes_to L (A1\<lparr>en_peers := P\<rparr>) p q"
proof -
  obtain n u where sent: "tn_send_to (io h) frame ep v = (Ok n, u)" "vw_wire V u = vw_wire V v @ [(h, frame, ep)]"
    "vw_device V u = vw_device V v" using tunnel_sends [OF io] by metis
  have path: "runtime_path E w v" using runtime_calls(2) [OF now(1)] outbound_world [OF out] by (rule rtranclp_trans)
  from clock_path [OF path clock now(2)] stay sent(1) have "u \<in> W" unfolding sends_stay_def by (metis snd_conv)
  moreover have "routes_to L (record_transport_sent A1 name (length frame)) p q" if "routes_to L A p q" for p q
    using that outbound_keeps [OF out] by (intro routes_to_record_sent routes_to_keeps [OF that]) simp_all
  moreover have "tun_to_transport L E (io h) pi (Ok raw) A w = (record_transport_sent A1 name (length frame), u)"
    by (simp add: tun_to_transport_def strip now(1) out send_engine_frame_def sent(1))
  ultimately show thesis
    using that sent(2,3) runtime_path_views [OF keeps path] unfolding record_transport_sent_def by simp
qed

lemma inbound_routes:
  assumes "process_inbound_transport E en frame source now w = (r, en', w')" and "usable_peer_endpoint source" and "routes_to L en p q"
  shows "routes_to L en' p q"
  using inbound_keeps [OF assms(1)] inbound_learns [OF assms(1)] assms(2)
  by (intro routes_to_keeps [OF assms(3)]) blast+

lemma answering_round:
  assumes io: "\<And>h. host_works (io h) V h" and stay: "sends_stay io W" and keeps: "runtime_keeps E V" and clock: "clock_from E T W"
    and now: "instant_now E w = (t, w1)" "w \<in> W"
    and inb: "process_inbound_transport E B frame source t w1 = (Ok \<lparr>out_actions = [SendTransport name ep answer], out_events = ev\<rparr>, B1, v)"
  obtains u P where "deliver_frames E (io h) pi source [frame] B w = (Ok (), B1\<lparr>en_peers := P\<rparr>, u)" and "u \<in> W"
    and "vw_wire V u = vw_wire V w @ [(h, answer, ep)]" and "vw_device V u = vw_device V w"
    and "\<And>p q. usable_peer_endpoint source \<Longrightarrow> routes_to L B p q \<Longrightarrow> routes_to L (B1\<lparr>en_peers := P\<rparr>) p q"
proof -
  obtain n u where sent: "tn_send_to (io h) answer ep v = (Ok n, u)" "vw_wire V u = vw_wire V v @ [(h, answer, ep)]"
    "vw_device V u = vw_device V v" using tunnel_sends [OF io] by metis
  have path: "runtime_path E w v" using runtime_calls(2) [OF now(1)] inbound_world [OF inb] by (rule rtranclp_trans)
  from clock_path [OF path clock now(2)] stay sent(1) have u: "u \<in> W" unfolding sends_stay_def by (metis snd_conv)
  have routes: "routes_to L (record_transport_sent B1 name (length answer)) p q" if "usable_peer_endpoint source" "routes_to L B p q" for p q
    using inbound_routes [OF inb that] by (rule routes_to_record_sent)
  obtain x where x: "decode_packet frame = Some x"
    using inb by (cases "decode_packet frame") (auto simp: process_inbound_transport_def no_output_def)
  have "deliver_frames E (io h) pi source [frame] B w = (Ok (), record_transport_sent B1 name (length answer), u)"
    by (simp add: transport_to_tun_def x now(1) inb send_engine_frame_def sent(1))
  then show thesis
    using that u routes sent(2,3) runtime_path_views [OF keeps path] unfolding record_transport_sent_def by simp
qed

lemma inbound_decodes:
  "process_inbound_transport E en frame source now w = (Ok out, en', w') \<Longrightarrow> out_actions out \<noteq> [] \<Longrightarrow> decode_packet frame \<noteq> None"
  by (cases "decode_packet frame") (auto simp: process_inbound_transport_def no_output_def)

text \<open>The acknowledgement ends the exchange.\<close>

lemma last_round:
  assumes keeps: "runtime_keeps E V" and now: "instant_now E w = (t, w1)"
    and inb: "process_inbound_transport E A frame source t w1 = (Ok \<lparr>out_actions = [], out_events = []\<rparr>, A3, snd (instant_now E w1))"
  obtains u where "deliver_frames E io pi source [frame] A w = (Ok (), A3, u)" and "vw_wire V u = vw_wire V w"
    and "vw_device V u = vw_device V w"
proof -
  obtain t2 u where u: "instant_now E w1 = (t2, u)" by (cases "instant_now E w1")
  have path: "runtime_path E w u" using runtime_calls(2) [OF now] runtime_calls(2) [OF u] by (rule rtranclp_trans)
  have "deliver_frames E io pi source [frame] A w = (Ok (), A, w) \<and> A3 = A \<or> deliver_frames E io pi source [frame] A w = (Ok (), A3, u)"
    using inb u now by (cases "decode_packet frame") (auto simp: transport_to_tun_def process_inbound_transport_def no_output_def)
  with that runtime_path_views [OF keeps path] show thesis by blast
qed

text \<open>The first three frames: the initiator is done, and the responder waits for its confirmation.\<close>

lemma tunnel_half_open:
  fixes E :: "('hs, 'ts, 'w) runtime"
  assumes keeps: "runtime_keeps E V" and io: "\<And>h. host_works (io h) V h" and stay: "sends_stay io W" and clock: "clock_from E T W"
    and ready: "ready_pair L E W (nm True) (nm False) pa pb psk (hosts True) (hosts False)" and w: "w \<in> W"
    and strip: "strip_packet_information raw (pi True) = Some packet" and route: "routes_to L (hosts True) (nm False) packet"
    and n: "n + 1 < 2 ^ 32"
  obtains A2 B1 f3 u3 frames where
    "tunnel_open L E io pi V source raw hosts w = tunnel_exchange E io pi V source 2 False [f3] (hosts(True := A2, False := B1)) u3"
    and "u3 \<in> W" and "vw_wire V u3 = vw_wire V w @ frames" and "map fst frames = [True, False, True]"
    and "vw_device V u3 = vw_device V w" and "confirms E T W (nm True) (nm False) n (source False) A2 B1 f3"
    and "\<forall>h p q. usable_peer_endpoint (source h) \<longrightarrow> routes_to L (hosts h) p q \<longrightarrow> routes_to L (if h then A2 else B1) p q"
proof -
  let ?na = "nm True" and ?nb = "nm False"
  have in_W: "w' \<in> W" if "instant_now E w = (t, w')" "w \<in> W" for w t w'
    using clock_path [OF runtime_calls(2) [OF that(1)] clock that(2)] .
  from route obtain ip where ip: "ipv4_parse packet = Ok ip" unfolding routes_to_def by blast
  obtain t0 w1 where now0: "instant_now E w = (t0, w1)" by (cases "instant_now E w")
  obtain ep f1 A1 v1 where out: "process_outbound_ip L E (hosts True) packet t0 w1 =
      (Ok \<lparr>out_actions = [SendTransport ?nb ep f1], out_events = []\<rparr>, A1, v1)" and a1: "answers E T W ?na ?nb n A1 (hosts False) f1"
    by (rule handshake_stages [OF ready clock route in_W [OF now0 w] n])
  obtain u1 P1 where r1: "tun_to_transport L E (io True) (pi True) (Ok raw) (hosts True) w = (A1\<lparr>en_peers := P1\<rparr>, u1)" "u1 \<in> W"
    "vw_wire V u1 = vw_wire V w @ [(True, f1, ep)]" "vw_device V u1 = vw_device V w"
    "\<And>p q. routes_to L (hosts True) p q \<Longrightarrow> routes_to L (A1\<lparr>en_peers := P1\<rparr>) p q"
    by (rule initiation_round [where io = io and h = True, OF io stay keeps clock now0 w strip ip out]) blast
  obtain tb w2 where now1: "instant_now E u1 = (tb, w2)" by (cases "instant_now E u1")
  from answers_any_peers [OF a1] in_W [OF now1 r1(2)] obtain f2 B1 v2 where
    inb: "process_inbound_transport E (hosts False) f1 (source False) tb w2 =
      (Ok \<lparr>out_actions = [SendTransport ?na (source False) f2], out_events = []\<rparr>, B1, v2)"
    and a2: "completes E T W ?na ?nb n (source False) (A1\<lparr>en_peers := P1\<rparr>) B1 f2" unfolding answers_def by blast
  obtain u2 P2 where r2: "deliver_frames E (io False) (pi False) (source False) [f1] (hosts False) u1 = (Ok (), B1\<lparr>en_peers := P2\<rparr>, u2)"
    "u2 \<in> W" "vw_wire V u2 = vw_wire V u1 @ [(False, f2, source False)]" "vw_device V u2 = vw_device V u1"
    "\<And>p q. usable_peer_endpoint (source False) \<Longrightarrow> routes_to L (hosts False) p q \<Longrightarrow> routes_to L (B1\<lparr>en_peers := P2\<rparr>) p q"
    by (rule answering_round [where io = io and h = False, OF io stay keeps clock now1 r1(2) inb]) blast
  obtain ta w3 where now2: "instant_now E u2 = (ta, w3)" by (cases "instant_now E u2")
  let ?B1 = "B1\<lparr>en_peers := P2\<rparr>"
  from completes_any_peers [OF a2, of P1 P2] in_W [OF now2 r2(2)] obtain f3 A2 v3 where
    third: "process_inbound_transport E (A1\<lparr>en_peers := P1\<rparr>) f2 (source True) ta w3 =
      (Ok \<lparr>out_actions = [SendTransport ?nb (source True) f3], out_events = [HandshakeCompleted ?nb (source True) Initiator]\<rparr>, A2, v3)"
    and a3: "confirms E T W ?na ?nb n (source False) A2 ?B1 f3" unfolding completes_def by force
  obtain u3 P3 where r3: "deliver_frames E (io True) (pi True) (source True) [f2] (A1\<lparr>en_peers := P1\<rparr>) u2 = (Ok (), A2\<lparr>en_peers := P3\<rparr>, u3)"
    "u3 \<in> W" "vw_wire V u3 = vw_wire V u2 @ [(True, f3, source True)]" "vw_device V u3 = vw_device V u2"
    "\<And>p q. usable_peer_endpoint (source True) \<Longrightarrow> routes_to L (A1\<lparr>en_peers := P1\<rparr>) p q \<Longrightarrow> routes_to L (A2\<lparr>en_peers := P3\<rparr>) p q"
    by (rule answering_round [where io = io and h = True, OF io stay keeps clock now2 r2(2) third]) blast
  let ?A2 = "A2\<lparr>en_peers := P3\<rparr>"
  have swap: "hosts(True := x, False := y, True := z) = hosts(True := z, False := y)" for x y z by (simp add: fun_eq_iff)
  have so_far: "tunnel_open L E io pi V source raw hosts w = tunnel_exchange E io pi V source 2 False [f3] (hosts(True := ?A2, False := ?B1)) u3"
    using r1(1,3) r2(1,3) r3(1,3) by (simp add: tunnel_open_def new_frames_simps numeral_eq_Suc swap)
  from confirms_any_peers [OF a3, of P3 P2] have "confirms E T W ?na ?nb n (source False) ?A2 ?B1 f3" by simp
  then show thesis
    using r1(3-5) r2(3-5) r3(2-5) by (intro that [OF so_far r3(2), of "[(True, f1, ep), (False, f2, source False), (True, f3, source True)]"]) simp_all
qed

subsection \<open>One packet\<close>

text \<open>What one host sends for a packet from its device.\<close>

lemma device_to_wire:
  assumes E: "runtime_keeps E V" and io: "host_works io V h"
    and strip: "strip_packet_information raw pi = Some packet"
    and c: "connected E na nb since (Suc n) A B" and route: "routes_to L A nb packet"
    and fits: "length packet + 17 \<le> MAX_NOISE_MESSAGE_SIZE"
    and time: "vw_time V (snd (tun_to_transport L E io pi (Ok raw) A w)) < since + secs 120"
  obtains ep frame A' w' where "tun_to_transport L E io pi (Ok raw) A w = (A', w')"
    and "vw_wire V w' = vw_wire V w @ [(h, frame, ep)]" and "vw_device V w' = vw_device V w"
    and "\<And>name p. routes_to L A name p \<Longrightarrow> routes_to L A' name p"
    and "\<And>source arrived v. arrived < since + secs 120 \<Longrightarrow> \<exists>B'. process_inbound_transport E B frame source arrived v =
        (Ok \<lparr>out_actions = [WriteIpPacket na source packet], out_events = []\<rparr>, B', snd (instant_now E v))
      \<and> connected E na nb since n A' B'
      \<and> (usable_peer_endpoint source \<longrightarrow> (\<forall>name p. routes_to L B name p \<longrightarrow> routes_to L B' name p))"
proof -
  obtain t w1 where now: "instant_now E w = (t, w1)" "t \<le> vw_time V w1"
    and same: "vw_wire V w1 = vw_wire V w" "vw_device V w1 = vw_device V w" using tunnel_reads_clock [OF E] by metis
  from route obtain ip where ip: "ipv4_parse packet = Ok ip" unfolding routes_to_def by blast
  have "t < since + secs 120"
    using now(2) time outbound_round_time [OF E io now(1) strip ip prod.collapse [symmetric], of L A] by simp
  from connected_step [OF c route fits this, where w = w1] obtain ep frame A' where
    out: "process_outbound_ip L E A packet t w1 = (Ok \<lparr>out_actions = [SendTransport nb ep frame], out_events = []\<rparr>, A', w1)"
    and keep: "\<And>name p. routes_to L A name p \<Longrightarrow> routes_to L A' name p"
    and arrives: "\<And>source arrived v. arrived < since + secs 120 \<Longrightarrow> \<exists>B'. process_inbound_transport E B frame source arrived v =
      (Ok \<lparr>out_actions = [WriteIpPacket na source packet], out_events = []\<rparr>, B', snd (instant_now E v))
    \<and> connected E na nb since n A' B'
    \<and> (usable_peer_endpoint source \<longrightarrow> (\<forall>name p. routes_to L B name p \<longrightarrow> routes_to L B' name p))" by blast
  obtain j w2 where sent: "tn_send_to io frame ep w1 = (Ok j, w2)" "vw_wire V w2 = vw_wire V w1 @ [(h, frame, ep)]"
    "vw_device V w2 = vw_device V w1" using tunnel_sends [OF io] by metis
  have "tun_to_transport L E io pi (Ok raw) A w = (record_transport_sent A' nb (length frame), w2)"
    by (simp add: tun_to_transport_def strip ip now(1) out send_engine_frame_def sent(1))
  from that [OF this] sent(2,3) same keep arrives show thesis
    by (simp add: connected_record_sent routes_to_record_sent)
qed

text \<open>What the other host writes for the frame.\<close>

lemma wire_to_device:
  assumes E: "runtime_keeps E V" and io: "host_works io V h"
    and valid: "ipv4_parse packet = Ok ip" and fits: "length packet \<le> MAX_PACKET_SIZE"
    and time: "vw_time V (snd (snd (transport_to_tun E io pi (Ok (frame, source)) B w))) < D" and early: "T < D"
    and arrives: "\<And>arrived v. arrived < D \<Longrightarrow> \<exists>B'. process_inbound_transport E B frame source arrived v =
        (Ok \<lparr>out_actions = [WriteIpPacket na source packet], out_events = []\<rparr>, B', snd (instant_now E v)) \<and> Q B'"
  obtains B' w' where "transport_to_tun E io pi (Ok (frame, source)) B w = (Ok (), B', w')" and "Q B'"
    and "vw_wire V w' = vw_wire V w"
    and "vw_device V w' = vw_device V w @ [(h, if pi then to_be_bytes_u32 AF_INET @ packet else packet)]"
proof -
  obtain t w1 where now: "instant_now E w = (t, w1)" "t \<le> vw_time V w1"
    and same: "vw_wire V w1 = vw_wire V w" "vw_device V w1 = vw_device V w" using tunnel_reads_clock [OF E] by metis
  obtain t2 w2 where now2: "instant_now E w1 = (t2, w2)"
    and same2: "vw_wire V w2 = vw_wire V w1" "vw_device V w2 = vw_device V w1" using tunnel_reads_clock [OF E] by metis
  from arrives [OF early, of w1] obtain q where q: "decode_packet frame = Some q"
    by (cases "decode_packet frame") (auto simp: process_inbound_transport_def no_output_def)
  obtain r B0 w0 where round: "transport_to_tun E io pi (Ok (frame, source)) B w = (r, B0, w0)" by (rule prod_cases3)
  have "t < D" using now(2) time inbound_round_time [OF E io now(1) round] q round by simp
  from arrives [OF this, of w1] obtain B' where inb: "process_inbound_transport E B frame source t w1 =
      (Ok \<lparr>out_actions = [WriteIpPacket na source packet], out_events = []\<rparr>, B', w2)" and Q: "Q B'"
    by (auto simp: now2)
  let ?out = "if pi then to_be_bytes_u32 AF_INET @ packet else packet"
  have add: "add_packet_information packet pi (MAX_PACKET_SIZE + PACKET_INFO_SIZE) = Some ?out"
    using fits by (simp add: add_packet_information_def)
  obtain w3 where written: "tn_write_all io ?out w2 = (Ok (), w3)" "vw_device V w3 = vw_device V w2 @ [(h, ?out)]"
    "vw_wire V w3 = vw_wire V w2" using tunnel_writes [OF io] by metis
  have "transport_to_tun E io pi (Ok (frame, source)) B w = (Ok (), B', w3)"
    by (simp add: transport_to_tun_def q now(1) inb valid add written(1))
  from that [OF this Q] written(2,3) same same2 show thesis by simp
qed

definition trip_fits ::
    "'net libs \<Rightarrow> (bool \<Rightarrow> string) \<Rightarrow> (bool \<Rightarrow> bool) \<Rightarrow> (bool \<Rightarrow> ('net, 'hs, 'ts) engine) \<Rightarrow> trip_tun \<Rightarrow> bool" where
  "trip_fits L nm pi hosts m \<longleftrightarrow> (pi (tt_from m) \<longrightarrow> length (tt_header m) = PACKET_INFO_SIZE)
    \<and> length (tt_packet m) + 17 \<le> MAX_NOISE_MESSAGE_SIZE \<and> usable_peer_endpoint (tt_source m)
    \<and> routes_to L (hosts (tt_from m)) (nm (\<not> tt_from m)) (tt_packet m)"

abbreviation hosts_connected ::
    "('hs, 'ts, 'w) runtime \<Rightarrow> (bool \<Rightarrow> string) \<Rightarrow> instant \<Rightarrow> nat \<Rightarrow> (bool \<Rightarrow> ('net, 'hs, 'ts) engine) \<Rightarrow> bool" where
  "hosts_connected E nm since n hosts \<equiv> connected E (nm True) (nm False) since n (hosts True) (hosts False)"

lemma hosts_connected_from: "hosts_connected E nm since n hosts = connected E (nm h) (nm (\<not> h)) since n (hosts h) (hosts (\<not> h))"
  using connected_sym [of E "nm True" "nm False"] by (cases h) auto

lemma tunnel_trip_time:
  assumes "runtime_keeps E V" and "\<And>h. host_works (io h) V h"
  shows "vw_time V (snd (tun_to_transport L E (io (tt_from m)) (pi (tt_from m)) (Ok (device_frame pi m)) (hosts (tt_from m)) w))
      \<le> vw_time V (snd (snd (tunnel_trip L E io pi V m hosts w)))"
proof -
  obtain en w1 where "tun_to_transport L E (io (tt_from m)) (pi (tt_from m)) (Ok (device_frame pi m)) (hosts (tt_from m)) w = (en, w1)"
    by fastforce
  then show ?thesis
    using deliver_frames_time [OF assms, of "\<not> tt_from m"] by (auto simp: tunnel_trip_def Let_def split: prod.splits)
qed

lemma tunnel_trip_carries:
  assumes E: "runtime_keeps E V" and io: "\<And>h. host_works (io h) V h"
    and c: "hosts_connected E nm since (Suc n) hosts" and m: "trip_fits L nm pi hosts m"
    and time: "vw_time V (snd (snd (tunnel_trip L E io pi V m hosts w))) < since + secs 120"
  obtains hosts' w' frame where "tunnel_trip L E io pi V m hosts w = (Ok (), hosts', w')"
    and "hosts_connected E nm since n hosts'" and "vw_device V w' = vw_device V w @ [device_write pi m]"
    and "vw_wire V w' = vw_wire V w @ [(tt_from m, frame)]"
    and "\<And>h name p. routes_to L (hosts h) name p \<Longrightarrow> routes_to L (hosts' h) name p"
proof -
  let ?h = "tt_from m"
  from m have route: "routes_to L (hosts ?h) (nm (\<not> ?h)) (tt_packet m)"
    and fits: "length (tt_packet m) + 17 \<le> MAX_NOISE_MESSAGE_SIZE"
    and strip: "strip_packet_information (device_frame pi m) (pi ?h) = Some (tt_packet m)"
    by (auto simp: trip_fits_def strip_packet_information_def device_frame_def)
  from c have c': "connected E (nm ?h) (nm (\<not> ?h)) since (Suc n) (hosts ?h) (hosts (\<not> ?h))"
    by (simp only: hosts_connected_from [of E nm since "Suc n" hosts ?h])
  have "vw_time V (snd (tun_to_transport L E (io ?h) (pi ?h) (Ok (device_frame pi m)) (hosts ?h) w)) < since + secs 120"
    using tunnel_trip_time [of E V io L m pi hosts w, OF E io] time by simp
  note step = device_to_wire [OF E io strip c' route fits this]
  obtain ep frame A' w1 where
    sent: "tun_to_transport L E (io ?h) (pi ?h) (Ok (device_frame pi m)) (hosts ?h) w = (A', w1)"
    "vw_wire V w1 = vw_wire V w @ [(?h, frame, ep)]" "vw_device V w1 = vw_device V w"
    and keep: "\<And>name p. routes_to L (hosts ?h) name p \<Longrightarrow> routes_to L A' name p"
    and arrives: "\<And>source arrived v. arrived < since + secs 120 \<Longrightarrow>
        \<exists>B'. process_inbound_transport E (hosts (\<not> ?h)) frame source arrived v =
        (Ok \<lparr>out_actions = [WriteIpPacket (nm ?h) source (tt_packet m)], out_events = []\<rparr>, B', snd (instant_now E v))
      \<and> connected E (nm ?h) (nm (\<not> ?h)) since n A' B'
      \<and> (usable_peer_endpoint source \<longrightarrow> (\<forall>name p. routes_to L (hosts (\<not> ?h)) name p \<longrightarrow> routes_to L B' name p))" by (rule step) blast
  let ?Q = "\<lambda>B'. connected E (nm ?h) (nm (\<not> ?h)) since n A' B'
      \<and> (\<forall>name p. routes_to L (hosts (\<not> ?h)) name p \<longrightarrow> routes_to L B' name p)"
  from route obtain ip where ip: "ipv4_parse (tt_packet m) = Ok ip" unfolding routes_to_def by blast
  have small: "length (tt_packet m) \<le> MAX_PACKET_SIZE" using fits by (simp add: MAX_NOISE_MESSAGE_SIZE_def MAX_PACKET_SIZE_def)
  have "usable_peer_endpoint (tt_source m)" using m by (simp add: trip_fits_def)
  with arrives have arrives': "\<exists>B'. process_inbound_transport E (hosts (\<not> ?h)) frame (tt_source m) arrived v =
        (Ok \<lparr>out_actions = [WriteIpPacket (nm ?h) (tt_source m) (tt_packet m)], out_events = []\<rparr>, B', snd (instant_now E v)) \<and> ?Q B'"
    if "arrived < since + secs 120" for arrived v using that by blast
  obtain r B0 w0 where round: "transport_to_tun E (io (\<not> ?h)) (pi (\<not> ?h)) (Ok (frame, tt_source m)) (hosts (\<not> ?h)) w1 = (r, B0, w0)"
    by (rule prod_cases3)
  have early: "since < since + secs 120" by (simp add: secs_def)
  have "vw_time V (snd (snd (transport_to_tun E (io (\<not> ?h)) (pi (\<not> ?h)) (Ok (frame, tt_source m)) (hosts (\<not> ?h)) w1))) < since + secs 120"
    using time sent(1,2) round by (cases r) (simp_all add: tunnel_trip_def Let_def)
  note step2 = wire_to_device [where Q = ?Q, OF E io ip small this early arrives']
  obtain B' w2 where
    got: "transport_to_tun E (io (\<not> ?h)) (pi (\<not> ?h)) (Ok (frame, tt_source m)) (hosts (\<not> ?h)) w1 = (Ok (), B', w2)"
    and Q: "?Q B'" and w2: "vw_wire V w2 = vw_wire V w1" "vw_device V w2 = vw_device V w1 @ [device_write pi m]"
    by (rule step2) (auto simp: device_write_def)
  let ?hosts = "hosts(?h := A', \<not> ?h := B')"
  have trip: "tunnel_trip L E io pi V m hosts w = (Ok (), ?hosts, w2)"
    by (simp add: tunnel_trip_def sent(1,2) got Let_def)
  have "hosts_connected E nm since n ?hosts"
    using Q by (simp only: hosts_connected_from [of E nm since n ?hosts ?h]) simp
  moreover have "routes_to L (?hosts h) name p" if "routes_to L (hosts h) name p" for h name p
    using that keep Q by (cases "h = ?h") auto
  ultimately show thesis using that [OF trip] w2 sent(2,3) by simp
qed

lemma tunnel_run_time:
  assumes "runtime_keeps E V" and "\<And>h. host_works (io h) V h"
  shows "vw_time V w \<le> vw_time V (snd (snd (tunnel_run L E io pi V ms hosts w)))"
proof (induction ms arbitrary: hosts w)
  case (Cons m ms)
  obtain r hosts1 w1 where trip: "tunnel_trip L E io pi V m hosts w = (r, hosts1, w1)" by (rule prod_cases3)
  obtain en w0 where sent: "tun_to_transport L E (io (tt_from m)) (pi (tt_from m)) (Ok (device_frame pi m)) (hosts (tt_from m)) w = (en, w0)"
    by fastforce
  have "vw_time V w \<le> vw_time V w1"
    using tun_to_transport_time [OF assms sent] tunnel_trip_time [of E V io L m pi hosts w, OF assms] sent trip by simp
  with Cons.IH [of w1 hosts1] trip show ?case by (cases r) (auto intro: order_trans)
qed simp

subsection \<open>Properties\<close>

lemma tunnel_half_close:
  fixes E :: "('hs, 'ts, 'w) runtime"
  assumes keeps: "runtime_keeps E V" and io: "\<And>h. host_works (io h) V h" and stay: "sends_stay io W" and clock: "clock_from E T W"
    and u3: "u3 \<in> W" and a4: "confirms E T W (nm True) (nm False) n (source False) A2 B1 f3"
    and time: "vw_time V (snd (snd (tunnel_exchange E io pi V source 2 False [f3] (hosts(True := A2, False := B1)) u3))) < T + secs 120"
  shows "\<exists>hosts' w' frame. tunnel_exchange E io pi V source 2 False [f3] (hosts(True := A2, False := B1)) u3 = (True, hosts', w')
    \<and> vw_wire V w' = vw_wire V u3 @ [(False, frame)] \<and> vw_device V w' = vw_device V u3
    \<and> connected E (nm True) (nm False) T n (hosts' True) (hosts' False)
    \<and> (\<forall>h p q. usable_peer_endpoint (source h) \<longrightarrow> routes_to L (if h then A2 else B1) p q \<longrightarrow> routes_to L (hosts' h) p q)"
proof -
  let ?na = "nm True" and ?nb = "nm False"
  have in_W: "w' \<in> W" if "instant_now E w = (t, w')" "w \<in> W" for w t w'
    using clock_path [OF runtime_calls(2) [OF that(1)] clock that(2)] .
  have swap: "hosts(True := x, False := y, True := z) = hosts(True := z, False := y)" for x y z by (simp add: fun_eq_iff)
  have T: "T < T + secs 120" by (simp add: secs_def)
  obtain tc w4 where now3: "instant_now E u3 = (tc, w4)" by (cases "instant_now E u3")
  have "decode_packet f3 \<noteq> None"
    using a4 [unfolded confirms_def, rule_format, OF in_W [OF now3 u3] T] inbound_decodes by fastforce
  from tunnel_exchange_reads [OF keeps io now3 this time [unfolded numeral_2_eq_2]] have tc: "tc < T + secs 120" .
  from a4 [unfolded confirms_def, rule_format, OF in_W [OF now3 u3] tc] obtain f4 B2 v4 where
    fourth: "process_inbound_transport E B1 f3 (source False) tc w4 =
      (Ok \<lparr>out_actions = [SendTransport ?na (source False) f4], out_events = [HandshakeCompleted ?na (source False) Responder]\<rparr>, B2, v4)"
    and ack: "\<And>t w. t < T + secs 120 \<Longrightarrow> \<exists>A3. process_inbound_transport E A2 f4 (source True) t w =
      (Ok \<lparr>out_actions = [], out_events = []\<rparr>, A3, snd (instant_now E w)) \<and> connected E ?na ?nb T n A3 B2" by blast
  obtain u4 P4 where r4: "deliver_frames E (io False) (pi False) (source False) [f3] B1 u3 = (Ok (), B2\<lparr>en_peers := P4\<rparr>, u4)"
    "u4 \<in> W" "vw_wire V u4 = vw_wire V u3 @ [(False, f4, source False)]" "vw_device V u4 = vw_device V u3"
    "\<And>p q. usable_peer_endpoint (source False) \<Longrightarrow> routes_to L B1 p q \<Longrightarrow> routes_to L (B2\<lparr>en_peers := P4\<rparr>) p q"
    by (rule answering_round [where io = io and h = False, OF io stay keeps clock now3 u3 fourth]) blast
  let ?hosts2 = "hosts(True := A2, False := B2\<lparr>en_peers := P4\<rparr>)"
  have so_far: "tunnel_exchange E io pi V source 2 False [f3] (hosts(True := A2, False := B1)) u3 = tunnel_exchange E io pi V source 1 True [f4] ?hosts2 u4"
    using r4(1,3) by (simp add: new_frames_simps numeral_2_eq_2)
  obtain td w5 where now4: "instant_now E u4 = (td, w5)" by (cases "instant_now E u4")
  have "\<exists>A3. process_inbound_transport E A2 f4 (source True) td w5 =
      (Ok \<lparr>out_actions = [], out_events = []\<rparr>, A3, snd (instant_now E w5)) \<and> connected E ?na ?nb T n A3 B2"
  proof (cases "decode_packet f4")
    case None
    with ack [OF T, of w5] show ?thesis by (simp add: process_inbound_transport_def)
  next
    case (Some x)
    then have "decode_packet f4 \<noteq> None" by simp
    from tunnel_exchange_reads [OF keeps io now4 this time [unfolded so_far One_nat_def]] show ?thesis by (rule ack)
  qed
  then obtain A3 where fifth: "process_inbound_transport E A2 f4 (source True) td w5 =
      (Ok \<lparr>out_actions = [], out_events = []\<rparr>, A3, snd (instant_now E w5))" and c: "connected E ?na ?nb T n A3 B2" by blast
  obtain u5 where r5: "deliver_frames E (io True) (pi True) (source True) [f4] A2 u4 = (Ok (), A3, u5)"
    "vw_wire V u5 = vw_wire V u4" "vw_device V u5 = vw_device V u4" by (rule last_round [OF keeps now4 fifth])
  let ?hosts3 = "hosts(True := A3, False := B2\<lparr>en_peers := P4\<rparr>)"
  have "tunnel_exchange E io pi V source 2 False [f3] (hosts(True := A2, False := B1)) u3 = (True, ?hosts3, u5)"
    using r5(1,2) by (simp add: so_far new_frames_simps swap)
  moreover have "vw_wire V u5 = vw_wire V u3 @ [(False, f4, source False)]" "vw_device V u5 = vw_device V u3"
    using r4(3,4) r5(2,3) by simp_all
  moreover have "connected E ?na ?nb T n (?hosts3 True) (?hosts3 False)"
    using c connected_any_peers [of E ?na ?nb T n "en_peers A3" A3 P4 B2] by simp
  moreover have "routes_to L (?hosts3 h) p q"
    if "usable_peer_endpoint (source h)" "routes_to L (if h then A2 else B1) p q" for h p q
    using that r4(5) inbound_routes [OF fifth] by (cases h) force+
  ultimately show ?thesis by (intro exI [of _ ?hosts3] exI [of _ u5] exI [of _ "(f4, source False)"]) simp
qed

text \<open>C14: from a cold start. When the engines of two daemons know each other's keys and have nothing under
way with each other, a packet that the TUN device of one gives is answered by the other, and four frames
later, within 120 seconds, nothing is under way, both engines are connected with room for \<open>n\<close> messages each
way, neither loop has panicked and no device was written to. Other peers and sessions are arbitrary.\<close>

theorem tunnel_comes_up:
  fixes E :: "('hs, 'ts, 'w) runtime"
  assumes keeps: "runtime_keeps E V" and io: "\<And>h. host_works (io h) V h" and stay: "sends_stay io W" and clock: "clock_from E T W"
    and ready: "ready_pair L E W (nm True) (nm False) pa pb psk (hosts True) (hosts False)" and w: "w \<in> W"
    and strip: "strip_packet_information raw (pi True) = Some packet" and route: "routes_to L (hosts True) (nm False) packet"
    and n: "n + 1 < 2 ^ 32" and time: "vw_time V (snd (snd (tunnel_open L E io pi V source raw hosts w))) < T + secs 120"
  shows "\<exists>hosts' w' frames. tunnel_open L E io pi V source raw hosts w = (True, hosts', w')
    \<and> vw_wire V w' = vw_wire V w @ frames \<and> map fst frames = [True, False, True, False] \<and> vw_device V w' = vw_device V w
    \<and> connected E (nm True) (nm False) T n (hosts' True) (hosts' False)
    \<and> (\<forall>h p q. usable_peer_endpoint (source h) \<longrightarrow> routes_to L (hosts h) p q \<longrightarrow> routes_to L (hosts' h) p q)"
proof -
  obtain A2 B1 f3 u3 frames where
    so_far: "tunnel_open L E io pi V source raw hosts w = tunnel_exchange E io pi V source 2 False [f3] (hosts(True := A2, False := B1)) u3"
    and u3: "u3 \<in> W" and wire: "vw_wire V u3 = vw_wire V w @ frames" "map fst frames = [True, False, True]"
    and device: "vw_device V u3 = vw_device V w" and a4: "confirms E T W (nm True) (nm False) n (source False) A2 B1 f3"
    and routes: "\<forall>h p q. usable_peer_endpoint (source h) \<longrightarrow> routes_to L (hosts h) p q \<longrightarrow> routes_to L (if h then A2 else B1) p q"
    by (rule tunnel_half_open [where io = io and nm = nm and hosts = hosts and pi = pi and source = source,
          OF keeps io stay clock ready w strip route n]) (rule that; assumption)
  from tunnel_half_close [OF keeps io stay clock u3 a4 time [unfolded so_far], where L = L] obtain hosts' w' frame where
    close: "tunnel_exchange E io pi V source 2 False [f3] (hosts(True := A2, False := B1)) u3 = (True, hosts', w')"
    and "vw_wire V w' = vw_wire V u3 @ [(False, frame)]" "vw_device V w' = vw_device V u3"
    and "connected E (nm True) (nm False) T n (hosts' True) (hosts' False)"
    and "\<forall>h p q. usable_peer_endpoint (source h) \<longrightarrow> routes_to L (if h then A2 else B1) p q \<longrightarrow> routes_to L (hosts' h) p q"
    by blast
  then show ?thesis
    using wire device routes
    by (intro exI [of _ hosts'] exI [of _ w'] exI [of _ "frames @ [(False, frame)]"]) (simp add: so_far)
qed

text \<open>C15: end to end, from device to device. Within 120 seconds, two hosts whose engines are connected carry
every packet that either device gives, in whatever mixture of directions: each is sent as exactly one
frame, and the other device is given exactly this packet, in order, with the header that its platform
wants, while neither loop panics and the engines stay connected.\<close>

theorem tunnel_carries_packets:
  assumes keeps: "runtime_keeps E V" "\<And>h. host_works (io h) V h"
    and "hosts_connected E nm since (n + length ms) hosts" and "\<And>m. m \<in> set ms \<Longrightarrow> trip_fits L nm pi hosts m"
    and "vw_time V (snd (snd (tunnel_run L E io pi V ms hosts w))) < since + secs 120"
  shows "\<exists>hosts' w' frames. tunnel_run L E io pi V ms hosts w = (Ok (), hosts', w')
    \<and> vw_device V w' = vw_device V w @ map (device_write pi) ms
    \<and> vw_wire V w' = vw_wire V w @ frames \<and> map fst frames = map tt_from ms
    \<and> hosts_connected E nm since n hosts'"
  using assms(3-5)
proof (induction ms arbitrary: hosts w)
  case (Cons m ms)
  obtain r hosts0 w0 where trip: "tunnel_trip L E io pi V m hosts w = (r, hosts0, w0)" by (rule prod_cases3)
  from Cons.prems have pre: "hosts_connected E nm since (Suc (n + length ms)) hosts" "trip_fits L nm pi hosts m" by simp_all
  have "vw_time V (snd (snd (tunnel_trip L E io pi V m hosts w))) < since + secs 120"
    using Cons.prems(3) trip tunnel_run_time [of E V io w0 L pi ms hosts0, OF keeps] by (cases r) auto
  from tunnel_trip_carries [OF keeps pre this] obtain hosts1 w1 frame where
    trip: "tunnel_trip L E io pi V m hosts w = (Ok (), hosts1, w1)"
    "hosts_connected E nm since (n + length ms) hosts1" "vw_device V w1 = vw_device V w @ [device_write pi m]"
    "vw_wire V w1 = vw_wire V w @ [(tt_from m, frame)]"
    "\<And>h name p. routes_to L (hosts h) name p \<Longrightarrow> routes_to L (hosts1 h) name p" by metis
  have "trip_fits L nm pi hosts1 m'" if "m' \<in> set ms" for m'
    using Cons.prems(2) [of m'] that trip(5) by (simp add: trip_fits_def)
  moreover have "vw_time V (snd (snd (tunnel_run L E io pi V ms hosts1 w1))) < since + secs 120"
    using Cons.prems(3) trip(1) by simp
  ultimately obtain hosts' w' frames where
    "tunnel_run L E io pi V ms hosts1 w1 = (Ok (), hosts', w')"
    "vw_device V w' = vw_device V w1 @ map (device_write pi) ms"
    "vw_wire V w' = vw_wire V w1 @ frames" "map fst frames = map tt_from ms" "hosts_connected E nm since n hosts'"
    using Cons.IH [OF trip(2)] by blast
  with trip(1,3,4) show ?case by (intro exI [of _ hosts'] exI [of _ w'] exI [of _ "(tt_from m, frame) # frames"]) simp
qed simp

text \<open>Two hosts on a network of their own, which loses nothing, with a clock that stops at 5.\<close>

type_synonym demo_network = "nat \<times> (bool \<times> bytes \<times> socket_addr) list \<times> (bool \<times> bytes) list"

definition demo_net_runtime :: "(demo_hs, bytes, demo_network) runtime" where
  "demo_net_runtime =
    \<lparr>fill_bytes = (\<lambda>n (w, v). (replicate n (of_nat w), (Suc w, v))), instant_now = (\<lambda>(w, v). (min w 5, (Suc w, v))),
     build_initiator = build_initiator demo_runtime, build_responder = build_responder demo_runtime,
     hs_write = (\<lambda>st payload n (w, v). case demo_hs_write st payload n w of (r, w1) \<Rightarrow> (r, (w1, v))),
     hs_read = hs_read demo_runtime, hs_remote_static = hs_remote_static demo_runtime,
     hs_transport = hs_transport demo_runtime, ts_write = ts_write demo_runtime, ts_read = ts_read demo_runtime\<rparr>"

definition demo_net_views :: "demo_network views" where
  "demo_net_views = \<lparr>vw_time = (\<lambda>_. 5), vw_wire = (\<lambda>(w, wire, device). wire), vw_device = (\<lambda>(w, wire, device). device)\<rparr>"

definition demo_net_io :: "bool \<Rightarrow> demo_network tunnel_io" where
  "demo_net_io h =
    \<lparr>tn_send_to = (\<lambda>frame endpoint (w, wire, device). (Ok (length frame), (Suc w, wire @ [(h, frame, endpoint)], device))),
     tn_write_all = (\<lambda>packet (w, wire, device). (Ok (), (Suc w, wire, device @ [(h, packet)]))),
     tn_rebind = (\<lambda>w. (Ok False, w))\<rparr>"

definition demo_host_name :: "bool \<Rightarrow> string" where
  "demo_host_name h = (if h then ''a'' else ''b'')"

lemma demo_hs_write_world: "snd (demo_hs_write st p n w) = w"
  by (cases st) simp_all

lemma demo_net_keeps: "runtime_keeps demo_net_runtime demo_net_views"
proof -
  have "vw_wire demo_net_views w' = vw_wire demo_net_views w \<and> vw_device demo_net_views w' = vw_device demo_net_views w"
    if "runtime_step demo_net_runtime w w'" for w w'
    using that by cases (auto simp: demo_net_runtime_def demo_net_views_def split: prod.splits)
  then show ?thesis by (auto simp: runtime_keeps_def demo_net_runtime_def demo_net_views_def split_beta)
qed

lemma demo_net_works: "host_works (demo_net_io h) demo_net_views h"
  by (simp add: host_works_def demo_net_io_def demo_net_views_def split_beta)

lemma demo_net_clock: "clock_from demo_net_runtime 5 {w. 5 \<le> fst w}"
  by (auto simp: clock_from_def demo_net_runtime_def split_beta demo_hs_write_world)

lemma demo_net_stays: "sends_stay demo_net_io {w. 5 \<le> fst w}"
  by (auto simp: sends_stay_def demo_net_io_def)

lemma demo_net_paired: "paired demo_net_runtime a b = paired demo_runtime a b"
  by (simp add: paired_def demo_net_runtime_def)

lemma demo_net_cipher: "cipher_works demo_net_runtime k"
  by (simp add: cipher_works_def demo_net_runtime_def demo_runtime_def)

lemma demo_net_matches: "noise_matches demo_net_runtime demo_ka demo_ka demo_kb demo_kb demo_psk"
proof -
  have "paired demo_net_runtime (drop (length (demo_psk @ pro) - 8) (demo_psk @ pro))
      (drop (length (demo_psk @ pro) - 8) (demo_psk @ pro))" for pro
    unfolding demo_net_paired by (rule demo_paired) (simp add: demo_psk_def)
  then show ?thesis
    by (auto simp: noise_matches_def demo_net_runtime_def demo_runtime_def SESSION_ID_SIZE_def demo_ka_def)
qed

lemma demo_net_completes: "noise_completes demo_net_runtime W demo_ka demo_ka demo_kb demo_kb demo_psk"
proof -
  have "first_message demo_net_runtime W demo_kb demo_ka pro (DInit demo_ka (demo_psk @ pro)) (DResp (demo_psk @ pro)) w" for pro w
    using demo_net_cipher
    by (cases w) (auto simp: first_message_def second_message_def demo_net_runtime_def demo_runtime_def SESSION_ID_SIZE_def
        demo_ka_def split: if_splits)
  with demo_net_matches show ?thesis by (simp add: noise_completes_def demo_net_runtime_def demo_runtime_def)
qed

definition demo_cold_hosts :: "bool \<Rightarrow> (demo_net, demo_hs, bytes) engine" where
  "demo_cold_hosts h = (if h then demo_side demo_ka ''b'' demo_kb else demo_side demo_kb ''a'' demo_ka)"

lemma demo_net_ready:
  "ready_pair demo_libs demo_net_runtime W (demo_host_name True) (demo_host_name False) demo_ka demo_kb demo_psk
    (demo_cold_hosts True) (demo_cold_hosts False)"
proof -
  have "draws_fresh demo_net_runtime W session_manager_new"
    by (auto simp: draws_fresh_def session_manager_new_def session_id_in_use_def demo_net_runtime_def)
  then show ?thesis
    using demo_net_completes sm_inv_new idle_new
    by (auto simp: ready_pair_def knows_def demo_cold_hosts_def demo_host_name_def demo_side_def demo_remote_def engine_start_def)
qed

theorem tunnel_comes_up_witness:
  "\<exists>hosts w. tunnel_open demo_libs demo_net_runtime demo_net_io Not demo_net_views (\<lambda>_. V4 1 2) demo_packet demo_cold_hosts
      (5, [], []) = (True, hosts, w) \<and> map fst (vw_wire demo_net_views w) = [True, False, True, False]
    \<and> connected demo_net_runtime ''a'' ''b'' 5 100 (hosts True) (hosts False)"
proof -
  have route: "routes_to demo_libs (demo_cold_hosts True) (demo_host_name False) demo_packet"
    using demo_side_routes [of demo_ka "''b''" demo_kb] by (simp add: demo_cold_hosts_def demo_host_name_def)
  have strip: "strip_packet_information demo_packet (Not True) = Some demo_packet" by (simp add: strip_packet_information_def)
  have "vw_time demo_net_views w < 5 + secs 120" for w by (simp add: demo_net_views_def secs_def)
  from tunnel_comes_up [where source = "\<lambda>_. V4 1 2" and n = 100 and w = "(5, [], [])" and nm = demo_host_name
        and pi = Not and hosts = demo_cold_hosts and io = demo_net_io and V = demo_net_views,
      OF demo_net_keeps demo_net_works demo_net_stays demo_net_clock demo_net_ready _ strip route _ this]
  obtain hosts w frames where "tunnel_open demo_libs demo_net_runtime demo_net_io Not demo_net_views (\<lambda>_. V4 1 2) demo_packet
      demo_cold_hosts (5, [], []) = (True, hosts, w)" "vw_wire demo_net_views w = vw_wire demo_net_views (5, [], []) @ frames"
    "map fst frames = [True, False, True, False]"
    "connected demo_net_runtime (demo_host_name True) (demo_host_name False) 5 100 (hosts True) (hosts False)" by auto
  then show ?thesis by (intro exI [of _ hosts] exI [of _ w]) (simp add: demo_net_views_def demo_host_name_def)
qed

definition demo_hosts :: "bool \<Rightarrow> (demo_net, demo_hs, bytes) engine" where
  "demo_hosts h = (if h then demo_linked demo_ka ''b'' demo_kb else demo_linked demo_kb ''a'' demo_ka)"

lemma demo_net_connected: "hosts_connected demo_net_runtime demo_host_name 0 2 demo_hosts"
proof -
  have "connected demo_net_runtime na nb since n A B = connected demo_runtime na nb since n A B"
    for na nb since n and A B :: "(demo_net, demo_hs, bytes) engine"
    by (simp add: connected_def linked_def one_way_def cipher_works_def paired_def sm_inv_def demo_net_runtime_def)
  with demo_connected [of 2] show ?thesis by (simp add: demo_hosts_def demo_host_name_def)
qed

theorem tunnel_carries_packets_witness:
  "\<exists>hosts w. tunnel_run demo_libs demo_net_runtime demo_net_io Not demo_net_views
      [\<lparr>tt_from = True, tt_header = [], tt_packet = demo_packet, tt_source = V4 1 2\<rparr>,
       \<lparr>tt_from = False, tt_header = [0, 0, 8, 0], tt_packet = demo_packet, tt_source = V4 3 4\<rparr>] demo_hosts (0, [], [])
      = (Ok (), hosts, w)
    \<and> vw_device demo_net_views w = [(False, to_be_bytes_u32 AF_INET @ demo_packet), (True, demo_packet)]"
  (is "\<exists>hosts w. tunnel_run _ _ _ _ _ ?ms _ _ = _ \<and> _")
proof -
  have "trip_fits demo_libs demo_host_name Not demo_hosts m" if "m \<in> set ?ms" for m
    using that demo_linked_routes
    by (auto simp: trip_fits_def demo_hosts_def demo_host_name_def PACKET_INFO_SIZE_def length_demo_packet
        MAX_NOISE_MESSAGE_SIZE_def usable_peer_endpoint_def)
  note fits = this
  have "vw_time demo_net_views w < 0 + secs 120" for w by (simp add: demo_net_views_def secs_def)
  moreover have "hosts_connected demo_net_runtime demo_host_name 0 (0 + length ?ms) demo_hosts"
    using demo_net_connected by (simp add: numeral_2_eq_2)
  ultimately obtain hosts w frames where
    "tunnel_run demo_libs demo_net_runtime demo_net_io Not demo_net_views ?ms demo_hosts (0, [], []) = (Ok (), hosts, w)"
    "vw_device demo_net_views w = vw_device demo_net_views (0, [], []) @ map (device_write Not) ?ms"
    using tunnel_carries_packets [where n = 0 and since = 0 and w = "(0, [], [])" and io = demo_net_io,
        OF demo_net_keeps demo_net_works _ fits] by blast
  then show ?thesis by (intro exI [of _ hosts] exI [of _ w]) (simp add: device_write_def demo_net_views_def)
qed

end
