(* ===== verification/Gateway.thy ===== *)
theory Gateway
  imports Config Os
begin

text \<open>
  \<^verbatim>\<open>src/src/gateway.rs\<close>: the plan of firewall rules derived from a configuration, and
  applying, removing and inspecting it through \<open>iptables\<close>, \<open>sysctl\<close> and state files. The
  printing of plans and results is in theory \<open>Reports\<close>; the lock is taken by one call that stands for the
  loop that retries an interrupted \<open>flock\<close>.
\<close>

definition IPV4_MINIMUM_TCP_MSS :: u16 where "IPV4_MINIMUM_TCP_MSS = 536"
definition IPV4_TCP_HEADER_BYTES :: u16 where "IPV4_TCP_HEADER_BYTES = 40"
definition STATE_DIRECTORY_ENV :: string where "STATE_DIRECTORY_ENV = ''HUSHWIRE_GATEWAY_STATE_DIR''"

record iptables_rule =
  ru_table :: "string option"
  ru_chain :: string
  ru_spec :: "string list"
  ru_description :: string

record gateway_plan =
  gp_lan_interface :: string
  gp_tunnel_interface :: string
  gp_tunnel_mtu :: u16
  gp_tcp_mss :: u16
  gp_tcp_mss_is_explicit :: bool
  gp_owner_tag :: string
  gp_rules :: "iptables_rule list"

record gateway_status =
  gs_forwarding_enabled :: bool
  gs_lan_interface_exists :: bool
  gs_tunnel_interface_exists :: bool
  gs_tunnel_mtu :: "u16 option"
  gs_expected_tunnel_mtu :: u16
  gs_state_recorded :: bool
  gs_owned_rule_count :: nat
  gs_expected_rule_count :: nat
  gs_rules :: "(string \<times> bool) list"

definition healthy :: "gateway_status \<Rightarrow> bool" where
  "healthy s \<longleftrightarrow>
    gs_forwarding_enabled s \<and> gs_lan_interface_exists s \<and> gs_tunnel_interface_exists s
    \<and> gs_tunnel_mtu s = Some (gs_expected_tunnel_mtu s) \<and> gs_state_recorded s
    \<and> gs_owned_rule_count s = gs_expected_rule_count s
    \<and> list_all (\<lambda>(_, present). present) (gs_rules s)"

definition rule_new :: "string option \<Rightarrow> string \<Rightarrow> string list \<Rightarrow> string \<Rightarrow> iptables_rule" where
  "rule_new table chain spec description =
    \<lparr>ru_table = table, ru_chain = chain, ru_spec = spec, ru_description = description\<rparr>"

definition show_u16 :: "u16 \<Rightarrow> string" where
  "show_u16 n = show_nat (unat n)"

subsection \<open>The plan\<close>

definition owner_tag_of :: "string \<Rightarrow> string" where
  "owner_tag_of tunnel = ''hushwire-gateway:'' @ tunnel"

definition owner_comment :: "string \<Rightarrow> string list" where
  "owner_comment tag = [''-m'', ''comment'', ''--comment'', tag]"

definition mss_rule_spec :: "string \<Rightarrow> string \<Rightarrow> string \<Rightarrow> u16 \<Rightarrow> string list" where
  "mss_rule_spec inp out tag mss =
    [''-i'', inp, ''-o'', out, ''-p'', ''tcp'', ''--tcp-flags'', ''SYN,RST'', ''SYN'']
    @ owner_comment tag @ [''-j'', ''TCPMSS'', ''--set-mss'', show_u16 mss]"

definition plan_rules :: "string \<Rightarrow> string \<Rightarrow> string \<Rightarrow> u16 \<Rightarrow> iptables_rule list" where
  "plan_rules lan tunnel tag mss =
    [rule_new (Some ''mangle'') ''FORWARD'' (mss_rule_spec lan tunnel tag mss) ''LAN to tunnel TCP MSS'',
     rule_new (Some ''mangle'') ''FORWARD'' (mss_rule_spec tunnel lan tag mss) ''tunnel to LAN TCP MSS'',
     rule_new (Some ''nat'') ''POSTROUTING''
       ([''-o'', tunnel] @ owner_comment tag @ [''-j'', ''MASQUERADE'']) ''tunnel masquerade'',
     rule_new None ''FORWARD''
       ([''-i'', lan, ''-o'', tunnel] @ owner_comment tag @ [''-j'', ''ACCEPT'']) ''LAN to tunnel forwarding'',
     rule_new None ''FORWARD''
       ([''-i'', tunnel, ''-o'', lan, ''-m'', ''conntrack'', ''--ctstate'', ''RELATED,ESTABLISHED'']
         @ owner_comment tag @ [''-j'', ''ACCEPT'']) ''established return forwarding'']"

definition plan_from_config :: "'net config \<Rightarrow> (failure, gateway_plan) result" where
  "plan_from_config cfg =
    (case cfg_gateway cfg of
       None \<Rightarrow> Err [''configuration has no [gateway] section; ordinary clients must not manage forwarding'']
     | Some gateway \<Rightarrow>
         let tunnel_mtu = if_mtu (cfg_interface cfg) in
         if tunnel_mtu < IPV4_TCP_HEADER_BYTES
         then Err [''tunnel MTU is too small to derive an IPv4 TCP MSS'']
         else
           let maximum_mss = tunnel_mtu - IPV4_TCP_HEADER_BYTES;
               tcp_mss = (case gw_tcp_mss gateway of Some m \<Rightarrow> m | None \<Rightarrow> maximum_mss) in
           if \<not> (IPV4_MINIMUM_TCP_MSS \<le> tcp_mss \<and> tcp_mss \<le> maximum_mss)
           then Err [''TCP MSS '' @ show_u16 tcp_mss @ '' is outside the safe range ''
                     @ show_u16 IPV4_MINIMUM_TCP_MSS @ ''..='' @ show_u16 maximum_mss
                     @ '' for tunnel MTU '' @ show_u16 tunnel_mtu]
           else
             let lan = trim (gw_lan_interface gateway);
                 tunnel = if_name (cfg_interface cfg);
                 tag = owner_tag_of tunnel
             in Ok \<lparr>gp_lan_interface = lan, gp_tunnel_interface = tunnel, gp_tunnel_mtu = tunnel_mtu,
                    gp_tcp_mss = tcp_mss, gp_tcp_mss_is_explicit = (gw_tcp_mss gateway \<noteq> None),
                    gp_owner_tag = tag, gp_rules = plan_rules lan tunnel tag tcp_mss\<rparr>)"

subsection \<open>Commands\<close>

record iptables_location =
  loc_table :: "string option"
  loc_chain :: string

definition owned_rule_locations :: "iptables_location list" where
  "owned_rule_locations =
    [\<lparr>loc_table = Some ''mangle'', loc_chain = ''FORWARD''\<rparr>,
     \<lparr>loc_table = Some ''nat'', loc_chain = ''POSTROUTING''\<rparr>,
     \<lparr>loc_table = None, loc_chain = ''FORWARD''\<rparr>]"

definition table_args :: "string option \<Rightarrow> string list" where
  "table_args t = [''--wait'', ''5''] @ (case t of None \<Rightarrow> [] | Some table \<Rightarrow> [''-t'', table])"

definition command_args :: "iptables_rule \<Rightarrow> string \<Rightarrow> string list" where
  "command_args r action = table_args (ru_table r) @ [action, ru_chain r] @ ru_spec r"

definition render :: "iptables_rule \<Rightarrow> string \<Rightarrow> string" where
  "render r action = ''iptables '' @ join '' '' (command_args r action)"

definition iptables_program :: "'w os \<Rightarrow> 'w \<Rightarrow> string" where
  "iptables_program sys w =
    (case os_env sys ''HUSHWIRE_IPTABLES'' of
       Some program \<Rightarrow> program
     | None \<Rightarrow> if os_exists sys ''/usr/sbin/iptables'' w then ''/usr/sbin/iptables'' else ''iptables'')"

definition run_iptables :: "'w os \<Rightarrow> string list \<Rightarrow> ('w, process_output) io" where
  "run_iptables sys args w =
    io_context ''running iptables'' (io_call (os_command sys (iptables_program sys w) args)) w"

definition rule_exists :: "'w os \<Rightarrow> iptables_rule \<Rightarrow> ('w, bool) io" where
  "rule_exists sys r =
    io_then (run_iptables sys (command_args r ''-C'')) (\<lambda>out.
      if po_code out = Some 0 then io_ok True
      else if po_code out = Some 1 then io_ok False
      else io_bail (render r ''-C'' @ '' failed: '' @ trim (po_stderr out)))"

definition add_if_missing :: "'w os \<Rightarrow> iptables_rule \<Rightarrow> ('w, bool) io" where
  "add_if_missing sys r =
    io_then (rule_exists sys r) (\<lambda>present.
      if present then io_ok False
      else io_then (run_iptables sys (command_args r ''-A'')) (\<lambda>out.
        if \<not> po_success out then io_bail (render r ''-A'' @ '' failed: '' @ trim (po_stderr out))
        else io_ok True))"

definition delete_once :: "'w os \<Rightarrow> iptables_rule \<Rightarrow> ('w, unit) io" where
  "delete_once sys r =
    io_then (run_iptables sys (command_args r ''-D'')) (\<lambda>out.
      if \<not> po_success out then io_bail (render r ''-D'' @ '' failed: '' @ trim (po_stderr out))
      else io_ok ())"

definition list_iptables_chain :: "'w os \<Rightarrow> string option \<Rightarrow> string \<Rightarrow> ('w, process_output) io" where
  "list_iptables_chain sys table chain =
    io_then (run_iptables sys (table_args table @ [''-S'', chain])) (\<lambda>out.
      if \<not> po_success out
      then io_bail (''could not list iptables chain '' @ chain @ '': '' @ trim (po_stderr out))
      else io_ok out)"

definition delete_iptables_rule_number ::
    "'w os \<Rightarrow> string option \<Rightarrow> string \<Rightarrow> nat \<Rightarrow> ('w, unit) io" where
  "delete_iptables_rule_number sys table chain n =
    io_then (run_iptables sys (table_args table @ [''-D'', chain, show_nat n])) (\<lambda>out.
      if \<not> po_success out
      then io_bail (''could not delete owned rule '' @ show_nat n @ '' from iptables chain '' @ chain
                    @ '': '' @ trim (po_stderr out))
      else io_ok ())"

definition iptables_line_has_owner :: "string \<Rightarrow> string \<Rightarrow> bool" where
  "iptables_line_has_owner line tag =
    any_window2 (\<lambda>a b. a = ''--comment'' \<and> b = tag)
      (map (trim_matches {CHR 0x27, CHR 0x22}) (split_ascii_whitespace line))"

subsection \<open>Owned rules\<close>

fun count_owned_in :: "'w os \<Rightarrow> string \<Rightarrow> iptables_location list \<Rightarrow> nat \<Rightarrow> ('w, nat) io" where
  "count_owned_in sys tag [] count = io_ok count"
| "count_owned_in sys tag (loc # locs) count =
    io_then (list_iptables_chain sys (loc_table loc) (loc_chain loc)) (\<lambda>out.
      count_owned_in sys tag locs
        (count + length (filter (\<lambda>l. iptables_line_has_owner l tag) (str_lines (po_stdout out)))))"

definition count_owned_rules :: "'w os \<Rightarrow> gateway_plan \<Rightarrow> ('w, nat) io" where
  "count_owned_rules sys plan = count_owned_in sys (gp_owner_tag plan) owned_rule_locations 0"

text \<open>The number, counted over the \<open>-A\<close> lines, of the first owned rule of a listing.\<close>

fun owned_rule_number :: "string \<Rightarrow> string list \<Rightarrow> nat \<Rightarrow> nat option" where
  "owned_rule_number tag [] n = None"
| "owned_rule_number tag (line # rest) n =
    (if \<not> starts_with line ''-A '' then owned_rule_number tag rest n
     else if iptables_line_has_owner line tag then Some (Suc n)
     else owned_rule_number tag rest (Suc n))"

text \<open>The inner loop ends because every round removes a rule and 128 removals are the limit.\<close>

function delete_owned_at ::
    "'w os \<Rightarrow> string \<Rightarrow> iptables_location \<Rightarrow> nat \<Rightarrow> ('w, nat) io" where
  "delete_owned_at sys tag loc removed w =
    (case list_iptables_chain sys (loc_table loc) (loc_chain loc) w of
       (Inl e, w1) \<Rightarrow> (Err e, w1)
     | (Inr out, w1) \<Rightarrow>
         (case owned_rule_number tag (str_lines (po_stdout out)) 0 of
            None \<Rightarrow> (Ok removed, w1)
          | Some n \<Rightarrow>
              (case delete_iptables_rule_number sys (loc_table loc) (loc_chain loc) n w1 of
                 (Inl e, w2) \<Rightarrow> (Err e, w2)
               | (Inr _, w2) \<Rightarrow>
                   if removed + 1 > 128
                   then (Err [''refusing to remove more than 128 owned gateway rules''], w2)
                   else delete_owned_at sys tag loc (removed + 1) w2)))"
  by pat_completeness auto
termination
  by (relation "measure (\<lambda>(_, _, _, removed, _). 129 - removed)") auto

declare delete_owned_at.simps [simp del]

fun delete_owned_in ::
    "'w os \<Rightarrow> string \<Rightarrow> iptables_location list \<Rightarrow> nat \<Rightarrow> ('w, nat) io" where
  "delete_owned_in sys tag [] removed = io_ok removed"
| "delete_owned_in sys tag (loc # locs) removed =
    io_then (delete_owned_at sys tag loc removed) (delete_owned_in sys tag locs)"

definition delete_owned_rules :: "'w os \<Rightarrow> gateway_plan \<Rightarrow> ('w, nat) io" where
  "delete_owned_rules sys plan = delete_owned_in sys (gp_owner_tag plan) owned_rule_locations 0"

subsection \<open>State files\<close>

record gateway_state_paths =
  sp_directory :: string
  sp_namespace_id :: string
  sp_marker :: string
  sp_original_forwarding :: string

definition network_namespace_id :: "'w os \<Rightarrow> ('w, string) io" where
  "network_namespace_id sys =
    io_then (io_context ''reading current network namespace'' (io_query (os_read_link sys ''/proc/self/ns/net'')))
      (\<lambda>target.
        let digits = filter is_ascii_digit target in
        if digits = [] then io_bail ''could not identify current network namespace'' else io_ok digits)"

definition state_paths_new :: "'w os \<Rightarrow> gateway_plan \<Rightarrow> ('w, gateway_state_paths) io" where
  "state_paths_new sys plan =
    (let directory = (case os_env sys STATE_DIRECTORY_ENV of Some d \<Rightarrow> d | None \<Rightarrow> ''/run/hushwire'') in
     io_then (network_namespace_id sys) (\<lambda>ns.
       io_ok \<lparr>sp_directory = directory, sp_namespace_id = ns,
              sp_marker = path_join directory
                (''gateway-'' @ ns @ ''-'' @ gp_tunnel_interface plan @ ''.state''),
              sp_original_forwarding = path_join directory (''ip-forward-'' @ ns @ ''.original'')\<rparr>))"

definition ensure_directory :: "'w os \<Rightarrow> gateway_state_paths \<Rightarrow> ('w, unit) io" where
  "ensure_directory sys st =
    io_then (io_context (''creating '' @ sp_directory st)
        (io_call (os_create_dir_all sys (sp_directory st)))) (\<lambda>_.
      io_context (''securing '' @ sp_directory st)
        (io_call (os_set_permissions sys (sp_directory st) 448)))"

text \<open>A file that exists is reported as \<open>False\<close>; one that cannot be written is removed again.\<close>

definition write_new_file :: "'w os \<Rightarrow> string \<Rightarrow> string \<Rightarrow> ('w, bool) io" where
  "write_new_file sys path contents w =
    (case os_create_new sys path w of
       (Inl AlreadyExists, w1) \<Rightarrow> (Ok False, w1)
     | (Inl (CreateFailed e), w1) \<Rightarrow> (Err [''creating '' @ path, e], w1)
     | (Inr _, w1) \<Rightarrow>
         (case os_write_all sys path contents w1 of
            (Inl e, w2) \<Rightarrow> (Err [''writing '' @ path, e], snd (os_remove_file sys path w2))
          | (Inr _, w2) \<Rightarrow> (Ok True, w2)))"

definition record_original_forwarding ::
    "'w os \<Rightarrow> gateway_state_paths \<Rightarrow> string \<Rightarrow> ('w, bool) io" where
  "record_original_forwarding sys st v = write_new_file sys (sp_original_forwarding st) (v @ [CHR 0x0A])"

definition record_gateway :: "'w os \<Rightarrow> gateway_state_paths \<Rightarrow> gateway_plan \<Rightarrow> ('w, bool) io" where
  "record_gateway sys st plan =
    (let nl = [CHR 0x0A];
         contents = ''version=1'' @ nl @ ''namespace='' @ sp_namespace_id st @ nl
           @ ''lan_interface='' @ gp_lan_interface plan @ nl
           @ ''tunnel_interface='' @ gp_tunnel_interface plan @ nl
           @ ''tunnel_mtu='' @ show_u16 (gp_tunnel_mtu plan) @ nl
           @ ''tcp_mss='' @ show_u16 (gp_tcp_mss plan) @ nl in
     io_then (write_new_file sys (sp_marker st) contents) (\<lambda>created.
       if created then io_ok True
       else io_then (io_context (''updating '' @ sp_marker st)
              (io_call (os_write sys (sp_marker st) contents))) (\<lambda>_. io_ok False)))"

definition state_lock_path :: "gateway_state_paths \<Rightarrow> string" where
  "state_lock_path st =
    path_join (sp_directory st) (''gateway-'' @ sp_namespace_id st @ ''.lock'')"

definition state_lock :: "'w os \<Rightarrow> gateway_state_paths \<Rightarrow> ('w, unit) io" where
  "state_lock sys st =
    (let path = state_lock_path st in
     io_then (io_context (''opening gateway state lock '' @ path) (io_call (os_open sys path))) (\<lambda>_.
       io_context (''locking gateway state '' @ path) (io_call (os_lock_exclusive sys path))))"

text \<open>The lock guard is dropped on every way out of the code that holds it.\<close>

definition with_state_lock :: "'w os \<Rightarrow> gateway_state_paths \<Rightarrow> ('w, 'a) io \<Rightarrow> ('w, 'a) io" where
  "with_state_lock sys st body =
    io_then (state_lock sys st) (\<lambda>_ w. case body w of (r, w1) \<Rightarrow> (r, os_unlock sys (state_lock_path st) w1))"

fun any_marker :: "string \<Rightarrow> (string, string) result list \<Rightarrow> (failure, bool) result" where
  "any_marker pre [] = Ok False"
| "any_marker pre (entry # rest) =
    (case entry of
       Inl e \<Rightarrow> Err [e]
     | Inr name \<Rightarrow>
         if starts_with name pre \<and> ends_with name ''.state'' then Ok True else any_marker pre rest)"

definition has_gateway_markers :: "'w os \<Rightarrow> gateway_state_paths \<Rightarrow> ('w, bool) io" where
  "has_gateway_markers sys st w =
    (if \<not> os_exists sys (sp_directory st) w then (Ok False, w)
     else
       io_then (io_context (''reading '' @ sp_directory st) (io_query (os_read_dir sys (sp_directory st))))
         (\<lambda>entries w1. (any_marker (''gateway-'' @ sp_namespace_id st @ ''-'') entries, w1)) w)"

subsection \<open>The system\<close>

definition ensure_linux :: "'w os \<Rightarrow> ('w, unit) io" where
  "ensure_linux sys =
    io_ensure (os_is_linux sys) ''gateway firewall management is currently supported only on Linux''"

definition ensure_linux_root :: "'w os \<Rightarrow> ('w, unit) io" where
  "ensure_linux_root sys =
    io_then (ensure_linux sys) (\<lambda>_. io_ensure (os_euid sys = 0) ''gateway apply/remove must run as root'')"

definition ensure_iptables_available :: "'w os \<Rightarrow> ('w, unit) io" where
  "ensure_iptables_available sys w =
    io_then (io_context ''running iptables --version''
        (io_call (os_command sys (iptables_program sys w) [''--version'']))) (\<lambda>out.
      io_ensure (po_success out) ''iptables is unavailable or failed its version check'') w"

definition interface_path :: "string \<Rightarrow> string" where
  "interface_path interface = path_join ''/sys/class/net'' interface"

definition read_interface_mtu :: "'w os \<Rightarrow> string \<Rightarrow> ('w, u16) io" where
  "read_interface_mtu sys interface =
    (let path = path_join (interface_path interface) ''mtu'' in
     io_then (io_context (''reading interface MTU from '' @ path) (io_query (os_read sys path))) (\<lambda>v.
       io_context (''parsing interface MTU from '' @ path)
         (io_query (\<lambda>_. ok_or ''invalid digit found in string'' (parse_u16 (trim v))))))"

definition read_ip_forward :: "'w os \<Rightarrow> ('w, string) io" where
  "read_ip_forward sys =
    io_then (io_context ''reading /proc/sys/net/ipv4/ip_forward''
        (io_query (os_read sys ''/proc/sys/net/ipv4/ip_forward''))) (\<lambda>v. io_ok (trim v))"

definition write_ip_forward :: "'w os \<Rightarrow> string \<Rightarrow> ('w, unit) io" where
  "write_ip_forward sys v =
    io_then (io_context ''running sysctl''
        (io_call (os_command sys ''sysctl'' [''-w'', ''net.ipv4.ip_forward='' @ v]))) (\<lambda>out.
      if \<not> po_success out then io_bail (''sysctl failed: '' @ trim (po_stderr out)) else io_ok ())"

definition position :: "'a \<Rightarrow> 'a list \<Rightarrow> nat option" where
  "position x xs = find (\<lambda>i. xs ! i = x) [0..<length xs]"

text \<open>The counter in \<open>/proc/net/snmp\<close>: a header line and a line of values, by column.\<close>

fun parse_ip_frag_fails :: "string list \<Rightarrow> (failure, u64 option) result" where
  "parse_ip_frag_fails (header # values # rest) =
    (if \<not> starts_with header ''Ip:'' \<or> \<not> starts_with values ''Ip:'' then parse_ip_frag_fails rest
     else
       let names = drop 1 (split_whitespace header); fields = drop 1 (split_whitespace values) in
       case position ''FragFails'' names of
         None \<Rightarrow> Ok None
       | Some i \<Rightarrow>
           if i < length fields then
             (case parse_u64 (fields ! i) of
                Some v \<Rightarrow> Ok (Some v)
              | None \<Rightarrow> Err [''parsing IpFragFails'', ''invalid digit found in string''])
           else Err [''/proc/net/snmp Ip field count mismatch''])"
| "parse_ip_frag_fails _ = Ok None"

definition read_ip_frag_fails :: "'w os \<Rightarrow> ('w, u64 option) io" where
  "read_ip_frag_fails sys =
    (if \<not> os_is_linux sys then io_ok None
     else io_then (io_context ''reading /proc/net/snmp'' (io_query (os_read sys ''/proc/net/snmp'')))
       (\<lambda>contents w. (parse_ip_frag_fails (str_lines contents), w)))"

subsection \<open>The operations\<close>

definition preflight_interfaces :: "'w os \<Rightarrow> gateway_plan \<Rightarrow> ('w, unit) io" where
  "preflight_interfaces sys plan w =
    (if \<not> os_exists sys (interface_path (gp_lan_interface plan)) w
     then (Err [''network interface '' @ gp_lan_interface plan @ '' does not exist''], w)
     else if \<not> os_exists sys (interface_path (gp_tunnel_interface plan)) w
     then (Err [''network interface '' @ gp_tunnel_interface plan @ '' does not exist''], w)
     else
       io_then (read_interface_mtu sys (gp_tunnel_interface plan)) (\<lambda>actual.
         io_ensure (actual = gp_tunnel_mtu plan)
           (''tunnel interface '' @ gp_tunnel_interface plan @ '' has MTU '' @ show_u16 actual
            @ '', but configuration expects '' @ show_u16 (gp_tunnel_mtu plan)
            @ ''; refusing to install an unsafe MSS'')) w)"

text \<open>Collecting into a \<open>Result\<close> stops at the first error.\<close>

fun rules_exist :: "'w os \<Rightarrow> iptables_rule list \<Rightarrow> ('w, bool list) io" where
  "rules_exist sys [] = io_ok []"
| "rules_exist sys (r # rs) =
    io_then (rule_exists sys r) (\<lambda>p. io_then (rules_exist sys rs) (\<lambda>ps. io_ok (p # ps)))"

text \<open>The rules added so far are kept when a later one fails.\<close>

fun add_rules ::
    "'w os \<Rightarrow> iptables_rule list \<Rightarrow> iptables_rule list \<Rightarrow> 'w
      \<Rightarrow> (failure, unit) result \<times> iptables_rule list \<times> 'w" where
  "add_rules sys [] added w = (Ok (), added, w)"
| "add_rules sys (r # rs) added w =
    (case add_if_missing sys r w of
       (Inl e, w1) \<Rightarrow> (Err e, added, w1)
     | (Inr new, w1) \<Rightarrow> add_rules sys rs (if new then added @ [r] else added) w1)"

definition reconcile_rules :: "'w os \<Rightarrow> gateway_plan \<Rightarrow> ('w, unit) io" where
  "reconcile_rules sys plan =
    io_then (rules_exist sys (gp_rules plan)) (\<lambda>presence.
    io_then (count_owned_rules sys plan) (\<lambda>owned.
      if \<not> list_all id presence \<or> owned \<noteq> length (gp_rules plan)
      then io_then (delete_owned_rules sys plan) (\<lambda>_. io_ok ())
      else io_ok ()))"

definition install_policy ::
    "'w os \<Rightarrow> gateway_plan \<Rightarrow> string \<Rightarrow> 'w
      \<Rightarrow> (failure, unit) result \<times> iptables_rule list \<times> 'w" where
  "install_policy sys plan forwarding_before w =
    (case reconcile_rules sys plan w of
       (Inl e, w1) \<Rightarrow> (Err e, [], w1)
     | (Inr _, w1) \<Rightarrow>
         (case add_rules sys (gp_rules plan) [] w1 of
            (Inl e, added, w2) \<Rightarrow> (Err e, added, w2)
          | (Inr _, added, w2) \<Rightarrow>
              if forwarding_before \<noteq> ''1'' then
                (case write_ip_forward sys ''1'' w2 of (r, w3) \<Rightarrow> (r, added, w3))
              else (Ok (), added, w2)))"

fun delete_added :: "'w os \<Rightarrow> iptables_rule list \<Rightarrow> 'w \<Rightarrow> 'w" where
  "delete_added sys [] w = w"
| "delete_added sys (r # rs) w = delete_added sys rs (io_ignore (delete_once sys r) w)"

definition roll_back ::
    "'w os \<Rightarrow> gateway_state_paths \<Rightarrow> string \<Rightarrow> bool \<Rightarrow> bool \<Rightarrow> iptables_rule list \<Rightarrow> failure
      \<Rightarrow> ('w, unit) io" where
  "roll_back sys st forwarding_before original_created marker_created added e w =
    (let w1 = delete_added sys (rev added) w;
         w2 = (if marker_created then snd (os_remove_file sys (sp_marker st) w1) else w1);
         failed = Err (''gateway apply rolled back after a failed system change'' # e) in
     if original_created then
       (case has_gateway_markers sys st w2 of
          (Inl e2, w3) \<Rightarrow> (Err e2, w3)
        | (Inr True, w3) \<Rightarrow> (failed, w3)
        | (Inr False, w3) \<Rightarrow>
            (failed, snd (os_remove_file sys (sp_original_forwarding st)
               (io_ignore (write_ip_forward sys forwarding_before) w3))))
     else (failed, w2))"

definition gateway_apply :: "'w os \<Rightarrow> gateway_plan \<Rightarrow> ('w, unit) io" where
  "gateway_apply sys plan =
    io_then (ensure_linux_root sys) (\<lambda>_.
    io_then (preflight_interfaces sys plan) (\<lambda>_.
    io_then (ensure_iptables_available sys) (\<lambda>_.
    io_then (state_paths_new sys plan) (\<lambda>st.
    io_then (ensure_directory sys st) (\<lambda>_.
    with_state_lock sys st (
      io_then (read_ip_forward sys) (\<lambda>forwarding_before.
      io_then (record_original_forwarding sys st forwarding_before) (\<lambda>original_created w.
        case record_gateway sys st plan w of
          (Inl e, w1) \<Rightarrow>
            (Err (''recording gateway ownership before system changes'' # e),
             if original_created then snd (os_remove_file sys (sp_original_forwarding st) w1) else w1)
        | (Inr marker_created, w1) \<Rightarrow>
            (case install_policy sys plan forwarding_before w1 of
               (Inr _, _, w2) \<Rightarrow> (Ok (), w2)
             | (Inl e, added, w2) \<Rightarrow>
                 roll_back sys st forwarding_before original_created marker_created added e w2)))))))))"

text \<open>The recorded forwarding setting is written back once no other gateway of the namespace has a
marker; the result is the number of rules removed and the setting restored.\<close>

definition restore_forwarding :: "'w os \<Rightarrow> gateway_state_paths \<Rightarrow> ('w, string option) io" where
  "restore_forwarding sys st w =
    (if \<not> os_exists sys (sp_original_forwarding st) w then (Ok None, w)
     else
       io_then (has_gateway_markers sys st) (\<lambda>others.
         if others then io_ok None
         else
           io_then (io_context (''reading '' @ sp_original_forwarding st)
               (io_query (os_read sys (sp_original_forwarding st)))) (\<lambda>text.
           let original = trim text; valid = original \<in> {''0'', ''1''} in
           io_then (if valid then write_ip_forward sys original else io_ok ()) (\<lambda>_.
           io_then (io_context (''removing '' @ sp_original_forwarding st)
               (io_call (os_remove_file sys (sp_original_forwarding st)))) (\<lambda>_.
             io_ok (if valid then Some original else None))))) w)"

definition gateway_remove :: "'w os \<Rightarrow> gateway_plan \<Rightarrow> ('w, nat \<times> string option) io" where
  "gateway_remove sys plan =
    io_then (ensure_linux_root sys) (\<lambda>_.
    io_then (ensure_iptables_available sys) (\<lambda>_.
    io_then (state_paths_new sys plan) (\<lambda>st.
    io_then (ensure_directory sys st) (\<lambda>_.
    with_state_lock sys st (
      io_then (delete_owned_rules sys plan) (\<lambda>removed.
      io_then (\<lambda>w. if os_exists sys (sp_marker st) w
                 then io_context (''removing '' @ sp_marker st)
                        (io_call (os_remove_file sys (sp_marker st))) w
                 else (Ok (), w)) (\<lambda>_.
      io_then (restore_forwarding sys st) (\<lambda>restored. io_ok (removed, restored)))))))))"

fun rule_states :: "'w os \<Rightarrow> iptables_rule list \<Rightarrow> ('w, (string \<times> bool) list) io" where
  "rule_states sys [] = io_ok []"
| "rule_states sys (r # rs) =
    io_then (rule_exists sys r) (\<lambda>p.
      io_then (rule_states sys rs) (\<lambda>ps. io_ok ((ru_description r, p) # ps)))"

definition gateway_status_of :: "'w os \<Rightarrow> gateway_plan \<Rightarrow> ('w, gateway_status) io" where
  "gateway_status_of sys plan =
    io_then (ensure_linux sys) (\<lambda>_.
    io_then (read_ip_forward sys) (\<lambda>forwarding w.
      let lan_exists = os_exists sys (interface_path (gp_lan_interface plan)) w;
          tunnel_exists = os_exists sys (interface_path (gp_tunnel_interface plan)) w in
      io_then (if tunnel_exists
               then io_then (read_interface_mtu sys (gp_tunnel_interface plan)) (\<lambda>m. io_ok (Some m))
               else io_ok None) (\<lambda>mtu.
      io_then (state_paths_new sys plan) (\<lambda>st.
      io_then (rule_states sys (gp_rules plan)) (\<lambda>rules.
      io_then (count_owned_rules sys plan) (\<lambda>owned w1.
        (Ok \<lparr>gs_forwarding_enabled = (forwarding = ''1''), gs_lan_interface_exists = lan_exists,
             gs_tunnel_interface_exists = tunnel_exists, gs_tunnel_mtu = mtu,
             gs_expected_tunnel_mtu = gp_tunnel_mtu plan,
             gs_state_recorded = os_exists sys (sp_marker st) w1,
             gs_owned_rule_count = owned, gs_expected_rule_count = length (gp_rules plan),
             gs_rules = rules\<rparr>, w1))))) w))"

end
