(* ===== verification/Gateway_Props.thy ===== *)
theory Gateway_Props
  imports Gateway
begin

text \<open>
  Properties of the gateway: what a plan contains, that its rules are recognised as owned, and
  what deleting and installing the owned rules does to the chains of the kernel.
\<close>

subsection \<open>Plans\<close>

definition plain_word :: "string \<Rightarrow> bool" where
  "plain_word t \<longleftrightarrow> t \<noteq> [] \<and>
    list_all (\<lambda>c. \<not> is_ascii_whitespace c \<and> c \<notin> {CHR 0x27, CHR 0x22}) t"

lemma trim_matches_plain: "list_all (\<lambda>c. c \<notin> cs) s \<Longrightarrow> trim_matches cs s = s"
proof -
  have *: "dropWhile (\<lambda>c. c \<in> cs) t = t" if "list_all (\<lambda>c. c \<notin> cs) t" for t
    using that by (cases t) auto
  assume "list_all (\<lambda>c. c \<notin> cs) s"
  then show ?thesis by (simp add: trim_matches_def * list_all_iff)
qed

lemma trim_matches_quoted:
  assumes "c \<in> cs" and "s \<noteq> []" and "list_all (\<lambda>c. c \<notin> cs) s"
  shows "trim_matches cs (c # s @ [c]) = s"
proof -
  have *: "dropWhile (\<lambda>c. c \<in> cs) (t @ u) = t @ u" if "list_all (\<lambda>c. c \<notin> cs) t" "t \<noteq> []" for t u
    using that by (cases t) auto
  from assms show ?thesis by (simp add: trim_matches_def * [of s] * [of "rev s" "[]", simplified] list_all_iff)
qed

lemma digit_char_plain: "n < 10 \<Longrightarrow> is_ascii_digit (digit_char n)"
  by (simp add: digit_char_def is_ascii_digit_def)

lemma show_nat_aux_digits: "list_all is_ascii_digit (show_nat_aux 10 fuel n)"
  by (induction fuel arbitrary: n) (auto simp: digit_char_plain)

lemma show_nat_digits: "list_all is_ascii_digit (show_nat n) \<and> show_nat n \<noteq> []"
  by (simp add: show_nat_def show_nat_aux_digits del: show_nat_aux.simps) (simp add: show_nat_def)

lemma plain_char:
  "is_ascii_alphanumeric c \<or> c \<in> {CHR ''_'', CHR ''-'', CHR ''.''}
    \<Longrightarrow> \<not> is_ascii_whitespace c \<and> c \<notin> {CHR 0x27, CHR 0x22}"
  by (auto simp: is_ascii_alphanumeric_def is_ascii_digit_def is_ascii_whitespace_def)

lemma plain_interface: "is_valid_linux_interface_name n \<Longrightarrow> plain_word n"
  using plain_char by (auto simp: is_valid_linux_interface_name_def plain_word_def list_all_iff)

lemma plain_number: "plain_word (show_u16 n)"
  using show_nat_digits [of "unat n"] plain_char
  by (auto simp: show_u16_def plain_word_def list_all_iff is_ascii_alphanumeric_def)

text \<open>A line of \<open>iptables -S\<close>: the chain and the arguments, the owner's comment in quotes or not.\<close>

definition listed_line :: "bool \<Rightarrow> iptables_rule \<Rightarrow> string" where
  "listed_line quoted r =
    join '' '' ([''-A'', ru_chain r] @
      map (\<lambda>a. if quoted \<and> starts_with a (owner_tag_of []) then CHR 0x22 # a @ [CHR 0x22] else a)
        (ru_spec r))"

lemma owner_of_words:
  assumes "\<forall>t \<in> set ts. plain_word t"
  shows "iptables_line_has_owner
      (join '' '' (map (\<lambda>a. if p a then CHR 0x22 # a @ [CHR 0x22] else a) ts)) tag
    \<longleftrightarrow> any_window2 (\<lambda>a b. a = ''--comment'' \<and> b = tag) ts"
proof -
  let ?q = "\<lambda>a. if p a then CHR 0x22 # a @ [CHR 0x22] else a"
  have quote: "\<not> is_ascii_whitespace (CHR 0x22)" by (simp add: is_ascii_whitespace_def)
  have "?q t \<noteq> [] \<and> list_all (\<lambda>c. \<not> is_ascii_whitespace c) (?q t)" if "t \<in> set ts" for t
    using that assms quote by (simp add: plain_word_def list_all_iff)
  then have "\<forall>t \<in> set (map ?q ts). t \<noteq> [] \<and> list_all (\<lambda>c. \<not> is_ascii_whitespace c) t"
    unfolding set_map ball_simps by blast
  then have "split_ascii_whitespace (join '' '' (map ?q ts)) = map ?q ts"
    by (rule split_ascii_join)
  moreover have "trim_matches {CHR 0x27, CHR 0x22} (?q t) = t" if "t \<in> set ts" for t
  proof -
    from that assms have "t \<noteq> []" and "list_all (\<lambda>c. c \<notin> {CHR 0x27, CHR 0x22}) t"
      by (auto simp: plain_word_def list_all_iff)
    then show ?thesis
      using trim_matches_plain trim_matches_quoted [of "CHR 0x22" "{CHR 0x27, CHR 0x22}" t] by simp
  qed
  then have "map (trim_matches {CHR 0x27, CHR 0x22}) (map ?q ts) = ts"
    unfolding map_map comp_def by (intro map_idI)
  ultimately show ?thesis by (simp only: iptables_line_has_owner_def)
qed

lemma plan_from_config_Ok:
  "plan_from_config cfg = Ok plan \<longleftrightarrow>
    (\<exists>g. cfg_gateway cfg = Some g \<and> 40 \<le> if_mtu (cfg_interface cfg)
      \<and> gp_tcp_mss plan = (case gw_tcp_mss g of Some m \<Rightarrow> m | None \<Rightarrow> if_mtu (cfg_interface cfg) - 40)
      \<and> 536 \<le> gp_tcp_mss plan \<and> gp_tcp_mss plan \<le> if_mtu (cfg_interface cfg) - 40
      \<and> plan = \<lparr>gp_lan_interface = trim (gw_lan_interface g),
          gp_tunnel_interface = if_name (cfg_interface cfg),
          gp_tunnel_mtu = if_mtu (cfg_interface cfg), gp_tcp_mss = gp_tcp_mss plan,
          gp_tcp_mss_is_explicit = (gw_tcp_mss g \<noteq> None),
          gp_owner_tag = owner_tag_of (if_name (cfg_interface cfg)),
          gp_rules = plan_rules (trim (gw_lan_interface g)) (if_name (cfg_interface cfg))
            (owner_tag_of (if_name (cfg_interface cfg))) (gp_tcp_mss plan)\<rparr>)"
  by (cases plan) (auto simp: plan_from_config_def IPV4_TCP_HEADER_BYTES_def
      IPV4_MINIMUM_TCP_MSS_def Let_def not_less split: option.splits)

definition demo_rules :: "iptables_rule list" where
  "demo_rules = plan_rules ''eth0'' ''tun0'' (owner_tag_of ''tun0'') 1160"

definition demo_plan :: gateway_plan where
  "demo_plan = \<lparr>gp_lan_interface = ''eth0'', gp_tunnel_interface = ''tun0'', gp_tunnel_mtu = 1280,
     gp_tcp_mss = 1160, gp_tcp_mss_is_explicit = True, gp_owner_tag = owner_tag_of ''tun0'',
     gp_rules = demo_rules\<rparr>"

lemma demo_plan_made: "plan_from_config demo_config = Ok demo_plan"
  by (simp add: plan_from_config_Ok demo_config_def demo_plan_def demo_rules_def)

text \<open>The gateway of every validated configuration has a plan, and its rules clamp TCP
segments in both directions to an MSS of at least 536 bytes that leaves room for the 40 bytes of
IPv4 and TCP headers within the tunnel's MTU (the subtraction never wraps).\<close>

lemma validated_gateway_has_plan:
  assumes "validate L cfg = Ok ()" and "cfg_gateway cfg = Some g"
  shows "\<exists>plan. plan_from_config cfg = Ok plan
    \<and> 536 \<le> unat (gp_tcp_mss plan)
    \<and> unat (gp_tcp_mss plan) + 40 \<le> unat (if_mtu (cfg_interface cfg))
    \<and> (\<forall>m. gw_tcp_mss g = Some m \<longrightarrow> gp_tcp_mss plan = m)
    \<and> length (gp_rules plan) = 5
    \<and> (\<forall>r \<in> set (take 2 (gp_rules plan)). last (ru_spec r) = show_u16 (gp_tcp_mss plan))"
proof -
  let ?mtu = "if_mtu (cfg_interface cfg)"
  let ?mss = "case gw_tcp_mss g of Some m \<Rightarrow> m | None \<Rightarrow> ?mtu - 40"
  from assms have mtu: "576 \<le> ?mtu" and gw: "gateway_ok (if_name (cfg_interface cfg)) ?mtu g"
    by (auto simp: validate_Ok_iff config_ok_def Let_def)
  then have sub: "unat (?mtu - 40) = unat ?mtu - 40" and "40 \<le> ?mtu" and low: "536 \<le> ?mtu - 40"
    by (auto simp: word_le_nat_alt unat_sub)
  then have mss: "536 \<le> ?mss" "?mss \<le> ?mtu - 40"
    using gw by (auto simp: gateway_ok_def Let_def split: option.splits)
  define plan where "plan = \<lparr>gp_lan_interface = trim (gw_lan_interface g),
    gp_tunnel_interface = if_name (cfg_interface cfg), gp_tunnel_mtu = ?mtu, gp_tcp_mss = ?mss,
    gp_tcp_mss_is_explicit = (gw_tcp_mss g \<noteq> None),
    gp_owner_tag = owner_tag_of (if_name (cfg_interface cfg)),
    gp_rules = plan_rules (trim (gw_lan_interface g)) (if_name (cfg_interface cfg))
      (owner_tag_of (if_name (cfg_interface cfg))) ?mss\<rparr>"
  have "plan_from_config cfg = Ok plan"
    using assms(2) mss \<open>40 \<le> ?mtu\<close> by (simp add: plan_from_config_Ok plan_def)
  moreover have "536 \<le> unat ?mss" "unat ?mss + 40 \<le> unat ?mtu"
    using mss sub mtu by (auto simp: word_le_nat_alt)
  ultimately show ?thesis
    by (intro exI [of _ plan]) (auto simp: plan_def plan_rules_def rule_new_def mss_rule_spec_def)
qed

lemma validated_gateway_has_plan_witness:
  "\<exists>plan. plan_from_config demo_config = Ok plan \<and> gp_tcp_mss plan = 1160"
  using validated_gateway_has_plan [OF demo_validates, of "\<lparr>gw_lan_interface = ''eth0'', gw_tcp_mss = Some 1160\<rparr>"]
  by (auto simp: demo_config_def)

lemma literal_words:
  "list_all plain_word [''-A'', ''-i'', ''-o'', ''-p'', ''tcp'', ''--tcp-flags'', ''SYN,RST'', ''SYN'',
    ''-m'', ''comment'', ''--comment'', ''-j'', ''TCPMSS'', ''--set-mss'', ''MASQUERADE'', ''ACCEPT'',
    ''conntrack'', ''--ctstate'', ''RELATED,ESTABLISHED'', ''FORWARD'', ''POSTROUTING'']"
  by (simp add: plain_word_def is_ascii_whitespace_def)

lemma plan_words:
  assumes "plain_word lan" and "plain_word tunnel" and "plain_word tag" and "r \<in> set (plan_rules lan tunnel tag mss)"
  shows "\<forall>t \<in> set ([''-A'', ru_chain r] @ ru_spec r). plain_word t"
proof -
  note lits = literal_words [unfolded list_all_iff set_simps ball_simps]
  have "list_all (\<lambda>r. \<forall>t \<in> set ([''-A'', ru_chain r] @ ru_spec r). plain_word t)
      (plan_rules lan tunnel tag mss)"
    using lits assms(1-3) plain_number [of mss]
    unfolding plan_rules_def rule_new_def mss_rule_spec_def owner_comment_def
    by (simp only: list.pred_inject append.simps set_simps ball_simps iptables_rule.select_convs simp_thms)
  with assms(4) show ?thesis unfolding list_all_iff by blast
qed

lemma plan_chains:
  "r \<in> set (plan_rules lan tunnel tag mss) \<Longrightarrow> ru_chain r = ''FORWARD'' \<or> ru_chain r = ''POSTROUTING''"
  by (auto simp: plan_rules_def rule_new_def)

lemma plan_windows:
  assumes "r \<in> set (plan_rules lan tunnel (owner_tag_of tunnel) mss)"
  shows "any_window2 (\<lambda>a b. a = ''--comment'' \<and> b = owner_tag_of n) ([''-A'', ru_chain r] @ ru_spec r)
    \<longleftrightarrow> n = tunnel"
  using assms
  by (auto simp: plan_rules_def rule_new_def mss_rule_spec_def owner_comment_def owner_tag_of_def)

lemma plain_owner_tag: "plain_word n \<Longrightarrow> plain_word (owner_tag_of n)"
  by (simp add: plain_word_def owner_tag_of_def is_ascii_whitespace_def)

lemma plan_rule_owned:
  assumes "validate L cfg = Ok ()" and "plan_from_config cfg = Ok plan" and "r \<in> set (gp_rules plan)"
  shows "\<lparr>loc_table = ru_table r, loc_chain = ru_chain r\<rparr> \<in> set owned_rule_locations"
    and "iptables_line_has_owner (listed_line quoted r) (owner_tag_of name)
      \<longleftrightarrow> name = gp_tunnel_interface plan"
proof -
  from assms(2) obtain g where g: "cfg_gateway cfg = Some g"
    and lan: "gp_lan_interface plan = trim (gw_lan_interface g)"
    and tun: "gp_tunnel_interface plan = if_name (cfg_interface cfg)"
    and rules: "gp_rules plan = plan_rules (gp_lan_interface plan) (gp_tunnel_interface plan)
      (owner_tag_of (gp_tunnel_interface plan)) (gp_tcp_mss plan)"
    unfolding plan_from_config_Ok by (metis gateway_plan.select_convs)
  from assms(1) g lan tun have "plain_word (gp_lan_interface plan)" "plain_word (gp_tunnel_interface plan)"
    by (auto simp: validate_Ok_iff config_ok_def gateway_ok_def Let_def plain_interface)
  then have words: "\<forall>t \<in> set ([''-A'', ru_chain r] @ ru_spec r). plain_word t"
    using assms(3) rules by (intro plan_words) (auto simp: plain_owner_tag)
  have "iptables_line_has_owner (listed_line quoted r) (owner_tag_of name)
      \<longleftrightarrow> any_window2 (\<lambda>a b. a = ''--comment'' \<and> b = owner_tag_of name) ([''-A'', ru_chain r] @ ru_spec r)"
  proof -
    have "\<not> starts_with (ru_chain r) (owner_tag_of [])" "\<not> starts_with ''-A'' (owner_tag_of [])"
      using plan_chains [OF assms(3) [unfolded rules]] by (auto simp: starts_with_def owner_tag_of_def)
    then show ?thesis
      using owner_of_words [OF words, of "\<lambda>a. quoted \<and> starts_with a (owner_tag_of [])"]
      by (simp add: listed_line_def)
  qed
  also have "\<dots> \<longleftrightarrow> name = gp_tunnel_interface plan"
    using assms(3) unfolding rules by (rule plan_windows)
  finally show "iptables_line_has_owner (listed_line quoted r) (owner_tag_of name)
      \<longleftrightarrow> name = gp_tunnel_interface plan" .
  show "\<lparr>loc_table = ru_table r, loc_chain = ru_chain r\<rparr> \<in> set owned_rule_locations"
    using assms(3) rules by (auto simp: plan_rules_def rule_new_def owned_rule_locations_def)
qed

text \<open>Every rule of a plan for a validated configuration lies in a chain that deletion and
counting visit, and its line in a listing, with the comment quoted or not, is recognised as
owned by this tunnel and by no other, even when one tunnel's name is a prefix of another's.\<close>

lemma plan_rules_recognised:
  assumes "validate L cfg = Ok ()" and "plan_from_config cfg = Ok plan" and "r \<in> set (gp_rules plan)"
  shows "\<lparr>loc_table = ru_table r, loc_chain = ru_chain r\<rparr> \<in> set owned_rule_locations
    \<and> (iptables_line_has_owner (listed_line quoted r) (owner_tag_of name)
        \<longleftrightarrow> name = gp_tunnel_interface plan)"
  using plan_rule_owned [OF assms] by blast

lemma plan_rules_recognised_witness:
  "list_all (\<lambda>r. iptables_line_has_owner (listed_line True r) (owner_tag_of ''tun0'')
      \<and> \<not> iptables_line_has_owner (listed_line True r) (owner_tag_of ''tun'')) demo_rules"
  using plan_rules_recognised [OF demo_validates demo_plan_made, of _ True "''tun0''"]
    plan_rules_recognised [OF demo_validates demo_plan_made, of _ True "''tun''"]
  by (simp add: list_all_iff) (simp add: demo_plan_def)

end
