(* ===== verification/Gateway_Kernel.thy ===== *)
theory Gateway_Kernel
  imports Gateway_Props "HOL-Library.Multiset"
begin

text \<open>
  The gateway against the documented behaviour of \<open>iptables\<close>. The program is not code of the
  repository; the laws below say how its commands act on the three built-in chains that the gateway
  manages (\<open>owned_rule_locations\<close>: \<open>FORWARD\<close> of the filter table, which goes unnamed, \<open>POSTROUTING\<close>
  of \<open>nat\<close> and \<open>FORWARD\<close> of \<open>mangle\<close>). \<open>chain w loc\<close> gives such a chain as the \<open>-A\<close> lines of its
  listing; nothing is said of listings of other chains, which may not exist, or of other names of
  the same chain.
\<close>

type_synonym 'w chains = "'w \<Rightarrow> iptables_location \<Rightarrow> string list"

abbreviation is_rule_line :: "string \<Rightarrow> bool" where
  "is_rule_line l \<equiv> starts_with l ''-A ''"

text \<open>\<open>-S\<close> prints the rules of a chain in order and changes nothing; only rules have comments.\<close>

definition kernel_lists :: "'w os \<Rightarrow> 'w chains \<Rightarrow> bool" where
  "kernel_lists sys chain \<longleftrightarrow>
    (\<forall>w. \<forall>loc \<in> set owned_rule_locations. \<exists>out. run_iptables sys (table_args (loc_table loc) @ [''-S'', loc_chain loc]) w = (Ok out, w)
      \<and> po_success out \<and> filter is_rule_line (str_lines (po_stdout out)) = chain w loc
      \<and> (\<forall>l \<in> set (str_lines (po_stdout out)). \<forall>tag. iptables_line_has_owner l tag \<longrightarrow> is_rule_line l))"

text \<open>\<open>-D chain n\<close> removes the rule with number \<open>n\<close>, counted from 1.\<close>

definition kernel_deletes :: "'w os \<Rightarrow> 'w chains \<Rightarrow> bool" where
  "kernel_deletes sys chain \<longleftrightarrow>
    (\<forall>w n. \<forall>loc \<in> set owned_rule_locations. 0 < n \<and> n \<le> length (chain w loc) \<longrightarrow>
      (\<exists>out w'. run_iptables sys (table_args (loc_table loc) @ [''-D'', loc_chain loc, show_nat n]) w = (Ok out, w')
        \<and> po_success out
        \<and> chain w' = (chain w)(loc := take (n - 1) (chain w loc) @ drop n (chain w loc))))"

definition rule_location :: "iptables_rule \<Rightarrow> iptables_location" where
  "rule_location r = \<lparr>loc_table = ru_table r, loc_chain = ru_chain r\<rparr>"

text \<open>\<open>-C\<close> tells by its exit code whether a rule is present and \<open>-A\<close> appends it; \<open>printed r\<close> is
the line that lists a rule.\<close>

definition kernel_adds :: "'w os \<Rightarrow> 'w chains \<Rightarrow> (iptables_rule \<Rightarrow> string) \<Rightarrow> iptables_rule list \<Rightarrow> bool" where
  "kernel_adds sys chain printed rules \<longleftrightarrow>
    (\<forall>w. \<forall>r \<in> set rules.
      (\<exists>out. run_iptables sys (command_args r ''-C'') w = (Ok out, w)
        \<and> po_code out = Some (if printed r \<in> set (chain w (rule_location r)) then 0 else 1))
      \<and> (\<exists>out w'. run_iptables sys (command_args r ''-A'') w = (Ok out, w') \<and> po_success out
        \<and> chain w' = (chain w)(rule_location r := chain w (rule_location r) @ [printed r])))"

text \<open>Setting the forwarding switch succeeds and leaves the firewall alone.\<close>

definition kernel_forwards :: "'w os \<Rightarrow> 'w chains \<Rightarrow> bool" where
  "kernel_forwards sys chain \<longleftrightarrow>
    (\<forall>w. \<forall>v \<in> {''0'', ''1''}. \<exists>w'. write_ip_forward sys v w = (Ok (), w') \<and> chain w' = chain w)"

subsection \<open>Deleting the owned rules\<close>

abbreviation foreign :: "string \<Rightarrow> string list \<Rightarrow> string list" where
  "foreign tag ls \<equiv> filter (\<lambda>l. \<not> iptables_line_has_owner l tag) ls"

abbreviation owned :: "string \<Rightarrow> string list \<Rightarrow> string list" where
  "owned tag ls \<equiv> filter (\<lambda>l. iptables_line_has_owner l tag) ls"

lemma owned_rule_number_None:
  "owned tag (filter is_rule_line ls) = [] \<Longrightarrow> owned_rule_number tag ls n = None"
  by (induction ls arbitrary: n) (auto split: if_splits)

lemma owned_rule_number_Some:
  assumes "filter is_rule_line ls = before @ l # rest" and "owned tag before = []"
    and "iptables_line_has_owner l tag"
  shows "owned_rule_number tag ls n = Some (n + length before + 1)"
  using assms
proof (induction ls arbitrary: before n)
  case (Cons x ls)
  show ?case
  proof (cases "is_rule_line x")
    case False
    with Cons show ?thesis by simp
  next
    case True
    with Cons.prems show ?thesis
    proof (cases before)
      case Nil
      with True Cons.prems show ?thesis by simp
    next
      case (Cons y ys)
      with True Cons.prems have "filter is_rule_line ls = ys @ l # rest" "owned tag ys = []"
        and "x = y" "\<not> iptables_line_has_owner y tag" by (auto split: if_splits)
      with True Cons Cons.IH [of ys "Suc n"] \<open>iptables_line_has_owner l tag\<close> show ?thesis by simp
    qed
  qed
qed simp

lemma list_iptables_chain_law:
  assumes "kernel_lists sys chain" and "loc \<in> set owned_rule_locations"
  obtains out where "list_iptables_chain sys (loc_table loc) (loc_chain loc) w = (Ok out, w)"
    and "filter is_rule_line (str_lines (po_stdout out)) = chain w loc"
    and "\<And>tag. owned tag (str_lines (po_stdout out)) = owned tag (chain w loc)"
proof -
  from assms obtain out where
    "run_iptables sys (table_args (loc_table loc) @ [''-S'', loc_chain loc]) w = (Ok out, w)"
    "po_success out" and f: "filter is_rule_line (str_lines (po_stdout out)) = chain w loc"
    and c: "\<forall>l \<in> set (str_lines (po_stdout out)). \<forall>tag. iptables_line_has_owner l tag \<longrightarrow> is_rule_line l"
    unfolding kernel_lists_def by blast
  moreover have "owned tag (str_lines (po_stdout out)) = owned tag (chain w loc)" for tag
    unfolding f [symmetric] filter_filter using c by (intro filter_cong) auto
  ultimately show thesis by (intro that) (simp_all add: list_iptables_chain_def io_then_def)
qed

lemma delete_number_law:
  assumes "kernel_deletes sys chain" and "loc \<in> set owned_rule_locations" and "0 < n" and "n \<le> length (chain w loc)"
  obtains w' where "delete_iptables_rule_number sys (loc_table loc) (loc_chain loc) n w = (Ok (), w')"
    and "chain w' = (chain w)(loc := take (n - 1) (chain w loc) @ drop n (chain w loc))"
proof -
  from assms obtain out w' where
    "run_iptables sys (table_args (loc_table loc) @ [''-D'', loc_chain loc, show_nat n]) w = (Ok out, w')"
    "po_success out" "chain w' = (chain w)(loc := take (n - 1) (chain w loc) @ drop n (chain w loc))"
    unfolding kernel_deletes_def by blast
  then show thesis by (intro that [of w']) (simp_all add: delete_iptables_rule_number_def io_then_def)
qed

lemma delete_owned_at_law:
  assumes "kernel_lists sys chain" and "kernel_deletes sys chain" and here: "loc \<in> set owned_rule_locations"
    and "removed + length (owned tag (chain w loc)) \<le> 128"
  shows "\<exists>w'. delete_owned_at sys tag loc removed w = (Ok (removed + length (owned tag (chain w loc))), w')
    \<and> chain w' = (chain w)(loc := foreign tag (chain w loc))"
  using assms(4)
proof (induction "length (owned tag (chain w loc))" arbitrary: removed w)
  case 0
  obtain out where out: "list_iptables_chain sys (loc_table loc) (loc_chain loc) w = (Ok out, w)"
    "filter is_rule_line (str_lines (po_stdout out)) = chain w loc"
    using list_iptables_chain_law [OF assms(1) here] by metis
  from 0 have none: "owned tag (chain w loc) = []" by simp
  then have "foreign tag (chain w loc) = chain w loc" by (simp add: filter_empty_conv)
  with none out owned_rule_number_None [of tag "str_lines (po_stdout out)" 0] show ?case
    by (simp add: delete_owned_at.simps [of sys])
next
  case (Suc k)
  obtain out where out: "list_iptables_chain sys (loc_table loc) (loc_chain loc) w = (Ok out, w)"
    "filter is_rule_line (str_lines (po_stdout out)) = chain w loc"
    using list_iptables_chain_law [OF assms(1) here] by metis
  from Suc(2) have "owned tag (chain w loc) \<noteq> []" by auto
  then obtain l where "l \<in> set (chain w loc)" "iptables_line_has_owner l tag"
    by (auto simp: filter_empty_conv)
  then obtain before l rest where split: "chain w loc = before @ l # rest"
    and l: "iptables_line_has_owner l tag" and b: "\<forall>x \<in> set before. \<not> iptables_line_has_owner x tag"
    using split_list_first_propE [of "chain w loc" "\<lambda>l. iptables_line_has_owner l tag"] by metis
  let ?n = "length before + 1"
  have num: "owned_rule_number tag (str_lines (po_stdout out)) 0 = Some ?n"
    using owned_rule_number_Some [of "str_lines (po_stdout out)" before l rest tag 0] out(2) split l b
    by (simp add: filter_empty_conv)
  obtain w1 where d: "delete_iptables_rule_number sys (loc_table loc) (loc_chain loc) ?n w = (Ok (), w1)"
    and "chain w1 = (chain w)(loc := take (?n - 1) (chain w loc) @ drop ?n (chain w loc))"
    using delete_number_law [OF assms(2) here, of ?n w] split by auto
  then have c1: "chain w1 = (chain w)(loc := before @ rest)" by (simp add: split)
  have less: "owned tag (chain w loc) = l # owned tag (chain w1 loc)"
    "foreign tag (chain w1 loc) = foreign tag (chain w loc)"
    using b l by (simp_all add: c1 split filter_empty_conv [THEN iffD2])
  with Suc(2,3) have "k = length (owned tag (chain w1 loc))"
    and room: "Suc removed + length (owned tag (chain w1 loc)) \<le> 128" by auto
  from Suc(1) [OF this] obtain w' where
    "delete_owned_at sys tag loc (Suc removed) w1 = (Ok (Suc removed + length (owned tag (chain w1 loc))), w')"
    "chain w' = (chain w1)(loc := foreign tag (chain w1 loc))" by blast
  with room less num out d c1 show ?case
    by (simp add: delete_owned_at.simps [of sys _ _ removed])
qed

lemma delete_owned_in_law:
  assumes "kernel_lists sys chain" and "kernel_deletes sys chain"
    and "distinct locs" and "set locs \<subseteq> set owned_rule_locations"
    and "removed + (\<Sum>loc \<leftarrow> locs. length (owned tag (chain w loc))) \<le> 128"
  shows "\<exists>w'. delete_owned_in sys tag locs removed w
      = (Ok (removed + (\<Sum>loc \<leftarrow> locs. length (owned tag (chain w loc)))), w')
    \<and> (\<forall>loc. chain w' loc = (if loc \<in> set locs then foreign tag (chain w loc) else chain w loc))"
  using assms(3-5)
proof (induction locs arbitrary: removed w)
  case Nil
  then show ?case by simp
next
  case (Cons loc locs)
  then have "loc \<in> set owned_rule_locations" "removed + length (owned tag (chain w loc)) \<le> 128" by simp_all
  from delete_owned_at_law [OF assms(1,2) this] obtain w1 where
    d: "delete_owned_at sys tag loc removed w = (Ok (removed + length (owned tag (chain w loc))), w1)"
    and c1: "chain w1 = (chain w)(loc := foreign tag (chain w loc))" by blast
  have same: "(\<Sum>x \<leftarrow> locs. length (owned tag (chain w1 x))) = (\<Sum>x \<leftarrow> locs. length (owned tag (chain w x)))"
    using Cons.prems(1) by (intro arg_cong [where f = sum_list] map_cong) (auto simp: c1)
  with Cons.prems have "removed + length (owned tag (chain w loc))
      + (\<Sum>loc \<leftarrow> locs. length (owned tag (chain w1 loc))) \<le> 128" by (simp add: same add.assoc)
  with Cons.IH [of "removed + length (owned tag (chain w loc))" w1] Cons.prems(1,2)
  obtain w' where "delete_owned_in sys tag locs (removed + length (owned tag (chain w loc))) w1
      = (Ok (removed + length (owned tag (chain w loc)) + (\<Sum>loc \<leftarrow> locs. length (owned tag (chain w1 loc)))), w')"
    and "\<forall>loc. chain w' loc = (if loc \<in> set locs then foreign tag (chain w1 loc) else chain w1 loc)"
    by auto
  with d Cons.prems(1) c1 same show ?case by (auto simp: io_then_Ok add.assoc)
qed

definition owned_total :: "string \<Rightarrow> (iptables_location \<Rightarrow> string list) \<Rightarrow> nat" where
  "owned_total tag c = (\<Sum>loc \<leftarrow> owned_rule_locations. length (owned tag (c loc)))"

lemma distinct_locations: "distinct owned_rule_locations"
  by (simp add: owned_rule_locations_def)

lemma delete_owned_rules_law:
  assumes "kernel_lists sys chain" and "kernel_deletes sys chain"
    and "owned_total (gp_owner_tag plan) (chain w) \<le> 128"
  shows "\<exists>w'. delete_owned_rules sys plan w = (Ok (owned_total (gp_owner_tag plan) (chain w)), w')
    \<and> (\<forall>loc. chain w' loc = (if loc \<in> set owned_rule_locations
          then foreign (gp_owner_tag plan) (chain w loc) else chain w loc))"
  using delete_owned_in_law [OF assms(1,2) distinct_locations subset_refl, of 0 "gp_owner_tag plan" w] assms(3)
  by (simp add: delete_owned_rules_def owned_total_def)

subsection \<open>Installing the plan\<close>

lemma rule_exists_law:
  assumes "kernel_adds sys chain printed rules" and "r \<in> set rules"
  shows "rule_exists sys r w = (Ok (printed r \<in> set (chain w (rule_location r))), w)"
proof -
  from assms obtain out where "run_iptables sys (command_args r ''-C'') w = (Ok out, w)"
    "po_code out = Some (if printed r \<in> set (chain w (rule_location r)) then 0 else 1)"
    unfolding kernel_adds_def by blast
  then show ?thesis by (simp add: rule_exists_def io_then_Ok)
qed

lemma add_if_missing_law:
  assumes "kernel_adds sys chain printed rules" and "r \<in> set rules"
  obtains w' where "add_if_missing sys r w = (Ok (printed r \<notin> set (chain w (rule_location r))), w')"
    and "chain w' = (if printed r \<in> set (chain w (rule_location r)) then chain w
      else (chain w)(rule_location r := chain w (rule_location r) @ [printed r]))"
    and "printed r \<in> set (chain w (rule_location r)) \<longrightarrow> w' = w"
proof (cases "printed r \<in> set (chain w (rule_location r))")
  case True
  with rule_exists_law [OF assms, of w] show thesis
    by (intro that [of w]) (simp_all add: add_if_missing_def io_then_Ok)
next
  case False
  from assms obtain out w' where "run_iptables sys (command_args r ''-A'') w = (Ok out, w')"
    "po_success out" "chain w' = (chain w)(rule_location r := chain w (rule_location r) @ [printed r])"
    unfolding kernel_adds_def by blast
  with False rule_exists_law [OF assms, of w] show thesis
    by (intro that [of w']) (simp_all add: add_if_missing_def io_then_Ok)
qed

lemma rules_exist_law:
  assumes "kernel_adds sys chain printed rules" and "set rs \<subseteq> set rules"
  shows "rules_exist sys rs w = (Ok (map (\<lambda>r. printed r \<in> set (chain w (rule_location r))) rs), w)"
  using assms(2) by (induction rs) (simp_all add: io_then_Ok rule_exists_law [OF assms(1)])

lemma count_owned_in_law:
  assumes "kernel_lists sys chain" and "set locs \<subseteq> set owned_rule_locations"
  shows "count_owned_in sys tag locs n w = (Ok (n + (\<Sum>loc \<leftarrow> locs. length (owned tag (chain w loc)))), w)"
  using assms(2)
proof (induction locs arbitrary: n)
  case (Cons loc locs)
  then have here: "loc \<in> set owned_rule_locations" by simp
  obtain out where "list_iptables_chain sys (loc_table loc) (loc_chain loc) w = (Ok out, w)"
    and "\<And>tag. owned tag (str_lines (po_stdout out)) = owned tag (chain w loc)"
    using list_iptables_chain_law [OF assms(1) here] by metis
  with Cons show ?case by (simp add: io_then_Ok add.assoc)
qed simp

lemma count_owned_rules_law:
  "kernel_lists sys chain \<Longrightarrow>
    count_owned_rules sys plan w = (Ok (owned_total (gp_owner_tag plan) (chain w)), w)"
  by (simp add: count_owned_rules_def owned_total_def count_owned_in_law)

text \<open>The lines that list the plan's rules of one chain, in the plan's order.\<close>

definition planned :: "(iptables_rule \<Rightarrow> string) \<Rightarrow> iptables_rule list \<Rightarrow> iptables_location \<Rightarrow> string list" where
  "planned printed rules loc = map printed (filter (\<lambda>r. rule_location r = loc) rules)"

lemma add_rules_present:
  assumes "kernel_adds sys chain printed rules" and "set rs \<subseteq> set rules"
    and "\<forall>r \<in> set rs. printed r \<in> set (chain w (rule_location r))"
  shows "add_rules sys rs added w = (Ok (), added, w)"
  using assms(2,3)
proof (induction rs)
  case (Cons r rs)
  then have r: "r \<in> set rules" and old: "printed r \<in> set (chain w (rule_location r))" by simp_all
  have "rule_exists sys r w = (Ok True, w)" using rule_exists_law [OF assms(1) r, of w] old by simp
  then have "add_if_missing sys r w = (Ok False, w)" by (simp add: add_if_missing_def io_then_def)
  with Cons show ?case by simp
qed simp

lemma add_rules_absent:
  assumes "kernel_adds sys chain printed rules" and "set rs \<subseteq> set rules"
    and "distinct (map printed rs)"
    and "\<forall>r \<in> set rs. printed r \<notin> set (chain w (rule_location r))"
  shows "\<exists>w'. add_rules sys rs added w = (Ok (), added @ rs, w')
    \<and> (\<forall>loc. chain w' loc = chain w loc @ planned printed rs loc)"
  using assms(2-4)
proof (induction rs arbitrary: added w)
  case Nil
  then show ?case by (simp add: planned_def)
next
  case (Cons r rs)
  then have r: "r \<in> set rules" and new: "printed r \<notin> set (chain w (rule_location r))" by simp_all
  obtain w1 where "add_if_missing sys r w = (Ok (printed r \<notin> set (chain w (rule_location r))), w1)"
    and "chain w1 = (if printed r \<in> set (chain w (rule_location r)) then chain w
      else (chain w)(rule_location r := chain w (rule_location r) @ [printed r]))"
    by (rule add_if_missing_law [OF assms(1) r])
  with new have a: "add_if_missing sys r w = (Ok True, w1)"
    and c1: "chain w1 = (chain w)(rule_location r := chain w (rule_location r) @ [printed r])"
    by simp_all
  from Cons.prems c1 have "\<forall>r' \<in> set rs. printed r' \<notin> set (chain w1 (rule_location r'))"
    by (auto simp: image_iff)
  with Cons.IH [of w1 "added @ [r]"] Cons.prems obtain w' where
    "add_rules sys rs (added @ [r]) w1 = (Ok (), added @ r # rs, w')"
    "\<forall>loc. chain w' loc = chain w1 loc @ planned printed rs loc" by auto
  with a c1 show ?case by (intro exI [of _ w']) (auto simp: planned_def)
qed

lemma mset_eq_of_subset:
  assumes "distinct xs" and "set xs \<subseteq> set ys" and "length ys \<le> length xs"
  shows "mset ys = mset xs"
proof -
  have "card (set xs) = length xs" by (rule distinct_card [OF assms(1)])
  moreover have "card (set xs) \<le> card (set ys)" using assms(2) by (intro card_mono) auto
  moreover have "card (set ys) \<le> length ys" by (rule card_length)
  ultimately have "card (set ys) = length ys" and "card (set xs) = card (set ys)"
    using assms(3) by auto
  then have "distinct ys" and "set xs = set ys"
    using assms(2) card_subset_eq [of "set ys" "set xs"] by (auto intro: card_distinct)
  with assms(1) show ?thesis by (simp add: set_eq_iff_mset_eq_distinct)
qed

text \<open>What a chain holds after a successful installation.\<close>

definition holds_policy ::
    "string \<Rightarrow> (iptables_rule \<Rightarrow> string) \<Rightarrow> iptables_rule list
      \<Rightarrow> (iptables_location \<Rightarrow> string list) \<Rightarrow> (iptables_location \<Rightarrow> string list) \<Rightarrow> bool" where
  "holds_policy tag printed rules before after \<longleftrightarrow>
    (\<forall>loc \<in> set owned_rule_locations.
        mset (owned tag (after loc)) = mset (planned printed rules loc)
        \<and> foreign tag (after loc) = foreign tag (before loc))
    \<and> (\<forall>loc. loc \<notin> set owned_rule_locations \<longrightarrow> after loc = before loc)"

text \<open>The rules of a plan: in the visited chains, owned, and listed by distinct lines.\<close>

definition listed_rules :: "string \<Rightarrow> (iptables_rule \<Rightarrow> string) \<Rightarrow> iptables_rule list \<Rightarrow> bool" where
  "listed_rules tag printed rules \<longleftrightarrow>
    distinct (map printed rules)
    \<and> (\<forall>r \<in> set rules. rule_location r \<in> set owned_rule_locations
        \<and> iptables_line_has_owner (printed r) tag)"

lemma planned_total:
  assumes "listed_rules tag printed rules"
  shows "length rules = (\<Sum>loc \<leftarrow> owned_rule_locations. length (planned printed rules loc))"
  using assms
proof (induction rules)
  case (Cons r rules)
  then have "rule_location r \<in> set owned_rule_locations" and "listed_rules tag printed rules"
    by (auto simp: listed_rules_def)
  with Cons.IH show ?case by (auto simp: owned_rule_locations_def planned_def)
qed (simp add: planned_def owned_rule_locations_def)

lemma sum_list_pointwise:
  assumes "\<forall>x \<in> set xs. f x \<le> g x" and "(\<Sum>x \<leftarrow> xs. g x) = (\<Sum>x \<leftarrow> xs. f x)"
  shows "\<forall>x \<in> set xs. g x = (f x :: nat)"
  using assms
proof (induction xs)
  case (Cons x xs)
  then have "(\<Sum>x \<leftarrow> xs. f x) \<le> (\<Sum>x \<leftarrow> xs. g x)" by (intro sum_list_mono) simp
  with Cons.prems have "g x = f x" and "(\<Sum>x \<leftarrow> xs. g x) = (\<Sum>x \<leftarrow> xs. f x)" by auto
  with Cons show ?case by simp
qed simp

lemma already_installed:
  assumes "listed_rules tag printed rules" and "owned_total tag c = length rules"
    and "\<forall>r \<in> set rules. printed r \<in> set (c (rule_location r))"
  shows "holds_policy tag printed rules c c"
proof -
  have sub: "set (planned printed rules loc) \<subseteq> set (owned tag (c loc))" for loc
    using assms(1,3) by (auto simp: planned_def listed_rules_def)
  have dist: "distinct (planned printed rules loc)" for loc
    using assms(1) unfolding listed_rules_def planned_def
    by (metis distinct_map distinct_filter filter_is_subset inj_on_subset)
  have le: "length (planned printed rules loc) \<le> length (owned tag (c loc))" for loc
    using sub dist by (metis card_length card_mono distinct_card le_trans List.finite_set)
  have "(\<Sum>loc \<leftarrow> owned_rule_locations. length (owned tag (c loc)))
      = (\<Sum>loc \<leftarrow> owned_rule_locations. length (planned printed rules loc))"
    using assms(2) planned_total [OF assms(1)] by (simp add: owned_total_def)
  then have "\<forall>loc \<in> set owned_rule_locations. length (owned tag (c loc)) = length (planned printed rules loc)"
    using le by (intro sum_list_pointwise) auto
  then have "mset (owned tag (c loc)) = mset (planned printed rules loc)"
    if "loc \<in> set owned_rule_locations" for loc
    using that by (intro mset_eq_of_subset [OF dist sub]) simp
  then show ?thesis unfolding holds_policy_def by blast
qed

lemma freshly_installed:
  assumes "listed_rules tag printed rules"
    and "\<forall>loc. mid loc = (if loc \<in> set owned_rule_locations then foreign tag (c loc) else c loc)"
    and "\<forall>loc. after loc = mid loc @ planned printed rules loc"
  shows "holds_policy tag printed rules c after"
proof -
  have own: "\<forall>l \<in> set (planned printed rules loc). iptables_line_has_owner l tag" for loc
    using assms(1) by (auto simp: listed_rules_def planned_def)
  then have "owned tag (planned printed rules loc) = planned printed rules loc"
    "foreign tag (planned printed rules loc) = []" for loc
    by (auto simp: filter_id_conv filter_empty_conv)
  moreover have "planned printed rules loc = []" if "loc \<notin> set owned_rule_locations" for loc
    using that assms(1) by (auto simp: listed_rules_def planned_def filter_empty_conv)
  ultimately show ?thesis
    using assms(2,3) by (simp add: holds_policy_def filter_empty_conv)
qed

lemma install_policy_law:
  assumes "kernel_lists sys chain" and "kernel_deletes sys chain"
    and "kernel_adds sys chain printed (gp_rules plan)" and "kernel_forwards sys chain"
    and listed: "listed_rules (gp_owner_tag plan) printed (gp_rules plan)"
    and "owned_total (gp_owner_tag plan) (chain w) \<le> 128"
  shows "\<exists>added w'. install_policy sys plan forwarding w = (Ok (), added, w')
    \<and> holds_policy (gp_owner_tag plan) printed (gp_rules plan) (chain w) (chain w')"
proof -
  let ?rules = "gp_rules plan" and ?tag = "gp_owner_tag plan"
  have last: "\<exists>w3. (if forwarding \<noteq> ''1'' then
        (case write_ip_forward sys ''1'' u of (r, w3) \<Rightarrow> (r, added, w3)) else (Ok (), added, u))
      = (Ok (), added, w3) \<and> chain w3 = chain u" for added :: "iptables_rule list" and u
  proof -
    from assms(4) obtain w3 where "write_ip_forward sys ''1'' u = (Ok (), w3)" "chain w3 = chain u"
      unfolding kernel_forwards_def by (elim allE [of _ u]) auto
    then show ?thesis by simp
  qed
  have exist: "rules_exist sys ?rules w = (Ok (map (\<lambda>r. printed r \<in> set (chain w (rule_location r))) ?rules), w)"
    by (rule rules_exist_law [OF assms(3)]) simp
  note count = count_owned_rules_law [OF assms(1), of plan w]
  show ?thesis
  proof (cases "(\<forall>r \<in> set ?rules. printed r \<in> set (chain w (rule_location r)))
      \<and> owned_total ?tag (chain w) = length ?rules")
    case True
    then have "reconcile_rules sys plan w = (Ok (), w)"
      by (simp add: reconcile_rules_def io_then_def exist count list_all_iff)
    moreover have "add_rules sys ?rules [] w = (Ok (), [], w)"
      using True by (intro add_rules_present [OF assms(3)]) auto
    ultimately show ?thesis
      using last [where u = w and added = "[]"] already_installed [OF listed] True by (auto simp: install_policy_def)
  next
    case False
    obtain w1 where del: "delete_owned_rules sys plan w = (Ok (owned_total ?tag (chain w)), w1)"
      and mid: "\<forall>loc. chain w1 loc = (if loc \<in> set owned_rule_locations
          then foreign ?tag (chain w loc) else chain w loc)"
      using delete_owned_rules_law [OF assms(1,2,6)] by blast
    from False have rec: "reconcile_rules sys plan w = (Ok (), w1)"
      by (auto simp: reconcile_rules_def io_then_def exist count del list_all_iff)
    have "\<forall>r \<in> set ?rules. printed r \<notin> set (chain w1 (rule_location r))"
      using listed mid by (auto simp: listed_rules_def)
    with add_rules_absent [OF assms(3) subset_refl, of w1 "[]"] listed obtain w2 where
      "add_rules sys ?rules [] w1 = (Ok (), ?rules, w2)"
      "\<forall>loc. chain w2 loc = chain w1 loc @ planned printed ?rules loc"
      by (auto simp: listed_rules_def)
    with freshly_installed [OF listed mid] last [where u = w2 and added = ?rules] rec show ?thesis
      by (auto simp: install_policy_def)
  qed
qed

lemma install_again:
  assumes "kernel_lists sys chain" and "kernel_adds sys chain printed (gp_rules plan)"
    and listed: "listed_rules (gp_owner_tag plan) printed (gp_rules plan)"
    and "holds_policy (gp_owner_tag plan) printed (gp_rules plan) before (chain w)"
  shows "install_policy sys plan ''1'' w = (Ok (), [], w)"
proof -
  let ?rules = "gp_rules plan" and ?tag = "gp_owner_tag plan"
  have m: "mset (owned ?tag (chain w loc)) = mset (planned printed ?rules loc)"
    if "loc \<in> set owned_rule_locations" for loc
    using assms(4) that by (simp add: holds_policy_def)
  have "length (owned ?tag (chain w loc)) = length (planned printed ?rules loc)"
    if "loc \<in> set owned_rule_locations" for loc
    using m [OF that] by (rule mset_eq_length)
  then have "owned_total ?tag (chain w) = length ?rules"
    unfolding owned_total_def planned_total [OF listed]
    by (intro arg_cong [where f = sum_list] map_cong) auto
  moreover have "printed r \<in> set (chain w (rule_location r))" if "r \<in> set ?rules" for r
  proof -
    from that listed have "rule_location r \<in> set owned_rule_locations" by (simp add: listed_rules_def)
    from mset_eq_setD [OF m [OF this]] that show ?thesis by (auto simp: planned_def)
  qed
  ultimately have "reconcile_rules sys plan w = (Ok (), w)" and "add_rules sys ?rules [] w = (Ok (), [], w)"
    using rules_exist_law [OF assms(2) subset_refl] count_owned_rules_law [OF assms(1)]
      add_rules_present [OF assms(2) subset_refl]
    by (simp_all add: reconcile_rules_def io_then_def list_all_iff)
  then show ?thesis by (simp add: install_policy_def)
qed

lemma plan_distinct: "plan_from_config cfg = Ok plan \<Longrightarrow> distinct (gp_rules plan)"
  unfolding plan_from_config_Ok by (cases plan) (auto simp: plan_rules_def rule_new_def)

lemma plan_listed:
  assumes "validate L cfg = Ok ()" and p: "plan_from_config cfg = Ok plan"
    and "inj_on printed (set (gp_rules plan))"
    and "\<forall>r \<in> set (gp_rules plan). \<forall>tag.
      iptables_line_has_owner (printed r) tag \<longleftrightarrow> iptables_line_has_owner (listed_line quoted r) tag"
  shows "listed_rules (gp_owner_tag plan) printed (gp_rules plan)"
proof -
  have tag: "gp_owner_tag plan = owner_tag_of (gp_tunnel_interface plan)"
    using p unfolding plan_from_config_Ok by (metis gateway_plan.select_convs)
  show ?thesis
    using plan_rule_owned [OF assms(1) p] assms(3,4) plan_distinct [OF p]
    by (simp add: listed_rules_def rule_location_def distinct_map tag)
qed

subsection \<open>A concrete kernel\<close>

text \<open>
  An instance of the laws at which the witnesses evaluate. A chain is a list of numbers: below 5
  the rules of the sample configuration's plan, from 5 on rules of somebody else.
\<close>

type_synonym demo_world = "iptables_location \<Rightarrow> nat list"

definition demo_line :: "nat \<Rightarrow> string" where
  "demo_line i = (if i < 5 then listed_line True (demo_rules ! i) else ''-A FORWARD -j LOG'')"

definition decimal :: "string \<Rightarrow> nat" where
  "decimal s = foldl (\<lambda>a c. 10 * a + (of_char c - 48)) 0 s"

definition demo_out :: "int \<Rightarrow> string \<Rightarrow> demo_world \<Rightarrow> (string, process_output) result \<times> demo_world" where
  "demo_out code text w = (Ok \<lparr>po_code = Some code, po_stdout = text, po_stderr = []\<rparr>, w)"

definition demo_action ::
    "iptables_location \<Rightarrow> string \<Rightarrow> string list \<Rightarrow> demo_world
      \<Rightarrow> (string, process_output) result \<times> demo_world" where
  "demo_action loc action rest w =
    (let line = listed_line True (rule_new (loc_table loc) (loc_chain loc) rest []) in
     if action = ''-S'' then demo_out 0 (concat (map (\<lambda>i. demo_line i @ [CHR 0x0A]) (w loc))) w
     else if action = ''-D'' then
       (let n = decimal (hd rest) in demo_out 0 [] (w(loc := take (n - 1) (w loc) @ drop n (w loc))))
     else if action = ''-C'' then
       demo_out (if line \<in> set (map demo_line (w loc)) then 0 else 1) [] w
     else
       case find (\<lambda>i. demo_line i = line) [0..<5] of
         None \<Rightarrow> demo_out 2 [] w
       | Some i \<Rightarrow> demo_out 0 [] (w(loc := w loc @ [i])))"

definition demo_command ::
    "string \<Rightarrow> string list \<Rightarrow> demo_world \<Rightarrow> (string, process_output) result \<times> demo_world" where
  "demo_command program args w =
    (if program = ''sysctl'' then demo_out 0 [] w
     else
       let t = drop 2 args in
       if t ! 0 = ''-t'' then demo_action \<lparr>loc_table = Some (t ! 1), loc_chain = t ! 3\<rparr> (t ! 2) (drop 4 t) w
       else demo_action \<lparr>loc_table = None, loc_chain = t ! 1\<rparr> (t ! 0) (drop 2 t) w)"

definition demo_os :: "demo_world os" where
  "demo_os = \<lparr>os_is_linux = True, os_euid = 0, os_env = (\<lambda>_. None), os_command = demo_command,
     os_exists = (\<lambda>p _. p \<noteq> ''/usr/sbin/iptables''), os_read = (\<lambda>_ _. Ok ''0''), os_read_link = (\<lambda>_ _. Ok ''net:[4026]''),
     os_read_dir = (\<lambda>_ _. Ok []), os_create_dir_all = (\<lambda>_ w. (Ok (), w)),
     os_set_permissions = (\<lambda>_ _ w. (Ok (), w)), os_create_new = (\<lambda>_ w. (Ok (), w)),
     os_write_all = (\<lambda>_ _ w. (Ok (), w)), os_write = (\<lambda>_ _ w. (Ok (), w)),
     os_remove_file = (\<lambda>_ w. (Ok (), w)), os_open = (\<lambda>_ w. (Ok (), w)),
     os_lock_exclusive = (\<lambda>_ w. (Ok (), w)), os_unlock = (\<lambda>_ w. w)\<rparr>"

definition demo_chain :: "demo_world chains" where
  "demo_chain w loc = map demo_line (w loc)"

lemma decimal_append: "decimal (s @ [c]) = 10 * decimal s + (of_char c - 48)"
  by (simp add: decimal_def)

lemma decimal_show_aux: "n < fuel \<Longrightarrow> decimal (show_nat_aux 10 fuel n) = n"
  by (induction fuel arbitrary: n) (auto simp: decimal_append digit_char_def decimal_def [of "[_]"])

lemma decimal_show_nat [simp]: "decimal (show_nat n) = n"
  unfolding show_nat_def by (rule decimal_show_aux) simp

lemma split_on_line: "c \<notin> set s \<Longrightarrow> split_on c (s @ c # t) = s # split_on c t"
  by (induction s) auto

lemma split_on_nonempty: "split_on c s \<noteq> []"
  by (cases s) (auto split: list.splits)

lemma str_lines_concat:
  assumes "\<forall>l \<in> set ls. CHR 0x0A \<notin> set l \<and> strip_cr l = l"
  shows "str_lines (concat (map (\<lambda>l. l @ [CHR 0x0A]) ls)) = ls"
proof -
  have "split_on (CHR 0x0A) (concat (map (\<lambda>l. l @ [CHR 0x0A]) ls)) = ls @ [[]]"
    using assms by (induction ls) (auto simp: split_on_line)
  with assms show ?thesis by (simp add: str_lines_def Let_def map_idI)
qed

lemma demo_lines_plain:
  "list_all (\<lambda>l. CHR 0x0A \<notin> set l \<and> strip_cr l = l \<and> is_rule_line l) (map demo_line [0..<6])"
  by code_simp

lemma demo_line_plain: "CHR 0x0A \<notin> set (demo_line i) \<and> strip_cr (demo_line i) = demo_line i \<and> is_rule_line (demo_line i)"
proof (cases "i < 6")
  case True
  with demo_lines_plain show ?thesis by (simp add: list_all_iff)
next
  case False
  then have "demo_line i = demo_line 5" by (simp add: demo_line_def)
  with demo_lines_plain show ?thesis by (simp add: list_all_iff)
qed

lemma demo_command_action:
  assumes "action \<noteq> ''-t''"
  shows "demo_command ''iptables'' (table_args (loc_table loc) @ action # loc_chain loc # rest) w
    = demo_action loc action rest w"
  using assms by (cases loc; cases "loc_table loc") (simp_all add: demo_command_def table_args_def)

lemma demo_program [simp]: "iptables_program demo_os w = ''iptables''"
  "os_command demo_os = demo_command"
  by (simp_all add: iptables_program_def demo_os_def)

lemma demo_run:
  assumes "action \<noteq> ''-t''" and "demo_action loc action rest w = (Ok out, w')"
  shows "run_iptables demo_os (table_args (loc_table loc) @ action # loc_chain loc # rest) w = (Ok out, w')"
  using assms by (simp add: run_iptables_def io_context_def io_call_def demo_command_action)

lemma demo_listing:
  "str_lines (concat (map (\<lambda>i. demo_line i @ [CHR 0x0A]) ns)) = map demo_line ns"
proof -
  have "concat (map (\<lambda>i. demo_line i @ [CHR 0x0A]) ns)
      = concat (map (\<lambda>l. l @ [CHR 0x0A]) (map demo_line ns))" by (simp add: comp_def)
  with str_lines_concat [of "map demo_line ns"] demo_line_plain show ?thesis by simp
qed

lemma demo_kernel_lists: "kernel_lists demo_os demo_chain"
  unfolding kernel_lists_def
proof (intro allI ballI)
  fix w :: demo_world and loc :: iptables_location
  let ?text = "concat (map (\<lambda>i. demo_line i @ [CHR 0x0A]) (w loc))"
  have "demo_action loc ''-S'' [] w = (Ok \<lparr>po_code = Some 0, po_stdout = ?text, po_stderr = []\<rparr>, w)"
    by (simp add: demo_action_def demo_out_def)
  from demo_run [OF _ this] demo_line_plain
  show "\<exists>out. run_iptables demo_os (table_args (loc_table loc) @ [''-S'', loc_chain loc]) w = (Ok out, w)
      \<and> po_success out \<and> filter is_rule_line (str_lines (po_stdout out)) = demo_chain w loc
      \<and> (\<forall>l \<in> set (str_lines (po_stdout out)). \<forall>tag. iptables_line_has_owner l tag \<longrightarrow> is_rule_line l)"
    by (intro exI [of _ "\<lparr>po_code = Some 0, po_stdout = ?text, po_stderr = []\<rparr>"])
      (auto simp: po_success_def demo_listing demo_chain_def filter_id_conv)
qed

lemma demo_kernel_deletes: "kernel_deletes demo_os demo_chain"
  unfolding kernel_deletes_def
proof (intro allI ballI impI)
  fix w :: demo_world and loc :: iptables_location and n
  let ?w = "w(loc := take (n - 1) (w loc) @ drop n (w loc))"
  have "demo_action loc ''-D'' [show_nat n] w = (Ok \<lparr>po_code = Some 0, po_stdout = [], po_stderr = []\<rparr>, ?w)"
    by (simp add: demo_action_def demo_out_def Let_def)
  from demo_run [OF _ this]
  show "\<exists>out w'. run_iptables demo_os (table_args (loc_table loc) @ [''-D'', loc_chain loc, show_nat n]) w = (Ok out, w')
      \<and> po_success out
      \<and> demo_chain w' = (demo_chain w)(loc := take (n - 1) (demo_chain w loc) @ drop n (demo_chain w loc))"
    by (intro exI [of _ "\<lparr>po_code = Some 0, po_stdout = [], po_stderr = []\<rparr>"] exI [of _ ?w])
      (auto simp: po_success_def demo_chain_def take_map drop_map)
qed

lemma demo_find:
  assumes "r \<in> set demo_rules"
  obtains i where "find (\<lambda>i. demo_line i = listed_line True r) [0..<5] = Some i"
    and "demo_line i = listed_line True r"
proof -
  have len: "length demo_rules = 5" by (simp add: demo_rules_def plan_rules_def)
  with assms obtain i where "i < 5" "demo_rules ! i = r" by (metis in_set_conv_nth)
  then have "\<exists>i \<in> set [0..<5]. demo_line i = listed_line True r"
    by (intro bexI [of _ i]) (simp_all add: demo_line_def)
  then obtain j where "find (\<lambda>i. demo_line i = listed_line True r) [0..<5] = Some j"
    by (cases "find (\<lambda>i. demo_line i = listed_line True r) [0..<5]") (auto simp: find_None_iff)
  with that show thesis by (auto simp: find_Some_iff)
qed

lemma listed_line_rule: "listed_line q (rule_new (ru_table r) (ru_chain r) (ru_spec r) d) = listed_line q r"
  by (simp add: listed_line_def rule_new_def)

lemma demo_kernel_adds: "kernel_adds demo_os demo_chain (listed_line True) demo_rules"
  unfolding kernel_adds_def
proof (intro allI ballI conjI)
  fix w r
  assume r: "r \<in> set demo_rules"
  let ?loc = "rule_location r"
  have args: "command_args r action = table_args (loc_table ?loc) @ action # loc_chain ?loc # ru_spec r" for action
    by (simp add: command_args_def rule_location_def)
  have line: "listed_line True (rule_new (loc_table ?loc) (loc_chain ?loc) (ru_spec r) []) = listed_line True r"
    by (simp add: rule_location_def listed_line_rule)
  let ?c = "if listed_line True r \<in> set (demo_chain w ?loc) then 0 else 1 :: int"
  have "demo_action ?loc ''-C'' (ru_spec r) w = (Ok \<lparr>po_code = Some ?c, po_stdout = [], po_stderr = []\<rparr>, w)"
    by (simp add: demo_action_def demo_out_def line demo_chain_def)
  from demo_run [OF _ this]
  show "\<exists>out. run_iptables demo_os (command_args r ''-C'') w = (Ok out, w) \<and> po_code out = Some ?c"
    by (intro exI [of _ "\<lparr>po_code = Some ?c, po_stdout = [], po_stderr = []\<rparr>"]) (simp add: args)
  obtain i where i: "find (\<lambda>i. demo_line i = listed_line True r) [0..<5] = Some i"
    "demo_line i = listed_line True r" using demo_find [OF r] .
  let ?w = "w(?loc := w ?loc @ [i])"
  have "demo_action ?loc ''-A'' (ru_spec r) w = (Ok \<lparr>po_code = Some 0, po_stdout = [], po_stderr = []\<rparr>, ?w)"
    by (simp add: demo_action_def demo_out_def line i(1) del: upt_Suc upt_rec_numeral)
  from demo_run [OF _ this]
  show "\<exists>out w'. run_iptables demo_os (command_args r ''-A'') w = (Ok out, w') \<and> po_success out
      \<and> demo_chain w' = (demo_chain w)(?loc := demo_chain w ?loc @ [listed_line True r])"
    by (intro exI [of _ "\<lparr>po_code = Some 0, po_stdout = [], po_stderr = []\<rparr>"] exI [of _ ?w])
      (auto simp: args po_success_def demo_chain_def i(2))
qed

lemma demo_kernel_forwards: "kernel_forwards demo_os demo_chain"
  unfolding kernel_forwards_def
  by (auto simp: write_ip_forward_def io_then_def io_context_def io_call_def demo_command_def
      demo_out_def po_success_def)

lemmas demo_kernel = demo_kernel_lists demo_kernel_deletes demo_kernel_adds demo_kernel_forwards

definition demo_start :: demo_world where
  "demo_start = (\<lambda>loc. if loc = \<lparr>loc_table = None, loc_chain = ''FORWARD''\<rparr> then [5, 3, 7] else [])"

lemma demo_owned: "map (\<lambda>i. iptables_line_has_owner (demo_line i) (owner_tag_of ''tun0'')) [3, 5, 7] = [True, False, False]"
  by code_simp

lemma demo_printed: "inj_on (listed_line True) (set (gp_rules demo_plan))"
proof -
  have "distinct (map (listed_line True) demo_rules)" by code_simp
  then show ?thesis by (simp add: demo_plan_def distinct_map)
qed

subsection \<open>Properties\<close>

text \<open>Against a kernel that lists and deletes rules as documented, removing a gateway's rules
deletes every rule that carries its comment from the three chains it uses, reports their number,
and leaves all other rules in place and in order, here and in every other chain.\<close>

lemma removes_exactly_owned_rules:
  assumes "kernel_lists sys chain" and "kernel_deletes sys chain"
    and "owned_total (gp_owner_tag plan) (chain w) \<le> 128"
  shows "\<exists>w'. delete_owned_rules sys plan w = (Ok (owned_total (gp_owner_tag plan) (chain w)), w')
    \<and> (\<forall>loc. chain w' loc =
        (if loc \<in> set owned_rule_locations
         then filter (\<lambda>l. \<not> iptables_line_has_owner l (gp_owner_tag plan)) (chain w loc)
         else chain w loc))"
  by (rule delete_owned_rules_law [OF assms])

lemma removes_exactly_owned_rules_witness:
  "\<exists>w'. delete_owned_rules demo_os demo_plan demo_start = (Ok 1, w')
    \<and> demo_chain w' \<lparr>loc_table = None, loc_chain = ''FORWARD''\<rparr> = [demo_line 5, demo_line 7]"
proof -
  have total: "owned_total (gp_owner_tag demo_plan) (demo_chain demo_start) = 1"
    using demo_owned by (simp add: owned_total_def owned_rule_locations_def demo_plan_def demo_chain_def demo_start_def)
  with removes_exactly_owned_rules [OF demo_kernel(1,2), of demo_plan demo_start] demo_owned
  show ?thesis
    by (auto simp: owned_rule_locations_def demo_plan_def demo_chain_def demo_start_def)
qed

text \<open>C17: against a kernel that behaves as documented, the installation step of \<open>apply\<close> for a
validated configuration always succeeds and leaves in the chains it manages exactly the rules
of the plan as owned rules, whatever stale rules of this tunnel were there, and every rule of
somebody else unchanged and in order; running it again adds and changes nothing.\<close>

theorem installs_exactly_the_plan:
  assumes "validate L cfg = Ok ()" and "plan_from_config cfg = Ok plan"
    and "kernel_lists sys chain" and "kernel_deletes sys chain"
    and "kernel_adds sys chain printed (gp_rules plan)" and "kernel_forwards sys chain"
    and "inj_on printed (set (gp_rules plan))"
    and "\<forall>r \<in> set (gp_rules plan). \<forall>tag.
      iptables_line_has_owner (printed r) tag \<longleftrightarrow> iptables_line_has_owner (listed_line quoted r) tag"
    and "owned_total (gp_owner_tag plan) (chain w) \<le> 128"
  shows "\<exists>added w'. install_policy sys plan forwarding w = (Ok (), added, w')
    \<and> holds_policy (gp_owner_tag plan) printed (gp_rules plan) (chain w) (chain w')
    \<and> install_policy sys plan ''1'' w' = (Ok (), [], w')"
proof -
  have listed: "listed_rules (gp_owner_tag plan) printed (gp_rules plan)"
    using plan_listed [OF assms(1,2,7,8)] .
  obtain added w' where i: "install_policy sys plan forwarding w = (Ok (), added, w')"
    and h: "holds_policy (gp_owner_tag plan) printed (gp_rules plan) (chain w) (chain w')"
    using install_policy_law [OF assms(3-6) listed assms(9)] by blast
  with install_again [OF assms(3,5) listed h] show ?thesis by blast
qed

theorem installs_exactly_the_plan_witness:
  "\<exists>added w'. install_policy demo_os demo_plan ''0'' demo_start = (Ok (), added, w')
    \<and> foreign (owner_tag_of ''tun0'') (demo_chain w' \<lparr>loc_table = None, loc_chain = ''FORWARD''\<rparr>)
        = [demo_line 5, demo_line 7]
    \<and> install_policy demo_os demo_plan ''1'' w' = (Ok (), [], w')"
proof -
  have total: "owned_total (gp_owner_tag demo_plan) (demo_chain demo_start) \<le> 128"
    using demo_owned by (simp add: owned_total_def owned_rule_locations_def demo_plan_def demo_chain_def demo_start_def)
  have adds: "kernel_adds demo_os demo_chain (listed_line True) (gp_rules demo_plan)"
    using demo_kernel_adds by (simp add: demo_plan_def)
  have same: "\<forall>r \<in> set (gp_rules demo_plan). \<forall>tag. iptables_line_has_owner (listed_line True r) tag
      \<longleftrightarrow> iptables_line_has_owner (listed_line True r) tag" by blast
  obtain added w' where w': "install_policy demo_os demo_plan ''0'' demo_start = (Ok (), added, w')"
    "holds_policy (gp_owner_tag demo_plan) (listed_line True) (gp_rules demo_plan) (demo_chain demo_start) (demo_chain w')"
    "install_policy demo_os demo_plan ''1'' w' = (Ok (), [], w')"
    using installs_exactly_the_plan [where printed = "listed_line True" and quoted = True
        and w = demo_start and forwarding = "''0''" and chain = demo_chain,
        OF demo_validates demo_plan_made demo_kernel(1,2) adds demo_kernel(4) demo_printed same total]
    by blast
  from w'(2) have "foreign (owner_tag_of ''tun0'') (demo_chain w' \<lparr>loc_table = None, loc_chain = ''FORWARD''\<rparr>)
      = foreign (owner_tag_of ''tun0'') (demo_chain demo_start \<lparr>loc_table = None, loc_chain = ''FORWARD''\<rparr>)"
    by (simp add: holds_policy_def owned_rule_locations_def demo_plan_def)
  with w' demo_owned show ?thesis by (auto simp: demo_chain_def demo_start_def)
qed

end
