(* ===== verification/Gateway_State.thy ===== *)
theory Gateway_State
  imports Gateway_Kernel
begin

text \<open>
  \<open>apply\<close> and \<open>remove\<close> of the gateway as wholes: the recorded forwarding setting, the marker files
  by which several gateways share it, and the firewall. The system is seen through a view: the
  files of the state directory by name, the forwarding switch, and the chains.
\<close>

record host_view =
  hv_files :: "string \<Rightarrow> string option"
  hv_forwarding :: string
  hv_chains :: "iptables_location \<Rightarrow> string list"

abbreviation with_file :: "host_view \<Rightarrow> string \<Rightarrow> string option \<Rightarrow> host_view" where
  "with_file v n c \<equiv> v\<lparr>hv_files := (hv_files v)(n := c)\<rparr>"

text \<open>The names that the gateway gives its files.\<close>

definition state_name :: "string \<Rightarrow> bool" where
  "state_name n \<longleftrightarrow> CHR ''/'' \<notin> set n \<and> (starts_with n ''gateway-'' \<or> starts_with n ''ip-forward-'')"

text \<open>The files of the state directory: a file that exists is not created again, a file that was
created can be written, read and removed, and opening the lock creates it.\<close>

definition host_files :: "'w os \<Rightarrow> ('w \<Rightarrow> host_view) \<Rightarrow> string \<Rightarrow> bool" where
  "host_files sys view dir \<longleftrightarrow>
    (\<forall>w n. state_name n \<longrightarrow> (let path = path_join dir n; v = view w in
      os_exists sys path w = (hv_files v n \<noteq> None)
      \<and> (\<forall>s. hv_files v n = Some s \<longrightarrow> os_read sys path w = Ok s)
      \<and> (case hv_files v n of
           Some _ \<Rightarrow> \<exists>w'. os_create_new sys path w = (Err AlreadyExists, w') \<and> view w' = v
         | None \<Rightarrow> \<exists>w'. os_create_new sys path w = (Ok (), w') \<and> view w' = with_file v n (Some []))
      \<and> (\<forall>s. hv_files v n = Some [] \<longrightarrow>
           (\<exists>w'. os_write_all sys path s w = (Ok (), w') \<and> view w' = with_file v n (Some s)))
      \<and> (\<forall>s. \<exists>w'. os_write sys path s w = (Ok (), w') \<and> view w' = with_file v n (Some s))
      \<and> (hv_files v n \<noteq> None \<longrightarrow>
           (\<exists>w'. os_remove_file sys path w = (Ok (), w') \<and> view w' = with_file v n None))
      \<and> (\<exists>w'. os_open sys path w = (Ok (), w')
           \<and> view w' = (if hv_files v n = None then with_file v n (Some []) else v))))"

text \<open>The state directory exists and is listed in full.\<close>

definition host_directory :: "'w os \<Rightarrow> ('w \<Rightarrow> host_view) \<Rightarrow> string \<Rightarrow> bool" where
  "host_directory sys view dir \<longleftrightarrow>
    (\<forall>w. os_exists sys dir w
      \<and> (\<exists>names. os_read_dir sys dir w = Ok (map Ok names) \<and> (\<forall>n \<in> set names. CHR ''/'' \<notin> set n)
          \<and> (\<forall>n. state_name n \<longrightarrow> (n \<in> set names \<longleftrightarrow> hv_files (view w) n \<noteq> None)))
      \<and> (\<exists>w'. os_create_dir_all sys dir w = (Ok (), w') \<and> view w' = view w)
      \<and> (\<exists>w'. os_set_permissions sys dir 448 w = (Ok (), w') \<and> view w' = view w))"

text \<open>The rest of the system: locks, the forwarding switch, and \<open>iptables\<close>, which leaves the files
and the switch alone.\<close>

definition host_commands :: "'w os \<Rightarrow> ('w \<Rightarrow> host_view) \<Rightarrow> bool" where
  "host_commands sys view \<longleftrightarrow>
    (\<forall>w. (\<forall>path. (\<exists>w'. os_lock_exclusive sys path w = (Ok (), w') \<and> view w' = view w)
          \<and> view (os_unlock sys path w) = view w)
      \<and> read_ip_forward sys w = (Ok (hv_forwarding (view w)), w)
      \<and> hv_forwarding (view w) \<in> {''0'', ''1''}
      \<and> (\<forall>v \<in> {''0'', ''1''}. \<exists>w'. write_ip_forward sys v w = (Ok (), w') \<and> view w' = (view w)\<lparr>hv_forwarding := v\<rparr>)
      \<and> (\<exists>w'. ensure_iptables_available sys w = (Ok (), w') \<and> view w' = view w)
      \<and> (\<forall>args. hv_files (view (snd (run_iptables sys args w))) = hv_files (view w)
          \<and> hv_forwarding (view (snd (run_iptables sys args w))) = hv_forwarding (view w)))"

definition state_directory :: "'w os \<Rightarrow> string" where
  "state_directory sys = (case os_env sys STATE_DIRECTORY_ENV of Some d \<Rightarrow> d | None \<Rightarrow> ''/run/hushwire'')"

text \<open>Linux, run by root, in the network namespace \<open>ns\<close>.\<close>

definition gateway_host :: "'w os \<Rightarrow> ('w \<Rightarrow> host_view) \<Rightarrow> string \<Rightarrow> bool" where
  "gateway_host sys view ns \<longleftrightarrow>
    os_is_linux sys \<and> os_euid sys = 0 \<and> (\<forall>w. network_namespace_id sys w = (Ok ns, w))
    \<and> host_files sys view (state_directory sys) \<and> host_directory sys view (state_directory sys)
    \<and> host_commands sys view"

definition marker_name :: "string \<Rightarrow> gateway_plan \<Rightarrow> string" where
  "marker_name ns plan = ''gateway-'' @ ns @ ''-'' @ gp_tunnel_interface plan @ ''.state''"

definition original_name :: "string \<Rightarrow> string" where
  "original_name ns = ''ip-forward-'' @ ns @ ''.original''"

definition lock_name :: "string \<Rightarrow> string" where
  "lock_name ns = ''gateway-'' @ ns @ ''.lock''"

definition is_marker :: "string \<Rightarrow> string \<Rightarrow> bool" where
  "is_marker ns n \<longleftrightarrow> starts_with n (''gateway-'' @ ns @ ''-'') \<and> ends_with n ''.state''"

definition paths :: "'w os \<Rightarrow> string \<Rightarrow> gateway_plan \<Rightarrow> gateway_state_paths" where
  "paths sys ns plan =
    \<lparr>sp_directory = state_directory sys, sp_namespace_id = ns,
     sp_marker = path_join (state_directory sys) (marker_name ns plan),
     sp_original_forwarding = path_join (state_directory sys) (original_name ns)\<rparr>"

subsection \<open>Names\<close>

lemma starts_with_eq: "starts_with s p \<longleftrightarrow> (\<exists>x. s = p @ x)"
  unfolding starts_with_def by (metis append_eq_conv_conj)

lemma ends_with_self: "ends_with (s @ p) p"
  by (simp add: ends_with_def starts_with_def)

lemma is_marker_own: "is_marker ns (marker_name ns plan)"
proof -
  have "marker_name ns plan = (''gateway-'' @ ns @ ''-'') @ (gp_tunnel_interface plan @ ''.state'')"
    and ends: "marker_name ns plan = (''gateway-'' @ ns @ ''-'' @ gp_tunnel_interface plan) @ ''.state''"
    by (simp_all add: marker_name_def)
  then have "starts_with (marker_name ns plan) (''gateway-'' @ ns @ ''-'')"
    unfolding starts_with_eq by blast
  moreover have "ends_with (marker_name ns plan) ''.state''" unfolding ends by (rule ends_with_self)
  ultimately show ?thesis unfolding is_marker_def ..
qed

lemma marker_is_state_name: "is_marker ns n \<Longrightarrow> CHR ''/'' \<notin> set n \<Longrightarrow> state_name n"
  by (auto simp: is_marker_def state_name_def starts_with_eq)

lemma not_marker_lock: "\<not> is_marker ns (lock_name ns)"
  by (simp add: is_marker_def starts_with_eq lock_name_def)

lemma not_marker_original: "\<not> is_marker ns (original_name ns)"
  by (simp add: is_marker_def starts_with_eq original_name_def)

lemma original_not_lock: "original_name ns \<noteq> lock_name ns"
  by (simp add: original_name_def lock_name_def)

lemmas names_differ = not_marker_lock not_marker_original original_not_lock original_not_lock [symmetric]

subsection \<open>What the firewall commands leave alone\<close>

definition iptables_leave :: "'w os \<Rightarrow> ('w \<Rightarrow> 'b) \<Rightarrow> bool" where
  "iptables_leave sys obs \<longleftrightarrow> (\<forall>args. leaves obs (run_iptables sys args))"

lemma leaves_iptables [intro]: "iptables_leave sys obs \<Longrightarrow> leaves obs (run_iptables sys args)"
  by (simp add: iptables_leave_def)

lemma rule_exists_leaves [intro]: "iptables_leave sys obs \<Longrightarrow> leaves obs (rule_exists sys r)"
  unfolding rule_exists_def by (intro leaves_then leaves_if leaves_ok leaves_iptables)

lemma add_if_missing_leaves [intro]: "iptables_leave sys obs \<Longrightarrow> leaves obs (add_if_missing sys r)"
  unfolding add_if_missing_def
  by (intro leaves_then leaves_if leaves_ok leaves_iptables rule_exists_leaves)

lemma list_chain_leaves [intro]: "iptables_leave sys obs \<Longrightarrow> leaves obs (list_iptables_chain sys t c)"
  unfolding list_iptables_chain_def by (intro leaves_then leaves_if leaves_ok leaves_iptables)

lemma delete_number_leaves [intro]: "iptables_leave sys obs \<Longrightarrow> leaves obs (delete_iptables_rule_number sys t c n)"
  unfolding delete_iptables_rule_number_def by (intro leaves_then leaves_if leaves_ok leaves_iptables)

lemma count_owned_leaves: "iptables_leave sys obs \<Longrightarrow> leaves obs (count_owned_in sys tag locs n)"
  by (induction locs arbitrary: n) (auto intro!: leaves_then list_chain_leaves)

lemma rules_exist_leaves: "iptables_leave sys obs \<Longrightarrow> leaves obs (rules_exist sys rs)"
  by (induction rs) (auto intro!: leaves_then rule_exists_leaves)

lemma delete_owned_at_leaves:
  assumes "iptables_leave sys obs"
  shows "obs (snd (delete_owned_at sys tag loc removed w)) = obs w"
  using assms
proof (induction sys tag loc removed w rule: delete_owned_at.induct)
  case (1 sys tag loc removed w)
  obtain r w1 where l: "list_iptables_chain sys (loc_table loc) (loc_chain loc) w = (r, w1)"
    by (cases "list_iptables_chain sys (loc_table loc) (loc_chain loc) w")
  have w1: "obs w1 = obs w" using leavesD [OF list_chain_leaves [OF "1.prems"] l] .
  show ?case
  proof (cases r)
    case (Inl e)
    with l w1 show ?thesis by (simp add: delete_owned_at.simps)
  next
    case (Inr out)
    show ?thesis
    proof (cases "owned_rule_number tag (str_lines (po_stdout out)) 0")
      case None
      with l Inr w1 show ?thesis by (simp add: delete_owned_at.simps)
    next
      case (Some n)
      obtain q w2 where d: "delete_iptables_rule_number sys (loc_table loc) (loc_chain loc) n w1 = (q, w2)"
        by (cases "delete_iptables_rule_number sys (loc_table loc) (loc_chain loc) n w1")
      have w2: "obs w2 = obs w" using leavesD [OF delete_number_leaves [OF "1.prems"] d] w1 by simp
      show ?thesis
      proof (cases q)
        case (Inl e)
        with l Inr Some d w2 show ?thesis by (simp add: delete_owned_at.simps)
      next
        case (Inr u)
        with l \<open>r = Ok out\<close> Some d w2
          "1.IH" [OF l [symmetric] \<open>r = Ok out\<close> Some d [symmetric] Inr _ "1.prems"]
        show ?thesis by (subst delete_owned_at.simps) simp
      qed
    qed
  qed
qed

lemma delete_owned_leaves:
  assumes "iptables_leave sys obs"
  shows "leaves obs (delete_owned_in sys tag locs removed)"
proof (induction locs arbitrary: removed)
  case (Cons loc locs)
  have "leaves obs (delete_owned_at sys tag loc removed)"
    by (simp add: leaves_def delete_owned_at_leaves [OF assms])
  with Cons show ?case unfolding delete_owned_in.simps by (intro leaves_then)
qed (simp add: leaves_def)

lemma delete_owned_rules_leaves: "iptables_leave sys obs \<Longrightarrow> leaves obs (delete_owned_rules sys plan)"
  unfolding delete_owned_rules_def by (rule delete_owned_leaves)

lemma reconcile_leaves: "iptables_leave sys obs \<Longrightarrow> leaves obs (reconcile_rules sys plan)"
  unfolding reconcile_rules_def count_owned_rules_def
  by (intro leaves_then leaves_if leaves_ok rules_exist_leaves count_owned_leaves delete_owned_rules_leaves)

lemma add_rules_leaves:
  assumes "iptables_leave sys obs" and "add_rules sys rs added w = (r, added', w')"
  shows "obs w' = obs w"
  using assms(2)
proof (induction rs arbitrary: added w)
  case (Cons x rs)
  obtain q w1 where q: "add_if_missing sys x w = (q, w1)" by (cases "add_if_missing sys x w")
  have "obs w1 = obs w" using leavesD [OF add_if_missing_leaves [OF assms(1)] q] .
  with Cons q show ?case by (cases q) auto
qed simp

text \<open>The installation writes the forwarding switch and touches nothing else outside the chains.\<close>

lemma install_policy_leaves:
  assumes "iptables_leave sys (\<lambda>w. (hv_files (view w), hv_forwarding (view w)))"
    and "\<And>w. \<exists>w'. write_ip_forward sys ''1'' w = (Ok (), w') \<and> view w' = (view w)\<lparr>hv_forwarding := ''1''\<rparr>"
    and "install_policy sys plan (hv_forwarding (view w)) w = (Ok (), added, w')"
  shows "hv_files (view w') = hv_files (view w)" and "hv_forwarding (view w') = ''1''"
proof -
  let ?obs = "\<lambda>w. (hv_files (view w), hv_forwarding (view w))"
  obtain r w1 where rec: "reconcile_rules sys plan w = (r, w1)" by (cases "reconcile_rules sys plan w")
  with assms(3) have r: "r = Ok ()" by (cases r) (auto simp: install_policy_def)
  obtain q a w2 where add: "add_rules sys (gp_rules plan) [] w1 = (q, a, w2)"
    by (metis prod_cases3)
  with assms(3) rec r have q: "q = Ok ()" by (cases q) (auto simp: install_policy_def)
  have w2: "?obs w2 = ?obs w"
    using leavesD [OF reconcile_leaves [OF assms(1)] rec] add_rules_leaves [OF assms(1) add] by simp
  from assms(2) obtain w3 where w3: "write_ip_forward sys ''1'' w2 = (Ok (), w3)"
    "view w3 = (view w2)\<lparr>hv_forwarding := ''1''\<rparr>" by blast
  with assms(3) rec r add q
  have "w' = (if hv_forwarding (view w) \<noteq> ''1'' then w3 else w2)"
    by (auto simp: install_policy_def split: if_splits)
  with w2 w3(2) show "hv_files (view w') = hv_files (view w)" and "hv_forwarding (view w') = ''1''"
    by (auto split: if_splits)
qed

subsection \<open>The steps under a lock\<close>

lemma gateway_hostD:
  assumes "gateway_host sys view ns"
  shows "host_files sys view (state_directory sys)" and "host_directory sys view (state_directory sys)"
    and "host_commands sys view" and "os_is_linux sys" and "os_euid sys = 0"
    and "network_namespace_id sys w = (Ok ns, w)"
  using assms by (simp_all add: gateway_host_def)

lemma namespace_digits: "network_namespace_id sys w = (Ok ns, w') \<Longrightarrow> CHR ''/'' \<notin> set ns"
  by (auto simp: network_namespace_id_def io_then_eq_Ok is_ascii_digit_def Let_def split: if_splits)

lemma state_names:
  assumes "CHR ''/'' \<notin> set ns"
  shows "state_name (original_name ns)" and "state_name (lock_name ns)"
    and "CHR ''/'' \<notin> set (gp_tunnel_interface plan) \<Longrightarrow> state_name (marker_name ns plan)"
  using assms by (auto simp: state_name_def starts_with_eq original_name_def lock_name_def marker_name_def)

lemma state_paths_law:
  "gateway_host sys view ns \<Longrightarrow> state_paths_new sys plan w = (Ok (paths sys ns plan), w)"
  by (simp add: state_paths_new_def io_then_Ok gateway_hostD(6) paths_def state_directory_def
      marker_name_def original_name_def Let_def)

lemma file_laws:
  assumes "host_files sys view dir" and "state_name n"
  shows "os_exists sys (path_join dir n) w \<longleftrightarrow> hv_files (view w) n \<noteq> None"
    and "hv_files (view w) n = Some s \<Longrightarrow> os_read sys (path_join dir n) w = Ok s"
    and "hv_files (view w) n \<noteq> None \<Longrightarrow>
      \<exists>w'. os_create_new sys (path_join dir n) w = (Err AlreadyExists, w') \<and> view w' = view w"
    and "hv_files (view w) n = None \<Longrightarrow>
      \<exists>w'. os_create_new sys (path_join dir n) w = (Ok (), w') \<and> view w' = with_file (view w) n (Some [])"
    and "hv_files (view w) n = Some [] \<Longrightarrow>
      \<exists>w'. os_write_all sys (path_join dir n) s w = (Ok (), w') \<and> view w' = with_file (view w) n (Some s)"
    and "\<exists>w'. os_write sys (path_join dir n) s w = (Ok (), w') \<and> view w' = with_file (view w) n (Some s)"
    and "hv_files (view w) n \<noteq> None \<Longrightarrow>
      \<exists>w'. os_remove_file sys (path_join dir n) w = (Ok (), w') \<and> view w' = with_file (view w) n None"
    and "\<exists>w'. os_open sys (path_join dir n) w = (Ok (), w')
      \<and> view w' = (if hv_files (view w) n = None then with_file (view w) n (Some []) else view w)"
proof -
  note laws = assms(1) [unfolded host_files_def Let_def, THEN spec [of _ w], THEN spec [of _ n], THEN mp, OF assms(2)]
  from laws show "os_exists sys (path_join dir n) w \<longleftrightarrow> hv_files (view w) n \<noteq> None" by (elim conjE)
  from laws show "hv_files (view w) n = Some s \<Longrightarrow> os_read sys (path_join dir n) w = Ok s" by blast
  from laws show "hv_files (view w) n \<noteq> None \<Longrightarrow>
      \<exists>w'. os_create_new sys (path_join dir n) w = (Err AlreadyExists, w') \<and> view w' = view w"
    by (elim conjE) auto
  from laws show "hv_files (view w) n = None \<Longrightarrow>
      \<exists>w'. os_create_new sys (path_join dir n) w = (Ok (), w') \<and> view w' = with_file (view w) n (Some [])"
    by (elim conjE) auto
  from laws show "hv_files (view w) n = Some [] \<Longrightarrow>
      \<exists>w'. os_write_all sys (path_join dir n) s w = (Ok (), w') \<and> view w' = with_file (view w) n (Some s)"
    by (elim conjE) (erule allE [of _ s], erule mp)
  from laws show "\<exists>w'. os_write sys (path_join dir n) s w = (Ok (), w') \<and> view w' = with_file (view w) n (Some s)"
    by (elim conjE) (erule spec)
  from laws show "hv_files (view w) n \<noteq> None \<Longrightarrow>
      \<exists>w'. os_remove_file sys (path_join dir n) w = (Ok (), w') \<and> view w' = with_file (view w) n None"
    by (elim conjE) (erule mp)
  from laws show "\<exists>w'. os_open sys (path_join dir n) w = (Ok (), w')
      \<and> view w' = (if hv_files (view w) n = None then with_file (view w) n (Some []) else view w)"
    by (elim conjE)
qed

definition locked :: "string \<Rightarrow> host_view \<Rightarrow> host_view" where
  "locked ns v = (if hv_files v (lock_name ns) = None then with_file v (lock_name ns) (Some []) else v)"

text \<open>Both operations start in the same way.\<close>

lemma begin_locked:
  assumes "gateway_host sys view ns"
  shows "\<exists>w1. ensure_directory sys (paths sys ns plan) w = (Ok (), w1) \<and> view w1 = view w"
    and "\<exists>w1. state_lock sys (paths sys ns plan) w = (Ok (), w1) \<and> view w1 = locked ns (view w)"
proof -
  note host = gateway_hostD [OF assms]
  let ?dir = "state_directory sys"
  from host(2) obtain w1 where w1: "os_create_dir_all sys ?dir w = (Ok (), w1)" "view w1 = view w"
    unfolding host_directory_def by blast
  moreover from host(2) obtain w2 where "os_set_permissions sys ?dir 448 w1 = (Ok (), w2)" "view w2 = view w1"
    unfolding host_directory_def by blast
  ultimately show "\<exists>w1. ensure_directory sys (paths sys ns plan) w = (Ok (), w1) \<and> view w1 = view w"
    by (simp add: ensure_directory_def io_then_def io_context_def io_call_def paths_def)
  have name: "state_name (lock_name ns)" using state_names(2) namespace_digits [OF host(6)] by blast
  from file_laws(8) [OF host(1) name, of w] obtain w3 where
    w3: "os_open sys (path_join ?dir (lock_name ns)) w = (Ok (), w3)" "view w3 = locked ns (view w)"
    unfolding locked_def by blast
  moreover from host(3) obtain w4 where
    "os_lock_exclusive sys (path_join ?dir (lock_name ns)) w3 = (Ok (), w4)" "view w4 = view w3"
    unfolding host_commands_def by blast
  moreover have "state_lock_path (paths sys ns plan) = path_join ?dir (lock_name ns)"
    by (simp add: state_lock_path_def paths_def lock_name_def)
  ultimately show "\<exists>w1. state_lock sys (paths sys ns plan) w = (Ok (), w1) \<and> view w1 = locked ns (view w)"
    by (simp add: state_lock_def Let_def io_then_def io_context_def io_call_def)
qed

lemma write_new_file_law:
  assumes "host_files sys view dir" and "state_name n"
  shows "\<exists>w'. write_new_file sys (path_join dir n) c w = (Ok (hv_files (view w) n = None), w')
    \<and> view w' = (if hv_files (view w) n = None then with_file (view w) n (Some c) else view w)"
proof (cases "hv_files (view w) n")
  case (Some a)
  with file_laws(3) [OF assms, of w] show ?thesis by (auto simp: write_new_file_def)
next
  case None
  with file_laws(4) [OF assms, of w] obtain w1 where
    w1: "os_create_new sys (path_join dir n) w = (Ok (), w1)" "view w1 = with_file (view w) n (Some [])" by blast
  with file_laws(5) [OF assms, of w1 c] obtain w2 where
    "os_write_all sys (path_join dir n) c w1 = (Ok (), w2)" "view w2 = with_file (view w1) n (Some c)" by auto
  with w1 None show ?thesis by (simp add: write_new_file_def)
qed

lemma record_gateway_law:
  assumes "host_files sys view (state_directory sys)" and "state_name (marker_name ns plan)"
  shows "\<exists>c w'. record_gateway sys (paths sys ns plan) plan w = (Ok (hv_files (view w) (marker_name ns plan) = None), w')
    \<and> view w' = with_file (view w) (marker_name ns plan) (Some c)"
proof -
  let ?path = "path_join (state_directory sys) (marker_name ns plan)"
  obtain c where c: "record_gateway sys (paths sys ns plan) plan =
      io_then (write_new_file sys ?path c) (\<lambda>created. if created then io_ok True
        else io_then (io_context (''updating '' @ ?path) (io_call (os_write sys ?path c))) (\<lambda>_. io_ok False))"
    by (rule that, unfold record_gateway_def Let_def paths_def gateway_state_paths.select_convs, rule refl)
  obtain w1 where w1: "write_new_file sys ?path c w = (Ok (hv_files (view w) (marker_name ns plan) = None), w1)"
    "view w1 = (if hv_files (view w) (marker_name ns plan) = None
      then with_file (view w) (marker_name ns plan) (Some c) else view w)"
    using write_new_file_law [OF assms] by blast
  obtain w2 where w2: "os_write sys ?path c w1 = (Ok (), w2)"
    "view w2 = with_file (view w1) (marker_name ns plan) (Some c)"
    using file_laws(6) [OF assms] by blast
  show ?thesis
  proof (cases "hv_files (view w) (marker_name ns plan)")
    case None
    with w1 show ?thesis by (auto simp: c io_then_def)
  next
    case (Some a)
    with w1 w2 show ?thesis by (auto simp add: c io_then_def io_context_def io_call_def)
  qed
qed

lemma any_marker_names:
  "any_marker pre (map Ok names) = Ok (\<exists>n \<in> set names. starts_with n pre \<and> ends_with n ''.state'')"
  by (induction names) auto

text \<open>The gateways of the namespace that have a marker.\<close>

definition any_gateway :: "string \<Rightarrow> host_view \<Rightarrow> bool" where
  "any_gateway ns v \<longleftrightarrow> (\<exists>n. is_marker ns n \<and> CHR ''/'' \<notin> set n \<and> hv_files v n \<noteq> None)"

lemma has_markers_law:
  assumes "gateway_host sys view ns"
  shows "has_gateway_markers sys (paths sys ns plan) w = (Ok (any_gateway ns (view w)), w)"
proof -
  from gateway_hostD(2) [OF assms] obtain names where names: "os_exists sys (state_directory sys) w"
    "os_read_dir sys (state_directory sys) w = Ok (map Ok names)" "\<forall>n \<in> set names. CHR ''/'' \<notin> set n"
    "\<forall>n. state_name n \<longrightarrow> (n \<in> set names \<longleftrightarrow> hv_files (view w) n \<noteq> None)"
    unfolding host_directory_def by blast
  have "(\<exists>n \<in> set names. is_marker ns n) \<longleftrightarrow> any_gateway ns (view w)"
    using names(3,4) marker_is_state_name unfolding any_gateway_def by blast
  then show ?thesis
    using names(1,2) unfolding is_marker_def
    by (simp add: has_gateway_markers_def paths_def io_then_def io_context_def io_query_def any_marker_names)
qed

subsection \<open>Effects\<close>

text \<open>The laws of \<open>iptables\<close> for a plan, and a plan whose rules are recognised.\<close>

definition gateway_kernel :: "'w os \<Rightarrow> ('w \<Rightarrow> host_view) \<Rightarrow> (iptables_rule \<Rightarrow> string) \<Rightarrow> gateway_plan \<Rightarrow> bool" where
  "gateway_kernel sys view printed plan \<longleftrightarrow>
    kernel_lists sys (\<lambda>w. hv_chains (view w)) \<and> kernel_deletes sys (\<lambda>w. hv_chains (view w))
    \<and> kernel_adds sys (\<lambda>w. hv_chains (view w)) printed (gp_rules plan)"

lemma host_iptables_leave:
  "gateway_host sys view ns \<Longrightarrow> iptables_leave sys (\<lambda>w. (hv_files (view w), hv_forwarding (view w)))"
  by (simp add: gateway_host_def host_commands_def iptables_leave_def leaves_def)

lemma host_forwards:
  "gateway_host sys view ns \<Longrightarrow> kernel_forwards sys (\<lambda>w. hv_chains (view w))"
  unfolding gateway_host_def host_commands_def kernel_forwards_def
  by (elim conjE, intro allI, erule_tac x = w in allE) auto

lemma host_writes:
  "gateway_host sys view ns \<Longrightarrow> v \<in> {''0'', ''1''}
    \<Longrightarrow> \<exists>w'. write_ip_forward sys v w = (Ok (), w') \<and> view w' = (view w)\<lparr>hv_forwarding := v\<rparr>"
  unfolding gateway_host_def host_commands_def by (elim conjE, erule allE [of _ w], elim conjE) (erule bspec)

lemma host_setting: "gateway_host sys view ns \<Longrightarrow> hv_forwarding (view w) \<in> {''0'', ''1''}"
  unfolding gateway_host_def host_commands_def by blast

lemma with_state_lock_Ok:
  assumes "gateway_host sys view ns"
    and "state_lock sys (paths sys ns plan) w = (Ok (), w1)" and "body w1 = (r, w2)"
  shows "\<exists>w3. with_state_lock sys (paths sys ns plan) body w = (r, w3) \<and> view w3 = view w2"
  using assms gateway_hostD(3) [OF assms(1)]
  by (auto simp: with_state_lock_def io_then_def host_commands_def)

lemma locked_facts:
  "hv_forwarding (locked ns v) = hv_forwarding v" "hv_chains (locked ns v) = hv_chains v"
  "n \<noteq> lock_name ns \<Longrightarrow> hv_files (locked ns v) n = hv_files v n"
  by (simp_all add: locked_def)

lemma marker_not:
  "marker_name ns plan \<noteq> original_name ns" "marker_name ns plan \<noteq> lock_name ns"
  using is_marker_own [of ns plan] names_differ(1,2) [of ns] by metis+

text \<open>Up to the system changes \<open>apply\<close> has recorded the setting and the gateway; this is the rest.\<close>

definition after_recording ::
    "'w os \<Rightarrow> string \<Rightarrow> gateway_plan \<Rightarrow> ('w \<Rightarrow> host_view) \<Rightarrow> 'w \<Rightarrow> ('w, unit) io" where
  "after_recording sys ns plan view w u =
    (case install_policy sys plan (hv_forwarding (view w)) u of
       (Inr _, _, u2) \<Rightarrow> (Ok (), u2)
     | (Inl e, added, u2) \<Rightarrow> roll_back sys (paths sys ns plan) (hv_forwarding (view w))
         (hv_files (view w) (original_name ns) = None) (hv_files (view w) (marker_name ns plan) = None) added e u2)"

lemma reach_lock:
  assumes host: "gateway_host sys view ns"
  obtains w1 w2 w3 where "ensure_iptables_available sys w = (Ok (), w1)"
    and "ensure_directory sys (paths sys ns plan) w1 = (Ok (), w2)"
    and "state_lock sys (paths sys ns plan) w2 = (Ok (), w3)" and "view w3 = locked ns (view w)"
proof -
  obtain w1 where w1: "ensure_iptables_available sys w = (Ok (), w1)" "view w1 = view w"
    using gateway_hostD(3) [OF host] unfolding host_commands_def by blast
  obtain w2 where w2: "ensure_directory sys (paths sys ns plan) w1 = (Ok (), w2)" "view w2 = view w1"
    using begin_locked(1) [OF host] by blast
  obtain w3 where w3: "state_lock sys (paths sys ns plan) w2 = (Ok (), w3)" "view w3 = locked ns (view w2)"
    using begin_locked(2) [OF host] by blast
  with that [OF w1(1) w2(1) w3(1)] show thesis by (simp add: w2(2) w1(2))
qed

lemma apply_begins:
  assumes host: "gateway_host sys view ns" and "CHR ''/'' \<notin> set (gp_tunnel_interface plan)"
    and pre: "preflight_interfaces sys plan w = (Ok (), w)"
  shows "\<exists>u c. hv_forwarding (view u) = hv_forwarding (view w) \<and> hv_chains (view u) = hv_chains (view w)
    \<and> (\<forall>n. n \<noteq> lock_name ns \<longrightarrow> hv_files (view u) n = (if n = marker_name ns plan then Some c
      else if n = original_name ns \<and> hv_files (view w) n = None then Some (hv_forwarding (view w) @ [CHR 0x0A])
      else hv_files (view w) n))
    \<and> (\<exists>v. gateway_apply sys plan w = (fst (after_recording sys ns plan view w u), v)
         \<and> view v = view (snd (after_recording sys ns plan view w u)))"
proof -
  note facts = gateway_hostD [OF host]
  let ?st = "paths sys ns plan" and ?fw = "hv_forwarding (view w)"
  note names = state_names [OF namespace_digits [OF facts(6)]]
  obtain w1 w2 w3 where w1: "ensure_iptables_available sys w = (Ok (), w1)" and w2: "ensure_directory sys ?st w1 = (Ok (), w2)"
    and w3: "state_lock sys ?st w2 = (Ok (), w3)" "view w3 = locked ns (view w)" by (rule reach_lock [OF host])
  have read: "read_ip_forward sys w3 = (Ok ?fw, w3)"
    using facts(3) w3(2) by (simp add: host_commands_def locked_facts)
  have orig: "record_original_forwarding sys ?st ?fw
      = write_new_file sys (path_join (state_directory sys) (original_name ns)) (?fw @ [CHR 0x0A])"
    by (simp add: record_original_forwarding_def paths_def)
  obtain w4 where w4: "record_original_forwarding sys ?st ?fw w3 = (Ok (hv_files (view w3) (original_name ns) = None), w4)"
    "view w4 = (if hv_files (view w3) (original_name ns) = None
      then with_file (view w3) (original_name ns) (Some (?fw @ [CHR 0x0A])) else view w3)"
    using write_new_file_law [OF facts(1) names(1)] unfolding orig by blast
  obtain c w5 where w5: "record_gateway sys ?st plan w4 = (Ok (hv_files (view w4) (marker_name ns plan) = None), w5)"
    "view w5 = with_file (view w4) (marker_name ns plan) (Some c)"
    using record_gateway_law [OF facts(1) names(3) [OF assms(2)]] by blast
  have files3: "hv_files (view w3) n = hv_files (view w) n" if "n \<noteq> lock_name ns" for n
    using that by (simp add: w3(2) locked_facts)
  have marker4: "hv_files (view w4) (marker_name ns plan) = hv_files (view w) (marker_name ns plan)"
    using marker_not [of ns plan] files3 by (simp add: w4(2))
  let ?body = "io_then (read_ip_forward sys) (\<lambda>forwarding_before.
      io_then (record_original_forwarding sys ?st forwarding_before) (\<lambda>original_created w.
        case record_gateway sys ?st plan w of
          (Inl e, w1) \<Rightarrow>
            (Err (''recording gateway ownership before system changes'' # e),
             if original_created then snd (os_remove_file sys (sp_original_forwarding ?st) w1) else w1)
        | (Inr marker_created, w1) \<Rightarrow>
            (case install_policy sys plan forwarding_before w1 of
               (Inr _, _, w2) \<Rightarrow> (Ok (), w2)
             | (Inl e, added, w2) \<Rightarrow>
                 roll_back sys ?st forwarding_before original_created marker_created added e w2)))"
  have body: "?body w3 = after_recording sys ns plan view w w5"
    by (simp add: after_recording_def io_then_Ok read w4(1) w5(1) marker4 files3 [OF original_not_lock])
  have start: "gateway_apply sys plan w = with_state_lock sys ?st ?body w2"
    using facts(4,5) pre w1 w2
    by (simp add: gateway_apply_def ensure_linux_root_def ensure_linux_def io_then_Ok state_paths_law [OF host])
  have "\<exists>v. gateway_apply sys plan w = (fst (after_recording sys ns plan view w w5), v)
      \<and> view v = view (snd (after_recording sys ns plan view w w5))"
    unfolding start using body by (intro with_state_lock_Ok [OF host w3(1)]) simp
  moreover have "hv_files (view w5) n = (if n = marker_name ns plan then Some c
      else if n = original_name ns \<and> hv_files (view w) n = None then Some (?fw @ [CHR 0x0A])
      else hv_files (view w) n)" if "n \<noteq> lock_name ns" for n
    using files3 [OF that] files3 [OF original_not_lock] by (auto simp: w5(2) w4(2))
  moreover have "hv_forwarding (view w5) = ?fw" "hv_chains (view w5) = hv_chains (view w)"
    by (simp_all add: w5(2) w4(2) w3(2) locked_facts)
  ultimately show ?thesis by blast
qed

lemma apply_effect:
  assumes host: "gateway_host sys view ns" and kernel: "gateway_kernel sys view printed plan"
    and slash: "CHR ''/'' \<notin> set (gp_tunnel_interface plan)"
    and pre: "preflight_interfaces sys plan w = (Ok (), w)"
    and listed: "listed_rules (gp_owner_tag plan) printed (gp_rules plan)"
    and "owned_total (gp_owner_tag plan) (hv_chains (view w)) \<le> 128"
  shows "\<exists>c w'. gateway_apply sys plan w = (Ok (), w')
    \<and> holds_policy (gp_owner_tag plan) printed (gp_rules plan) (hv_chains (view w)) (hv_chains (view w'))
    \<and> hv_forwarding (view w') = ''1''
    \<and> (\<forall>n. n \<noteq> lock_name ns \<longrightarrow> hv_files (view w') n =
        (if n = marker_name ns plan then Some c
         else if n = original_name ns \<and> hv_files (view w) n = None
         then Some (hv_forwarding (view w) @ [CHR 0x0A]) else hv_files (view w) n))"
proof -
  let ?fw = "hv_forwarding (view w)"
  from apply_begins [OF host slash pre] obtain u c v where same: "hv_forwarding (view u) = ?fw" "hv_chains (view u) = hv_chains (view w)"
    and files: "\<forall>n. n \<noteq> lock_name ns \<longrightarrow> hv_files (view u) n = (if n = marker_name ns plan then Some c
      else if n = original_name ns \<and> hv_files (view w) n = None then Some (?fw @ [CHR 0x0A]) else hv_files (view w) n)"
    and rest: "gateway_apply sys plan w = (fst (after_recording sys ns plan view w u), v)"
      "view v = view (snd (after_recording sys ns plan view w u))" by (elim exE conjE)
  obtain added w6 where w6: "install_policy sys plan ?fw u = (Ok (), added, w6)"
    "holds_policy (gp_owner_tag plan) printed (gp_rules plan) (hv_chains (view u)) (hv_chains (view w6))"
    using install_policy_law [OF _ _ _ host_forwards [OF host] listed, of u ?fw] kernel assms(6) same(2)
    unfolding gateway_kernel_def by auto
  have wr: "\<exists>w'. write_ip_forward sys ''1'' x = (Ok (), w') \<and> view w' = (view x)\<lparr>hv_forwarding := ''1''\<rparr>" for x
    using host_writes [OF host] by blast
  note done_files = install_policy_leaves [OF host_iptables_leave [OF host] wr, of plan u added w6]
  have "after_recording sys ns plan view w u = (Ok (), w6)" by (simp add: after_recording_def w6(1))
  with rest have w7: "gateway_apply sys plan w = (Ok (), v)" "view v = view w6" by simp_all
  have "hv_files (view v) = hv_files (view u)" "hv_forwarding (view v) = ''1''"
    using done_files w6(1) same(1) w7(2) by simp_all
  with w7 w6(2) same(2) files show ?thesis by (intro exI [of _ c] exI [of _ v]) simp
qed

text \<open>What \<open>remove\<close> leaves behind: with another gateway in the namespace, the switch and its record
stay as they are; otherwise the recorded setting is written back and the record removed.\<close>

definition last_gateway :: "string \<Rightarrow> gateway_plan \<Rightarrow> host_view \<Rightarrow> bool" where
  "last_gateway ns plan v \<longleftrightarrow> \<not> any_gateway ns (with_file v (marker_name ns plan) None)"

lemma any_gateway_cong:
  assumes "\<And>n. n \<noteq> lock_name ns \<Longrightarrow> hv_files v n = hv_files v' n"
  shows "any_gateway ns v \<longleftrightarrow> any_gateway ns v'"
proof -
  have "n \<noteq> lock_name ns" if "is_marker ns n" for n using that not_marker_lock by blast
  with assms show ?thesis unfolding any_gateway_def by metis
qed

lemma trim_setting: "v \<in> {''0'', ''1''} \<Longrightarrow> trim (v @ [CHR 0x0A]) = v"
proof -
  assume v: "v \<in> {''0'', ''1''}"
  then have "trim_start (v @ [CHR 0x0A]) = v @ [CHR 0x0A]"
    by (intro trim_start_word) (auto simp: is_ascii_alphanumeric_def is_ascii_digit_def)
  moreover have "char_of (9 :: nat) = CHR 0x09" "char_of (10 :: nat) = CHR 0x0A"
    using char_of_char [of "CHR 0x09"] char_of_char [of "CHR 0x0A"] by simp_all
  then have "find (\<lambda>p. ends_with (v @ [CHR 0x0A]) p \<and> p \<noteq> []) white_space = Some [CHR 0x0A]"
    by (simp add: white_space_def utf8_def ends_with_def starts_with_def)
  then have "trim_end (v @ [CHR 0x0A]) = trim_end v"
    by (subst trim_end.simps) simp
  moreover have "trim_end v = v"
    using v by (intro trim_end_word) (auto simp: is_ascii_alphanumeric_def is_ascii_digit_def)
  ultimately show ?thesis by (simp add: trim_def)
qed

lemma restore_forwarding_law:
  assumes host: "gateway_host sys view ns" and "v \<in> {''0'', ''1''}"
    and "hv_files (view w) (original_name ns) = Some (v @ [CHR 0x0A])"
  shows "\<exists>w'. restore_forwarding sys (paths sys ns plan) w
      = (Ok (if any_gateway ns (view w) then None else Some v), w')
    \<and> view w' = (if any_gateway ns (view w) then view w
        else with_file ((view w)\<lparr>hv_forwarding := v\<rparr>) (original_name ns) None)"
proof -
  note facts = gateway_hostD [OF host]
  let ?path = "path_join (state_directory sys) (original_name ns)"
  have name: "state_name (original_name ns)" using state_names(1) namespace_digits [OF facts(6)] by blast
  note fl = file_laws [OF facts(1) name]
  have ex: "os_exists sys ?path w" and rd: "os_read sys ?path w = Ok (v @ [CHR 0x0A])"
    using fl(1,2) assms(3) by auto
  have st: "sp_original_forwarding (paths sys ns plan) = ?path" by (simp add: paths_def)
  show ?thesis
  proof (cases "any_gateway ns (view w)")
    case True
    then show ?thesis
      by (simp add: restore_forwarding_def st ex io_then_def has_markers_law [OF host])
  next
    case False
    obtain w1 where w1: "write_ip_forward sys v w = (Ok (), w1)" "view w1 = (view w)\<lparr>hv_forwarding := v\<rparr>"
      using host_writes [OF host assms(2)] by blast
    with assms(3) fl(7) [of w1] obtain w2 where
      w2: "os_remove_file sys ?path w1 = (Ok (), w2)" "view w2 = with_file (view w1) (original_name ns) None"
      by auto
    from False assms(2) w1 w2 show ?thesis
      by (simp add: restore_forwarding_def st ex rd io_then_def io_context_def io_query_def io_call_def
          has_markers_law [OF host] trim_setting Let_def)
  qed
qed

lemma remove_while_locked:
  assumes host: "gateway_host sys view ns"
    and kernel: "kernel_lists sys (\<lambda>w. hv_chains (view w))" "kernel_deletes sys (\<lambda>w. hv_chains (view w))"
    and slash: "CHR ''/'' \<notin> set (gp_tunnel_interface plan)" and v: "v \<in> {''0'', ''1''}"
    and marker: "hv_files (view w) (marker_name ns plan) \<noteq> None"
    and original: "hv_files (view w) (original_name ns) = Some (v @ [CHR 0x0A])"
    and few: "owned_total (gp_owner_tag plan) (hv_chains (view w)) \<le> 128" and w3: "view w3 = locked ns (view w)"
  obtains w4 w5 w6 where
    "delete_owned_rules sys plan w3 = (Ok (owned_total (gp_owner_tag plan) (hv_chains (view w))), w4)"
    and "os_exists sys (path_join (state_directory sys) (marker_name ns plan)) w4"
    and "os_remove_file sys (path_join (state_directory sys) (marker_name ns plan)) w4 = (Ok (), w5)"
    and "restore_forwarding sys (paths sys ns plan) w5 = (Ok (if last_gateway ns plan (view w) then Some v else None), w6)"
    and "\<forall>loc. hv_chains (view w6) loc = (if loc \<in> set owned_rule_locations
      then foreign (gp_owner_tag plan) (hv_chains (view w) loc) else hv_chains (view w) loc)"
    and "hv_forwarding (view w6) = (if last_gateway ns plan (view w) then v else hv_forwarding (view w))"
    and "\<forall>n. n \<noteq> lock_name ns \<longrightarrow> hv_files (view w6) n =
        (if n = marker_name ns plan \<or> n = original_name ns \<and> last_gateway ns plan (view w) then None
         else hv_files (view w) n)"
proof -
  let ?tag = "gp_owner_tag plan"
  have name: "state_name (marker_name ns plan)"
    using state_names(3) [OF namespace_digits [OF gateway_hostD(6) [OF host]] slash] .
  note fl = file_laws [OF gateway_hostD(1) [OF host] name]
  have chains3: "hv_chains (view w3) = hv_chains (view w)" by (simp add: w3 locked_facts)
  obtain w4 where w4: "delete_owned_rules sys plan w3 = (Ok (owned_total ?tag (hv_chains (view w))), w4)"
    "\<forall>loc. hv_chains (view w4) loc = (if loc \<in> set owned_rule_locations
      then foreign ?tag (hv_chains (view w) loc) else hv_chains (view w) loc)"
    using delete_owned_rules_law [OF kernel, of plan w3] few by (auto simp: chains3)
  have kept: "hv_files (view w4) = hv_files (view w3)" "hv_forwarding (view w4) = hv_forwarding (view w)"
    using leavesD [OF delete_owned_rules_leaves [OF host_iptables_leave [OF host]] w4(1)]
    by (simp_all add: w3 locked_facts)
  have files4: "hv_files (view w4) n = hv_files (view w) n" if "n \<noteq> lock_name ns" for n
    using that by (simp add: kept(1) w3 locked_facts)
  have there: "hv_files (view w4) (marker_name ns plan) \<noteq> None" using marker files4 [OF marker_not(2)] by simp
  with fl(7) obtain w5 where w5: "os_remove_file sys (path_join (state_directory sys) (marker_name ns plan)) w4 = (Ok (), w5)"
    "view w5 = with_file (view w4) (marker_name ns plan) None" by blast
  have files5: "hv_files (view w5) n = (if n = marker_name ns plan then None else hv_files (view w) n)"
    if "n \<noteq> lock_name ns" for n using files4 [OF that] by (simp add: w5(2))
  have gone: "any_gateway ns (view w5) \<longleftrightarrow> \<not> last_gateway ns plan (view w)"
    unfolding last_gateway_def using files5 by (subst not_not, intro any_gateway_cong) simp
  have "hv_files (view w5) (original_name ns) = Some (v @ [CHR 0x0A])"
    using files5 [OF original_not_lock] original marker_not(1) [of ns plan] by simp
  from restore_forwarding_law [OF host v this, of plan] obtain w6 where
    w6: "restore_forwarding sys (paths sys ns plan) w5 = (Ok (if last_gateway ns plan (view w) then Some v else None), w6)"
    "view w6 = (if last_gateway ns plan (view w)
      then with_file ((view w5)\<lparr>hv_forwarding := v\<rparr>) (original_name ns) None else view w5)"
    by (auto simp: gone)
  have after: "hv_files (view w6) n = (if n = marker_name ns plan
      \<or> n = original_name ns \<and> last_gateway ns plan (view w) then None else hv_files (view w) n)"
    if "n \<noteq> lock_name ns" for n using files5 [OF that] by (auto simp: w6(2))
  show thesis
    by (rule that [OF w4(1) _ w5(1) w6(1)]) (use there fl(1) after w4(2) in \<open>simp_all add: w6(2) w5(2) kept(2)\<close>)
qed

lemma remove_effect:
  assumes host: "gateway_host sys view ns"
    and kernel: "kernel_lists sys (\<lambda>w. hv_chains (view w))" "kernel_deletes sys (\<lambda>w. hv_chains (view w))"
    and slash: "CHR ''/'' \<notin> set (gp_tunnel_interface plan)" and v: "v \<in> {''0'', ''1''}"
    and marker: "hv_files (view w) (marker_name ns plan) \<noteq> None"
    and original: "hv_files (view w) (original_name ns) = Some (v @ [CHR 0x0A])"
    and few: "owned_total (gp_owner_tag plan) (hv_chains (view w)) \<le> 128"
  shows "\<exists>w'. gateway_remove sys plan w
      = (Ok (owned_total (gp_owner_tag plan) (hv_chains (view w)),
             if last_gateway ns plan (view w) then Some v else None), w')
    \<and> (\<forall>loc. hv_chains (view w') loc = (if loc \<in> set owned_rule_locations
          then foreign (gp_owner_tag plan) (hv_chains (view w) loc) else hv_chains (view w) loc))
    \<and> hv_forwarding (view w') = (if last_gateway ns plan (view w) then v else hv_forwarding (view w))
    \<and> (\<forall>n. n \<noteq> lock_name ns \<longrightarrow> hv_files (view w') n =
        (if n = marker_name ns plan \<or> n = original_name ns \<and> last_gateway ns plan (view w) then None
         else hv_files (view w) n))"
proof -
  note facts = gateway_hostD [OF host]
  let ?st = "paths sys ns plan" and ?tag = "gp_owner_tag plan"
  obtain w1 w2 w3 where w1: "ensure_iptables_available sys w = (Ok (), w1)" and w2: "ensure_directory sys ?st w1 = (Ok (), w2)"
    and w3: "state_lock sys ?st w2 = (Ok (), w3)" "view w3 = locked ns (view w)" by (rule reach_lock [OF host])
  obtain w4 w5 w6 where w4: "delete_owned_rules sys plan w3 = (Ok (owned_total ?tag (hv_chains (view w))), w4)"
    and here: "os_exists sys (path_join (state_directory sys) (marker_name ns plan)) w4"
    and w5: "os_remove_file sys (path_join (state_directory sys) (marker_name ns plan)) w4 = (Ok (), w5)"
    and w6: "restore_forwarding sys ?st w5 = (Ok (if last_gateway ns plan (view w) then Some v else None), w6)"
    and chains: "\<forall>loc. hv_chains (view w6) loc = (if loc \<in> set owned_rule_locations
      then foreign ?tag (hv_chains (view w) loc) else hv_chains (view w) loc)"
    and forwarding: "hv_forwarding (view w6) = (if last_gateway ns plan (view w) then v else hv_forwarding (view w))"
    and files: "\<forall>n. n \<noteq> lock_name ns \<longrightarrow> hv_files (view w6) n =
        (if n = marker_name ns plan \<or> n = original_name ns \<and> last_gateway ns plan (view w) then None
         else hv_files (view w) n)"
    by (rule remove_while_locked [OF host kernel slash v marker original few w3(2)])
  let ?body = "io_then (delete_owned_rules sys plan) (\<lambda>removed.
      io_then (\<lambda>w. if os_exists sys (sp_marker ?st) w
                 then io_context (''removing '' @ sp_marker ?st)
                        (io_call (os_remove_file sys (sp_marker ?st))) w
                 else (Ok (), w)) (\<lambda>_.
      io_then (restore_forwarding sys ?st) (\<lambda>restored. io_ok (removed, restored))))"
  have "sp_marker ?st = path_join (state_directory sys) (marker_name ns plan)" by (simp add: paths_def)
  then have "?body w3 = (Ok (owned_total ?tag (hv_chains (view w)),
      if last_gateway ns plan (view w) then Some v else None), w6)"
    using w4 here w5 w6 by (simp add: io_then_def io_context_def io_call_def)
  with with_state_lock_Ok [OF host w3(1)] obtain w7 where
    w7: "with_state_lock sys ?st ?body w2 = (Ok (owned_total ?tag (hv_chains (view w)),
      if last_gateway ns plan (view w) then Some v else None), w7)" "view w7 = view w6" by blast
  have "gateway_remove sys plan w = (Ok (owned_total ?tag (hv_chains (view w)),
      if last_gateway ns plan (view w) then Some v else None), w7)"
    using w7(1) facts(4,5) w1 w2
    by (simp add: gateway_remove_def ensure_linux_root_def ensure_linux_def io_then_Ok state_paths_law [OF host])
  with chains forwarding files show ?thesis by (intro exI [of _ w7]) (simp only: w7(2), blast)
qed

subsection \<open>Apply, then remove\<close>

lemma owned_total_planned:
  assumes "listed_rules tag printed rules" and "holds_policy tag printed rules before after"
  shows "owned_total tag after = length rules"
proof -
  have "length (owned tag (after loc)) = length (planned printed rules loc)" if "loc \<in> set owned_rule_locations" for loc
    using assms(2) that by (intro mset_eq_length) (simp add: holds_policy_def)
  then show ?thesis
    unfolding owned_total_def planned_total [OF assms(1)] by (intro arg_cong [where f = sum_list] map_cong) auto
qed

lemma rules_of_plan: "plan_from_config cfg = Ok plan \<Longrightarrow> length (gp_rules plan) = 5"
  unfolding plan_from_config_Ok by (cases plan) (auto simp: plan_rules_def)

lemma interface_without_slash:
  assumes "validate L cfg = Ok ()" and "plan_from_config cfg = Ok plan"
  shows "CHR ''/'' \<notin> set (gp_tunnel_interface plan)"
proof -
  have "is_valid_linux_interface_name (gp_tunnel_interface plan)"
    using assms by (auto simp: plan_from_config_Ok validate_Ok_iff config_ok_def gateway_ok_def Let_def)
  then show ?thesis
    by (auto simp: is_valid_linux_interface_name_def list_all_iff is_ascii_alphanumeric_def is_ascii_digit_def)
qed

text \<open>The other gateways of a namespace are the same before and after.\<close>

lemma last_gateway_apply:
  assumes "\<And>n. n \<noteq> lock_name ns \<Longrightarrow> n \<noteq> marker_name ns plan \<Longrightarrow> n \<noteq> original_name ns \<Longrightarrow> hv_files v' n = hv_files v n"
  shows "last_gateway ns plan v' \<longleftrightarrow> last_gateway ns plan v"
proof -
  have "hv_files v' n = hv_files v n" if "is_marker ns n" "n \<noteq> marker_name ns plan" for n
    using that names_differ(1,2) [of ns] by (intro assms) auto
  then show ?thesis unfolding last_gateway_def any_gateway_def by simp
qed

subsection \<open>A concrete host\<close>

text \<open>The chains of the sample kernel, the files of the state directory as an association list, and
the forwarding switch as a truth value.\<close>

type_synonym demo_host_world = "(string \<times> string) list \<times> bool \<times> demo_world"

definition switch :: "bool \<Rightarrow> string" where
  "switch b = (if b then ''1'' else ''0'')"

definition demo_view :: "demo_host_world \<Rightarrow> host_view" where
  "demo_view w = (case w of (files, b, c) \<Rightarrow>
    \<lparr>hv_files = map_of files, hv_forwarding = switch b, hv_chains = demo_chain c\<rparr>)"

definition file_of :: "string \<Rightarrow> string" where
  "file_of path = drop (length ''/run/hushwire/'') path"

definition demo_write :: "string \<Rightarrow> string \<Rightarrow> demo_host_world \<Rightarrow> (string, unit) result \<times> demo_host_world" where
  "demo_write path s w = (case w of (files, r) \<Rightarrow> (Ok (), (AList.update (file_of path) s files, r)))"

definition demo_host :: "demo_host_world os" where
  "demo_host = \<lparr>os_is_linux = True, os_euid = 0, os_env = (\<lambda>_. None),
     os_command = (\<lambda>program args w. case w of (files, b, c) \<Rightarrow>
       if args = [''--version''] then (fst (demo_out 0 [] c), w)
       else if program = ''sysctl'' then (fst (demo_out 0 [] c), (files, args ! 1 = ''net.ipv4.ip_forward=1'', c))
       else (case demo_command program args c of (r, c') \<Rightarrow> (r, (files, b, c')))),
     os_exists = (\<lambda>path w. if starts_with path ''/run/hushwire/'' then map_of (fst w) (file_of path) \<noteq> None
       else path \<noteq> ''/usr/sbin/iptables''),
     os_read = (\<lambda>path w. if path = ''/proc/sys/net/ipv4/ip_forward'' then Ok (switch (fst (snd w)))
       else if path = ''/sys/class/net/tun0/mtu'' then Ok ''1280''
       else case map_of (fst w) (file_of path) of Some s \<Rightarrow> Ok s | None \<Rightarrow> Err ''not found''),
     os_read_link = (\<lambda>_ _. Ok ''net:[4026]''),
     os_read_dir = (\<lambda>_ w. Ok (map Ok (filter (\<lambda>n. CHR ''/'' \<notin> set n) (map fst (fst w))))),
     os_create_dir_all = (\<lambda>_ w. (Ok (), w)), os_set_permissions = (\<lambda>_ _ w. (Ok (), w)),
     os_create_new = (\<lambda>path w. if map_of (fst w) (file_of path) = None then (Ok (), snd (demo_write path [] w))
       else (Err AlreadyExists, w)),
     os_write_all = demo_write, os_write = demo_write,
     os_remove_file = (\<lambda>path w. (Ok (), (AList.delete (file_of path) (fst w), snd w))),
     os_open = (\<lambda>path w. if map_of (fst w) (file_of path) = None then demo_write path [] w else (Ok (), w)),
     os_lock_exclusive = (\<lambda>_ w. (Ok (), w)), os_unlock = (\<lambda>_ w. w)\<rparr>"

lemma demo_path: "path_join ''/run/hushwire'' n = ''/run/hushwire/'' @ n"
  by (simp add: path_join_def ends_with_def starts_with_def)

lemma demo_file: "file_of (''/run/hushwire/'' @ n) = n"
  by (simp add: file_of_def)

lemma demo_files: "host_files demo_host demo_view ''/run/hushwire''"
  unfolding host_files_def demo_path
proof (intro allI impI)
  fix w :: demo_host_world and n
  obtain files b c where w: "w = (files, b, c)" by (cases w)
  have start: "starts_with (''/run/hushwire/'' @ n) ''/run/hushwire/''" by (simp add: starts_with_eq)
  have other: "''/run/hushwire/'' @ n \<noteq> ''/proc/sys/net/ipv4/ip_forward''"
    "''/run/hushwire/'' @ n \<noteq> ''/sys/class/net/tun0/mtu''" by simp_all
  show "let path = ''/run/hushwire/'' @ n; v = demo_view w in
      os_exists demo_host path w = (hv_files v n \<noteq> None)
      \<and> (\<forall>s. hv_files v n = Some s \<longrightarrow> os_read demo_host path w = Ok s)
      \<and> (case hv_files v n of
           Some _ \<Rightarrow> \<exists>w'. os_create_new demo_host path w = (Err AlreadyExists, w') \<and> demo_view w' = v
         | None \<Rightarrow> \<exists>w'. os_create_new demo_host path w = (Ok (), w') \<and> demo_view w' = with_file v n (Some []))
      \<and> (\<forall>s. hv_files v n = Some [] \<longrightarrow>
           (\<exists>w'. os_write_all demo_host path s w = (Ok (), w') \<and> demo_view w' = with_file v n (Some s)))
      \<and> (\<forall>s. \<exists>w'. os_write demo_host path s w = (Ok (), w') \<and> demo_view w' = with_file v n (Some s))
      \<and> (hv_files v n \<noteq> None \<longrightarrow>
           (\<exists>w'. os_remove_file demo_host path w = (Ok (), w') \<and> demo_view w' = with_file v n None))
      \<and> (\<exists>w'. os_open demo_host path w = (Ok (), w')
           \<and> demo_view w' = (if hv_files v n = None then with_file v n (Some []) else v))"
    unfolding Let_def demo_host_def os.select_convs demo_file demo_write_def w
    using start other
    by (cases "map_of files n") (simp_all add: demo_view_def update_conv' delete_conv' demo_file)
qed

lemma demo_directory: "host_directory demo_host demo_view ''/run/hushwire''"
proof -
  have "starts_with ''/run/hushwire'' ''/run/hushwire/'' = False" by (simp add: starts_with_def)
  moreover have "(n \<in> set (filter (\<lambda>n. CHR ''/'' \<notin> set n) (map fst files))) \<longleftrightarrow> map_of files n \<noteq> None"
    if "state_name n" for n and files :: "(string \<times> string) list"
    using that by (simp add: state_name_def map_of_eq_None_iff)
  ultimately show ?thesis
    unfolding host_directory_def by (auto simp: demo_host_def demo_view_def)
qed

lemma demo_host_program: "iptables_program demo_host w = ''iptables''"
  by (simp add: iptables_program_def demo_host_def starts_with_def)

lemma demo_host_run:
  "args \<noteq> [''--version''] \<Longrightarrow> run_iptables demo_host args (files, b, c)
    = (case run_iptables demo_os args c of (r, c') \<Rightarrow> (r, (files, b, c')))"
  by (simp add: run_iptables_def io_context_def io_call_def demo_host_program)
    (simp add: demo_host_def split: prod.splits)

lemma demo_host_leaves:
  "hv_files (demo_view (snd (run_iptables demo_host args w))) = hv_files (demo_view w)
    \<and> hv_forwarding (demo_view (snd (run_iptables demo_host args w))) = hv_forwarding (demo_view w)"
proof (cases "args = [''--version'']")
  case True
  then show ?thesis
    by (cases w) (simp add: run_iptables_def io_context_def io_call_def demo_host_def split: prod.splits)
next
  case False
  then show ?thesis
    by (cases w) (simp add: demo_host_run demo_view_def split: prod.splits)
qed

lemma switch_cases: "switch b \<in> {''0'', ''1''}" "switch b = ''1'' \<longleftrightarrow> b" "trim (switch b) = switch b"
  by (simp_all add: switch_def trim_alphanumeric is_ascii_alphanumeric_def is_ascii_digit_def)

lemma demo_commands: "host_commands demo_host demo_view"
proof -
  have "\<exists>w'. write_ip_forward demo_host v w = (Ok (), w') \<and> demo_view w' = (demo_view w)\<lparr>hv_forwarding := v\<rparr>"
    if v: "v \<in> {''0'', ''1''}" for v and w :: demo_host_world
  proof -
    obtain files b c where w: "w = (files, b, c)" by (cases w)
    have "write_ip_forward demo_host v w = (Ok (), (files, v = ''1'', c))"
      by (simp add: write_ip_forward_def io_then_def io_context_def io_call_def demo_host_def demo_out_def
          po_success_def w)
    with v show ?thesis by (auto simp: demo_view_def w switch_def)
  qed
  moreover have "read_ip_forward demo_host w = (Ok (hv_forwarding (demo_view w)), w)" for w
    by (cases w) (simp add: read_ip_forward_def io_then_def io_context_def io_query_def demo_host_def
        demo_view_def switch_cases(3))
  moreover have "ensure_iptables_available demo_host w = (Ok (), w)" for w
    by (cases w) (simp add: ensure_iptables_available_def io_then_def io_context_def io_call_def
        demo_host_program, simp add: demo_host_def demo_out_def po_success_def)
  moreover have "hv_forwarding (demo_view w) \<in> {''0'', ''1''}" for w
    using switch_cases(1) by (cases w) (simp add: demo_view_def)
  moreover have "os_lock_exclusive demo_host path w = (Ok (), w)" "os_unlock demo_host path w = w" for path w
    by (simp_all add: demo_host_def)
  ultimately show ?thesis unfolding host_commands_def using demo_host_leaves by auto
qed

lemma demo_is_host: "gateway_host demo_host demo_view ''4026''"
proof -
  have "state_directory demo_host = ''/run/hushwire''" by (simp add: state_directory_def demo_host_def)
  moreover have "network_namespace_id demo_host w = (Ok ''4026'', w)" for w
    by (simp add: network_namespace_id_def io_then_def io_context_def io_query_def demo_host_def is_ascii_digit_def)
  ultimately show ?thesis
    using demo_files demo_directory demo_commands by (simp add: gateway_host_def demo_host_def)
qed

text \<open>The laws of the sample kernel carry over.\<close>

lemma demo_host_kernel: "gateway_kernel demo_host demo_view (listed_line True) demo_plan"
proof -
  have view: "hv_chains (demo_view (files, b, c)) = demo_chain c" for files b c by (simp add: demo_view_def)
  have lists: "kernel_lists demo_host (\<lambda>w. hv_chains (demo_view w))"
    unfolding kernel_lists_def
  proof (intro allI ballI)
    fix w :: demo_host_world and loc :: iptables_location
    assume loc: "loc \<in> set owned_rule_locations"
    obtain files b c where w: "w = (files, b, c)" by (cases w)
    have "table_args (loc_table loc) @ [''-S'', loc_chain loc] \<noteq> [''--version'']" by (auto simp: table_args_def split: option.splits)
    with demo_kernel_lists [unfolded kernel_lists_def, THEN spec [of _ c], THEN bspec [OF _ loc]]
    show "\<exists>out. run_iptables demo_host (table_args (loc_table loc) @ [''-S'', loc_chain loc]) w = (Ok out, w)
        \<and> po_success out \<and> filter is_rule_line (str_lines (po_stdout out)) = hv_chains (demo_view w) loc
        \<and> (\<forall>l \<in> set (str_lines (po_stdout out)). \<forall>tag. iptables_line_has_owner l tag \<longrightarrow> is_rule_line l)"
      by (auto simp: w demo_host_run view)
  qed
  have deletes: "kernel_deletes demo_host (\<lambda>w. hv_chains (demo_view w))"
    unfolding kernel_deletes_def
  proof (intro allI ballI impI)
    fix w :: demo_host_world and loc :: iptables_location and n
    obtain files b c where w: "w = (files, b, c)" by (cases w)
    assume "loc \<in> set owned_rule_locations" "0 < n \<and> n \<le> length (hv_chains (demo_view w) loc)"
    with demo_kernel_deletes obtain out c' where
      "run_iptables demo_os (table_args (loc_table loc) @ [''-D'', loc_chain loc, show_nat n]) c = (Ok out, c')"
      "po_success out" "demo_chain c' = (demo_chain c)(loc := take (n - 1) (demo_chain c loc) @ drop n (demo_chain c loc))"
      unfolding kernel_deletes_def w view by blast
    moreover have "table_args (loc_table loc) @ [''-D'', loc_chain loc, show_nat n] \<noteq> [''--version'']"
      by (auto simp: table_args_def split: option.splits)
    ultimately show "\<exists>out w'. run_iptables demo_host (table_args (loc_table loc) @ [''-D'', loc_chain loc, show_nat n]) w = (Ok out, w')
        \<and> po_success out
        \<and> hv_chains (demo_view w') = (hv_chains (demo_view w))(loc := take (n - 1) (hv_chains (demo_view w) loc)
            @ drop n (hv_chains (demo_view w) loc))"
      by (intro exI [of _ out] exI [of _ "(files, b, c')"]) (simp add: w demo_host_run view)
  qed
  have adds: "kernel_adds demo_host (\<lambda>w. hv_chains (demo_view w)) (listed_line True) demo_rules"
    unfolding kernel_adds_def
  proof (intro allI ballI conjI)
    fix w :: demo_host_world and r
    obtain files b c where w: "w = (files, b, c)" by (cases w)
    assume r: "r \<in> set demo_rules"
    note law = demo_kernel_adds [unfolded kernel_adds_def, THEN spec [of _ c], THEN bspec [OF _ r]]
    have args: "command_args r action \<noteq> [''--version'']" for action
      by (auto simp: command_args_def table_args_def split: option.splits)
    from law show "\<exists>out. run_iptables demo_host (command_args r ''-C'') w = (Ok out, w) \<and> po_code out
        = Some (if listed_line True r \<in> set (hv_chains (demo_view w) (rule_location r)) then 0 else 1)"
      unfolding w view demo_host_run [OF args] by auto
    from law obtain out c' where "run_iptables demo_os (command_args r ''-A'') c = (Ok out, c')" "po_success out"
      "demo_chain c' = (demo_chain c)(rule_location r := demo_chain c (rule_location r) @ [listed_line True r])" by blast
    then show "\<exists>out w'. run_iptables demo_host (command_args r ''-A'') w = (Ok out, w') \<and> po_success out
        \<and> hv_chains (demo_view w') = (hv_chains (demo_view w))(rule_location r :=
            hv_chains (demo_view w) (rule_location r) @ [listed_line True r])"
      by (intro exI [of _ out] exI [of _ "(files, b, c')"]) (simp add: w demo_host_run [OF args] view)
  qed
  from lists deletes adds show ?thesis by (simp add: gateway_kernel_def demo_plan_def)
qed

lemma demo_preflight: "preflight_interfaces demo_host demo_plan w = (Ok (), w)"
proof -
  have "parse_u16 ''1280'' = Some 1280"
    by (simp add: parse_u16_def read_number_def to_digit_def digits_value_def)
  moreover have "trim ''1280'' = ''1280''"
    by (simp add: trim_alphanumeric is_ascii_alphanumeric_def is_ascii_digit_def)
  moreover have "interface_path ''eth0'' = ''/sys/class/net/eth0''" "interface_path ''tun0'' = ''/sys/class/net/tun0''"
    "path_join ''/sys/class/net/tun0'' ''mtu'' = ''/sys/class/net/tun0/mtu''"
    by (simp_all add: interface_path_def path_join_def ends_with_def starts_with_def)
  moreover have "os_read demo_host ''/sys/class/net/tun0/mtu'' w = Ok ''1280''" by (simp add: demo_host_def)
  ultimately have "read_interface_mtu demo_host ''tun0'' w = (Ok 1280, w)"
    by (simp add: read_interface_mtu_def io_then_def io_context_def io_query_def Let_def)
  moreover have "os_exists demo_host ''/sys/class/net/eth0'' w" "os_exists demo_host ''/sys/class/net/tun0'' w"
    by (simp_all add: demo_host_def starts_with_def)
  ultimately show ?thesis
    using \<open>interface_path ''eth0'' = _\<close> \<open>interface_path ''tun0'' = _\<close>
    by (simp add: preflight_interfaces_def demo_plan_def io_then_Ok)
qed

subsection \<open>Properties\<close>

text \<open>C30: on a Linux host that behaves as documented, applying the gateway of a validated
configuration, one that is not recorded there yet, succeeds and switches forwarding on, and removing
it afterwards reports the five rules of its plan and takes them out again: the files of the state
directory are as they were (but for the lock file), every rule of somebody else is in its place, and
the forwarding switch is back at its old setting, unless another gateway of the same network
namespace is active, for which it stays on and its recorded setting is kept. Rules that an earlier
gateway of this tunnel left behind (at most 128) are gone after both: \<open>apply\<close> replaces them.\<close>

theorem apply_then_remove_restores:
  assumes "validate L cfg = Ok ()" and "plan_from_config cfg = Ok plan"
    and host: "gateway_host sys view ns" and kernel: "gateway_kernel sys view printed plan"
    and "inj_on printed (set (gp_rules plan))"
    and "\<forall>r \<in> set (gp_rules plan). \<forall>tag.
      iptables_line_has_owner (printed r) tag \<longleftrightarrow> iptables_line_has_owner (listed_line quoted r) tag"
    and bound: "owned_total (gp_owner_tag plan) (hv_chains (view w)) \<le> 128"
    and pre: "preflight_interfaces sys plan w = (Ok (), w)"
    and fresh: "hv_files (view w) (marker_name ns plan) = None"
    and recorded: "hv_files (view w) (original_name ns)
      = (if any_gateway ns (view w) then Some (v @ [CHR 0x0A]) else None)" and "v \<in> {''0'', ''1''}"
  shows "\<exists>w1 w2. gateway_apply sys plan w = (Ok (), w1) \<and> hv_forwarding (view w1) = ''1''
    \<and> gateway_remove sys plan w1
        = (Ok (5, if any_gateway ns (view w) then None else Some (hv_forwarding (view w))), w2)
    \<and> hv_forwarding (view w2) = (if any_gateway ns (view w) then ''1'' else hv_forwarding (view w))
    \<and> (\<forall>loc. hv_chains (view w2) loc = (if loc \<in> set owned_rule_locations
          then filter (\<lambda>l. \<not> iptables_line_has_owner l (gp_owner_tag plan)) (hv_chains (view w) loc)
          else hv_chains (view w) loc))
    \<and> (\<forall>n. n \<noteq> lock_name ns \<longrightarrow> hv_files (view w2) n = hv_files (view w) n)"
proof -
  let ?tag = "gp_owner_tag plan" and ?others = "any_gateway ns (view w)"
  let ?u = "if ?others then v else hv_forwarding (view w)"
  note listed = plan_listed [OF assms(1,2,5,6)]
  note slash = interface_without_slash [OF assms(1,2)]
  note differ = marker_not [of ns plan] original_not_lock [of ns]
  obtain c w1 where w1: "gateway_apply sys plan w = (Ok (), w1)"
    "holds_policy ?tag printed (gp_rules plan) (hv_chains (view w)) (hv_chains (view w1))"
    "hv_forwarding (view w1) = ''1''"
    and files: "\<And>n. n \<noteq> lock_name ns \<Longrightarrow> hv_files (view w1) n = (if n = marker_name ns plan then Some c
      else if n = original_name ns \<and> hv_files (view w) n = None
      then Some (hv_forwarding (view w) @ [CHR 0x0A]) else hv_files (view w) n)"
    using apply_effect [OF host kernel slash pre listed bound] by blast
  have total: "owned_total ?tag (hv_chains (view w1)) = 5"
    using owned_total_planned [OF listed w1(2)] rules_of_plan [OF assms(2)] by simp
  have "last_gateway ns plan (view w1) \<longleftrightarrow> last_gateway ns plan (view w)"
    using files by (intro last_gateway_apply) simp
  moreover have "last_gateway ns plan (view w) \<longleftrightarrow> \<not> ?others"
    unfolding last_gateway_def using fresh by (intro arg_cong [where f = Not] any_gateway_cong) simp
  ultimately have last: "last_gateway ns plan (view w1) \<longleftrightarrow> \<not> ?others" by simp
  have u: "?u \<in> {''0'', ''1''}" using assms(11) host_setting [OF host, of w] by simp
  have marker: "hv_files (view w1) (marker_name ns plan) \<noteq> None" using files [OF differ(2)] by simp
  have saved: "hv_files (view w1) (original_name ns) = Some (?u @ [CHR 0x0A])"
    using files [OF differ(3)] differ(1) recorded by auto
  obtain w2 where w2: "gateway_remove sys plan w1 = (Ok (5, if ?others then None else Some ?u), w2)"
    "hv_forwarding (view w2) = (if ?others then ''1'' else ?u)"
    and chains: "\<And>loc. hv_chains (view w2) loc = (if loc \<in> set owned_rule_locations
      then foreign ?tag (hv_chains (view w1) loc) else hv_chains (view w1) loc)"
    and files2: "\<And>n. n \<noteq> lock_name ns \<Longrightarrow> hv_files (view w2) n =
      (if n = marker_name ns plan \<or> n = original_name ns \<and> \<not> ?others then None else hv_files (view w1) n)"
    using remove_effect [OF host _ _ slash u marker saved] kernel w1(3)
    by (auto simp: gateway_kernel_def total last)
  have "hv_files (view w2) n = hv_files (view w) n" if "n \<noteq> lock_name ns" for n
    using files2 [OF that] files [OF that] fresh recorded differ(1) by (auto split: if_splits)
  moreover have "hv_chains (view w2) loc = (if loc \<in> set owned_rule_locations
      then foreign ?tag (hv_chains (view w) loc) else hv_chains (view w) loc)" for loc
    using chains [of loc] w1(2) by (simp add: holds_policy_def)
  ultimately show ?thesis using w1(1,3) w2 by (intro exI [of _ w1] exI [of _ w2]) simp
qed

theorem apply_then_remove_restores_witness:
  "\<exists>w1 w2. gateway_apply demo_host demo_plan ([], False, demo_start) = (Ok (), w1)
    \<and> hv_forwarding (demo_view w1) = ''1''
    \<and> gateway_remove demo_host demo_plan w1 = (Ok (5, Some ''0''), w2)
    \<and> hv_forwarding (demo_view w2) = ''0''"
proof -
  let ?w = "([], False, demo_start) :: demo_host_world"
  have total: "owned_total (gp_owner_tag demo_plan) (hv_chains (demo_view ?w)) \<le> 128"
    using demo_owned by (simp add: owned_total_def owned_rule_locations_def demo_plan_def demo_chain_def
        demo_start_def demo_view_def)
  have none: "hv_files (demo_view ?w) n = None" "hv_forwarding (demo_view ?w) = ''0''" for n
    by (simp_all add: demo_view_def switch_def)
  then have alone: "\<not> any_gateway ''4026'' (demo_view ?w)" by (simp add: any_gateway_def)
  have same: "\<forall>r \<in> set (gp_rules demo_plan). \<forall>tag. iptables_line_has_owner (listed_line True r) tag
      \<longleftrightarrow> iptables_line_has_owner (listed_line True r) tag" by blast
  have recorded: "hv_files (demo_view ?w) (original_name ''4026'')
      = (if any_gateway ''4026'' (demo_view ?w) then Some (''0'' @ [CHR 0x0A]) else None)"
    using alone none by simp
  from apply_then_remove_restores [OF demo_validates demo_plan_made demo_is_host demo_host_kernel demo_printed
      same total demo_preflight none(1) recorded] alone none(2)
  show ?thesis by auto
qed

end
