(* ===== verification/Gateway_Rollback.thy ===== *)
theory Gateway_Rollback
  imports Gateway_State
begin

text \<open>
  A gateway \<open>apply\<close> that fails half-way. \<^verbatim>\<open>iptables\<close> may refuse to append a rule; what was changed
  until then is taken back: the rules in reverse order, the marker, the recorded forwarding setting
  and the switch.
\<close>

text \<open>\<open>-A\<close> appends the rule or reports a failure and changes nothing.\<close>

definition kernel_may_add :: "'w os \<Rightarrow> 'w chains \<Rightarrow> (iptables_rule \<Rightarrow> string) \<Rightarrow> iptables_rule list \<Rightarrow> bool" where
  "kernel_may_add sys chain printed rules \<longleftrightarrow>
    (\<forall>w. \<forall>r \<in> set rules.
      (\<exists>out. run_iptables sys (command_args r ''-C'') w = (Ok out, w)
        \<and> po_code out = Some (if printed r \<in> set (chain w (rule_location r)) then 0 else 1))
      \<and> (\<exists>res w'. run_iptables sys (command_args r ''-A'') w = (res, w')
        \<and> chain w' = (if \<exists>out. res = Ok out \<and> po_success out
            then (chain w)(rule_location r := chain w (rule_location r) @ [printed r]) else chain w)))"

text \<open>\<open>-D\<close> with a specification takes out the first rule that matches.\<close>

definition kernel_withdraws :: "'w os \<Rightarrow> 'w chains \<Rightarrow> (iptables_rule \<Rightarrow> string) \<Rightarrow> iptables_rule list \<Rightarrow> bool" where
  "kernel_withdraws sys chain printed rules \<longleftrightarrow>
    (\<forall>w. \<forall>r \<in> set rules. printed r \<in> set (chain w (rule_location r)) \<longrightarrow>
      (\<exists>out w'. run_iptables sys (command_args r ''-D'') w = (Ok out, w') \<and> po_success out
        \<and> chain w' = (chain w)(rule_location r := remove1 (printed r) (chain w (rule_location r)))))"

subsection \<open>The rules\<close>

lemma rule_exists_may:
  assumes "kernel_may_add sys chain printed rules" and "r \<in> set rules"
  shows "rule_exists sys r w = (Ok (printed r \<in> set (chain w (rule_location r))), w)"
proof -
  from assms obtain out where "run_iptables sys (command_args r ''-C'') w = (Ok out, w)"
    "po_code out = Some (if printed r \<in> set (chain w (rule_location r)) then 0 else 1)"
    unfolding kernel_may_add_def by blast
  then show ?thesis by (simp add: rule_exists_def io_then_Ok)
qed

lemma add_if_missing_may:
  assumes "kernel_may_add sys chain printed rules" and "r \<in> set rules"
    and "printed r \<notin> set (chain w (rule_location r))"
  obtains (added) w' where "add_if_missing sys r w = (Ok True, w')"
      and "chain w' = (chain w)(rule_location r := chain w (rule_location r) @ [printed r])"
  | (refused) e w' where "add_if_missing sys r w = (Err e, w')" and "chain w' = chain w"
proof -
  have absent: "rule_exists sys r w = (Ok False, w)"
    using rule_exists_may [OF assms(1,2), of w] assms(3) by simp
  from assms(1,2) obtain res w' where run: "run_iptables sys (command_args r ''-A'') w = (res, w')"
    and c: "chain w' = (if \<exists>out. res = Ok out \<and> po_success out
      then (chain w)(rule_location r := chain w (rule_location r) @ [printed r]) else chain w)"
    unfolding kernel_may_add_def by blast
  show thesis
  proof (cases res)
    case (Inl e)
    with absent run c show thesis by (intro refused [of e w']) (simp_all add: add_if_missing_def io_then_def)
  next
    case (Inr out)
    show thesis
    proof (cases "po_success out")
      case True
      with absent run c Inr show thesis by (intro added [of w']) (simp_all add: add_if_missing_def io_then_def)
    next
      case False
      with absent run c Inr show thesis by (intro refused [of _ w']) (simp_all add: add_if_missing_def io_then_def)
    qed
  qed
qed

lemma add_rules_may:
  assumes "kernel_may_add sys chain printed rules" and "set rs \<subseteq> set rules" and "distinct (map printed rs)"
    and "\<forall>r \<in> set rs. printed r \<notin> set (chain w (rule_location r))"
    and "add_rules sys rs added w = (res, added', w')"
  shows "\<exists>ds rest. rs = ds @ rest \<and> added' = added @ ds \<and> (res = Ok () \<longleftrightarrow> rest = [])
    \<and> (\<forall>loc. chain w' loc = chain w loc @ planned printed ds loc)"
  using assms(2-5)
proof (induction rs arbitrary: added w)
  case Nil
  then show ?case by (auto simp: planned_def)
next
  case (Cons r rs)
  then have r: "r \<in> set rules" and new: "printed r \<notin> set (chain w (rule_location r))" by simp_all
  from assms(1) r new show ?case
  proof (cases rule: add_if_missing_may)
    case (refused e w1)
    with Cons.prems(4) show ?thesis by (intro exI [of _ "[]"] exI [of _ "r # rs"]) (auto simp: planned_def)
  next
    case (added w1)
    from Cons.prems added(2) have "\<forall>r' \<in> set rs. printed r' \<notin> set (chain w1 (rule_location r'))"
      by (auto simp: image_iff)
    with Cons.IH [of w1 "added @ [r]"] Cons.prems added(1) obtain ds rest where
      "rs = ds @ rest" "added' = added @ r # ds" "res = Ok () \<longleftrightarrow> rest = []"
      "\<forall>loc. chain w' loc = chain w1 loc @ planned printed ds loc" by auto
    with added(2) show ?thesis by (intro exI [of _ "r # ds"] exI [of _ rest]) (auto simp: planned_def)
  qed
qed

lemma delete_added_law:
  assumes "kernel_withdraws sys chain printed rules" and "set ds \<subseteq> set rules" and "distinct (map printed ds)"
    and "\<forall>r \<in> set ds. printed r \<notin> set (c (rule_location r))"
    and "\<forall>loc. chain w loc = c loc @ planned printed ds loc"
  shows "chain (delete_added sys (rev ds) w) = c"
  using assms(2-5)
proof (induction ds arbitrary: w rule: rev_induct)
  case Nil
  then show ?case by (auto simp: planned_def)
next
  case (snoc r ds)
  let ?loc = "rule_location r"
  have here: "chain w ?loc = (c ?loc @ planned printed ds ?loc) @ [printed r]"
    using snoc.prems(4) by (simp add: planned_def)
  have r: "r \<in> set rules" using snoc.prems(1) by simp
  have "printed r \<in> set (chain w ?loc)" using here by simp
  from assms(1) [unfolded kernel_withdraws_def, rule_format, OF r this] obtain out w1 where run: "run_iptables sys (command_args r ''-D'') w = (Ok out, w1)"
    "po_success out" and c1: "chain w1 = (chain w)(?loc := remove1 (printed r) (chain w ?loc))"
    by blast
  have "printed r \<notin> set (c ?loc @ planned printed ds ?loc)"
    using snoc.prems(2,3) by (auto simp: planned_def)
  then have "remove1 (printed r) (chain w ?loc) = c ?loc @ planned printed ds ?loc"
    unfolding here by (simp add: remove1_append)
  then have w1: "\<forall>loc. chain w1 loc = c loc @ planned printed ds loc"
    using snoc.prems(4) c1 by (simp add: planned_def)
  have "io_ignore (delete_once sys r) w = w1" using run by (simp add: io_ignore_def delete_once_def io_then_def)
  with snoc.IH [OF _ _ _ w1] snoc.prems show ?case by simp
qed

lemma delete_once_leaves: "iptables_leave sys obs \<Longrightarrow> leaves obs (delete_once sys r)"
  unfolding delete_once_def by (intro leaves_then leaves_if leaves_ok leaves_iptables)

lemma delete_added_leaves: "iptables_leave sys obs \<Longrightarrow> obs (delete_added sys rs w) = obs w"
proof (induction rs arbitrary: w)
  case (Cons r rs)
  obtain q w1 where "delete_once sys r w = (q, w1)" by (cases "delete_once sys r w")
  with leavesD [OF delete_once_leaves [OF Cons.prems]] Cons show ?case by (simp add: io_ignore_def)
qed simp

lemma rules_exist_may:
  assumes "kernel_may_add sys chain printed rules" and "set rs \<subseteq> set rules"
  shows "rules_exist sys rs w = (Ok (map (\<lambda>r. printed r \<in> set (chain w (rule_location r))) rs), w)"
  using assms(2) by (induction rs) (simp_all add: io_then_Ok rule_exists_may [OF assms(1)])

lemma reconcile_nothing:
  assumes "kernel_lists sys chain" and "kernel_deletes sys chain"
    and "kernel_may_add sys chain printed (gp_rules plan)"
    and none: "owned_total (gp_owner_tag plan) (chain w) = 0"
  shows "\<exists>w1. reconcile_rules sys plan w = (Ok (), w1) \<and> chain w1 = chain w"
proof -
  have nothing: "owned (gp_owner_tag plan) (chain w loc) = []" if "loc \<in> set owned_rule_locations" for loc
    using none that by (auto simp: owned_total_def)
  then have "foreign (gp_owner_tag plan) (chain w loc) = chain w loc" if "loc \<in> set owned_rule_locations" for loc
    using that by (simp add: filter_empty_conv filter_id_conv)
  with delete_owned_rules_law [OF assms(1,2), of plan w] none obtain w1 where
    "delete_owned_rules sys plan w = (Ok 0, w1)" "chain w1 = chain w" by (auto simp: fun_eq_iff)
  then show ?thesis
    using rules_exist_may [OF assms(3) subset_refl] count_owned_rules_law [OF assms(1), of plan w]
    by (simp add: reconcile_rules_def io_then_def)
qed

text \<open>A rule that \<^verbatim>\<open>iptables\<close> never accepts ends the installation.\<close>

definition refuses :: "'w os \<Rightarrow> iptables_rule \<Rightarrow> bool" where
  "refuses sys r \<longleftrightarrow> (\<forall>w. \<exists>out w'. run_iptables sys (command_args r ''-A'') w = (Ok out, w') \<and> \<not> po_success out)"

lemma refuses_no_add:
  assumes "refuses sys r" and "add_if_missing sys r w = (Ok b, w')"
  shows "b = False"
proof -
  obtain q w1 where q: "rule_exists sys r w = (q, w1)" by (cases "rule_exists sys r w")
  obtain out w2 where "run_iptables sys (command_args r ''-A'') w1 = (Ok out, w2)" "\<not> po_success out"
    using assms(1) unfolding refuses_def by blast
  with q assms(2) show ?thesis by (cases q) (auto simp: add_if_missing_def io_then_def split: if_splits)
qed

lemma add_rules_refused:
  assumes "kernel_may_add sys chain printed rules" and "set rs \<subseteq> set rules" and "distinct (map printed rs)"
    and "\<forall>r \<in> set rs. printed r \<notin> set (chain w (rule_location r))"
    and "r \<in> set rs" and "refuses sys r"
  shows "add_rules sys rs added w \<noteq> (Ok (), added', w')"
  using assms(2-5)
proof (induction rs arbitrary: added w)
  case (Cons x rs)
  then have x: "x \<in> set rules" and new: "printed x \<notin> set (chain w (rule_location x))" by simp_all
  from assms(1) x new show ?case
  proof (cases rule: add_if_missing_may)
    case (refused e w1)
    then show ?thesis by simp
  next
    case (added w1)
    then have "x \<noteq> r" using refuses_no_add [OF assms(6)] by blast
    moreover have "\<forall>r' \<in> set rs. printed r' \<notin> set (chain w1 (rule_location r'))"
      using Cons.prems added(2) by (auto simp: image_iff)
    ultimately show ?thesis using Cons.IH [of w1] Cons.prems added(1) by simp
  qed
qed simp

lemma install_refused:
  assumes "kernel_lists sys chain" and "kernel_deletes sys chain"
    and may: "kernel_may_add sys chain printed (gp_rules plan)"
    and listed: "listed_rules (gp_owner_tag plan) printed (gp_rules plan)"
    and none: "owned_total (gp_owner_tag plan) (chain w) = 0"
    and r: "r \<in> set (gp_rules plan)" "refuses sys r"
  shows "install_policy sys plan forwarding w \<noteq> (Ok (), added, w')"
proof -
  obtain w1 where w1: "reconcile_rules sys plan w = (Ok (), w1)" "chain w1 = chain w"
    using reconcile_nothing [OF assms(1-3) none] by blast
  have "\<forall>r \<in> set (gp_rules plan). printed r \<notin> set (chain w1 (rule_location r))"
    using listed none w1(2) by (fastforce simp: listed_rules_def owned_total_def filter_empty_conv)
  with add_rules_refused [OF may subset_refl _ _ r] listed
  have "fst (add_rules sys (gp_rules plan) [] w1) \<noteq> Ok ()"
    by (metis listed_rules_def prod.collapse)
  then show ?thesis using w1(1) by (cases "add_rules sys (gp_rules plan) [] w1") (auto simp: install_policy_def split: sum.splits)
qed

subsection \<open>All or nothing\<close>

lemma install_policy_may:
  assumes "kernel_lists sys chain" and "kernel_deletes sys chain"
    and may: "kernel_may_add sys chain printed (gp_rules plan)" and "kernel_forwards sys chain"
    and listed: "listed_rules (gp_owner_tag plan) printed (gp_rules plan)"
    and none: "owned_total (gp_owner_tag plan) (chain w) = 0"
    and run: "install_policy sys plan forwarding w = (res, added, w')"
  shows "\<exists>rest. gp_rules plan = added @ rest \<and> (res = Ok () \<longleftrightarrow> rest = [])
    \<and> (\<forall>loc. chain w' loc = chain w loc @ planned printed added loc)"
proof -
  obtain w1 where w1: "reconcile_rules sys plan w = (Ok (), w1)" "chain w1 = chain w"
    using reconcile_nothing [OF assms(1-3) none] by blast
  obtain q ds w2 where add: "add_rules sys (gp_rules plan) [] w1 = (q, ds, w2)" by (metis prod_cases3)
  have "\<forall>r \<in> set (gp_rules plan). printed r \<notin> set (chain w1 (rule_location r))"
    using listed none w1(2) by (fastforce simp: listed_rules_def owned_total_def filter_empty_conv)
  with add_rules_may [OF may subset_refl _ _ add] listed obtain rest where
    rest: "gp_rules plan = ds @ rest" "q = Ok () \<longleftrightarrow> rest = []"
    "\<forall>loc. chain w2 loc = chain w1 loc @ planned printed ds loc" by (auto simp: listed_rules_def)
  show ?thesis
  proof (cases q)
    case (Inl e)
    with run w1(1) add have "res = Err e" "added = ds" "w' = w2" by (simp_all add: install_policy_def)
    with rest w1(2) Inl show ?thesis by auto
  next
    case (Inr u)
    obtain w3 where "write_ip_forward sys ''1'' w2 = (Ok (), w3)" "chain w3 = chain w2"
      using assms(4) unfolding kernel_forwards_def by (elim allE [of _ w2]) auto
    with run w1(1) add Inr have "res = Ok ()" "added = ds" "chain w' = chain w2"
      by (auto simp: install_policy_def split: if_splits)
    with rest w1(2) Inr show ?thesis by auto
  qed
qed

lemma install_failed_leaves:
  assumes "iptables_leave sys obs" and ok: "\<And>w. \<exists>w'. write_ip_forward sys ''1'' w = (Ok (), w')"
    and run: "install_policy sys plan forwarding w = (Err e, added, w')"
  shows "obs w' = obs w"
proof -
  obtain r w1 where rec: "reconcile_rules sys plan w = (r, w1)" by (cases "reconcile_rules sys plan w")
  obtain q a w2 where add: "add_rules sys (gp_rules plan) [] w1 = (q, a, w2)" by (metis prod_cases3)
  obtain w3 where "write_ip_forward sys ''1'' w2 = (Ok (), w3)" using ok by blast
  with run rec add have "w' = w1 \<or> w' = w2" by (auto simp: install_policy_def split: sum.splits if_splits)
  with leavesD [OF reconcile_leaves [OF assms(1)] rec] add_rules_leaves [OF assms(1) add] show ?thesis by auto
qed

text \<open>The roll-back of an apply that created the marker, and the record where there was none.\<close>

lemma roll_back_law:
  assumes host: "gateway_host sys view ns" and "CHR ''/'' \<notin> set (gp_tunnel_interface plan)"
    and withdraw: "kernel_withdraws sys (\<lambda>w. hv_chains (view w)) printed rules" "set added \<subseteq> set rules"
      "distinct (map printed added)" "\<forall>r \<in> set added. printed r \<notin> set (c (rule_location r))"
      "\<forall>loc. hv_chains (view w) loc = c loc @ planned printed added loc"
    and there: "hv_files (view w) (marker_name ns plan) \<noteq> None"
    and created: "created \<Longrightarrow> hv_files (view w) (original_name ns) \<noteq> None"
    and others: "created \<Longrightarrow> \<not> any_gateway ns (with_file (view w) (marker_name ns plan) None)"
    and fw: "fw \<in> {''0'', ''1''}"
  shows "\<exists>w'. roll_back sys (paths sys ns plan) fw created True added e w
      = (Err (''gateway apply rolled back after a failed system change'' # e), w')
    \<and> hv_chains (view w') = c \<and> hv_forwarding (view w') = (if created then fw else hv_forwarding (view w))
    \<and> hv_files (view w') = (hv_files (view w))(marker_name ns plan := None,
        original_name ns := if created then None else hv_files (view w) (original_name ns))"
proof -
  note facts = gateway_hostD [OF host]
  note slash = namespace_digits [OF facts(6)]
  note names = state_names [OF slash]
  let ?st = "paths sys ns plan" and ?w1 = "delete_added sys (rev added) w"
  have st: "sp_marker ?st = path_join (state_directory sys) (marker_name ns plan)"
    "sp_original_forwarding ?st = path_join (state_directory sys) (original_name ns)" by (simp_all add: paths_def)
  have c1: "hv_chains (view ?w1) = c" by (rule delete_added_law [OF withdraw])
  have same: "hv_files (view ?w1) = hv_files (view w)" "hv_forwarding (view ?w1) = hv_forwarding (view w)"
    using delete_added_leaves [OF host_iptables_leave [OF host], of "rev added" w] by simp_all
  obtain w2 where w2: "os_remove_file sys (sp_marker ?st) ?w1 = (Ok (), w2)"
    "view w2 = with_file (view ?w1) (marker_name ns plan) None"
    using file_laws(7) [OF facts(1) names(3) [OF assms(2)], of ?w1] there same(1) unfolding st by auto
  show ?thesis
  proof (cases created)
    case False
    have "roll_back sys ?st fw created True added e w
        = (Err (''gateway apply rolled back after a failed system change'' # e), w2)"
      by (simp add: roll_back_def Let_def w2(1) False)
    then show ?thesis
      by (intro exI [of _ w2]) (simp add: w2(2) c1 same False marker_not(1) [THEN not_sym] fun_eq_iff)
  next
    case True
    have "any_gateway ns (view w2) = any_gateway ns (with_file (view w) (marker_name ns plan) None)"
      by (intro any_gateway_cong) (simp add: w2(2) same)
    with others [OF True] have alone: "has_gateway_markers sys ?st w2 = (Ok False, w2)"
      by (simp add: has_markers_law [OF host])
    obtain w3 where w3: "write_ip_forward sys fw w2 = (Ok (), w3)" "view w3 = (view w2)\<lparr>hv_forwarding := fw\<rparr>"
      using host_writes [OF host fw] by blast
    have "hv_files (view w3) (original_name ns) \<noteq> None"
      using created [OF True] marker_not(1) [of ns plan] by (simp add: w3(2) w2(2) same)
    from file_laws(7) [OF facts(1) names(1) this] obtain w4 where
      w4: "os_remove_file sys (sp_original_forwarding ?st) w3 = (Ok (), w4)"
      "view w4 = with_file (view w3) (original_name ns) None" unfolding st by blast
    have "roll_back sys ?st fw created True added e w
        = (Err (''gateway apply rolled back after a failed system change'' # e), w4)"
      by (simp add: roll_back_def Let_def w2(1) alone io_ignore_def w3(1) w4(1) True)
    then show ?thesis
      by (intro exI [of _ w4]) (simp add: w4(2) w3(2) w2(2) c1 same True)
  qed
qed

lemma failed_apply_undone:
  assumes host: "gateway_host sys view ns" and slash: "CHR ''/'' \<notin> set (gp_tunnel_interface plan)"
    and withdraws: "kernel_withdraws sys (\<lambda>w. hv_chains (view w)) printed (gp_rules plan)"
    and listed: "listed_rules (gp_owner_tag plan) printed (gp_rules plan)"
    and none: "owned_total (gp_owner_tag plan) (hv_chains (view w)) = 0"
    and fresh: "hv_files (view w) (marker_name ns plan) = None"
    and recorded: "hv_files (view w) (original_name ns) = None \<Longrightarrow> \<not> any_gateway ns (view w)"
    and same: "hv_forwarding (view u) = hv_forwarding (view w)" "hv_chains (view u) = hv_chains (view w)"
    and files: "\<forall>n. n \<noteq> lock_name ns \<longrightarrow> hv_files (view u) n = (if n = marker_name ns plan then Some c
      else if n = original_name ns \<and> hv_files (view w) n = None then Some (hv_forwarding (view w) @ [CHR 0x0A])
      else hv_files (view w) n)"
    and run: "install_policy sys plan (hv_forwarding (view w)) u = (Err e, added, u2)"
    and split: "gp_rules plan = added @ others"
    and chains: "\<forall>loc. hv_chains (view u2) loc = hv_chains (view u) loc @ planned printed added loc"
  shows "\<exists>w'. after_recording sys ns plan view w u
        = (Err (''gateway apply rolled back after a failed system change'' # e), w')
    \<and> hv_chains (view w') = hv_chains (view w) \<and> hv_forwarding (view w') = hv_forwarding (view w)
    \<and> (\<forall>n. n \<noteq> lock_name ns \<longrightarrow> hv_files (view w') n = hv_files (view w) n)"
proof -
  let ?fw = "hv_forwarding (view w)"
  note leave = host_iptables_leave [OF host]
  have ok: "\<exists>w'. write_ip_forward sys ''1'' x = (Ok (), w')" for x using host_writes [OF host, of "''1''" x] by blast
  have kept: "hv_files (view u2) = hv_files (view u)" "hv_forwarding (view u2) = ?fw"
    using install_failed_leaves [OF leave ok run] same(1) by simp_all
  have fresh_rules: "\<forall>r \<in> set added. printed r \<notin> set (hv_chains (view w) (rule_location r))"
    using listed none split by (fastforce simp: listed_rules_def owned_total_def filter_empty_conv)
  have here: "hv_files (view u2) (marker_name ns plan) \<noteq> None"
    using files marker_not(2) [of ns plan] by (simp add: kept)
  have orig: "hv_files (view u2) (original_name ns) \<noteq> None" if "hv_files (view w) (original_name ns) = None"
    using files original_not_lock [of ns] marker_not(1) [of ns plan] that by (simp add: kept)
  have alone: "\<not> any_gateway ns (with_file (view u2) (marker_name ns plan) None)"
    if "hv_files (view w) (original_name ns) = None"
  proof -
    have "hv_files (with_file (view u2) (marker_name ns plan) None) n = hv_files (view w) n"
      if "is_marker ns n" for n
    proof -
      have "n \<noteq> lock_name ns" "n \<noteq> original_name ns" using that names_differ(1,2) [of ns] by metis+
      with files fresh show ?thesis by (simp add: kept)
    qed
    with recorded [OF that] show ?thesis unfolding any_gateway_def by simp
  qed
  have "\<exists>w'. roll_back sys (paths sys ns plan) ?fw (hv_files (view w) (original_name ns) = None) True added e u2
    = (Err (''gateway apply rolled back after a failed system change'' # e), w')
    \<and> hv_chains (view w') = hv_chains (view w)
    \<and> hv_forwarding (view w') = (if hv_files (view w) (original_name ns) = None then ?fw else hv_forwarding (view u2))
    \<and> hv_files (view w') = (hv_files (view u2))(marker_name ns plan := None, original_name ns :=
        if hv_files (view w) (original_name ns) = None then None else hv_files (view u2) (original_name ns))"
    using listed split chains same(2) host_setting [OF host, of w]
    by (intro roll_back_law [OF host slash withdraws _ _ fresh_rules _ here orig alone])
      (auto simp: listed_rules_def)
  then obtain w' where rolled: "roll_back sys (paths sys ns plan) ?fw (hv_files (view w) (original_name ns) = None) True added e u2
    = (Err (''gateway apply rolled back after a failed system change'' # e), w')"
    and undone: "hv_chains (view w') = hv_chains (view w)" "hv_forwarding (view w') = ?fw"
    and gone: "hv_files (view w') = (hv_files (view u2))(marker_name ns plan := None, original_name ns :=
        if hv_files (view w) (original_name ns) = None then None else hv_files (view u2) (original_name ns))"
    using kept(2) by (auto split: if_splits)
  have "after_recording sys ns plan view w u
      = (Err (''gateway apply rolled back after a failed system change'' # e), w')"
    using rolled fresh by (simp add: after_recording_def run)
  moreover have "hv_files (view w') n = hv_files (view w) n" if "n \<noteq> lock_name ns" for n
    using files fresh that marker_not(1) [of ns plan] by (auto simp: gone kept)
  ultimately show ?thesis using undone by blast
qed

lemma apply_outcome:
  assumes host: "gateway_host sys view ns" and slash: "CHR ''/'' \<notin> set (gp_tunnel_interface plan)"
    and lists: "kernel_lists sys (\<lambda>w. hv_chains (view w))" and deletes: "kernel_deletes sys (\<lambda>w. hv_chains (view w))"
    and may: "kernel_may_add sys (\<lambda>w. hv_chains (view w)) printed (gp_rules plan)"
    and withdraws: "kernel_withdraws sys (\<lambda>w. hv_chains (view w)) printed (gp_rules plan)"
    and listed: "listed_rules (gp_owner_tag plan) printed (gp_rules plan)"
    and none: "owned_total (gp_owner_tag plan) (hv_chains (view w)) = 0"
    and pre: "preflight_interfaces sys plan w = (Ok (), w)"
    and fresh: "hv_files (view w) (marker_name ns plan) = None"
    and recorded: "hv_files (view w) (original_name ns) = None \<Longrightarrow> \<not> any_gateway ns (view w)"
  shows "case gateway_apply sys plan w of
      (Inl e, w1) \<Rightarrow> hd e = ''gateway apply rolled back after a failed system change''
        \<and> hv_chains (view w1) = hv_chains (view w) \<and> hv_forwarding (view w1) = hv_forwarding (view w)
        \<and> (\<forall>n. n \<noteq> lock_name ns \<longrightarrow> hv_files (view w1) n = hv_files (view w) n)
    | (Inr _, w1) \<Rightarrow> hv_forwarding (view w1) = ''1'' \<and> (\<forall>r \<in> set (gp_rules plan). \<not> refuses sys r)
        \<and> (\<forall>loc. hv_chains (view w1) loc = hv_chains (view w) loc @ planned printed (gp_rules plan) loc)"
proof -
  let ?fw = "hv_forwarding (view w)"
  from apply_begins [OF host slash pre] obtain u c v where same: "hv_forwarding (view u) = ?fw" "hv_chains (view u) = hv_chains (view w)"
    and files: "\<forall>n. n \<noteq> lock_name ns \<longrightarrow> hv_files (view u) n = (if n = marker_name ns plan then Some c
      else if n = original_name ns \<and> hv_files (view w) n = None then Some (?fw @ [CHR 0x0A]) else hv_files (view w) n)"
    and rest: "gateway_apply sys plan w = (fst (after_recording sys ns plan view w u), v)"
      "view v = view (snd (after_recording sys ns plan view w u))" by (elim exE conjE)
  obtain res added u2 where run: "install_policy sys plan ?fw u = (res, added, u2)" by (metis prod_cases3)
  have bare: "owned_total (gp_owner_tag plan) (hv_chains (view u)) = 0" using none same(2) by simp
  from install_policy_may [OF lists deletes may host_forwards [OF host] listed bare run] obtain others where
    split: "gp_rules plan = added @ others" "res = Ok () \<longleftrightarrow> others = []"
    and chains: "\<forall>loc. hv_chains (view u2) loc = hv_chains (view u) loc @ planned printed added loc" by blast
  note leave = host_iptables_leave [OF host]
  show ?thesis
  proof (cases res)
    case (Inr x)
    have wr: "\<exists>w'. write_ip_forward sys ''1'' x = (Ok (), w') \<and> view w' = (view x)\<lparr>hv_forwarding := ''1''\<rparr>" for x
      using host_writes [OF host] by blast
    have "hv_forwarding (view u2) = ''1''"
      using install_policy_leaves(2) [OF leave wr, of plan u added u2] run Inr same(1) by simp
    moreover have "after_recording sys ns plan view w u = (Ok (), u2)" by (simp add: after_recording_def run Inr)
    moreover have fine: "res = Ok ()" using Inr by simp
    have "\<not> refuses sys r" if "r \<in> set (gp_rules plan)" for r
      using install_refused [OF lists deletes may listed bare that] run [unfolded fine] by blast
    ultimately show ?thesis using rest split chains same(2) Inr by simp
  next
    case (Inl e)
    from failed_apply_undone [OF host slash withdraws listed none fresh recorded same files run [unfolded Inl] split(1) chains] rest
    show ?thesis by auto
  qed
qed

subsection \<open>A failed update\<close>

text \<open>Rules of an older policy are deleted before the new ones are added.\<close>

abbreviation bare :: "string \<Rightarrow> (iptables_location \<Rightarrow> string list) \<Rightarrow> iptables_location \<Rightarrow> string list" where
  "bare tag c \<equiv> (\<lambda>loc. if loc \<in> set owned_rule_locations then foreign tag (c loc) else c loc)"

lemma reconcile_stale:
  assumes "kernel_lists sys chain" and "kernel_deletes sys chain"
    and may: "kernel_may_add sys chain printed (gp_rules plan)"
    and "owned_total (gp_owner_tag plan) (chain w) \<le> 128"
    and stale: "owned_total (gp_owner_tag plan) (chain w) \<noteq> length (gp_rules plan)
      \<or> (\<exists>r \<in> set (gp_rules plan). printed r \<notin> set (chain w (rule_location r)))"
  obtains w1 where "reconcile_rules sys plan w = (Ok (), w1)" and "chain w1 = bare (gp_owner_tag plan) (chain w)"
proof -
  from delete_owned_rules_law [OF assms(1,2,4)] obtain w1 where
    "delete_owned_rules sys plan w = (Ok (owned_total (gp_owner_tag plan) (chain w)), w1)"
    and w1: "chain w1 = bare (gp_owner_tag plan) (chain w)" by (auto simp: fun_eq_iff)
  then have "reconcile_rules sys plan w = (Ok (), w1)"
    using rules_exist_may [OF may subset_refl] count_owned_rules_law [OF assms(1), of plan w] stale
    by (auto simp: reconcile_rules_def io_then_def list_all_iff)
  then show thesis using w1 by (rule that)
qed

lemma install_stale_refused:
  assumes "kernel_lists sys chain" and "kernel_deletes sys chain"
    and may: "kernel_may_add sys chain printed (gp_rules plan)"
    and listed: "listed_rules (gp_owner_tag plan) printed (gp_rules plan)"
    and stale: "owned_total (gp_owner_tag plan) (chain w) \<le> 128"
      "owned_total (gp_owner_tag plan) (chain w) \<noteq> length (gp_rules plan)
      \<or> (\<exists>r \<in> set (gp_rules plan). printed r \<notin> set (chain w (rule_location r)))"
    and r: "r \<in> set (gp_rules plan)" "refuses sys r"
  obtains e added rest w' where "install_policy sys plan forwarding w = (Err e, added, w')"
    and "gp_rules plan = added @ rest"
    and "\<forall>loc. chain w' loc = bare (gp_owner_tag plan) (chain w) loc @ planned printed added loc"
    and "\<forall>r \<in> set (gp_rules plan). printed r \<notin> set (bare (gp_owner_tag plan) (chain w) (rule_location r))"
proof -
  obtain w1 where w1: "reconcile_rules sys plan w = (Ok (), w1)" "chain w1 = bare (gp_owner_tag plan) (chain w)"
    using reconcile_stale [OF assms(1-3) stale] .
  have new: "\<forall>r \<in> set (gp_rules plan). printed r \<notin> set (bare (gp_owner_tag plan) (chain w) (rule_location r))"
    using listed by (auto simp: listed_rules_def)
  from new have new1: "\<forall>r \<in> set (gp_rules plan). printed r \<notin> set (chain w1 (rule_location r))" by (simp add: w1(2))
  obtain q ds w2 where add: "add_rules sys (gp_rules plan) [] w1 = (q, ds, w2)" by (metis prod_cases3)
  from listed have dist: "distinct (map printed (gp_rules plan))" by (simp add: listed_rules_def)
  from add_rules_may [OF may subset_refl dist new1 add] obtain rest where
    rest: "gp_rules plan = ds @ rest" "\<forall>loc. chain w2 loc = chain w1 loc @ planned printed ds loc" by auto
  obtain e where "q = Err e"
    using add_rules_refused [OF may subset_refl dist new1 r] add by (cases q) auto
  with w1 add have "install_policy sys plan forwarding w = (Err e, ds, w2)" by (simp add: install_policy_def)
  with rest new show thesis by (intro that [of e ds w2 rest]) (simp_all add: w1(2))
qed

text \<open>The roll-back of an apply that found the marker in place.\<close>

lemma roll_back_keeps:
  assumes host: "gateway_host sys view ns"
    and withdraw: "kernel_withdraws sys (\<lambda>w. hv_chains (view w)) printed rules" "set added \<subseteq> set rules"
      "distinct (map printed added)" "\<forall>r \<in> set added. printed r \<notin> set (c (rule_location r))"
      "\<forall>loc. hv_chains (view w) loc = c loc @ planned printed added loc"
    and there: "hv_files (view w) (marker_name ns plan) \<noteq> None" and slash: "CHR ''/'' \<notin> set (gp_tunnel_interface plan)"
  obtains w' where "roll_back sys (paths sys ns plan) fw created False added e w
      = (Err (''gateway apply rolled back after a failed system change'' # e), w')"
    and "hv_chains (view w') = c" and "hv_forwarding (view w') = hv_forwarding (view w)"
    and "hv_files (view w') = hv_files (view w)"
proof -
  let ?w1 = "delete_added sys (rev added) w"
  have c1: "hv_chains (view ?w1) = c" by (rule delete_added_law [OF withdraw])
  have same: "hv_files (view ?w1) = hv_files (view w)" "hv_forwarding (view ?w1) = hv_forwarding (view w)"
    using delete_added_leaves [OF host_iptables_leave [OF host], of "rev added" w] by simp_all
  have "any_gateway ns (view ?w1)"
    using there is_marker_own [of ns plan] same(1) state_names(3) [OF namespace_digits [OF gateway_hostD(6) [OF host]] slash]
    by (auto simp: any_gateway_def state_name_def)
  then have "has_gateway_markers sys (paths sys ns plan) ?w1 = (Ok True, ?w1)" by (simp add: has_markers_law [OF host])
  then show thesis
    using c1 same by (intro that [of ?w1]) (simp_all add: roll_back_def Let_def)
qed

subsection \<open>A host that refuses a rule\<close>

text \<open>The sample host, but \<open>-A\<close> fails for the fourth rule of the plan, and \<open>-D\<close> knows specifications.\<close>

definition without_first :: "('a \<Rightarrow> bool) \<Rightarrow> 'a list \<Rightarrow> 'a list" where
  "without_first p xs = takeWhile (\<lambda>x. \<not> p x) xs @ tl (dropWhile (\<lambda>x. \<not> p x) xs)"

lemma map_without_first: "map f (without_first (\<lambda>x. f x = y) xs) = remove1 y (map f xs)"
  by (induction xs) (auto simp: without_first_def)

definition refused_args :: "string list" where
  "refused_args = command_args (demo_rules ! 3) ''-A''"

definition take_out :: "iptables_rule \<Rightarrow> demo_host_world \<Rightarrow> demo_host_world" where
  "take_out r w = (case w of (files, b, c) \<Rightarrow>
    (files, b, c(rule_location r := without_first (\<lambda>i. demo_line i = listed_line True r) (c (rule_location r)))))"

definition demo_refusing :: "demo_host_world os" where
  "demo_refusing = demo_host\<lparr>os_command := (\<lambda>program args w.
     if args = refused_args then (Ok \<lparr>po_code = Some 4, po_stdout = [], po_stderr = []\<rparr>, w)
     else case find (\<lambda>r. args = command_args r ''-D'') demo_rules of
       Some r \<Rightarrow> (Ok \<lparr>po_code = Some 0, po_stdout = [], po_stderr = []\<rparr>, take_out r w)
     | None \<Rightarrow> os_command demo_host program args w)\<rparr>"

lemma demo_rules_long: "r \<in> set demo_rules \<Longrightarrow> 8 \<le> length (ru_spec r)"
proof -
  have "list_all (\<lambda>r. 8 \<le> length (ru_spec r)) demo_rules" by code_simp
  then show "r \<in> set demo_rules \<Longrightarrow> 8 \<le> length (ru_spec r)" by (simp add: list_all_iff)
qed

lemma fourth_rule: "demo_rules ! 3 \<in> set demo_rules"
  by (rule nth_mem) (simp add: demo_rules_def plan_rules_def)

lemma command_args_action:
  assumes "command_args r a = command_args r' a'" and "a \<noteq> ''-t''" and "a' \<noteq> ''-t''"
  shows "a = a' \<and> ru_table r = ru_table r' \<and> ru_chain r = ru_chain r' \<and> ru_spec r = ru_spec r'"
  using assms by (auto simp: command_args_def table_args_def split: option.splits)

lemma refusing_short:
  assumes "length args \<le> 8"
  shows "args \<noteq> refused_args" and "find (\<lambda>r. args = command_args r ''-D'') demo_rules = None"
proof -
  have long: "9 < length (command_args r a)" if "r \<in> set demo_rules" for r a
    using demo_rules_long [OF that] by (simp add: command_args_def table_args_def split: option.splits)
  have other: "args \<noteq> command_args r a" if "r \<in> set demo_rules" for r a
    using long [OF that, of a] assms by auto
  from other [OF fourth_rule] show "args \<noteq> refused_args" unfolding refused_args_def .
  from other show "find (\<lambda>r. args = command_args r ''-D'') demo_rules = None" by (auto simp: find_None_iff)
qed

lemma refusing_run:
  "run_iptables demo_refusing args w =
    (if args = refused_args then (Ok \<lparr>po_code = Some 4, po_stdout = [], po_stderr = []\<rparr>, w)
     else case find (\<lambda>r. args = command_args r ''-D'') demo_rules of
       Some r \<Rightarrow> (Ok \<lparr>po_code = Some 0, po_stdout = [], po_stderr = []\<rparr>, take_out r w)
     | None \<Rightarrow> run_iptables demo_host args w)"
proof -
  have "iptables_program demo_refusing w = iptables_program demo_host w"
    by (simp add: iptables_program_def demo_refusing_def)
  moreover have "os_command demo_refusing p args w =
    (if args = refused_args then (Ok \<lparr>po_code = Some 4, po_stdout = [], po_stderr = []\<rparr>, w)
     else case find (\<lambda>r. args = command_args r ''-D'') demo_rules of
       Some r \<Rightarrow> (Ok \<lparr>po_code = Some 0, po_stdout = [], po_stderr = []\<rparr>, take_out r w)
     | None \<Rightarrow> os_command demo_host p args w)" for p by (simp add: demo_refusing_def)
  ultimately show ?thesis by (simp add: run_iptables_def io_context_def io_call_def split: option.splits)
qed

lemma refusing_run_short: "length args \<le> 8 \<Longrightarrow> run_iptables demo_refusing args w = run_iptables demo_host args w"
  by (simp add: refusing_run refusing_short)

lemma refusing_fields:
  "os_exists demo_refusing = os_exists demo_host" "os_read demo_refusing = os_read demo_host"
  "os_read_dir demo_refusing = os_read_dir demo_host"
  "os_create_dir_all demo_refusing = os_create_dir_all demo_host"
  "os_set_permissions demo_refusing = os_set_permissions demo_host"
  "os_create_new demo_refusing = os_create_new demo_host" "os_write_all demo_refusing = os_write_all demo_host"
  "os_write demo_refusing = os_write demo_host" "os_remove_file demo_refusing = os_remove_file demo_host"
  "os_open demo_refusing = os_open demo_host" "os_env demo_refusing = os_env demo_host"
  "os_read_link demo_refusing = os_read_link demo_host" "os_is_linux demo_refusing = os_is_linux demo_host"
  "os_lock_exclusive demo_refusing = os_lock_exclusive demo_host" "os_unlock demo_refusing = os_unlock demo_host"
  "os_euid demo_refusing = os_euid demo_host"
  by (simp_all add: demo_refusing_def)

lemma refusing_command_short:
  "length args \<le> 8 \<Longrightarrow> os_command demo_refusing p args w = os_command demo_host p args w"
  by (simp add: demo_refusing_def refusing_short)

lemma refusing_commands: "host_commands demo_refusing demo_view"
proof -
  have w: "write_ip_forward demo_refusing v w = write_ip_forward demo_host v w" for v and w :: demo_host_world
    by (simp add: write_ip_forward_def io_then_def io_context_def io_call_def refusing_command_short)
  have "iptables_program demo_refusing w = iptables_program demo_host w" for w :: demo_host_world
    by (simp add: iptables_program_def refusing_fields)
  then have v: "ensure_iptables_available demo_refusing w = ensure_iptables_available demo_host w" for w :: demo_host_world
    by (simp add: ensure_iptables_available_def io_then_def io_context_def io_call_def refusing_command_short)
  have r: "read_ip_forward demo_refusing = read_ip_forward demo_host"
    unfolding read_ip_forward_def refusing_fields ..
  have "hv_files (demo_view (snd (run_iptables demo_refusing args w))) = hv_files (demo_view w)
      \<and> hv_forwarding (demo_view (snd (run_iptables demo_refusing args w))) = hv_forwarding (demo_view w)" for args w
    using demo_host_leaves [of args w]
    by (cases w) (simp add: refusing_run take_out_def demo_view_def split: option.splits)
  with demo_commands show ?thesis unfolding host_commands_def w v r refusing_fields by simp
qed

lemma refusing_is_host: "gateway_host demo_refusing demo_view ''4026''"
  using demo_is_host refusing_commands
  unfolding gateway_host_def host_files_def host_directory_def network_namespace_id_def state_directory_def refusing_fields
  by (elim conjE) (intro conjI)

lemma refusing_preflight: "preflight_interfaces demo_refusing demo_plan w = (Ok (), w)"
  using demo_preflight unfolding preflight_interfaces_def read_interface_mtu_def refusing_fields .

lemma refusing_refuses: "refuses demo_refusing (demo_rules ! 3)"
  unfolding refuses_def refusing_run refused_args_def by (simp add: po_success_def)

lemma refusing_lists: "kernel_lists demo_refusing (\<lambda>w. hv_chains (demo_view w))"
proof -
  have "length (table_args (loc_table loc) @ [''-S'', loc_chain loc]) \<le> 8" for loc
    by (simp add: table_args_def split: option.splits)
  note same = refusing_run_short [OF this]
  from demo_host_kernel show ?thesis unfolding gateway_kernel_def kernel_lists_def same by (elim conjE)
qed

lemma refusing_deletes: "kernel_deletes demo_refusing (\<lambda>w. hv_chains (demo_view w))"
proof -
  have "length (table_args (loc_table loc) @ [''-D'', loc_chain loc, n]) \<le> 8" for loc n
    by (simp add: table_args_def split: option.splits)
  note same = refusing_run_short [OF this]
  from demo_host_kernel show ?thesis unfolding gateway_kernel_def kernel_deletes_def same by (elim conjE)
qed

lemma refusing_may_add: "kernel_may_add demo_refusing (\<lambda>w. hv_chains (demo_view w)) (listed_line True) demo_rules"
  unfolding kernel_may_add_def
proof (intro allI ballI conjI)
  fix w :: demo_host_world and r
  assume r: "r \<in> set demo_rules"
  have plain: "find (\<lambda>r'. command_args r a = command_args r' ''-D'') demo_rules = None" if "a = ''-C'' \<or> a = ''-A''" for a
    using that by (auto simp: find_None_iff dest!: command_args_action)
  have check: "command_args r ''-C'' \<noteq> refused_args" by (auto simp: refused_args_def dest!: command_args_action)
  have "kernel_adds demo_host (\<lambda>w. hv_chains (demo_view w)) (listed_line True) demo_rules"
    using demo_host_kernel by (simp add: gateway_kernel_def demo_plan_def)
  note law = this [unfolded kernel_adds_def, THEN spec [of _ w], THEN bspec [OF _ r]]
  from law obtain out where "run_iptables demo_host (command_args r ''-C'') w = (Ok out, w)"
    "po_code out = Some (if listed_line True r \<in> set (hv_chains (demo_view w) (rule_location r)) then 0 else 1)"
    by (elim conjE exE)
  then show "\<exists>out. run_iptables demo_refusing (command_args r ''-C'') w = (Ok out, w)
      \<and> po_code out = Some (if listed_line True r \<in> set (hv_chains (demo_view w) (rule_location r)) then 0 else 1)"
    by (intro exI [of _ out]) (simp add: refusing_run check plain)
  show "\<exists>res w'. run_iptables demo_refusing (command_args r ''-A'') w = (res, w')
      \<and> hv_chains (demo_view w') = (if \<exists>out. res = Ok out \<and> po_success out
        then (hv_chains (demo_view w))(rule_location r := hv_chains (demo_view w) (rule_location r) @ [listed_line True r])
        else hv_chains (demo_view w))"
  proof (cases "command_args r ''-A'' = refused_args")
    case True
    then show ?thesis by (simp add: refusing_run po_success_def)
  next
    case False
    from law obtain out w' where "run_iptables demo_host (command_args r ''-A'') w = (Ok out, w')" "po_success out"
      "hv_chains (demo_view w') = (hv_chains (demo_view w))(rule_location r :=
            hv_chains (demo_view w) (rule_location r) @ [listed_line True r])" by (elim conjE exE)
    with False show ?thesis
      by (intro exI [of _ "Ok out"] exI [of _ w']) (simp add: refusing_run plain)
  qed
qed

lemma refusing_withdraws: "kernel_withdraws demo_refusing (\<lambda>w. hv_chains (demo_view w)) (listed_line True) demo_rules"
  unfolding kernel_withdraws_def
proof (intro allI ballI impI)
  fix w :: demo_host_world and r
  assume r: "r \<in> set demo_rules"
  obtain files b c where w: "w = (files, b, c)" by (cases w)
  obtain r' where r': "find (\<lambda>r'. command_args r ''-D'' = command_args r' ''-D'') demo_rules = Some r'"
    using r by (cases "find (\<lambda>r'. command_args r ''-D'' = command_args r' ''-D'') demo_rules") (auto simp: find_None_iff)
  then have "command_args r ''-D'' = command_args r' ''-D''" by (auto simp: find_Some_iff)
  from command_args_action [OF this] have same: "rule_location r' = rule_location r" "listed_line True r' = listed_line True r"
    by (simp_all add: rule_location_def listed_line_def)
  have plain: "command_args r ''-D'' \<noteq> refused_args" by (auto simp: refused_args_def dest!: command_args_action)
  have "hv_chains (demo_view (take_out r' w)) = (hv_chains (demo_view w))(rule_location r :=
      remove1 (listed_line True r) (hv_chains (demo_view w) (rule_location r)))"
    by (auto simp: take_out_def demo_view_def demo_chain_def w same map_without_first)
  then show "\<exists>out w'. run_iptables demo_refusing (command_args r ''-D'') w = (Ok out, w') \<and> po_success out
      \<and> hv_chains (demo_view w') = (hv_chains (demo_view w))(rule_location r :=
          remove1 (listed_line True r) (hv_chains (demo_view w) (rule_location r)))"
    by (simp add: refusing_run plain r' po_success_def)
qed

subsection \<open>Property\<close>

text \<open>C31: applying the gateway of a validated configuration for the first time (no rule of this
tunnel is in the chains and the gateway is not recorded) is all or nothing: on a host where
\<^verbatim>\<open>iptables\<close> may refuse any of the rules at any moment, \<open>apply\<close> either appends all five rules behind
what was in their chains and switches forwarding on, or it reports that it rolled back, and then
every chain, the forwarding switch and every file of the state directory (but for the lock) is as
it was before; where \<^verbatim>\<open>iptables\<close> never accepts one of the rules, it is the latter.\<close>

theorem apply_all_or_nothing:
  assumes "validate L cfg = Ok ()" and "plan_from_config cfg = Ok plan"
    and host: "gateway_host sys view ns"
    and lists: "kernel_lists sys (\<lambda>w. hv_chains (view w))" and deletes: "kernel_deletes sys (\<lambda>w. hv_chains (view w))"
    and may: "kernel_may_add sys (\<lambda>w. hv_chains (view w)) printed (gp_rules plan)"
    and withdraws: "kernel_withdraws sys (\<lambda>w. hv_chains (view w)) printed (gp_rules plan)"
    and "inj_on printed (set (gp_rules plan))"
    and "\<forall>r \<in> set (gp_rules plan). \<forall>tag.
      iptables_line_has_owner (printed r) tag \<longleftrightarrow> iptables_line_has_owner (listed_line quoted r) tag"
    and none: "owned_total (gp_owner_tag plan) (hv_chains (view w)) = 0"
    and pre: "preflight_interfaces sys plan w = (Ok (), w)"
    and fresh: "hv_files (view w) (marker_name ns plan) = None"
    and recorded: "hv_files (view w) (original_name ns) = None \<Longrightarrow> \<not> any_gateway ns (view w)"
  shows "case gateway_apply sys plan w of
      (Inl e, w1) \<Rightarrow> hd e = ''gateway apply rolled back after a failed system change''
        \<and> hv_chains (view w1) = hv_chains (view w) \<and> hv_forwarding (view w1) = hv_forwarding (view w)
        \<and> (\<forall>n. n \<noteq> lock_name ns \<longrightarrow> hv_files (view w1) n = hv_files (view w) n)
    | (Inr _, w1) \<Rightarrow> hv_forwarding (view w1) = ''1'' \<and> (\<forall>r \<in> set (gp_rules plan). \<not> refuses sys r)
        \<and> (\<forall>loc. hv_chains (view w1) loc = hv_chains (view w) loc @ planned printed (gp_rules plan) loc)"
  by (rule apply_outcome [OF host interface_without_slash [OF assms(1,2)] lists deletes may withdraws
      plan_listed [OF assms(1,2,8,9)] none pre fresh recorded])

theorem apply_all_or_nothing_witness:
  "\<exists>e w1. gateway_apply demo_refusing demo_plan
        ([], False, \<lambda>loc. if loc = \<lparr>loc_table = None, loc_chain = ''FORWARD''\<rparr> then [5, 7] else []) = (Err e, w1)
    \<and> hd e = ''gateway apply rolled back after a failed system change''
    \<and> hv_chains (demo_view w1) \<lparr>loc_table = None, loc_chain = ''FORWARD''\<rparr> = [demo_line 5, demo_line 7]
    \<and> hv_forwarding (demo_view w1) = ''0'' \<and> hv_files (demo_view w1) (marker_name ''4026'' demo_plan) = None"
proof -
  let ?w = "([], False, \<lambda>loc. if loc = \<lparr>loc_table = None, loc_chain = ''FORWARD''\<rparr> then [5, 7] else []) :: demo_host_world"
  have total: "owned_total (gp_owner_tag demo_plan) (hv_chains (demo_view ?w)) = 0"
    using demo_owned by (simp add: owned_total_def owned_rule_locations_def demo_plan_def demo_chain_def demo_view_def)
  have none: "hv_files (demo_view ?w) n = None" "hv_forwarding (demo_view ?w) = ''0''" for n
    by (simp_all add: demo_view_def switch_def)
  have alone: "\<not> any_gateway ''4026'' (demo_view ?w)" using none by (simp add: any_gateway_def)
  have same: "\<forall>r \<in> set (gp_rules demo_plan). \<forall>tag. iptables_line_has_owner (listed_line True r) tag
      \<longleftrightarrow> iptables_line_has_owner (listed_line True r) tag" by blast
  have rules: "gp_rules demo_plan = demo_rules" by (simp add: demo_plan_def)
  have refused: "\<exists>r \<in> set (gp_rules demo_plan). refuses demo_refusing r"
    using refusing_refuses fourth_rule unfolding rules by blast
  have lock: "marker_name ''4026'' demo_plan \<noteq> lock_name ''4026''"
    using is_marker_own not_marker_lock by metis
  obtain r w1 where run: "gateway_apply demo_refusing demo_plan ?w = (r, w1)" by (metis prod.exhaust)
  note law = apply_all_or_nothing [where view = demo_view and w = ?w and ns = "''4026''" and printed = "listed_line True",
      OF demo_validates demo_plan_made refusing_is_host refusing_lists refusing_deletes
      refusing_may_add [folded rules] refusing_withdraws [folded rules] demo_printed same total refusing_preflight
      none(1) alone, unfolded run prod.case]
  show ?thesis
  proof (cases r)
    case (Inr u)
    with law refused show ?thesis by auto
  next
    case (Inl e)
    have "hv_chains (demo_view ?w) \<lparr>loc_table = None, loc_chain = ''FORWARD''\<rparr> = [demo_line 5, demo_line 7]"
      by (simp add: demo_view_def demo_chain_def)
    with law lock none run Inl show ?thesis by simp
  qed
qed

text \<open>C32: a failed update of the policy loses the old one. Where the gateway is recorded already and
rules of an earlier policy of this tunnel, or only some of the rules, are in the chains, an \<open>apply\<close>
that \<^verbatim>\<open>iptables\<close> refuses one of the new rules reports that it rolled back; yet all rules of this
tunnel are gone from the managed chains while the gateway stays recorded and forwarding as it was.\<close>

theorem failed_update_loses_policy:
  assumes "validate L cfg = Ok ()" and "plan_from_config cfg = Ok plan"
    and host: "gateway_host sys view ns"
    and lists: "kernel_lists sys (\<lambda>w. hv_chains (view w))" and deletes: "kernel_deletes sys (\<lambda>w. hv_chains (view w))"
    and may: "kernel_may_add sys (\<lambda>w. hv_chains (view w)) printed (gp_rules plan)"
    and withdraws: "kernel_withdraws sys (\<lambda>w. hv_chains (view w)) printed (gp_rules plan)"
    and "inj_on printed (set (gp_rules plan))"
    and "\<forall>r \<in> set (gp_rules plan). \<forall>tag.
      iptables_line_has_owner (printed r) tag \<longleftrightarrow> iptables_line_has_owner (listed_line quoted r) tag"
    and few: "owned_total (gp_owner_tag plan) (hv_chains (view w)) \<le> 128"
    and stale: "owned_total (gp_owner_tag plan) (hv_chains (view w)) \<noteq> length (gp_rules plan)
      \<or> (\<exists>r \<in> set (gp_rules plan). printed r \<notin> set (hv_chains (view w) (rule_location r)))"
    and pre: "preflight_interfaces sys plan w = (Ok (), w)"
    and recorded: "hv_files (view w) (marker_name ns plan) \<noteq> None"
    and refused: "r \<in> set (gp_rules plan)" "refuses sys r"
  shows "\<exists>e w1. gateway_apply sys plan w = (Err (''gateway apply rolled back after a failed system change'' # e), w1)
    \<and> (\<forall>loc. hv_chains (view w1) loc = (if loc \<in> set owned_rule_locations
          then foreign (gp_owner_tag plan) (hv_chains (view w) loc) else hv_chains (view w) loc))
    \<and> hv_forwarding (view w1) = hv_forwarding (view w) \<and> hv_files (view w1) (marker_name ns plan) \<noteq> None"
proof -
  note slash = interface_without_slash [OF assms(1,2)] and listed = plan_listed [OF assms(1,2,8,9)]
  from apply_begins [OF host slash pre] obtain u c v where same: "hv_forwarding (view u) = hv_forwarding (view w)"
      "hv_chains (view u) = hv_chains (view w)"
    and files: "\<forall>n. n \<noteq> lock_name ns \<longrightarrow> hv_files (view u) n = (if n = marker_name ns plan then Some c
      else if n = original_name ns \<and> hv_files (view w) n = None then Some (hv_forwarding (view w) @ [CHR 0x0A])
      else hv_files (view w) n)"
    and rest: "gateway_apply sys plan w = (fst (after_recording sys ns plan view w u), v)"
      "view v = view (snd (after_recording sys ns plan view w u))" by (elim exE conjE)
  obtain e added others u2 where run: "install_policy sys plan (hv_forwarding (view w)) u = (Err e, added, u2)"
    and split: "gp_rules plan = added @ others"
    and chains: "\<forall>loc. hv_chains (view u2) loc = bare (gp_owner_tag plan) (hv_chains (view w)) loc @ planned printed added loc"
    and new: "\<forall>r \<in> set (gp_rules plan). printed r \<notin> set (bare (gp_owner_tag plan) (hv_chains (view w)) (rule_location r))"
    using install_stale_refused [OF lists deletes may listed, of u r "hv_forwarding (view w)"] few stale refused
    unfolding same(2) by metis
  have ok: "\<exists>w'. write_ip_forward sys ''1'' x = (Ok (), w')" for x using host_writes [OF host, of "''1''" x] by blast
  have kept: "hv_files (view u2) = hv_files (view u)" "hv_forwarding (view u2) = hv_forwarding (view w)"
    using install_failed_leaves [OF host_iptables_leave [OF host] ok run] same(1) by simp_all
  have there: "hv_files (view u2) (marker_name ns plan) \<noteq> None"
    using files marker_not(2) [of ns plan] by (simp add: kept)
  have added: "set added \<subseteq> set (gp_rules plan)" "distinct (map printed added)"
    "\<forall>r \<in> set added. printed r \<notin> set (bare (gp_owner_tag plan) (hv_chains (view w)) (rule_location r))"
    using listed new by (auto simp: listed_rules_def split)
  obtain w' where "roll_back sys (paths sys ns plan) (hv_forwarding (view w)) (hv_files (view w) (original_name ns) = None)
      False added e u2 = (Err (''gateway apply rolled back after a failed system change'' # e), w')"
    and undone: "hv_chains (view w') = bare (gp_owner_tag plan) (hv_chains (view w))"
      "hv_forwarding (view w') = hv_forwarding (view u2)" "hv_files (view w') = hv_files (view u2)"
    by (rule roll_back_keeps [OF host withdraws added chains there slash])
  then have "after_recording sys ns plan view w u
      = (Err (''gateway apply rolled back after a failed system change'' # e), w')"
    using recorded by (cases "hv_files (view w) (marker_name ns plan)") (simp_all add: after_recording_def run)
  with rest undone kept there show ?thesis by (intro exI [of _ e] exI [of _ v]) simp
qed

theorem failed_update_loses_policy_witness:
  "\<exists>e w1. gateway_apply demo_refusing demo_plan ([(marker_name ''4026'' demo_plan, [])], False,
        \<lambda>loc. if loc = \<lparr>loc_table = None, loc_chain = ''FORWARD''\<rparr> then [5, 3, 7] else []) = (Err e, w1)
    \<and> hd e = ''gateway apply rolled back after a failed system change''
    \<and> hv_chains (demo_view w1) \<lparr>loc_table = None, loc_chain = ''FORWARD''\<rparr> = [demo_line 5, demo_line 7]
    \<and> hv_files (demo_view w1) (marker_name ''4026'' demo_plan) \<noteq> None"
proof -
  let ?w = "([(marker_name ''4026'' demo_plan, [])], False,
    \<lambda>loc. if loc = \<lparr>loc_table = None, loc_chain = ''FORWARD''\<rparr> then [5, 3, 7] else []) :: demo_host_world"
  have rules: "gp_rules demo_plan = demo_rules" by (simp add: demo_plan_def)
  have fourth: "demo_rules ! 3 \<in> set (gp_rules demo_plan)" unfolding rules by (rule fourth_rule)
  have five: "length (gp_rules demo_plan) = 5" by (simp add: demo_plan_def demo_rules_def plan_rules_def)
  have total: "owned_total (gp_owner_tag demo_plan) (hv_chains (demo_view ?w)) = 1"
    using demo_owned by (simp add: owned_total_def owned_rule_locations_def demo_plan_def demo_chain_def demo_view_def)
  have few: "owned_total (gp_owner_tag demo_plan) (hv_chains (demo_view ?w)) \<le> 128"
    and stale: "owned_total (gp_owner_tag demo_plan) (hv_chains (demo_view ?w)) \<noteq> length (gp_rules demo_plan)
      \<or> (\<exists>r \<in> set (gp_rules demo_plan). listed_line True r \<notin> set (hv_chains (demo_view ?w) (rule_location r)))"
    unfolding total five by simp_all
  have there: "hv_files (demo_view ?w) (marker_name ''4026'' demo_plan) \<noteq> None" by (simp add: demo_view_def)
  have same: "\<forall>r \<in> set (gp_rules demo_plan). \<forall>tag. iptables_line_has_owner (listed_line True r) tag
      \<longleftrightarrow> iptables_line_has_owner (listed_line True r) tag" by blast
  have chain: "foreign (gp_owner_tag demo_plan) (hv_chains (demo_view ?w) \<lparr>loc_table = None, loc_chain = ''FORWARD''\<rparr>)
      = [demo_line 5, demo_line 7]"
    using demo_owned by (simp add: demo_view_def demo_chain_def demo_plan_def)
  from failed_update_loses_policy [where view = demo_view and w = ?w and ns = "''4026''" and printed = "listed_line True",
      OF demo_validates demo_plan_made refusing_is_host refusing_lists refusing_deletes
      refusing_may_add [folded rules] refusing_withdraws [folded rules] demo_printed same few stale refusing_preflight
      there fourth refusing_refuses]
  obtain e w1 where "gateway_apply demo_refusing demo_plan ?w
      = (Err (''gateway apply rolled back after a failed system change'' # e), w1)"
    and "\<forall>loc. hv_chains (demo_view w1) loc = (if loc \<in> set owned_rule_locations
          then foreign (gp_owner_tag demo_plan) (hv_chains (demo_view ?w) loc) else hv_chains (demo_view ?w) loc)"
    and "hv_files (demo_view w1) (marker_name ''4026'' demo_plan) \<noteq> None" by blast
  then show ?thesis using chain by (intro exI [of _ "_ # e"] exI [of _ w1]) (simp add: owned_rule_locations_def)
qed

end
