(* ===== verification/Ffi.thy ===== *)
theory Ffi
  imports Scheduler
begin

text \<open>
  \<^verbatim>\<open>src/src/ffi.rs\<close>: the C interface of the packet engine. A pointer is an option, \<open>None\<close> when
  null; a buffer is its bytes. The platform's callbacks are functions over the world. Every
  function returns its status, what it writes through the error pointer, the runtime and the
  world. The theory has the calls one after another; how the lifecycle behaves when threads
  interleave is the subject of the theory \<open>Lifecycle\<close>. Panics, poisoned locks and callbacks that
  call back into the runtime are not modelled.
\<close>

definition HW_CORE_ABI_VERSION :: u32 where "HW_CORE_ABI_VERSION = 3"
definition ERROR_MESSAGE_CAPACITY :: nat where "ERROR_MESSAGE_CAPACITY = 512"

definition hw_core_abi_version :: u32 where "hw_core_abi_version = HW_CORE_ABI_VERSION"

datatype hw_status =
    StatusOk | StatusInvalidArgument | StatusInvalidState | StatusConfigError | StatusEngineError
  | StatusInternalError | StatusPanic

fun status_code :: "hw_status \<Rightarrow> int" where
  "status_code StatusOk = 0"
| "status_code StatusInvalidArgument = 1"
| "status_code StatusInvalidState = 2"
| "status_code StatusConfigError = 3"
| "status_code StatusEngineError = 4"
| "status_code StatusInternalError = 5"
| "status_code StatusPanic = 6"

record hw_error =
  he_code :: int
  he_message :: bytes

definition hw_error_default :: hw_error where
  "hw_error_default = \<lparr>he_code = status_code StatusOk, he_message = replicate ERROR_MESSAGE_CAPACITY 0\<rparr>"

record hw_endpoint =
  ep_family :: u8
  ep_address :: bytes
  ep_port :: u16
  ep_scope_id :: u32

definition hw_endpoint_default :: hw_endpoint where
  "hw_endpoint_default = \<lparr>ep_family = 0, ep_address = replicate 16 0, ep_port = 0, ep_scope_id = 0\<rparr>"

record hw_interface_config =
  ic_address :: bytes
  ic_prefix_length :: u8
  ic_transport :: u8
  ic_mtu :: u16
  ic_listen :: hw_endpoint

record hw_route_config =
  rc_network :: bytes
  rc_prefix_length :: u8
  rc_route_kind :: u8
  rc_reserved :: bytes
  rc_endpoint :: hw_endpoint
  rc_persistent_keepalive :: u16
  rc_udp_rebind_after :: u16
  rc_session_timeout :: u64

record hw_peer_stats =
  ps_tx_bytes :: u64
  ps_rx_bytes :: u64
  ps_last_seen_milliseconds_ago :: u64
  ps_endpoint :: hw_endpoint
  ps_has_last_seen :: u8
  ps_has_endpoint :: u8
  ps_reserved :: bytes

text \<open>Callbacks get the peer's name as bytes; \<open>None\<close> is a null function pointer.\<close>

type_synonym 'w hw_send_transport_callback = "(bytes \<Rightarrow> hw_endpoint \<Rightarrow> bytes \<Rightarrow> 'w \<Rightarrow> u8 \<times> 'w) option"
type_synonym 'w hw_write_ip_packet_callback = "(bytes \<Rightarrow> hw_endpoint \<Rightarrow> bytes \<Rightarrow> 'w \<Rightarrow> 'w) option"
type_synonym 'w hw_handshake_callback = "(bytes \<Rightarrow> hw_endpoint \<Rightarrow> u8 \<Rightarrow> 'w \<Rightarrow> 'w) option"
type_synonym 'w hw_route_callback = "(bytes \<Rightarrow> bytes \<Rightarrow> hw_route_config \<Rightarrow> 'w \<Rightarrow> 'w) option"
type_synonym 'w hw_peer_stats_callback = "(bytes \<Rightarrow> hw_peer_stats \<Rightarrow> 'w \<Rightarrow> 'w) option"
type_synonym 'w hw_rebind_transport_callback = "(bytes \<Rightarrow> u64 \<Rightarrow> 'w \<Rightarrow> u8 \<times> 'w) option"

record 'w hw_callbacks =
  cb_send_transport :: "'w hw_send_transport_callback"
  cb_write_ip_packet :: "'w hw_write_ip_packet_callback"
  cb_handshake_completed :: "'w hw_handshake_callback"

record 'w runtime_callbacks =
  rcb_send_transport :: "bytes \<Rightarrow> hw_endpoint \<Rightarrow> bytes \<Rightarrow> 'w \<Rightarrow> u8 \<times> 'w"
  rcb_write_ip_packet :: "bytes \<Rightarrow> hw_endpoint \<Rightarrow> bytes \<Rightarrow> 'w \<Rightarrow> 'w"
  rcb_handshake_completed :: "'w hw_handshake_callback"

record 'e lifecycle =
  lc_engine :: "'e option"
  lc_active_calls :: nat
  lc_stopping :: bool

record ('net, 'hs, 'ts, 'w) hw_runtime =
  hr_config :: "'net config"
  hr_router :: "'net router"
  hr_callbacks :: "'w runtime_callbacks"
  hr_lifecycle :: "('net, 'hs, 'ts) engine lifecycle"
  hr_scheduler :: "scheduler option"

record ffi_failure =
  ff_status :: hw_status
  ff_message :: string

definition failure_new :: "hw_status \<Rightarrow> string \<Rightarrow> ffi_failure" where
  "failure_new status message = \<lparr>ff_status = status, ff_message = message\<rparr>"

text \<open>Not code of the repository: the TOML parser, and the texts that the error derive macro
generates.\<close>

record 'net ffi_libs =
  parse_toml :: "string \<Rightarrow> (string, 'net config) result"
  config_error_text :: "'net config_error \<Rightarrow> string"
  router_error_text :: "'net router_error \<Rightarrow> string"
  engine_error_text :: "'net engine_error \<Rightarrow> string"

subsection \<open>Strings and buffers\<close>

definition string_of_bytes :: "bytes \<Rightarrow> string" where
  "string_of_bytes bs = map (\<lambda>b. char_of (unat b)) bs"

definition bytes_of_string :: "string \<Rightarrow> bytes" where
  "bytes_of_string s = map of_char s"

definition continuation :: "u8 \<Rightarrow> bool" where
  "continuation b \<longleftrightarrow> 128 \<le> b \<and> b \<le> 191"

text \<open>\<open>str::from_utf8\<close>: the well-formed byte sequences of the Unicode standard.\<close>

fun valid_utf8 :: "bytes \<Rightarrow> bool" where
  "valid_utf8 [] = True"
| "valid_utf8 (a # as) =
    (if a < 128 then valid_utf8 as
     else
       case as of
         [] \<Rightarrow> False
       | b # bs \<Rightarrow>
           if 194 \<le> a \<and> a \<le> 223 then continuation b \<and> valid_utf8 bs
           else
             case bs of
               [] \<Rightarrow> False
             | c # cs \<Rightarrow>
                 if 224 \<le> a \<and> a \<le> 239 then
                   continuation b \<and> (a = 224 \<longrightarrow> 160 \<le> b) \<and> (a = 237 \<longrightarrow> b \<le> 159)
                   \<and> continuation c \<and> valid_utf8 cs
                 else
                   case cs of
                     [] \<Rightarrow> False
                   | d # ds \<Rightarrow>
                       240 \<le> a \<and> a \<le> 244
                       \<and> continuation b \<and> (a = 240 \<longrightarrow> 144 \<le> b) \<and> (a = 244 \<longrightarrow> b \<le> 143)
                       \<and> continuation c \<and> continuation d \<and> valid_utf8 ds)"

definition borrowed_bytes :: "bytes option \<Rightarrow> nat \<Rightarrow> string \<Rightarrow> (ffi_failure, bytes) result" where
  "borrowed_bytes pointer len name =
    (if len = 0 then Ok []
     else
       case pointer of
         None \<Rightarrow> Err (failure_new StatusInvalidArgument (name @ '' must not be null when length is nonzero''))
       | Some bs \<Rightarrow> Ok (take len bs))"

definition borrowed_string :: "bytes option \<Rightarrow> nat \<Rightarrow> string \<Rightarrow> (ffi_failure, string) result" where
  "borrowed_string pointer len name =
    check_then (borrowed_bytes pointer len name) (\<lambda>bs.
      if valid_utf8 bs then Ok (string_of_bytes bs)
      else Err (failure_new StatusInvalidArgument (name @ '' is not valid UTF-8'')))"

subsection \<open>Errors\<close>

text \<open>At most one byte less than the capacity is copied, so a zero byte always follows.\<close>

definition write_error :: "ffi_failure \<Rightarrow> hw_error" where
  "write_error failure =
    (let bs = bytes_of_string (ff_message failure);
         len = min (length bs) (ERROR_MESSAGE_CAPACITY - 1) in
     \<lparr>he_code = status_code (ff_status failure),
      he_message = take len bs @ drop len (he_message hw_error_default)\<rparr>)"

text \<open>The status, and what is left behind the error pointer unless that is null.\<close>

definition guarded_status :: "bool \<Rightarrow> (ffi_failure, unit) result \<Rightarrow> hw_status \<times> hw_error option" where
  "guarded_status has_error r =
    (case r of
       Inr _ \<Rightarrow> (StatusOk, if has_error then Some hw_error_default else None)
     | Inl failure \<Rightarrow> (ff_status failure, if has_error then Some (write_error failure) else None))"

definition runtime_ref :: "'r option \<Rightarrow> (ffi_failure, 'r) result" where
  "runtime_ref runtime = ok_or (failure_new StatusInvalidArgument ''runtime must not be null'') runtime"

definition not_null :: "string \<Rightarrow> 'a option \<Rightarrow> (ffi_failure, 'a) result" where
  "not_null what p = ok_or (failure_new StatusInvalidArgument (what @ '' must not be null'')) p"

subsection \<open>Endpoints\<close>

definition ipv4_bytes :: "ipv4 \<Rightarrow> bytes" where
  "ipv4_bytes a = to_be_bytes_u32 a"

definition ipv6_bytes :: "ipv6 \<Rightarrow> bytes" where
  "ipv6_bytes a = map (\<lambda>i. ucast (drop_bit (8 * (15 - i)) a)) [0..<16]"

definition ipv6_of_bytes :: "bytes \<Rightarrow> ipv6" where
  "ipv6_of_bytes bs = word_of_int (digits_value 256 (map uint (take 16 bs)))"

fun endpoint_to_ffi :: "socket_addr \<Rightarrow> hw_endpoint" where
  "endpoint_to_ffi (V4 a p) =
    \<lparr>ep_family = 4, ep_address = ipv4_bytes a @ replicate 12 0, ep_port = p, ep_scope_id = 0\<rparr>"
| "endpoint_to_ffi (V6 a p flow scope) =
    \<lparr>ep_family = 6, ep_address = ipv6_bytes a, ep_port = p, ep_scope_id = scope\<rparr>"

definition endpoint_from_ffi :: "hw_endpoint \<Rightarrow> (ffi_failure, socket_addr) result" where
  "endpoint_from_ffi e =
    (if ep_family e = 4 then
       Ok (V4 (ipv4_new (ep_address e ! 0) (ep_address e ! 1) (ep_address e ! 2) (ep_address e ! 3)) (ep_port e))
     else if ep_family e = 6 then Ok (V6 (ipv6_of_bytes (ep_address e)) (ep_port e) 0 (ep_scope_id e))
     else Err (failure_new StatusInvalidArgument
            (''unsupported endpoint address family: '' @ show_nat (unat (ep_family e)))))"

subsection \<open>Calls and callbacks\<close>

definition lc_begin :: "'e lifecycle \<Rightarrow> (ffi_failure, 'e) result \<times> 'e lifecycle" where
  "lc_begin lc =
    (case opt_filter (\<lambda>_. \<not> lc_stopping lc) (lc_engine lc) of
       None \<Rightarrow> (Err (failure_new StatusInvalidState ''runtime is not running''), lc)
     | Some en \<Rightarrow> (Ok en, lc\<lparr>lc_active_calls := lc_active_calls lc + 1\<rparr>))"

text \<open>Dropping the call; the subtraction saturates.\<close>

definition lc_end :: "'e lifecycle \<Rightarrow> 'e lifecycle" where
  "lc_end lc = lc\<lparr>lc_active_calls := lc_active_calls lc - 1\<rparr>"

definition begin_call ::
    "('net, 'hs, 'ts, 'w) hw_runtime
      \<Rightarrow> (ffi_failure, ('net, 'hs, 'ts) engine) result \<times> ('net, 'hs, 'ts, 'w) hw_runtime" where
  "begin_call rt = (case lc_begin (hr_lifecycle rt) of (r, lc) \<Rightarrow> (r, rt\<lparr>hr_lifecycle := lc\<rparr>))"

definition end_call :: "('net, 'hs, 'ts, 'w) hw_runtime \<Rightarrow> ('net, 'hs, 'ts, 'w) hw_runtime" where
  "end_call rt = rt\<lparr>hr_lifecycle := lc_end (hr_lifecycle rt)\<rparr>"

text \<open>A call works on a clone of the engine that shares its state with the runtime's.\<close>

definition share_engine ::
    "('net, 'hs, 'ts) engine \<Rightarrow> ('net, 'hs, 'ts, 'w) hw_runtime \<Rightarrow> ('net, 'hs, 'ts, 'w) hw_runtime" where
  "share_engine en rt = rt\<lparr>hr_lifecycle := (hr_lifecycle rt)\<lparr>lc_engine := Some en\<rparr>\<rparr>"

fun role_code :: "handshake_role \<Rightarrow> u8" where
  "role_code Initiator = 1"
| "role_code Responder = 2"

fun dispatch_events :: "'w runtime_callbacks \<Rightarrow> engine_event list \<Rightarrow> 'w \<Rightarrow> 'w" where
  "dispatch_events cb [] w = w"
| "dispatch_events cb (HandshakeCompleted name endpoint role # es) w =
    (case rcb_handshake_completed cb of
       None \<Rightarrow> dispatch_events cb es w
     | Some f \<Rightarrow> dispatch_events cb es (f (bytes_of_string name) (endpoint_to_ffi endpoint) (role_code role) w))"

text \<open>A frame counts as sent only if the callback accepts it.\<close>

fun dispatch_actions ::
    "'w runtime_callbacks \<Rightarrow> engine_action list \<Rightarrow> ('net, 'hs, 'ts) engine \<Rightarrow> 'w
      \<Rightarrow> ('net, 'hs, 'ts) engine \<times> 'w" where
  "dispatch_actions cb [] en w = (en, w)"
| "dispatch_actions cb (SendTransport name endpoint frame # as) en w =
    (case rcb_send_transport cb (bytes_of_string name) (endpoint_to_ffi endpoint) frame w of
       (accepted, w1) \<Rightarrow>
         dispatch_actions cb as (if accepted \<noteq> 0 then record_transport_sent en name (length frame) else en) w1)"
| "dispatch_actions cb (WriteIpPacket name source packet # as) en w =
    dispatch_actions cb as en
      (rcb_write_ip_packet cb (bytes_of_string name) (endpoint_to_ffi source) packet w)"

definition dispatch ::
    "'w runtime_callbacks \<Rightarrow> ('net, 'hs, 'ts) engine \<Rightarrow> engine_output \<Rightarrow> 'w \<Rightarrow> ('net, 'hs, 'ts) engine \<times> 'w" where
  "dispatch cb en out w = dispatch_actions cb (out_actions out) en (dispatch_events cb (out_events out) w)"

fun dispatch_all ::
    "'w runtime_callbacks \<Rightarrow> ('net, 'hs, 'ts) engine \<Rightarrow> scheduled_output list \<Rightarrow> 'w
      \<Rightarrow> ('net, 'hs, 'ts) engine \<times> 'w" where
  "dispatch_all cb en [] w = (en, w)"
| "dispatch_all cb en (s # ss) w =
    (case dispatch cb en (so_output s) w of (en1, w1) \<Rightarrow> dispatch_all cb en1 ss w1)"

subsection \<open>The functions of the interface\<close>

type_synonym ('net, 'hs, 'ts, 'w) ffi_state = "('net, 'hs, 'ts, 'w) hw_runtime option \<times> 'w"

type_synonym ('net, 'hs, 'ts, 'w) ffi_result =
  "(ffi_failure, unit) result \<times> ('net, 'hs, 'ts, 'w) hw_runtime option \<times> 'w"

text \<open>A check before the state changes.\<close>

definition checked ::
    "(ffi_failure, 'a) result \<Rightarrow> ('net, 'hs, 'ts, 'w) ffi_state
      \<Rightarrow> ('a \<Rightarrow> ('net, 'hs, 'ts, 'w) ffi_result) \<Rightarrow> ('net, 'hs, 'ts, 'w) ffi_result" where
  "checked r s k = (case r of Inl f \<Rightarrow> (Err f, s) | Inr x \<Rightarrow> k x)"

text \<open>\<open>begin_call\<close>, one operation of the engine, the callbacks for its output, end of the call.\<close>

definition engine_call ::
    "'net ffi_libs \<Rightarrow> ('hs, 'ts, 'w) runtime \<Rightarrow> ('net, 'hs, 'ts, 'w) hw_runtime \<Rightarrow> 'w
      \<Rightarrow> (('net, 'hs, 'ts) engine \<Rightarrow> instant \<Rightarrow> 'w
           \<Rightarrow> ('net engine_error, engine_output) result \<times> ('net, 'hs, 'ts) engine \<times> 'w)
      \<Rightarrow> ('net, 'hs, 'ts, 'w) ffi_result" where
  "engine_call F E rt w operation =
    (case begin_call rt of
       (Inl f, rt1) \<Rightarrow> (Err f, Some rt1, w)
     | (Inr en, rt1) \<Rightarrow>
         case instant_now E w of (now, w1) \<Rightarrow>
         case operation en now w1 of
           (Inl cause, en1, w2) \<Rightarrow>
             (Err (failure_new StatusEngineError (engine_error_text F cause)),
              Some (end_call (share_engine en1 rt1)), w2)
         | (Inr out, en1, w2) \<Rightarrow>
             case dispatch (hr_callbacks rt) en1 out w2 of (en2, w3) \<Rightarrow>
               (Ok (), Some (end_call (share_engine en2 rt1)), w3))"

definition hw_runtime_create ::
    "'net libs \<Rightarrow> 'net ffi_libs \<Rightarrow> bytes option \<Rightarrow> nat \<Rightarrow> 'w hw_callbacks option
      \<Rightarrow> (ffi_failure, ('net, 'hs, 'ts, 'w) hw_runtime) result" where
  "hw_runtime_create L F config_toml config_length callbacks =
    check_then (borrowed_bytes config_toml config_length ''config_toml'') (\<lambda>bs.
    check_then (if valid_utf8 bs then Ok (string_of_bytes bs)
                else Err (failure_new StatusConfigError ''configuration is not valid UTF-8'')) (\<lambda>text.
    check_then (map_err (failure_new StatusConfigError) (parse_toml F text)) (\<lambda>cfg.
    check_then (map_err (\<lambda>e. failure_new StatusConfigError (config_error_text F e)) (validate L cfg)) (\<lambda>_.
    check_then (map_err (\<lambda>e. failure_new StatusConfigError (router_error_text F e)) (router_new L cfg)) (\<lambda>R.
    check_then (map_err (\<lambda>e. failure_new StatusConfigError (engine_error_text F e))
        (engine_with_router L cfg R :: ('net engine_error, ('net, 'hs, 'ts) engine) result)) (\<lambda>_.
    check_then (not_null ''callbacks'' callbacks) (\<lambda>cb.
    check_then (not_null ''send_transport callback'' (cb_send_transport cb)) (\<lambda>send.
    check_then (not_null ''write_ip_packet callback'' (cb_write_ip_packet cb)) (\<lambda>write.
      Ok \<lparr>hr_config = cfg, hr_router = R,
          hr_callbacks = \<lparr>rcb_send_transport = send, rcb_write_ip_packet = write,
                          rcb_handshake_completed = cb_handshake_completed cb\<rparr>,
          hr_lifecycle = \<lparr>lc_engine = None, lc_active_calls = 0, lc_stopping = False\<rparr>,
          hr_scheduler = None\<rparr>)))))))))"

definition hw_runtime_destroy :: "('net, 'hs, 'ts, 'w) hw_runtime option \<Rightarrow> ('net, 'hs, 'ts, 'w) hw_runtime option" where
  "hw_runtime_destroy runtime = None"

definition hw_runtime_start ::
    "'net libs \<Rightarrow> 'net ffi_libs \<Rightarrow> ('net, 'hs, 'ts, 'w) ffi_state \<Rightarrow> ('net, 'hs, 'ts, 'w) ffi_result" where
  "hw_runtime_start L F s =
    checked (runtime_ref (fst s)) s (\<lambda>rt.
      let lc = hr_lifecycle rt in
      if lc_stopping lc then (Err (failure_new StatusInvalidState ''runtime is currently stopping''), s)
      else if lc_engine lc \<noteq> None then (Ok (), s)
      else
        case engine_with_router L (hr_config rt) (hr_router rt) of
          Inl cause \<Rightarrow> (Err (failure_new StatusEngineError (engine_error_text F cause)), s)
        | Inr en \<Rightarrow>
            (Ok (), Some (rt\<lparr>hr_lifecycle := lc\<lparr>lc_engine := Some en\<rparr>,
                             hr_scheduler := Some (scheduler_new (hr_config rt))\<rparr>), snd s))"

text \<open>\<open>None\<close> while calls are in flight: the thread then waits until the last of them ends.\<close>

definition hw_runtime_stop ::
    "('net, 'hs, 'ts, 'w) ffi_state \<Rightarrow> ('net, 'hs, 'ts, 'w) ffi_result option" where
  "hw_runtime_stop s =
    (case runtime_ref (fst s) of
       Inl f \<Rightarrow> Some (Err f, s)
     | Inr rt \<Rightarrow>
         let lc = hr_lifecycle rt in
         if lc_engine lc = None then Some (Ok (), s)
         else if lc_active_calls lc \<noteq> 0 then None
         else Some (Ok (), Some (rt\<lparr>hr_lifecycle := lc\<lparr>lc_engine := None, lc_stopping := False\<rparr>,
                                    hr_scheduler := None\<rparr>), snd s))"

definition hw_runtime_is_running :: "('net, 'hs, 'ts, 'w) hw_runtime option \<Rightarrow> u8" where
  "hw_runtime_is_running runtime =
    (case runtime of
       None \<Rightarrow> 0
     | Some rt \<Rightarrow> if lc_engine (hr_lifecycle rt) \<noteq> None \<and> \<not> lc_stopping (hr_lifecycle rt) then 1 else 0)"

definition hw_runtime_submit_outbound_ip ::
    "'net libs \<Rightarrow> 'net ffi_libs \<Rightarrow> ('hs, 'ts, 'w) runtime \<Rightarrow> bytes option \<Rightarrow> nat
      \<Rightarrow> ('net, 'hs, 'ts, 'w) ffi_state \<Rightarrow> ('net, 'hs, 'ts, 'w) ffi_result" where
  "hw_runtime_submit_outbound_ip L F E packet len s =
    checked (runtime_ref (fst s)) s (\<lambda>rt.
    checked (borrowed_bytes packet len ''packet'') s (\<lambda>bs.
      engine_call F E rt (snd s) (\<lambda>en now. process_outbound_ip L E en bs now)))"

definition hw_runtime_submit_inbound_transport ::
    "'net ffi_libs \<Rightarrow> ('hs, 'ts, 'w) runtime \<Rightarrow> bytes option \<Rightarrow> nat \<Rightarrow> hw_endpoint option
      \<Rightarrow> ('net, 'hs, 'ts, 'w) ffi_state \<Rightarrow> ('net, 'hs, 'ts, 'w) ffi_result" where
  "hw_runtime_submit_inbound_transport F E frame len source s =
    checked (runtime_ref (fst s)) s (\<lambda>rt.
    checked (borrowed_bytes frame len ''frame'') s (\<lambda>bs.
    checked (not_null ''source'' source) s (\<lambda>e.
    checked (endpoint_from_ffi e) s (\<lambda>from.
      engine_call F E rt (snd s) (\<lambda>en now. process_inbound_transport E en bs from now)))))"

definition hw_runtime_initiate_handshake ::
    "'net ffi_libs \<Rightarrow> ('hs, 'ts, 'w) runtime \<Rightarrow> bytes option \<Rightarrow> nat
      \<Rightarrow> ('net, 'hs, 'ts, 'w) ffi_state \<Rightarrow> ('net, 'hs, 'ts, 'w) ffi_result" where
  "hw_runtime_initiate_handshake F E name len s =
    checked (runtime_ref (fst s)) s (\<lambda>rt.
    checked (borrowed_string name len ''peer_name'') s (\<lambda>peer.
      engine_call F E rt (snd s) (\<lambda>en now. initiate_handshake E en peer now)))"

definition hw_runtime_create_keepalive ::
    "'net ffi_libs \<Rightarrow> ('hs, 'ts, 'w) runtime \<Rightarrow> bytes option \<Rightarrow> nat \<Rightarrow> bytes option \<Rightarrow> nat
      \<Rightarrow> ('net, 'hs, 'ts, 'w) ffi_state \<Rightarrow> ('net, 'hs, 'ts, 'w) ffi_result" where
  "hw_runtime_create_keepalive F E name len payload payload_len s =
    checked (runtime_ref (fst s)) s (\<lambda>rt.
    checked (borrowed_string name len ''peer_name'') s (\<lambda>peer.
    checked (borrowed_bytes payload payload_len ''payload'') s (\<lambda>bs.
      engine_call F E rt (snd s) (\<lambda>en now. create_keepalive E en peer bs now))))"

fun operation_label :: "scheduled_operation \<Rightarrow> string" where
  "operation_label HandshakeRetry = ''handshake retry''"
| "operation_label SessionRecovery = ''session recovery''"
| "operation_label ScheduledKeepalive = ''keepalive''"

text \<open>\<open>Duration::as_millis\<close>, cut off at 64 bits.\<close>

definition milliseconds :: "duration \<Rightarrow> u64" where
  "milliseconds d = of_nat (min (d div 1000000) (2 ^ 64 - 1))"

definition rebind_closure ::
    "'w hw_rebind_transport_callback \<Rightarrow> string \<Rightarrow> duration \<Rightarrow> 'w \<Rightarrow> bool \<times> 'w" where
  "rebind_closure callback name silence w =
    (case callback of
       None \<Rightarrow> (False, w)
     | Some f \<Rightarrow> case f (bytes_of_string name) (milliseconds silence) w of (r, w1) \<Rightarrow> (r \<noteq> 0, w1))"

definition hw_runtime_tick ::
    "'net ffi_libs \<Rightarrow> ('hs, 'ts, 'w) runtime \<Rightarrow> 'w hw_rebind_transport_callback
      \<Rightarrow> ('net, 'hs, 'ts, 'w) ffi_state \<Rightarrow> ('net, 'hs, 'ts, 'w) ffi_result" where
  "hw_runtime_tick F E rebind_transport s =
    checked (runtime_ref (fst s)) s (\<lambda>rt.
      case begin_call rt of
        (Inl f, rt1) \<Rightarrow> (Err f, Some rt1, snd s)
      | (Inr en, rt1) \<Rightarrow>
          case hr_scheduler rt1 of
            None \<Rightarrow> (Err (failure_new StatusInvalidState ''runtime scheduler is not running''),
                     Some (end_call rt1), snd s)
          | Some sch \<Rightarrow>
              case instant_now E (snd s) of (now, w1) \<Rightarrow>
              case scheduler_tick E (rebind_closure rebind_transport) sch en now w1 of
                (tick, sch1, en1, w2) \<Rightarrow>
              case dispatch_all (hr_callbacks rt) en1 (tk_outputs tick) w2 of (en2, w3) \<Rightarrow>
                (case tk_errors tick of
                   [] \<Rightarrow> Ok ()
                 | failure # _ \<Rightarrow> Err (failure_new StatusEngineError
                     (operation_label (se_operation failure) @ '' for peer '' @ se_peer_name failure
                      @ '' failed: '' @ engine_error_text F (se_error failure))),
                 Some (end_call (share_engine en2 (rt1\<lparr>hr_scheduler := Some sch1\<rparr>))), w3))"

text \<open>The flag that is written through an optional output pointer is the second component.\<close>

definition hw_runtime_invalidate_peer ::
    "bytes option \<Rightarrow> nat \<Rightarrow> ('net, 'hs, 'ts, 'w) ffi_state \<Rightarrow> ('net, 'hs, 'ts, 'w) ffi_result \<times> u8 option" where
  "hw_runtime_invalidate_peer name len s =
    (case check_then (runtime_ref (fst s)) (\<lambda>rt.
          check_then (borrowed_string name len ''peer_name'') (\<lambda>peer. Ok (rt, peer))) of
       Inl f \<Rightarrow> ((Err f, s), None)
     | Inr (rt, peer) \<Rightarrow>
         (case begin_call rt of
            (Inl f, rt1) \<Rightarrow> ((Err f, Some rt1, snd s), None)
          | (Inr en, rt1) \<Rightarrow>
              case engine_invalidate_peer en peer of (removed, en1) \<Rightarrow>
                ((Ok (), Some (end_call (share_engine en1 rt1)), snd s), Some (if removed then 1 else 0))))"

definition hw_runtime_resolve_peer_endpoint ::
    "'net libs \<Rightarrow> bytes option \<Rightarrow> nat \<Rightarrow> bool \<Rightarrow> ('net, 'hs, 'ts, 'w) ffi_state
      \<Rightarrow> ('net, 'hs, 'ts, 'w) ffi_result \<times> hw_endpoint option" where
  "hw_runtime_resolve_peer_endpoint L name len has_output s =
    (case check_then (runtime_ref (fst s)) (\<lambda>rt.
          check_then (borrowed_string name len ''peer_name'') (\<lambda>peer.
          check_then (fst (begin_call rt)) (\<lambda>_.
          check_then (ok_or (failure_new StatusInvalidArgument (''unknown peer: '' @ peer))
              (find (\<lambda>p. pc_name p = peer) (cfg_peer (hr_config rt)))) (\<lambda>p.
          check_then (map_err (\<lambda>cause. failure_new StatusEngineError
                (''could not resolve endpoint '' @ show_endpoint (pc_endpoint p) @ '': '' @ cause))
              (endpoint_resolve L (pc_endpoint p))) (\<lambda>endpoint.
          if has_output then Ok (endpoint_to_ffi endpoint)
          else Err (failure_new StatusInvalidArgument ''endpoint output must not be null'')))))) of
       Inl f \<Rightarrow> ((Err f, s), None)
     | Inr e \<Rightarrow> ((Ok (), s), Some e))"

definition hw_runtime_update_peer_endpoint ::
    "'net ffi_libs \<Rightarrow> bytes option \<Rightarrow> nat \<Rightarrow> hw_endpoint option \<Rightarrow> ('net, 'hs, 'ts, 'w) ffi_state
      \<Rightarrow> ('net, 'hs, 'ts, 'w) ffi_result \<times> u8 option" where
  "hw_runtime_update_peer_endpoint F name len endpoint s =
    (case check_then (runtime_ref (fst s)) (\<lambda>rt.
          check_then (borrowed_string name len ''peer_name'') (\<lambda>peer.
          check_then (not_null ''endpoint'' endpoint) (\<lambda>e.
          check_then (endpoint_from_ffi e) (\<lambda>a. Ok (rt, peer, a))))) of
       Inl f \<Rightarrow> ((Err f, s), None)
     | Inr (rt, peer, a) \<Rightarrow>
         (case begin_call rt of
            (Inl f, rt1) \<Rightarrow> ((Err f, Some rt1, snd s), None)
          | (Inr en, rt1) \<Rightarrow>
              (case update_resolved_endpoint en peer a of
                 (Inl cause, en1) \<Rightarrow>
                   ((Err (failure_new StatusEngineError (engine_error_text F cause)),
                     Some (end_call (share_engine en1 rt1)), snd s), None)
               | (Inr changed, en1) \<Rightarrow>
                   ((Ok (), Some (end_call (share_engine en1 rt1)), snd s),
                    Some (if changed then 1 else 0)))))"

definition hw_runtime_record_transport_sent ::
    "bytes option \<Rightarrow> nat \<Rightarrow> nat \<Rightarrow> ('net, 'hs, 'ts, 'w) ffi_state \<Rightarrow> ('net, 'hs, 'ts, 'w) ffi_result" where
  "hw_runtime_record_transport_sent name len byte_count s =
    checked (runtime_ref (fst s)) s (\<lambda>rt.
    checked (borrowed_string name len ''peer_name'') s (\<lambda>peer.
      case begin_call rt of
        (Inl f, rt1) \<Rightarrow> (Err f, Some rt1, snd s)
      | (Inr en, rt1) \<Rightarrow>
          (Ok (), Some (end_call (share_engine (record_transport_sent en peer byte_count) rt1)), snd s)))"

definition hw_runtime_get_interface_config ::
    "'net libs \<Rightarrow> ('net, 'hs, 'ts, 'w) hw_runtime option \<Rightarrow> bool \<Rightarrow> (ffi_failure, hw_interface_config) result" where
  "hw_runtime_get_interface_config L runtime has_output =
    check_then (runtime_ref runtime) (\<lambda>rt.
    check_then (if has_output then Ok ()
                else Err (failure_new StatusInvalidArgument ''output must not be null'')) (\<lambda>_.
      let i = cfg_interface (hr_config rt) in
      Ok \<lparr>ic_address = ipv4_bytes (net_addr L (if_address i)),
          ic_prefix_length = net_prefix_len L (if_address i),
          ic_transport = (case if_transport i of Udp \<Rightarrow> 1 | Tcp \<Rightarrow> 2),
          ic_mtu = if_mtu i, ic_listen = endpoint_to_ffi (if_listen i)\<rparr>))"

definition route_to_ffi :: "'net libs \<Rightarrow> u8 \<Rightarrow> 'net route \<Rightarrow> hw_route_config" where
  "route_to_ffi L kind r =
    \<lparr>rc_network = ipv4_bytes (net_network L (route_prefix r)),
     rc_prefix_length = net_prefix_len L (route_prefix r), rc_route_kind = kind,
     rc_reserved = [0, 0],
     rc_endpoint = endpoint_to_ffi (peer_endpoint_addr (route_peer r)),
     rc_persistent_keepalive = persistent_keepalive (route_peer r),
     rc_udp_rebind_after = udp_rebind_after (route_peer r),
     rc_session_timeout = session_timeout (route_peer r)\<rparr>"

fun visit_each ::
    "'net libs \<Rightarrow> u8 \<Rightarrow> (bytes \<Rightarrow> bytes \<Rightarrow> hw_route_config \<Rightarrow> 'w \<Rightarrow> 'w) \<Rightarrow> 'net route list \<Rightarrow> 'w \<Rightarrow> 'w" where
  "visit_each L kind f [] w = w"
| "visit_each L kind f (r # rs) w =
    visit_each L kind f rs
      (f (bytes_of_string (peer_name (route_peer r)))
         (bytes_of_string (show_endpoint (configured_endpoint (route_peer r))))
         (route_to_ffi L kind r) w)"

definition hw_runtime_visit_routes ::
    "'net libs \<Rightarrow> 'w hw_route_callback
      \<Rightarrow> ('net, 'hs, 'ts, 'w) ffi_state \<Rightarrow> ('net, 'hs, 'ts, 'w) ffi_result" where
  "hw_runtime_visit_routes L callback s =
    checked (runtime_ref (fst s)) s (\<lambda>rt.
    checked (not_null ''route callback'' callback) s (\<lambda>f.
      (Ok (), Some rt,
       visit_each L 2 f (excluded_routes (hr_router rt)) (visit_each L 1 f (routes (hr_router rt)) (snd s)))))"

fun visit_stats ::
    "('hs, 'ts, 'w) runtime \<Rightarrow> (bytes \<Rightarrow> hw_peer_stats \<Rightarrow> 'w \<Rightarrow> 'w) \<Rightarrow> (string \<times> peer_stats) list \<Rightarrow> 'w \<Rightarrow> 'w" where
  "visit_stats E f [] w = w"
| "visit_stats E f ((name, stats) # rest) w =
    (let endpoint = map_option endpoint_to_ffi (current_endpoint stats) in
     case (case last_seen stats of
             None \<Rightarrow> (None, w)
           | Some seen \<Rightarrow> case instant_now E w of (t, w1) \<Rightarrow> (Some (duration_since t seen), w1)) of
       (ago, w1) \<Rightarrow>
         visit_stats E f rest
           (f (bytes_of_string name)
              \<lparr>ps_tx_bytes = tx_bytes stats, ps_rx_bytes = rx_bytes stats,
               ps_last_seen_milliseconds_ago = (case ago of None \<Rightarrow> 0 | Some d \<Rightarrow> milliseconds d),
               ps_endpoint = (case endpoint of None \<Rightarrow> hw_endpoint_default | Some e \<Rightarrow> e),
               ps_has_last_seen = (if ago \<noteq> None then 1 else 0),
               ps_has_endpoint = (if endpoint \<noteq> None then 1 else 0),
               ps_reserved = replicate 6 0\<rparr> w1))"

definition hw_runtime_visit_peer_stats ::
    "('hs, 'ts, 'w) runtime \<Rightarrow> 'w hw_peer_stats_callback
      \<Rightarrow> ('net, 'hs, 'ts, 'w) ffi_state \<Rightarrow> ('net, 'hs, 'ts, 'w) ffi_result" where
  "hw_runtime_visit_peer_stats E callback s =
    checked (runtime_ref (fst s)) s (\<lambda>rt.
    checked (not_null ''stats callback'' callback) s (\<lambda>f.
      case begin_call rt of
        (Inl failure, rt1) \<Rightarrow> (Err failure, Some rt1, snd s)
      | (Inr en, rt1) \<Rightarrow>
          (Ok (), Some (end_call rt1), visit_stats E f (sort_key fst (en_peers en)) (snd s))))"

end
