(* ===== verification/Ffi_Props.thy ===== *)
theory Ffi_Props
  imports Ffi
begin

text \<open>
  Properties of the C interface: endpoints and error texts across it, calls that are refused, the
  accounting of dispatched frames, and the runtime as a state machine over the packet engine.
\<close>

subsection \<open>Endpoints and errors\<close>

lemma ipv4_from_bytes: "ipv4_new (ipv4_bytes a ! 0) (ipv4_bytes a ! 1) (ipv4_bytes a ! 2) (ipv4_bytes a ! 3) = a"
proof (rule bit_word_eqI)
  fix n assume n: "n < LENGTH(32)"
  consider "n < 8" | "8 \<le> n" "n < 16" | "16 \<le> n" "n < 24" | "24 \<le> n" "n < 32"
    using n by fastforce
  then show "bit (ipv4_new (ipv4_bytes a ! 0) (ipv4_bytes a ! 1) (ipv4_bytes a ! 2) (ipv4_bytes a ! 3)) n = bit a n"
    by cases (auto simp: ipv4_new_def ipv4_bytes_def to_be_bytes_u32_def from_be_bytes_u32_def bit_simps)
qed

lemma length_ipv4_bytes [simp]: "length (ipv4_bytes a) = 4"
  by (simp add: ipv4_bytes_def to_be_bytes_u32_def)

text \<open>The base 256 digits of a number, most significant first.\<close>

lemma digits_value_snoc: "digits_value r (ds @ [d]) = digits_value r ds * r + d"
  by (simp add: digits_value_def)

lemma digits_value_bytes:
  "digits_value 256 (map (\<lambda>i. (n div 256 ^ (k - 1 - i)) mod 256) [0..<k]) = n mod 256 ^ k" for n :: int
proof (induction k arbitrary: n)
  case (Suc k)
  have "n div 256 ^ (Suc k - 1 - i) mod 256 = (n div 256) div 256 ^ (k - 1 - i) mod 256" if "i < k" for i
  proof -
    from that have "Suc k - 1 - i = Suc (k - 1 - i)" by simp
    then show ?thesis by (simp only: power_Suc) (simp add: zdiv_zmult2_eq)
  qed
  then have "map (\<lambda>i. (n div 256 ^ (Suc k - 1 - i)) mod 256) [0..<Suc k]
      = map (\<lambda>i. ((n div 256) div 256 ^ (k - 1 - i)) mod 256) [0..<k] @ [n mod 256]"
    by simp
  then have "digits_value 256 (map (\<lambda>i. (n div 256 ^ (Suc k - 1 - i)) mod 256) [0..<Suc k])
      = ((n div 256) mod 256 ^ k) * 256 + n mod 256"
    by (simp only: digits_value_snoc Suc.IH)
  also have "\<dots> = n mod (256 * 256 ^ k)"
    using zmod_zmult2_eq [of "256 ^ k" n 256] by (simp add: mult.commute add.commute)
  finally show ?case by (simp only: power_Suc)
qed (simp add: digits_value_def)

lemma uint_byte: "uint (ucast (drop_bit (8 * j) (a :: ipv6)) :: u8) = (uint a div 256 ^ j) mod 256"
  unfolding unsigned_ucast_eq unsigned_drop_bit_eq
  using uint_bounded [of a] by (simp add: drop_bit_eq_div take_bit_eq_mod power_mult mod_pos_pos_trivial)

lemma ipv6_from_bytes: "ipv6_of_bytes (ipv6_bytes a) = a"
proof -
  have "map uint (take 16 (ipv6_bytes a)) = map (\<lambda>i. (uint a div 256 ^ (16 - 1 - i)) mod 256) [0..<16]"
    by (simp add: ipv6_bytes_def uint_byte del: upt_rec_numeral)
  then have "digits_value 256 (map uint (take 16 (ipv6_bytes a))) = uint a mod 256 ^ 16"
    by (simp only: digits_value_bytes)
  also have "\<dots> = uint a"
    using unsigned_less [of a] by (intro mod_pos_pos_trivial) simp_all
  finally show ?thesis by (simp add: ipv6_of_bytes_def)
qed

fun without_flow :: "socket_addr \<Rightarrow> socket_addr" where
  "without_flow (V4 a p) = V4 a p"
| "without_flow (V6 a p flow scope) = V6 a p 0 scope"

text \<open>An endpoint that crosses the interface to the platform and comes back is the same
address, port and scope for both families; only the flow label of IPv6 is not carried. The sixteen
address bytes are always filled.\<close>

lemma endpoint_abi_round_trip:
  "endpoint_from_ffi (endpoint_to_ffi a) = Ok (without_flow a) \<and> length (ep_address (endpoint_to_ffi a)) = 16"
proof (cases a)
  case (V4 ip port)
  with ipv4_from_bytes [of ip] show ?thesis
    by (simp add: endpoint_from_ffi_def nth_append)
next
  case (V6 ip port flow scope)
  with ipv6_from_bytes [of ip] show ?thesis
    by (simp add: endpoint_from_ffi_def ipv6_bytes_def)
qed

text \<open>An error text that crosses the interface fits its buffer whatever its length: the
buffer keeps its 512 bytes, holds the text or its first 511 bytes, and ends in a zero byte.\<close>

lemma error_text_terminated:
  "length (he_message (write_error f)) = ERROR_MESSAGE_CAPACITY
    \<and> last (he_message (write_error f)) = 0
    \<and> take (length (ff_message f)) (take (ERROR_MESSAGE_CAPACITY - 1) (he_message (write_error f)))
      = take (ERROR_MESSAGE_CAPACITY - 1) (bytes_of_string (ff_message f))
    \<and> he_code (write_error f) = status_code (ff_status f)"
proof -
  let ?bs = "bytes_of_string (ff_message f)" and ?m = "he_message (write_error f)"
  define n where "n = min (length ?bs) 511"
  have len: "length ?bs = length (ff_message f)" by (simp add: bytes_of_string_def)
  have m: "?m = take n ?bs @ replicate (512 - n) 0" and n: "n \<le> 511" "n \<le> length ?bs"
    by (auto simp: write_error_def hw_error_default_def ERROR_MESSAGE_CAPACITY_def Let_def n_def min_def)
  have "take (length (ff_message f)) (take 511 ?m) = take 511 ?bs"
    unfolding m by (cases "length ?bs \<le> 511") (auto simp: n_def len min_def)
  moreover have "he_code (write_error f) = status_code (ff_status f)"
    by (simp add: write_error_def Let_def)
  ultimately show ?thesis using m n by (simp add: ERROR_MESSAGE_CAPACITY_def)
qed

subsection \<open>The runtime as a state machine\<close>

text \<open>Every function that takes the runtime and may change it or call back, as one step.\<close>

datatype 'w ffi_call =
    CallStart
  | CallStop
  | CallOutbound "bytes option" nat
  | CallInbound "bytes option" nat "hw_endpoint option"
  | CallInitiate "bytes option" nat
  | CallKeepalive "bytes option" nat "bytes option" nat
  | CallTick "(bytes \<Rightarrow> u64 \<Rightarrow> 'w \<Rightarrow> u8 \<times> 'w) option"
  | CallInvalidate "bytes option" nat
  | CallResolve "bytes option" nat bool
  | CallUpdate "bytes option" nat "hw_endpoint option"
  | CallSent "bytes option" nat nat
  | CallRoutes "(bytes \<Rightarrow> bytes \<Rightarrow> hw_route_config \<Rightarrow> 'w \<Rightarrow> 'w) option"
  | CallStats "(bytes \<Rightarrow> hw_peer_stats \<Rightarrow> 'w \<Rightarrow> 'w) option"

fun ffi_exec ::
    "'net libs \<Rightarrow> 'net ffi_libs \<Rightarrow> ('hs, 'ts, 'w) runtime \<Rightarrow> 'w ffi_call
      \<Rightarrow> ('net, 'hs, 'ts, 'w) ffi_state \<Rightarrow> ('net, 'hs, 'ts, 'w) ffi_result option" where
  "ffi_exec L F E CallStart s = Some (hw_runtime_start L F s)"
| "ffi_exec L F E CallStop s = hw_runtime_stop s"
| "ffi_exec L F E (CallOutbound p n) s = Some (hw_runtime_submit_outbound_ip L F E p n s)"
| "ffi_exec L F E (CallInbound p n e) s = Some (hw_runtime_submit_inbound_transport F E p n e s)"
| "ffi_exec L F E (CallInitiate p n) s = Some (hw_runtime_initiate_handshake F E p n s)"
| "ffi_exec L F E (CallKeepalive p n q m) s = Some (hw_runtime_create_keepalive F E p n q m s)"
| "ffi_exec L F E (CallTick f) s = Some (hw_runtime_tick F E f s)"
| "ffi_exec L F E (CallInvalidate p n) s = Some (fst (hw_runtime_invalidate_peer p n s))"
| "ffi_exec L F E (CallResolve p n b) s = Some (fst (hw_runtime_resolve_peer_endpoint L p n b s))"
| "ffi_exec L F E (CallUpdate p n e) s = Some (fst (hw_runtime_update_peer_endpoint F p n e s))"
| "ffi_exec L F E (CallSent p n k) s = Some (hw_runtime_record_transport_sent p n k s)"
| "ffi_exec L F E (CallRoutes f) s = Some (hw_runtime_visit_routes L f s)"
| "ffi_exec L F E (CallStats f) s = Some (hw_runtime_visit_peer_stats E f s)"

lemma end_begin:
  "begin_call rt = (Ok en, rt1) \<Longrightarrow> end_call rt1 = rt \<and> lc_engine (hr_lifecycle rt) = Some en
    \<and> \<not> lc_stopping (hr_lifecycle rt)"
  by (auto simp: begin_call_def end_call_def lc_begin_def lc_end_def Let_def opt_filter_Some split: option.splits)

lemma begin_Err: "begin_call rt = (Err f, rt1) \<Longrightarrow> rt1 = rt \<and> ff_status f = StatusInvalidState"
  by (auto simp: begin_call_def lc_begin_def Let_def failure_new_def split: option.splits)

lemma share_end:
  "begin_call rt = (Ok en, rt1) \<Longrightarrow> end_call (share_engine en1 rt1) = share_engine en1 rt"
  by (auto simp: begin_call_def end_call_def lc_begin_def lc_end_def share_engine_def Let_def split: option.splits)

lemma engine_call_cases:
  assumes "engine_call F E rt w operation = (r, s')"
  obtains (refused) f where "r = Err f" "ff_status f = StatusInvalidState" "s' = (Some rt, w)"
  | (failed) en now w1 cause en1 w2 where "lc_engine (hr_lifecycle rt) = Some en"
      "operation en now w1 = (Err cause, en1, w2)" "s' = (Some (share_engine en1 rt), w2)"
      "r = Err (failure_new StatusEngineError (engine_error_text F cause))"
  | (finished) en now w1 out en1 w2 en2 w3 where "lc_engine (hr_lifecycle rt) = Some en"
      "operation en now w1 = (Ok out, en1, w2)" "dispatch (hr_callbacks rt) en1 out w2 = (en2, w3)"
      "s' = (Some (share_engine en2 rt), w3)" "r = Ok ()"
proof (cases "begin_call rt")
  case (Pair b rt1)
  show thesis
  proof (cases b)
    case (Inl f)
    with Pair assms begin_Err [of rt f rt1] show thesis by (intro refused) (auto simp: engine_call_def)
  next
    case (Inr en)
    obtain now w1 where now: "instant_now E w = (now, w1)" by (cases "instant_now E w")
    obtain q en1 w2 where op: "operation en now w1 = (q, en1, w2)" by (rule prod_cases3)
    note begun = end_begin [OF Pair [unfolded Inr]] share_end [OF Pair [unfolded Inr]]
    show thesis
    proof (cases q)
      case (Inl cause)
      with Pair Inr now op assms begun show thesis by (intro failed) (auto simp: engine_call_def)
    next
      case (Inr out)
      obtain en2 w3 where "dispatch (hr_callbacks rt) en1 out w2 = (en2, w3)"
        by (cases "dispatch (hr_callbacks rt) en1 out w2")
      with Pair \<open>b = Ok en\<close> Inr now op assms begun show thesis by (intro finished) (auto simp: engine_call_def)
    qed
  qed
qed

text \<open>Which checks fail with which status.\<close>

lemma check_status:
  "borrowed_bytes p n what = Err f \<Longrightarrow> ff_status f = StatusInvalidArgument"
  "borrowed_string p n what = Err f \<Longrightarrow> ff_status f = StatusInvalidArgument"
  "runtime_ref rt = Err f \<Longrightarrow> ff_status f = StatusInvalidArgument"
  "not_null what q = Err f \<Longrightarrow> ff_status f = StatusInvalidArgument"
  "endpoint_from_ffi e = Err f \<Longrightarrow> ff_status f = StatusInvalidArgument"
  by (auto simp: borrowed_string_def borrowed_bytes_def check_then_def runtime_ref_def not_null_def
      endpoint_from_ffi_def failure_new_def ok_or_def split: if_splits option.splits sum.splits)

lemma checked_Ok [simp]: "checked (Ok x) s k = k x"
  by (simp add: checked_def)

lemma checked_cases:
  assumes "checked c s k = (r, s')"
  obtains (bad) f where "c = Err f" "r = Err f" "s' = s" | (good) x where "c = Ok x" "k x = (r, s')"
  using assms by (cases c) (auto simp: checked_def)

abbreviation refusal :: "ffi_failure \<Rightarrow> bool" where
  "refusal f \<equiv> ff_status f = StatusInvalidArgument \<or> ff_status f = StatusInvalidState"

lemma engine_call_refusal:
  assumes "engine_call F E rt w operation = (Err f, s')" and "refusal f"
  shows "s' = (Some rt, w)"
  using assms(1) by (cases rule: engine_call_cases) (use assms(2) in \<open>auto simp: failure_new_def\<close>)

lemma runtime_ref_simps [simp]:
  "runtime_ref p = Ok rt \<longleftrightarrow> p = Some rt" "runtime_ref (Some rt) = Ok rt"
  by (simp_all add: runtime_ref_def)

text \<open>The result of a call that is refused.\<close>

lemma exec_refusal:
  assumes "ffi_exec L F E call s = Some (Err f, s')" and "refusal f"
  shows "s' = s"
proof -
  obtain p w where s: "s = (p, w)" by (cases s)
  note defs = hw_runtime_start_def hw_runtime_stop_def hw_runtime_submit_outbound_ip_def
    hw_runtime_submit_inbound_transport_def hw_runtime_initiate_handshake_def
    hw_runtime_create_keepalive_def hw_runtime_tick_def hw_runtime_invalidate_peer_def
    hw_runtime_resolve_peer_endpoint_def hw_runtime_update_peer_endpoint_def
    hw_runtime_record_transport_sent_def hw_runtime_visit_routes_def hw_runtime_visit_peer_stats_def
  show ?thesis
    using assms unfolding s
    by (cases call)
      (auto simp: defs Let_def failure_new_def elim!: checked_cases
        dest!: engine_call_refusal begin_Err dest: end_begin
        split: sum.splits option.splits prod.splits if_splits list.splits)
qed

subsection \<open>What a call does to the runtime\<close>

lemma dispatch_actions_steps:
  "dispatch_actions cb as en w = (en', w') \<Longrightarrow> (engine_step L E)\<^sup>*\<^sup>* en en'"
proof (induction cb as en w rule: dispatch_actions.induct)
  case (2 cb name endpoint frame as en w)
  obtain ok w1 where c: "rcb_send_transport cb (bytes_of_string name) (endpoint_to_ffi endpoint) frame w = (ok, w1)"
    by (cases "rcb_send_transport cb (bytes_of_string name) (endpoint_to_ffi endpoint) frame w")
  with 2 show ?case
    using do_sent [of L E en name "length frame"]
    by (cases "ok = 0") (auto intro: converse_rtranclp_into_rtranclp)
qed auto

lemma dispatch_steps: "dispatch cb en out w = (en', w') \<Longrightarrow> (engine_step L E)\<^sup>*\<^sup>* en en'"
  unfolding dispatch_def by (rule dispatch_actions_steps)

lemma dispatch_all_steps: "dispatch_all cb en ss w = (en', w') \<Longrightarrow> (engine_step L E)\<^sup>*\<^sup>* en en'"
proof (induction ss arbitrary: en w)
  case (Cons s ss)
  obtain en1 w1 where d: "dispatch cb en (so_output s) w = (en1, w1)"
    by (cases "dispatch cb en (so_output s) w")
  with Cons.prems have "dispatch_all cb en1 ss w1 = (en', w')" by simp
  from rtranclp_trans [OF dispatch_steps [OF d] Cons.IH [OF this]] show ?case .
qed simp

text \<open>The runtime keeps what it was created with; its engine is left alone, worked on by engine
operations, created by a start or erased by a stop.\<close>

definition same_static :: "('net, 'hs, 'ts, 'w) hw_runtime \<Rightarrow> ('net, 'hs, 'ts, 'w) hw_runtime \<Rightarrow> bool" where
  "same_static rt rt' \<longleftrightarrow> hr_config rt' = hr_config rt \<and> hr_router rt' = hr_router rt
    \<and> hr_callbacks rt' = hr_callbacks rt"

inductive runtime_change ::
    "'net libs \<Rightarrow> ('hs, 'ts, 'w) runtime \<Rightarrow> ('net, 'hs, 'ts, 'w) hw_runtime
      \<Rightarrow> ('net, 'hs, 'ts, 'w) hw_runtime \<Rightarrow> bool"
  for L E rt where
  unchanged: "runtime_change L E rt rt"
| worked: "lc_engine (hr_lifecycle rt) = Some en \<Longrightarrow> (engine_step L E)\<^sup>*\<^sup>* en en' \<Longrightarrow> same_static rt rt'
    \<Longrightarrow> hr_lifecycle rt' = (hr_lifecycle rt)\<lparr>lc_engine := Some en'\<rparr>
    \<Longrightarrow> (hr_scheduler rt' = None \<longleftrightarrow> hr_scheduler rt = None) \<Longrightarrow> runtime_change L E rt rt'"
| started: "lc_engine (hr_lifecycle rt) = None
    \<Longrightarrow> engine_with_router L (hr_config rt) (hr_router rt) = Ok en
    \<Longrightarrow> runtime_change L E rt (rt\<lparr>hr_lifecycle := (hr_lifecycle rt)\<lparr>lc_engine := Some en\<rparr>,
          hr_scheduler := Some (scheduler_new (hr_config rt))\<rparr>)"
| stopped: "runtime_change L E rt (rt\<lparr>hr_lifecycle := (hr_lifecycle rt)\<lparr>lc_engine := None, lc_stopping := False\<rparr>,
          hr_scheduler := None\<rparr>)"

lemma share_change:
  assumes "lc_engine (hr_lifecycle rt) = Some en" and "(engine_step L E)\<^sup>*\<^sup>* en en'"
  shows "runtime_change L E rt (share_engine en' rt)"
  using assms by (intro worked [of rt en]) (auto simp: share_engine_def same_static_def)

lemma engine_call_change:
  assumes "engine_call F E rt w operation = (r, p, w')"
    and "\<And>en now w r1 en1 w1. operation en now w = (r1, en1, w1) \<Longrightarrow> engine_step L E en en1"
  shows "\<exists>rt'. p = Some rt' \<and> runtime_change L E rt rt'"
  using assms(1)
proof (cases rule: engine_call_cases)
  case (refused f)
  then show ?thesis by (auto intro: unchanged)
next
  case (failed en now w1 cause en1 w2)
  from assms(2) [OF failed(2)] have "(engine_step L E)\<^sup>*\<^sup>* en en1" by (rule r_into_rtranclp)
  with failed share_change [of rt en L E en1] show ?thesis by auto
next
  case (finished en now w1 out en1 w2 en2 w3)
  from assms(2) [OF finished(2)] dispatch_steps [OF finished(3), of L E]
  have "(engine_step L E)\<^sup>*\<^sup>* en en2" by (rule converse_rtranclp_into_rtranclp)
  with finished share_change [of rt en L E en2] show ?thesis by auto
qed

lemma tick_change:
  assumes "hw_runtime_tick F E f (Some rt, w) = (r, p, w')"
  shows "\<exists>rt'. p = Some rt' \<and> runtime_change L E rt rt'"
proof (cases "begin_call rt")
  case (Pair b rt1)
  show ?thesis
  proof (cases b)
    case (Inl e)
    with Pair assms begin_Err [of rt e rt1] show ?thesis
      by (auto simp: hw_runtime_tick_def checked_def runtime_ref_def intro: unchanged)
  next
    case (Inr en)
    note begun = end_begin [OF Pair [unfolded Inr]]
    from Pair Inr have rt1: "rt1 = rt\<lparr>hr_lifecycle := (hr_lifecycle rt)\<lparr>lc_active_calls := lc_active_calls (hr_lifecycle rt) + 1\<rparr>\<rparr>"
      by (auto simp: begin_call_def lc_begin_def Let_def split: option.splits)
    show ?thesis
    proof (cases "hr_scheduler rt1")
      case None
      with Pair Inr assms begun show ?thesis
        by (auto simp: hw_runtime_tick_def checked_def runtime_ref_def intro: unchanged)
    next
      case (Some sch)
      obtain now w1 where now: "instant_now E w = (now, w1)" by (cases "instant_now E w")
      obtain tick sch1 en1 w2 where tick: "scheduler_tick E (rebind_closure f) sch en now w1 = (tick, sch1, en1, w2)"
        by (rule prod_cases4)
      obtain en2 w3 where d: "dispatch_all (hr_callbacks rt) en1 (tk_outputs tick) w2 = (en2, w3)"
        by (cases "dispatch_all (hr_callbacks rt) en1 (tk_outputs tick) w2")
      have "hr_callbacks rt1 = hr_callbacks rt" by (simp add: rt1)
      with Pair Inr Some now tick d assms
      have p: "p = Some (end_call (share_engine en2 (rt1\<lparr>hr_scheduler := Some sch1\<rparr>)))"
        by (auto simp: hw_runtime_tick_def checked_def runtime_ref_def)
      have "(engine_step L E)\<^sup>*\<^sup>* en en2"
        using scheduler_tick_facts [OF tick, of L] dispatch_all_steps [OF d, of L E] by (meson rtranclp_trans)
      with begun Some show ?thesis
        unfolding p by (auto simp: rt1 end_call_def lc_end_def share_engine_def same_static_def intro!: worked [of rt en])
    qed
  qed
qed

lemma direct_change:
  assumes "begin_call rt = (Ok en, rt1)" and "engine_step L E en en1"
  shows "runtime_change L E rt (end_call (share_engine en1 rt1))"
  using share_change [of rt en L E en1] end_begin [OF assms(1)] share_end [OF assms(1)] assms(2) by auto

lemma sent_change:
  assumes "hw_runtime_record_transport_sent q n k (Some rt, w) = (r, p, w')"
  shows "\<exists>rt'. p = Some rt' \<and> runtime_change L E rt rt'"
proof -
  from assms have s: "checked (borrowed_string q n ''peer_name'') (Some rt, w) (\<lambda>peer.
      case begin_call rt of
        (Inl f, rt1) \<Rightarrow> (Err f, Some rt1, w)
      | (Inr en, rt1) \<Rightarrow>
          (Ok (), Some (end_call (share_engine (record_transport_sent en peer k) rt1)), w)) = (r, p, w')"
    unfolding hw_runtime_record_transport_sent_def fst_conv snd_conv runtime_ref_simps checked_Ok .
  then show ?thesis
  proof (cases rule: checked_cases)
    case (good peer)
    obtain b rt1 where b: "begin_call rt = (b, rt1)" by (cases "begin_call rt")
    show ?thesis
    proof (cases b)
      case (Inl f)
      with good b begin_Err [of rt f rt1] show ?thesis by (auto intro: unchanged)
    next
      case (Inr en)
      with good b direct_change [of rt en rt1 L E "record_transport_sent en peer k", OF _ do_sent]
      show ?thesis by (intro exI [of _ "end_call (share_engine (record_transport_sent en peer k) rt1)"]) simp
    qed
  qed (auto intro: unchanged)
qed

lemma exec_change:
  assumes "ffi_exec L F E call (Some rt, w) = Some (r, p, w')"
  shows "\<exists>rt'. p = Some rt' \<and> runtime_change L E rt rt'"
proof (cases call)
  case CallStart
  with assms show ?thesis
    by (auto simp: hw_runtime_start_def checked_def Let_def intro: unchanged started
        split: if_splits sum.splits)
next
  case CallStop
  with assms show ?thesis
    by (auto simp: hw_runtime_stop_def Let_def intro: unchanged stopped split: if_splits)
next
  case (CallOutbound q n)
  with assms show ?thesis
    by (auto simp: hw_runtime_submit_outbound_ip_def elim!: checked_cases intro: unchanged
        dest!: engine_call_change [where L = L] do_outbound)
next
  case (CallInbound q n e)
  with assms show ?thesis
    by (auto simp: hw_runtime_submit_inbound_transport_def elim!: checked_cases intro: unchanged
        dest!: engine_call_change [where L = L] do_inbound)
next
  case (CallInitiate q n)
  with assms show ?thesis
    by (auto simp: hw_runtime_initiate_handshake_def elim!: checked_cases intro: unchanged
        dest!: engine_call_change [where L = L] do_initiate)
next
  case (CallKeepalive q n q' n')
  with assms show ?thesis
    by (auto simp: hw_runtime_create_keepalive_def elim!: checked_cases intro: unchanged
        dest!: engine_call_change [where L = L] do_keepalive)
next
  case (CallTick f)
  with assms tick_change [where L = L] show ?thesis by simp
next
  case (CallInvalidate q n)
  with assms show ?thesis
    by (auto simp: hw_runtime_invalidate_peer_def split: sum.splits prod.splits
        dest: begin_Err intro: unchanged direct_change do_invalidate)
next
  case (CallResolve q n b)
  with assms show ?thesis
    by (auto simp: hw_runtime_resolve_peer_endpoint_def split: sum.splits intro: unchanged)
next
  case (CallUpdate q n e)
  with assms show ?thesis
    by (auto simp: hw_runtime_update_peer_endpoint_def split: sum.splits prod.splits
        dest: begin_Err intro: unchanged direct_change do_update)
next
  case (CallSent q n k)
  with assms sent_change [where L = L] show ?thesis by simp
next
  case (CallRoutes f)
  with assms show ?thesis
    by (auto simp: hw_runtime_visit_routes_def elim!: checked_cases intro: unchanged)
next
  case (CallStats f)
  with assms show ?thesis
    by (auto simp: hw_runtime_visit_peer_stats_def elim!: checked_cases split: sum.splits prod.splits
        dest!: begin_Err end_begin intro: unchanged)
qed

subsection \<open>Sequences of calls\<close>

text \<open>Between calls: none is in flight, the scheduler exists exactly with the engine, and the
engine is one that the engine's own operations reach from a fresh start with the runtime's
router and the key of its configuration.\<close>

definition runtime_ok ::
    "'net libs \<Rightarrow> ('hs, 'ts, 'w) runtime \<Rightarrow> ('net, 'hs, 'ts, 'w) hw_runtime \<Rightarrow> bool" where
  "runtime_ok L E rt \<longleftrightarrow>
    lc_active_calls (hr_lifecycle rt) = 0 \<and> \<not> lc_stopping (hr_lifecycle rt)
    \<and> (hr_scheduler rt = None \<longleftrightarrow> lc_engine (hr_lifecycle rt) = None)
    \<and> validate L (hr_config rt) = Ok () \<and> router_new L (hr_config rt) = Ok (hr_router rt)
    \<and> (\<forall>en. lc_engine (hr_lifecycle rt) = Some en \<longrightarrow>
         (\<exists>k. decode_key L (if_private_key (cfg_interface (hr_config rt))) = Some k
              \<and> engine_reachable L E (hr_router rt) k en))"

lemma engine_with_router_Ok:
  "engine_with_router L cfg R = Ok en \<longleftrightarrow>
    (\<exists>k. decode_key L (if_private_key (cfg_interface cfg)) = Some k \<and> en = engine_start R k)"
  by (auto simp: engine_with_router_def engine_start_def)

lemma change_ok:
  assumes "runtime_change L E rt rt'" and ok: "runtime_ok L E rt"
  shows "runtime_ok L E rt'"
  using assms(1)
proof cases
  case unchanged
  with ok show ?thesis by simp
next
  case (worked en en')
  from ok worked(1) obtain k where "decode_key L (if_private_key (cfg_interface (hr_config rt))) = Some k"
    and "engine_reachable L E (hr_router rt) k en" by (auto simp: runtime_ok_def)
  with packet_engine.reachable_steps [OF worked(2)] worked ok show ?thesis
    by (auto simp: runtime_ok_def same_static_def)
next
  case (started en)
  then obtain k where "decode_key L (if_private_key (cfg_interface (hr_config rt))) = Some k"
    and "en = engine_start (hr_router rt) k" by (auto simp: engine_with_router_Ok)
  with started ok show ?thesis by (auto simp: runtime_ok_def intro: reachable.start)
next
  case stopped
  with ok show ?thesis by (simp add: runtime_ok_def)
qed

lemma create_Ok:
  assumes "hw_runtime_create L F toml n cb = Ok rt"
  shows "validate L (hr_config rt) = Ok () \<and> router_new L (hr_config rt) = Ok (hr_router rt)
    \<and> hr_lifecycle rt = \<lparr>lc_engine = None, lc_active_calls = 0, lc_stopping = False\<rparr>
    \<and> hr_scheduler rt = None"
  using assms unfolding hw_runtime_create_def check_then_Ok map_err_eq_Ok
  by (elim exE conjE, clarify) simp

lemma create_ok:
  assumes "hw_runtime_create L F toml n cb = Ok rt"
  shows "runtime_ok L E rt \<and> lc_engine (hr_lifecycle rt) = None"
  using create_Ok [OF assms] by (simp add: runtime_ok_def)

inductive ffi_step ::
    "'net libs \<Rightarrow> 'net ffi_libs \<Rightarrow> ('hs, 'ts, 'w) runtime
      \<Rightarrow> ('net, 'hs, 'ts, 'w) hw_runtime \<Rightarrow> ('net, 'hs, 'ts, 'w) hw_runtime \<Rightarrow> bool"
  for L F E where
  "ffi_exec L F E call (Some rt, w) = Some (r, Some rt', w') \<Longrightarrow> ffi_step L F E rt rt'"

interpretation ffi: state_machine "\<lambda>rt. \<exists>toml n cb. hw_runtime_create L F toml n cb = Ok rt"
    "ffi_step L F E" "runtime_ok L E"
  for L F E
proof
  show "runtime_ok L E rt" if "\<exists>toml n cb. hw_runtime_create L F toml n cb = Ok rt" for rt
    using that create_ok by blast
  show "runtime_ok L E rt'" if "runtime_ok L E rt" and "ffi_step L F E rt rt'" for rt rt'
    using that(2) exec_change change_ok [OF _ that(1)] by (cases rule: ffi_step.cases) fastforce
qed

subsection \<open>A concrete runtime\<close>

definition demo_ffi_libs :: "demo_net ffi_libs" where
  "demo_ffi_libs = \<lparr>parse_toml = (\<lambda>_. Ok demo_config), config_error_text = (\<lambda>_. ''config''),
     router_error_text = (\<lambda>_. ''router''), engine_error_text = (\<lambda>_. ''engine'')\<rparr>"

text \<open>The platform refuses every frame to port 9.\<close>

definition demo_callbacks :: "nat hw_callbacks" where
  "demo_callbacks = \<lparr>cb_send_transport = Some (\<lambda>name e frame w. (if ep_port e = 9 then 0 else 1, w + 1)),
     cb_write_ip_packet = Some (\<lambda>name e packet w. w), cb_handshake_completed = None\<rparr>"

definition demo_rcb :: "nat runtime_callbacks" where
  "demo_rcb = \<lparr>rcb_send_transport = (\<lambda>name e frame w. (if ep_port e = 9 then 0 else 1, w + 1)),
     rcb_write_ip_packet = (\<lambda>name e packet w. w), rcb_handshake_completed = None\<rparr>"

definition demo_hw :: "(demo_net, demo_hs, bytes, nat) hw_runtime" where
  "demo_hw = \<lparr>hr_config = demo_config, hr_router = demo_router, hr_callbacks = demo_rcb,
     hr_lifecycle = \<lparr>lc_engine = None, lc_active_calls = 0, lc_stopping = False\<rparr>, hr_scheduler = None\<rparr>"

lemma demo_engine_starts:
  "engine_with_router demo_libs demo_config R = Ok (engine_start R (replicate 32 115))"
  unfolding engine_with_router_Ok
  by (simp add: demo_config_def) (simp add: demo_libs_def demo_key_def decode_key_def)

lemma demo_hw_created: "hw_runtime_create demo_libs demo_ffi_libs None 0 (Some demo_callbacks) = Ok demo_hw"
  unfolding hw_runtime_create_def check_then_Ok map_err_eq_Ok
  by (simp add: borrowed_bytes_def demo_ffi_libs_def demo_validates demo_router_new demo_engine_starts
      not_null_def demo_callbacks_def demo_hw_def demo_rcb_def)

lemma demo_hw_starts:
  "\<exists>rt'. ffi_exec demo_libs demo_ffi_libs E CallStart (Some demo_hw, w) = Some (Ok (), Some rt', w)
    \<and> lc_engine (hr_lifecycle rt') = Some (engine_start demo_router (replicate 32 115))"
  by (simp add: hw_runtime_start_def demo_hw_def Let_def demo_engine_starts)

text \<open>C39: a call of the C interface that reports an invalid argument or an invalid state (a null
pointer, text that is not UTF-8, an unknown address family, a runtime that is stopped or stopping)
has no effect: the runtime, its engine, scheduler and call count, and the world are unchanged, so
no callback was invoked.\<close>

theorem refused_call_has_no_effect:
  assumes "ffi_exec L F E call s = Some (Err f, s')"
    and "ff_status f = StatusInvalidArgument \<or> ff_status f = StatusInvalidState"
  shows "s' = s"
  by (rule exec_refusal [OF assms])

theorem refused_call_has_no_effect_witness:
  "ffi_exec demo_libs demo_ffi_libs demo_runtime (CallOutbound None 5) (Some demo_hw, 0)
    = Some (Err (failure_new StatusInvalidArgument ''packet must not be null when length is nonzero''),
        Some demo_hw, 0)"
proof -
  obtain s' where exec: "ffi_exec demo_libs demo_ffi_libs demo_runtime (CallOutbound None 5) (Some demo_hw, 0)
      = Some (Err (failure_new StatusInvalidArgument ''packet must not be null when length is nonzero''), s')"
    by (simp add: hw_runtime_submit_outbound_ip_def borrowed_bytes_def checked_def)
  from refused_call_has_no_effect [OF exec] have "s' = (Some demo_hw, 0)"
    unfolding failure_new_def by simp
  with exec show ?thesis by simp
qed

text \<open>C29: Whatever sequence of calls a platform makes on a runtime it created, between calls no
call is in flight and none is stopping, the scheduler exists exactly while the engine does, and
the engine is one that the operations of the engine reach from a fresh start with the runtime's
router and the key of its configuration; hence every guarantee of the engine holds across the C
interface, unique session identifiers among them. No later call waits: stop always returns at once.\<close>

theorem ffi_runtime_invariant:
  assumes "hw_runtime_create L F toml n callbacks = Ok rt0" and "(ffi_step L F E)\<^sup>*\<^sup>* rt0 rt"
  shows "lc_active_calls (hr_lifecycle rt) = 0 \<and> \<not> lc_stopping (hr_lifecycle rt)
    \<and> (hr_scheduler rt = None \<longleftrightarrow> lc_engine (hr_lifecycle rt) = None)
    \<and> (\<forall>en. lc_engine (hr_lifecycle rt) = Some en \<longrightarrow>
         (\<exists>k. decode_key L (if_private_key (cfg_interface (hr_config rt))) = Some k
            \<and> reachable (\<lambda>en. en = engine_start (hr_router rt) k) (engine_step L E) en)
         \<and> ids_unique (en_sessions en))
    \<and> (\<forall>call w. ffi_exec L F E call (Some rt, w) \<noteq> None)"
proof -
  have ok: "runtime_ok L E rt"
    using ffi.steps_inv [OF assms(2)] create_ok [OF assms(1)] by blast
  have "ffi_exec L F E call (Some rt, w) \<noteq> None" for call w
    using ok by (cases call) (simp_all add: hw_runtime_stop_def runtime_ok_def Let_def)
  moreover have "(\<exists>k. decode_key L (if_private_key (cfg_interface (hr_config rt))) = Some k
      \<and> engine_reachable L E (hr_router rt) k en) \<and> ids_unique (en_sessions en)"
    if "lc_engine (hr_lifecycle rt) = Some en" for en
    using ok that engine_reachable_wf by (fastforce simp: runtime_ok_def sm_inv_def)
  moreover from ok have "lc_active_calls (hr_lifecycle rt) = 0" "\<not> lc_stopping (hr_lifecycle rt)"
    "hr_scheduler rt = None \<longleftrightarrow> lc_engine (hr_lifecycle rt) = None"
    unfolding runtime_ok_def by blast+
  ultimately show ?thesis by blast
qed

theorem ffi_runtime_invariant_witness:
  "\<exists>rt en. hw_runtime_start demo_libs demo_ffi_libs (Some demo_hw, 0 :: nat) = (Ok (), Some rt, 0)
    \<and> lc_engine (hr_lifecycle rt) = Some en \<and> ids_unique (en_sessions en) \<and> hr_scheduler rt \<noteq> None"
proof -
  obtain rt where start: "ffi_exec demo_libs demo_ffi_libs demo_runtime CallStart (Some demo_hw, 0 :: nat)
      = Some (Ok (), Some rt, 0)"
    and en: "lc_engine (hr_lifecycle rt) = Some (engine_start demo_router (replicate 32 115))"
    using demo_hw_starts by blast
  have "(ffi_step demo_libs demo_ffi_libs demo_runtime)\<^sup>*\<^sup>* demo_hw rt"
    by (rule r_into_rtranclp, rule ffi_step.intros, rule start)
  from ffi_runtime_invariant [OF demo_hw_created this]
  have "hr_scheduler rt \<noteq> None" "ids_unique (en_sessions (engine_start demo_router (replicate 32 115) ::
      (demo_net, demo_hs, bytes) engine))"
    using en by auto
  with start en show ?thesis by auto
qed

subsection \<open>Accounting\<close>

text \<open>The frames that the send callback accepted, in order.\<close>

fun accepted_frames :: "'w runtime_callbacks \<Rightarrow> engine_action list \<Rightarrow> 'w \<Rightarrow> (string \<times> bytes) list" where
  "accepted_frames cb [] w = []"
| "accepted_frames cb (SendTransport name endpoint frame # as) w =
    (case rcb_send_transport cb (bytes_of_string name) (endpoint_to_ffi endpoint) frame w of
       (accepted, w1) \<Rightarrow> (if accepted \<noteq> 0 then [(name, frame)] else []) @ accepted_frames cb as w1)"
| "accepted_frames cb (WriteIpPacket name source packet # as) w =
    accepted_frames cb as (rcb_write_ip_packet cb (bytes_of_string name) (endpoint_to_ffi source) packet w)"

definition tx_of :: "('net, 'hs, 'ts) engine \<Rightarrow> string \<Rightarrow> u64" where
  "tx_of en name = tx_bytes (stats_entry (en_peers en) name)"

text \<open>What the engine knows apart from the sent bytes.\<close>

definition beside_tx ::
    "('net, 'hs, 'ts) engine \<Rightarrow> ('hs, 'ts) session_state \<times> 'net router
      \<times> (string \<Rightarrow> u64 \<times> instant option \<times> socket_addr option)" where
  "beside_tx en = (en_sessions en, en_router en,
    \<lambda>name. let s = stats_entry (en_peers en) name in (rx_bytes s, last_seen s, current_endpoint s))"

lemma record_sent_stats:
  "tx_of (record_transport_sent en name k) n = tx_of en n + (if n = name then of_nat k else 0)"
  "beside_tx (record_transport_sent en name k) = beside_tx en"
  by (auto simp: tx_of_def beside_tx_def record_transport_sent_def record_tx_def stats_entry_def Let_def
      split: option.splits)

lemma dispatch_actions_tx:
  assumes "dispatch_actions cb as en w = (en', w')"
  shows "tx_of en' n = tx_of en n
      + of_nat (\<Sum>(name, frame) \<leftarrow> accepted_frames cb as w. if name = n then length frame else 0)
    \<and> beside_tx en' = beside_tx en"
  using assms
proof (induction cb as en w rule: dispatch_actions.induct)
  case (2 cb name endpoint frame as en w)
  obtain ok w1 where c: "rcb_send_transport cb (bytes_of_string name) (endpoint_to_ffi endpoint) frame w = (ok, w1)"
    by (cases "rcb_send_transport cb (bytes_of_string name) (endpoint_to_ffi endpoint) frame w")
  show ?case
  proof (cases "ok = 0")
    case True
    with 2 c show ?thesis by simp
  next
    case False
    with 2 c have "tx_of en' n = tx_of (record_transport_sent en name (length frame)) n
        + of_nat (\<Sum>(name, frame) \<leftarrow> accepted_frames cb as w1. if name = n then length frame else 0)
      \<and> beside_tx en' = beside_tx (record_transport_sent en name (length frame))"
      by simp
    with False c show ?thesis by (simp add: record_sent_stats)
  qed
qed simp_all

text \<open>Dispatching an output through the platform's callbacks counts, for every peer, exactly
the bytes of the frames that its send callback accepted (modulo the width of the counter), and
changes nothing else of the engine: sessions, router, received bytes, last-seen times and learned
endpoints stay.\<close>

lemma dispatch_counts_accepted:
  assumes "dispatch cb en out w = (en', w')"
  shows "tx_of en' n = tx_of en n + of_nat (\<Sum>(name, frame) \<leftarrow>
      accepted_frames cb (out_actions out) (dispatch_events cb (out_events out) w).
      if name = n then length frame else 0)
    \<and> beside_tx en' = beside_tx en"
  by (rule dispatch_actions_tx [OF assms [unfolded dispatch_def]])

lemma dispatch_counts_accepted_witness:
  "case dispatch demo_rcb demo_engine \<lparr>out_actions = [SendTransport ''a'' (V4 1 2) [1, 2, 3],
      SendTransport ''a'' (V4 1 9) [4]], out_events = []\<rparr> 0 of (en', _) \<Rightarrow>
    tx_of en' ''a'' = tx_of demo_engine ''a'' + 3"
proof -
  obtain en' w' where d: "dispatch demo_rcb demo_engine \<lparr>out_actions = [SendTransport ''a'' (V4 1 2) [1, 2, 3],
      SendTransport ''a'' (V4 1 9) [4]], out_events = []\<rparr> 0 = (en', w')"
    by (rule prod.exhaust)
  from dispatch_counts_accepted [OF d, of "''a''"] show ?thesis
    unfolding d by (simp add: demo_rcb_def)
qed

end
