(* ===== verification/Lifecycle.thy ===== *)
theory Lifecycle
  imports Ffi
begin

text \<open>
  The lifecycle lock of \<^verbatim>\<open>src/src/ffi.rs\<close> under threads that interleave: \<open>begin_call\<close>, the drop
  of a call, \<open>hw_runtime_start\<close> and \<open>hw_runtime_stop\<close>, one event for every section that holds
  the lock. A stop that finds calls in flight releases the lock while it waits, so that it is two
  events. Engines are numbered in the order they are started; a call works on a clone of the
  engine it began with, which shares its state. A thread in a call does not call a lifecycle
  function, as the interface demands.
\<close>

record 't ffi_threads =
  ft_lifecycle :: "nat lifecycle"
  ft_scheduler :: bool
  ft_calls :: "'t \<Rightarrow> nat option"
  ft_waiting :: "'t set"
  ft_started :: nat

definition threads_start :: "'t ffi_threads" where
  "threads_start = \<lparr>ft_lifecycle = \<lparr>lc_engine = None, lc_active_calls = 0, lc_stopping = False\<rparr>,
     ft_scheduler = False, ft_calls = (\<lambda>_. None), ft_waiting = {}, ft_started = 0\<rparr>"

datatype 't lifecycle_event =
    BeginCall 't | EndCall 't | StartRuntime 't | StopEnter 't | StopWake 't

definition thread_idle :: "'t ffi_threads \<Rightarrow> 't \<Rightarrow> bool" where
  "thread_idle s t \<longleftrightarrow> ft_calls s t = None \<and> t \<notin> ft_waiting s"

text \<open>The end of a stop: the engine and the scheduler are erased.\<close>

definition erase_engine :: "'t ffi_threads \<Rightarrow> 't ffi_threads" where
  "erase_engine s =
    s\<lparr>ft_lifecycle := (ft_lifecycle s)\<lparr>lc_engine := None, lc_stopping := False\<rparr>, ft_scheduler := False\<rparr>"

text \<open>\<open>None\<close>: the thread is not in a position to do this. A refused call or start is a step that
changes nothing.\<close>

fun lifecycle_step :: "'t lifecycle_event \<Rightarrow> 't ffi_threads \<Rightarrow> 't ffi_threads option" where
  "lifecycle_step (BeginCall t) s =
    (if \<not> thread_idle s t then None
     else
       case lc_begin (ft_lifecycle s) of
         (Inl f, lc) \<Rightarrow> Some (s\<lparr>ft_lifecycle := lc\<rparr>)
       | (Inr e, lc) \<Rightarrow> Some (s\<lparr>ft_lifecycle := lc, ft_calls := (ft_calls s)(t := Some e)\<rparr>))"
| "lifecycle_step (EndCall t) s =
    (case ft_calls s t of
       None \<Rightarrow> None
     | Some e \<Rightarrow> Some (s\<lparr>ft_lifecycle := lc_end (ft_lifecycle s), ft_calls := (ft_calls s)(t := None)\<rparr>))"
| "lifecycle_step (StartRuntime t) s =
    (let lc = ft_lifecycle s in
     if \<not> thread_idle s t then None
     else if lc_stopping lc \<or> lc_engine lc \<noteq> None then Some s
     else Some (s\<lparr>ft_lifecycle := lc\<lparr>lc_engine := Some (ft_started s)\<rparr>, ft_scheduler := True,
                  ft_started := ft_started s + 1\<rparr>))"
| "lifecycle_step (StopEnter t) s =
    (let lc = ft_lifecycle s in
     if \<not> thread_idle s t then None
     else if lc_engine lc = None then Some s
     else if lc_active_calls lc \<noteq> 0
     then Some (s\<lparr>ft_lifecycle := lc\<lparr>lc_stopping := True\<rparr>, ft_waiting := insert t (ft_waiting s)\<rparr>)
     else Some (erase_engine s))"
| "lifecycle_step (StopWake t) s =
    (if t \<notin> ft_waiting s then None
     else if lc_active_calls (ft_lifecycle s) \<noteq> 0 then Some s
     else Some (erase_engine (s\<lparr>ft_waiting := ft_waiting s - {t}\<rparr>)))"

fun lifecycle_run :: "'t lifecycle_event list \<Rightarrow> 't ffi_threads \<Rightarrow> 't ffi_threads option" where
  "lifecycle_run [] s = Some s"
| "lifecycle_run (e # es) s = (case lifecycle_step e s of None \<Rightarrow> None | Some s' \<Rightarrow> lifecycle_run es s')"

subsection \<open>The invariant\<close>

definition threads_ok :: "'t ffi_threads \<Rightarrow> bool" where
  "threads_ok s \<longleftrightarrow>
    finite (dom (ft_calls s)) \<and> lc_active_calls (ft_lifecycle s) = card (dom (ft_calls s))
    \<and> (\<forall>t e. ft_calls s t = Some e \<longrightarrow> lc_engine (ft_lifecycle s) = Some e)
    \<and> (lc_stopping (ft_lifecycle s) \<longrightarrow> ft_waiting s \<noteq> {} \<and> lc_engine (ft_lifecycle s) \<noteq> None)
    \<and> (ft_scheduler s \<longleftrightarrow> lc_engine (ft_lifecycle s) \<noteq> None)
    \<and> (\<forall>e. lc_engine (ft_lifecycle s) = Some e \<longrightarrow> e < ft_started s)
    \<and> dom (ft_calls s) \<inter> ft_waiting s = {}"

lemma lc_begin_cases:
  obtains (refused) f where "lc_begin lc = (Err f, lc)" "lc_engine lc = None \<or> lc_stopping lc"
  | (begun) e where "lc_begin lc = (Ok e, lc\<lparr>lc_active_calls := Suc (lc_active_calls lc)\<rparr>)"
      "lc_engine lc = Some e" "\<not> lc_stopping lc"
  by (cases "lc_engine lc"; cases "lc_stopping lc") (auto simp: lc_begin_def opt_filter_def)

lemma no_calls:
  assumes "threads_ok s" and "lc_active_calls (ft_lifecycle s) = 0"
  shows "ft_calls s = (\<lambda>_. None)"
  using assms by (auto simp: threads_ok_def dom_def)

lemma erase_ok:
  assumes "threads_ok s" and "ft_calls s = (\<lambda>_. None)"
  shows "threads_ok (erase_engine (s\<lparr>ft_waiting := W\<rparr>))"
  using assms by (simp add: threads_ok_def erase_engine_def)

lemma begin_ok:
  assumes ok: "threads_ok s" and step: "lifecycle_step (BeginCall t) s = Some s'"
  shows "threads_ok s'"
proof (cases "ft_lifecycle s" rule: lc_begin_cases)
  case (refused f)
  with assms show ?thesis by (auto split: if_splits)
next
  case (begun e)
  with step have idle: "thread_idle s t"
    and s': "s' = s\<lparr>ft_lifecycle := (ft_lifecycle s)\<lparr>lc_active_calls := Suc (lc_active_calls (ft_lifecycle s))\<rparr>,
        ft_calls := (ft_calls s)(t := Some e)\<rparr>"
    by (auto split: if_splits)
  from ok idle have "card (dom ((ft_calls s)(t := Some e))) = Suc (card (dom (ft_calls s)))"
    by (simp add: threads_ok_def thread_idle_def domIff)
  with ok idle begun show ?thesis by (auto simp: s' threads_ok_def thread_idle_def)
qed

lemma end_ok:
  assumes ok: "threads_ok s" and step: "lifecycle_step (EndCall t) s = Some s'"
  shows "threads_ok s'"
proof -
  from step obtain e where e: "ft_calls s t = Some e"
    and s': "s' = s\<lparr>ft_lifecycle := lc_end (ft_lifecycle s), ft_calls := (ft_calls s)(t := None)\<rparr>"
    by (auto split: option.splits)
  have "card (dom ((ft_calls s)(t := None))) = card (dom (ft_calls s)) - 1"
    using e by (simp add: domI)
  with ok show ?thesis by (auto simp: s' threads_ok_def lc_end_def split: if_splits)
qed

lemma lifecycle_step_ok:
  assumes ok: "threads_ok s" and step: "lifecycle_step e s = Some s'"
  shows "threads_ok s'"
proof (cases e)
  case (BeginCall t)
  show ?thesis by (rule begin_ok [OF ok step [unfolded BeginCall]])
next
  case (EndCall t)
  show ?thesis by (rule end_ok [OF ok step [unfolded EndCall]])
next
  case (StartRuntime t)
  have calls: "ft_calls s = (\<lambda>_. None)" if "lc_engine (ft_lifecycle s) = None"
  proof
    fix x show "ft_calls s x = None"
      using ok that by (cases "ft_calls s x") (auto simp: threads_ok_def)
  qed
  show ?thesis
  proof (cases "lc_stopping (ft_lifecycle s) \<or> lc_engine (ft_lifecycle s) \<noteq> None")
    case True
    with StartRuntime step ok show ?thesis by (simp add: Let_def split: if_splits)
  next
    case False
    with StartRuntime step have "s' = s\<lparr>ft_lifecycle := (ft_lifecycle s)\<lparr>lc_engine := Some (ft_started s)\<rparr>,
        ft_scheduler := True, ft_started := ft_started s + 1\<rparr>"
      by (simp add: Let_def split: if_splits)
    with ok False calls show ?thesis by (simp add: threads_ok_def)
  qed
next
  case (StopEnter t)
  note step = step [unfolded StopEnter lifecycle_step.simps Let_def]
  then have idle: "thread_idle s t" by (simp split: if_splits)
  consider "lc_engine (ft_lifecycle s) = None" | "lc_engine (ft_lifecycle s) \<noteq> None" "lc_active_calls (ft_lifecycle s) = 0"
    | "lc_engine (ft_lifecycle s) \<noteq> None" "lc_active_calls (ft_lifecycle s) \<noteq> 0" by blast
  then show ?thesis
  proof cases
    case 1
    with step idle ok show ?thesis by (simp add: Let_def)
  next
    case 2
    with step idle have "s' = erase_engine s" by (simp add: Let_def)
    with erase_ok [OF ok no_calls [OF ok 2(2)], of "ft_waiting s"] show ?thesis by simp
  next
    case 3
    with step idle have "s' = s\<lparr>ft_lifecycle := (ft_lifecycle s)\<lparr>lc_stopping := True\<rparr>,
        ft_waiting := insert t (ft_waiting s)\<rparr>" by (simp add: Let_def)
    with ok idle 3 show ?thesis by (simp add: threads_ok_def thread_idle_def domIff)
  qed
next
  case (StopWake t)
  show ?thesis
  proof (cases "lc_active_calls (ft_lifecycle s) = 0")
    case True
    with StopWake step have "s' = erase_engine (s\<lparr>ft_waiting := ft_waiting s - {t}\<rparr>)" by (simp split: if_splits)
    with erase_ok [OF ok no_calls [OF ok True]] show ?thesis by simp
  next
    case False
    with StopWake step ok show ?thesis by (simp split: if_splits)
  qed
qed

interpretation lifecycle: state_machine "\<lambda>s. s = threads_start"
    "\<lambda>s s'. \<exists>e. lifecycle_step e s = Some s'" threads_ok
proof
  show "threads_ok s" if "s = threads_start" for s :: "'t ffi_threads"
    using that by (simp add: threads_start_def threads_ok_def)
  show "threads_ok s'" if "threads_ok s" and "\<exists>e. lifecycle_step e s = Some s'" for s s' :: "'t ffi_threads"
    using that lifecycle_step_ok by blast
qed

lemma run_steps: "lifecycle_run es s = Some s' \<Longrightarrow> (\<lambda>s s'. \<exists>e. lifecycle_step e s = Some s')\<^sup>*\<^sup>* s s'"
proof (induction es arbitrary: s)
  case (Cons e es)
  then obtain s1 where "lifecycle_step e s = Some s1" "lifecycle_run es s1 = Some s'"
    by (auto split: option.splits)
  then have "\<exists>e. lifecycle_step e s = Some s1" and "(\<lambda>s s'. \<exists>e. lifecycle_step e s = Some s')\<^sup>*\<^sup>* s1 s'"
    using Cons.IH by blast+
  then show ?case by (rule converse_rtranclp_into_rtranclp)
qed simp

lemma run_ok:
  assumes "lifecycle_run es threads_start = Some s"
  shows "threads_ok s"
  using lifecycle.steps_inv [OF run_steps [OF assms]] lifecycle.init_inv by blast

subsection \<open>Stopping\<close>

definition stopped :: "'t ffi_threads \<Rightarrow> bool" where
  "stopped s \<longleftrightarrow> lc_engine (ft_lifecycle s) = None \<and> ft_calls s = (\<lambda>_. None) \<and> \<not> ft_scheduler s"

lemma erased_stopped: "ft_calls s = (\<lambda>_. None) \<Longrightarrow> stopped (erase_engine s)"
  by (simp add: stopped_def erase_engine_def)

text \<open>An engine disappears only by being erased, when no call is in flight.\<close>

lemma engine_erased_idle:
  assumes ok: "threads_ok s" and step: "lifecycle_step e s = Some s'"
    and "lc_engine (ft_lifecycle s) \<noteq> None" and "lc_engine (ft_lifecycle s') \<noteq> lc_engine (ft_lifecycle s)"
  shows "stopped s'"
proof (cases e)
  case (BeginCall t)
  with assms show ?thesis by (cases "ft_lifecycle s" rule: lc_begin_cases) (auto split: if_splits)
next
  case (EndCall t)
  with assms show ?thesis by (auto simp: lc_end_def split: option.splits)
next
  case (StartRuntime t)
  with assms show ?thesis by (auto simp: Let_def split: if_splits)
next
  case (StopEnter t)
  with assms no_calls [OF ok] show ?thesis
    by (auto simp: Let_def erased_stopped split: if_splits)
next
  case (StopWake t)
  with assms no_calls [OF ok] show ?thesis by (auto simp: erased_stopped split: if_splits)
qed



lemma run_append:
  "lifecycle_run (es @ fs) s = (case lifecycle_run es s of None \<Rightarrow> None | Some s' \<Rightarrow> lifecycle_run fs s')"
  by (induction es arbitrary: s) (auto split: option.splits)



subsection \<open>Properties\<close>

text \<open>C9: however threads interleave calls, starts and stops, the number of active calls is the
number of calls in flight, every call in flight works on the engine that is running, the scheduler
exists exactly with the engine, and only a waiting stop keeps the runtime stopping. An engine goes
away only by being erased when no call is in flight, so that no callback runs for an erased
engine.\<close>

theorem lifecycle_invariant:
  assumes "lifecycle_run es threads_start = Some s"
  shows "lc_active_calls (ft_lifecycle s) = card (dom (ft_calls s)) \<and> finite (dom (ft_calls s))
    \<and> (\<forall>t en. ft_calls s t = Some en \<longrightarrow> lc_engine (ft_lifecycle s) = Some en)
    \<and> (ft_scheduler s \<longleftrightarrow> lc_engine (ft_lifecycle s) \<noteq> None)
    \<and> (lc_stopping (ft_lifecycle s) \<longrightarrow> ft_waiting s \<noteq> {})
    \<and> (\<forall>e s'. lifecycle_step e s = Some s' \<and> lc_engine (ft_lifecycle s) \<noteq> None
         \<and> lc_engine (ft_lifecycle s') \<noteq> lc_engine (ft_lifecycle s) \<longrightarrow> stopped s')"
proof -
  note ok = run_ok [OF assms]
  from engine_erased_idle [OF ok] have "\<forall>e s'. lifecycle_step e s = Some s' \<and> lc_engine (ft_lifecycle s) \<noteq> None
      \<and> lc_engine (ft_lifecycle s') \<noteq> lc_engine (ft_lifecycle s) \<longrightarrow> stopped s'"
    by blast
  with ok show ?thesis unfolding threads_ok_def by blast
qed


text \<open>A call in flight, and another thread waiting in a stop.\<close>

lemma demo_stopping:
  "\<exists>s. lifecycle_run [StartRuntime 0, BeginCall (1 :: nat), StopEnter 2] threads_start = Some s
    \<and> lc_stopping (ft_lifecycle s) \<and> lc_active_calls (ft_lifecycle s) = 1"
  by (simp add: threads_start_def thread_idle_def lc_begin_def opt_filter_def Let_def)

theorem lifecycle_invariant_witness:
  "\<exists>s. lifecycle_run [StartRuntime 0, BeginCall (1 :: nat), StopEnter 2] threads_start = Some s
    \<and> card (dom (ft_calls s)) = 1"
proof -
  obtain s where s: "lifecycle_run [StartRuntime 0, BeginCall (1 :: nat), StopEnter 2] threads_start = Some s"
    "lc_active_calls (ft_lifecycle s) = 1" using demo_stopping by blast
  from lifecycle_invariant [OF s(1)] s show ?thesis by auto
qed


lemma waits_on:
  assumes "lifecycle_run es s = Some s'" and "StopWake u \<notin> set es" and "threads_ok s" and "u \<in> ft_waiting s"
  shows "u \<in> ft_waiting s' \<and> threads_ok s'"
  using assms
proof (induction es arbitrary: s)
  case (Cons e es)
  then obtain s1 where s1: "lifecycle_step e s = Some s1" "lifecycle_run es s1 = Some s'"
    by (auto split: option.splits)
  have "u \<in> ft_waiting s1"
    using s1(1) Cons.prems(2,4)
    by (cases e) (auto simp: Let_def erase_engine_def split: if_splits option.splits prod.splits sum.splits)
  with Cons s1(2) lifecycle_step_ok [OF Cons.prems(3) s1(1)] show ?case by simp
qed simp

text \<open>C38: a stop that waits erases whatever engine it finds when it wakes. Let two threads wait in
stop while no call is in flight, in whatever state the threads reached: when one of them finishes,
the runtime is stopped; a thread that starts it again then gets a new engine, and any calls it and
others make on that engine may come and go; as soon as none is in flight the other stop takes the
new engine away.\<close>

theorem late_stop_erases_new_engine:
  assumes "lifecycle_run es threads_start = Some s" and "t \<in> ft_waiting s" and "u \<in> ft_waiting s" and "t \<noteq> u"
    and "lc_active_calls (ft_lifecycle s) = 0" and "thread_idle s v"
  shows "\<exists>s1 s2. lifecycle_step (StopWake t) s = Some s1 \<and> stopped s1
    \<and> lifecycle_step (StartRuntime v) s1 = Some s2
    \<and> lc_engine (ft_lifecycle s2) = Some (ft_started s) \<and> \<not> lc_stopping (ft_lifecycle s2) \<and> ft_scheduler s2
    \<and> (\<forall>calls s3. lifecycle_run calls s2 = Some s3 \<longrightarrow> StopWake u \<notin> set calls \<longrightarrow> lc_active_calls (ft_lifecycle s3) = 0
        \<longrightarrow> (\<exists>s4. lifecycle_step (StopWake u) s3 = Some s4 \<and> stopped s4))"
proof -
  let ?s1 = "erase_engine (s\<lparr>ft_waiting := ft_waiting s - {t}\<rparr>)"
  let ?s2 = "?s1\<lparr>ft_lifecycle := (ft_lifecycle ?s1)\<lparr>lc_engine := Some (ft_started s)\<rparr>, ft_scheduler := True,
      ft_started := ft_started s + 1\<rparr>"
  have ok: "threads_ok s" using run_ok [OF assms(1)] .
  have wake: "lifecycle_step (StopWake t) s = Some ?s1" "stopped ?s1"
    using assms(2,5) no_calls [OF ok assms(5)] by (simp_all add: stopped_def erase_engine_def)
  have start: "lifecycle_step (StartRuntime v) ?s1 = Some ?s2"
    using assms(6) by (simp add: thread_idle_def erase_engine_def Let_def)
  have ok2: "threads_ok ?s2" using lifecycle_step_ok [OF lifecycle_step_ok [OF ok wake(1)] start] .
  have "u \<in> ft_waiting ?s2" using assms(3,4) by (simp add: erase_engine_def)
  then have "\<exists>s4. lifecycle_step (StopWake u) s3 = Some s4 \<and> stopped s4"
    if "lifecycle_run calls ?s2 = Some s3" "StopWake u \<notin> set calls" "lc_active_calls (ft_lifecycle s3) = 0" for calls s3
    using waits_on [OF that(1,2) ok2] no_calls that(3) by (auto simp: stopped_def erase_engine_def)
  with wake start show ?thesis
    by (intro exI [of _ ?s1] exI [of _ ?s2]) (simp add: erase_engine_def)
qed

theorem late_stop_erases_new_engine_witness:
  "\<exists>s3 s4. lifecycle_run [StartRuntime 0, BeginCall (1 :: nat), StopEnter 2, StopEnter 3, EndCall 1, StopWake 2,
        StartRuntime 0, BeginCall 1, EndCall 1] threads_start = Some s3
    \<and> lc_engine (ft_lifecycle s3) = Some 1 \<and> lifecycle_step (StopWake 3) s3 = Some s4 \<and> stopped s4"
proof -
  let ?es = "[StartRuntime 0, BeginCall (1 :: nat), StopEnter 2, StopEnter 3, EndCall 1]"
  note defs = threads_start_def thread_idle_def lc_begin_def lc_end_def opt_filter_def Let_def erase_engine_def
  obtain s where s: "lifecycle_run ?es threads_start = Some s"
    and at: "2 \<in> ft_waiting s" "3 \<in> ft_waiting s" "lc_active_calls (ft_lifecycle s) = 0" "thread_idle s 0" "ft_started s = 1"
    by (simp add: defs)
  have "(2 :: nat) \<noteq> 3" by simp
  from late_stop_erases_new_engine [OF s at(1,2) this at(3,4)] obtain s1 s2 where
    steps: "lifecycle_step (StopWake 2) s = Some s1" "lifecycle_step (StartRuntime 0) s1 = Some s2"
    and new: "lc_engine (ft_lifecycle s2) = Some 1"
    and erased: "\<And>calls s3. lifecycle_run calls s2 = Some s3 \<Longrightarrow> StopWake 3 \<notin> set calls \<Longrightarrow> lc_active_calls (ft_lifecycle s3) = 0
        \<Longrightarrow> \<exists>s4. lifecycle_step (StopWake 3) s3 = Some s4 \<and> stopped s4"
    unfolding at(5) by blast
  have two: "lifecycle_run [StopWake 2, StartRuntime 0] s = Some s2" using steps by (simp del: lifecycle_step.simps)
  have run: "lifecycle_run (?es @ [StopWake 2, StartRuntime 0] @ more) threads_start = lifecycle_run more s2" for more
    by (simp only: run_append s two option.case)
  obtain s3 where s3: "lifecycle_run (?es @ [StopWake 2, StartRuntime 0] @ [BeginCall 1, EndCall 1]) threads_start = Some s3"
    "lc_engine (ft_lifecycle s3) = Some 1" "lc_active_calls (ft_lifecycle s3) = 0"
    by (simp add: defs)
  then have "lifecycle_run [BeginCall 1, EndCall 1] s2 = Some s3" by (simp only: run)
  moreover have "StopWake (3 :: nat) \<notin> set [BeginCall 1, EndCall 1]" by simp
  ultimately obtain s4 where "lifecycle_step (StopWake 3) s3 = Some s4" "stopped s4" using erased s3(3) by blast
  with s3(1,2) show ?thesis unfolding append.simps by blast
qed

end
