(* ===== verification/Engine_Threads.thy ===== *)
theory Engine_Threads
  imports Engine_Props
begin

text \<open>
  The \<open>Engine\<close> of \<^verbatim>\<open>src/src/engine.rs\<close> under threads that share it. A call is a chain of
  sections, each of which holds one lock (of the session manager, of the peer state or of the
  resolved endpoints) or draws from the world; between two sections any other thread may act. A call
  that runs alone is the sequential definition of theory \<open>Engine\<close>. Theory \<open>Engine_Runs\<close> shows what
  holds under every interleaving.
\<close>

subsection \<open>Computations in sections\<close>

datatype ('s, 'a) sections =
    Return 'a
  | Section "'s \<Rightarrow> ('s, 'a) sections \<times> 's"

primrec sections_then :: "('s, 'a) sections \<Rightarrow> ('a \<Rightarrow> ('s, 'b) sections) \<Rightarrow> ('s, 'b) sections" where
  "sections_then (Return x) k = k x"
| "sections_then (Section f) k = Section (map_prod (\<lambda>m. sections_then m k) id \<circ> f)"

definition locked :: "('s \<Rightarrow> 'a \<times> 's) \<Rightarrow> ('s, 'a) sections" where
  "locked f = Section (map_prod Return id \<circ> f)"

lemma then_assoc: "sections_then (sections_then m k) h = sections_then m (\<lambda>x. sections_then (k x) h)"
proof (induction m)
  case (Section f)
  have "sections_then (sections_then m k) h = sections_then m (\<lambda>x. sections_then (k x) h)" if "f s = (m, s')" for s m s'
    using Section.IH [of "(m, s')" m] that by (metis fstI fsts.simps rangeI)
  then show ?case by (auto simp: fun_eq_iff map_prod_def split: prod.splits)
qed simp

lemma then_locked: "sections_then (locked f) k = Section (\<lambda>s. case f s of (x, s') \<Rightarrow> (k x, s'))"
  by (auto simp: locked_def fun_eq_iff map_prod_def split: prod.splits)

text \<open>Without interference.\<close>

primrec alone :: "('s, 'a) sections \<Rightarrow> 's \<Rightarrow> 'a \<times> 's" where
  "alone (Return x) s = (x, s)"
| "alone (Section f) s = (case (map_prod alone id \<circ> f) s of (g, s') \<Rightarrow> g s')"

lemma alone_Section: "f s = (m, s') \<Longrightarrow> alone (Section f) s = alone m s'"
  by simp

lemma alone_locked [simp]: "alone (locked f) s = f s"
  by (cases "f s") (simp add: locked_def)

lemma alone_then [simp]: "alone (sections_then m k) s = (case alone m s of (x, s') \<Rightarrow> alone (k x) s')"
proof (induction m arbitrary: s)
  case (Section f)
  obtain m s' where f: "f s = (m, s')" by (cases "f s")
  then have "(m, s') \<in> range f" by (metis rangeI)
  from Section.IH [OF this, of m s'] f show ?case by simp
qed simp

subsection \<open>The calls\<close>

type_synonym ('net, 'hs, 'ts, 'w) shared = "('net, 'hs, 'ts) engine \<times> 'w"

text \<open>A method of the session manager holds its lock throughout.\<close>

definition sessions_section ::
    "(('hs, 'ts) session_state \<Rightarrow> 'w \<Rightarrow> 'a \<times> ('hs, 'ts) session_state \<times> 'w)
      \<Rightarrow> (('net, 'hs, 'ts, 'w) shared, 'a) sections" where
  "sessions_section f = locked (\<lambda>(en, w).
    case f (en_sessions en) w of (x, st', w') \<Rightarrow> (x, (en\<lparr>en_sessions := st'\<rparr>, w')))"

definition encrypt_section ::
    "('hs, 'ts, 'w) runtime \<Rightarrow> string \<Rightarrow> msg_type \<Rightarrow> bytes \<Rightarrow> instant
      \<Rightarrow> (('net, 'hs, 'ts, 'w) shared, (noise_error, bytes option) result) sections" where
  "encrypt_section E name m payload now = sessions_section (\<lambda>st w.
    case encrypt_for_peer E st name m payload now of (r, st') \<Rightarrow> (r, st', w))"

definition invalidate_section :: "string \<Rightarrow> (('net, 'hs, 'ts, 'w) shared, bool) sections" where
  "invalidate_section name = sessions_section (\<lambda>st w.
    case invalidate_peer st name of (removed, st') \<Rightarrow> (removed, st', w))"

text \<open>The peer state has a lock of its own, under which the clock is read.\<close>

definition record_section ::
    "('hs, 'ts, 'w) runtime \<Rightarrow> (peer_state \<Rightarrow> instant \<Rightarrow> peer_state)
      \<Rightarrow> (('net, 'hs, 'ts, 'w) shared, unit) sections" where
  "record_section E f = locked (\<lambda>(en, w).
    case instant_now E w of (t, w') \<Rightarrow> ((), (en\<lparr>en_peers := f (en_peers en) t\<rparr>, w')))"

definition peers_section ::
    "(peer_state \<Rightarrow> peer_state) \<Rightarrow> (('net, 'hs, 'ts, 'w) shared, unit) sections" where
  "peers_section f = locked (\<lambda>(en, w). ((), (en\<lparr>en_peers := f (en_peers en)\<rparr>, w)))"

definition read_section ::
    "(('net, 'hs, 'ts) engine \<Rightarrow> 'a) \<Rightarrow> (('net, 'hs, 'ts, 'w) shared, 'a) sections" where
  "read_section f = locked (\<lambda>(en, w). (f en, (en, w)))"

text \<open>The snapshot of the peer state and, where no usable endpoint was learned, the resolved one.\<close>

definition resolve_endpoint_call ::
    "'net peer \<Rightarrow> (('net, 'hs, 'ts, 'w) shared, socket_addr option) sections" where
  "resolve_endpoint_call p =
    sections_then (read_section (\<lambda>en. opt_filter usable_peer_endpoint
        (Option.bind (hm_get (en_peers en) (peer_name p)) current_endpoint))) (\<lambda>learned.
      case learned of
        Some endpoint \<Rightarrow> Return (opt_filter usable_peer_endpoint (Some endpoint))
      | None \<Rightarrow> read_section (\<lambda>en. opt_filter usable_peer_endpoint (Some (configured_endpoint_of en p))))"

definition initiate_peer_call ::
    "('hs, 'ts, 'w) runtime \<Rightarrow> bytes \<Rightarrow> 'net peer \<Rightarrow> instant
      \<Rightarrow> (('net, 'hs, 'ts, 'w) shared, (noise_error, engine_action option) result) sections" where
  "initiate_peer_call E k p now =
    sections_then (resolve_endpoint_call p) (\<lambda>resolved.
      case resolved of
        None \<Rightarrow> Return (Ok None)
      | Some endpoint \<Rightarrow>
          sections_then (sessions_section (\<lambda>st w.
              start_or_retry_handshake E st (peer_name p) k (peer_public_key p) (peer_psk p) now w)) (\<lambda>r.
            Return (case r of
              Inl e \<Rightarrow> Err e
            | Inr frame \<Rightarrow> Ok (map_option (SendTransport (peer_name p) endpoint) frame))))"

definition push_initiation_call ::
    "('hs, 'ts, 'w) runtime \<Rightarrow> bytes \<Rightarrow> 'net peer \<Rightarrow> instant
      \<Rightarrow> (engine_action list \<Rightarrow> (('net, 'hs, 'ts, 'w) shared, engine_action list) sections)
      \<Rightarrow> (('net, 'hs, 'ts, 'w) shared, ('net engine_error, engine_output) result) sections" where
  "push_initiation_call E k p now rest =
    sections_then (initiate_peer_call E k p now) (\<lambda>r.
      case r of
        Inl e \<Rightarrow> Return (Err (EngineNoise e))
      | Inr action \<Rightarrow>
          sections_then (rest (case action of None \<Rightarrow> [] | Some a \<Rightarrow> [a])) (\<lambda>actions.
            Return (Ok (no_output\<lparr>out_actions := actions\<rparr>))))"

definition encrypt_or_initiate_call ::
    "('hs, 'ts, 'w) runtime \<Rightarrow> bytes \<Rightarrow> 'net peer \<Rightarrow> string \<Rightarrow> msg_type \<Rightarrow> bytes \<Rightarrow> instant
      \<Rightarrow> (('net, 'hs, 'ts, 'w) shared, ('net engine_error, engine_output) result) sections" where
  "encrypt_or_initiate_call E k p name m payload now =
    sections_then (encrypt_section E name m payload now) (\<lambda>r.
      case r of
        Inr (Some frame) \<Rightarrow>
          push_initiation_call E k p now (\<lambda>actions.
            sections_then (resolve_endpoint_call p) (\<lambda>resolved.
              Return (case resolved of
                None \<Rightarrow> actions
              | Some endpoint \<Rightarrow> actions @ [SendTransport name endpoint frame])))
      | Inr None \<Rightarrow> push_initiation_call E k p now Return
      | Inl _ \<Rightarrow>
          sections_then (invalidate_section name) (\<lambda>_. push_initiation_call E k p now Return))"

definition outbound_call ::
    "'net libs \<Rightarrow> ('hs, 'ts, 'w) runtime \<Rightarrow> 'net router \<Rightarrow> bytes \<Rightarrow> bytes \<Rightarrow> instant
      \<Rightarrow> (('net, 'hs, 'ts, 'w) shared, ('net engine_error, engine_output) result) sections" where
  "outbound_call L E R k packet now =
    (case ipv4_parse packet of
       Inl e \<Rightarrow> Return (Err (EnginePacket e))
     | Inr ipv4 \<Rightarrow>
         case lookup L R (ipv4_destination ipv4) of
           None \<Rightarrow> Return (Ok no_output)
         | Some route \<Rightarrow>
             let p = route_peer route in encrypt_or_initiate_call E k p (peer_name p) Data packet now)"

definition router_peer :: "'net router \<Rightarrow> string \<Rightarrow> 'net peer option" where
  "router_peer R name = map_option route_peer (find (\<lambda>r. peer_name (route_peer r) = name) (routes R))"

text \<open>Trying the peers of an initiation takes no lock of the engine; it is one section because it
draws from the world.\<close>

definition inbound_init_call ::
    "('hs, 'ts, 'w) runtime \<Rightarrow> 'net router \<Rightarrow> bytes \<Rightarrow> bytes \<Rightarrow> bytes \<Rightarrow> socket_addr
      \<Rightarrow> (('net, 'hs, 'ts, 'w) shared, ('net engine_error, engine_output) result) sections" where
  "inbound_init_call E R k hid message source =
    sections_then (locked (\<lambda>(en, w).
        case decode_handshake_init E k hid message {} (routes R) w of (r, w') \<Rightarrow> (r, (en, w')))) (\<lambda>decoded.
      case decoded of
        None \<Rightarrow> Return (Ok no_output)
      | Some (name, handshake) \<Rightarrow>
          sections_then (sessions_section (\<lambda>st w. accept_inbound_initiation E st name hid
              (opt_test (\<lambda>p. \<not> usable_peer_endpoint (peer_endpoint_addr p)) (router_peer R name)) w)) (\<lambda>accepted.
            if \<not> accepted then Return (Ok no_output)
            else
              sections_then (sessions_section (\<lambda>st w. cached_responder_response E st name hid message w)) (\<lambda>cached.
                case cached of
                  Some response \<Rightarrow> Return (Ok (no_output\<lparr>out_actions := [SendTransport name source response]\<rparr>))
                | None \<Rightarrow>
                    let response = encode_handshake HandshakeResponse hid (rh_message handshake) in
                    sections_then (sessions_section (\<lambda>st w. store_responder_candidate E st name
                        (rh_session handshake) hid message response w)) (\<lambda>stored.
                      Return (Ok (no_output\<lparr>out_actions :=
                        if stored then [SendTransport name source response] else []\<rparr>))))))"

definition inbound_response_call ::
    "('hs, 'ts, 'w) runtime \<Rightarrow> bytes \<Rightarrow> bytes \<Rightarrow> socket_addr
      \<Rightarrow> (('net, 'hs, 'ts, 'w) shared, ('net engine_error, engine_output) result) sections" where
  "inbound_response_call E hid message source =
    sections_then (sessions_section (\<lambda>st w. finalize_initiator E st hid message w)) (\<lambda>r.
      case r of
        Inl e \<Rightarrow> Return (Err (EngineNoise e))
      | Inr None \<Rightarrow> Return (Ok no_output)
      | Inr (Some (name, confirmation)) \<Rightarrow>
          sections_then (record_section E (\<lambda>st t. record_keepalive st name source t)) (\<lambda>_.
            Return (Ok \<lparr>out_actions = [SendTransport name source confirmation],
                        out_events = [HandshakeCompleted name source Initiator]\<rparr>)))"

definition decrypt_section ::
    "('hs, 'ts, 'w) runtime \<Rightarrow> bytes \<Rightarrow> u64 \<Rightarrow> bytes \<Rightarrow> instant
      \<Rightarrow> (('net, 'hs, 'ts, 'w) shared, (noise_error, decrypted_transport option) result) sections" where
  "decrypt_section E sid counter ct now = sessions_section (\<lambda>st w.
    case decrypt_transport E st sid counter ct now of (r, st') \<Rightarrow> (r, st', w))"

definition after_decrypt ::
    "('hs, 'ts, 'w) runtime \<Rightarrow> socket_addr \<Rightarrow> instant \<Rightarrow> (noise_error, decrypted_transport option) result
      \<Rightarrow> (('net, 'hs, 'ts, 'w) shared, ('net engine_error, engine_output) result) sections" where
  "after_decrypt E source now r =
    (case r of
      Inl e \<Rightarrow> Return (Err (EngineNoise e))
    | Inr None \<Rightarrow> Return (Ok no_output)
    | Inr (Some d) \<Rightarrow>
        let name = dt_peer_name d;
            events = (if dt_promoted d then [HandshakeCompleted name source Responder] else [])
        in
        (case dt_msg_type d of
           Keepalive \<Rightarrow>
             sections_then (record_section E (\<lambda>st t. record_keepalive st name source t)) (\<lambda>_.
               if dt_payload d = KEEPALIVE_PROBE_PAYLOAD then
                 sections_then (encrypt_section E name Keepalive KEEPALIVE_ACK_PAYLOAD now) (\<lambda>r2.
                   case r2 of
                     Inl e \<Rightarrow> Return (Err (EngineNoise e))
                   | Inr ack \<Rightarrow>
                       Return (Ok \<lparr>out_actions = (case ack of None \<Rightarrow> [] | Some a \<Rightarrow> [SendTransport name source a]),
                                   out_events = events\<rparr>))
               else Return (Ok \<lparr>out_actions = [], out_events = events\<rparr>))
         | Data \<Rightarrow>
             sections_then (record_section E (\<lambda>st t. record_rx st name source (length (dt_payload d)) t)) (\<lambda>_.
               case ipv4_parse (dt_payload d) of
                 Inl e \<Rightarrow> Return (Err (EnginePacket e))
               | Inr _ \<Rightarrow>
                   Return (Ok \<lparr>out_actions = [WriteIpPacket name source (dt_payload d)],
                               out_events = events\<rparr>))))"

definition inbound_transport_call ::
    "('hs, 'ts, 'w) runtime \<Rightarrow> bytes \<Rightarrow> u64 \<Rightarrow> bytes \<Rightarrow> socket_addr \<Rightarrow> instant
      \<Rightarrow> (('net, 'hs, 'ts, 'w) shared, ('net engine_error, engine_output) result) sections" where
  "inbound_transport_call E sid counter ct source now =
    sections_then (decrypt_section E sid counter ct now) (after_decrypt E source now)"

definition inbound_call ::
    "('hs, 'ts, 'w) runtime \<Rightarrow> 'net router \<Rightarrow> bytes \<Rightarrow> bytes \<Rightarrow> socket_addr \<Rightarrow> instant
      \<Rightarrow> (('net, 'hs, 'ts, 'w) shared, ('net engine_error, engine_output) result) sections" where
  "inbound_call E R k frame source now =
    (case decode_packet frame of
       None \<Rightarrow> Return (Ok no_output)
     | Some (PHandshake HandshakeInit hid message) \<Rightarrow> inbound_init_call E R k hid message source
     | Some (PHandshake HandshakeResponse hid message) \<Rightarrow> inbound_response_call E hid message source
     | Some (PHandshake Transport _ _) \<Rightarrow> Return (Ok no_output)
     | Some (PTransport sid counter ct) \<Rightarrow> inbound_transport_call E sid counter ct source now)"

definition update_call ::
    "'net router \<Rightarrow> string \<Rightarrow> socket_addr
      \<Rightarrow> (('net, 'hs, 'ts, 'w) shared, ('net engine_error, bool) result) sections" where
  "update_call R name endpoint =
    (if \<not> usable_peer_endpoint endpoint then Return (Err (InvalidPeerEndpoint endpoint))
     else
       case router_peer R name of
         None \<Rightarrow> Return (Err (UnknownPeer name))
       | Some p \<Rightarrow>
           sections_then (read_section (\<lambda>en. configured_endpoint_of en p)) (\<lambda>previous.
             if previous = endpoint then Return (Ok False)
             else
               sections_then (locked (\<lambda>(en, w).
                   ((), (en\<lparr>resolved_endpoints := hm_insert name endpoint (resolved_endpoints en)\<rparr>, w)))) (\<lambda>_.
               sections_then (peers_section (\<lambda>st. clear_endpoint st name)) (\<lambda>_.
               sections_then (invalidate_section name) (\<lambda>_. Return (Ok True))))))"

definition initiate_call ::
    "('hs, 'ts, 'w) runtime \<Rightarrow> 'net router \<Rightarrow> bytes \<Rightarrow> string \<Rightarrow> instant
      \<Rightarrow> (('net, 'hs, 'ts, 'w) shared, ('net engine_error, engine_output) result) sections" where
  "initiate_call E R k name now =
    (case router_peer R name of
       None \<Rightarrow> Return (Err (UnknownPeer name))
     | Some p \<Rightarrow> push_initiation_call E k p now Return)"

definition keepalive_call ::
    "('hs, 'ts, 'w) runtime \<Rightarrow> 'net router \<Rightarrow> bytes \<Rightarrow> string \<Rightarrow> bytes \<Rightarrow> instant
      \<Rightarrow> (('net, 'hs, 'ts, 'w) shared, ('net engine_error, engine_output) result) sections" where
  "keepalive_call E R k name payload now =
    (case router_peer R name of
       None \<Rightarrow> Return (Err (UnknownPeer name))
     | Some p \<Rightarrow> encrypt_or_initiate_call E k p name Keepalive payload now)"

text \<open>The calls of the interface and what they return.\<close>

datatype engine_call =
    OutboundIp bytes instant
  | InboundTransport bytes socket_addr instant
  | TransportSent string nat
  | Invalidate string
  | UpdateEndpoint string socket_addr
  | Initiate string instant
  | KeepaliveTo string bytes instant
  | Statistics
  | SessionIdOf string
  | PendingWith string
  | ActiveWith string

datatype 'net call_result =
    Output "('net engine_error, engine_output) result"
  | Changed "('net engine_error, bool) result"
  | Recorded
  | Snapshot peer_state
  | SessionId "bytes option"
  | Answer bool

definition sections_map :: "('a \<Rightarrow> 'b) \<Rightarrow> ('s, 'a) sections \<Rightarrow> ('s, 'b) sections" where
  "sections_map f m = sections_then m (\<lambda>x. Return (f x))"

fun call_sections ::
    "'net libs \<Rightarrow> ('hs, 'ts, 'w) runtime \<Rightarrow> 'net router \<Rightarrow> bytes \<Rightarrow> engine_call
      \<Rightarrow> (('net, 'hs, 'ts, 'w) shared, 'net call_result) sections" where
  "call_sections L E R k (OutboundIp packet now) = sections_map Output (outbound_call L E R k packet now)"
| "call_sections L E R k (InboundTransport frame source now) =
    sections_map Output (inbound_call E R k frame source now)"
| "call_sections L E R k (TransportSent name n) =
    sections_map (\<lambda>_. Recorded) (peers_section (\<lambda>st. record_tx st name n))"
| "call_sections L E R k (Invalidate name) = sections_map (\<lambda>removed. Changed (Ok removed)) (invalidate_section name)"
| "call_sections L E R k (UpdateEndpoint name endpoint) = sections_map Changed (update_call R name endpoint)"
| "call_sections L E R k (Initiate name now) = sections_map Output (initiate_call E R k name now)"
| "call_sections L E R k (KeepaliveTo name payload now) =
    sections_map Output (keepalive_call E R k name payload now)"
| "call_sections L E R k Statistics = sections_map Snapshot (read_section engine_peer_stats)"
| "call_sections L E R k (SessionIdOf name) =
    sections_map SessionId (read_section (\<lambda>en. engine_active_session_id en name))"
| "call_sections L E R k (PendingWith name) = sections_map Answer (read_section (\<lambda>en. has_pending_handshake en name))"
| "call_sections L E R k (ActiveWith name) =
    sections_map Answer (sessions_section (\<lambda>st w. case has_active_session E st name w of (r, w') \<Rightarrow> (r, st, w')))"

text \<open>The same calls as the sequential definitions.\<close>

fun call_at_once ::
    "'net libs \<Rightarrow> ('hs, 'ts, 'w) runtime \<Rightarrow> engine_call \<Rightarrow> ('net, 'hs, 'ts, 'w) shared
      \<Rightarrow> 'net call_result \<times> ('net, 'hs, 'ts, 'w) shared" where
  "call_at_once L E (OutboundIp packet now) (en, w) =
    (case process_outbound_ip L E en packet now w of (r, s) \<Rightarrow> (Output r, s))"
| "call_at_once L E (InboundTransport frame source now) (en, w) =
    (case process_inbound_transport E en frame source now w of (r, s) \<Rightarrow> (Output r, s))"
| "call_at_once L E (TransportSent name n) (en, w) = (Recorded, (record_transport_sent en name n, w))"
| "call_at_once L E (Invalidate name) (en, w) =
    (case engine_invalidate_peer en name of (removed, en') \<Rightarrow> (Changed (Ok removed), (en', w)))"
| "call_at_once L E (UpdateEndpoint name endpoint) (en, w) =
    (case update_resolved_endpoint en name endpoint of (r, en') \<Rightarrow> (Changed r, (en', w)))"
| "call_at_once L E (Initiate name now) (en, w) =
    (case initiate_handshake E en name now w of (r, s) \<Rightarrow> (Output r, s))"
| "call_at_once L E (KeepaliveTo name payload now) (en, w) =
    (case create_keepalive E en name payload now w of (r, s) \<Rightarrow> (Output r, s))"
| "call_at_once L E Statistics (en, w) = (Snapshot (engine_peer_stats en), (en, w))"
| "call_at_once L E (SessionIdOf name) (en, w) = (SessionId (engine_active_session_id en name), (en, w))"
| "call_at_once L E (PendingWith name) (en, w) = (Answer (has_pending_handshake en name), (en, w))"
| "call_at_once L E (ActiveWith name) (en, w) =
    (case engine_has_active_session E en name w of (r, w') \<Rightarrow> (Answer r, (en, w')))"

subsection \<open>A call that runs alone\<close>

lemma alone_sections [simp]:
  "alone (sessions_section f) (en, w) =
    (case f (en_sessions en) w of (x, st', w') \<Rightarrow> (x, (en\<lparr>en_sessions := st'\<rparr>, w')))"
  "alone (encrypt_section E name m payload now) (en, w) =
    (case encrypt_for_peer E (en_sessions en) name m payload now of (r, st') \<Rightarrow> (r, (en\<lparr>en_sessions := st'\<rparr>, w)))"
  "alone (invalidate_section name) (en, w) =
    (case invalidate_peer (en_sessions en) name of (removed, st') \<Rightarrow> (removed, (en\<lparr>en_sessions := st'\<rparr>, w)))"
  "alone (record_section E f') (en, w) =
    (case instant_now E w of (t, w') \<Rightarrow> ((), (en\<lparr>en_peers := f' (en_peers en) t\<rparr>, w')))"
  "alone (peers_section g) (en, w) = ((), (en\<lparr>en_peers := g (en_peers en)\<rparr>, w))"
  "alone (read_section h) (en, w) = (h en, (en, w))"
  by (simp_all add: sessions_section_def encrypt_section_def invalidate_section_def record_section_def
      peers_section_def read_section_def split: prod.splits)

lemma alone_resolve [simp]: "alone (resolve_endpoint_call p) (en, w) = (resolve_endpoint en p, (en, w))"
  by (auto simp: resolve_endpoint_call_def resolve_endpoint_def Let_def split: option.splits)

lemma alone_initiate:
  "local_static en = k \<Longrightarrow> alone (initiate_peer_call E k p now) (en, w) =
    (case initiate_peer E en p now w of (r, en', w') \<Rightarrow> (r, (en', w')))"
  by (auto simp: initiate_peer_call_def initiate_peer_def split: option.splits prod.splits sum.splits)

lemma alone_push:
  assumes "local_static en = k" and "\<And>actions en' w'. alone (rest' actions) (en', w') = (rest en' actions, (en', w'))"
  shows "alone (push_initiation_call E k p now rest') (en, w) = push_initiation E en p now rest w"
  by (simp add: push_initiation_call_def push_initiation_def alone_initiate [OF assms(1)] assms(2) Let_def
      split: prod.splits sum.splits)

lemma alone_pushes [simp]:
  "local_static en = k \<Longrightarrow> alone (push_initiation_call E k p now Return) (en, w)
    = push_initiation E en p now (\<lambda>_ actions. actions) w"
  "local_static en = k \<Longrightarrow> alone (push_initiation_call E k p now (\<lambda>actions.
      sections_then (resolve_endpoint_call p) (\<lambda>resolved. Return (case resolved of
        None \<Rightarrow> actions | Some endpoint \<Rightarrow> actions @ [SendTransport name endpoint frame])))) (en, w)
    = push_initiation E en p now (\<lambda>en2 actions. case resolve_endpoint en2 p of
        None \<Rightarrow> actions | Some endpoint \<Rightarrow> actions @ [SendTransport name endpoint frame]) w"
  by (rule alone_push; simp)+

lemma alone_encrypt_or_initiate [simp]:
  "local_static en = k \<Longrightarrow> alone (encrypt_or_initiate_call E k p name m payload now) (en, w)
    = encrypt_or_initiate E en p name m payload now w"
  by (auto simp: encrypt_or_initiate_call_def encrypt_or_initiate_def Let_def case_prod_beta
      split: sum.splits option.splits)

lemma alone_outbound:
  "en_router en = R \<Longrightarrow> local_static en = k \<Longrightarrow>
    alone (outbound_call L E R k packet now) (en, w) = process_outbound_ip L E en packet now w"
  by (simp add: outbound_call_def process_outbound_ip_def Let_def split: sum.splits option.splits)

lemma router_peer_engine: "en_router en = R \<Longrightarrow> router_peer R name = engine_peer en name"
  by (simp add: router_peer_def engine_peer_def)

lemma alone_inbound_init:
  "en_router en = R \<Longrightarrow> local_static en = k \<Longrightarrow>
    alone (inbound_init_call E R k hid message source) (en, w) = inbound_init E en hid message source w"
  by (auto simp: inbound_init_call_def inbound_init_def router_peer_engine Let_def case_prod_beta split: option.splits)

lemma alone_inbound_response:
  "alone (inbound_response_call E hid message source) (en, w) = inbound_response E en hid message source w"
  by (auto simp: inbound_response_call_def inbound_response_def Let_def case_prod_beta split: sum.splits option.splits)

lemma alone_inbound_transport:
  "alone (inbound_transport_call E sid counter ct source now) (en, w)
    = inbound_transport E en sid counter ct source now w"
  by (auto simp: inbound_transport_call_def decrypt_section_def after_decrypt_def inbound_transport_def Let_def case_prod_beta
      split: sum.splits option.splits msg_type.splits)

lemma alone_inbound:
  "en_router en = R \<Longrightarrow> local_static en = k \<Longrightarrow>
    alone (inbound_call E R k frame source now) (en, w) = process_inbound_transport E en frame source now w"
  by (auto simp: inbound_call_def process_inbound_transport_def alone_inbound_init alone_inbound_response
      alone_inbound_transport split: option.splits parsed_packet.splits packet_kind.splits)

lemma alone_update:
  "en_router en = R \<Longrightarrow> alone (update_call R name endpoint) (en, w) =
    (case update_resolved_endpoint en name endpoint of (r, en') \<Rightarrow> (r, (en', w)))"
  by (auto simp: update_call_def update_resolved_endpoint_def router_peer_engine Let_def case_prod_beta
      split: option.splits)

lemma alone_map [simp]: "alone (sections_map f m) s = (case alone m s of (x, s') \<Rightarrow> (f x, s'))"
  by (simp add: sections_map_def)

subsection \<open>Threads\<close>

text \<open>The engine with its world, and for every thread its last call with what is left of it.\<close>

record ('net, 'hs, 'ts, 'w, 't) engine_threads =
  et_shared :: "('net, 'hs, 'ts, 'w) shared"
  et_calls :: "'t \<Rightarrow> (engine_call \<times> (('net, 'hs, 'ts, 'w) shared, 'net call_result) sections) option"

datatype 't engine_event = BeginOn 't engine_call | Continue 't

definition threads_of :: "('net, 'hs, 'ts) engine \<Rightarrow> 'w \<Rightarrow> ('net, 'hs, 'ts, 'w, 't) engine_threads" where
  "threads_of en w = \<lparr>et_shared = (en, w), et_calls = (\<lambda>_. None)\<rparr>"

fun returned :: "(engine_call \<times> ('s, 'r) sections) option \<Rightarrow> bool" where
  "returned None = True"
| "returned (Some (c, Return x)) = True"
| "returned (Some (c, Section f)) = False"

text \<open>\<open>None\<close>: the thread is not in a position to do this.\<close>

fun engine_event_step ::
    "'net libs \<Rightarrow> ('hs, 'ts, 'w) runtime \<Rightarrow> 't engine_event \<Rightarrow> ('net, 'hs, 'ts, 'w, 't) engine_threads
      \<Rightarrow> ('net, 'hs, 'ts, 'w, 't) engine_threads option" where
  "engine_event_step L E (BeginOn t c) s =
    (let en = fst (et_shared s) in
     if \<not> returned (et_calls s t) then None
     else Some (s\<lparr>et_calls := (et_calls s)(t \<mapsto> (c, call_sections L E (en_router en) (local_static en) c))\<rparr>))"
| "engine_event_step L E (Continue t) s =
    (case et_calls s t of
       Some (c, Section f) \<Rightarrow>
         (case f (et_shared s) of (m, shared) \<Rightarrow>
            Some (s\<lparr>et_shared := shared, et_calls := (et_calls s)(t \<mapsto> (c, m))\<rparr>))
     | _ \<Rightarrow> None)"

fun engine_events ::
    "'net libs \<Rightarrow> ('hs, 'ts, 'w) runtime \<Rightarrow> 't engine_event list \<Rightarrow> ('net, 'hs, 'ts, 'w, 't) engine_threads
      \<Rightarrow> ('net, 'hs, 'ts, 'w, 't) engine_threads option" where
  "engine_events L E [] s = Some s"
| "engine_events L E (e # es) s =
    (case engine_event_step L E e s of None \<Rightarrow> None | Some s' \<Rightarrow> engine_events L E es s')"

text \<open>A call of the engine that no other thread disturbs, taken lock by lock, has the result and the
effect of the definition of theory \<open>Engine\<close> that takes it as one step, so the two agree.\<close>

lemma call_alone_is_sequential:
  "alone (call_sections L E (en_router en) (local_static en) c) (en, w) = call_at_once L E c (en, w)"
  by (cases c) (auto simp: alone_outbound alone_inbound alone_update initiate_call_def keepalive_call_def
      initiate_handshake_def create_keepalive_def router_peer_engine engine_invalidate_peer_def
      engine_has_active_session_def
      record_transport_sent_def split: prod.splits option.splits)

subsection \<open>Properties\<close>

text \<open>A run: a thread receives the first packet of a new session.\<close>

definition demo_threads :: "(demo_net, demo_hs, bytes, nat, nat) engine_threads" where
  "demo_threads = threads_of demo_engine 0"

lemma demo_receives:
  "\<exists>s out. engine_events demo_libs demo_runtime
      [BeginOn 0 (InboundTransport demo_frame (V4 1 2) 10), Continue 0, Continue 0] demo_threads = Some s
    \<and> et_calls s 0 = Some (InboundTransport demo_frame (V4 1 2) 10, Return (Output (Ok out)))
    \<and> out_actions out = [WriteIpPacket ''a'' (V4 1 2) demo_packet]"
proof -
  let ?d = "decrypt_transport demo_runtime (en_sessions demo_engine) demo_sid 0 (demo_cipher Data demo_packet) 10"
  obtain q st1 where q: "?d = (q, st1)" by (cases ?d)
  with demo_delivery [of Data demo_packet] have "q = Ok (Some \<lparr>dt_peer_name = ''a'', dt_msg_type = Data,
      dt_payload = demo_packet, dt_promoted = True\<rparr>)" by (simp add: demo_engine_def)
  with q show ?thesis
    by (simp add: demo_threads_def threads_of_def sections_map_def inbound_call_def demo_frame_decodes
        inbound_transport_call_def decrypt_section_def after_decrypt_def sessions_section_def record_section_def
        then_assoc then_locked demo_packet_parses Let_def split: prod.splits)
qed

text \<open>C35: an endpoint update and a packet in flight do not commute. If a packet of the peer is
decrypted before the update and recorded after the update has forgotten the learned endpoint, the
update reports success, every session of the peer is gone, and yet the peer is reached at the old
endpoint; repeating the update finds it configured already and changes nothing.\<close>

theorem late_packet_undoes_update:
  assumes "t \<noteq> u" and "returned (et_calls s t)" and "returned (et_calls s u)" and "et_shared s = (en, w)"
    and "engine_peer en name = Some p" and "configured_endpoint_of en p \<noteq> new"
    and "usable_peer_endpoint old" and "usable_peer_endpoint new"
    and "decode_packet frame = Some (PTransport sid ctr ct)"
    and "decrypt_transport E (en_sessions en) sid ctr ct now = (Ok (Some d), st1)"
    and "dt_peer_name d = name" and "dt_msg_type d = Data" and "ipv4_parse (dt_payload d) = Ok v"
  shows "\<exists>s' en' w'. engine_events L E
      [BeginOn t (InboundTransport frame old now), Continue t,
       BeginOn u (UpdateEndpoint name new), Continue u, Continue u, Continue u,
       Continue t, Continue u] s = Some s'
    \<and> et_shared s' = (en', w')
    \<and> et_calls s' u = Some (UpdateEndpoint name new, Return (Changed (Ok True)))
    \<and> configured_endpoint_of en' p = new \<and> resolve_endpoint en' p = Some old
    \<and> (\<forall>a. slot_peer a = name \<longrightarrow> session_at (en_sessions en') a = None)
    \<and> update_resolved_endpoint en' name new = (Ok False, en')"
proof -
  obtain time w' where time: "instant_now E w = (time, w')" by (cases "instant_now E w")
  obtain removed st2 where inv: "invalidate_peer st1 name = (removed, st2)" by (cases "invalidate_peer st1 name")
  let ?en = "en\<lparr>en_sessions := st2,
      resolved_endpoints := hm_insert name new (resolved_endpoints en),
      en_peers := record_rx (clear_endpoint (en_peers en) name) name old (length (dt_payload d)) time\<rparr>"
  from assms(5) have name: "peer_name p = name" by (auto simp: engine_peer_def find_Some_iff)
  have same: "router_peer (en_router en) name = Some p" using assms(5) by (simp add: router_peer_def engine_peer_def)
  have conf: "configured_endpoint_of ?en p = new" by (simp add: configured_endpoint_of_def name)
  have "learned_endpoint (en_peers ?en) name = Some old" by simp
  then have old: "resolve_endpoint ?en p = Some old"
    using assms(7) by (simp add: resolve_cases name opt_filter_def)
  have gone: "session_at st2 a = None" if "slot_peer a = name" for a
    using inv that by (cases a) (auto simp: invalidate_peer_def)
  have "engine_peer ?en name = Some p" using assms(5) by (simp add: engine_peer_def)
  then have again: "update_resolved_endpoint ?en name new = (Ok False, ?en)"
    using conf assms(8) by (simp add: update_resolved_endpoint_def)
  let ?s = "s\<lparr>et_shared := (?en, w'), et_calls := (et_calls s)
      (t \<mapsto> (InboundTransport frame old now, Return (Output (Ok \<lparr>out_actions = [WriteIpPacket name old (dt_payload d)],
          out_events = (if dt_promoted d then [HandshakeCompleted name old Responder] else [])\<rparr>))),
       u \<mapsto> (UpdateEndpoint name new, Return (Changed (Ok True))))\<rparr>"
  have "engine_events L E [BeginOn t (InboundTransport frame old now), Continue t,
       BeginOn u (UpdateEndpoint name new), Continue u, Continue u, Continue u,
       Continue t, Continue u] s = Some ?s"
    using assms time inv same
    by (simp add: sections_map_def inbound_call_def inbound_transport_call_def decrypt_section_def after_decrypt_def
        update_call_def sessions_section_def record_section_def read_section_def peers_section_def invalidate_section_def
        then_assoc then_locked configured_endpoint_of_def fun_upd_twist)
  then show ?thesis using conf old gone again by (intro exI conjI) auto
qed

lemma demo_engine_peer:
  "\<exists>p. engine_peer demo_engine ''a'' = Some p \<and> configured_endpoint_of demo_engine p \<noteq> V4 5 6"
  by (simp add: demo_engine_def engine_start_def engine_peer_def configured_endpoint_of_def
      demo_router_def router_new_def demo_defs peer_from_config_def decode_key_def
      decode_psk_def endpoint_resolve_def endpoint_of_addr_def check_then_def reverse_len_def)

theorem late_packet_undoes_update_witness:
  "\<exists>(s :: (demo_net, demo_hs, bytes, nat, nat) engine_threads) en w p.
      et_shared s = (en, w) \<and> et_calls s 1 = Some (UpdateEndpoint ''a'' (V4 5 6), Return (Changed (Ok True)))
    \<and> configured_endpoint_of en p = V4 5 6 \<and> resolve_endpoint en p = Some (V4 1 2)"
proof -
  obtain p where p: "engine_peer demo_engine ''a'' = Some p" "configured_endpoint_of demo_engine p \<noteq> V4 5 6"
    using demo_engine_peer by blast
  let ?d = "decrypt_transport demo_runtime (en_sessions demo_engine) demo_sid 0 (demo_cipher Data demo_packet) 10"
  obtain q st1 where q: "?d = (q, st1)" by (cases ?d)
  with demo_delivery [of Data demo_packet] have "?d = (Ok (Some \<lparr>dt_peer_name = ''a'', dt_msg_type = Data,
      dt_payload = demo_packet, dt_promoted = True\<rparr>), st1)" by (simp add: demo_engine_def)
  from late_packet_undoes_update [of 0 1 demo_threads demo_engine 0 "''a''" p "V4 5 6" "V4 1 2", OF _ _ _ _ p _ _
      demo_frame_decodes this, of demo_packet demo_libs]
  show ?thesis
    by (simp add: demo_threads_def threads_of_def usable_peer_endpoint_def demo_packet_parses) blast
qed

end
