(* ===== verification/Engine_Runs.thy ===== *)
theory Engine_Runs
  imports Engine_Threads
begin

text \<open>
  What holds of the \<open>Engine\<close> of \<^verbatim>\<open>src/src/engine.rs\<close> in every run of threads that share it. Each
  section of each call keeps the invariant of the session manager and never revives a counter of a
  session that stays installed. So the deliveries of a whole run can be counted, and every delivery
  can be traced to the section of that run that decrypted it.
\<close>

subsection \<open>What one call of the manager changes\<close>

definition sm_call :: "('hs, 'ts, 'w) runtime \<Rightarrow> ('hs, 'ts) session_state \<Rightarrow> ('hs, 'ts) session_state \<Rightarrow> bool" where
  "sm_call E st st' \<longleftrightarrow> st' = st \<or> (\<forall>log. \<exists>log'. sm_step E (st, log) (st', log'))"

lemma sm_calls:
  "sm_call E st st"
  "encrypt_for_peer E st p m payload now = (r, st') \<Longrightarrow> sm_call E st st'"
  "decrypt_transport E st sid c ct now = (r1, st') \<Longrightarrow> sm_call E st st'"
  "cached_responder_response E st p hid request w = (resp, st', w') \<Longrightarrow> sm_call E st st'"
  "accept_inbound_initiation E st p hid passive_peer w = (ok, st', w') \<Longrightarrow> sm_call E st st'"
  "start_or_retry_handshake E st p k rk psk now w = (r, st', w') \<Longrightarrow> sm_call E st st'"
  "finalize_initiator E st hid response w = (r2, st', w') \<Longrightarrow> sm_call E st st'"
  "invalidate_peer st p = (removed, st') \<Longrightarrow> sm_call E st st'"
  unfolding sm_call_def by (blast intro: sm_step.intros)+

lemma sm_call_store:
  assumes "responder_respond E k rk psk hid msg w = (Ok rh, w1)"
    and "store_responder_candidate E st p (rh_session rh) hid request response w2 = (ok, st', w3)"
  shows "sm_call E st st'"
  using step_store [OF assms] unfolding sm_call_def by blast

text \<open>Only an identifier that is not in use is forgotten by the log.\<close>

lemma store_fresh:
  "store_responder_candidate E st p s hid request response w = (True, st', w') \<Longrightarrow> \<not> session_id_in_use st (session_id s)"
  by (auto simp: store_responder_candidate_def split: if_splits)

lemma finalize_fresh:
  assumes "finalize_initiator E st hid response w = (Ok (Some (p, frame)), st', w')"
  shows "\<not> session_id_in_use st (the (active_session_id st' p))"
  using assms
proof (cases rule: finalize_initiator_cases)
  case (completed q s frame' s' st1 st2)
  have "session_id s' = session_id s" using encrypt_keeps(1) [of E s Keepalive KEEPALIVE_PROBE_PAYLOAD] completed(5) by simp
  moreover have "q = p" "hm_get (sessions st2) p = Some s'"
    using completed(6,7) by (auto simp: install_active_session_def Let_def split: option.splits)
  ultimately show ?thesis
    using completed(3,4,8) by (simp add: active_session_id_def session_id_in_use_def)
qed simp_all

lemma sm_step_log:
  assumes "sm_step E (st, log) (st', log')" and "session_id_in_use st sid" and "(sid, c) \<in> log"
  shows "(sid, c) \<in> log'"
  using assms(1)
proof (cases rule: sm_step.cases)
  case step_decrypt
  with assms(3) show ?thesis by (auto simp: log_transport_def split: sum.splits option.splits)
next
  case step_store
  with assms(2,3) show ?thesis by (auto dest: store_fresh)
next
  case step_finalize
  with assms(2,3) show ?thesis by (auto dest: finalize_fresh split: sum.splits option.splits)
qed (use assms(3) in simp_all)

text \<open>Whatever log of deliveries the state covers, the next state covers one that has lost no entry of
an identifier in use.\<close>

definition sm_grows :: "('hs, 'ts) session_state \<Rightarrow> ('hs, 'ts) session_state \<Rightarrow> bool" where
  "sm_grows st st' \<longleftrightarrow> (\<forall>log. sm_inv st log \<longrightarrow>
    (\<exists>log'. sm_inv st' log' \<and> (\<forall>sid c. session_id_in_use st sid \<longrightarrow> (sid, c) \<in> log \<longrightarrow> (sid, c) \<in> log')))"

lemma sm_grows_refl [simp]: "sm_grows st st"
  by (auto simp: sm_grows_def)

lemma sm_call_grows:
  assumes "sm_call E st st'"
  shows "sm_grows st st'"
proof (cases "st' = st")
  case False
  show ?thesis unfolding sm_grows_def
  proof (intro allI impI)
    fix log
    assume inv: "sm_inv st log"
    from assms False obtain log' where "sm_step E (st, log) (st', log')" by (auto simp: sm_call_def)
    from sm_step_inv [OF this inv] sm_step_log [OF this]
    show "\<exists>log'. sm_inv st' log' \<and> (\<forall>sid c. session_id_in_use st sid \<longrightarrow> (sid, c) \<in> log \<longrightarrow> (sid, c) \<in> log')" by blast
  qed
qed simp

lemma sm_call_reachable: "sm_call E st st' \<Longrightarrow> sm_reachable E st log \<Longrightarrow> \<exists>log'. sm_reachable E st' log'"
  unfolding sm_call_def by (meson reachable.succ)

subsection \<open>Computations that keep a guarantee\<close>

text \<open>Every section of the computation keeps the guarantee, from whatever state other threads have
left, and its results have a property.\<close>

inductive sound :: "('s \<Rightarrow> 's \<Rightarrow> bool) \<Rightarrow> ('a \<Rightarrow> bool) \<Rightarrow> ('s, 'a) sections \<Rightarrow> bool" for G Q where
  sound_return: "Q x \<Longrightarrow> sound G Q (Return x)"
| sound_section: "(\<And>s m s'. f s = (m, s') \<Longrightarrow> G s s' \<and> sound G Q m) \<Longrightarrow> sound G Q (Section f)"

inductive_simps sound_simps [simp]: "sound G Q (Return x)" "sound G Q (Section f)"

lemma sound_sectionD: "sound G Q (Section f) \<Longrightarrow> f s = (m, s') \<Longrightarrow> G s s' \<and> sound G Q m"
  unfolding sound_simps(2) by blast

lemma sound_locked: "(\<And>s x s'. f s = (x, s') \<Longrightarrow> G s s' \<and> Q x) \<Longrightarrow> sound G Q (locked f)"
  by (auto simp: locked_def map_prod_def split: prod.splits)

lemma sound_then:
  assumes "sound G P m" and "\<And>x. P x \<Longrightarrow> sound G Q (k x)"
  shows "sound G Q (sections_then m k)"
  using assms(1) by (induction rule: sound.induct) (auto simp: assms(2) map_prod_def split: prod.splits)

lemma sound_mono: "sound G P m \<Longrightarrow> (\<And>x. P x \<Longrightarrow> Q x) \<Longrightarrow> sound G Q m"
  by (induction rule: sound.induct) auto

lemma sound_map: "sound G P m \<Longrightarrow> (\<And>x. P x \<Longrightarrow> Q (f x)) \<Longrightarrow> sound G Q (sections_map f m)"
  unfolding sections_map_def by (erule sound_then) simp

text \<open>The guarantee of the engine.\<close>

definition engine_keeps ::
    "('hs, 'ts, 'w) runtime \<Rightarrow> 'net router \<Rightarrow> bytes
      \<Rightarrow> ('net, 'hs, 'ts, 'w) shared \<Rightarrow> ('net, 'hs, 'ts, 'w) shared \<Rightarrow> bool" where
  "engine_keeps E R k s s' \<longleftrightarrow> (engine_inv E R k (fst s) \<longrightarrow>
    engine_inv E R k (fst s') \<and> sm_grows (en_sessions (fst s)) (en_sessions (fst s')))"

lemma keeps_call:
  assumes "sm_call E (en_sessions en) st'"
  shows "engine_keeps E R k (en, w) (en\<lparr>en_sessions := st'\<rparr>, w')"
  using sm_call_reachable [OF assms] sm_call_grows [OF assms] by (auto simp: engine_keeps_def engine_inv_def)

lemma keeps_other [simp]:
  "engine_keeps E R k (en, w) (en, w')"
  "engine_keeps E R k (en, w) (en\<lparr>en_peers := ps\<rparr>, w')"
  "engine_keeps E R k (en, w) (en\<lparr>resolved_endpoints := m\<rparr>, w')"
  by (simp_all add: engine_keeps_def engine_inv_def)

lemma sound_sessions:
  assumes "\<And>st w x st' w'. f st w = (x, st', w') \<Longrightarrow> sm_call E st st' \<and> Q x"
  shows "sound (engine_keeps E R k) Q (sessions_section f)"
  unfolding sessions_section_def
  by (rule sound_locked) (use assms in \<open>fastforce split: prod.splits intro: keeps_call\<close>)

lemma sound_plain:
  "(\<And>x. P1 x) \<Longrightarrow> sound (engine_keeps E R k) P1 (encrypt_section E name m payload now)"
  "(\<And>x. P2 x) \<Longrightarrow> sound (engine_keeps E R k) P2 (invalidate_section name)"
  "(\<And>x. P3 x) \<Longrightarrow> sound (engine_keeps E R k) P3 (record_section E g)"
  "(\<And>x. P3 x) \<Longrightarrow> sound (engine_keeps E R k) P3 (peers_section h)"
  "(\<And>x. P4 x) \<Longrightarrow> sound (engine_keeps E R k) P4 (read_section r)"
proof -
  show "sound (engine_keeps E R k) P1 (encrypt_section E name m payload now)" if "\<And>x. P1 x"
    unfolding encrypt_section_def by (rule sound_sessions) (auto simp: that dest: sm_calls(2) split: prod.splits)
  show "sound (engine_keeps E R k) P2 (invalidate_section name)" if "\<And>x. P2 x"
    unfolding invalidate_section_def by (rule sound_sessions) (auto simp: that dest: sm_calls(8) split: prod.splits)
qed (auto simp: record_section_def peers_section_def read_section_def intro!: sound_locked split: prod.splits)

text \<open>Nothing but the reception of a packet delivers one.\<close>

definition sends_only :: "engine_action list \<Rightarrow> bool" where
  "sends_only as \<longleftrightarrow> (\<forall>name source packet. WriteIpPacket name source packet \<notin> set as)"

definition output_sends :: "('net engine_error, engine_output) result \<Rightarrow> bool" where
  "output_sends r \<longleftrightarrow> (\<forall>out. r = Ok out \<longrightarrow> sends_only (out_actions out))"

lemma output_sends_simps [simp]:
  "output_sends (Err e)" "output_sends (Ok out) \<longleftrightarrow> sends_only (out_actions out)"
  "sends_only []" "sends_only (SendTransport n ep f # as) \<longleftrightarrow> sends_only as"
  "sends_only (as @ bs) \<longleftrightarrow> sends_only as \<and> sends_only bs"
  by (auto simp: output_sends_def sends_only_def)

lemma sound_resolve: "sound (engine_keeps E R k) (\<lambda>_. True) (resolve_endpoint_call p)"
  unfolding resolve_endpoint_call_def
  by (rule sound_then [OF sound_plain(5) [of "\<lambda>_. True"]]) (auto split: option.split intro: sound_plain)

lemma sound_initiate:
  "sound (engine_keeps E R k) (\<lambda>r. \<forall>a. r = Ok (Some a) \<longrightarrow> sends_only [a]) (initiate_peer_call E k' p now)"
proof -
  have start: "sound (engine_keeps E R k) (\<lambda>_. True) (sessions_section (\<lambda>st w.
      start_or_retry_handshake E st (peer_name p) k' (peer_public_key p) (peer_psk p) now w))"
    by (rule sound_sessions) (auto dest: sm_calls(6))
  show ?thesis
    unfolding initiate_peer_call_def
    by (rule sound_then [OF sound_resolve]) (auto split: option.split sum.split intro!: sound_then [OF start])
qed

lemma sound_push:
  assumes "\<And>as. sends_only as \<Longrightarrow> sound (engine_keeps E R k) sends_only (rest as)"
  shows "sound (engine_keeps E R k) output_sends (push_initiation_call E k' p now rest)"
  unfolding push_initiation_call_def
  by (rule sound_then [OF sound_initiate]) (auto split: option.split sum.split intro!: sound_then [OF assms])

lemma sound_encrypt_or_initiate:
  "sound (engine_keeps E R k) output_sends (encrypt_or_initiate_call E k' p name m payload now)"
proof -
  have plain: "sound (engine_keeps E R k) output_sends (push_initiation_call E k' p now Return)"
    by (rule sound_push) simp
  have send: "sound (engine_keeps E R k) output_sends (push_initiation_call E k' p now (\<lambda>actions.
      sections_then (resolve_endpoint_call p) (\<lambda>resolved. Return (case resolved of
        None \<Rightarrow> actions | Some endpoint \<Rightarrow> actions @ [SendTransport name endpoint frame]))))" for frame
    by (rule sound_push) (auto split: option.split intro!: sound_then [OF sound_resolve])
  have invalid: "sound (engine_keeps E R k) output_sends
      (sections_then (invalidate_section name) (\<lambda>_. push_initiation_call E k' p now Return))"
    by (rule sound_then [OF sound_plain(2) [of "\<lambda>_. True"] plain]) simp
  show ?thesis
    unfolding encrypt_or_initiate_call_def
    by (rule sound_then [OF sound_plain(1) [of "\<lambda>_. True"]]) (auto split: sum.split option.split intro: plain send invalid)
qed

lemma sound_outbound: "sound (engine_keeps E R k) output_sends (outbound_call L E R' k' packet now)"
  by (auto simp: outbound_call_def Let_def no_output_def split: sum.split option.split
      intro: sound_encrypt_or_initiate)

lemma sound_inbound_init: "sound (engine_keeps E R k) output_sends (inbound_init_call E R' k' hid message source)"
proof -
  let ?from = "\<lambda>d. \<forall>name rh. d = Some (name, rh) \<longrightarrow>
    (\<exists>rk psk w w'. responder_respond E k' rk psk hid message w = (Ok rh, w'))"
  have decode: "sound (engine_keeps E R k) ?from (locked (\<lambda>(en, w).
      case decode_handshake_init E k' hid message {} (routes R') w of (r, w') \<Rightarrow> (r, (en, w'))))"
    by (rule sound_locked) (use decode_handshake_init_Some [of E k' hid message "{}" "routes R'"] in
        \<open>fastforce split: prod.splits\<close>)
  have accept: "sound (engine_keeps E R k) (\<lambda>_. True)
      (sessions_section (\<lambda>st w. accept_inbound_initiation E st name hid unaddressed w))" for name unaddressed
    by (rule sound_sessions) (auto dest: sm_calls(5))
  have cached: "sound (engine_keeps E R k) (\<lambda>_. True)
      (sessions_section (\<lambda>st w. cached_responder_response E st name hid message w))" for name
    by (rule sound_sessions) (auto dest: sm_calls(4))
  have store: "sound (engine_keeps E R k) (\<lambda>_. True) (sessions_section (\<lambda>st w.
      store_responder_candidate E st name (rh_session rh) hid message response w))"
    if "responder_respond E k' rk psk hid message w = (Ok rh, w')" for name rh response rk psk w w'
    by (rule sound_sessions) (auto intro: sm_call_store [OF that])
  show ?thesis
    unfolding inbound_init_call_def
    by (rule sound_then [OF decode])
      (auto simp: no_output_def Let_def split: option.split
        intro!: sound_then [OF accept] sound_then [OF cached] sound_then [OF store])
qed

lemma sound_inbound_response: "sound (engine_keeps E R k) output_sends (inbound_response_call E hid message source)"
proof -
  have finalize: "sound (engine_keeps E R k) (\<lambda>_. True) (sessions_section (\<lambda>st w. finalize_initiator E st hid message w))"
    by (rule sound_sessions) (auto dest: sm_calls(7))
  show ?thesis
    unfolding inbound_response_call_def
    by (rule sound_then [OF finalize])
      (auto simp: no_output_def split: sum.split option.split
        intro!: sound_then [OF sound_plain(3) [of "\<lambda>_. True"]])
qed

text \<open>What the reception of a packet does after the section that decrypts it.\<close>

definition output_writes ::
    "(string \<Rightarrow> socket_addr \<Rightarrow> bytes \<Rightarrow> bool) \<Rightarrow> ('net engine_error, engine_output) result \<Rightarrow> bool" where
  "output_writes P r \<longleftrightarrow> (\<forall>out name source packet. r = Ok out \<longrightarrow>
    WriteIpPacket name source packet \<in> set (out_actions out) \<longrightarrow> P name source packet)"

lemma output_sends_writes: "output_sends r \<Longrightarrow> output_writes P r"
  by (auto simp: output_sends_def output_writes_def sends_only_def)

lemma sound_after_decrypt:
  assumes "\<And>d. r = Ok (Some d) \<Longrightarrow> dt_msg_type d = Data \<Longrightarrow> ipv4_parse (dt_payload d) = Ok (dt_payload d)
    \<Longrightarrow> P (dt_peer_name d) source (dt_payload d)"
  shows "sound (engine_keeps E R k) (output_writes P) (after_decrypt E source now r)"
proof (cases "\<exists>d. r = Ok (Some d)")
  case False
  then show ?thesis by (auto simp: after_decrypt_def no_output_def split: sum.split option.split intro!: output_sends_writes)
next
  case True
  then obtain d where d: "r = Ok (Some d)" ..
  show ?thesis
  proof (cases "dt_msg_type d")
    case Keepalive
    have "sound (engine_keeps E R k) (output_writes P)
        (sections_then (encrypt_section E name Keepalive KEEPALIVE_ACK_PAYLOAD now) (\<lambda>r2. case r2 of
            Inl e \<Rightarrow> Return (Err (EngineNoise e))
          | Inr ack \<Rightarrow> Return (Ok \<lparr>out_actions = (case ack of None \<Rightarrow> [] | Some a \<Rightarrow> [SendTransport name source a]),
              out_events = events\<rparr>)))" for name events
      by (rule sound_then [OF sound_plain(1) [of "\<lambda>_. True"]])
        (auto split: sum.split option.split intro!: output_sends_writes)
    with d Keepalive show ?thesis
      by (auto simp: after_decrypt_def Let_def output_writes_def intro!: sound_then [OF sound_plain(3) [of "\<lambda>_. True"]])
  next
    case Data
    with d assms [OF d] show ?thesis
      by (auto simp: after_decrypt_def Let_def output_writes_def ipv4_parse_Ok split: sum.split
          intro!: sound_then [OF sound_plain(3) [of "\<lambda>_. True"]])
  qed
qed

lemma transport_call:
  assumes "decode_packet frame = Some (PTransport sid ctr ct)"
  shows "call_sections L E R k (InboundTransport frame source now) = Section (\<lambda>(en, w).
    case decrypt_transport E (en_sessions en) sid ctr ct now of (r, st') \<Rightarrow>
      (sections_map Output (after_decrypt E source now r), (en\<lparr>en_sessions := st'\<rparr>, w)))"
  by (auto simp: sections_map_def inbound_call_def inbound_transport_call_def decrypt_section_def sessions_section_def
      assms then_assoc then_locked fun_eq_iff split: prod.splits)

text \<open>Every call keeps the guarantee, and only the reception of a transport packet hands a packet over.\<close>

definition is_transport :: "engine_call \<Rightarrow> bool" where
  "is_transport c \<longleftrightarrow> (\<exists>frame source now sid ctr ct.
    c = InboundTransport frame source now \<and> decode_packet frame = Some (PTransport sid ctr ct))"

definition call_sends :: "'net call_result \<Rightarrow> bool" where
  "call_sends x \<longleftrightarrow> (\<forall>r. x = Output r \<longrightarrow> output_sends r)"

lemma call_sends_simps [simp]:
  "call_sends (Output r) \<longleftrightarrow> output_sends r" "call_sends (Changed q)" "call_sends Recorded"
  "call_sends (Snapshot ps)" "call_sends (SessionId i)" "call_sends (Answer b)"
  by (simp_all add: call_sends_def)

lemma sound_update: "sound (engine_keeps E R k) (\<lambda>_. True) (update_call R' name endpoint)"
proof -
  have store: "sound (engine_keeps E R k) (\<lambda>_. True) (locked (\<lambda>(en, w).
      ((), (en\<lparr>resolved_endpoints := hm_insert name endpoint (resolved_endpoints en)\<rparr>, w))))"
    by (rule sound_locked) auto
  show ?thesis
    unfolding update_call_def
    by (auto split: option.split intro!: sound_then [OF sound_plain(5) [of "\<lambda>_. True"]] sound_then [OF store]
        sound_then [OF sound_plain(4) [of "\<lambda>_. True"]] sound_then [OF sound_plain(2) [of "\<lambda>_. True"]])
qed

lemma sound_quiet_call:
  assumes "\<not> is_transport c"
  shows "sound (engine_keeps E R k) call_sends (call_sections L E R' k' c)"
proof (cases c)
  case (OutboundIp packet now)
  then show ?thesis by (auto intro: sound_map [OF sound_outbound])
next
  case (InboundTransport frame source now)
  with assms have "sound (engine_keeps E R k) output_sends (inbound_call E R' k' frame source now)"
    by (auto simp: inbound_call_def is_transport_def no_output_def
        split: option.split parsed_packet.split packet_kind.split intro: sound_inbound_init sound_inbound_response)
  with InboundTransport show ?thesis by (auto intro: sound_map)
next
  case (TransportSent name n)
  then show ?thesis by (auto intro: sound_map [OF sound_plain(4) [of "\<lambda>_. True"]])
next
  case (Invalidate name)
  then show ?thesis by (auto intro: sound_map [OF sound_plain(2) [of "\<lambda>_. True"]])
next
  case (UpdateEndpoint name endpoint)
  then show ?thesis by (auto intro: sound_map [OF sound_update])
next
  case (Initiate name now)
  have "sound (engine_keeps E R k) output_sends (initiate_call E R' k' name now)"
    by (auto simp: initiate_call_def split: option.split intro: sound_push)
  with Initiate show ?thesis by (auto intro: sound_map)
next
  case (KeepaliveTo name payload now)
  have "sound (engine_keeps E R k) output_sends (keepalive_call E R' k' name payload now)"
    by (auto simp: keepalive_call_def split: option.split intro: sound_encrypt_or_initiate)
  with KeepaliveTo show ?thesis by (auto intro: sound_map)
next
  case Statistics
  then show ?thesis by (auto intro: sound_map [OF sound_plain(5) [of "\<lambda>_. True"]])
next
  case (SessionIdOf name)
  then show ?thesis by (auto intro: sound_map [OF sound_plain(5) [of "\<lambda>_. True"]])
next
  case (PendingWith name)
  then show ?thesis by (auto intro: sound_map [OF sound_plain(5) [of "\<lambda>_. True"]])
next
  case (ActiveWith name)
  have "sound (engine_keeps E R k) (\<lambda>_. True)
      (sessions_section (\<lambda>st w. case has_active_session E st name w of (r, w') \<Rightarrow> (r, st, w')))"
    by (rule sound_sessions) (auto intro: sm_calls(1) split: prod.splits)
  with ActiveWith show ?thesis by (auto intro: sound_map)
qed

lemma sound_call: "sound (engine_keeps E R k) (\<lambda>_. True) (call_sections L E R' k' c)"
proof (cases "is_transport c")
  case True
  then obtain frame source now sid ctr ct where c: "c = InboundTransport frame source now"
    and frame: "decode_packet frame = Some (PTransport sid ctr ct)" by (auto simp: is_transport_def)
  show ?thesis
    unfolding c transport_call [OF frame]
    by (auto split: prod.splits intro!: keeps_call sm_calls(3) sound_map [OF sound_after_decrypt [of _ "\<lambda>_ _ _. True"]])
next
  case False
  from sound_quiet_call [OF this] show ?thesis by (rule sound_mono) simp
qed

subsection \<open>The engine under threads\<close>

definition threads_inv ::
    "('hs, 'ts, 'w) runtime \<Rightarrow> 'net router \<Rightarrow> bytes \<Rightarrow> ('net, 'hs, 'ts, 'w, 't) engine_threads \<Rightarrow> bool" where
  "threads_inv E R k s \<longleftrightarrow> engine_inv E R k (fst (et_shared s)) \<and> finite (dom (et_calls s))
    \<and> (\<forall>t c m. et_calls s t = Some (c, m) \<longrightarrow> sound (engine_keeps E R k) (\<lambda>_. True) m)"

lemma step_BeginOn:
  assumes "engine_event_step L E (BeginOn t c) s = Some s'" and "engine_inv E R k (fst (et_shared s))"
  shows "s' = s\<lparr>et_calls := (et_calls s)(t \<mapsto> (c, call_sections L E R k c))\<rparr>" and "returned (et_calls s t)"
  using assms by (auto simp: Let_def engine_inv_def split: if_splits)

lemma step_Continue:
  assumes "engine_event_step L E (Continue t) s = Some s'"
  obtains c f m shared where "et_calls s t = Some (c, Section f)" and "f (et_shared s) = (m, shared)"
    and "s' = s\<lparr>et_shared := shared, et_calls := (et_calls s)(t \<mapsto> (c, m))\<rparr>"
  using assms by (auto split: option.splits sections.splits prod.splits)

lemma event_keeps:
  assumes inv: "threads_inv E R k s" and step: "engine_event_step L E e s = Some s'"
  shows "threads_inv E R k s'" and "engine_keeps E R k (et_shared s) (et_shared s')"
proof -
  from inv have shared: "engine_inv E R k (fst (et_shared s))" by (simp add: threads_inv_def)
  have "threads_inv E R k s' \<and> engine_keeps E R k (et_shared s) (et_shared s')"
  proof (cases e)
    case (BeginOn t c)
    with inv step_BeginOn [OF step [unfolded BeginOn] shared] show ?thesis
      by (auto simp: threads_inv_def sound_call engine_keeps_def)
  next
    case (Continue t)
    from step_Continue [OF step [unfolded Continue]] obtain c f m shared' where
      t: "et_calls s t = Some (c, Section f)" and f: "f (et_shared s) = (m, shared')"
      and s': "s' = s\<lparr>et_shared := shared', et_calls := (et_calls s)(t \<mapsto> (c, m))\<rparr>" .
    from inv t have "sound (engine_keeps E R k) (\<lambda>_. True) (Section f)" unfolding threads_inv_def by blast
    from sound_sectionD [OF this f] have "engine_keeps E R k (et_shared s) shared' \<and> sound (engine_keeps E R k) (\<lambda>_. True) m" .
    with inv shared show ?thesis by (auto simp: threads_inv_def s' engine_keeps_def)
  qed
  then show "threads_inv E R k s'" and "engine_keeps E R k (et_shared s) (et_shared s')" by blast+
qed

lemma threads_inv_start: "engine_inv E R k en \<Longrightarrow> threads_inv E R k (threads_of en w)"
  by (simp add: threads_inv_def threads_of_def)

interpretation engine_threads: state_machine "\<lambda>s. \<exists>en w. engine_inv E R k en \<and> s = threads_of en w"
    "\<lambda>s s'. \<exists>e. engine_event_step L E e s = Some s'" "threads_inv E R k" for L E R k
  by unfold_locales (auto intro: threads_inv_start event_keeps(1))

lemma events_snoc:
  "engine_events L E (es @ [e]) s = Option.bind (engine_events L E es s) (engine_event_step L E e)"
  by (induction es arbitrary: s) (auto split: option.splits)

lemma events_reachable:
  assumes "engine_inv E R k en" and "engine_events L E es (threads_of en w) = Some s"
  shows "reachable (\<lambda>s. \<exists>en w. engine_inv E R k en \<and> s = threads_of en w)
    (\<lambda>s s'. \<exists>e. engine_event_step L E e s = Some s') s"
  using assms(2)
proof (induction es arbitrary: s rule: rev_induct)
  case Nil
  with assms(1) show ?case by (auto intro: reachable.start)
next
  case (snoc e es)
  then show ?case by (auto simp: events_snoc bind_eq_Some_conv intro: reachable.succ)
qed

lemmas events_inv = engine_threads.reachable_inv [OF events_reachable]

subsection \<open>The section behind a delivery\<close>

text \<open>In the events there is a section of the thread's last call that decrypted the packet.\<close>

definition opened_in ::
    "'net libs \<Rightarrow> ('hs, 'ts, 'w) runtime \<Rightarrow> 'net router \<Rightarrow> bytes \<Rightarrow> ('net, 'hs, 'ts, 'w, 't) engine_threads
      \<Rightarrow> 't engine_event list \<Rightarrow> 't \<Rightarrow> bytes \<Rightarrow> socket_addr \<Rightarrow> instant \<Rightarrow> string \<Rightarrow> bytes \<Rightarrow> bool" where
  "opened_in L E R k start es t frame src now name packet \<longleftrightarrow> ipv4_parse packet = Ok packet
    \<and> (\<exists>sid ctr ct es1 es2 s1 s2 a ses. decode_packet frame = Some (PTransport sid ctr ct)
      \<and> es = es1 @ Continue t # es2 \<and> (\<forall>c. BeginOn t c \<notin> set es2)
      \<and> engine_events L E es1 start = Some s1
      \<and> et_calls s1 t = Some (InboundTransport frame src now, call_sections L E R k (InboundTransport frame src now))
      \<and> engine_event_step L E (Continue t) s1 = Some s2
      \<and> session_at (en_sessions (fst (et_shared s1))) a = Some ses \<and> \<not> is_expired ses now
      \<and> session_id ses = sid \<and> slot_peer a = name \<and> would_accept (replay ses) ctr
      \<and> ts_read E (transport ses) ctr ct (length ct - AEAD_TAG_SIZE) = Ok (encode_transport_plaintext Data packet)
      \<and> (\<forall>b ses'. session_at (en_sessions (fst (et_shared s2))) b = Some ses' \<longrightarrow> session_id ses' = sid
            \<longrightarrow> \<not> would_accept (replay ses') ctr))"

lemma opened_later:
  assumes "opened_in L E R k start es t frame src now name packet" and "\<forall>c. e \<noteq> BeginOn t c"
  shows "opened_in L E R k start (es @ [e]) t frame src now name packet"
proof -
  have "es @ [e] = es1 @ Continue t # (es2 @ [e]) \<and> (\<forall>c. BeginOn t c \<notin> set (es2 @ [e]))"
    if "es = es1 @ Continue t # es2" "\<forall>c. BeginOn t c \<notin> set es2" for es1 es2
    using that assms(2) by auto
  with assms(1) show ?thesis unfolding opened_in_def by blast
qed

text \<open>After a packet was opened no session takes its counter again.\<close>

lemma opened_refused:
  assumes inv: "sm_inv st log" and d: "decrypt_transport E st sid ctr ct now = (Ok (Some d), st')"
    and "session_at st' b = Some ses" and "session_id ses = sid"
  shows "\<not> would_accept (replay ses) ctr"
proof -
  from decrypt_transport_inv [OF inv d] have "sm_inv st' (insert (sid, ctr) log)" by (simp add: log_transport_def)
  with assms(3) have "covers (insert (sid, ctr) log) ses" by (auto simp: sm_inv_def)
  with assms(4) show ?thesis by (auto simp: covers_def dest: would_accept_fresh)
qed

lemma opened_now:
  assumes run: "engine_events L E es start = Some s1" and inv: "threads_inv E R k s1"
    and call: "et_calls s1 t = Some (InboundTransport frame src now, call_sections L E R k (InboundTransport frame src now))"
    and frame: "decode_packet frame = Some (PTransport sid ctr ct)"
    and step: "engine_event_step L E (Continue t) s1 = Some s2"
    and d: "decrypt_transport E (en_sessions (fst (et_shared s1))) sid ctr ct now = (Ok (Some d), st')"
    and data: "dt_msg_type d = Data" and parse: "ipv4_parse (dt_payload d) = Ok (dt_payload d)"
  shows "opened_in L E R k start (es @ [Continue t]) t frame src now (dt_peer_name d) (dt_payload d)"
proof -
  obtain en w where sh: "et_shared s1 = (en, w)" by (cases "et_shared s1")
  from inv obtain log where "sm_reachable E (en_sessions en) log" by (auto simp: threads_inv_def engine_inv_def sh)
  then have sm: "sm_inv (en_sessions en) log" by (rule sm_reachable_inv)
  then have wf: "sm_wf (en_sessions en)" by (simp add: sm_inv_def)
  from d have d': "decrypt_transport E (en_sessions en) sid ctr ct now = (Ok (Some d), st')" by (simp add: sh)
  from decrypt_delivery [OF wf d'] obtain a ses where a: "session_at (en_sessions en) a = Some ses" "\<not> is_expired ses now"
    "session_id ses = sid" "slot_peer a = dt_peer_name d" "would_accept (replay ses) ctr"
    "ts_read E (transport ses) ctr ct (length ct - AEAD_TAG_SIZE) = Ok (encode_transport_plaintext Data (dt_payload d))"
    by (auto simp: data)
  have "en_sessions (fst (et_shared s2)) = st'"
    using step by (simp add: call transport_call [OF frame] sh d' del: call_sections.simps) auto
  with opened_refused [OF sm d'] have "\<forall>b ses'. session_at (en_sessions (fst (et_shared s2))) b = Some ses' \<longrightarrow>
      session_id ses' = sid \<longrightarrow> \<not> would_accept (replay ses') ctr" by blast
  with a run call frame step parse show ?thesis
    unfolding opened_in_def sh by (intro conjI exI [of _ sid] exI [of _ ctr] exI [of _ ct] exI [of _ es]
        exI [of _ "[]"] exI [of _ s1] exI [of _ s2] exI [of _ a] exI [of _ ses]) (auto simp: sh)
qed

text \<open>What a call has left is either all of it or a computation whose deliveries were opened.\<close>

definition traced ::
    "'net libs \<Rightarrow> ('hs, 'ts, 'w) runtime \<Rightarrow> 'net router \<Rightarrow> bytes \<Rightarrow> ('net, 'hs, 'ts, 'w, 't) engine_threads
      \<Rightarrow> 't engine_event list \<Rightarrow> 't \<Rightarrow> engine_call \<Rightarrow> 'net call_result \<Rightarrow> bool" where
  "traced L E R k start es t c x \<longleftrightarrow> (\<forall>out name src packet. x = Output (Ok out) \<longrightarrow>
    WriteIpPacket name src packet \<in> set (out_actions out) \<longrightarrow>
    (\<exists>frame now. c = InboundTransport frame src now \<and> opened_in L E R k start es t frame src now name packet))"

lemma call_sends_traced: "call_sends x \<Longrightarrow> traced L E R k start es t c x"
  by (auto simp: call_sends_def traced_def output_sends_def sends_only_def)

lemma traced_later:
  assumes "traced L E R k start es t c x" and e: "\<forall>c. e \<noteq> BeginOn t c"
  shows "traced L E R k start (es @ [e]) t c x"
  unfolding traced_def
proof (intro allI impI)
  fix out name src packet
  assume "x = Output (Ok out)" and "WriteIpPacket name src packet \<in> set (out_actions out)"
  with assms(1) obtain frame now where "c = InboundTransport frame src now"
    and "opened_in L E R k start es t frame src now name packet" unfolding traced_def by metis
  from this(1) opened_later [OF this(2) e]
  show "\<exists>frame now. c = InboundTransport frame src now \<and> opened_in L E R k start (es @ [e]) t frame src now name packet"
    by (intro exI conjI)
qed

lemma traced_transport:
  assumes "engine_events L E es start = Some s1" and "threads_inv E R k s1"
    and call: "et_calls s1 t = Some (c, call_sections L E R k c)" and c: "is_transport c"
    and step: "engine_event_step L E (Continue t) s1 = Some s2" and m: "et_calls s2 t = Some (c, m)"
  shows "sound (engine_keeps E R k) (traced L E R k start (es @ [Continue t]) t c) m"
proof -
  from c obtain frame source now sid ctr ct where c: "c = InboundTransport frame source now"
    and frame: "decode_packet frame = Some (PTransport sid ctr ct)" by (auto simp: is_transport_def)
  obtain en w where sh: "et_shared s1 = (en, w)" by (cases "et_shared s1")
  obtain r st' where d: "decrypt_transport E (en_sessions en) sid ctr ct now = (r, st')" by fastforce
  from step_Continue [OF step] call obtain f m' shared where "Section f = call_sections L E R k c"
    and "f (et_shared s1) = (m', shared)" and "s2 = s1\<lparr>et_shared := shared, et_calls := (et_calls s1)(t \<mapsto> (c, m'))\<rparr>"
    by (metis option.inject prod.inject)
  with m have m: "m = sections_map Output (after_decrypt E source now r)"
    unfolding c transport_call [OF frame] by (simp add: sh d)
  have "sound (engine_keeps E R k) (output_writes (\<lambda>name src packet. src = source
      \<and> opened_in L E R k start (es @ [Continue t]) t frame src now name packet)) (after_decrypt E source now r)"
    by (rule sound_after_decrypt) (use opened_now [OF assms(1,2) call [unfolded c] frame step] d sh in auto)
  then show ?thesis
    unfolding m by (rule sound_map) (auto simp: traced_def output_writes_def c)
qed

lemma calls_traced:
  assumes inv: "engine_inv E R k en0" and "engine_events L E es (threads_of en0 w0) = Some s"
    and "et_calls s t = Some (c, m)"
  shows "m = call_sections L E R k c \<or> sound (engine_keeps E R k) (traced L E R k (threads_of en0 w0) es t c) m"
  using assms(2,3)
proof (induction es arbitrary: s t c m rule: rev_induct)
  case Nil
  then show ?case by (auto simp: threads_of_def)
next
  case (snoc e es)
  let ?T = "\<lambda>es. traced L E R k (threads_of en0 w0) es t c"
  from snoc.prems(1) obtain s1 where s1: "engine_events L E es (threads_of en0 w0) = Some s1"
    and step: "engine_event_step L E e s1 = Some s" by (auto simp: events_snoc bind_eq_Some_conv)
  have inv1: "threads_inv E R k s1" by (rule events_inv [OF inv s1])
  then have shared: "engine_inv E R k (fst (et_shared s1))" by (simp add: threads_inv_def)
  have later: "m = call_sections L E R k c \<or> sound (engine_keeps E R k) (?T (es @ [e])) m"
    if "et_calls s1 t = Some (c, m)" "\<forall>c. e \<noteq> BeginOn t c"
    using snoc.IH [OF s1 that(1)] that(2) by (auto intro: sound_mono traced_later)
  show ?case
  proof (cases e)
    case (BeginOn u c')
    from step_BeginOn(1) [OF step [unfolded BeginOn] shared] snoc.prems(2) later BeginOn show ?thesis
      by (auto split: if_splits)
  next
    case (Continue u)
    from step_Continue [OF step [unfolded Continue]] obtain c' f m' shared' where
      u: "et_calls s1 u = Some (c', Section f)" and f: "f (et_shared s1) = (m', shared')"
      and s: "s = s1\<lparr>et_shared := shared', et_calls := (et_calls s1)(u \<mapsto> (c', m'))\<rparr>" .
    show ?thesis
    proof (cases "t = u")
      case False
      with later Continue snoc.prems(2) show ?thesis by (simp add: s)
    next
      case t: True
      with snoc.prems(2) have c: "c' = c" "m' = m" by (simp_all add: s)
      from snoc.IH [OF s1 u] have "sound (engine_keeps E R k) (?T (es @ [e])) m"
      proof
        assume all: "Section f = call_sections L E R k c'"
        show ?thesis
        proof (cases "is_transport c")
          case True
          from u t c all have "et_calls s1 t = Some (c, call_sections L E R k c)" by simp
          from traced_transport [OF s1 inv1 this True] step snoc.prems(2) Continue t show ?thesis by simp
        next
          case False
          from sound_quiet_call [OF False] all c have "sound (engine_keeps E R k) call_sends (Section f)" by metis
          from sound_sectionD [OF this f] c show ?thesis by (auto intro: sound_mono call_sends_traced)
        qed
      next
        assume "sound (engine_keeps E R k) (traced L E R k (threads_of en0 w0) es u c') (Section f)"
        from sound_sectionD [OF this f] c t Continue show ?thesis by (auto intro: sound_mono traced_later)
      qed
      then show ?thesis ..
    qed
  qed
qed

subsection \<open>Counting the deliveries of a run\<close>

definition is_write :: "engine_action \<Rightarrow> bool" where
  "is_write a \<longleftrightarrow> (case a of WriteIpPacket name source packet \<Rightarrow> True | _ \<Rightarrow> False)"

text \<open>The result of the call is a packet for the tunnel interface, received under this session
identifier and this counter.\<close>

fun hands_over :: "bytes \<Rightarrow> u64 \<Rightarrow> engine_call \<Rightarrow> 'net call_result \<Rightarrow> bool" where
  "hands_over sid ctr (InboundTransport frame source now) (Output (Inr out)) =
    ((case decode_packet frame of
        Some (PTransport sid' ctr' ct) \<Rightarrow> sid' = sid \<and> ctr' = ctr
      | _ \<Rightarrow> False)
     \<and> list_ex is_write (out_actions out))"
| "hands_over sid ctr c x = False"

fun has_handed_over :: "bytes \<Rightarrow> u64 \<Rightarrow> (engine_call \<times> ('s, 'net call_result) sections) option \<Rightarrow> bool" where
  "has_handed_over sid ctr (Some (c, Return x)) = hands_over sid ctr c x"
| "has_handed_over sid ctr call = False"

text \<open>The events that complete such a call, and those that install the identifier.\<close>

fun hand_overs ::
    "'net libs \<Rightarrow> ('hs, 'ts, 'w) runtime \<Rightarrow> bytes \<Rightarrow> u64 \<Rightarrow> 't engine_event list
      \<Rightarrow> ('net, 'hs, 'ts, 'w, 't) engine_threads \<Rightarrow> nat" where
  "hand_overs L E sid ctr [] s = 0"
| "hand_overs L E sid ctr (e # es) s =
    (case engine_event_step L E e s of
       None \<Rightarrow> 0
     | Some s' \<Rightarrow>
         (case e of
            Continue t \<Rightarrow> if has_handed_over sid ctr (et_calls s' t) then 1 else 0
          | BeginOn t c \<Rightarrow> 0) + hand_overs L E sid ctr es s')"

fun installations ::
    "'net libs \<Rightarrow> ('hs, 'ts, 'w) runtime \<Rightarrow> bytes \<Rightarrow> 't engine_event list
      \<Rightarrow> ('net, 'hs, 'ts, 'w, 't) engine_threads \<Rightarrow> nat" where
  "installations L E sid [] s = 0"
| "installations L E sid (e # es) s =
    (case engine_event_step L E e s of
       None \<Rightarrow> 0
     | Some s' \<Rightarrow>
         (if \<not> session_id_in_use (en_sessions (fst (et_shared s))) sid
             \<and> session_id_in_use (en_sessions (fst (et_shared s'))) sid then 1 else 0)
         + installations L E sid es s')"

text \<open>A call that may still hand over a packet it has opened under this identifier and counter.\<close>

definition armed ::
    "'net libs \<Rightarrow> ('hs, 'ts, 'w) runtime \<Rightarrow> 'net router \<Rightarrow> bytes \<Rightarrow> bytes \<Rightarrow> u64
      \<Rightarrow> (engine_call \<times> (('net, 'hs, 'ts, 'w) shared, 'net call_result) sections) option \<Rightarrow> bool" where
  "armed L E R k sid ctr call \<longleftrightarrow> \<not> returned call \<and> (\<exists>c m. call = Some (c, m) \<and> m \<noteq> call_sections L E R k c
    \<and> \<not> sound (engine_keeps E R k) (\<lambda>x. \<not> hands_over sid ctr c x) m)"

text \<open>What the open calls and the window of the session still allow.\<close>

definition unseen :: "('hs, 'ts) session_state \<Rightarrow> bytes \<Rightarrow> u64 \<Rightarrow> delivery_log \<Rightarrow> nat" where
  "unseen st sid ctr log = of_bool (session_id_in_use st sid \<and> (sid, ctr) \<notin> log)"

definition owed ::
    "'net libs \<Rightarrow> ('hs, 'ts, 'w) runtime \<Rightarrow> 'net router \<Rightarrow> bytes \<Rightarrow> bytes \<Rightarrow> u64
      \<Rightarrow> ('net, 'hs, 'ts, 'w, 't) engine_threads \<Rightarrow> delivery_log \<Rightarrow> nat" where
  "owed L E R k sid ctr s log = card {t. armed L E R k sid ctr (et_calls s t)}
    + unseen (en_sessions (fst (et_shared s))) sid ctr log"

lemma hands_over_returned: "has_handed_over sid ctr call \<Longrightarrow> returned call"
  by (cases "(sid, ctr, call)" rule: has_handed_over.cases) simp_all

lemma not_armed_returned: "returned call \<Longrightarrow> \<not> armed L E R k sid ctr call"
  by (simp add: armed_def)

lemma not_armed_quiet:
  assumes "sound (engine_keeps E R k) (\<lambda>x. \<not> hands_over sid ctr c x) m"
  shows "\<not> armed L E R k sid ctr (Some (c, m))" and "\<not> has_handed_over sid ctr (Some (c, m))"
proof -
  show "\<not> armed L E R k sid ctr (Some (c, m))" using assms by (simp add: armed_def)
  show "\<not> has_handed_over sid ctr (Some (c, m))"
    using assms by (cases m) auto
qed

lemma hand_over_or_armed:
  "of_bool (has_handed_over sid ctr call) + of_bool (armed L E R k sid ctr call) \<le> (1 :: nat)"
  using hands_over_returned [of sid ctr call] not_armed_returned [of call L E R k sid ctr] by auto

text \<open>A section that delivers nothing itself leaves the counter as seen as it was.\<close>

lemma keeps_unseen:
  assumes "engine_keeps E R k s s'" and "engine_inv E R k (fst s)" and "sm_inv (en_sessions (fst s)) log"
  shows "\<exists>log'. sm_inv (en_sessions (fst s')) log' \<and> unseen (en_sessions (fst s')) sid ctr log'
    \<le> unseen (en_sessions (fst s)) sid ctr log
      + of_bool (\<not> session_id_in_use (en_sessions (fst s)) sid \<and> session_id_in_use (en_sessions (fst s')) sid)"
proof -
  from assms obtain log' where "sm_inv (en_sessions (fst s')) log'"
    and "session_id_in_use (en_sessions (fst s)) sid \<longrightarrow> (sid, ctr) \<in> log \<longrightarrow> (sid, ctr) \<in> log'"
    unfolding engine_keeps_def sm_grows_def by blast
  then show ?thesis by (intro exI [of _ log']) (auto simp: unseen_def)
qed

text \<open>The section that opens the packet.\<close>

lemma opening_unseen:
  assumes inv: "sm_inv st log" and d: "decrypt_transport E st sid ctr ct now = (Ok (Some d), st')"
  shows "sm_inv st' (insert (sid, ctr) log)" and "unseen st sid ctr log = 1" and "unseen st' sid ctr (insert (sid, ctr) log) = 0"
proof -
  from decrypt_transport_inv [OF inv d] show "sm_inv st' (insert (sid, ctr) log)" by (simp add: log_transport_def)
  from decrypt_transport_inv [OF inv d] have new: "(sid, ctr) \<notin> log" by simp
  from inv have wf: "sm_wf st" by (simp add: sm_inv_def)
  from decrypt_delivery [OF wf d] session_id_in_use_iff [OF wf] have "session_id_in_use st sid" by blast
  with new show "unseen st sid ctr log = 1" by (simp add: unseen_def)
qed (simp add: unseen_def)

lemma card_at: "finite S \<Longrightarrow> card S = card (S - {x}) + of_bool (x \<in> S)"
  using card.remove [of S x] by auto

lemma continue_pays:
  assumes inv: "threads_inv E R k s" and step: "engine_event_step L E (Continue u) s = Some s'"
    and log: "sm_inv (en_sessions (fst (et_shared s))) log"
  shows "\<exists>log'. sm_inv (en_sessions (fst (et_shared s'))) log'
    \<and> of_bool (has_handed_over sid ctr (et_calls s' u)) + of_bool (armed L E R k sid ctr (et_calls s' u))
        + unseen (en_sessions (fst (et_shared s'))) sid ctr log'
      \<le> of_bool (armed L E R k sid ctr (et_calls s u)) + unseen (en_sessions (fst (et_shared s))) sid ctr log
        + of_bool (\<not> session_id_in_use (en_sessions (fst (et_shared s))) sid
            \<and> session_id_in_use (en_sessions (fst (et_shared s'))) sid)"
proof -
  from inv have shared: "engine_inv E R k (fst (et_shared s))" by (simp add: threads_inv_def)
  from step_Continue [OF step] obtain c f m shared' where
    u: "et_calls s u = Some (c, Section f)" and f: "f (et_shared s) = (m, shared')"
    and s': "s' = s\<lparr>et_shared := shared', et_calls := (et_calls s)(u \<mapsto> (c, m))\<rparr>" .
  let ?quiet = "\<lambda>m. sound (engine_keeps E R k) (\<lambda>x. \<not> hands_over sid ctr c x) m"
  obtain log1 where log1: "sm_inv (en_sessions (fst (et_shared s'))) log1"
    and unseen1: "unseen (en_sessions (fst (et_shared s'))) sid ctr log1
      \<le> unseen (en_sessions (fst (et_shared s))) sid ctr log
        + of_bool (\<not> session_id_in_use (en_sessions (fst (et_shared s))) sid
            \<and> session_id_in_use (en_sessions (fst (et_shared s'))) sid)"
    using keeps_unseen [OF event_keeps(2) [OF inv step] shared log] by blast
  from inv u have all: "sound (engine_keeps E R k) (\<lambda>_. True) (Section f)" unfolding threads_inv_def by blast
  consider (armed) "armed L E R k sid ctr (et_calls s u)" | (quiet) "?quiet (Section f)"
    | (opens) frame source now ct where "Section f = call_sections L E R k c"
      "c = InboundTransport frame source now" "decode_packet frame = Some (PTransport sid ctr ct)"
  proof (cases "Section f = call_sections L E R k c \<and> (\<exists>frame source now ct.
      c = InboundTransport frame source now \<and> decode_packet frame = Some (PTransport sid ctr ct))")
    case False
    show thesis
    proof (cases "Section f = call_sections L E R k c")
      case True
      with False have "\<not> hands_over sid ctr c x" for x
        by (cases "(sid, ctr, c, x)" rule: hands_over.cases)
          (auto split: option.splits parsed_packet.splits)
      then have "?quiet (Section f)" by (intro sound_mono [OF all]) simp
      then show thesis by (rule quiet)
    next
      case False
      with u have "armed L E R k sid ctr (et_calls s u)" if "\<not> ?quiet (Section f)" using that by (simp add: armed_def)
      with armed quiet show thesis by blast
    qed
  qed (use opens in blast)
  then show ?thesis
  proof cases
    case armed
    with log1 unseen1 hand_over_or_armed [of sid ctr "et_calls s' u" L E R k] show ?thesis by (intro exI [of _ log1]) auto
  next
    case quiet
    from sound_sectionD [OF this f] not_armed_quiet [of E R k sid ctr c m] log1 unseen1 show ?thesis
      by (intro exI [of _ log1]) (simp add: s')
  next
    case (opens frame source now ct)
    obtain en w where sh: "et_shared s = (en, w)" by (cases "et_shared s")
    obtain r st' where d: "decrypt_transport E (en_sessions en) sid ctr ct now = (r, st')" by fastforce
    from opens(1) f have m: "m = sections_map Output (after_decrypt E source now r)" "shared' = (en\<lparr>en_sessions := st'\<rparr>, w)"
      unfolding opens(2) transport_call [OF opens(3)] by (simp_all add: sh d)
    show ?thesis
    proof (cases "\<exists>d. r = Ok (Some d)")
      case True
      then obtain d' where r: "r = Ok (Some d')" ..
      from log have "sm_inv (en_sessions en) log" by (simp add: sh)
      from opening_unseen [OF this d [unfolded r]] hand_over_or_armed [of sid ctr "et_calls s' u" L E R k] show ?thesis
        by (intro exI [of _ "insert (sid, ctr) log"]) (simp add: s' m sh)
    next
      case False
      then have "?quiet m" by (auto simp: m opens(2) after_decrypt_def sections_map_def no_output_def split: sum.split option.split)
      from not_armed_quiet [OF this] log1 unseen1 show ?thesis
        by (intro exI [of _ log1]) (simp add: s')
    qed
  qed
qed

lemma event_pays:
  assumes inv: "threads_inv E R k s" and step: "engine_event_step L E e s = Some s'"
    and log: "sm_inv (en_sessions (fst (et_shared s))) log"
  shows "\<exists>log'. sm_inv (en_sessions (fst (et_shared s'))) log'
    \<and> (case e of Continue t \<Rightarrow> if has_handed_over sid ctr (et_calls s' t) then 1 else 0 | BeginOn t c \<Rightarrow> 0)
        + owed L E R k sid ctr s' log'
      \<le> owed L E R k sid ctr s log
        + (if \<not> session_id_in_use (en_sessions (fst (et_shared s))) sid
            \<and> session_id_in_use (en_sessions (fst (et_shared s'))) sid then 1 else 0)"
proof -
  let ?A = "\<lambda>s. {t. armed L E R k sid ctr (et_calls s t)}"
  have fin: "finite (?A q)" if "threads_inv E R k q" for q
    by (rule finite_subset [of _ "dom (et_calls q)"]) (use that in \<open>auto simp: threads_inv_def armed_def dom_def\<close>)
  have fins: "finite (?A s)" "finite (?A s')" by (rule fin [OF inv], rule fin [OF event_keeps(1) [OF inv step]])
  from inv have shared: "engine_inv E R k (fst (et_shared s))" by (simp add: threads_inv_def)
  show ?thesis
  proof (cases e)
    case (BeginOn u c)
    from step_BeginOn [OF step [unfolded BeginOn] shared] have s': "et_shared s' = et_shared s" "?A s' \<subseteq> ?A s"
      by (auto simp: armed_def)
    from card_mono [OF fins(1) s'(2)] log show ?thesis by (intro exI [of _ log]) (simp add: BeginOn s'(1) owed_def)
  next
    case (Continue u)
    from continue_pays [OF inv step [unfolded Continue] log] obtain log' where
      log': "sm_inv (en_sessions (fst (et_shared s'))) log'"
      and pays: "of_bool (has_handed_over sid ctr (et_calls s' u)) + of_bool (armed L E R k sid ctr (et_calls s' u))
          + unseen (en_sessions (fst (et_shared s'))) sid ctr log'
        \<le> of_bool (armed L E R k sid ctr (et_calls s u)) + unseen (en_sessions (fst (et_shared s))) sid ctr log
          + of_bool (\<not> session_id_in_use (en_sessions (fst (et_shared s))) sid
              \<and> session_id_in_use (en_sessions (fst (et_shared s'))) sid)" by blast
    have "et_calls s' t = et_calls s t" if "t \<noteq> u" for t
      using step_Continue [OF step [unfolded Continue]] that by fastforce
    then have rest: "?A s' - {u} = ?A s - {u}" by auto
    from card_at [OF fins(1), of u] card_at [OF fins(2), of u]
    have "card (?A s') + of_bool (armed L E R k sid ctr (et_calls s u))
      = card (?A s) + of_bool (armed L E R k sid ctr (et_calls s' u))" unfolding rest mem_Collect_eq by simp
    with log' pays show ?thesis
      by (intro exI [of _ log']) (auto simp: Continue owed_def)
  qed
qed

lemma run_pays:
  assumes "threads_inv E R k s" and "sm_inv (en_sessions (fst (et_shared s))) log"
  shows "hand_overs L E sid ctr es s \<le> owed L E R k sid ctr s log + installations L E sid es s"
  using assms
proof (induction es arbitrary: s log)
  case (Cons e es)
  show ?case
  proof (cases "engine_event_step L E e s")
    case (Some s')
    from event_pays [OF Cons.prems(1) Some Cons.prems(2), of sid ctr] obtain log' where
      log': "sm_inv (en_sessions (fst (et_shared s'))) log'" and
      pays: "(case e of Continue t \<Rightarrow> if has_handed_over sid ctr (et_calls s' t) then 1 else 0 | BeginOn t c \<Rightarrow> 0)
          + owed L E R k sid ctr s' log'
        \<le> owed L E R k sid ctr s log
          + (if \<not> session_id_in_use (en_sessions (fst (et_shared s))) sid
              \<and> session_id_in_use (en_sessions (fst (et_shared s'))) sid then 1 else 0)" by blast
    from Cons.IH [OF event_keeps(1) [OF Cons.prems(1) Some] log'] pays show ?thesis by (simp add: Some)
  qed simp
qed simp

lemma start_pays:
  assumes "engine_inv E R k en0" and start: "start = threads_of en0 w0"
  shows "hand_overs L E sid ctr es start
    \<le> (if session_id_in_use (en_sessions en0) sid then 1 else 0) + installations L E sid es start"
proof -
  from assms(1) obtain log where "sm_reachable E (en_sessions en0) log" by (auto simp: engine_inv_def)
  then have "sm_inv (en_sessions en0) log" by (rule sm_reachable_inv)
  then have "sm_inv (en_sessions (fst (et_shared start))) log" by (simp add: start threads_of_def)
  moreover have "threads_inv E R k start" unfolding start by (rule threads_inv_start [OF assms(1)])
  ultimately
  have "hand_overs L E sid ctr es start \<le> owed L E R k sid ctr start log + installations L E sid es start" by (intro run_pays)
  moreover have "owed L E R k sid ctr start log \<le> (if session_id_in_use (en_sessions en0) sid then 1 else 0)"
    by (simp add: start owed_def unseen_def threads_of_def armed_def)
  ultimately show ?thesis by linarith
qed

subsection \<open>Properties\<close>

text \<open>C6: Whatever calls any number of threads make, and however their sections interleave, the router
and the key are those the engine was built with, session identifiers are unique and the session
manager is in a state it reaches by its own methods. And no counter is delivered twice: over the
whole run the calls that hand over a packet received under one identifier and one counter are at
most as many as there were installations of that identifier, counting one that was in use at the
start.\<close>

theorem threads_keep_guarantees:
  assumes "engine_inv E R k en0" and "engine_events L E es (threads_of en0 w0) = Some s" and "et_shared s = (en, w)"
  shows "en_router en = R \<and> local_static en = k \<and> ids_unique (en_sessions en)
    \<and> (\<exists>log. sm_reachable E (en_sessions en) log)
    \<and> (\<forall>sid ctr. hand_overs L E sid ctr es (threads_of en0 w0)
        \<le> (if session_id_in_use (en_sessions en0) sid then 1 else 0) + installations L E sid es (threads_of en0 w0))"
proof -
  from events_inv [OF assms(1,2)] assms(3) have inv: "engine_inv E R k en" by (simp add: threads_inv_def)
  then obtain log where log: "sm_reachable E (en_sessions en) log" by (auto simp: engine_inv_def)
  from sm_reachable_inv [OF this] have "ids_unique (en_sessions en)" by (simp add: sm_inv_def)
  then show ?thesis using inv log start_pays [OF assms(1) refl] unfolding engine_inv_def by blast
qed

text \<open>C7: In every run of threads that share the engine, a call that hands a packet to the tunnel
interface received it: in the run there is a section of this very call that opened the frame. When
that section began, a live session of the reported peer with the frame's identifier was installed
in the engine, its window accepted the counter, and its keys opened the ciphertext to a data message
with exactly this well-formed IPv4 packet; when the section ended, no installed session with that
identifier accepted the counter any more.\<close>

theorem interleaved_delivery_authentic:
  assumes "engine_inv E R k en0" and "engine_events L E es (threads_of en0 w0) = Some s"
    and "et_calls s t = Some (c, Return (Output (Ok out)))"
    and "WriteIpPacket name src packet \<in> set (out_actions out)"
  shows "ipv4_parse packet = Ok packet \<and> (\<exists>frame now sid ctr ct es1 es2 s1 s2 a ses.
    c = InboundTransport frame src now \<and> decode_packet frame = Some (PTransport sid ctr ct)
    \<and> es = es1 @ Continue t # es2 \<and> (\<forall>c'. BeginOn t c' \<notin> set es2)
    \<and> engine_events L E es1 (threads_of en0 w0) = Some s1
    \<and> et_calls s1 t = Some (c, call_sections L E R k c)
    \<and> engine_event_step L E (Continue t) s1 = Some s2
    \<and> session_at (en_sessions (fst (et_shared s1))) a = Some ses \<and> \<not> is_expired ses now
    \<and> session_id ses = sid \<and> slot_peer a = name \<and> would_accept (replay ses) ctr
    \<and> ts_read E (transport ses) ctr ct (length ct - AEAD_TAG_SIZE) = Ok (encode_transport_plaintext Data packet)
    \<and> (\<forall>b ses'. session_at (en_sessions (fst (et_shared s2))) b = Some ses' \<longrightarrow> session_id ses' = sid
        \<longrightarrow> \<not> would_accept (replay ses') ctr))"
proof -
  have "traced L E R k (threads_of en0 w0) es t c (Output (Ok out))"
    using calls_traced [OF assms(1-3)]
  proof
    assume all: "Return (Output (Ok out)) = call_sections L E R k c"
    show ?thesis
    proof (cases "is_transport c")
      case True
      then obtain frame now' source sid ctr ct where c': "c = InboundTransport frame source now'"
        and frame: "decode_packet frame = Some (PTransport sid ctr ct)" by (auto simp: is_transport_def)
      obtain g where "call_sections L E R k c = Section g" unfolding c' using transport_call [OF frame] by blast
      with all show ?thesis by simp
    next
      case False
      from call_sends_traced [OF sound_quiet_call [OF this, where E = E and L = L and R' = R and k' = k, folded all, unfolded sound_simps]]
      show ?thesis .
    qed
  qed simp
  with assms(4) obtain frame now where c: "c = InboundTransport frame src now"
    and "opened_in L E R k (threads_of en0 w0) es t frame src now name packet" unfolding traced_def by metis
  then show ?thesis unfolding opened_in_def c by blast
qed

text \<open>A run: a thread receives the first packet of a new session.\<close>

lemma demo_engine_inv: "engine_inv demo_runtime demo_router [] demo_engine"
  using demo_candidate_reachable by (auto simp: engine_inv_def demo_engine_def engine_start_def)

theorem threads_keep_guarantees_witness:
  "\<exists>(s :: (demo_net, demo_hs, bytes, nat, nat) engine_threads) out.
      et_calls s 0 = Some (InboundTransport demo_frame (V4 1 2) 10, Return (Output (Ok out)))
    \<and> out_actions out \<noteq> []
    \<and> ids_unique (en_sessions (fst (et_shared s))) \<and> en_router (fst (et_shared s)) = demo_router
    \<and> hand_overs demo_libs demo_runtime demo_sid 0
          [BeginOn (0 :: nat) (InboundTransport demo_frame (V4 1 2) 10), Continue 0, Continue 0] demo_threads
        \<le> 1 + installations demo_libs demo_runtime demo_sid
          [BeginOn (0 :: nat) (InboundTransport demo_frame (V4 1 2) 10), Continue 0, Continue 0] demo_threads"
proof -
  let ?es = "[BeginOn (0 :: nat) (InboundTransport demo_frame (V4 1 2) 10), Continue 0, Continue 0]"
  from demo_receives obtain s out where s: "engine_events demo_libs demo_runtime ?es demo_threads = Some s"
    and c: "et_calls s 0 = Some (InboundTransport demo_frame (V4 1 2) 10, Return (Output (Ok out)))"
    and out: "out_actions out = [WriteIpPacket ''a'' (V4 1 2) demo_packet]" by blast
  from threads_keep_guarantees [OF demo_engine_inv s [unfolded demo_threads_def] surjective_pairing]
  have "en_router (fst (et_shared s)) = demo_router" "ids_unique (en_sessions (fst (et_shared s)))"
    and "hand_overs demo_libs demo_runtime demo_sid 0 ?es demo_threads
      \<le> (if session_id_in_use (en_sessions demo_engine) demo_sid then 1 else 0)
        + installations demo_libs demo_runtime demo_sid ?es demo_threads" unfolding demo_threads_def by blast+
  moreover from this(3) have "hand_overs demo_libs demo_runtime demo_sid 0 ?es demo_threads
      \<le> 1 + installations demo_libs demo_runtime demo_sid ?es demo_threads"
    by (rule order_trans) simp
  ultimately show ?thesis using c out by (intro exI [of _ s] exI [of _ out]) simp
qed

theorem interleaved_delivery_authentic_witness:
  "\<exists>ctr ct (ses :: bytes session). decode_packet demo_frame = Some (PTransport demo_sid ctr ct)
    \<and> session_id ses = demo_sid \<and> would_accept (replay ses) ctr
    \<and> ts_read demo_runtime (transport ses) ctr ct (length ct - AEAD_TAG_SIZE)
        = Ok (encode_transport_plaintext Data demo_packet)"
proof -
  let ?c = "InboundTransport demo_frame (V4 1 2) 10"
  from demo_receives obtain s out where s: "engine_events demo_libs demo_runtime
      [BeginOn (0 :: nat) ?c, Continue 0, Continue 0] demo_threads = Some s"
    and c: "et_calls s 0 = Some (?c, Return (Output (Ok out)))"
    and w: "WriteIpPacket ''a'' (V4 1 2) demo_packet \<in> set (out_actions out)" by auto
  from interleaved_delivery_authentic [OF demo_engine_inv s [unfolded demo_threads_def] c w]
  obtain frame now sid ctr ct and ses :: "bytes session" where "?c = InboundTransport frame (V4 1 2) now"
    and "decode_packet frame = Some (PTransport sid ctr ct)" and ses: "session_id ses = sid" "would_accept (replay ses) ctr"
      "ts_read demo_runtime (transport ses) ctr ct (length ct - AEAD_TAG_SIZE)
        = Ok (encode_transport_plaintext Data demo_packet)" by (elim conjE exE) (rule that; assumption)
  with demo_frame_decodes show ?thesis by (intro exI [of _ ctr] exI [of _ ct] exI [of _ ses]) auto
qed

end
