(* ===== verification/Tcp.thy ===== *)
theory Tcp
  imports Auth "HOL-Library.Sublist"
begin

text \<open>
  \<^verbatim>\<open>src/src/tcp_transport.rs\<close>: length-prefixed frames over a byte stream, with partial writes
  and partial reads. The kernel's side of a non-blocking stream is not code of the repository: it
  is the sequence of results that its \<open>write\<close> and \<open>read\<close> calls return. A loop that would still
  be running when that sequence is exhausted returns \<open>None\<close>.
\<close>

datatype error_kind =
    InvalidInput | WouldBlock | WriteZero | Interrupted | TimedOut | ConnectionReset | InvalidData
  | AddrNotAvailable | OtherError string

text \<open>\<open>Wrote n\<close> accepts \<open>n\<close> bytes; \<open>Received []\<close> is the end of the stream.\<close>

datatype write_result = Wrote nat | WriteErr error_kind
datatype read_result = Received bytes | ReadErr error_kind

record tcp_stream =
  st_writes :: "write_result list"
  st_reads :: "read_result list"
  st_wire :: bytes

definition MAX_PENDING_WRITE_BYTES :: nat where
  "MAX_PENDING_WRITE_BYTES = 16 * 1024 * 1024"

record pending_writes =
  pw_bytes :: bytes
  pw_offset :: nat
  pw_limit :: nat

definition pending_new :: "nat \<Rightarrow> pending_writes" where
  "pending_new limit = \<lparr>pw_bytes = [], pw_offset = 0, pw_limit = limit\<rparr>"

definition pending_len :: "pending_writes \<Rightarrow> nat" where
  "pending_len p = length (pw_bytes p) - pw_offset p"

text \<open>\<open>copy_within(offset.., 0)\<close> and \<open>truncate(pending)\<close> keep the bytes from the offset on.\<close>

definition pending_compact :: "pending_writes \<Rightarrow> pending_writes" where
  "pending_compact p =
    (if pw_offset p = 0 then p
     else
       let pending = pending_len p in
       if pending = 0 then p\<lparr>pw_bytes := [], pw_offset := 0\<rparr>
       else p\<lparr>pw_bytes := take pending (drop (pw_offset p) (pw_bytes p)), pw_offset := 0\<rparr>)"

definition enqueue_frame :: "pending_writes \<Rightarrow> bytes \<Rightarrow> (error_kind, unit) result \<times> pending_writes" where
  "enqueue_frame p frame =
    (if length frame > 65535 then (Err InvalidInput, p)
     else
       let encoded_len = 2 + length frame in
       if pending_len p + encoded_len > pw_limit p then (Err WouldBlock, p)
       else
         let p1 = pending_compact p
         in (Ok (), p1\<lparr>pw_bytes := pw_bytes p1 @ to_be_bytes_u16 (of_nat (length frame)) @ frame\<rparr>))"

text \<open>One call of \<open>write\<close> takes the next result of the stream; accepted bytes go on the wire.\<close>

fun flush_loop ::
    "write_result list \<Rightarrow> pending_writes \<Rightarrow> bytes
      \<Rightarrow> ((error_kind, unit) result \<times> pending_writes \<times> write_result list \<times> bytes) option" where
  "flush_loop script p wire =
    (if \<not> pw_offset p < length (pw_bytes p)
     then Some (Ok (), p\<lparr>pw_bytes := [], pw_offset := 0\<rparr>, script, wire)
     else
       case script of
         [] \<Rightarrow> None
       | r # rest \<Rightarrow>
           (case r of
              Wrote n \<Rightarrow>
                if n = 0 then Some (Err WriteZero, p, rest, wire)
                else flush_loop rest (p\<lparr>pw_offset := pw_offset p + n\<rparr>)
                       (wire @ take n (drop (pw_offset p) (pw_bytes p)))
            | WriteErr e \<Rightarrow>
                if e = Interrupted then flush_loop rest p wire
                else if e = WouldBlock \<or> e = TimedOut then Some (Ok (), p, rest, wire)
                else Some (Err e, p, rest, wire)))"

declare flush_loop.simps [simp del]

definition flush_to ::
    "pending_writes \<Rightarrow> tcp_stream \<Rightarrow> ((error_kind, unit) result \<times> pending_writes \<times> tcp_stream) option" where
  "flush_to p s =
    map_option (\<lambda>(r, p', script, wire). (r, p', s\<lparr>st_writes := script, st_wire := wire\<rparr>))
      (flush_loop (st_writes s) p (st_wire s))"

record conn_state =
  cs_stream :: tcp_stream
  cs_read_buf :: bytes
  cs_pending :: pending_writes

definition conn_new :: "tcp_stream \<Rightarrow> conn_state" where
  "conn_new s = \<lparr>cs_stream = s, cs_read_buf = [], cs_pending = pending_new MAX_PENDING_WRITE_BYTES\<rparr>"

text \<open>The read loop collects bytes until the stream would block.\<close>

fun read_loop :: "read_result list \<Rightarrow> bytes \<Rightarrow> ((error_kind, unit) result \<times> read_result list \<times> bytes) option" where
  "read_loop [] buf = None"
| "read_loop (r # rest) buf =
    (case r of
       Received bs \<Rightarrow>
         if bs = [] then Some (Err ConnectionReset, rest, buf) else read_loop rest (buf @ bs)
     | ReadErr e \<Rightarrow>
         if e = WouldBlock then Some (Ok (), rest, buf)
         else if e = Interrupted \<or> e = TimedOut then read_loop rest buf
         else Some (Err e, rest, buf))"

text \<open>The assembly of one frame at the front of the buffer. A length of 16 bits never exceeds
65535, so the branch for an oversized frame is never taken.\<close>

definition assemble_frame :: "bytes \<Rightarrow> (error_kind, bytes option) result \<times> bytes" where
  "assemble_frame buf =
    (if length buf < 2 then (Ok None, buf)
     else
       let frame_len = unat (from_be_bytes_u16 (buf ! 0) (buf ! 1)) in
       if frame_len > 65535 then (Err InvalidData, buf)
       else if length buf < 2 + frame_len then (Ok None, buf)
       else (Ok (Some (take frame_len (drop 2 buf))), drop (2 + frame_len) buf))"

definition try_read_frame :: "conn_state \<Rightarrow> ((error_kind, bytes option) result \<times> conn_state) option" where
  "try_read_frame c =
    (case flush_to (cs_pending c) (cs_stream c) of
       None \<Rightarrow> None
     | Some (Inl e, p, s) \<Rightarrow> Some (Err e, c\<lparr>cs_pending := p, cs_stream := s\<rparr>)
     | Some (Inr _, p, s) \<Rightarrow>
         case read_loop (st_reads s) (cs_read_buf c) of
           None \<Rightarrow> None
         | Some (r, reads, buf) \<Rightarrow>
             let c1 = c\<lparr>cs_pending := p, cs_stream := s\<lparr>st_reads := reads\<rparr>, cs_read_buf := buf\<rparr> in
             case r of
               Inl e \<Rightarrow> Some (Err e, c1)
             | Inr _ \<Rightarrow>
                 case assemble_frame buf of (r2, buf2) \<Rightarrow> Some (r2, c1\<lparr>cs_read_buf := buf2\<rparr>))"

definition queue_frame :: "conn_state \<Rightarrow> bytes \<Rightarrow> ((error_kind, unit) result \<times> conn_state) option" where
  "queue_frame c frame =
    (case flush_to (cs_pending c) (cs_stream c) of
       None \<Rightarrow> None
     | Some (Inl e, p, s) \<Rightarrow> Some (Err e, c\<lparr>cs_pending := p, cs_stream := s\<rparr>)
     | Some (Inr _, p, s) \<Rightarrow>
         case enqueue_frame p frame of
           (Inl e, p1) \<Rightarrow> Some (Err e, c\<lparr>cs_pending := p1, cs_stream := s\<rparr>)
         | (Inr _, p1) \<Rightarrow>
             case flush_to p1 s of
               None \<Rightarrow> None
             | Some (r, p2, s2) \<Rightarrow> Some (r, c\<lparr>cs_pending := p2, cs_stream := s2\<rparr>))"

subsection \<open>The transport's connections\<close>

text \<open>\<open>connect_timeout\<close> to the single address of an endpoint is a parameter.\<close>

type_synonym ('a) connections = "('a, conn_state) hmap"

definition get_or_dial ::
    "('a \<Rightarrow> (error_kind, tcp_stream) result) \<Rightarrow> 'a connections \<Rightarrow> 'a
      \<Rightarrow> (error_kind, conn_state) result \<times> 'a connections" where
  "get_or_dial connect conns endpoint =
    (case hm_get conns endpoint of
       Some c \<Rightarrow> (Ok c, conns)
     | None \<Rightarrow>
         case connect endpoint of
           Inl e \<Rightarrow> (Err e, conns)
         | Inr s \<Rightarrow> (Ok (conn_new s), hm_insert endpoint (conn_new s) conns))"

text \<open>One round of the background thread that accepts connections: a new one takes the place of an
earlier one from the same address, and an error leaves the connections alone.\<close>

definition accept_round :: "(error_kind, tcp_stream \<times> 'a) result \<Rightarrow> 'a connections \<Rightarrow> 'a connections" where
  "accept_round accepted conns =
    (case accepted of
       Inr (stream, addr) \<Rightarrow> hm_insert addr (conn_new stream) conns
     | Inl _ \<Rightarrow> conns)"

definition tcp_send_to ::
    "('a \<Rightarrow> (error_kind, tcp_stream) result) \<Rightarrow> 'a connections \<Rightarrow> bytes \<Rightarrow> 'a
      \<Rightarrow> ((error_kind, nat) result \<times> 'a connections) option" where
  "tcp_send_to connect conns frame endpoint =
    (case get_or_dial connect conns endpoint of
       (Inl e, conns1) \<Rightarrow> Some (Err e, conns1)
     | (Inr c, conns1) \<Rightarrow>
         map_option (\<lambda>(r, c'). (case r of Inl e \<Rightarrow> Err e | Inr _ \<Rightarrow> Ok (length frame),
                                hm_insert endpoint c' conns1))
           (queue_frame c frame))"

text \<open>One pass of the \<open>recv_from\<close> loop over a snapshot of the connections: the first complete
frame is returned with its source and broken connections are removed. The buffer is represented by
its size.\<close>

fun recv_pass ::
    "nat \<Rightarrow> ('a \<times> conn_state) list \<Rightarrow> 'a connections \<Rightarrow> ((bytes \<times> 'a) option \<times> 'a connections) option" where
  "recv_pass limit [] conns = Some (None, conns)"
| "recv_pass limit ((addr, c) # entries) conns =
    (case try_read_frame c of
       None \<Rightarrow> None
     | Some (Inr (Some frame), c') \<Rightarrow>
         Some (Some (take limit frame, addr), hm_insert addr c' conns)
     | Some (Inr None, c') \<Rightarrow> recv_pass limit entries (hm_insert addr c' conns)
     | Some (Inl _, _) \<Rightarrow> recv_pass limit entries (hm_remove addr conns))"

text \<open>\<open>recv_from\<close> repeats the pass and may wait for ever.\<close>

partial_function (option) tcp_recv_from ::
    "nat \<Rightarrow> 'a connections \<Rightarrow> ((bytes \<times> 'a) \<times> 'a connections) option" where
  "tcp_recv_from limit conns =
    Option.bind (recv_pass limit conns conns) (\<lambda>(received, conns1).
      case received of
        None \<Rightarrow> tcp_recv_from limit conns1
      | Some r \<Rightarrow> Some (r, conns1))"

subsection \<open>Writing\<close>

abbreviation pending_bytes :: "pending_writes \<Rightarrow> bytes" where
  "pending_bytes p \<equiv> drop (pw_offset p) (pw_bytes p)"

lemmas flush_loop_unfold = flush_loop.simps [of "[]"] flush_loop.simps [of "x # xs" for x xs]

lemma flush_loop_preserves:
  assumes "flush_loop script p wire = Some (r, p', script', wire')"
  shows "wire' @ pending_bytes p' = wire @ pending_bytes p \<and> pw_limit p' = pw_limit p
    \<and> length wire \<le> length wire'"
  using assms
proof (induction script p wire rule: flush_loop.induct)
  case (1 script p wire)
  show ?case
  proof (cases "pw_offset p < length (pw_bytes p)")
    case False
    with "1.prems" show ?thesis by (auto simp: flush_loop.simps [of script] flush_loop_unfold)
  next
    case True
    then obtain w rest where script: "script = w # rest"
      using "1.prems" by (cases script) (simp_all add: flush_loop.simps [of "[]"])
    show ?thesis
    proof (cases w)
      case (Wrote n)
      show ?thesis
      proof (cases "n = 0")
        case True
        with Wrote script \<open>pw_offset p < length (pw_bytes p)\<close> "1.prems" show ?thesis
          by (auto simp: flush_loop.simps [of script] flush_loop_unfold)
      next
        case False
        with Wrote script True "1.prems" have rec: "flush_loop rest (p\<lparr>pw_offset := pw_offset p + n\<rparr>)
            (wire @ take n (pending_bytes p)) = Some (r, p', script', wire')"
          by (simp add: flush_loop.simps [of script] flush_loop_unfold)
        have "take n (pending_bytes p) @ drop (pw_offset p + n) (pw_bytes p) = pending_bytes p"
          by (metis add.commute append_take_drop_id drop_drop)
        with "1.IH"(1) [OF _ script Wrote False rec] True show ?thesis by simp
      qed
    next
      case (WriteErr e)
      show ?thesis
      proof (cases "e = Interrupted")
        case True
        with WriteErr script \<open>pw_offset p < length (pw_bytes p)\<close> "1.prems"
        have rec: "flush_loop rest p wire = Some (r, p', script', wire')"
          by (simp add: flush_loop.simps [of script] flush_loop_unfold)
        from "1.IH"(2) [OF _ script WriteErr True rec] \<open>pw_offset p < length (pw_bytes p)\<close>
        show ?thesis by simp
      next
        case False
        with WriteErr script True "1.prems" show ?thesis
          by (auto simp: flush_loop.simps [of script] flush_loop_unfold split: if_splits)
      qed
    qed
  qed
qed

lemma flush_to_preserves:
  assumes "flush_to p s = Some (r, p', s')"
  shows "st_wire s' @ pending_bytes p' = st_wire s @ pending_bytes p"
    and "pw_limit p' = pw_limit p" and "st_reads s' = st_reads s"
  using assms flush_loop_preserves [of "st_writes s" p "st_wire s"]
  by (auto simp: flush_to_def)

definition encode_frame :: "bytes \<Rightarrow> bytes" where
  "encode_frame frame = to_be_bytes_u16 (of_nat (length frame)) @ frame"

lemma compact_pending [simp]: "pending_bytes (pending_compact p) = pending_bytes p"
  by (auto simp: pending_compact_def pending_len_def Let_def)

lemma compact_offset [simp]: "pw_offset (pending_compact p) = 0" "pw_limit (pending_compact p) = pw_limit p"
  by (auto simp: pending_compact_def Let_def)

lemma enqueue_atomic:
  assumes "enqueue_frame p frame = (r, p')"
  shows "(r = Ok () \<longleftrightarrow> length frame \<le> 65535 \<and> length (pending_bytes p) + 2 + length frame \<le> pw_limit p)
    \<and> (if r = Ok () then pending_bytes p' = pending_bytes p @ encode_frame frame else p' = p)
    \<and> pw_limit p' = pw_limit p"
proof (cases "length frame \<le> 65535 \<and> length (pending_bytes p) + 2 + length frame \<le> pw_limit p")
  case True
  then have "\<not> pending_len p + (2 + length frame) > pw_limit p" by (simp add: pending_len_def)
  with True assms have "r = Ok ()" and "p' = (pending_compact p)
      \<lparr>pw_bytes := pw_bytes (pending_compact p) @ encode_frame frame\<rparr>"
    by (auto simp: enqueue_frame_def Let_def encode_frame_def)
  moreover have "pw_bytes (pending_compact p) = pending_bytes p"
    using compact_pending [of p] by simp
  ultimately show ?thesis using True by simp
next
  case False
  with assms show ?thesis
    by (auto simp: enqueue_frame_def Let_def pending_len_def split: if_splits)
qed

text \<open>Everything handed to a connection: what the kernel took and what is still queued.\<close>

definition conn_content :: "conn_state \<Rightarrow> bytes" where
  "conn_content c = st_wire (cs_stream c) @ pending_bytes (cs_pending c)"

lemma queue_frame_content:
  assumes "queue_frame c frame = Some (r, c')"
  shows "conn_content c' = conn_content c \<and> r \<noteq> Ok ()
    \<or> conn_content c' = conn_content c @ encode_frame frame \<and> length frame \<le> 65535"
proof -
  obtain r1 p s where f1: "flush_to (cs_pending c) (cs_stream c) = Some (r1, p, s)"
    using assms by (auto simp: queue_frame_def split: option.splits)
  note c1 = flush_to_preserves(1) [OF f1]
  show ?thesis
  proof (cases r1)
    case (Inl e)
    with assms f1 c1 show ?thesis by (auto simp: queue_frame_def conn_content_def)
  next
    case (Inr u)
    obtain r2 p1 where e: "enqueue_frame p frame = (r2, p1)" by (cases "enqueue_frame p frame")
    show ?thesis
    proof (cases r2)
      case (Inl err)
      with assms f1 Inr e enqueue_atomic [OF e] c1 show ?thesis
        by (auto simp: queue_frame_def conn_content_def)
    next
      case Ok2: (Inr u2)
      with assms f1 Inr e obtain p2 s2 where f2: "flush_to p1 s = Some (r, p2, s2)"
        and c': "c' = c\<lparr>cs_pending := p2, cs_stream := s2\<rparr>"
        by (auto simp: queue_frame_def split: option.splits)
      from enqueue_atomic [OF e] Ok2 have "pending_bytes p1 = pending_bytes p @ encode_frame frame"
        and "length frame \<le> 65535" by auto
      with flush_to_preserves(1) [OF f2] c1 c' show ?thesis by (auto simp: conn_content_def)
    qed
  qed
qed

fun send_run :: "conn_state \<Rightarrow> bytes list \<Rightarrow> ((error_kind, unit) result list \<times> conn_state) option" where
  "send_run c [] = Some ([], c)"
| "send_run c (f # fs) =
    (case queue_frame c f of
       None \<Rightarrow> None
     | Some (r, c1) \<Rightarrow> map_option (\<lambda>(rs, c2). (r # rs, c2)) (send_run c1 fs))"

lemma send_run_content:
  assumes "send_run c fs = Some (rs, c')"
  shows "\<exists>acc. subseq acc fs \<and> (\<forall>f \<in> set acc. length f \<le> 65535)
    \<and> conn_content c' = conn_content c @ concat (map encode_frame acc)
    \<and> (list_all (\<lambda>r. r = Ok ()) rs \<longrightarrow> acc = fs)"
  using assms
proof (induction fs arbitrary: c rs)
  case Nil
  then show ?case by auto
next
  case (Cons f fs)
  then obtain r c1 rs1 where q: "queue_frame c f = Some (r, c1)" and s: "send_run c1 fs = Some (rs1, c')"
    and rs: "rs = r # rs1" by (auto split: option.splits)
  from Cons.IH [OF s] obtain acc where acc: "subseq acc fs" "\<forall>f \<in> set acc. length f \<le> 65535"
    "conn_content c' = conn_content c1 @ concat (map encode_frame acc)"
    "list_all (\<lambda>r. r = Ok ()) rs1 \<longrightarrow> acc = fs" by blast
  from queue_frame_content [OF q] show ?case
  proof
    assume "conn_content c1 = conn_content c \<and> r \<noteq> Ok ()"
    with acc rs show ?thesis by (intro exI [of _ acc]) auto
  next
    assume "conn_content c1 = conn_content c @ encode_frame f \<and> length f \<le> 65535"
    with acc rs show ?thesis by (intro exI [of _ "f # acc"]) auto
  qed
qed

subsection \<open>Reading\<close>

definition received_bytes :: "read_result list \<Rightarrow> bytes" where
  "received_bytes rs = concat (map (\<lambda>r. case r of Received bs \<Rightarrow> bs | ReadErr _ \<Rightarrow> []) rs)"

lemma read_loop_bytes:
  assumes "read_loop rs buf = Some (r, rs', buf')"
  shows "buf' @ received_bytes rs' = buf @ received_bytes rs"
  using assms
  by (induction rs buf rule: read_loop.induct)
    (auto simp: received_bytes_def split: read_result.splits if_splits)

lemma length_encode_frame [simp]: "length (encode_frame f) = 2 + length f"
  by (simp add: encode_frame_def)

lemma u16_bytes: "to_be_bytes_u16 (from_be_bytes_u16 a b) = [a, b]"
  by (auto simp: to_be_bytes_u16_def from_be_bytes_u16_def intro!: bit_word_eqI)
    (auto simp: bit_simps dest: bit_imp_le_length)

lemma assemble_Some:
  assumes "assemble_frame buf = (Ok (Some f), rest)"
  shows "buf = encode_frame f @ rest \<and> length f \<le> 65535"
proof -
  let ?n = "unat (from_be_bytes_u16 (buf ! 0) (buf ! 1))"
  from assms have len: "2 \<le> length buf" "2 + ?n \<le> length buf"
    and f: "f = take ?n (drop 2 buf)" and rest: "rest = drop (2 + ?n) buf"
    by (auto simp: assemble_frame_def Let_def not_less split: if_splits)
  then have n: "length f = ?n" by simp
  then have "to_be_bytes_u16 (of_nat (length f)) = [buf ! 0, buf ! 1]"
    by (simp add: u16_bytes)
  moreover from len(1) have "buf = [buf ! 0, buf ! 1] @ drop 2 buf"
    by (cases buf; cases "tl buf") simp_all
  moreover have "drop 2 buf = f @ rest" unfolding f rest by (metis append_take_drop_id drop_drop add.commute)
  ultimately have "buf = encode_frame f @ rest" by (simp add: encode_frame_def)
  moreover have "?n \<le> 65535" using unat_lt_2_16 [of "from_be_bytes_u16 (buf ! 0) (buf ! 1)"] by simp
  ultimately show ?thesis using n by simp
qed

lemma assemble_None: "assemble_frame buf = (Ok None, rest) \<Longrightarrow> rest = buf"
  by (auto simp: assemble_frame_def Let_def split: if_splits)

lemma assemble_no_error: "assemble_frame buf \<noteq> (Err e, rest)"
  using unat_lt_2_16 [of "from_be_bytes_u16 (buf ! 0) (buf ! 1)"]
  by (auto simp: assemble_frame_def Let_def)

lemma assemble_encode:
  assumes "length f \<le> 65535"
  shows "assemble_frame (encode_frame f @ rest) = (Ok (Some f), rest)"
proof -
  have "unat (from_be_bytes_u16 (ucast (drop_bit 8 (of_nat (length f) :: u16))) (ucast (of_nat (length f) :: u16))) = length f"
    unfolding u16_of_be_bytes using assms by (simp add: unsigned_of_nat take_bit_nat_eq_self_iff)
  with assms show ?thesis
    by (simp add: assemble_frame_def encode_frame_def to_be_bytes_u16_def Let_def)
qed

definition stream_ahead :: "conn_state \<Rightarrow> bytes" where
  "stream_ahead c = cs_read_buf c @ received_bytes (st_reads (cs_stream c))"

lemma try_read_frame_bytes:
  assumes "try_read_frame c = Some (Ok fo, c')"
  shows "stream_ahead c = (case fo of None \<Rightarrow> [] | Some f \<Rightarrow> encode_frame f) @ stream_ahead c'
    \<and> (\<forall>f. fo = Some f \<longrightarrow> length f \<le> 65535)"
proof -
  obtain u p s where f: "flush_to (cs_pending c) (cs_stream c) = Some (Ok u, p, s)"
    using assms by (auto simp: try_read_frame_def split: option.splits prod.splits sum.splits)
  obtain u2 reads buf where l: "read_loop (st_reads s) (cs_read_buf c) = Some (Ok u2, reads, buf)"
    using assms f by (auto simp: try_read_frame_def Let_def split: option.splits prod.splits sum.splits)
  obtain buf2 where a: "assemble_frame buf = (Ok fo, buf2)"
    and c': "c' = c\<lparr>cs_pending := p, cs_stream := s\<lparr>st_reads := reads\<rparr>, cs_read_buf := buf2\<rparr>"
    using assms f l by (auto simp: try_read_frame_def Let_def split: prod.splits)
  have "buf @ received_bytes reads = stream_ahead c"
    using read_loop_bytes [OF l] flush_to_preserves(3) [OF f] by (simp add: stream_ahead_def)
  moreover have "buf = (case fo of None \<Rightarrow> [] | Some f \<Rightarrow> encode_frame f) @ buf2
      \<and> (\<forall>f. fo = Some f \<longrightarrow> length f \<le> 65535)"
    using a assemble_Some assemble_None by (cases fo) fastforce+
  ultimately show ?thesis by (auto simp: stream_ahead_def c')
qed

text \<open>Successive successful calls of \<open>try_read_frame\<close>; the frames they return.\<close>

fun receive_run :: "conn_state \<Rightarrow> nat \<Rightarrow> (bytes list \<times> conn_state) option" where
  "receive_run c 0 = Some ([], c)"
| "receive_run c (Suc n) =
    (case try_read_frame c of
       Some (Inr fo, c1) \<Rightarrow>
         map_option (\<lambda>(fs, c2). ((case fo of None \<Rightarrow> [] | Some f \<Rightarrow> [f]) @ fs, c2)) (receive_run c1 n)
     | _ \<Rightarrow> None)"

lemma receive_run_bytes:
  assumes "receive_run c n = Some (fs, c')"
  shows "stream_ahead c = concat (map encode_frame fs) @ stream_ahead c' \<and> (\<forall>f \<in> set fs. length f \<le> 65535)"
  using assms
proof (induction n arbitrary: c fs)
  case (Suc n)
  then obtain fo c1 fs1 where t: "try_read_frame c = Some (Ok fo, c1)"
    and r: "receive_run c1 n = Some (fs1, c')" and fs: "fs = (case fo of None \<Rightarrow> [] | Some f \<Rightarrow> [f]) @ fs1"
    by (auto split: option.splits sum.splits)
  from try_read_frame_bytes [OF t] Suc.IH [OF r] show ?case
    by (cases fo) (auto simp: fs)
qed simp

lemma frames_unique:
  assumes "concat (map encode_frame ds) @ x = concat (map encode_frame fs)"
    and "\<forall>f \<in> set ds. length f \<le> 65535" and "\<forall>f \<in> set fs. length f \<le> 65535"
  shows "prefix ds fs"
  using assms
proof (induction ds arbitrary: fs)
  case (Cons d ds)
  from Cons.prems(1) obtain f fs' where fs: "fs = f # fs'"
    by (cases fs) (auto simp: encode_frame_def to_be_bytes_u16_def)
  have "assemble_frame (encode_frame d @ concat (map encode_frame ds) @ x)
      = assemble_frame (encode_frame f @ concat (map encode_frame fs'))"
    using Cons.prems(1) by (simp add: fs)
  then have "d = f" and "concat (map encode_frame ds) @ x = concat (map encode_frame fs')"
    using Cons.prems(2,3) by (simp_all add: assemble_encode fs)
  with Cons.IH [of fs'] Cons.prems(2,3) show ?case by (simp add: fs)
qed simp

subsection \<open>The connection as a whole\<close>

lemma flush_shrinks:
  assumes "flush_to p s = Some (r, p', s')"
  shows "length (pending_bytes p') \<le> length (pending_bytes p)"
proof -
  have "length (st_wire s) \<le> length (st_wire s')"
    using assms flush_loop_preserves [of "st_writes s" p "st_wire s"] by (auto simp: flush_to_def)
  with arg_cong [OF flush_to_preserves(1) [OF assms], of length] show ?thesis by simp
qed

lemma queue_frame_bounded:
  assumes "queue_frame c frame = Some (r, c')" and "pending_len (cs_pending c) \<le> pw_limit (cs_pending c)"
  shows "pending_len (cs_pending c') \<le> pw_limit (cs_pending c') \<and> pw_limit (cs_pending c') = pw_limit (cs_pending c)"
proof -
  obtain r1 p s where f1: "flush_to (cs_pending c) (cs_stream c) = Some (r1, p, s)"
    using assms by (auto simp: queue_frame_def split: option.splits)
  note b1 = flush_shrinks [OF f1] flush_to_preserves(2) [OF f1]
  show ?thesis
  proof (cases r1)
    case (Inl e)
    with assms f1 b1 show ?thesis by (auto simp: queue_frame_def pending_len_def)
  next
    case (Inr u)
    obtain r2 p1 where e: "enqueue_frame p frame = (r2, p1)" by (cases "enqueue_frame p frame")
    have b2: "pending_len p1 \<le> pw_limit p1" "pw_limit p1 = pw_limit p"
      using enqueue_atomic [OF e] b1 assms(2) length_encode_frame [of frame]
      by (auto simp: pending_len_def simp flip: length_drop split: if_splits)
    show ?thesis
    proof (cases r2)
      case (Inl err)
      with assms f1 Inr e b1 b2 show ?thesis by (auto simp: queue_frame_def)
    next
      case Ok2: (Inr u2)
      with assms f1 Inr e obtain p2 s2 where f2: "flush_to p1 s = Some (r, p2, s2)"
        and c': "c' = c\<lparr>cs_pending := p2, cs_stream := s2\<rparr>"
        by (auto simp: queue_frame_def split: option.splits)
      with flush_shrinks [OF f2] flush_to_preserves(2) [OF f2] b1 b2 show ?thesis
        by (simp add: pending_len_def)
    qed
  qed
qed

lemma send_run_bounded:
  assumes "send_run c fs = Some (rs, c')" and "pending_len (cs_pending c) \<le> pw_limit (cs_pending c)"
  shows "pending_len (cs_pending c') \<le> pw_limit (cs_pending c') \<and> pw_limit (cs_pending c') = pw_limit (cs_pending c)"
  using assms
proof (induction fs arbitrary: c rs)
  case (Cons f fs)
  then obtain r c1 rs1 where q: "queue_frame c f = Some (r, c1)" and s: "send_run c1 fs = Some (rs1, c')"
    by (auto split: option.splits)
  from queue_frame_bounded [OF q Cons.prems(2)] Cons.IH [OF s] show ?case by simp
qed simp

text \<open>Whatever frames are handed to a fresh connection, and however the kernel accepts them
(in part, interrupted, blocking or failing), the connection never holds more than
\<open>MAX_PENDING_WRITE_BYTES\<close> unsent bytes, and what the kernel took followed by what is still
queued is the encoding of a subsequence of the frames: no frame is torn, reordered or
duplicated, and none is missing when every call succeeded.\<close>

lemma queued_frames_intact:
  assumes "send_run (conn_new s) frames = Some (results, c)" and "st_wire s = []"
  shows "pending_len (cs_pending c) \<le> MAX_PENDING_WRITE_BYTES
    \<and> (\<exists>accepted. subseq accepted frames
        \<and> st_wire (cs_stream c) @ drop (pw_offset (cs_pending c)) (pw_bytes (cs_pending c))
          = concat (map encode_frame accepted)
        \<and> (list_all (\<lambda>r. r = Ok ()) results \<longrightarrow> accepted = frames))"
proof -
  have "conn_content (conn_new s) = []"
    and "pending_len (cs_pending (conn_new s)) \<le> pw_limit (cs_pending (conn_new s))"
    and "pw_limit (cs_pending (conn_new s)) = MAX_PENDING_WRITE_BYTES"
    using assms(2) by (simp_all add: conn_content_def conn_new_def pending_new_def pending_len_def)
  with send_run_bounded [OF assms(1)] send_run_content [OF assms(1)] show ?thesis
    by (auto simp: conn_content_def)
qed

definition example_writes :: "write_result list" where
  "example_writes = [Wrote 1, WriteErr Interrupted, WriteErr WouldBlock, Wrote 2, Wrote 1, WriteErr TimedOut]"

lemma queued_frames_intact_witness:
  "\<exists>results c. send_run (conn_new \<lparr>st_writes = example_writes, st_reads = [], st_wire = []\<rparr>) [[7], [8, 9]]
      = Some (results, c)
    \<and> st_wire (cs_stream c) = [0, 1, 7, 0] \<and> pending_len (cs_pending c) \<le> MAX_PENDING_WRITE_BYTES"
proof -
  let ?s = "\<lparr>st_writes = example_writes, st_reads = [], st_wire = []\<rparr> :: tcp_stream"
  obtain results c where run: "send_run (conn_new ?s) [[7], [8, 9]] = Some (results, c)"
    and wire: "st_wire (cs_stream c) = [0, 1, 7, 0]"
    by (simp add: conn_new_def example_writes_def queue_frame_def flush_to_def flush_loop.simps
      pending_new_def enqueue_frame_def pending_len_def pending_compact_def MAX_PENDING_WRITE_BYTES_def
      to_be_bytes_u16_def)
  from queued_frames_intact [OF run] wire run show ?thesis by auto
qed

text \<open>C18: end to end over one stream: when a peer reads, in any fragmentation, a prefix of the
bytes the sender's kernel took, the frames its successive calls return are a prefix of the frames
the sender accepted, in order, unmodified, with no frame invented.\<close>

theorem frames_delivered_in_order:
  assumes "send_run (conn_new s) frames = Some (results, a)" and "st_wire s = []"
    and "receive_run (conn_new s2) n = Some (delivered, b)"
    and "prefix (received_bytes (st_reads s2)) (st_wire (cs_stream a))"
  shows "\<exists>accepted. subseq accepted frames \<and> prefix delivered accepted
    \<and> (list_all (\<lambda>r. r = Ok ()) results \<longrightarrow> accepted = frames)"
proof -
  have "conn_content (conn_new s) = []"
    using assms(2) by (simp add: conn_content_def conn_new_def pending_new_def)
  with send_run_content [OF assms(1)] obtain acc where acc: "subseq acc frames"
    "\<forall>f \<in> set acc. length f \<le> 65535" "conn_content a = concat (map encode_frame acc)"
    "list_all (\<lambda>r. r = Ok ()) results \<longrightarrow> acc = frames" by auto
  from assms(4) acc(3) obtain x where x: "received_bytes (st_reads s2) @ x = concat (map encode_frame acc)"
    by (auto simp: conn_content_def prefix_def)
  have "stream_ahead (conn_new s2) = received_bytes (st_reads s2)"
    by (simp add: stream_ahead_def conn_new_def)
  with receive_run_bytes [OF assms(3)] x
  have "concat (map encode_frame delivered) @ stream_ahead b @ x = concat (map encode_frame acc)"
    and "\<forall>f \<in> set delivered. length f \<le> 65535" by (metis append.assoc)+
  then have "prefix delivered acc" by (rule frames_unique) (fact acc(2))
  with acc show ?thesis by blast
qed

definition example_reads :: "read_result list" where
  "example_reads = [Received [0], ReadErr WouldBlock, Received [1], Received [7, 0], ReadErr WouldBlock]"

theorem frames_delivered_in_order_witness:
  "\<exists>results a b. send_run (conn_new \<lparr>st_writes = example_writes, st_reads = [], st_wire = []\<rparr>) [[7], [8, 9]]
      = Some (results, a)
    \<and> receive_run (conn_new \<lparr>st_writes = [], st_reads = example_reads, st_wire = []\<rparr>) 2 = Some ([[7]], b)
    \<and> (\<exists>accepted. subseq accepted [[7], [8, 9]] \<and> prefix [[7]] accepted)"
proof -
  let ?s = "\<lparr>st_writes = example_writes, st_reads = [], st_wire = []\<rparr> :: tcp_stream"
  let ?t = "\<lparr>st_writes = [], st_reads = example_reads, st_wire = []\<rparr> :: tcp_stream"
  obtain results a where run: "send_run (conn_new ?s) [[7], [8, 9]] = Some (results, a)"
    and wire: "st_wire (cs_stream a) = [0, 1, 7, 0]"
    by (simp add: conn_new_def example_writes_def queue_frame_def flush_to_def flush_loop.simps
      pending_new_def enqueue_frame_def pending_len_def pending_compact_def MAX_PENDING_WRITE_BYTES_def
      to_be_bytes_u16_def)
  obtain b where recv: "receive_run (conn_new ?t) 2 = Some ([[7]], b)"
    by (simp add: numeral_2_eq_2 conn_new_def example_reads_def try_read_frame_def flush_to_def
      flush_loop.simps pending_new_def assemble_frame_def from_be_bytes_u16_def Let_def)
  have "prefix (received_bytes (st_reads ?t)) (st_wire (cs_stream a))"
    by (simp add: received_bytes_def example_reads_def wire)
  from frames_delivered_in_order [OF run _ recv this] run recv show ?thesis by auto
qed

subsection \<open>When calls return\<close>

text \<open>Results that end a loop of writes and a loop of reads.\<close>

fun ends_writing :: "write_result \<Rightarrow> bool" where
  "ends_writing (Wrote n) = (n = 0)"
| "ends_writing (WriteErr e) = (e \<noteq> Interrupted)"

fun ends_reading :: "read_result \<Rightarrow> bool" where
  "ends_reading (Received bs) = (bs = [])"
| "ends_reading (ReadErr e) = (e \<noteq> Interrupted \<and> e \<noteq> TimedOut)"

lemma flush_loop_returns:
  assumes "list_ex ends_writing script"
  shows "flush_loop script p wire \<noteq> None"
  using assms
proof (induction script arbitrary: p wire)
  case (Cons r script)
  then show ?case
    by (cases r) (auto simp: flush_loop.simps [of "_ # _"])
qed simp

lemma flush_loop_script:
  assumes "flush_loop script p wire = Some (r, p', script', wire')"
  shows "suffix script' script"
  using assms
proof (induction script arbitrary: p wire)
  case Nil
  then show ?case by (simp add: flush_loop.simps [of "[]"] split: if_splits)
next
  case (Cons x script)
  then show ?case
    by (cases x) (auto simp: flush_loop.simps [of "_ # _"] suffix_ConsI split: if_splits)
qed

lemma read_loop_returns: "list_ex ends_reading script \<Longrightarrow> read_loop script buf \<noteq> None"
proof (induction script arbitrary: buf)
  case (Cons r script)
  then show ?case by (cases r) auto
qed simp

text \<open>C34: a call to read a frame returns as soon as the kernel ends a write and a read: by
accepting nothing, by blocking, by the end of the stream or by any error that the loops do not
retry. Only an endless supply of partial progress, interruptions and read timeouts keeps it from
returning.\<close>

theorem reading_returns:
  assumes "list_ex ends_writing (st_writes (cs_stream c))"
    and "list_ex ends_reading (st_reads (cs_stream c))"
  shows "\<exists>r c'. try_read_frame c = Some (r, c')
    \<and> pw_limit (cs_pending c') = pw_limit (cs_pending c)"
proof -
  obtain r p script wire where f: "flush_loop (st_writes (cs_stream c)) (cs_pending c) (st_wire (cs_stream c))
      = Some (r, p, script, wire)"
    using flush_loop_returns [OF assms(1)] by (metis not_None_eq prod_cases4)
  obtain r2 reads buf where l: "read_loop (st_reads (cs_stream c)) (cs_read_buf c) = Some (r2, reads, buf)"
    using read_loop_returns [OF assms(2)] by (metis not_None_eq prod_cases3)
  from flush_loop_preserves [OF f] have "pw_limit p = pw_limit (cs_pending c)" by simp
  with f l show ?thesis
    by (cases r; cases r2; cases "assemble_frame buf") (auto simp: try_read_frame_def flush_to_def Let_def)
qed

theorem reading_returns_witness:
  "\<exists>r c'. try_read_frame (conn_new \<lparr>st_writes = example_writes, st_reads = example_reads, st_wire = []\<rparr>)
    = Some (r, c')"
  using reading_returns [of "conn_new \<lparr>st_writes = example_writes, st_reads = example_reads, st_wire = []\<rparr>"]
  by (auto simp: conn_new_def example_writes_def example_reads_def)

text \<open>A complete frame that arrives together with the end of the stream is not delivered: the end
is reported before the buffer is looked at, and the transport then drops the connection with it.\<close>

lemma frame_before_eof_lost:
  "recv_pass 100 [(a, conn_new \<lparr>st_writes = [], st_reads = [Received [0, 1, 7], Received []], st_wire = []\<rparr>)] []
    = Some (None, [])"
  by (simp add: conn_new_def pending_new_def try_read_frame_def flush_to_def flush_loop.simps Let_def)

end
