(* ===== verification/Tcp_Threads.thy ===== *)
theory Tcp_Threads
  imports Tcp
begin

text \<open>
  The transport of \<^verbatim>\<open>src/src/tcp_transport.rs\<close> under threads that interleave: the threads of the
  daemon and the one that accepts connections share the map of connections, and every connection
  is behind an \<open>Arc<Mutex<ConnState>>\<close>. An \<open>Arc\<close> is the number of its connection in the order
  they are made. One event stands for every section that holds a lock, and for every dial.
  Poisoned locks are left out.
\<close>

text \<open>Where a thread is: in \<open>send_to\<close> while it dials or before it locks the connection, in
\<open>recv_from\<close> with the rest of its snapshot, or out of both with the result of its last call.\<close>

datatype 'a tcp_thread =
    Outside
  | Dialing bytes 'a
  | Queueing bytes nat
  | SendReturned "(error_kind, nat) result"
  | Scanning nat "('a \<times> nat) list"
  | Removing 'a nat "('a \<times> nat) list"
  | RecvReturned bytes 'a

record ('a, 't) tcp_threads =
  tt_connections :: "('a, nat) hmap"
  tt_states :: "conn_state list"
  tt_threads :: "'t \<Rightarrow> 'a tcp_thread"

definition tcp_start :: "('a, 't) tcp_threads" where
  "tcp_start = \<lparr>tt_connections = [], tt_states = [], tt_threads = (\<lambda>_. Outside)\<rparr>"

text \<open>A new stream, by what its writes and its reads will return.\<close>

type_synonym kernel_side = "write_result list \<times> read_result list"

definition fresh_stream :: "kernel_side \<Rightarrow> tcp_stream" where
  "fresh_stream k = \<lparr>st_writes = fst k, st_reads = snd k, st_wire = []\<rparr>"

datatype ('a, 't) tcp_event =
    SendTo 't bytes 'a
  | Dial 't "(error_kind, kernel_side) result"
  | LockAndQueue 't
  | RecvFrom 't nat
  | NextPass 't
  | LockAndRead 't
  | RemoveBroken 't
  | AcceptOne "(error_kind, kernel_side \<times> 'a) result"

fun outside :: "'a tcp_thread \<Rightarrow> bool" where
  "outside Outside = True"
| "outside (SendReturned r) = True"
| "outside (RecvReturned bs a) = True"
| "outside _ = False"

definition thread_to :: "'t \<Rightarrow> 'a tcp_thread \<Rightarrow> ('a, 't) tcp_threads \<Rightarrow> ('a, 't) tcp_threads" where
  "thread_to t th s = s\<lparr>tt_threads := (tt_threads s)(t := th)\<rparr>"

definition set_state :: "nat \<Rightarrow> conn_state \<Rightarrow> ('a, 't) tcp_threads \<Rightarrow> ('a, 't) tcp_threads" where
  "set_state i c s = s\<lparr>tt_states := (tt_states s)[i := c]\<rparr>"

text \<open>\<open>Arc::new\<close> and the insertion into the map.\<close>

definition add_connection :: "'a \<Rightarrow> kernel_side \<Rightarrow> ('a, 't) tcp_threads \<Rightarrow> ('a, 't) tcp_threads" where
  "add_connection addr k s =
    s\<lparr>tt_connections := hm_insert addr (length (tt_states s)) (tt_connections s),
      tt_states := tt_states s @ [conn_new (fresh_stream k)]\<rparr>"

text \<open>What \<open>recv_from\<close> does with the result of one connection.\<close>

fun after_reading ::
    "'a \<Rightarrow> nat \<Rightarrow> ('a \<times> nat) list \<Rightarrow> (error_kind, bytes option) result \<Rightarrow> 'a tcp_thread" where
  "after_reading addr limit entries (Inr (Some frame)) = RecvReturned (take limit frame) addr"
| "after_reading addr limit entries (Inr None) = Scanning limit entries"
| "after_reading addr limit entries (Inl e) = Removing addr limit entries"

text \<open>\<open>None\<close>: the thread is not in a position to do this, or the call into the kernel does not
return.\<close>

fun tcp_step :: "('a, 't) tcp_event \<Rightarrow> ('a, 't) tcp_threads \<Rightarrow> ('a, 't) tcp_threads option" where
  "tcp_step (SendTo t frame endpoint) s =
    (if \<not> outside (tt_threads s t) then None
     else
       case hm_get (tt_connections s) endpoint of
         Some i \<Rightarrow> Some (thread_to t (Queueing frame i) s)
       | None \<Rightarrow> Some (thread_to t (Dialing frame endpoint) s))"
| "tcp_step (Dial t connected) s =
    (case tt_threads s t of
       Dialing frame endpoint \<Rightarrow>
         (case connected of
            Inl e \<Rightarrow> Some (thread_to t (SendReturned (Err e)) s)
          | Inr k \<Rightarrow> Some (thread_to t (Queueing frame (length (tt_states s))) (add_connection endpoint k s)))
     | _ \<Rightarrow> None)"
| "tcp_step (LockAndQueue t) s =
    (case tt_threads s t of
       Queueing frame i \<Rightarrow>
         map_option (\<lambda>(r, c). thread_to t (SendReturned (case r of Inl e \<Rightarrow> Err e | Inr _ \<Rightarrow> Ok (length frame)))
             (set_state i c s))
           (queue_frame (tt_states s ! i) frame)
     | _ \<Rightarrow> None)"
| "tcp_step (RecvFrom t limit) s =
    (if \<not> outside (tt_threads s t) then None else Some (thread_to t (Scanning limit (tt_connections s)) s))"
| "tcp_step (NextPass t) s =
    (case tt_threads s t of
       Scanning limit [] \<Rightarrow> Some (thread_to t (Scanning limit (tt_connections s)) s)
     | _ \<Rightarrow> None)"
| "tcp_step (LockAndRead t) s =
    (case tt_threads s t of
       Scanning limit ((addr, i) # entries) \<Rightarrow>
         map_option (\<lambda>(r, c). thread_to t (after_reading addr limit entries r) (set_state i c s))
           (try_read_frame (tt_states s ! i))
     | _ \<Rightarrow> None)"
| "tcp_step (RemoveBroken t) s =
    (case tt_threads s t of
       Removing addr limit entries \<Rightarrow>
         Some (thread_to t (Scanning limit entries) (s\<lparr>tt_connections := hm_remove addr (tt_connections s)\<rparr>))
     | _ \<Rightarrow> None)"
| "tcp_step (AcceptOne accepted) s =
    (case accepted of Inl _ \<Rightarrow> Some s | Inr (k, addr) \<Rightarrow> Some (add_connection addr k s))"

fun tcp_run :: "('a, 't) tcp_event list \<Rightarrow> ('a, 't) tcp_threads \<Rightarrow> ('a, 't) tcp_threads option" where
  "tcp_run [] s = Some s"
| "tcp_run (e # es) s = (case tcp_step e s of None \<Rightarrow> None | Some s' \<Rightarrow> tcp_run es s')"

lemma tcp_run_append:
  "tcp_run (es @ es') s = (case tcp_run es s of None \<Rightarrow> None | Some s' \<Rightarrow> tcp_run es' s')"
  by (induction es arbitrary: s) (auto split: option.splits)

subsection \<open>The invariant\<close>

fun held :: "'a tcp_thread \<Rightarrow> nat set" where
  "held (Queueing frame i) = {i}"
| "held (Scanning limit entries) = snd ` set entries"
| "held (Removing addr limit entries) = snd ` set entries"
| "held _ = {}"

definition conn_ok :: "conn_state \<Rightarrow> bool" where
  "conn_ok c \<longleftrightarrow> pw_limit (cs_pending c) = MAX_PENDING_WRITE_BYTES
    \<and> pending_len (cs_pending c) \<le> MAX_PENDING_WRITE_BYTES"

definition tcp_ok :: "('a, 't) tcp_threads \<Rightarrow> bool" where
  "tcp_ok s \<longleftrightarrow>
    hm_wf (tt_connections s) \<and> distinct (map snd (tt_connections s))
    \<and> snd ` set (tt_connections s) \<subseteq> {..<length (tt_states s)}
    \<and> (\<forall>t. held (tt_threads s t) \<subseteq> {..<length (tt_states s)})
    \<and> (\<forall>c \<in> set (tt_states s). conn_ok c)"

lemma thread_to_simps [simp]:
  "tt_connections (thread_to t th s) = tt_connections s" "tt_states (thread_to t th s) = tt_states s"
  "tt_threads (thread_to t th s) = (tt_threads s)(t := th)"
  by (simp_all add: thread_to_def)

lemma set_state_simps [simp]:
  "tt_connections (set_state i c s) = tt_connections s" "tt_states (set_state i c s) = (tt_states s)[i := c]"
  "tt_threads (set_state i c s) = tt_threads s"
  by (simp_all add: set_state_def)

lemma add_connection_simps [simp]:
  "tt_connections (add_connection a k s) = hm_insert a (length (tt_states s)) (tt_connections s)"
  "tt_states (add_connection a k s) = tt_states s @ [conn_new (fresh_stream k)]"
  "tt_threads (add_connection a k s) = tt_threads s"
  by (simp_all add: add_connection_def)

lemma snd_insert: "snd ` set (hm_insert k v m) \<subseteq> insert v (snd ` set m)"
  by (induction m) auto

lemma snd_remove: "snd ` set (hm_remove k m) \<subseteq> snd ` set m"
  by (auto simp: AList.delete_eq)

lemma remove_insert: "hm_remove k (hm_insert k v m) = hm_remove k m"
  by (induction m) (auto simp: AList.delete_eq)

lemma distinct_snd_insert:
  "distinct (map snd m) \<Longrightarrow> v \<notin> snd ` set m \<Longrightarrow> distinct (map snd (hm_insert k v m))"
proof (induction m)
  case (Cons x m)
  then show ?case using snd_insert [of k v m] by (cases x) auto
qed simp

lemma distinct_snd_remove: "distinct (map snd m) \<Longrightarrow> distinct (map snd (hm_remove k m))"
  by (auto simp: AList.delete_eq distinct_map intro: inj_on_subset)

lemma fresh_conn_ok: "conn_ok (conn_new s)"
  by (simp add: conn_ok_def conn_new_def pending_new_def pending_len_def)

lemma queue_frame_ok: "queue_frame c f = Some (r, c') \<Longrightarrow> conn_ok c \<Longrightarrow> conn_ok c'"
  using queue_frame_bounded [of c f r c'] by (simp add: conn_ok_def)

lemma try_read_frame_flushes:
  assumes "try_read_frame c = Some (r, c')"
  shows "\<exists>q p s. flush_to (cs_pending c) (cs_stream c) = Some (q, p, s)
    \<and> cs_pending c' = p \<and> st_wire (cs_stream c') = st_wire s"
  using assms by (auto simp: try_read_frame_def Let_def split: option.splits prod.splits sum.splits)

lemma try_read_frame_writes:
  assumes "try_read_frame c = Some (r, c')"
  shows "conn_content c' = conn_content c" and "conn_ok c \<Longrightarrow> conn_ok c'"
proof -
  obtain q p s where f: "flush_to (cs_pending c) (cs_stream c) = Some (q, p, s)"
    "cs_pending c' = p" "st_wire (cs_stream c') = st_wire s"
    using try_read_frame_flushes [OF assms] by blast
  from flush_to_preserves(1) [OF f(1)] f(2,3) show "conn_content c' = conn_content c"
    by (simp add: conn_content_def)
  from flush_to_preserves(2) [OF f(1)] flush_shrinks [OF f(1)] f(2) show "conn_ok c \<Longrightarrow> conn_ok c'"
    by (simp add: conn_ok_def pending_len_def)
qed

lemma set_update_ok: "(\<forall>c \<in> set cs. conn_ok c) \<Longrightarrow> conn_ok c' \<Longrightarrow> \<forall>c \<in> set (cs[i := c']). conn_ok c"
  by (auto dest: subsetD [OF set_update_subset_insert])

text \<open>The two events that work on a connection.\<close>

lemma LockAndQueueE:
  assumes "tcp_step (LockAndQueue t) s = Some s'"
  obtains frame i r c x where "tt_threads s t = Queueing frame i"
    and "queue_frame (tt_states s ! i) frame = Some (r, c)"
    and "s' = thread_to t (SendReturned x) (set_state i c s)"
    and "x = (case r of Inl e \<Rightarrow> Err e | Inr _ \<Rightarrow> Ok (length frame))"
  using assms by (auto split: tcp_thread.splits)

lemma LockAndReadE:
  assumes "tcp_step (LockAndRead t) s = Some s'"
  obtains limit addr i entries r c where "tt_threads s t = Scanning limit ((addr, i) # entries)"
    and "try_read_frame (tt_states s ! i) = Some (r, c)"
    and "s' = thread_to t (after_reading addr limit entries r) (set_state i c s)"
  using assms by (auto split: tcp_thread.splits list.splits)

lemma held_after_reading: "held (after_reading addr limit entries r) \<subseteq> snd ` set entries"
  by (cases "(addr, limit, entries, r)" rule: after_reading.cases) simp_all

text \<open>What changes the map, the connections and one thread keeps the invariant.\<close>

lemma thread_ok: "tcp_ok s \<Longrightarrow> held th \<subseteq> {..<length (tt_states s)} \<Longrightarrow> tcp_ok (thread_to t th s)"
  by (auto simp: tcp_ok_def)

lemma state_ok: "tcp_ok s \<Longrightarrow> conn_ok c \<Longrightarrow> tcp_ok (set_state i c s)"
  unfolding tcp_ok_def set_state_simps length_list_update by (elim conjE) (intro conjI set_update_ok)

lemma add_ok:
  assumes "tcp_ok s"
  shows "tcp_ok (add_connection addr k s)"
proof -
  let ?n = "length (tt_states s)"
  from assms have "snd ` set (tt_connections s) \<subseteq> {..<?n}" by (simp add: tcp_ok_def)
  then have "snd ` set (hm_insert addr ?n (tt_connections s)) \<subseteq> {..<Suc ?n}" and "?n \<notin> snd ` set (tt_connections s)"
    using snd_insert [of addr ?n "tt_connections s"] by fastforce+
  moreover have "held (tt_threads s t) \<subseteq> {..<Suc ?n}" for t
    using assms less_Suc_eq by (fastforce simp: tcp_ok_def)
  ultimately show ?thesis
    using assms by (simp add: tcp_ok_def distinct_update distinct_snd_insert fresh_conn_ok)
qed

lemma remove_ok:
  assumes "tcp_ok s"
  shows "tcp_ok (s\<lparr>tt_connections := hm_remove addr (tt_connections s)\<rparr>)"
  using assms snd_remove [of addr "tt_connections s"]
  by (auto simp: tcp_ok_def distinct_delete distinct_snd_remove)

lemma map_in_range: "tcp_ok s \<Longrightarrow> snd ` set (tt_connections s) \<subseteq> {..<length (tt_states s)}"
  by (simp add: tcp_ok_def)

lemma arc_in_range: "tcp_ok s \<Longrightarrow> i \<in> held (tt_threads s t) \<Longrightarrow> i < length (tt_states s)"
  by (auto simp: tcp_ok_def)

lemma arc_ok: "tcp_ok s \<Longrightarrow> i \<in> held (tt_threads s t) \<Longrightarrow> conn_ok (tt_states s ! i)"
  using arc_in_range by (fastforce simp: tcp_ok_def)

lemma get_in_range: "tcp_ok s \<Longrightarrow> hm_get (tt_connections s) a = Some i \<Longrightarrow> i < length (tt_states s)"
  by (auto simp: tcp_ok_def dest!: map_of_SomeD)

lemma tcp_step_ok:
  assumes ok: "tcp_ok s" and step: "tcp_step e s = Some s'"
  shows "tcp_ok s'"
proof (cases e)
  case (SendTo t frame endpoint)
  with step ok show ?thesis
    by (auto split: if_splits option.splits intro!: thread_ok dest: get_in_range)
next
  case (Dial t connected)
  with step ok show ?thesis
    by (auto split: tcp_thread.splits sum.splits intro!: thread_ok add_ok)
next
  case (LockAndQueue t)
  from step [unfolded this] show ?thesis
  proof (cases rule: LockAndQueueE)
    case (1 frame i r c x)
    then have "conn_ok c" using queue_frame_ok [OF _ arc_ok [OF ok, of i t]] by simp
    with ok 1(3) show ?thesis by (auto intro!: thread_ok state_ok)
  qed
next
  case (RecvFrom t limit)
  with step have "s' = thread_to t (Scanning limit (tt_connections s)) s" by (simp split: if_splits)
  with thread_ok [OF ok] map_in_range [OF ok] show ?thesis by simp
next
  case (NextPass t)
  with step obtain limit where "s' = thread_to t (Scanning limit (tt_connections s)) s"
    by (auto split: tcp_thread.splits list.splits)
  with thread_ok [OF ok] map_in_range [OF ok] show ?thesis by simp
next
  case (LockAndRead t)
  from step [unfolded this] show ?thesis
  proof (cases rule: LockAndReadE)
    case (1 limit addr i entries r c)
    then have "conn_ok c" using try_read_frame_writes(2) [OF _ arc_ok [OF ok, of i t]] by simp
    have "snd ` set entries \<subseteq> {..<length (tt_states s)}"
      using arc_in_range [OF ok, of _ t] 1(1) by auto
    from subset_trans [OF held_after_reading this] \<open>conn_ok c\<close> show ?thesis
      unfolding 1(3) by (intro thread_ok state_ok ok) (simp_all only: set_state_simps length_list_update)
  qed
next
  case (RemoveBroken t)
  with step obtain a limit es where th: "tt_threads s t = Removing a limit es"
    and s': "s' = thread_to t (Scanning limit es) (s\<lparr>tt_connections := hm_remove a (tt_connections s)\<rparr>)"
    by (auto split: tcp_thread.splits)
  have "snd ` set es \<subseteq> {..<length (tt_states s)}" using ok th unfolding tcp_ok_def by (metis held.simps(3))
  then show ?thesis unfolding s' by (intro thread_ok remove_ok ok) simp
next
  case (AcceptOne accepted)
  with step ok show ?thesis by (auto split: sum.splits intro: add_ok)
qed

interpretation tcp: state_machine "\<lambda>s. s = tcp_start" "\<lambda>s s'. \<exists>e. tcp_step e s = Some s'" tcp_ok
proof unfold_locales
  show "s = tcp_start \<Longrightarrow> tcp_ok s" for s :: "('a, 't) tcp_threads" by (simp add: tcp_start_def tcp_ok_def)
  show "tcp_ok s \<Longrightarrow> \<exists>e. tcp_step e s = Some s' \<Longrightarrow> tcp_ok s'" for s s' :: "('a, 't) tcp_threads"
    by (blast intro: tcp_step_ok)
qed

lemma tcp_run_steps: "tcp_run es s = Some s' \<Longrightarrow> (\<lambda>s s'. \<exists>e. tcp_step e s = Some s')\<^sup>*\<^sup>* s s'"
proof (induction es arbitrary: s)
  case (Cons e es)
  then obtain s1 where "tcp_step e s = Some s1" and "tcp_run es s1 = Some s'" by (auto split: option.splits)
  with Cons.IH show ?case by (blast intro: converse_rtranclp_into_rtranclp)
qed simp

lemma tcp_run_ok: "tcp_run es s = Some s' \<Longrightarrow> tcp_ok s \<Longrightarrow> tcp_ok s'"
  by (rule tcp.steps_inv [OF tcp_run_steps])

subsection \<open>The streams\<close>

text \<open>The frame that an event hands to a connection, and whether it is accepted.\<close>

definition queued_by :: "('a, 't) tcp_event \<Rightarrow> ('a, 't) tcp_threads \<Rightarrow> nat \<Rightarrow> bytes list" where
  "queued_by e s i =
    (case e of
       LockAndQueue t \<Rightarrow>
         (case tt_threads s t of Queueing frame j \<Rightarrow> if j = i then [frame] else [] | _ \<Rightarrow> [])
     | _ \<Rightarrow> [])"

definition accepted_by :: "('a, 't) tcp_event \<Rightarrow> ('a, 't) tcp_threads \<Rightarrow> nat \<Rightarrow> bytes list" where
  "accepted_by e s i =
    (case queued_by e s i of
       [] \<Rightarrow> []
     | frame # fs \<Rightarrow> (case queue_frame (tt_states s ! i) frame of Some (Inr _, _) \<Rightarrow> [frame] | _ \<Rightarrow> []))"

text \<open>The frames of a run by connection, in the order in which the threads took its lock.\<close>

fun in_lock_order ::
    "(('a, 't) tcp_event \<Rightarrow> ('a, 't) tcp_threads \<Rightarrow> nat \<Rightarrow> bytes list) \<Rightarrow> nat
      \<Rightarrow> ('a, 't) tcp_event list \<Rightarrow> ('a, 't) tcp_threads \<Rightarrow> bytes list" where
  "in_lock_order frames i [] s = []"
| "in_lock_order frames i (e # es) s =
    (case tcp_step e s of None \<Rightarrow> [] | Some s' \<Rightarrow> frames e s i @ in_lock_order frames i es s')"

definition content_at :: "('a, 't) tcp_threads \<Rightarrow> nat \<Rightarrow> bytes" where
  "content_at s i = (if i < length (tt_states s) then conn_content (tt_states s ! i) else [])"

lemma content_fresh: "conn_content (conn_new (fresh_stream k)) = []"
  by (simp add: conn_content_def conn_new_def fresh_stream_def pending_new_def)

lemma content_at_simps [simp]:
  "content_at (thread_to t th s) i = content_at s i"
  "content_at (add_connection a k s) i = content_at s i"
  "content_at (s\<lparr>tt_connections := m\<rparr>) i = content_at s i"
  by (auto simp: content_at_def nth_append content_fresh less_Suc_eq)

lemma content_at_start: "content_at tcp_start i = []"
  by (simp add: content_at_def tcp_start_def)

lemma content_set_state:
  "j < length (tt_states s) \<Longrightarrow> content_at (set_state j c s) i = (if i = j then conn_content c else content_at s i)"
  by (simp add: content_at_def)

text \<open>One event adds at most the encoding of the frame it queues to one stream.\<close>

lemma tcp_step_content:
  assumes ok: "tcp_ok s" and step: "tcp_step e s = Some s'"
  shows "\<exists>fs. subseq (accepted_by e s i) fs \<and> subseq fs (queued_by e s i) \<and> (\<forall>f \<in> set fs. length f \<le> 65535)
    \<and> content_at s' i = content_at s i @ concat (map encode_frame fs)"
proof (cases "\<exists>t. e = LockAndQueue t")
  case True
  then obtain t where e: "e = LockAndQueue t" ..
  obtain frame j r c x where th: "tt_threads s t = Queueing frame j"
    and q: "queue_frame (tt_states s ! j) frame = Some (r, c)"
    and s': "s' = thread_to t (SendReturned x) (set_state j c s)"
    using step [unfolded e] by (rule LockAndQueueE)
  have j: "j < length (tt_states s)" using arc_in_range [OF ok, of j t] th by simp
  have content: "content_at s' i = (if i = j then conn_content c else content_at s i)"
    by (simp add: s' content_set_state [OF j])
  have queued: "queued_by e s i = (if j = i then [frame] else [])" by (simp add: queued_by_def e th)
  show ?thesis
  proof (cases "i = j")
    case False
    with content queued show ?thesis by (intro exI [of _ "[]"]) (simp add: accepted_by_def)
  next
    case True
    from queue_frame_content [OF q] show ?thesis
    proof
      assume "conn_content c = conn_content (tt_states s ! j) \<and> r \<noteq> Ok ()"
      then show ?thesis using content queued True q j
        by (intro exI [of _ "[]"]) (auto simp: accepted_by_def content_at_def split: sum.splits)
    next
      assume "conn_content c = conn_content (tt_states s ! j) @ encode_frame frame \<and> length frame \<le> 65535"
      then show ?thesis using content queued True q j
        by (intro exI [of _ "[frame]"]) (auto simp: accepted_by_def content_at_def split: sum.splits)
    qed
  qed
next
  case False
  then have none: "queued_by e s i = []" by (cases e) (simp_all add: queued_by_def)
  have "content_at s' i = content_at s i"
  proof (cases "\<exists>t. e = LockAndRead t")
    case True
    then obtain t where e: "e = LockAndRead t" ..
    from step [unfolded e] show ?thesis
    proof (cases rule: LockAndReadE)
      case (1 limit addr j entries r c)
      have "j < length (tt_states s)" using arc_in_range [OF ok, of j t] 1(1) by simp
      with try_read_frame_writes(1) [OF 1(2)] show ?thesis
        by (cases "i = j") (simp_all add: 1(3) content_set_state content_at_def)
    qed
  next
    case other: False
    with False step show ?thesis
      by (cases e) (auto split: if_splits option.splits tcp_thread.splits sum.splits list.splits)
  qed
  with none show ?thesis by (intro exI [of _ "[]"]) (simp add: accepted_by_def)
qed

lemma tcp_run_content:
  assumes "tcp_ok s" and "tcp_run es s = Some s'"
  shows "\<exists>fs. subseq (in_lock_order accepted_by i es s) fs \<and> subseq fs (in_lock_order queued_by i es s)
    \<and> (\<forall>f \<in> set fs. length f \<le> 65535) \<and> content_at s' i = content_at s i @ concat (map encode_frame fs)"
  using assms
proof (induction es arbitrary: s)
  case Nil
  then show ?case by (intro exI [of _ "[]"]) simp
next
  case (Cons e es)
  then obtain s1 where step: "tcp_step e s = Some s1" and rest: "tcp_run es s1 = Some s'"
    by (auto split: option.splits)
  from tcp_step_content [OF Cons.prems(1) step, of i] obtain fs where fs: "subseq (accepted_by e s i) fs"
    "subseq fs (queued_by e s i)" "\<forall>f \<in> set fs. length f \<le> 65535"
    "content_at s1 i = content_at s i @ concat (map encode_frame fs)" by blast
  from Cons.IH [OF tcp_step_ok [OF Cons.prems(1) step] rest] obtain gs where
    "subseq (in_lock_order accepted_by i es s1) gs" "subseq gs (in_lock_order queued_by i es s1)"
    "\<forall>f \<in> set gs. length f \<le> 65535" "content_at s' i = content_at s1 i @ concat (map encode_frame gs)" by blast
  with fs show ?case by (intro exI [of _ "fs @ gs"]) (auto simp: step intro: list_emb_append_mono)
qed

subsection \<open>Connections that nothing refers to\<close>

definition unreferenced :: "nat \<Rightarrow> ('a, 't) tcp_threads \<Rightarrow> bool" where
  "unreferenced i s \<longleftrightarrow> i < length (tt_states s) \<and> i \<notin> snd ` set (tt_connections s)
    \<and> (\<forall>t. i \<notin> held (tt_threads s t))"

lemma unreferenced_thread:
  "unreferenced i s \<Longrightarrow> i \<notin> held th \<Longrightarrow> unreferenced i (thread_to t th s)"
  by (simp add: unreferenced_def)

lemma unreferenced_other:
  "unreferenced i s \<Longrightarrow> unreferenced i (set_state j c s)"
  "unreferenced i s \<Longrightarrow> unreferenced i (add_connection a k s)"
  "unreferenced i s \<Longrightarrow> unreferenced i (s\<lparr>tt_connections := hm_remove a (tt_connections s)\<rparr>)"
  using snd_insert [of a "length (tt_states s)" "tt_connections s"] snd_remove [of a "tt_connections s"]
  by (auto simp: unreferenced_def)

lemma unreferenced_get: "unreferenced i s \<Longrightarrow> hm_get (tt_connections s) a \<noteq> Some i"
  by (force simp: unreferenced_def dest: map_of_SomeD)

lemma unreferenced_held: "unreferenced i s \<Longrightarrow> tt_threads s t = th \<Longrightarrow> i \<notin> held th"
  by (auto simp: unreferenced_def)

lemma tcp_step_unreferenced:
  assumes "unreferenced i s" and step: "tcp_step e s = Some s'"
  shows "unreferenced i s' \<and> tt_states s' ! i = tt_states s ! i"
proof -
  note un = assms(1) unreferenced_held [OF assms(1)] unreferenced_get [OF assms(1)]
  have i: "i < length (tt_states s)" and map: "i \<notin> snd ` set (tt_connections s)"
    using assms(1) by (simp_all add: unreferenced_def)
  show ?thesis
  proof (cases e)
    case (SendTo t frame endpoint)
    with step un show ?thesis by (auto split: if_splits option.splits intro!: unreferenced_thread)
  next
    case (Dial t connected)
    with step un i show ?thesis
      by (auto split: tcp_thread.splits sum.splits intro!: unreferenced_thread unreferenced_other simp: nth_append)
  next
    case (LockAndQueue t)
    from step [unfolded this] show ?thesis
    proof (cases rule: LockAndQueueE)
      case (1 frame j r c x)
      with un(2) [of t] have "j \<noteq> i" by auto
      with un(1) 1(3) show ?thesis by (auto intro!: unreferenced_thread unreferenced_other)
    qed
  next
    case (RecvFrom t limit)
    with step un map show ?thesis by (auto split: if_splits intro!: unreferenced_thread)
  next
    case (NextPass t)
    with step un map show ?thesis by (auto split: tcp_thread.splits list.splits intro!: unreferenced_thread)
  next
    case (LockAndRead t)
    from step [unfolded this] show ?thesis
    proof (cases rule: LockAndReadE)
      case (1 limit addr j entries r c)
      with un(2) [of t] have "j \<noteq> i" and "i \<notin> snd ` set entries" by auto
      with un(1) 1(3) held_after_reading [of addr limit entries r] show ?thesis
        by (auto intro!: unreferenced_thread unreferenced_other)
    qed
  next
    case (RemoveBroken t)
    with step obtain a limit es where th: "tt_threads s t = Removing a limit es"
      and s': "s' = thread_to t (Scanning limit es) (s\<lparr>tt_connections := hm_remove a (tt_connections s)\<rparr>)"
      by (auto split: tcp_thread.splits)
    from un(2) [OF th] un(1) show ?thesis by (auto simp: s' intro!: unreferenced_thread unreferenced_other)
  next
    case (AcceptOne accepted)
    with step un i show ?thesis by (auto split: sum.splits intro!: unreferenced_other simp: nth_append)
  qed
qed

lemma tcp_run_unreferenced:
  "unreferenced i s \<Longrightarrow> tcp_run es s = Some s' \<Longrightarrow> unreferenced i s' \<and> tt_states s' ! i = tt_states s ! i"
proof (induction es arbitrary: s)
  case (Cons e es)
  then obtain s1 where "tcp_step e s = Some s1" and "tcp_run es s1 = Some s'" by (auto split: option.splits)
  with Cons.IH Cons.prems(1) tcp_step_unreferenced show ?case by metis
qed simp

lemma queue_on_blocked:
  assumes "length frame \<le> 65535"
  shows "\<exists>c. queue_frame (conn_new (fresh_stream (WriteErr WouldBlock # ws, rs))) frame = Some (Ok (), c)
    \<and> st_wire (cs_stream c) = [] \<and> pending_bytes (cs_pending c) = encode_frame frame"
  using assms
  by (simp add: queue_frame_def conn_new_def fresh_stream_def flush_to_def flush_loop.simps pending_new_def
      enqueue_frame_def pending_len_def pending_compact_def MAX_PENDING_WRITE_BYTES_def encode_frame_def Let_def)

subsection \<open>Alone, a call is the sequential one\<close>

definition connections_of :: "('a, 't) tcp_threads \<Rightarrow> 'a connections" where
  "connections_of s = map (\<lambda>(a, i). (a, tt_states s ! i)) (tt_connections s)"

lemma connections_get:
  "hm_get (connections_of s) a = map_option (\<lambda>i. tt_states s ! i) (hm_get (tt_connections s) a)"
  by (simp add: connections_of_def map_of_map)

lemma map_value_update:
  "map (\<lambda>(a, i). (a, g i)) (hm_insert k v m) = hm_insert k (g v) (map (\<lambda>(a, i). (a, g i)) m)"
  by (induction m) auto

lemma connections_thread [simp]: "connections_of (thread_to t th s) = connections_of s"
  by (simp add: connections_of_def)

lemma connections_remove:
  "connections_of (s\<lparr>tt_connections := hm_remove a (tt_connections s)\<rparr>) = hm_remove a (connections_of s)"
  by (simp add: connections_of_def AList.delete_eq filter_map o_def case_prod_unfold)

lemma connections_add:
  assumes "tcp_ok s"
  shows "connections_of (add_connection a k s) = hm_insert a (conn_new (fresh_stream k)) (connections_of s)"
proof -
  let ?g = "\<lambda>i. (tt_states s @ [conn_new (fresh_stream k)]) ! i"
  have "map (\<lambda>(b, i). (b, ?g i)) (tt_connections s) = connections_of s"
    unfolding connections_of_def using map_in_range [OF assms] by (auto simp: nth_append)
  then show ?thesis
    unfolding connections_of_def [of "add_connection a k s"] add_connection_simps map_value_update by simp
qed

lemma states_update_elsewhere:
  "i \<notin> snd ` set m \<Longrightarrow> map (\<lambda>(a, j). (a, cs[i := c] ! j)) m = map (\<lambda>(a, j). (a, cs ! j)) m"
  by (induction m) auto

lemma states_update_at:
  assumes "hm_get m a = Some i" and "hm_wf m" and "distinct (map snd m)" and "i < length cs"
  shows "map (\<lambda>(b, j). (b, cs[i := c] ! j)) m = hm_insert a c (map (\<lambda>(b, j). (b, cs ! j)) m)"
  using assms(1-3)
proof (induction m)
  case (Cons x m)
  obtain b j where x: "x = (b, j)" by (cases x)
  show ?case
  proof (cases "b = a")
    case True
    with Cons.prems x have "j = i" and "i \<notin> snd ` set m" by auto
    with True x assms(4) show ?thesis by (simp add: states_update_elsewhere)
  next
    case False
    with Cons.prems x have "hm_get m a = Some i" by simp
    then have "i \<in> snd ` set m" by (force dest: map_of_SomeD)
    with Cons.prems(3) x have "j \<noteq> i" by auto
    with Cons False x \<open>hm_get m a = Some i\<close> show ?thesis by simp
  qed
qed simp

lemma connections_set_state:
  assumes "tcp_ok s" and "hm_get (tt_connections s) a = Some i"
  shows "connections_of (set_state i c s) = hm_insert a c (connections_of s)"
  using states_update_at [OF assms(2), of "tt_states s" c] assms(1) get_in_range [OF assms]
  by (simp add: connections_of_def tcp_ok_def)

text \<open>\<open>send_to\<close>, with what the dial gives where one is needed.\<close>

definition dialed :: "(error_kind, kernel_side) result \<Rightarrow> 'a \<Rightarrow> (error_kind, tcp_stream) result" where
  "dialed r endpoint = (case r of Inl e \<Rightarrow> Err e | Inr k \<Rightarrow> Ok (fresh_stream k))"

lemma send_alone:
  assumes ok: "tcp_ok s" and out: "outside (tt_threads s t)"
    and call: "tcp_send_to (dialed r) (connections_of s) frame endpoint = Some (x, conns)"
  shows "\<exists>es s'. set es \<subseteq> {SendTo t frame endpoint, Dial t r, LockAndQueue t} \<and> tcp_run es s = Some s'
    \<and> tt_threads s' t = SendReturned x \<and> connections_of s' = conns"
proof (cases "hm_get (tt_connections s) endpoint")
  case (Some i)
  let ?s1 = "thread_to t (Queueing frame i) s"
  obtain q c where q: "queue_frame (tt_states s ! i) frame = Some (q, c)"
    and x: "x = (case q of Inl e \<Rightarrow> Err e | Inr _ \<Rightarrow> Ok (length frame))"
    and conns: "conns = hm_insert endpoint c (connections_of s)"
    using call Some by (auto simp: tcp_send_to_def get_or_dial_def connections_get)
  have "tcp_run [SendTo t frame endpoint, LockAndQueue t] s
      = Some (thread_to t (SendReturned x) (set_state i c ?s1))"
    using out Some q by (simp add: x)
  moreover have "connections_of (set_state i c ?s1) = conns"
    using connections_set_state [OF thread_ok [OF ok]] Some get_in_range [OF ok Some] by (simp add: conns)
  ultimately show ?thesis by (intro exI [of _ "[SendTo t frame endpoint, LockAndQueue t]"]) auto
next
  case None
  show ?thesis
  proof (cases r)
    case (Inl e)
    then have "x = Err e" "conns = connections_of s"
      using call None by (auto simp: tcp_send_to_def get_or_dial_def connections_get dialed_def)
    then show ?thesis using out None Inl by (intro exI [of _ "[SendTo t frame endpoint, Dial t r]"]) auto
  next
    case (Inr k)
    let ?n = "length (tt_states s)" and ?s1 = "add_connection endpoint k (thread_to t (Dialing frame endpoint) s)"
    let ?s2 = "thread_to t (Queueing frame ?n) ?s1"
    have new: "tt_states ?s1 ! ?n = conn_new (fresh_stream k)" by simp
    obtain q c where q: "queue_frame (conn_new (fresh_stream k)) frame = Some (q, c)"
      and x: "x = (case q of Inl e \<Rightarrow> Err e | Inr _ \<Rightarrow> Ok (length frame))"
      and conns: "conns = hm_insert endpoint c (connections_of s)"
      using call None Inr by (auto simp: tcp_send_to_def get_or_dial_def connections_get dialed_def)
    have ok1: "tcp_ok ?s1" using ok by (intro add_ok thread_ok) simp_all
    have "tcp_run [SendTo t frame endpoint, Dial t r, LockAndQueue t] s
        = Some (thread_to t (SendReturned x) (set_state ?n c ?s2))"
      using out None Inr q by (simp add: x)
    moreover have "connections_of (set_state ?n c ?s2) = conns"
      using connections_set_state [of ?s2 endpoint ?n c] thread_ok [OF ok1, of "Queueing frame ?n" t]
        connections_add [of "thread_to t (Dialing frame endpoint) s" endpoint k] thread_ok [OF ok, of "Dialing frame endpoint" t]
      by (simp add: conns)
    ultimately show ?thesis by (intro exI [of _ "[SendTo t frame endpoint, Dial t r, LockAndQueue t]"]) auto
  qed
qed

text \<open>One pass of \<open>recv_from\<close>, and all of them.\<close>

definition own_events :: "'t \<Rightarrow> ('a, 't) tcp_event list \<Rightarrow> bool" where
  "own_events t es \<longleftrightarrow> set es \<subseteq> {LockAndRead t, RemoveBroken t, NextPass t}"

lemma own_events_simps [simp]:
  "own_events t []" "own_events t (es @ es') \<longleftrightarrow> own_events t es \<and> own_events t es'"
  "own_events t (e # es) \<longleftrightarrow> e \<in> {LockAndRead t, RemoveBroken t, NextPass t} \<and> own_events t es"
  by (simp_all add: own_events_def)

fun pass_result :: "nat \<Rightarrow> (bytes \<times> 'a) option \<Rightarrow> 'a tcp_thread" where
  "pass_result limit None = Scanning limit []"
| "pass_result limit (Some (bs, a)) = RecvReturned bs a"

lemma scan_entry:
  assumes ok: "tcp_ok s" and scan: "tt_threads s t = Scanning limit ((a, i) # entries)"
    and get: "hm_get (tt_connections s) a = Some i" and read: "try_read_frame (tt_states s ! i) = Some (q, c)"
  shows "tcp_step (LockAndRead t) s = Some (thread_to t (after_reading a limit entries q) (set_state i c s))"
    and "tcp_ok (thread_to t (Scanning limit entries) (set_state i c s))"
    and "tcp_ok (thread_to t (Removing a limit entries) (set_state i c s))"
    and "connections_of (set_state i c s) = hm_insert a c (connections_of s)"
proof -
  have c: "conn_ok c" using try_read_frame_writes(2) [OF read arc_ok [OF ok, of i t]] scan by simp
  have within: "snd ` set entries \<subseteq> {..<length (tt_states s)}" using arc_in_range [OF ok, of _ t] scan by auto
  show "tcp_step (LockAndRead t) s = Some (thread_to t (after_reading a limit entries q) (set_state i c s))"
    using scan read get_in_range [OF ok get] by simp
  show "tcp_ok (thread_to t (Scanning limit entries) (set_state i c s))"
    and "tcp_ok (thread_to t (Removing a limit entries) (set_state i c s))"
    using thread_ok [OF state_ok [OF ok c]] within by simp_all
  show "connections_of (set_state i c s) = hm_insert a c (connections_of s)" by (rule connections_set_state [OF ok get])
qed

lemma scan_broken_entry:
  assumes ok: "tcp_ok s" and scan: "tt_threads s t = Scanning limit ((a, i) # entries)"
    and get: "hm_get (tt_connections s) a = Some i" and read: "try_read_frame (tt_states s ! i) = Some (Err e, c)"
  obtains s' where "tcp_run [LockAndRead t, RemoveBroken t] s = Some s'" and "tcp_ok s'"
    and "tt_threads s' t = Scanning limit entries" and "tt_states s' = (tt_states s)[i := c]"
    and "tt_connections s' = hm_remove a (tt_connections s)" and "connections_of s' = hm_remove a (connections_of s)"
proof -
  note entry = scan_entry [OF ok scan get read]
  let ?s1 = "thread_to t (Removing a limit entries) (set_state i c s)"
  let ?s2 = "thread_to t (Scanning limit entries) (?s1\<lparr>tt_connections := hm_remove a (tt_connections ?s1)\<rparr>)"
  have run: "tcp_run [LockAndRead t, RemoveBroken t] s = Some ?s2" using entry(1) by simp
  have within: "snd ` set entries \<subseteq> {..<length (tt_states s)}" using arc_in_range [OF ok, of _ t] scan by auto
  have "tcp_ok ?s2" using within by (intro thread_ok remove_ok [OF entry(3)]) simp
  moreover have "connections_of ?s2 = hm_remove a (connections_of s)"
    using connections_remove [of a ?s1] entry(4) by (simp add: remove_insert)
  ultimately show thesis by (intro that [OF run]) simp_all
qed

lemma pass_alone:
  assumes "tcp_ok s" and "tt_threads s t = Scanning limit entries"
    and "\<forall>(a, i) \<in> set entries. hm_get (tt_connections s) a = Some i" and "hm_wf entries" and "distinct (map snd entries)"
    and "recv_pass limit (map (\<lambda>(a, i). (a, tt_states s ! i)) entries) (connections_of s) = Some (r, conns)"
  shows "\<exists>es s'. own_events t es \<and> tcp_run es s = Some s' \<and> connections_of s' = conns
    \<and> tt_threads s' t = pass_result limit r"
  using assms
proof (induction entries arbitrary: s)
  case Nil
  then show ?case by (intro exI [of _ "[]"]) auto
next
  case (Cons x entries)
  obtain a i where x: "x = (a, i)" by (cases x)
  have get: "hm_get (tt_connections s) a = Some i" using Cons.prems(3) x by auto
  obtain q c where q: "try_read_frame (tt_states s ! i) = Some (q, c)"
    using Cons.prems(6) x by (cases "try_read_frame (tt_states s ! i)") auto
  note scan = Cons.prems(2) [unfolded x]
  note entry = scan_entry [OF Cons.prems(1) scan get q]
  have states: "map (\<lambda>(a, j). (a, (tt_states s)[i := c] ! j)) entries = map (\<lambda>(a, j). (a, tt_states s ! j)) entries"
    using Cons.prems(5) x by (intro states_update_elsewhere) auto
  consider (frame) frame where "q = Ok (Some frame)" | (idle) "q = Ok None" | (broken) e where "q = Err e"
    by (metis option.exhaust sum.exhaust)
  then show ?case
  proof cases
    case frame
    with Cons.prems(6) x q have "r = Some (take limit frame, a)" "conns = hm_insert a c (connections_of s)" by simp_all
    with entry(1,4) frame show ?thesis by (intro exI [of _ "[LockAndRead t]"]) simp
  next
    case idle
    let ?s1 = "thread_to t (Scanning limit entries) (set_state i c s)"
    have "recv_pass limit (map (\<lambda>(a, i). (a, tt_states ?s1 ! i)) entries) (connections_of ?s1) = Some (r, conns)"
      using Cons.prems(6) x q idle entry(4) by (simp add: states)
    from Cons.IH [OF entry(2) _ _ _ _ this] Cons.prems(3-5) x obtain es s' where
      "own_events t es" "tcp_run es ?s1 = Some s'" "connections_of s' = conns" "tt_threads s' t = pass_result limit r"
      by auto
    with entry(1) idle show ?thesis by (intro exI [of _ "[LockAndRead t] @ es"] exI [of _ s']) simp
  next
    case (broken e)
    obtain s2 where run: "tcp_run [LockAndRead t, RemoveBroken t] s = Some s2" and ok2: "tcp_ok s2"
      and scan2: "tt_threads s2 t = Scanning limit entries" and states2: "tt_states s2 = (tt_states s)[i := c]"
      and conns2: "tt_connections s2 = hm_remove a (tt_connections s)" "connections_of s2 = hm_remove a (connections_of s)"
      by (rule scan_broken_entry [OF Cons.prems(1) scan get q [unfolded broken]])
    have pass: "recv_pass limit (map (\<lambda>(a, i). (a, tt_states s2 ! i)) entries) (connections_of s2) = Some (r, conns)"
      using Cons.prems(6) x q broken by (simp add: states states2 conns2(2))
    have "\<forall>(b, j) \<in> set entries. hm_get (tt_connections s2) b = Some j"
      using Cons.prems(3,4) x conns2(1) by force
    from Cons.IH [OF ok2 scan2 this _ _ pass] Cons.prems(4,5) x obtain es s' where
      "own_events t es" "tcp_run es s2 = Some s'" "connections_of s' = conns" "tt_threads s' t = pass_result limit r"
      by auto
    moreover from this(2) have "tcp_run ([LockAndRead t, RemoveBroken t] @ es) s = Some s'"
      unfolding tcp_run_append run by simp
    moreover have "own_events t [LockAndRead t, RemoveBroken t]" by simp
    ultimately show ?thesis by (metis own_events_simps(2))
  qed
qed

lemma recv_alone:
  assumes "tcp_recv_from limit conns0 = Some ((bs, a), conns)"
    and "tcp_ok s" and "tt_threads s t = Scanning limit (tt_connections s)" and "connections_of s = conns0"
  shows "\<exists>es s'. own_events t es \<and> tcp_run es s = Some s' \<and> connections_of s' = conns
    \<and> tt_threads s' t = RecvReturned bs a"
proof -
  define P where "P = (\<lambda>limit conns0 (y :: (bytes \<times> 'a) \<times> 'a connections). \<forall>s :: ('a, 'b) tcp_threads. tcp_ok s
    \<and> tt_threads s t = Scanning limit (tt_connections s) \<and> connections_of s = conns0
    \<longrightarrow> (\<exists>es s'. own_events t es \<and> tcp_run es s = Some s' \<and> connections_of s' = snd y
      \<and> tt_threads s' t = RecvReturned (fst (fst y)) (snd (fst y))))"
  have "P limit conns0 ((bs, a), conns)"
  proof (rule tcp_recv_from.raw_induct [OF _ assms(1), of P])
    fix f limit conns0 y
    assume rec: "\<And>limit conns0 y. f limit conns0 = Some y \<Longrightarrow> P limit conns0 y"
      and step: "Option.bind (recv_pass limit conns0 conns0)
        (\<lambda>(received, conns1). case received of None \<Rightarrow> f limit conns1 | Some r \<Rightarrow> Some (r, conns1)) = Some y"
    show "P limit conns0 y"
      unfolding P_def
    proof (intro allI impI, elim conjE)
      fix s :: "('a, 'b) tcp_threads"
      assume ok: "tcp_ok s" and th: "tt_threads s t = Scanning limit (tt_connections s)" and c: "connections_of s = conns0"
      obtain received conns1 where pass: "recv_pass limit conns0 conns0 = Some (received, conns1)"
        and y: "(case received of None \<Rightarrow> f limit conns1 | Some r \<Rightarrow> Some (r, conns1)) = Some y"
        using step by (cases "recv_pass limit conns0 conns0") auto
      have "\<forall>(a, i) \<in> set (tt_connections s). hm_get (tt_connections s) a = Some i"
        using ok by (auto simp: tcp_ok_def)
      from pass_alone [OF ok th this] ok pass c obtain es s' where
        run: "own_events t es" "tcp_run es s = Some s'" "connections_of s' = conns1" "tt_threads s' t = pass_result limit received"
        by (auto simp: tcp_ok_def connections_of_def)
      show "\<exists>es s'. own_events t es \<and> tcp_run es s = Some s' \<and> connections_of s' = snd y
        \<and> tt_threads s' t = RecvReturned (fst (fst y)) (snd (fst y))"
      proof (cases received)
        case (Some r)
        with run y show ?thesis by (intro exI [of _ es] exI [of _ s']) (cases r, auto)
      next
        case None
        let ?s1 = "thread_to t (Scanning limit (tt_connections s')) s'"
        have next1: "tcp_step (NextPass t) s' = Some ?s1" using run(4) None by simp
        have "tcp_ok ?s1" using tcp_run_ok [OF run(2) ok] by (intro thread_ok) (simp_all add: map_in_range)
        moreover have "P limit conns1 y" using rec y None by simp
        ultimately obtain es' s2 where "own_events t es'" "tcp_run es' ?s1 = Some s2" "connections_of s2 = snd y"
          "tt_threads s2 t = RecvReturned (fst (fst y)) (snd (fst y))"
          unfolding P_def using run(3) by (metis connections_thread fun_upd_same thread_to_simps(1,3))
        with run next1 show ?thesis
          by (intro exI [of _ "es @ [NextPass t] @ es'"] exI [of _ s2]) (simp add: tcp_run_append)
      qed
    qed
  qed
  with assms(2-4) show ?thesis by (simp add: P_def)
qed

subsection \<open>Properties\<close>

text \<open>C25: however threads that send, receive and accept interleave, and however the kernel takes
the bytes, what every connection has given to the kernel followed by what it still holds is the
encoding of whole frames handed to \<open>send_to\<close> for it, in the order in which the threads took its
lock: none is torn or doubled, every accepted one is there, and a connection never holds more than
\<open>MAX_PENDING_WRITE_BYTES\<close>.\<close>

theorem streams_stay_framed:
  assumes "tcp_run es tcp_start = Some s" and "i < length (tt_states s)"
  shows "\<exists>fs. st_wire (cs_stream (tt_states s ! i)) @ drop (pw_offset (cs_pending (tt_states s ! i))) (pw_bytes (cs_pending (tt_states s ! i)))
      = concat (map encode_frame fs)
    \<and> subseq (in_lock_order accepted_by i es tcp_start) fs \<and> subseq fs (in_lock_order queued_by i es tcp_start)
    \<and> (\<forall>f \<in> set fs. length f \<le> 65535)
    \<and> pending_len (cs_pending (tt_states s ! i)) \<le> MAX_PENDING_WRITE_BYTES"
proof -
  have start: "tcp_ok tcp_start" by (rule tcp.init_inv) simp
  from tcp_run_ok [OF assms(1) start] assms(2) have "conn_ok (tt_states s ! i)" by (simp add: tcp_ok_def)
  moreover have "content_at s i = conn_content (tt_states s ! i)" using assms(2) by (simp add: content_at_def)
  ultimately show ?thesis
    using tcp_run_content [OF start assms(1), of i] by (auto simp: conn_content_def conn_ok_def content_at_start)
qed

definition example_events :: "(nat, nat) tcp_event list" where
  "example_events = [SendTo 0 [7] 5, Dial 0 (Ok (example_writes, [])), SendTo 1 [8, 9] 5, LockAndQueue 1, LockAndQueue 0]"

theorem streams_stay_framed_witness:
  "\<exists>s :: (nat, nat) tcp_threads. tcp_run example_events tcp_start = Some s
    \<and> st_wire (cs_stream (tt_states s ! 0)) = [0, 2, 8, 9]
    \<and> in_lock_order queued_by 0 example_events tcp_start = [[8, 9], [7]]
    \<and> pending_len (cs_pending (tt_states s ! 0)) \<le> MAX_PENDING_WRITE_BYTES"
proof -
  have "\<exists>s :: (nat, nat) tcp_threads. tcp_run example_events tcp_start = Some s
      \<and> st_wire (cs_stream (tt_states s ! 0)) = [0, 2, 8, 9] \<and> length (tt_states s) = 1
      \<and> in_lock_order queued_by 0 example_events tcp_start = [[8, 9], [7]]"
    by (simp add: example_events_def tcp_start_def example_writes_def fresh_stream_def conn_new_def queue_frame_def
        flush_to_def flush_loop.simps pending_new_def enqueue_frame_def pending_len_def pending_compact_def
        MAX_PENDING_WRITE_BYTES_def to_be_bytes_u16_def queued_by_def thread_to_def set_state_def add_connection_def)
  then obtain s :: "(nat, nat) tcp_threads" where run: "tcp_run example_events tcp_start = Some s"
    and s: "st_wire (cs_stream (tt_states s ! 0)) = [0, 2, 8, 9]" "length (tt_states s) = 1"
      "in_lock_order queued_by 0 example_events tcp_start = [[8, 9], [7]]" by blast
  from streams_stay_framed [OF run, of 0] s run show ?thesis by auto
qed

text \<open>C36: two threads that send to an endpoint without a connection at the same time both dial it,
and the second connection takes the first one's place. The send of the first thread still succeeds
when its frame is queued, but its connection is never touched again by any call, whatever happens
next: the bytes that the kernel did not take within that send stay in the queue for ever. They are
the whole frame when the fresh stream is not yet writable.\<close>

theorem concurrent_dials_lose_frame:
  assumes ok: "reachable (\<lambda>s. s = tcp_start) (\<lambda>s s'. \<exists>e. tcp_step e s = Some s') s"
    and "t \<noteq> u" and "outside (tt_threads s t)" and "outside (tt_threads s u)"
    and none: "hm_get (tt_connections s) endpoint = None"
    and queue: "queue_frame (conn_new (fresh_stream k)) f = Some (Ok (), c)"
  shows "\<exists>s'. tcp_run [SendTo t f endpoint, SendTo u g endpoint, Dial t (Ok k), Dial u (Ok k'), LockAndQueue t] s = Some s'
    \<and> tt_threads s' t = SendReturned (Ok (length f))
    \<and> (\<forall>es s''. tcp_run es s' = Some s'' \<longrightarrow> tt_states s'' ! length (tt_states s) = c)
    \<and> (length f \<le> 65535 \<and> (\<exists>ws rs. k = (WriteErr WouldBlock # ws, rs)) \<longrightarrow> st_wire (cs_stream c) = []
        \<and> drop (pw_offset (cs_pending c)) (pw_bytes (cs_pending c)) = encode_frame f)"
proof -
  let ?n = "length (tt_states s)"
  have ok: "tcp_ok s" by (rule tcp.reachable_inv [OF ok])
  define s' where "s' = thread_to t (SendReturned (Ok (length f))) (set_state ?n c
    (thread_to u (Queueing g (Suc ?n)) (add_connection endpoint k'
    (thread_to t (Queueing f ?n) (add_connection endpoint k
    (thread_to u (Dialing g endpoint) (thread_to t (Dialing f endpoint) s)))))))"
  have run: "tcp_run [SendTo t f endpoint, SendTo u g endpoint, Dial t (Ok k), Dial u (Ok k'), LockAndQueue t] s = Some s'"
    using assms(2-4) none queue by (simp add: s'_def nth_append)
  have "?n \<notin> insert (Suc ?n) (snd ` set (tt_connections s))" using map_in_range [OF ok] by auto
  then have "?n \<notin> snd ` set (hm_insert endpoint (Suc ?n) (tt_connections s))" by (rule contra_subsetD [OF snd_insert])
  moreover have "?n \<notin> held (tt_threads s v)" for v using arc_in_range [OF ok, of ?n v] by auto
  ultimately have "unreferenced ?n s'" by (simp add: unreferenced_def s'_def)
  with tcp_run_unreferenced have "\<forall>es s''. tcp_run es s' = Some s'' \<longrightarrow> tt_states s'' ! ?n = tt_states s' ! ?n" by blast
  moreover have "tt_states s' ! ?n = c" by (simp add: s'_def nth_append)
  moreover have "tt_threads s' t = SendReturned (Ok (length f))" by (simp add: s'_def)
  moreover have "st_wire (cs_stream c) = [] \<and> drop (pw_offset (cs_pending c)) (pw_bytes (cs_pending c)) = encode_frame f"
    if "length f \<le> 65535" "k = (WriteErr WouldBlock # ws, rs)" for ws rs
    using queue_on_blocked [OF that(1), of ws rs] queue that(2) by auto
  ultimately show ?thesis using run by blast
qed

theorem concurrent_dials_lose_frame_witness:
  "\<exists>s' c. tcp_run [SendTo 0 [7] 5, SendTo 1 [8] 5, Dial 0 (Ok ([WriteErr WouldBlock], [])), Dial 1 (Ok ([], [])), LockAndQueue 0]
        (tcp_start :: (nat, nat) tcp_threads) = Some s'
    \<and> tt_threads s' 0 = SendReturned (Ok 1) \<and> st_wire (cs_stream c) = []
    \<and> (\<forall>es s''. tcp_run es s' = Some s'' \<longrightarrow> tt_states s'' ! 0 = c)"
proof -
  have "reachable (\<lambda>s. s = tcp_start) (\<lambda>s s'. \<exists>e. tcp_step e s = Some s') (tcp_start :: (nat, nat) tcp_threads)"
    by (rule reachable.start) simp
  moreover have "length [7 :: u8] \<le> 65535" by simp
  from queue_on_blocked [OF this, of "[]" "[]"] obtain c where
    "queue_frame (conn_new (fresh_stream ([WriteErr WouldBlock], []))) [7] = Some (Ok (), c)" by blast
  ultimately show ?thesis
    using concurrent_dials_lose_frame [where t = 0 and u = 1 and endpoint = 5 and f = "[7]" and g = "[8]"
        and k = "([WriteErr WouldBlock], [])" and k' = "([], [])" and s = "tcp_start :: (nat, nat) tcp_threads"]
    by (auto simp: tcp_start_def)
qed

text \<open>A call of \<open>send_to\<close> or \<open>recv_from\<close> that no other thread disturbs has the result and the
effect on the connections that the sequential definitions give, from every state that the threads
can reach.\<close>

lemma undisturbed_calls_sequential:
  assumes ok: "reachable (\<lambda>s. s = tcp_start) (\<lambda>s s'. \<exists>e. tcp_step e s = Some s') s" and out: "outside (tt_threads s t)"
  shows "(\<forall>x conns. tcp_send_to (dialed r) (connections_of s) frame endpoint = Some (x, conns) \<longrightarrow>
      (\<exists>es s'. set es \<subseteq> {SendTo t frame endpoint, Dial t r, LockAndQueue t} \<and> tcp_run es s = Some s'
        \<and> tt_threads s' t = SendReturned x \<and> connections_of s' = conns))
    \<and> (\<forall>bs a conns. tcp_recv_from limit (connections_of s) = Some ((bs, a), conns) \<longrightarrow>
      (\<exists>es s'. own_events t es \<and> tcp_run (RecvFrom t limit # es) s = Some s'
        \<and> tt_threads s' t = RecvReturned bs a \<and> connections_of s' = conns))"
proof (intro conjI allI impI)
  have ok: "tcp_ok s" by (rule tcp.reachable_inv [OF ok])
  show "\<exists>es s'. set es \<subseteq> {SendTo t frame endpoint, Dial t r, LockAndQueue t} \<and> tcp_run es s = Some s'
      \<and> tt_threads s' t = SendReturned x \<and> connections_of s' = conns"
    if "tcp_send_to (dialed r) (connections_of s) frame endpoint = Some (x, conns)" for x conns
    by (rule send_alone [OF ok out that])
  let ?s1 = "thread_to t (Scanning limit (tt_connections s)) s"
  show "\<exists>es s'. own_events t es \<and> tcp_run (RecvFrom t limit # es) s = Some s'
      \<and> tt_threads s' t = RecvReturned bs a \<and> connections_of s' = conns"
    if call: "tcp_recv_from limit (connections_of s) = Some ((bs, a), conns)" for bs a conns
  proof -
    have "tcp_ok ?s1" using ok by (intro thread_ok) (simp_all add: map_in_range)
    from recv_alone [OF call this, of t] obtain es s' where "own_events t es" "tcp_run es ?s1 = Some s'"
      "connections_of s' = conns" "tt_threads s' t = RecvReturned bs a" by auto
    with out show ?thesis by (intro exI [of _ es] exI [of _ s']) simp
  qed
qed

definition example_accept :: "(nat, nat) tcp_event" where
  "example_accept = AcceptOne (Ok (([], [Received [0, 1, 7], ReadErr WouldBlock]), 5))"

lemma undisturbed_calls_sequential_witness:
  "\<exists>es s'. own_events (0 :: nat) es
    \<and> tcp_run (example_accept # RecvFrom 0 100 # es) tcp_start = Some s' \<and> tt_threads s' 0 = RecvReturned [7] (5 :: nat)"
proof -
  obtain s where s: "tcp_step example_accept tcp_start = Some s"
    and conns: "connections_of s = [(5, conn_new (fresh_stream ([], [Received [0, 1, 7], ReadErr WouldBlock])))]"
    and th: "tt_threads s = (\<lambda>_. Outside)"
    by (simp add: example_accept_def tcp_start_def connections_of_def add_connection_def)
  have "reachable (\<lambda>s. s = tcp_start) (\<lambda>s s'. \<exists>e. tcp_step e s = Some s') s"
    by (rule reachable.succ [OF reachable.start]) (use s in blast)+
  moreover have "outside (tt_threads s 0)" by (simp add: th)
  moreover have "\<exists>conns. tcp_recv_from 100 (connections_of s) = Some (([7], 5), conns)"
    unfolding conns by (subst tcp_recv_from.simps)
      (simp add: conn_new_def fresh_stream_def pending_new_def try_read_frame_def flush_to_def flush_loop.simps
        assemble_frame_def from_be_bytes_u16_def Let_def)
  ultimately obtain es s' where "own_events 0 es" "tcp_run (RecvFrom 0 100 # es) s = Some s'" "tt_threads s' 0 = RecvReturned [7] 5"
    using undisturbed_calls_sequential [of s 0] by metis
  with s show ?thesis by (intro exI [of _ es] exI [of _ s']) simp
qed

end
