(* ===== verification/Udp.thy ===== *)
theory Udp
  imports Tcp Tunnel
begin

text \<open>
  \<^verbatim>\<open>src/src/transport.rs\<close>: the UDP transport. All clones of a transport share one cell that
  holds the active socket, so a transport is the index of its cell and a rebind through one clone
  is seen by all. Sockets and their calls are the fields of a record; a lock is never poisoned, and
  closing a socket that is no longer used is left out.
\<close>

record ('s, 'w) socket_lib =
  sl_bind :: "socket_addr \<Rightarrow> 'w \<Rightarrow> (error_kind, 's) result \<times> 'w"
  sl_set_read_timeout :: "'s \<Rightarrow> nat \<Rightarrow> 'w \<Rightarrow> (error_kind, unit) result \<times> 'w"
  sl_local_addr :: "'s \<Rightarrow> 'w \<Rightarrow> (error_kind, socket_addr) result"
  sl_send_to :: "'s \<Rightarrow> bytes \<Rightarrow> socket_addr \<Rightarrow> 'w \<Rightarrow> (error_kind, nat) result \<times> 'w"
  sl_recv_from :: "'s \<Rightarrow> nat \<Rightarrow> 'w \<Rightarrow> (error_kind, bytes \<times> socket_addr) result \<times> 'w"

record ('s, 'w) udp_state =
  ud_cells :: "'s list"
  ud_world :: 'w

type_synonym udp_transport = nat

record rebind_result =
  rb_previous :: socket_addr
  rb_current :: socket_addr

fun set_port :: "socket_addr \<Rightarrow> u16 \<Rightarrow> socket_addr" where
  "set_port (V4 a _) p = V4 a p"
| "set_port (V6 a _ f s) p = V6 a p f s"

definition active_socket :: "udp_transport \<Rightarrow> ('s, 'w) udp_state \<Rightarrow> 's" where
  "active_socket h st = ud_cells st ! h"

definition bind_udp_socket :: "('s, 'w) socket_lib \<Rightarrow> socket_addr \<Rightarrow> 'w \<Rightarrow> (error_kind, 's) result \<times> 'w" where
  "bind_udp_socket lib listen w =
    (case sl_bind lib listen w of
       (Inl e, w1) \<Rightarrow> (Err e, w1)
     | (Inr socket, w1) \<Rightarrow>
         (case sl_set_read_timeout lib socket 1000000000 w1 of
            (Inl e, w2) \<Rightarrow> (Err e, w2)
          | (Inr _, w2) \<Rightarrow> (Ok socket, w2)))"

definition udp_bind ::
    "('s, 'w) socket_lib \<Rightarrow> socket_addr \<Rightarrow> ('s, 'w) udp_state
      \<Rightarrow> (string \<times> error_kind, udp_transport) result \<times> ('s, 'w) udp_state" where
  "udp_bind lib listen st =
    (case bind_udp_socket lib listen (ud_world st) of
       (Inl e, w1) \<Rightarrow> (Err (''failed to bind UDP socket '' @ show_socket_addr listen, e), st\<lparr>ud_world := w1\<rparr>)
     | (Inr socket, w1) \<Rightarrow>
         (Ok (length (ud_cells st)), \<lparr>ud_cells = ud_cells st @ [socket], ud_world = w1\<rparr>))"

definition udp_clone :: "udp_transport \<Rightarrow> udp_transport" where
  "udp_clone h = h"

definition udp_label :: string where
  "udp_label = ''udp''"

definition udp_local_addr :: "('s, 'w) socket_lib \<Rightarrow> udp_transport \<Rightarrow> ('s, 'w) udp_state \<Rightarrow> (error_kind, socket_addr) result" where
  "udp_local_addr lib h st = sl_local_addr lib (active_socket h st) (ud_world st)"

definition udp_send_to ::
    "('s, 'w) socket_lib \<Rightarrow> udp_transport \<Rightarrow> bytes \<Rightarrow> socket_addr \<Rightarrow> ('s, 'w) udp_state
      \<Rightarrow> (error_kind, nat) result \<times> ('s, 'w) udp_state" where
  "udp_send_to lib h frame endpoint st =
    (case sl_send_to lib (active_socket h st) frame endpoint (ud_world st) of (r, w1) \<Rightarrow> (r, st\<lparr>ud_world := w1\<rparr>))"

definition udp_rebind ::
    "('s, 'w) socket_lib \<Rightarrow> udp_transport \<Rightarrow> ('s, 'w) udp_state
      \<Rightarrow> (error_kind, rebind_result option) result \<times> ('s, 'w) udp_state" where
  "udp_rebind lib h st =
    (case udp_local_addr lib h st of
       Inl e \<Rightarrow> (Err e, st)
     | Inr previous \<Rightarrow>
         (case bind_udp_socket lib (set_port previous 0) (ud_world st) of
            (Inl e, w1) \<Rightarrow> (Err e, st\<lparr>ud_world := w1\<rparr>)
          | (Inr replacement, w1) \<Rightarrow>
              (case sl_local_addr lib replacement w1 of
                 Inl e \<Rightarrow> (Err e, st\<lparr>ud_world := w1\<rparr>)
               | Inr current \<Rightarrow>
                   (Ok (Some \<lparr>rb_previous = previous, rb_current = current\<rparr>),
                    \<lparr>ud_cells = (ud_cells st)[h := replacement], ud_world = w1\<rparr>))))"

subsection \<open>Receiving\<close>

text \<open>Every round of \<open>recv_from\<close> looks the active socket up again. What the other threads do until
then, a rebind for instance, is the step \<open>others\<close>, which may depend on the whole state.\<close>

definition retry_kind :: "error_kind \<Rightarrow> bool" where
  "retry_kind e \<longleftrightarrow> e = WouldBlock \<or> e = TimedOut \<or> e = Interrupted"

definition recv_round ::
    "('s, 'w) socket_lib \<Rightarrow> (('s, 'w) udp_state \<Rightarrow> ('s, 'w) udp_state) \<Rightarrow> udp_transport \<Rightarrow> nat
      \<Rightarrow> ('s, 'w) udp_state \<Rightarrow> (error_kind, bytes \<times> socket_addr) result \<times> ('s, 'w) udp_state" where
  "recv_round lib others h capacity st =
    (let st1 = others st in
     case sl_recv_from lib (active_socket h st1) capacity (ud_world st1) of
       (r, w1) \<Rightarrow> (r, st1\<lparr>ud_world := w1\<rparr>))"

partial_function (option) udp_recv_from ::
    "('s, 'w) socket_lib \<Rightarrow> (('s, 'w) udp_state \<Rightarrow> ('s, 'w) udp_state) \<Rightarrow> udp_transport \<Rightarrow> nat
      \<Rightarrow> ('s, 'w) udp_state \<Rightarrow> ((error_kind, bytes \<times> socket_addr) result \<times> ('s, 'w) udp_state) option" where
  "udp_recv_from lib others h capacity st =
    (case recv_round lib others h capacity st of
       (Inr packet, st1) \<Rightarrow> Some (Ok packet, st1)
     | (Inl e, st1) \<Rightarrow>
         if retry_kind e then udp_recv_from lib others h capacity st1 else Some (Err e, st1))"

subsection \<open>The daemon on this transport\<close>

definition udp_tunnel_io ::
    "('s, 'w) socket_lib \<Rightarrow> udp_transport \<Rightarrow> (bytes \<Rightarrow> 'w \<Rightarrow> (string, unit) result \<times> 'w) \<Rightarrow> (error_kind \<Rightarrow> string)
      \<Rightarrow> ('s, 'w) udp_state tunnel_io" where
  "udp_tunnel_io lib h device text =
    \<lparr>tn_send_to = (\<lambda>frame endpoint st. case udp_send_to lib h frame endpoint st of (r, st1) \<Rightarrow> (map_err text r, st1)),
     tn_write_all = (\<lambda>packet st. case device packet (ud_world st) of (r, w1) \<Rightarrow> (r, st\<lparr>ud_world := w1\<rparr>)),
     tn_rebind = (\<lambda>st. case udp_rebind lib h st of
       (Inl e, st1) \<Rightarrow> (Err (text e), st1) | (Inr r, st1) \<Rightarrow> (Ok (r \<noteq> None), st1))\<rparr>"

subsection \<open>Lemmas\<close>

lemma udp_rebind_Err: "udp_rebind lib h st = (Err e, st') \<Longrightarrow> ud_cells st' = ud_cells st"
  by (auto simp: udp_rebind_def split: sum.splits prod.splits)

lemma udp_rebind_Ok:
  assumes "udp_rebind lib h st = (Ok r, st')"
  shows "\<exists>rb s. r = Some rb \<and> ud_cells st' = (ud_cells st)[h := s] \<and> udp_local_addr lib h st = Ok (rb_previous rb)
    \<and> bind_udp_socket lib (set_port (rb_previous rb) 0) (ud_world st) = (Ok s, ud_world st')
    \<and> sl_local_addr lib s (ud_world st') = Ok (rb_current rb)"
  using assms by (auto simp: udp_rebind_def split: sum.splits prod.splits)

text \<open>The states between the rounds of a receiver that has only timed out so far.\<close>

inductive waits ::
    "('s, 'w) socket_lib \<Rightarrow> (('s, 'w) udp_state \<Rightarrow> ('s, 'w) udp_state) \<Rightarrow> udp_transport \<Rightarrow> nat
      \<Rightarrow> ('s, 'w) udp_state \<Rightarrow> ('s, 'w) udp_state \<Rightarrow> bool"
  for lib others h capacity where
  waits_refl: "waits lib others h capacity st st"
| waits_step: "waits lib others h capacity st st1 \<Longrightarrow> recv_round lib others h capacity st1 = (Err e, st2)
    \<Longrightarrow> retry_kind e \<Longrightarrow> waits lib others h capacity st st2"

lemma waits_trans:
  assumes "waits lib others h capacity st1 st2" and "waits lib others h capacity st st1"
  shows "waits lib others h capacity st st2"
  using assms by (induction rule: waits.induct) (auto intro: waits_step)

lemma waits_recv:
  assumes "waits lib others h capacity st st1"
  shows "udp_recv_from lib others h capacity st = udp_recv_from lib others h capacity st1"
  using assms
proof (induction rule: waits.induct)
  case (waits_step st st1 e st2)
  then show ?case by (subst (asm) (2) udp_recv_from.simps) simp
qed simp

lemma recv_after_wait:
  assumes "udp_recv_from lib others h capacity st = Some q"
  shows "\<exists>st1. waits lib others h capacity st st1 \<and> recv_round lib others h capacity st1 = q
    \<and> (\<forall>e. fst q = Err e \<longrightarrow> \<not> retry_kind e)"
proof (rule udp_recv_from.raw_induct [OF _ assms])
  fix recv lib' others' h' capacity' st' q'
  assume IH: "\<And>lib others h capacity st q. recv lib others h capacity st = Some q
      \<Longrightarrow> \<exists>st1. waits lib others h capacity st st1 \<and> recv_round lib others h capacity st1 = q
        \<and> (\<forall>e. fst q = Err e \<longrightarrow> \<not> retry_kind e)"
    and body: "(case recv_round lib' others' h' capacity' st' of
       (Inl e, st1) \<Rightarrow> if retry_kind e then recv lib' others' h' capacity' st1 else Some (Err e, st1)
     | (Inr packet, st1) \<Rightarrow> Some (Ok packet, st1)) = Some q'"
  show "\<exists>st1. waits lib' others' h' capacity' st' st1 \<and> recv_round lib' others' h' capacity' st1 = q'
      \<and> (\<forall>e. fst q' = Err e \<longrightarrow> \<not> retry_kind e)"
  proof (cases "recv_round lib' others' h' capacity' st'")
    case (Pair r st1)
    show ?thesis
    proof (cases r)
      case (Inr packet)
      with body Pair have "q' = (Ok packet, st1)" by simp
      with Pair Inr show ?thesis by (intro exI [of _ st']) (simp add: waits_refl)
    next
      case (Inl e)
      show ?thesis
      proof (cases "retry_kind e")
        case False
        with body Pair Inl have "q' = (Err e, st1)" by simp
        with Pair Inl False show ?thesis by (intro exI [of _ st']) (simp add: waits_refl)
      next
        case True
        with body Pair Inl have "recv lib' others' h' capacity' st1 = Some q'" by simp
        from IH [OF this] obtain st2 where st2: "waits lib' others' h' capacity' st1 st2"
          "recv_round lib' others' h' capacity' st2 = q' \<and> (\<forall>e. fst q' = Err e \<longrightarrow> \<not> retry_kind e)" by blast
        have "waits lib' others' h' capacity' st' st1"
          using waits_step [OF waits_refl] Pair Inl True by metis
        from waits_trans [OF st2(1) this] st2(2) show ?thesis by blast
      qed
    qed
  qed
qed

text \<open>A receiver returns exactly what the first round gives that does not time out.\<close>

lemma udp_receive_exact:
  "udp_recv_from lib others h capacity st = Some q \<longleftrightarrow>
    (\<exists>st1. waits lib others h capacity st st1 \<and> recv_round lib others h capacity st1 = q
      \<and> (\<forall>e. fst q = Err e \<longrightarrow> \<not> retry_kind e))"
proof
  assume "\<exists>st1. waits lib others h capacity st st1 \<and> recv_round lib others h capacity st1 = q
    \<and> (\<forall>e. fst q = Err e \<longrightarrow> \<not> retry_kind e)"
  then obtain st1 where w: "waits lib others h capacity st st1"
    and q: "recv_round lib others h capacity st1 = q" "\<forall>e. fst q = Err e \<longrightarrow> \<not> retry_kind e" by blast
  from q have "udp_recv_from lib others h capacity st1 = Some q"
    by (cases q; cases "fst q") (subst udp_recv_from.simps, simp)+
  with waits_recv [OF w] show "udp_recv_from lib others h capacity st = Some q" by simp
qed (rule recv_after_wait)

subsection \<open>A concrete socket library\<close>

text \<open>Sockets are their addresses; the system counts the ports it has given out.\<close>

definition demo_sockets :: "(socket_addr, u16) socket_lib" where
  "demo_sockets =
    \<lparr>sl_bind = (\<lambda>a n. (Ok (set_port a (n + 1)), n + 1)),
     sl_set_read_timeout = (\<lambda>_ _ n. (Ok (), n)),
     sl_local_addr = (\<lambda>s _. Ok s),
     sl_send_to = (\<lambda>s frame _ n. (Ok (length frame), n)),
     sl_recv_from = (\<lambda>s _ n. if sa_port s = n then (Ok ([7], s), n) else (Err TimedOut, n))\<rparr>"

definition demo_udp :: "(socket_addr, u16) udp_state" where
  "demo_udp = \<lparr>ud_cells = [V4 0 40000, V4 1 40001], ud_world = 50000\<rparr>"

definition demo_others :: "(socket_addr, u16) udp_state \<Rightarrow> (socket_addr, u16) udp_state" where
  "demo_others st = snd (udp_rebind demo_sockets 0 st)"

lemma demo_rebind:
  "udp_rebind demo_sockets 0 demo_udp = (Ok (Some \<lparr>rb_previous = V4 0 40000, rb_current = V4 0 50001\<rparr>),
    \<lparr>ud_cells = [V4 0 50001, V4 1 40001], ud_world = 50001\<rparr>)"
  by (simp add: udp_rebind_def udp_local_addr_def active_socket_def bind_udp_socket_def demo_sockets_def demo_udp_def)

subsection \<open>Properties\<close>

text \<open>C33: a rebind that fails leaves every transport on its socket. One that succeeds reports the
address it leaves and the address of the fresh socket, which was bound to the same host with an
ephemeral port; from then on every clone sends and receives on the fresh socket, and no transport
other than the clones of this one is affected.\<close>

theorem udp_rebind_moves_every_clone:
  assumes "h < length (ud_cells st)" and "udp_rebind lib h st = (r, st')"
  shows "case r of
      Inl e \<Rightarrow> \<forall>k. active_socket k st' = active_socket k st
    | Inr result \<Rightarrow> \<exists>rb s. result = Some rb
        \<and> udp_local_addr lib h st = Ok (rb_previous rb)
        \<and> bind_udp_socket lib (set_port (rb_previous rb) 0) (ud_world st) = (Ok s, ud_world st')
        \<and> udp_local_addr lib (udp_clone h) st' = Ok (rb_current rb)
        \<and> (\<forall>frame endpoint. fst (udp_send_to lib (udp_clone h) frame endpoint st')
              = fst (sl_send_to lib s frame endpoint (ud_world st')))
        \<and> (\<forall>k. active_socket k st' = (if k = h then s else active_socket k st))"
proof (cases r)
  case (Inl e)
  with assms(2) udp_rebind_Err [of lib h st e st'] show ?thesis by (simp add: active_socket_def)
next
  case (Inr x)
  with udp_rebind_Ok [of lib h st x st'] assms(2) obtain rb s where rb: "x = Some rb"
    "ud_cells st' = (ud_cells st)[h := s]" "udp_local_addr lib h st = Ok (rb_previous rb)"
    "bind_udp_socket lib (set_port (rb_previous rb) 0) (ud_world st) = (Ok s, ud_world st')"
    "sl_local_addr lib s (ud_world st') = Ok (rb_current rb)" by blast
  have active: "active_socket k st' = (if k = h then s else active_socket k st)" for k
    using assms(1) by (simp add: active_socket_def rb(2))
  have "fst (udp_send_to lib (udp_clone h) frame endpoint st') = fst (sl_send_to lib s frame endpoint (ud_world st'))"
    for frame endpoint
    by (simp add: udp_send_to_def udp_clone_def active split: prod.splits)
  moreover have "udp_local_addr lib (udp_clone h) st' = Ok (rb_current rb)"
    using rb(5) by (simp add: udp_local_addr_def udp_clone_def active)
  ultimately show ?thesis using rb(1,3,4) active Inr by auto
qed

theorem udp_rebind_moves_every_clone_witness:
  "udp_local_addr demo_sockets (udp_clone 0) (snd (udp_rebind demo_sockets 0 demo_udp)) = Ok (V4 0 50001)
    \<and> active_socket 1 (snd (udp_rebind demo_sockets 0 demo_udp)) = V4 1 40001"
proof -
  have "0 < length (ud_cells demo_udp)" by (simp add: demo_udp_def)
  from udp_rebind_moves_every_clone [OF this demo_rebind]
  show ?thesis by (simp add: demo_rebind) (auto simp: demo_udp_def active_socket_def)
qed

text \<open>A receiver that has only timed out on the old socket moves with a rebind by another
thread: the first packet or failure that the fresh socket gives is what the receiver returns, and
while the fresh socket times out the receiver goes on waiting.\<close>

lemma blocked_receiver_moves:
  assumes "waits lib others h capacity st st1" and "h < length (ud_cells st1)"
    and "udp_rebind lib (udp_clone h) st1 = (Ok (Some rb), others st1)"
  shows "\<exists>s. sl_local_addr lib s (ud_world (others st1)) = Ok (rb_current rb)
    \<and> udp_recv_from lib others h capacity st =
      (case sl_recv_from lib s capacity (ud_world (others st1)) of
         (Inr packet, w) \<Rightarrow> Some (Ok packet, (others st1)\<lparr>ud_world := w\<rparr>)
       | (Inl e, w) \<Rightarrow>
           if retry_kind e then udp_recv_from lib others h capacity ((others st1)\<lparr>ud_world := w\<rparr>)
           else Some (Err e, (others st1)\<lparr>ud_world := w\<rparr>))"
proof -
  from udp_rebind_Ok [OF assms(3)] obtain s where s: "ud_cells (others st1) = (ud_cells st1)[h := s]"
    "sl_local_addr lib s (ud_world (others st1)) = Ok (rb_current rb)"
    by (auto simp: udp_clone_def)
  have "active_socket h (others st1) = s" using s(1) assms(2) by (simp add: active_socket_def)
  then have "udp_recv_from lib others h capacity st1 =
      (case sl_recv_from lib s capacity (ud_world (others st1)) of
         (Inr packet, w) \<Rightarrow> Some (Ok packet, (others st1)\<lparr>ud_world := w\<rparr>)
       | (Inl e, w) \<Rightarrow>
           if retry_kind e then udp_recv_from lib others h capacity ((others st1)\<lparr>ud_world := w\<rparr>)
           else Some (Err e, (others st1)\<lparr>ud_world := w\<rparr>))"
    by (subst udp_recv_from.simps) (simp add: recv_round_def Let_def split: prod.splits sum.splits)
  with waits_recv [OF assms(1)] s(2) show ?thesis by auto
qed

lemma blocked_receiver_moves_witness:
  "udp_recv_from demo_sockets demo_others 0 1500 demo_udp
    = Some (Ok ([7], V4 0 50001), \<lparr>ud_cells = [V4 0 50001, V4 1 40001], ud_world = 50001\<rparr>)"
proof -
  have o: "demo_others demo_udp = \<lparr>ud_cells = [V4 0 50001, V4 1 40001], ud_world = 50001\<rparr>"
    by (simp add: demo_others_def demo_rebind)
  have cell: "0 < length (ud_cells demo_udp)" by (simp add: demo_udp_def)
  have "udp_rebind demo_sockets (udp_clone 0) demo_udp
      = (Ok (Some \<lparr>rb_previous = V4 0 40000, rb_current = V4 0 50001\<rparr>), demo_others demo_udp)"
    by (simp add: udp_clone_def demo_rebind o)
  from blocked_receiver_moves [where lib = demo_sockets and others = demo_others and h = 0 and ?st1.0 = demo_udp
      and capacity = 1500, OF waits_refl cell this]
  obtain s where s: "sl_local_addr demo_sockets s 50001 = Ok (V4 0 50001)"
    and run: "udp_recv_from demo_sockets demo_others 0 1500 demo_udp =
      (case sl_recv_from demo_sockets s 1500 50001 of
         (Inr packet, w) \<Rightarrow> Some (Ok packet, (demo_others demo_udp)\<lparr>ud_world := w\<rparr>)
       | (Inl e, w) \<Rightarrow>
           if retry_kind e
           then udp_recv_from demo_sockets demo_others 0 1500 ((demo_others demo_udp)\<lparr>ud_world := w\<rparr>)
           else Some (Err e, (demo_others demo_udp)\<lparr>ud_world := w\<rparr>))"
    by (auto simp: o)
  from s have "s = V4 0 50001" by (simp add: demo_sockets_def)
  then show ?thesis unfolding run by (simp add: demo_sockets_def o)
qed

end
