(* ===== verification/Reports.thy ===== *)
theory Reports
  imports Gateway Routing
begin

text \<open>
  What the command line prints: \<^verbatim>\<open>src/src/doctor.rs\<close>, the reports of
  \<^verbatim>\<open>src/src/main.rs\<close> and those of \<^verbatim>\<open>src/src/gateway.rs\<close>. The console is the list of
  the lines written so far, kept beside the system. Reading a configuration takes the text of the
  file through the TOML parser, which is a parameter.
\<close>

type_synonym ('w, 'a) console = "('w \<times> string list, 'a) io"

definition say :: "string list \<Rightarrow> ('w, unit) console" where
  "say lines s = (Ok (), (fst s, snd s @ lines))"

text \<open>A \<open>match\<close> on the result of a call.\<close>

definition io_either :: "('w, 'a) io \<Rightarrow> ('a \<Rightarrow> ('w, 'b) io) \<Rightarrow> (failure \<Rightarrow> ('w, 'b) io) \<Rightarrow> ('w, 'b) io" where
  "io_either m good bad w = (case m w of (Inr x, w1) \<Rightarrow> good x w1 | (Inl e, w1) \<Rightarrow> bad e w1)"

text \<open>The alternate format of an error is its chain of messages.\<close>

definition show_failure :: "failure \<Rightarrow> string" where
  "show_failure e = join '': '' e"

fun show_transport :: "transport_config \<Rightarrow> string" where
  "show_transport Udp = ''Udp''"
| "show_transport Tcp = ''Tcp''"

subsection \<open>Gateway reports\<close>

definition print_plan :: "gateway_plan \<Rightarrow> string list" where
  "print_plan plan =
    [''HushWire gateway plan'',
     ''LAN interface: '' @ gp_lan_interface plan,
     ''Tunnel interface: '' @ gp_tunnel_interface plan,
     ''Tunnel MTU: '' @ show_u16 (gp_tunnel_mtu plan),
     ''TCP MSS: '' @ show_u16 (gp_tcp_mss plan) @ '' (''
       @ (if gp_tcp_mss_is_explicit plan then ''explicit'' else ''automatic: tunnel MTU - 40'') @ '')'',
     ''Rule owner: '' @ gp_owner_tag plan,
     [],
     ''Changes when applied:'',
     ''  enable net.ipv4.ip_forward'']
    @ map (\<lambda>r. ''  '' @ render r ''-A'') (gp_rules plan)
    @ [[], ''No changes made by plan.'']"

definition result_word :: "bool \<Rightarrow> string" where
  "result_word success = (if success then ''OK'' else ''FAIL'')"

definition mtu_line :: "gateway_status \<Rightarrow> string" where
  "mtu_line s =
    (case gs_tunnel_mtu s of
       Some actual \<Rightarrow>
         if actual = gs_expected_tunnel_mtu s then ''OK tunnel MTU '' @ show_u16 actual
         else ''FAIL tunnel MTU '' @ show_u16 actual @ ''; configuration expects ''
           @ show_u16 (gs_expected_tunnel_mtu s)
     | None \<Rightarrow> ''FAIL tunnel MTU unavailable; configuration expects '' @ show_u16 (gs_expected_tunnel_mtu s))"

definition owned_line :: "gateway_status \<Rightarrow> string" where
  "owned_line s =
    (if gs_owned_rule_count s = gs_expected_rule_count s
     then ''OK '' @ show_nat (gs_owned_rule_count s) @ '' owned firewall rules''
     else ''FAIL found '' @ show_nat (gs_owned_rule_count s) @ '' owned firewall rules; expected exactly ''
       @ show_nat (gs_expected_rule_count s))"

definition status_lines :: "gateway_plan \<Rightarrow> gateway_status \<Rightarrow> string list" where
  "status_lines plan s =
    [''HushWire gateway status'',
     result_word (gs_forwarding_enabled s) @ '' IPv4 forwarding'',
     result_word (gs_lan_interface_exists s) @ '' LAN interface '' @ gp_lan_interface plan,
     result_word (gs_tunnel_interface_exists s) @ '' tunnel interface '' @ gp_tunnel_interface plan,
     mtu_line s]
    @ map (\<lambda>(description, present). result_word present @ '' '' @ description) (gs_rules s)
    @ [owned_line s, (if gs_state_recorded s then ''OK'' else ''WARN'') @ '' gateway state record'']"

definition print_status :: "'w os \<Rightarrow> gateway_plan \<Rightarrow> gateway_status \<Rightarrow> ('w, unit) console" where
  "print_status sys plan s =
    io_then (say (status_lines plan s)) (\<lambda>_.
    io_either (on_system (read_ip_frag_fails sys))
      (\<lambda>f. case f of
         Some n \<Rightarrow> say [''INFO cumulative IPv4 fragmentation failures: '' @ show_nat (unat n)]
       | None \<Rightarrow> say [])
      (\<lambda>_. say []))"

subsection \<open>Diagnosis\<close>

definition check_gateway :: "'w os \<Rightarrow> 'net config \<Rightarrow> ('w, unit) console" where
  "check_gateway sys cfg =
    io_then (say [''Forwarding-gateway checks:'']) (\<lambda>_.
    case plan_from_config cfg of
      Inl e \<Rightarrow> say [''FAIL invalid [gateway] policy: '' @ show_failure e]
    | Inr plan \<Rightarrow>
        io_either (on_system (gateway_status_of sys plan)) (print_status sys plan)
          (\<lambda>e. say [''WARN could not inspect gateway system state: '' @ show_failure e,
                    ''  gateway status requires Linux and permission to inspect iptables'']))"

definition uses_interface :: "string \<Rightarrow> string \<Rightarrow> bool" where
  "uses_interface listing interface =
    list_ex (\<lambda>line. line = ''interface: '' @ interface \<or> ends_with line ('' dev '' @ interface))
      (map trim (str_lines listing))"

fun contains_text :: "string \<Rightarrow> string \<Rightarrow> bool" where
  "contains_text [] p = (p = [])"
| "contains_text (c # cs) p = (starts_with (c # cs) p \<or> contains_text cs p)"

definition summary_lines :: "string \<Rightarrow> string list" where
  "summary_lines listing =
    filter (\<lambda>line. starts_with line ''gateway:'' \<or> starts_with line ''interface:''
        \<or> starts_with line ''route to:'' \<or> contains_text line '' dev '' \<or> starts_with line ''default via '')
      (map trim (str_lines listing))"

definition command_output :: "process_output \<Rightarrow> ('w, string) io" where
  "command_output out =
    (if \<not> po_success out then io_bail (trim (po_stderr out)) else io_ok (po_stdout out))"

definition host_route_to :: "'w os \<Rightarrow> ip_addr \<Rightarrow> ('w, string) io" where
  "host_route_to sys ip =
    (if os_is_linux sys
     then io_then (io_context ''failed to run ip route get''
        (io_call (os_command sys ''ip'' [''route'', ''get'', show_ip ip]))) command_output
     else io_then (io_context ''failed to run route -n get''
        (io_call (os_command sys ''route'' [''-n'', ''get'', show_ip ip]))) command_output)"

definition host_route_lines :: "string \<Rightarrow> string \<Rightarrow> string list" where
  "host_route_lines interface listing =
    (if uses_interface listing interface
     then ''  FAIL current host route appears to use '' @ interface @ ''; this can loop the tunnel''
     else ''  OK current host route does not appear to use '' @ interface)
    # map (\<lambda>line. ''    '' @ line) (summary_lines listing)"

definition check_endpoint :: "'w os \<Rightarrow> string \<Rightarrow> 'net peer \<Rightarrow> ('w, unit) console" where
  "check_endpoint sys interface peer =
    (let ip = sa_ip (peer_endpoint_addr peer) in
     io_then (say [''  endpoint '' @ show_ip ip @ '' for peer '' @ peer_name peer]) (\<lambda>_.
     io_then (io_either (on_system (host_route_to sys ip))
        (\<lambda>listing. say (host_route_lines interface listing))
        (\<lambda>e. say [''  WARN could not inspect host route: '' @ show_failure e])) (\<lambda>_.
     say [''  suggested macOS exception:'',
          ''    sudo route add -host '' @ show_ip ip @ '' <current_gateway>''])))"

fun check_endpoints :: "'w os \<Rightarrow> string \<Rightarrow> 'net peer list \<Rightarrow> ('w, unit) console" where
  "check_endpoints sys interface [] = say []"
| "check_endpoints sys interface (peer # peers) =
    io_then (check_endpoint sys interface peer) (\<lambda>_. check_endpoints sys interface peers)"

definition configured_lines :: "'net texts \<Rightarrow> 'net router \<Rightarrow> string list" where
  "configured_lines T R =
    ''Configured HushWire routes:''
    # map (\<lambda>r. ''  '' @ show_net T (route_prefix r) @ '' -> '' @ peer_name (route_peer r)
        @ '' ('' @ show_socket_addr (peer_endpoint_addr (route_peer r)) @ '')'') (routes R)
    @ (if excluded_routes R = [] then []
       else ''Configured direct-route exclusions:''
         # map (\<lambda>r. ''  '' @ show_net T (route_prefix r) @ '' -> physical network (peer ''
             @ peer_name (route_peer r) @ '')'') (excluded_routes R))"

definition check_routes :: "'net libs \<Rightarrow> 'net texts \<Rightarrow> 'w os \<Rightarrow> 'net config \<Rightarrow> 'net router \<Rightarrow> ('w, unit) console" where
  "check_routes L T sys cfg R =
    (let interface = if_name (cfg_interface cfg); peers = endpoint_exception_peers L R in
     if routes R = [] then say [''WARN no peer allowed_ips routes are configured'']
     else
       io_then (say (configured_lines T R)) (\<lambda>_.
       if peers = [] then say [''OK no route captures a configured peer endpoint'']
       else
         io_then (say [''WARN configured routes capture a peer endpoint'',
           ''  before routing matching traffic into '' @ interface @ '', add endpoint exception routes:''])
         (\<lambda>_. check_endpoints sys interface peers)))"

definition ipv4_forwarding :: "'w os \<Rightarrow> ('w, bool option) io" where
  "ipv4_forwarding sys =
    (if os_is_linux sys
     then io_then (io_context ''failed to read /proc/sys/net/ipv4/ip_forward''
            (io_query (os_read sys ''/proc/sys/net/ipv4/ip_forward''))) (\<lambda>v. io_ok (Some (trim v = ''1'')))
     else io_then (io_context ''failed to run sysctl''
            (io_call (os_command sys ''sysctl'' [''-n'', ''net.inet.ip.forwarding'']))) (\<lambda>out.
            if \<not> po_success out then io_ok None else io_ok (Some (trim (po_stdout out) = ''1''))))"

definition check_forwarding :: "'w os \<Rightarrow> ('w, unit) console" where
  "check_forwarding sys =
    io_then (say [''Exit-node checks:'']) (\<lambda>_.
    io_then (io_context ''failed to inspect IPv4 forwarding'' (on_system (ipv4_forwarding sys))) (\<lambda>f.
    case f of
      Some True \<Rightarrow> say [''OK IPv4 forwarding appears enabled'']
    | Some False \<Rightarrow> say [''FAIL IPv4 forwarding appears disabled'',
        ''  macOS: sudo sysctl -w net.inet.ip.forwarding=1'',
        ''  Linux: sudo sysctl -w net.ipv4.ip_forward=1'']
    | None \<Rightarrow> say [''WARN IPv4 forwarding status is unknown on this OS'']))"

definition doctor_run ::
    "'net libs \<Rightarrow> 'net texts \<Rightarrow> 'w os \<Rightarrow> 'net config \<Rightarrow> 'net router \<Rightarrow> bool \<Rightarrow> ('w, unit) console" where
  "doctor_run L T sys cfg R exit_node =
    (let i = cfg_interface cfg in
     io_then (say [''HushWire doctor'', ''Interface: '' @ if_name i,
        ''Tunnel address: '' @ show_net T (if_address i),
        ''Transport: '' @ show_transport (if_transport i) @ '' '' @ show_socket_addr (if_listen i), []]) (\<lambda>_.
     io_then (check_routes L T sys cfg R) (\<lambda>_.
     io_then
       (if exit_node
        then io_then (say [[]]) (\<lambda>_. io_then (check_forwarding sys) (\<lambda>_.
          say [''NAT: manual check required'',
               ''  tunnel subnet '' @ show_ipv4 (net_network L (if_address i))
                 @ '' must be masqueraded/NATed to the outbound interface'']))
        else say []) (\<lambda>_.
     if cfg_gateway cfg \<noteq> None then io_then (say [[]]) (\<lambda>_. check_gateway sys cfg) else say []))))"

end
