(* ===== verification/Cli.thy ===== *)
theory Cli
  imports Reports
begin

text \<open>
  \<^verbatim>\<open>src/src/main.rs\<close>: the subcommands that inspect a configuration and those of the
  gateway, with the loading of the configuration (\<open>Config::load\<close> of
  \<^verbatim>\<open>src/src/config.rs\<close>) and the texts of its errors. The TOML parser is a parameter. The
  subcommands \<open>up\<close> and \<open>genkey\<close> are in theory \<open>Program\<close>.
\<close>

subsection \<open>Errors\<close>

fun show_config_error :: "'net texts \<Rightarrow> 'net config_error \<Rightarrow> string" where
  "show_config_error T EmptyInterfaceName = ''interface name cannot be empty''"
| "show_config_error T EmptyPeerName = ''peer name cannot be empty''"
| "show_config_error T (DuplicatePeerName name) = ''duplicate peer name: '' @ name"
| "show_config_error T (DuplicatePeerPsk a b) =
    ''peers '' @ a @ '' and '' @ b @ '' use the same psk; every peer must have unique credentials''"
| "show_config_error T (DuplicatePeerPublicKey a b) =
    ''peers '' @ a @ '' and '' @ b @ '' use the same public_key; every peer must have a unique static identity''"
| "show_config_error T (PeerWithoutAllowedIps name) = ''peer '' @ name @ '' has no allowed_ips''"
| "show_config_error T (DuplicateExcludedIp peer prefix) =
    ''peer '' @ peer @ '' contains duplicate excluded_ips entry '' @ show_net T prefix"
| "show_config_error T (ExcludedIpNotCovered peer prefix) =
    ''peer '' @ peer @ '' excludes '' @ show_net T prefix @ '', but no allowed_ips entry covers it''"
| "show_config_error T (ExcludedDefaultRoute name) = ''peer '' @ name @ '' cannot exclude 0.0.0.0/0''"
| "show_config_error T (MtuTooSmall mtu) = ''mtu must be at least 576, got '' @ show_u16 mtu"
| "show_config_error T EmptyGatewayLanInterface = ''gateway lan_interface cannot be empty''"
| "show_config_error T (InvalidGatewayInterfaceName name) =
    ''gateway interface name is not a valid Linux interface name: '' @ name"
| "show_config_error T (IdenticalGatewayInterfaces name) =
    ''gateway lan_interface and tunnel interface must differ: '' @ name"
| "show_config_error T (GatewayMssOutOfRange mss minimum maximum mtu) =
    ''gateway tcp_mss '' @ show_u16 mss @ '' is outside the safe range '' @ show_u16 minimum @ ''..=''
    @ show_u16 maximum @ '' for tunnel MTU '' @ show_u16 mtu"
| "show_config_error T (InvalidPsk name) =
    ''peer '' @ name @ '' has an invalid psk: must be base64-encoded 32 bytes''"
| "show_config_error T (InvalidPublicKey name) =
    ''peer '' @ name @ '' has an invalid public_key: must be base64-encoded 32 bytes''"
| "show_config_error T InvalidPrivateKey =
    ''interface has an invalid private_key: must be base64-encoded 32 bytes''"
| "show_config_error T (UdpRebindRequiresUdp name) =
    ''peer '' @ name @ '' sets udp_rebind_after, but the interface transport is not UDP''"
| "show_config_error T (UdpRebindRequiresKeepalive name) =
    ''peer '' @ name @ '' sets udp_rebind_after, but persistent_keepalive is disabled''"
| "show_config_error T (UdpRebindTooSoon peer rebind_after keepalive) =
    ''peer '' @ peer @ '' udp_rebind_after ('' @ show_u16 rebind_after
    @ ''s) must be greater than persistent_keepalive ('' @ show_u16 keepalive @ ''s)''"
| "show_config_error T (SessionTimeoutRequiresKeepalive name) =
    ''peer '' @ name @ '' sets session_timeout, but persistent_keepalive is disabled''"
| "show_config_error T (SessionTimeoutTooSoon peer timeout keepalive) =
    ''peer '' @ peer @ '' session_timeout ('' @ show_u16 timeout
    @ ''s) must be greater than persistent_keepalive ('' @ show_u16 keepalive @ ''s)''"

text \<open>The errors of the router with their source; a panic is kept apart by its text.\<close>

fun router_failure :: "'net texts \<Rightarrow> 'net router_error \<Rightarrow> failure" where
  "router_failure T (DuplicatePrefix prefix a b) =
    [''route '' @ show_net T prefix @ '' is configured for both '' @ a @ '' and '' @ b]"
| "router_failure T (EndpointResolution peer endpoint source) =
    [''could not resolve endpoint '' @ show_endpoint endpoint @ '' for peer '' @ peer @ '': '' @ source, source]"
| "router_failure T (RouterPanic text) = [''panicked: '' @ text]"

subsection \<open>Loading\<close>

definition config_parse ::
    "'net libs \<Rightarrow> 'net texts \<Rightarrow> (string \<Rightarrow> (string, 'net config) result) \<Rightarrow> string \<Rightarrow> (failure, 'net config) result" where
  "config_parse L T toml text =
    check_then (map_err (\<lambda>e. [''failed to parse config: '' @ e, e]) (toml text)) (\<lambda>cfg.
    check_then (map_err (\<lambda>e. [show_config_error T e]) (validate L cfg)) (\<lambda>_. Ok cfg))"

definition config_load ::
    "'net libs \<Rightarrow> 'net texts \<Rightarrow> (string \<Rightarrow> (string, 'net config) result) \<Rightarrow> 'w os \<Rightarrow> string
      \<Rightarrow> ('w, 'net config) io" where
  "config_load L T toml sys path w =
    (check_then (map_err (\<lambda>e. [''failed to read config: '' @ e, e]) (os_read sys path w)) (config_parse L T toml), w)"

text \<open>\<open>Config::load\<close> followed by \<open>Router::new\<close>.\<close>

definition load_both ::
    "'net libs \<Rightarrow> 'net texts \<Rightarrow> (string \<Rightarrow> (string, 'net config) result) \<Rightarrow> 'w os \<Rightarrow> string
      \<Rightarrow> ('w, 'net config \<times> 'net router) io" where
  "load_both L T toml sys path =
    io_then (config_load L T toml sys path) (\<lambda>cfg w.
      (map_err (router_failure T) (check_then (router_new L cfg) (\<lambda>R. Ok (cfg, R))), w))"

subsection \<open>Reports\<close>

definition check_lines :: "'net config \<Rightarrow> 'net router \<Rightarrow> string list" where
  "check_lines cfg R =
    [''config ok'', ''interface: '' @ if_name (cfg_interface cfg),
     ''listen: '' @ show_socket_addr (if_listen (cfg_interface cfg)),
     ''routes: '' @ show_nat (length (routes R))]"

definition route_lines :: "'net libs \<Rightarrow> 'net texts \<Rightarrow> 'net router \<Rightarrow> ipv4 \<Rightarrow> string list" where
  "route_lines L T R destination =
    (case lookup L R destination of
       Some route \<Rightarrow>
         [show_ipv4 destination @ '' -> peer='' @ peer_name (route_peer route) @ '' endpoint=''
          @ show_socket_addr (peer_endpoint_addr (route_peer route)) @ '' via='' @ show_net T (route_prefix route)]
     | None \<Rightarrow> [show_ipv4 destination @ '' -> no route''])"

definition explain_route ::
    "'net libs \<Rightarrow> 'net texts \<Rightarrow> 'net config \<Rightarrow> 'net router \<Rightarrow> ipv4 \<Rightarrow> string list" where
  "explain_route L T cfg R destination =
    (let i = cfg_interface cfg in
     [''Config: '' @ if_name i, ''Destination: '' @ show_ipv4 destination,
      ''Local tunnel address: '' @ show_ipv4 (net_addr L (if_address i)),
      ''Transport: '' @ show_transport (if_transport i) @ '' listening on '' @ show_socket_addr (if_listen i)]
     @ (case lookup L R destination of
          Some route \<Rightarrow>
            [''Decision: send'',
             ''Reason: '' @ show_ipv4 destination @ '' matches allowed_ips entry ''
               @ show_net T (route_prefix route) @ ''.'',
             ''Peer: '' @ peer_name (route_peer route),
             ''Peer endpoint: '' @ show_socket_addr (peer_endpoint_addr (route_peer route))]
        | None \<Rightarrow>
            [''Decision: drop'',
             ''Reason: no peer allowed_ips entry matches '' @ show_ipv4 destination @ ''.'']
            @ (if routes R = [] then [''Configured routes: none'']
               else ''Configured routes:'' # map (\<lambda>r. ''  '' @ show_net T (route_prefix r) @ '' -> ''
                 @ peer_name (route_peer r)) (routes R))))"

definition host_route_commands :: "'net libs \<Rightarrow> 'net texts \<Rightarrow> string \<Rightarrow> 'net route \<Rightarrow> string list" where
  "host_route_commands L T interface r =
    (if net_prefix_len L (route_prefix r) = 0 then
       [[], ''Full-tunnel route detected: '' @ show_net T (route_prefix r),
        ''Before replacing the default route, keep the peer endpoint reachable outside the tunnel:'',
        ''  sudo route add -host '' @ show_ip (sa_ip (peer_endpoint_addr (route_peer r))) @ '' <current_gateway>'',
        ''Then route default traffic into the TUN interface:'',
        ''  sudo route add default -interface '' @ interface,
        ''If your OS already has a default route, replace/add semantics may differ.'']
     else if net_prefix_len L (route_prefix r) = 32 then
       [''  sudo route add -host '' @ show_ipv4 (net_addr L (route_prefix r)) @ '' -interface '' @ interface]
     else [''  sudo route add -net '' @ show_net T (route_prefix r) @ '' -interface '' @ interface])"

definition plan_routes :: "'net libs \<Rightarrow> 'net texts \<Rightarrow> 'net config \<Rightarrow> 'net router \<Rightarrow> string list" where
  "plan_routes L T cfg R =
    (let i = cfg_interface cfg in
     [''Interface: '' @ if_name i, ''Tunnel address: '' @ show_net T (if_address i),
      ''Transport listen: '' @ show_socket_addr (if_listen i)]
     @ (if routes R = [] then [''No allowed_ips routes are configured.'']
        else
          [[], ''Routes HushWire will use internally:'']
          @ map (\<lambda>r. ''  '' @ show_net T (route_prefix r) @ '' -> peer '' @ peer_name (route_peer r)
              @ '' ('' @ show_socket_addr (peer_endpoint_addr (route_peer r)) @ '')'') (routes R)
          @ (if excluded_routes R = [] then []
             else [[], ''Configured routes that remain on the physical network:'']
               @ map (\<lambda>r. ''  '' @ show_net T (route_prefix r) @ '' (excluded from peer ''
                   @ peer_name (route_peer r) @ '')'') (excluded_routes R))
          @ [[], ''Host routes you need outside HushWire:'']
          @ concat (map (host_route_commands L T (if_name i)) (routes R))
          @ [[], ''Exit-node peer requirements:'', ''  enable IPv4 forwarding'',
             ''  enable NAT/masquerade from the tunnel subnet to the outbound interface'']))"

subsection \<open>Subcommands\<close>

datatype cli_command =
    Check string
  | RouteTo string ipv4
  | Explain string ipv4
  | PlanRoutes string
  | Doctor string bool
  | GatewayPlanCommand string
  | GatewayApply string
  | GatewayStatusCommand string
  | GatewayRemove string

definition load_plan ::
    "'net libs \<Rightarrow> 'net texts \<Rightarrow> (string \<Rightarrow> (string, 'net config) result) \<Rightarrow> 'w os \<Rightarrow> string
      \<Rightarrow> ('w, gateway_plan) io" where
  "load_plan L T toml sys path =
    io_then (config_load L T toml sys path) (\<lambda>cfg. Pair (plan_from_config cfg))"

definition status_command :: "'w os \<Rightarrow> gateway_plan \<Rightarrow> ('w, unit) console" where
  "status_command sys plan =
    io_then (on_system (gateway_status_of sys plan)) (\<lambda>s.
    io_then (print_status sys plan s) (\<lambda>_.
    io_ensure (healthy s) ''gateway configuration is incomplete''))"

definition applied_lines :: "gateway_plan \<Rightarrow> string list" where
  "applied_lines plan =
    [''gateway applied'', ''  '' @ gp_lan_interface plan @ '' -> '' @ gp_tunnel_interface plan,
     ''  TCP MSS '' @ show_u16 (gp_tcp_mss plan) @ '' in both directions'',
     ''  '' @ show_nat (length (gp_rules plan)) @ '' owned firewall rules active'']"

definition removed_lines :: "nat \<Rightarrow> string option \<Rightarrow> string list" where
  "removed_lines removed restored =
    [''gateway removed'', ''  removed '' @ show_nat removed @ '' owned firewall rules'',
     case restored of
       Some v \<Rightarrow> ''  restored net.ipv4.ip_forward='' @ v
     | None \<Rightarrow> ''  left shared net.ipv4.ip_forward unchanged'']"

fun run_command ::
    "'net libs \<Rightarrow> 'net texts \<Rightarrow> (string \<Rightarrow> (string, 'net config) result) \<Rightarrow> 'w os \<Rightarrow> cli_command
      \<Rightarrow> ('w, unit) console" where
  "run_command L T toml sys (Check path) =
    io_then (on_system (load_both L T toml sys path)) (\<lambda>(cfg, R). say (check_lines cfg R))"
| "run_command L T toml sys (RouteTo path destination) =
    io_then (on_system (load_both L T toml sys path)) (\<lambda>(cfg, R). say (route_lines L T R destination))"
| "run_command L T toml sys (Explain path destination) =
    io_then (on_system (load_both L T toml sys path)) (\<lambda>(cfg, R). say (explain_route L T cfg R destination))"
| "run_command L T toml sys (PlanRoutes path) =
    io_then (on_system (load_both L T toml sys path)) (\<lambda>(cfg, R). say (plan_routes L T cfg R))"
| "run_command L T toml sys (Doctor path exit_node) =
    io_then (on_system (load_both L T toml sys path)) (\<lambda>(cfg, R). doctor_run L T sys cfg R exit_node)"
| "run_command L T toml sys (GatewayPlanCommand path) =
    io_then (on_system (load_plan L T toml sys path)) (\<lambda>plan. say (print_plan plan))"
| "run_command L T toml sys (GatewayApply path) =
    io_then (on_system (load_plan L T toml sys path)) (\<lambda>plan.
      io_then (on_system (gateway_apply sys plan)) (\<lambda>_. say (applied_lines plan)))"
| "run_command L T toml sys (GatewayStatusCommand path) =
    io_then (on_system (load_plan L T toml sys path)) (status_command sys)"
| "run_command L T toml sys (GatewayRemove path) =
    io_then (on_system (load_plan L T toml sys path)) (\<lambda>plan.
      io_then (on_system (gateway_remove sys plan)) (\<lambda>(removed, restored). say (removed_lines removed restored)))"

subsection \<open>Leaving the launcher's session\<close>

text \<open>\<^verbatim>\<open>src/src/process.rs\<close>. The calls of the C library are parameters; \<open>setsid\<close>
gives the new session or an error.\<close>

record 'w posix =
  px_getpid :: "'w \<Rightarrow> int"
  px_getpgrp :: "'w \<Rightarrow> int"
  px_setsid :: "'w \<Rightarrow> (string, int) result \<times> 'w"

record detached_session =
  ds_pid :: int
  ds_previous_process_group :: int
  ds_session_id :: int

definition detach_session :: "'w posix \<Rightarrow> ('w, detached_session) io" where
  "detach_session px w =
    io_then (io_call (px_setsid px)) (\<lambda>session_id.
      io_ok \<lparr>ds_pid = px_getpid px w, ds_previous_process_group = px_getpgrp px w,
             ds_session_id = session_id\<rparr>) w"

definition main_start :: "'w posix \<Rightarrow> bool \<Rightarrow> ('w, 'a) console \<Rightarrow> ('w, 'a) console" where
  "main_start px detach command =
    (if detach
     then io_then (io_context ''detaching from launcher session'' (on_system (detach_session px))) (\<lambda>_. command)
     else command)"

end
