(* ===== verification/Daemon.thy ===== *)
theory Daemon
  imports Udp Cli Tunnel_Props
begin

text \<open>
  \<^verbatim>\<open>run\<close> of \<^verbatim>\<open>src/src/tunnel.rs\<close> as a whole: the start-up up to the threads, and what a
  signal does. The TUN device, the sockets and the signal calls of the C library are parameters.
  The transport is bound by \<open>bind\<close> of \<^verbatim>\<open>src/src/transport.rs\<close>.
\<close>

subsection \<open>The TUN device\<close>

text \<open>The settings given to the device; on Linux packet information is switched off, elsewhere it is
left to the library.\<close>

record tun_settings =
  ts_name :: string
  ts_address :: ipv4
  ts_netmask :: ipv4
  ts_mtu :: int
  ts_up :: bool
  ts_packet_information :: "bool option"

definition tun_settings_of :: "'net libs \<Rightarrow> ('net \<Rightarrow> ipv4) \<Rightarrow> 'w os \<Rightarrow> 'net config \<Rightarrow> tun_settings" where
  "tun_settings_of L netmask sys cfg =
    (let i = cfg_interface cfg in
     \<lparr>ts_name = if_name i, ts_address = net_addr L (if_address i), ts_netmask = netmask (if_address i),
      ts_mtu = uint (if_mtu i), ts_up = True,
      ts_packet_information = (if os_is_linux sys then Some False else None)\<rparr>)"

text \<open>The result tells whether the device has packet information.\<close>

definition create_tun ::
    "'net libs \<Rightarrow> ('net \<Rightarrow> ipv4) \<Rightarrow> 'w os \<Rightarrow> (tun_settings \<Rightarrow> 'w \<Rightarrow> (string, bool) result \<times> 'w)
      \<Rightarrow> 'net config \<Rightarrow> ('w, bool) io" where
  "create_tun L netmask sys tun_create cfg =
    io_context (''failed to create TUN interface '' @ if_name (cfg_interface cfg))
      (io_call (tun_create (tun_settings_of L netmask sys cfg)))"

subsection \<open>The transport\<close>

record ('l, 'w) listener_lib =
  ll_bind :: "socket_addr \<Rightarrow> 'w \<Rightarrow> (string, 'l) result \<times> 'w"
  ll_set_nonblocking :: "'l \<Rightarrow> 'w \<Rightarrow> (string, unit) result \<times> 'w"
  ll_try_clone :: "'l \<Rightarrow> 'w \<Rightarrow> (string, 'l) result \<times> 'w"
  ll_local_addr :: "'l \<Rightarrow> 'w \<Rightarrow> (string, socket_addr) result"

datatype ('s, 'l) active_transport = UdpTransport 's | TcpTransport 'l

text \<open>The clone of the listener goes to the thread that accepts connections.\<close>

definition tcp_bind :: "('l, 'w) listener_lib \<Rightarrow> socket_addr \<Rightarrow> ('w, 'l) io" where
  "tcp_bind lib listen =
    io_then (io_context (''failed to bind TCP '' @ show_socket_addr listen) (io_call (ll_bind lib listen))) (\<lambda>listener.
    io_then (io_context ''failed to set listener nonblocking'' (io_call (ll_set_nonblocking lib listener))) (\<lambda>_.
    io_then (io_context ''failed to clone TCP listener for accept thread'' (io_call (ll_try_clone lib listener)))
      (\<lambda>_. io_ok listener)))"

definition transport_bind ::
    "('s, 'w) socket_lib \<Rightarrow> ('l, 'w) listener_lib \<Rightarrow> (error_kind \<Rightarrow> string) \<Rightarrow> 'net config
      \<Rightarrow> ('w, ('s, 'l) active_transport) io" where
  "transport_bind sl ll text cfg =
    (let listen = if_listen (cfg_interface cfg) in
     case if_transport (cfg_interface cfg) of
       Udp \<Rightarrow> io_then (io_context (''failed to bind UDP socket '' @ show_socket_addr listen)
                (io_call (\<lambda>w. case bind_udp_socket sl listen w of (r, w1) \<Rightarrow> (map_err text r, w1))))
                (\<lambda>s. io_ok (UdpTransport s))
     | Tcp \<Rightarrow> io_then (tcp_bind ll listen) (\<lambda>l. io_ok (TcpTransport l)))"

definition transport_local_addr ::
    "('s, 'w) socket_lib \<Rightarrow> ('l, 'w) listener_lib \<Rightarrow> (error_kind \<Rightarrow> string) \<Rightarrow> ('s, 'l) active_transport
      \<Rightarrow> ('w, socket_addr) io" where
  "transport_local_addr sl ll text t =
    io_query (\<lambda>w. case t of
      UdpTransport s \<Rightarrow> map_err text (sl_local_addr sl s w)
    | TcpTransport l \<Rightarrow> ll_local_addr ll l w)"

text \<open>A UDP transport is cloned without a call; a TCP listener is duplicated by the system.\<close>

definition transport_clone :: "('l, 'w) listener_lib \<Rightarrow> ('s, 'l) active_transport \<Rightarrow> ('w, ('s, 'l) active_transport) io" where
  "transport_clone ll t =
    (case t of
       UdpTransport s \<Rightarrow> io_ok (UdpTransport s)
     | TcpTransport l \<Rightarrow> io_then (io_call (ll_try_clone ll l)) (\<lambda>l2. io_ok (TcpTransport l2)))"

subsection \<open>Signals\<close>

record 'w signal_lib =
  sg_emptyset :: "'w \<Rightarrow> (string, unit) result \<times> 'w"
  sg_default :: "int \<Rightarrow> 'w \<Rightarrow> (string, unit) result \<times> 'w"
  sg_addset :: "int \<Rightarrow> 'w \<Rightarrow> (string, unit) result \<times> 'w"
  sg_unblock :: "int list \<Rightarrow> 'w \<Rightarrow> (string, unit) result \<times> 'w"
  sg_register :: "int list \<Rightarrow> 'w \<Rightarrow> (string, unit) result \<times> 'w"

definition SIGHUP :: int where "SIGHUP = 1"
definition SIGINT :: int where "SIGINT = 2"
definition SIGTERM :: int where "SIGTERM = 15"

fun default_signals :: "'w signal_lib \<Rightarrow> int list \<Rightarrow> int list \<Rightarrow> ('w, int list) io" where
  "default_signals sg [] signal_set = io_ok signal_set"
| "default_signals sg (s # ss) signal_set =
    io_then (io_call (sg_default sg s)) (\<lambda>_.
    io_then (io_call (sg_addset sg s)) (\<lambda>_. default_signals sg ss (signal_set @ [s])))"

definition normalize_shutdown_signal_state :: "'w signal_lib \<Rightarrow> ('w, unit) io" where
  "normalize_shutdown_signal_state sg =
    io_then (io_call (sg_emptyset sg)) (\<lambda>_.
    io_then (default_signals sg [SIGHUP, SIGINT, SIGTERM] []) (\<lambda>signal_set. io_call (sg_unblock sg signal_set)))"

subsection \<open>Start-up\<close>

text \<open>What the daemon uses of its libraries.\<close>

record ('net, 's, 'l, 'w) daemon_lib =
  dl_netmask :: "'net \<Rightarrow> ipv4"
  dl_tun_create :: "tun_settings \<Rightarrow> 'w \<Rightarrow> (string, bool) result \<times> 'w"
  dl_sockets :: "('s, 'w) socket_lib"
  dl_listeners :: "('l, 'w) listener_lib"
  dl_signals :: "'w signal_lib"
  dl_error_text :: "error_kind \<Rightarrow> string"
  dl_snow_text :: "snow_error \<Rightarrow> string"

text \<open>What the threads of the daemon get.\<close>

record ('net, 'hs, 'ts, 's, 'l) daemon =
  dn_engine :: "('net, 'hs, 'ts) engine"
  dn_scheduler :: scheduler
  dn_packet_information :: bool
  dn_transport :: "('s, 'l) active_transport"
  dn_cleanup :: "installed_route list \<times> firewall_manager option"

text \<open>The errors of the engine, with those of the crates below as they are.\<close>

fun show_packet_error :: "packet_error \<Rightarrow> string" where
  "show_packet_error (TooShort n) = ''packet is too short for an IPv4 header: '' @ show_nat n @ '' bytes''"
| "show_packet_error (NotIpv4 v) = ''packet is not IPv4: version='' @ show_nat (unat v)"
| "show_packet_error (HeaderTooLong header_len packet_len) =
    ''IPv4 header length exceeds packet length: header='' @ show_nat header_len @ '' packet='' @ show_nat packet_len"

fun noise_failure :: "(snow_error \<Rightarrow> string) \<Rightarrow> noise_error \<Rightarrow> failure" where
  "noise_failure snow (Snow e) = [''Noise operation failed: '' @ snow e, snow e]"
| "noise_failure snow MissingRemoteStatic = [''handshake did not reveal the configured remote static key'']"
| "noise_failure snow RemoteStaticMismatch = [''handshake remote static key does not match the configured peer'']"
| "noise_failure snow InvalidSessionId = [''handshake response contained an invalid session identifier'']"
| "noise_failure snow WrongSession = [''transport packet belongs to another session'']"
| "noise_failure snow MalformedTransport = [''transport packet is malformed'']"
| "noise_failure snow Replay = [''transport counter is a replay or outside the receive window'']"
| "noise_failure snow CounterExhausted = [''transport sending counter is exhausted'']"

fun engine_failure :: "'net texts \<Rightarrow> (snow_error \<Rightarrow> string) \<Rightarrow> 'net engine_error \<Rightarrow> failure" where
  "engine_failure T snow EngineInvalidPrivateKey = [''interface has an invalid private key'']"
| "engine_failure T snow (EngineRouter e) = router_failure T e"
| "engine_failure T snow (EnginePacket e) = [show_packet_error e]"
| "engine_failure T snow (EngineNoise e) = noise_failure snow e"
| "engine_failure T snow (UnknownPeer name) = [''unknown peer: '' @ name]"
| "engine_failure T snow (InvalidPeerEndpoint a) = [''invalid peer endpoint: '' @ show_socket_addr a]"

text \<open>The local address is read for a log line; the transport is cloned for two of the threads.\<close>

definition daemon_start ::
    "'net libs \<Rightarrow> 'net texts \<Rightarrow> 'w os \<Rightarrow> ('net, 's, 'l, 'w) daemon_lib \<Rightarrow> 'net config \<Rightarrow> bool
      \<Rightarrow> ('w, ('net, 'hs, 'ts, 's, 'l) daemon) io" where
  "daemon_start L T sys D cfg exit_node =
    (let text = dl_error_text D; sockets = dl_sockets D; listeners = dl_listeners D; signals = dl_signals D in
     io_then (Pair (map_err (router_failure T) (router_new L cfg))) (\<lambda>R.
     io_then (Pair (map_err (engine_failure T (dl_snow_text D)) (engine_with_router L cfg R))) (\<lambda>en.
     io_then (create_tun L (dl_netmask D) sys (dl_tun_create D) cfg) (\<lambda>packet_information.
     io_then (transport_bind sockets listeners text cfg) (\<lambda>t.
     io_then (tunnel_prepare L T sys cfg R exit_node) (\<lambda>cleanup.
     io_then (io_context ''preparing shutdown signal handlers'' (normalize_shutdown_signal_state signals)) (\<lambda>_.
     io_then (io_context ''registering signal handlers''
       (io_call (sg_register signals [SIGINT, SIGTERM, SIGHUP]))) (\<lambda>_.
     io_then (transport_local_addr sockets listeners text t) (\<lambda>_.
     io_then (transport_clone listeners t) (\<lambda>_.
     io_then (transport_clone listeners t) (\<lambda>_.
       io_ok \<lparr>dn_engine = en, dn_scheduler = scheduler_new cfg, dn_packet_information = packet_information,
              dn_transport = t, dn_cleanup = cleanup\<rparr>)))))))))))"

text \<open>The signal thread cleans up and ends the process with this exit code.\<close>

definition on_signal ::
    "'w os \<Rightarrow> (process_output \<Rightarrow> string) \<Rightarrow> installed_route list \<times> firewall_manager option \<Rightarrow> int \<Rightarrow> 'w \<Rightarrow> int \<times> 'w" where
  "on_signal sys status cleanup sig w = (if sig = SIGHUP then 1 else 0, cleanup_run sys status cleanup w)"

subsection \<open>What the daemon reports\<close>

text \<open>The fields of a line of the statistics thread, which takes a snapshot every thirty seconds
and reads the clock once for every peer that was heard of.\<close>

record peer_report =
  rp_peer :: string
  rp_tx_bytes :: u64
  rp_rx_bytes :: u64
  rp_last_seen :: string
  rp_endpoint :: "socket_addr option"

fun stats_lines ::
    "('hs, 'ts, 'w) runtime \<Rightarrow> (string \<times> peer_stats) list \<Rightarrow> 'w \<Rightarrow> peer_report list \<times> 'w" where
  "stats_lines E [] w = ([], w)"
| "stats_lines E ((name, stats) # rest) w =
    (case (case last_seen stats of
             None \<Rightarrow> (''never'', w)
           | Some seen \<Rightarrow>
               case instant_now E w of (t, w1) \<Rightarrow>
                 (show_nat (duration_since t seen div secs 1) @ ''s ago'', w1)) of
       (ago, w1) \<Rightarrow>
         case stats_lines E rest w1 of (ls, w2) \<Rightarrow>
           (\<lparr>rp_peer = name, rp_tx_bytes = tx_bytes stats, rp_rx_bytes = rx_bytes stats,
             rp_last_seen = ago, rp_endpoint = current_endpoint stats\<rparr> # ls, w2))"

definition stats_round ::
    "('hs, 'ts, 'w) runtime \<Rightarrow> ('net, 'hs, 'ts) engine \<Rightarrow> 'w \<Rightarrow> peer_report list \<times> 'w" where
  "stats_round E en w =
    (let snapshot = engine_peer_stats en in if snapshot = [] then ([], w) else stats_lines E snapshot w)"

fun event_line :: "engine_event \<Rightarrow> string \<times> socket_addr \<times> string" where
  "event_line (HandshakeCompleted name endpoint Initiator) =
    (name, endpoint, ''handshake completed (initiator), session established'')"
| "event_line (HandshakeCompleted name endpoint Responder) =
    (name, endpoint, ''handshake completed (responder), authenticated confirmation received'')"

definition log_engine_events :: "engine_event list \<Rightarrow> (string \<times> socket_addr \<times> string) list" where
  "log_engine_events events = map event_line events"

text \<open>Every peer that was ever sent to or heard of is reported once, with its counters and the
endpoint it is reached at; one that never authenticated itself is reported as never seen.\<close>

lemma stats_lines_report:
  "\<exists>w'. stats_lines E m w = (ls, w') \<Longrightarrow>
    map (\<lambda>l. (rp_peer l, rp_tx_bytes l, rp_rx_bytes l, rp_endpoint l)) ls
      = map (\<lambda>(name, s). (name, tx_bytes s, rx_bytes s, current_endpoint s)) m
    \<and> list_all2 (\<lambda>l (name, s). last_seen s = None \<longrightarrow> rp_last_seen l = ''never'') ls m"
proof (induction m arbitrary: ls w)
  case (Cons x m)
  obtain name s where x: "x = (name, s)" by (cases x)
  from Cons.prems obtain l ls1 w1 w2 where ls: "ls = l # ls1" and rest: "stats_lines E m w1 = (ls1, w2)"
    and l: "(rp_peer l, rp_tx_bytes l, rp_rx_bytes l, rp_endpoint l) = (name, tx_bytes s, rx_bytes s, current_endpoint s)"
      "last_seen s = None \<longrightarrow> rp_last_seen l = ''never''"
    by (cases "last_seen s") (fastforce simp: x split: prod.splits)+
  with Cons.IH [of w1 ls1] show ?case by (simp add: x)
qed simp

subsection \<open>What the libraries leave alone\<close>

definition libraries_keep :: "('net, 's, 'l, 'w) daemon_lib \<Rightarrow> ('w \<Rightarrow> 'v) \<Rightarrow> bool" where
  "libraries_keep D view \<longleftrightarrow>
    (\<forall>x w. view (snd (dl_tun_create D x w)) = view w)
    \<and> (\<forall>x w. view (snd (sl_bind (dl_sockets D) x w)) = view w)
    \<and> (\<forall>x y w. view (snd (sl_set_read_timeout (dl_sockets D) x y w)) = view w)
    \<and> (\<forall>x w. view (snd (ll_bind (dl_listeners D) x w)) = view w)
    \<and> (\<forall>x w. view (snd (ll_set_nonblocking (dl_listeners D) x w)) = view w)
    \<and> (\<forall>x w. view (snd (ll_try_clone (dl_listeners D) x w)) = view w)
    \<and> (\<forall>w. view (snd (sg_emptyset (dl_signals D) w)) = view w)
    \<and> (\<forall>x w. view (snd (sg_default (dl_signals D) x w)) = view w)
    \<and> (\<forall>x w. view (snd (sg_addset (dl_signals D) x w)) = view w)
    \<and> (\<forall>x w. view (snd (sg_unblock (dl_signals D) x w)) = view w)
    \<and> (\<forall>x w. view (snd (sg_register (dl_signals D) x w)) = view w)"

lemma create_tun_leaves: "libraries_keep D view \<Longrightarrow> leaves view (create_tun L m sys (dl_tun_create D) cfg)"
  unfolding create_tun_def libraries_keep_def by (intro io_leaves) simp

lemma transport_bind_leaves:
  assumes "libraries_keep D view"
  shows "leaves view (transport_bind (dl_sockets D) (dl_listeners D) text cfg)"
proof (cases "if_transport (cfg_interface cfg)")
  case Udp
  have "view (snd (bind_udp_socket (dl_sockets D) a w)) = view w" for a w
  proof -
    obtain r w1 where b: "sl_bind (dl_sockets D) a w = (r, w1)" by (cases "sl_bind (dl_sockets D) a w")
    with assms have 1: "view w1 = view w" unfolding libraries_keep_def by (metis snd_conv)
    show ?thesis
    proof (cases r)
      case (Inr s)
      obtain q w2 where "sl_set_read_timeout (dl_sockets D) s 1000000000 w1 = (q, w2)"
        by (cases "sl_set_read_timeout (dl_sockets D) s 1000000000 w1")
      moreover from this assms have "view w2 = view w1" unfolding libraries_keep_def by (metis snd_conv)
      ultimately show ?thesis using b 1 Inr by (simp add: bind_udp_socket_def split: sum.splits)
    qed (use b 1 in \<open>simp add: bind_udp_socket_def\<close>)
  qed
  then have "view (snd (case bind_udp_socket (dl_sockets D) a w of (r, w1) \<Rightarrow> (map_err text r, w1))) = view w" for a w
    by (simp add: case_prod_beta)
  with Udp show ?thesis unfolding transport_bind_def Let_def by (simp, intro io_leaves)
next
  case Tcp
  with assms show ?thesis
    unfolding transport_bind_def Let_def tcp_bind_def libraries_keep_def
    by (simp, intro io_leaves) simp_all
qed

lemma signals_leave:
  assumes "libraries_keep D view"
  shows "leaves view (normalize_shutdown_signal_state (dl_signals D))"
proof -
  have default: "leaves view (default_signals (dl_signals D) ss acc)" for ss acc
    using assms unfolding libraries_keep_def
    by (induction ss arbitrary: acc) (simp_all add: leaves_ok, intro io_leaves, simp_all)
  then show ?thesis
    using assms unfolding normalize_shutdown_signal_state_def libraries_keep_def
    by (intro leaves_then io_call_leaves default) simp_all
qed

lemma transport_clone_leaves: "libraries_keep D view \<Longrightarrow> leaves view (transport_clone (dl_listeners D) t)"
  unfolding transport_clone_def libraries_keep_def by (cases t) (simp_all add: leaves_ok, intro io_leaves, simp_all)

lemma local_addr_leaves: "leaves view (transport_local_addr sl ll text t)"
  by (simp add: transport_local_addr_def leaves_def io_query_def)

text \<open>A start-up that succeeds is a preparation of routes and firewall around which nothing happens to
a view that the libraries keep.\<close>

lemma daemon_start_prepared:
  assumes "daemon_start L T sys D cfg exit_node w = (Ok d, w')" and keep: "libraries_keep D view"
  obtains R w1 w2 where "router_new L cfg = Ok R" and "engine_with_router L cfg R = Ok (dn_engine d)"
    and "dn_scheduler d = scheduler_new cfg" and "tunnel_prepare L T sys cfg R exit_node w1 = (Ok (dn_cleanup d), w2)"
    and "view w1 = view w" and "view w' = view w2"
proof -
  let ?text = "dl_error_text D" and ?ll = "dl_listeners D"
  from assms(1) obtain R en pi t c r1 r2 w1 w2 w3 w4 w5 w6 w7 w8 a t1 t2 where
    parts: "router_new L cfg = Ok R" "engine_with_router L cfg R = Ok en"
    "create_tun L (dl_netmask D) sys (dl_tun_create D) cfg w = (Ok pi, w1)"
    "transport_bind (dl_sockets D) ?ll ?text cfg w1 = (Ok t, w2)"
    "tunnel_prepare L T sys cfg R exit_node w2 = (Ok c, w3)"
    "normalize_shutdown_signal_state (dl_signals D) w3 = (Ok r1, w4)"
    "io_call (sg_register (dl_signals D) [SIGINT, SIGTERM, SIGHUP]) w4 = (Ok r2, w5)"
    "transport_local_addr (dl_sockets D) ?ll ?text t w5 = (Ok a, w6)"
    "transport_clone ?ll t w6 = (Ok t1, w7)" "transport_clone ?ll t w7 = (Ok t2, w8)"
    and d: "w' = w8" "dn_engine d = en" "dn_scheduler d = scheduler_new cfg" "dn_cleanup d = c"
    unfolding daemon_start_def Let_def io_then_eq_Ok io_context_eq_Ok by auto
  have reg: "leaves view (io_call (sg_register (dl_signals D) [SIGINT, SIGTERM, SIGHUP]))"
    using keep unfolding libraries_keep_def by (intro io_call_leaves) simp
  have "view w2 = view w"
    using leavesD [OF create_tun_leaves [OF keep] parts(3)] leavesD [OF transport_bind_leaves [OF keep] parts(4)] by simp
  moreover have "view w8 = view w3"
    using leavesD [OF signals_leave [OF keep] parts(6)] leavesD [OF reg parts(7)]
      leavesD [OF local_addr_leaves [of view] parts(8)] leavesD [OF transport_clone_leaves [OF keep] parts(9)]
      leavesD [OF transport_clone_leaves [OF keep] parts(10)] by simp
  ultimately show thesis using that [of R w2 w3] parts(1,2,5) d by simp
qed

subsection \<open>A concrete daemon\<close>

definition demo_daemon_lib :: "(demo_net, socket_addr, unit, demo_system) daemon_lib" where
  "demo_daemon_lib =
    \<lparr>dl_netmask = (\<lambda>_. 4294967040), dl_tun_create = (\<lambda>_ w. (Ok False, w)),
     dl_sockets = \<lparr>sl_bind = (\<lambda>a w. (Ok a, w)), sl_set_read_timeout = (\<lambda>_ _ w. (Ok (), w)),
       sl_local_addr = (\<lambda>s _. Ok s), sl_send_to = (\<lambda>_ frame _ w. (Ok (length frame), w)),
       sl_recv_from = (\<lambda>_ _ w. (Err TimedOut, w))\<rparr>,
     dl_listeners = \<lparr>ll_bind = (\<lambda>_ w. (Ok (), w)), ll_set_nonblocking = (\<lambda>_ w. (Ok (), w)),
       ll_try_clone = (\<lambda>_ w. (Ok (), w)), ll_local_addr = (\<lambda>_ _. Ok (V4 0 0))\<rparr>,
     dl_signals = \<lparr>sg_emptyset = (\<lambda>w. (Ok (), w)), sg_default = (\<lambda>_ w. (Ok (), w)),
       sg_addset = (\<lambda>_ w. (Ok (), w)), sg_unblock = (\<lambda>_ w. (Ok (), w)), sg_register = (\<lambda>_ w. (Ok (), w))\<rparr>,
     dl_error_text = (\<lambda>_. []), dl_snow_text = (\<lambda>_. [])\<rparr>"

lemma demo_libraries_keep: "libraries_keep demo_daemon_lib view"
  by (simp add: libraries_keep_def demo_daemon_lib_def)

lemma demo_small_facts:
  "if_name (cfg_interface demo_small_config) = ''tun0''" "if_transport (cfg_interface demo_small_config) = Udp"
  "decode_key demo_libs (if_private_key (cfg_interface demo_small_config)) = Some (map of_char (demo_key (CHR ''s'')))"
  "if_address (cfg_interface demo_small_config) = if_address (cfg_interface demo_config)"
  by (simp_all add: demo_small_config_def demo_defs decode_key_def)

lemma demo_daemon_steps:
  fixes w :: demo_system
  defines "D \<equiv> demo_daemon_lib"
  shows demo_tun_created: "create_tun demo_libs (dl_netmask D) sys (dl_tun_create D) cfg w = (Ok False, w)"
    and demo_transport_bound: "transport_bind (dl_sockets D) (dl_listeners D) text demo_small_config w
      = (Ok (UdpTransport (if_listen (cfg_interface demo_small_config))), w)"
    and demo_signals: "io_context c (normalize_shutdown_signal_state (dl_signals D)) w = (Ok (), w)"
    and demo_registered: "io_context c (io_call (sg_register (dl_signals D) ss)) w = (Ok (), w)"
    and demo_local_addr: "transport_local_addr (dl_sockets D) ll text (UdpTransport a) w = (Ok a, w)"
    and demo_cloned: "transport_clone ll (UdpTransport a) w = (Ok (UdpTransport a), w)"
  unfolding D_def demo_daemon_lib_def create_tun_def transport_bind_def normalize_shutdown_signal_state_def
    transport_local_addr_def transport_clone_def Let_def demo_small_facts bind_udp_socket_def
    io_context_def io_call_def io_query_def io_then_def io_ok_def default_signals.simps
  by simp_all

lemma demo_daemon_started:
  "\<exists>d w1. daemon_start demo_libs demo_texts (demo_system_os True) demo_daemon_lib demo_small_config True
      (\<lambda>_. None, (\<lambda>_. [], False)) = (Ok (d :: (demo_net, demo_hs, bytes, socket_addr, unit) daemon), w1)"
proof -
  obtain c w1 where p: "tunnel_prepare demo_libs demo_texts (demo_system_os True) demo_config demo_small_router True
      (\<lambda>_. None, (\<lambda>_. [], False)) = (Ok c, w1)" using demo_prepared by blast
  have "if_name (cfg_interface demo_config) = ''tun0''" by (simp add: demo_config_def)
  then have "tunnel_prepare demo_libs demo_texts (demo_system_os True) demo_small_config demo_small_router True
      (\<lambda>_. None, (\<lambda>_. [], False)) = (Ok c, w1)"
    using p unfolding tunnel_prepare_def demo_small_facts by simp
  note prepared = this
  have keyed: "\<exists>en. engine_with_router demo_libs demo_small_config demo_small_router = Ok en"
    by (simp add: engine_with_router_def demo_small_facts check_then_def ok_or_def)
  then obtain en :: "(demo_net, demo_hs, bytes) engine" where
    "engine_with_router demo_libs demo_small_config demo_small_router = Ok en" by blast
  then show ?thesis
    unfolding daemon_start_def Let_def demo_small_router_new
    by (cases w1) (simp add: io_then_def prepared demo_daemon_steps)
qed

subsection \<open>Properties\<close>

text \<open>C26: once the daemon has started, its engine is, whatever its loops have done since, one that
the engine's own operations reach from the configured routes and the interface's key; and when a
signal ends it, whatever else has happened to the world, the clean-up leaves the routing table, the
rules of every firewall chain and the forwarding switch as they were before the start, against
programs and libraries that behave as documented. Only a hang-up gives a failing exit code.\<close>

theorem daemon_restores_system:
  assumes "ip_adds sys dest tab" and "ip_deletes sys dest tab" and "appends_rules sys rules forwarding"
    and "deletes_rules sys rules forwarding" and "switches_forwarding sys rules forwarding"
    and "ip_keeps sys rules" and "ip_keeps sys forwarding" and "firewall_keeps sys tab"
    and keep: "libraries_keep D (\<lambda>w. (tab w, rules w, forwarding w))"
    and started: "daemon_start L T sys D cfg exit_node w = (Ok d, w1)"
    and ran: "(daemon_step L E io pi)\<^sup>*\<^sup>* (dn_engine d) en"
    and later: "tab w2 = tab w1" "rules w2 = rules w1" "forwarding w2 = forwarding w1"
  shows "(\<exists>R k. router_new L cfg = Ok R \<and> decode_key L (if_private_key (cfg_interface cfg)) = Some k
      \<and> engine_reachable L E R k en)
    \<and> (case on_signal sys (show_status T) (dn_cleanup d) sig w2 of (code, w3) \<Rightarrow>
        (code = 0 \<longleftrightarrow> sig \<noteq> SIGHUP) \<and> tab w3 = tab w
        \<and> (\<forall>loc. mset (rules w3 loc) = mset (rules w loc)) \<and> forwarding w3 = forwarding w)"
proof -
  obtain R u v where R: "router_new L cfg = Ok R" "engine_with_router L cfg R = Ok (dn_engine d)"
    and prep: "tunnel_prepare L T sys cfg R exit_node u = (Ok (dn_cleanup d), v)"
    and "(tab u, rules u, forwarding u) = (tab w, rules w, forwarding w)"
      "(tab w1, rules w1, forwarding w1) = (tab v, rules v, forwarding v)"
    using daemon_start_prepared [OF started keep] by blast
  then have views: "tab u = tab w" "rules u = rules w" "forwarding u = forwarding w"
    "tab w1 = tab v" "rules w1 = rules v" "forwarding w1 = forwarding v" by simp_all
  from R(2) obtain k where k: "decode_key L (if_private_key (cfg_interface cfg)) = Some k"
    "dn_engine d = engine_start R k"
    by (auto simp: engine_with_router_def engine_start_def)
  have "engine_reachable L E R k (dn_engine d)" unfolding k(2) by (rule reachable.start) simp
  from daemon.steps_inv [OF ran this] R(1) k(1)
  have "\<exists>R k. router_new L cfg = Ok R \<and> decode_key L (if_private_key (cfg_interface cfg)) = Some k
      \<and> engine_reachable L E R k en" by blast
  moreover have "tab w2 = tab v" "rules w2 = rules v" "forwarding w2 = forwarding v" using later views by simp_all
  from prepared_restores [OF assms(1-8) prep this] views
  have "tab (cleanup_run sys (show_status T) (dn_cleanup d) w2) = tab w
      \<and> (\<forall>loc. mset (rules (cleanup_run sys (show_status T) (dn_cleanup d) w2) loc) = mset (rules w loc))
      \<and> forwarding (cleanup_run sys (show_status T) (dn_cleanup d) w2) = forwarding w" by simp
  ultimately show ?thesis by (simp add: on_signal_def)
qed

theorem daemon_restores_system_witness:
  "\<exists>d w1. daemon_start demo_libs demo_texts (demo_system_os True) demo_daemon_lib demo_small_config True
      (\<lambda>_. None, (\<lambda>_. [], False)) = (Ok (d :: (demo_net, demo_hs, bytes, socket_addr, unit) daemon), w1)
    \<and> fst (snd (on_signal (demo_system_os True) (show_status demo_texts) (dn_cleanup d) SIGTERM w1)) = (\<lambda>_. None)"
proof -
  obtain d :: "(demo_net, demo_hs, bytes, socket_addr, unit) daemon" and w1 where
    d: "daemon_start demo_libs demo_texts (demo_system_os True) demo_daemon_lib demo_small_config True
      (\<lambda>_. None, (\<lambda>_. [], False)) = (Ok d, w1)" using demo_daemon_started by blast
  from daemon_restores_system [OF demo_system_adds demo_system_deletes demo_system_wall_laws demo_system_switches
      demo_system_separate demo_libraries_keep d rtranclp.rtrancl_refl refl refl refl,
      where E = demo_runtime and sig = SIGTERM]
  have "fst (snd (on_signal (demo_system_os True) (show_status demo_texts) (dn_cleanup d) SIGTERM w1)) = (\<lambda>_. None)"
    by (simp add: case_prod_beta)
  with d show ?thesis by blast
qed

end
