(* ===== verification/Cli_Props.thy ===== *)
theory Cli_Props
  imports Cli Routing_Props Gateway_Props
begin

text \<open>
  What the reports tell: the verdict of the gateway status against its lines, and the host-route
  diagnosis of \<open>doctor\<close> against the routing table it inspects.
\<close>

lemma say_eq: "say lines (w, shown) = (Ok (), (w, shown @ lines))"
  by (simp add: say_def)

lemma on_system_eq: "on_system m (w, x) = (case m w of (r, w') \<Rightarrow> (r, (w', x)))"
  by (simp add: on_system_def)

lemma io_either_eq: "io_either m good bad s = (case m s of (Inr x, s') \<Rightarrow> good x s' | (Inl e, s') \<Rightarrow> bad e s')"
  by (simp add: io_either_def)

subsection \<open>Gateway status\<close>

definition bad_line :: "string \<Rightarrow> bool" where
  "bad_line l \<longleftrightarrow> starts_with l ''FAIL'' \<or> starts_with l ''WARN''"

lemma starts_with_append: "length p \<le> length t \<Longrightarrow> starts_with (t @ u) p \<longleftrightarrow> starts_with t p"
  by (simp add: starts_with_def)

lemma bad_line_word [simp]: "bad_line (result_word b @ CHR '' '' # t) \<longleftrightarrow> \<not> b"
  by (simp add: bad_line_def result_word_def starts_with_def)

lemma bad_line_literals [simp]:
  "bad_line (CHR ''O'' # t) \<longleftrightarrow> False" "bad_line (CHR ''H'' # t) \<longleftrightarrow> False"
  "bad_line (CHR ''I'' # t) \<longleftrightarrow> False"
  "bad_line (CHR ''F'' # CHR ''A'' # CHR ''I'' # CHR ''L'' # t) \<longleftrightarrow> True"
  "bad_line (CHR ''W'' # CHR ''A'' # CHR ''R'' # CHR ''N'' # t) \<longleftrightarrow> True"
  by (simp_all add: bad_line_def starts_with_def)

lemma bad_mtu_line: "bad_line (mtu_line s) \<longleftrightarrow> gs_tunnel_mtu s \<noteq> Some (gs_expected_tunnel_mtu s)"
  by (simp add: mtu_line_def split: option.splits)

lemma bad_owned_line: "bad_line (owned_line s) \<longleftrightarrow> gs_owned_rule_count s \<noteq> gs_expected_rule_count s"
  by (simp add: owned_line_def)

lemma status_lines_tell_health: "(\<exists>l \<in> set (status_lines plan s). bad_line l) \<longleftrightarrow> \<not> healthy s"
proof -
  have rules: "(\<exists>l \<in> set (map (\<lambda>(description, present). result_word present @ '' '' @ description) ps). bad_line l)
      \<longleftrightarrow> \<not> list_all (\<lambda>(_, present). present) ps" for ps
    by (induction ps) auto
  have "(\<exists>l \<in> set (status_lines plan s). bad_line l) \<longleftrightarrow>
      \<not> gs_forwarding_enabled s \<or> \<not> gs_lan_interface_exists s \<or> \<not> gs_tunnel_interface_exists s
      \<or> gs_tunnel_mtu s \<noteq> Some (gs_expected_tunnel_mtu s) \<or> \<not> list_all (\<lambda>(_, present). present) (gs_rules s)
      \<or> gs_owned_rule_count s \<noteq> gs_expected_rule_count s \<or> \<not> gs_state_recorded s"
    unfolding status_lines_def set_append bex_Un rules
    by (simp add: bad_mtu_line bad_owned_line) blast
  then show ?thesis by (auto simp: healthy_def)
qed

text \<open>The fragmentation counter is read without a change and adds no bad line.\<close>

lemma read_ip_frag_fails_keeps: "snd (read_ip_frag_fails sys w) = w"
  by (simp add: read_ip_frag_fails_def io_then_def io_context_def io_query_def split: sum.splits prod.splits)

lemma print_status_law:
  "\<exists>more. print_status sys plan s (w, shown) = (Ok (), (w, shown @ status_lines plan s @ more))
    \<and> (\<forall>l \<in> set more. \<not> bad_line l)"
proof -
  obtain r where r: "read_ip_frag_fails sys w = (r, w)"
    using read_ip_frag_fails_keeps [of sys w] by (cases "read_ip_frag_fails sys w") simp
  show ?thesis
    by (auto simp: print_status_def io_then_def say_eq io_either_eq on_system_eq r
        split: sum.splits option.splits)
qed

subsection \<open>Host routes\<close>

lemma no_space_in_word: "printable_word t \<Longrightarrow> CHR '' '' \<notin> set t"
  by (auto simp: printable_word_def list_all_iff)

text \<open>The characters after the last space are the last word.\<close>

lemma last_word:
  assumes "ts \<noteq> []" and "\<forall>t \<in> set ts. CHR '' '' \<notin> set t"
  shows "takeWhile (\<lambda>c. c \<noteq> CHR '' '') (rev (join '' '' ts)) = rev (last ts)"
  using assms
proof (induction ts rule: induct_list012)
  case (2 t)
  then have "\<forall>c \<in> set (rev t). c \<noteq> CHR '' ''" by auto
  then show ?case by (simp add: takeWhile_eq_all_conv)
next
  case (3 t u us)
  have "rev (join '' '' (t # u # us)) = rev (join '' '' (u # us)) @ CHR '' '' # rev t" by simp
  then have "takeWhile (\<lambda>c. c \<noteq> CHR '' '') (rev (join '' '' (t # u # us)))
      = takeWhile (\<lambda>c. c \<noteq> CHR '' '') (rev (join '' '' (u # us)))" by (simp only: takeWhile_tail simp_thms)
  also have "\<dots> = rev (last (u # us))" using 3 by simp
  finally show ?case by simp
qed simp

text \<open>A line whose last word is not the interface is not taken for one that uses it.\<close>

lemma line_without_interface:
  assumes words: "\<forall>t \<in> set ts. CHR '' '' \<notin> set t" and "ts \<noteq> []"
    and "CHR '' '' \<notin> set i" and "last ts \<noteq> i"
  shows "join '' '' ts \<noteq> ''interface: '' @ i" and "\<not> ends_with (join '' '' ts) ('' dev '' @ i)"
proof -
  have different: "join '' '' ts \<noteq> x @ CHR '' '' # i" for x
  proof
    assume "join '' '' ts = x @ CHR '' '' # i"
    with last_word [OF assms(2,1)]
    have "takeWhile (\<lambda>c. c \<noteq> CHR '' '') (rev i @ CHR '' '' # rev x) = rev (last ts)" by simp
    moreover have "takeWhile (\<lambda>c. c \<noteq> CHR '' '') (rev i @ CHR '' '' # rev x) = rev i"
      using assms(3) by (subst takeWhile_append2) auto
    ultimately show False using assms(4) by simp
  qed
  from different [of "''interface:''"] show "join '' '' ts \<noteq> ''interface: '' @ i" by simp
  show "\<not> ends_with (join '' '' ts) ('' dev '' @ i)"
  proof
    assume "ends_with (join '' '' ts) ('' dev '' @ i)"
    then obtain x where "join '' '' ts = x @ '' dev '' @ i" using ends_with_append by blast
    with different [of "x @ '' dev''"] show False by simp
  qed
qed

lemma cache_line: "''cache'' \<noteq> ''interface: '' @ i" "\<not> ends_with ''cache'' ('' dev '' @ i)"
proof -
  have "''cache'' \<noteq> x @ CHR '' '' # y" for x y
  proof
    assume "''cache'' = x @ CHR '' '' # y"
    then have "CHR '' '' \<in> set ''cache''" by (simp only: set_append set_simps) simp
    then show False by simp
  qed
  note no_space = this
  from no_space [of "''interface:''" i] show "''cache'' \<noteq> ''interface: '' @ i" by simp
  show "\<not> ends_with ''cache'' ('' dev '' @ i)"
  proof
    assume "ends_with ''cache'' ('' dev '' @ i)"
    then obtain x where "''cache'' = x @ '' dev '' @ i" using ends_with_append by blast
    with no_space [of x "''dev '' @ i"] show False by simp
  qed
qed

lemma listing_without_interface:
  assumes "map trim (str_lines listing) = [join '' '' ts, ''cache'']" and "ts \<noteq> []"
    and "\<forall>t \<in> set ts. CHR '' '' \<notin> set t" and "CHR '' '' \<notin> set i" and "last ts \<noteq> i"
  shows "\<not> uses_interface listing i"
  unfolding uses_interface_def assms(1)
  using line_without_interface [OF assms(3,2,4,5)] cache_line [of i] by simp

text \<open>What the check of one endpoint prints on Linux, once the program \<open>ip\<close> has answered.\<close>

lemma check_endpoint_linux:
  assumes "os_is_linux sys" and "po_success out"
    and "os_command sys ''ip'' [''route'', ''get'', show_ip (sa_ip (peer_endpoint_addr peer))] w = (Ok out, w1)"
  shows "check_endpoint sys interface peer (w, shown) = (Ok (), (w1, shown
    @ [''  endpoint '' @ show_ip (sa_ip (peer_endpoint_addr peer)) @ '' for peer '' @ peer_name peer]
    @ host_route_lines interface (po_stdout out)
    @ [''  suggested macOS exception:'',
       ''    sudo route add -host '' @ show_ip (sa_ip (peer_endpoint_addr peer)) @ '' <current_gateway>'']))"
proof -
  have "host_route_to sys (sa_ip (peer_endpoint_addr peer)) w = (Ok (po_stdout out), w1)"
    using assms by (simp add: host_route_to_def io_then_def io_context_def io_call_def command_output_def)
  then show ?thesis
    by (simp add: check_endpoint_def Let_def io_then_def say_eq io_either_eq on_system_eq)
qed

subsection \<open>A concrete system\<close>

definition demo_host_route :: string where
  "demo_host_route = ''192.0.2.1 dev tun0 src 10.44.0.1 uid 0'' @ CHR 0x0A # ''    cache''"

definition demo_report_os :: "unit os" where
  "demo_report_os = \<lparr>os_is_linux = True, os_euid = 0, os_env = (\<lambda>_. None),
     os_command = (\<lambda>program _ w. (demo_reply 0 (if program = ''ip'' then demo_host_route else []), w)),
     os_exists = (\<lambda>_ _. True), os_read = (\<lambda>_ _. Ok ''1''), os_read_link = (\<lambda>_ _. Ok ''net:[4026531840]''),
     os_read_dir = (\<lambda>_ _. Err []), os_create_dir_all = (\<lambda>_ w. (Ok (), w)),
     os_set_permissions = (\<lambda>_ _ w. (Ok (), w)), os_create_new = (\<lambda>_ w. (Ok (), w)),
     os_write_all = (\<lambda>_ _ w. (Ok (), w)), os_write = (\<lambda>_ _ w. (Ok (), w)),
     os_remove_file = (\<lambda>_ w. (Ok (), w)), os_open = (\<lambda>_ w. (Ok (), w)),
     os_lock_exclusive = (\<lambda>_ w. (Ok (), w)), os_unlock = (\<lambda>_ w. w)\<rparr>"

lemma trim_start_space: "trim_start (CHR '' '' # s) = trim_start s"
  by (subst trim_start.simps) (simp add: space_here)

lemma demo_host_route_lines:
  "map trim (str_lines demo_host_route)
    = [join '' '' ([''192.0.2.1''] @ [''dev'', ''tun0''] @ [''src'', ''10.44.0.1'', ''uid'', ''0'']), ''cache'']"
proof -
  have "str_lines demo_host_route = [''192.0.2.1 dev tun0 src 10.44.0.1 uid 0'', ''    cache'']"
    by (simp add: str_lines_def demo_host_route_def strip_cr_def ends_with_def starts_with_def)
  moreover have "trim ''192.0.2.1 dev tun0 src 10.44.0.1 uid 0'' = ''192.0.2.1 dev tun0 src 10.44.0.1 uid 0''"
    unfolding trim_def
    by (subst trim_start_word, simp_all add: is_ascii_alphanumeric_def is_ascii_digit_def,
        rule trim_end_word, simp_all add: is_ascii_alphanumeric_def is_ascii_digit_def)
  moreover have "trim ''    cache'' = ''cache''"
    unfolding trim_def trim_start_space
    by (subst trim_start_word, simp_all add: is_ascii_alphanumeric_def is_ascii_digit_def,
        rule trim_end_word, simp_all add: is_ascii_alphanumeric_def is_ascii_digit_def)
  ultimately show ?thesis by simp
qed

lemma demo_status_read:
  "\<exists>s. gateway_status_of demo_report_os demo_plan () = (Ok s, ())
    \<and> gs_expected_rule_count s = 5 \<and> gs_owned_rule_count s = 0"
proof -
  have one: "trim ''1'' = ''1''" by (simp add: trim_alphanumeric is_ascii_alphanumeric_def is_ascii_digit_def)
  have mtu: "parse_u16 ''1'' = Some 1"
    by (simp add: parse_u16_def read_number_def to_digit_def digits_value_def)
  have none: "str_lines [] = []" by (simp add: str_lines_def)
  have rules: "\<exists>ps. rule_states demo_report_os rs () = (Ok ps, ())" for rs
    by (induction rs) (auto simp: rule_exists_def run_iptables_def io_then_def io_context_def io_call_def
        demo_report_os_def demo_reply_def iptables_program_def)
  have owned: "count_owned_in demo_report_os tag locs n () = (Ok n, ())" for tag locs n
    by (induction locs arbitrary: n) (simp_all add: list_iptables_chain_def run_iptables_def io_then_def
        io_context_def io_call_def demo_report_os_def demo_reply_def iptables_program_def none po_success_def)
  obtain ps where ps: "rule_states demo_report_os (gp_rules demo_plan) () = (Ok ps, ())" using rules by blast
  have env: "os_is_linux demo_report_os" "os_exists demo_report_os p u"
      "os_read demo_report_os p u = Ok ''1''" "os_read_link demo_report_os p u = Ok ''net:[4026531840]''"
      "os_env demo_report_os v = None" for p u v
    by (simp_all add: demo_report_os_def)
  have count: "length (gp_rules demo_plan) = 5" by (simp add: demo_plan_def demo_rules_def plan_rules_def)
  show ?thesis
    by (simp add: gateway_status_of_def ensure_linux_def read_ip_forward_def read_interface_mtu_def
        state_paths_new_def network_namespace_id_def io_then_def io_context_def io_query_def env one mtu ps
        count_owned_rules_def owned count is_ascii_digit_def Let_def)
qed

subsection \<open>Properties\<close>

text \<open>Once the status of the gateway could be read, the status command prints a report and
succeeds exactly if the status is healthy, which is the case exactly if no line of the report is
marked as failed or as a warning.\<close>

lemma status_report_tells_health:
  assumes "gateway_status_of sys plan w = (Ok s, w1)"
  shows "\<exists>report. status_command sys plan (w, shown)
      = (if healthy s then Ok () else Err [''gateway configuration is incomplete''], (w1, shown @ report))
    \<and> (healthy s \<longleftrightarrow> (\<forall>l \<in> set report. \<not> bad_line l))"
proof -
  obtain more where p: "print_status sys plan s (w1, shown) = (Ok (), (w1, shown @ status_lines plan s @ more))"
    and more: "\<forall>l \<in> set more. \<not> bad_line l"
    using print_status_law [of sys plan s w1 shown] by blast
  have "healthy s \<longleftrightarrow> (\<forall>l \<in> set (status_lines plan s @ more). \<not> bad_line l)"
    using status_lines_tell_health [of plan s] more by auto
  moreover have "status_command sys plan (w, shown) = (if healthy s then Ok ()
      else Err [''gateway configuration is incomplete''], (w1, shown @ status_lines plan s @ more))"
    by (simp add: status_command_def io_then_def on_system_eq assms p)
  ultimately show ?thesis by blast
qed

lemma status_report_tells_health_witness:
  "\<exists>s report. gateway_status_of demo_report_os demo_plan () = (Ok s, ()) \<and> \<not> healthy s
    \<and> status_command demo_report_os demo_plan ((), [])
      = (Err [''gateway configuration is incomplete''], ((), report)) \<and> (\<exists>l \<in> set report. bad_line l)"
proof -
  obtain s where s: "gateway_status_of demo_report_os demo_plan () = (Ok s, ())"
    and "gs_expected_rule_count s = 5" "gs_owned_rule_count s = 0"
    using demo_status_read by blast
  then have "\<not> healthy s" by (simp add: healthy_def)
  with status_report_tells_health [OF s, of "[]"] s show ?thesis by auto
qed

text \<open>On Linux, \<open>ip route get\<close> prints the device in the middle of its line, and the diagnosis
looks for it at the end of the line: although the current route to a captured endpoint runs
through the tunnel device, as the test that the route manager uses on such lines tells, \<open>doctor\<close>
reports that it does not, and no failure.\<close>

lemma doctor_misses_captured_route:
  assumes "os_is_linux sys" and "po_success out"
    and "os_command sys ''ip'' [''route'', ''get'', show_ip (sa_ip (peer_endpoint_addr peer))] w = (Ok out, w1)"
    and "map trim (str_lines (po_stdout out)) = [join '' '' (before @ [''dev'', interface] @ after), ''cache'']"
    and "\<forall>t \<in> set (before @ interface # after). printable_word t" and "''dev'' \<notin> set before"
    and "after \<noteq> []" and "last after \<noteq> interface"
  shows "route_line_uses_dev (join '' '' (before @ [''dev'', interface] @ after)) interface
    \<and> (\<exists>report. check_endpoint sys interface peer (w, shown) = (Ok (), (w1, shown @ report))
      \<and> ''  OK current host route does not appear to use '' @ interface \<in> set report
      \<and> (\<forall>l \<in> set report. \<not> starts_with l ''  FAIL''))"
proof -
  let ?ts = "before @ [''dev'', interface] @ after"
  have words: "\<forall>t \<in> set ?ts. printable_word t" using assms(5) by (auto simp: printable_word_def)
  then have "\<not> uses_interface (po_stdout out) interface"
    using assms(5,7,8) no_space_in_word by (intro listing_without_interface [OF assms(4)]) auto
  then have lines: "host_route_lines interface (po_stdout out)
      = (''  OK current host route does not appear to use '' @ interface)
        # map (\<lambda>line. ''    '' @ line) (summary_lines (po_stdout out))"
    by (simp add: host_route_lines_def)
  have "route_line_uses_dev (join '' '' ?ts) interface"
    unfolding route_line_uses_dev_def split_join [OF words] line_uses_dev_words [OF assms(6)] ..
  moreover have "\<exists>report. check_endpoint sys interface peer (w, shown) = (Ok (), (w1, shown @ report))
      \<and> ''  OK current host route does not appear to use '' @ interface \<in> set report
      \<and> (\<forall>l \<in> set report. \<not> starts_with l ''  FAIL'')"
    unfolding check_endpoint_linux [OF assms(1-3)] lines
    by (intro exI conjI, rule refl) (simp_all add: starts_with_def)
  ultimately show ?thesis by blast
qed

lemma doctor_misses_captured_route_witness:
  "\<exists>report. check_endpoint demo_report_os ''tun0'' (route_peer (hd (routes demo_router))) ((), [])
      = (Ok (), ((), report))
    \<and> ''  OK current host route does not appear to use tun0'' \<in> set report"
proof -
  let ?peer = "route_peer (hd (routes demo_router))"
  let ?out = "\<lparr>po_code = Some 0, po_stdout = demo_host_route, po_stderr = []\<rparr>"
  have run: "os_command demo_report_os ''ip'' [''route'', ''get'', show_ip (sa_ip (peer_endpoint_addr ?peer))] ()
      = (Ok ?out, ())"
    by (simp add: demo_report_os_def demo_reply_def)
  have lines: "map trim (str_lines (po_stdout ?out))
      = [join '' '' ([''192.0.2.1''] @ [''dev'', ''tun0''] @ [''src'', ''10.44.0.1'', ''uid'', ''0'']), ''cache'']"
    using demo_host_route_lines by simp
  have "po_success ?out" by (simp add: po_success_def)
  moreover have "os_is_linux demo_report_os" by (simp add: demo_report_os_def)
  moreover have "\<forall>t \<in> set ([''192.0.2.1''] @ ''tun0'' # [''src'', ''10.44.0.1'', ''uid'', ''0'']). printable_word t"
    by (simp add: printable_word_def)
  ultimately show ?thesis
    using doctor_misses_captured_route [OF _ _ run lines, where shown = "[]"] by auto
qed

end
