(* ===== verification/Program.thy ===== *)
theory Program
  imports Daemon Cli_Props
begin

text \<open>
  The rest of \<^verbatim>\<open>src/src/main.rs\<close>: the subcommands \<open>up\<close> and \<open>genkey\<close>, and the whole
  command. Arguments are parsed by the \<^verbatim>\<open>clap\<close> crate. The random generator, the keys of
  X25519 and base64 are parameters. \<open>up\<close> gives the daemon that its threads then run.
\<close>

subsection \<open>New keys\<close>

record 'w keygen =
  kg_fill_bytes :: "nat \<Rightarrow> 'w \<Rightarrow> bytes \<times> 'w"
  kg_secret :: "bytes \<Rightarrow> bytes"
  kg_public :: "bytes \<Rightarrow> bytes"
  kg_encode :: "bytes \<Rightarrow> string"

definition genkey :: "'w keygen \<Rightarrow> ('w, unit) console" where
  "genkey K =
    io_then (\<lambda>(w, out). case kg_fill_bytes K 32 w of (bytes, w1) \<Rightarrow> (Ok bytes, (w1, out))) (\<lambda>secret_bytes.
      let secret = kg_secret K secret_bytes in
      say [''PrivateKey = '' @ kg_encode K secret,
           ''PublicKey  = '' @ kg_encode K (kg_public K secret),
           [],
           ''# Put PrivateKey in your [interface] section.'',
           ''# Put the peer'' @ [CHR 0x27] @ ''s PublicKey in their ['' @ ''[peer]'' @ ''] section.''])"

subsection \<open>The command\<close>

datatype command = Inspect cli_command | Up string bool | Genkey

definition up_command ::
    "'net libs \<Rightarrow> 'net texts \<Rightarrow> (string \<Rightarrow> (string, 'net config) result) \<Rightarrow> 'w os
      \<Rightarrow> ('net, 's, 'l, 'w) daemon_lib \<Rightarrow> string \<Rightarrow> bool \<Rightarrow> ('w, ('net, 'hs, 'ts, 's, 'l) daemon) io" where
  "up_command L T toml sys D path exit_node =
    io_then (config_load L T toml sys path) (\<lambda>cfg.
      io_context ''tunnel stopped'' (daemon_start L T sys D cfg exit_node))"

fun main_command ::
    "'net libs \<Rightarrow> 'net texts \<Rightarrow> (string \<Rightarrow> (string, 'net config) result) \<Rightarrow> 'w os
      \<Rightarrow> ('net, 's, 'l, 'w) daemon_lib \<Rightarrow> 'w keygen \<Rightarrow> command
      \<Rightarrow> ('w, ('net, 'hs, 'ts, 's, 'l) daemon option) console" where
  "main_command L T toml sys D K (Inspect c) = io_then (run_command L T toml sys c) (\<lambda>_. io_ok None)"
| "main_command L T toml sys D K (Up path exit_node) =
    io_then (on_system (up_command L T toml sys D path exit_node)) (\<lambda>d. io_ok (Some d))"
| "main_command L T toml sys D K Genkey = io_then (genkey K) (\<lambda>_. io_ok None)"

definition main_program ::
    "'net libs \<Rightarrow> 'net texts \<Rightarrow> (string \<Rightarrow> (string, 'net config) result) \<Rightarrow> 'w os
      \<Rightarrow> ('net, 's, 'l, 'w) daemon_lib \<Rightarrow> 'w keygen \<Rightarrow> 'w posix \<Rightarrow> bool \<Rightarrow> command
      \<Rightarrow> ('w, ('net, 'hs, 'ts, 's, 'l) daemon option) console" where
  "main_program L T toml sys D K px detach c = main_start px detach (main_command L T toml sys D K c)"

subsection \<open>Commands that only read\<close>

fun config_path :: "command \<Rightarrow> string option" where
  "config_path (Inspect (Check path)) = Some path"
| "config_path (Inspect (RouteTo path destination)) = Some path"
| "config_path (Inspect (Explain path destination)) = Some path"
| "config_path (Inspect (PlanRoutes path)) = Some path"
| "config_path (Inspect (Doctor path exit_node)) = Some path"
| "config_path (Inspect (GatewayPlanCommand path)) = Some path"
| "config_path (Inspect (GatewayApply path)) = Some path"
| "config_path (Inspect (GatewayStatusCommand path)) = Some path"
| "config_path (Inspect (GatewayRemove path)) = Some path"
| "config_path (Up path exit_node) = Some path"
| "config_path Genkey = None"

text \<open>The commands that inspect, other than the doctor and the status of the gateway, run no program.\<close>

fun only_prints :: "command \<Rightarrow> bool" where
  "only_prints (Inspect (Check path)) = True"
| "only_prints (Inspect (RouteTo path destination)) = True"
| "only_prints (Inspect (Explain path destination)) = True"
| "only_prints (Inspect (PlanRoutes path)) = True"
| "only_prints (Inspect (GatewayPlanCommand path)) = True"
| "only_prints _ = False"

lemma bad_configuration_changes_nothing:
  assumes "config_path c = Some path" and "config_load L T toml sys path w = (Err e, w)"
  shows "main_command L T toml sys D K c (w, out) = (Err e, (w, out))"
  using assms by (cases c rule: config_path.cases)
    (simp_all add: io_then_def on_system_def load_both_def load_plan_def up_command_def)

lemma config_load_state: "config_load L T toml sys path w = (r, w') \<Longrightarrow> w' = w"
  by (simp add: config_load_def)

lemma only_prints_changes_nothing:
  assumes "only_prints c" and "main_command L T toml sys D K c (w, out) = (r, (w', out'))"
  shows "w' = w"
  using assms by (cases c rule: only_prints.cases)
    (auto simp: io_then_def on_system_def load_both_def load_plan_def say_def io_ok_def
      split: prod.splits sum.splits dest!: config_load_state)

end
