(* ===== verification/Spec2Isabelle.thy ===== *)
theory Spec2Isabelle
  imports End_To_End Gateway_Rollback Ffi_Props Lifecycle Engine_Runs Tcp_Threads Program
begin

text \<open>
  HushWire is a layer-3 tunnel: a daemon (\<^verbatim>\<open>src/src/main.rs\<close>, \<^verbatim>\<open>src/src/tunnel.rs\<close>) or a platform
  application (through \<^verbatim>\<open>src/src/ffi.rs\<close>) hands IP packets to an engine, which routes them to peers
  and exchanges Noise-encrypted packets with them over UDP or TCP. This development models the Rust
  crate, component by component, and proves what makes each one correct.

  \<^bold>\<open>The program and the theories\<close>

  Data flows from the wire inwards. The framing of \<^verbatim>\<open>auth.rs\<close> (theory \<open>Auth\<close>) carries handshake and
  transport packets; a session of \<^verbatim>\<open>noise.rs\<close> (\<open>Noise\<close>) encrypts under a counter and accepts each
  counter once, by the window of \<^verbatim>\<open>replay.rs\<close> (\<open>Replay\<close>). The \<open>SessionManager\<close> of \<^verbatim>\<open>engine.rs\<close>
  (\<open>Sessions\<close>) keeps, per peer, an active session, a receive-only previous one, a responder
  candidate, a pending exchange and a cached response. The \<open>Engine\<close> of \<^verbatim>\<open>engine.rs\<close> (\<open>Engine\<close>) combines
  it with the routing table of \<^verbatim>\<open>router.rs\<close> (\<open>Router\<close>), the header view of \<^verbatim>\<open>packet.rs\<close> (\<open>Packet\<close>) and
  the endpoints learned in \<^verbatim>\<open>state.rs\<close> (\<open>PeerState\<close>); \<open>Engine_Threads\<close> has its calls at the
  granularity of its locks, and \<open>Engine_Runs\<close> follows them through runs of threads. It is all made from a configuration validated by
  \<^verbatim>\<open>config.rs\<close> (\<open>Config\<close>). The tick of \<^verbatim>\<open>scheduler.rs\<close> (\<open>Scheduler\<close>) drives it in time. Two adapters
  own an engine: the C interface of \<^verbatim>\<open>ffi.rs\<close> (\<open>Ffi\<close>, and \<open>Lifecycle\<close> for its lock under threads), and
  the daemon of \<^verbatim>\<open>tunnel.rs\<close> (\<open>Tunnel\<close> for the rounds of its loops, \<open>Daemon\<close> for start-up and signals)
  with the transports of \<^verbatim>\<open>transport.rs\<close> (\<open>Udp\<close>) and \<^verbatim>\<open>tcp_transport.rs\<close> (\<open>Tcp\<close>, and \<open>Tcp_Threads\<close>
  for its threads), the routes of \<^verbatim>\<open>routing.rs\<close> (\<open>Routing\<close>) and the exit-node firewall of \<^verbatim>\<open>firewall.rs\<close>
  (\<open>Firewall\<close>). The gateway of \<^verbatim>\<open>gateway.rs\<close> (\<open>Gateway\<close>) installs forwarding rules for a LAN. The command
  line of \<^verbatim>\<open>main.rs\<close>, \<^verbatim>\<open>doctor.rs\<close> and \<^verbatim>\<open>process.rs\<close> is in \<open>Reports\<close> (what is printed), \<open>Cli\<close> (loading
  and the subcommands that inspect) and \<open>Program\<close> (\<open>up\<close>, \<open>genkey\<close> and the whole command). Two theories
  compose what the others model: \<open>Connection\<close> has two engines that shake hands and talk, \<open>End_To_End\<close>
  two daemons with a network between their TUN devices.

  \<open>Prelude\<close>, \<open>RustStd\<close>, \<open>RustNet\<close> and \<open>Os\<close> hold what the source uses of its language: machine integers,
  results, hash maps, big-endian encodings, addresses with their parsers, text processing, \<open>anyhow\<close>
  errors and the calls of the operating system.

  \<^bold>\<open>How state and errors are represented\<close>

  A struct is a \<open>record\<close>, an enum a \<open>datatype\<close>, an integer a word of its width or, where it never
  reaches its bound, a natural number. A method that takes a lock for its whole body is one function
  from the locked state to its result and the new state; effects that come before an early return are
  kept in the error branch. Fallible functions return \<open>Err e\<close> or \<open>Ok x\<close> (a sum); calls of \<open>expect\<close>
  and copies that could panic are errors of their own. Code that is not in the repository is a
  parameter: \<open>runtime\<close> (snow, random bytes, the clock), \<open>libs\<close> and \<open>texts\<close> (ipnet, base64, DNS,
  Display), \<open>os\<close> (files, locks and programs), \<open>socket_lib\<close>, \<open>listener_lib\<close>, \<open>signal_lib\<close>, \<open>daemon_lib\<close>,
  \<open>keygen\<close>, \<open>posix\<close>, and the platform's callbacks of the C interface. What a theorem needs of such
  code is a hypothesis that states its documented behaviour, and a witness instantiates it with a
  concrete sample (\<open>demo_runtime\<close>, \<open>demo_libs\<close>, \<open>demo_os\<close>, \<open>demo_host\<close>, \<open>demo_system_os\<close>).

  \<^bold>\<open>Interfaces\<close>

  \<^item> \<open>state_machine\<close> (\<open>Prelude\<close>): initial states, steps and an invariant, with the lemmas on reachable
    states. It is interpreted on the session manager (\<open>manager\<close>), the engine (\<open>packet_engine\<close>,
    and \<open>engine_threads\<close> with interleaved calls), the daemon's loops (\<open>daemon\<close>), the C interface (\<open>ffi\<close>), its lock (\<open>lifecycle\<close>) and the TCP transport
    (\<open>tcp\<close>).
  \<^item> \<open>codec\<close> (\<open>Auth\<close>): what an encoder and a decoder owe each other; interpreted on the wire format
    (\<open>wire\<close>) and the transport plaintext (\<open>plaintext\<close>).
  \<^item> \<open>replay_guard\<close> (\<open>Replay\<close>): what a session needs of its replay protection; interpreted on the
    window (\<open>window\<close>).

  \<^bold>\<open>What is shown\<close>

  \<^item> Cryptographic state. The bit window refines the set of counters seen (\<open>replay_window_refines\<close>); no
    counter is delivered twice and no nonce is used twice, across rekeying and roaming
    (\<open>never_delivered_twice\<close>, \<open>nonces_never_reused\<close>); a packet that is not
    authentic changes nothing (\<open>forged_packet_inert\<close>).
  \<^item> Sessions. The manager's invariant holds under every interleaving of its methods
    (\<open>manager_invariant\<close>); only an authenticated packet replaces an active session; a crossing of two
    young initiations has one winner, passive peers in recovery apart; packets in flight survive a rekey.
  \<^item> The engine. Every operation is a sequence of manager calls, also when calls of several
    threads interleave at its locks, and over a whole run of threads the deliveries under one counter
    are counted (\<open>threads_keep_guarantees\<close>) and each is traced to the section that opened its packet
    (\<open>interleaved_delivery_authentic\<close>); what is delivered was authenticated by a live session of the
    reported peer; an outbound packet is encrypted and sent to the routed peer or dropped
    (\<open>outbound_decision\<close>); endpoints are learned from authenticated packets only; the tick rate-limits its recoveries. Two engines that know each other
    connect with four frames (\<open>handshake_connects\<close>), so that two daemons come up from a cold start
    (\<open>tunnel_comes_up\<close>), and then carry every packet from one TUN device to the other
    (\<open>tunnel_carries_packets\<close>).
  \<^item> Routing and configuration. Longest-prefix lookup with exclusions, the exact set of accepted
    configurations, and the exact set of decodable packets.
  \<^item> Transports. Over any fragmentation the frames read are a prefix of those accepted; under every
    interleaving of threads each stream carries whole frames in lock order; a call that is not
    disturbed is the sequential one; a UDP rebind moves every clone at once.
  \<^item> The host. Routes are installed in a safe order, and a failed set-up as well as the clean-up restore
    the table; the daemon restores routes, firewall and forwarding when a signal ends it; the gateway
    is idempotent, all or nothing when it is applied for the first time, and its removal restores the
    host also beside other gateways. What is assumed of \<^verbatim>\<open>iptables\<close> concerns the three chains that the
    gateway manages (\<open>owned_rule_locations\<close>) and the rules of its plan only.
  \<^item> The C interface. Refused calls change nothing, the runtime keeps its invariant, calls and stops
    that interleave never see an erased engine.
  \<^item> Behaviour that the theorems reveal and that is unlikely to be meant: two threads that dial at once
    lose a frame, a packet in flight undoes an endpoint update, a stop that
    waits can erase a newer engine, a refused response cancels its exchange, a failed update of the
    gateway loses the old policy, a firewall failure leaves the routes behind, and \<open>doctor\<close> overlooks
    captured host routes.

  \<^bold>\<open>Threads\<close>

  The session manager, the peer state and the scheduler are shared under locks, so that threads appear
  as arbitrary sequences of their operations, which the step relations allow. What is shown of the
  session manager holds between any two of its methods, whichever threads call them. The calls of the
  engine, the lifecycle lock and the TCP connections, where one call takes several locked sections,
  have models in which the sections of several threads interleave. In \<open>Engine_Threads\<close> a call is a
  value of type \<open>sections\<close>: what its thread does in the next locked section, and how it goes on with
  what it saw there. \<open>call_alone_is_sequential\<close> relates these to the definitions of \<open>Engine\<close>, so
  that what is shown of those holds of a call that no other thread disturbs; the theorems of
  \<open>Engine_Runs\<close> hold for all interleavings. There a computation is \<open>sound\<close> when each of its sections
  keeps a guarantee from whatever state other threads left: the invariant of the engine, and that no
  counter of an installed session becomes fresh again. The receiver of
  the UDP transport lets other threads act between its rounds.

  \<^bold>\<open>Bounds and fuel\<close>

  The removal of owned rules ends because the code removes at most 128 of them, which is its measure.
  The printer of numbers has the value plus one as fuel, at least the number of digits. A route deletion is tried
  \<open>DELETE_ATTEMPTS\<close> = 3 times. The loops of the transports that may wait for ever are
  \<open>partial_function (option)\<close> or recursions over the sequence of results that the kernel's calls
  return; \<open>None\<close> is a call that has not returned, and \<open>reading_returns\<close> says when it does. The
  conversation of \<open>tunnel_carries_packets\<close> stays within the 120 seconds and the number of messages that a
  session lasts without a rekey.

  \<^bold>\<open>Not modelled\<close>

  Log lines, but for what the daemon reports of its peers and handshakes; the parsing of arguments (clap) and of TOML (serde);
  poisoned locks, panics caught at the C boundary and callbacks that call back into the runtime;
  socket options; the sleeping between attempts and the retry of an interrupted \<open>flock\<close>; helpers that
  exist for the tests of \<^verbatim>\<open>tunnel.rs\<close> only. \<^verbatim>\<open>lib.rs\<close> only declares modules. The Swift applications
  under \<^verbatim>\<open>src/ios\<close> and \<^verbatim>\<open>src/macos\<close>, the scripts and the service files are other programs around this
  crate.
\<close>

end
